(* ===== verification/Prelude.thy ===== *)
theory Prelude
  imports Main "HOL-Library.Word" "HOL-Library.Sublist" "HOL-Library.Code_Target_Numeral"
begin

text \<open>
  Shared vocabulary of the development.

  \<^item> \<open>'a res\<close>-style values: a Rust \<open>Result<T, E>\<close> is a sum \<open>'e + 'a\<close> with \<open>Inl\<close> the error.
    \<open>rbind\<close> is the question-mark operator, \<open>ensure\<close> an early \<open>return Err(..)\<close> guard, \<open>ok_or\<close> is
    \<open>Option::ok_or_else\<close>, \<open>each\<close> a \<open>for\<close> loop whose body may return early with an error and
    \<open>each_fresh\<close> the \<open>if !seen.insert(..) { return Err(..) }\<close> loop over a \<open>HashSet\<close>.
  \<^item> machine integers: \<open>checked_succ\<close> and \<open>sat_succ\<close> are \<open>checked_add(1)\<close> and
    \<open>saturating_add(1)\<close> on words.
  \<^item> step systems: \<open>reach\<close> is reachability from the initial states of a step relation, \<open>run\<close>
    counts the steps of a finite execution. The locales \<open>invariant_system\<close>, \<open>bounded_retry\<close> and
    \<open>verdict_system\<close> are the contracts the state machines of the program are shown to meet; the
    machine theories interpret them on their own step functions.
\<close>

named_theorems res_simps \<open>how error values flow through the sequencing combinators\<close>
named_theorems res_elims \<open>what a successful sequenced computation went through\<close>
named_theorems inv_simps \<open>unfolding of the well-formedness invariants\<close>

section \<open>Results\<close>

definition rbind :: "'e + 'a \<Rightarrow> ('a \<Rightarrow> 'e + 'b) \<Rightarrow> 'e + 'b" where
  "rbind r k = (case r of Inl e \<Rightarrow> Inl e | Inr a \<Rightarrow> k a)"

definition ensure :: "bool \<Rightarrow> 'e \<Rightarrow> 'e + unit" where
  "ensure c e = (if c then Inr () else Inl e)"

definition ok_or :: "'a option \<Rightarrow> 'e \<Rightarrow> 'e + 'a" where
  "ok_or x e = (case x of None \<Rightarrow> Inl e | Some a \<Rightarrow> Inr a)"

primrec each :: "('a \<Rightarrow> 'e + unit) \<Rightarrow> 'a list \<Rightarrow> 'e + unit" where
  "each f [] = Inr ()"
| "each f (x # xs) = rbind (f x) (\<lambda>_. each f xs)"

primrec each_fresh :: "('a \<Rightarrow> 'k) \<Rightarrow> 'e \<Rightarrow> 'k set \<Rightarrow> 'a list \<Rightarrow> 'e + unit" where
  "each_fresh key e seen [] = Inr ()"
| "each_fresh key e seen (x # xs) =
     (if key x \<in> seen then Inl e else each_fresh key e (insert (key x) seen) xs)"

definition is_ok :: "'e + 'a \<Rightarrow> bool" where
  "is_ok r = (case r of Inl _ \<Rightarrow> False | Inr _ \<Rightarrow> True)"

section \<open>Machine integers\<close>

definition checked_succ :: "'w::len word \<Rightarrow> 'w word option" where
  "checked_succ w = (if w = - 1 then None else Some (w + 1))"

definition sat_succ :: "'w::len word \<Rightarrow> 'w word" where
  "sat_succ w = (if w = - 1 then w else w + 1)"

section \<open>Step systems\<close>

inductive reach :: "('s \<Rightarrow> bool) \<Rightarrow> ('s \<Rightarrow> 's \<Rightarrow> bool) \<Rightarrow> 's \<Rightarrow> bool"
  for I :: "'s \<Rightarrow> bool" and R :: "'s \<Rightarrow> 's \<Rightarrow> bool" where
  reach_init: "I s \<Longrightarrow> reach I R s"
| reach_step: "reach I R s \<Longrightarrow> R s t \<Longrightarrow> reach I R t"

text \<open>\<open>run R s n t\<close>: an execution of \<open>R\<close> leads from \<open>s\<close> to \<open>t\<close> in exactly \<open>n\<close> steps.\<close>

inductive run :: "('s \<Rightarrow> 's \<Rightarrow> bool) \<Rightarrow> 's \<Rightarrow> nat \<Rightarrow> 's \<Rightarrow> bool"
  for R :: "'s \<Rightarrow> 's \<Rightarrow> bool" where
  run_refl: "run R s 0 s"
| run_step: "run R s n t \<Longrightarrow> R t u \<Longrightarrow> run R s (Suc n) u"

section \<open>Lemmas on results\<close>

lemma rbind_Inl [simp, res_simps]: "rbind (Inl e) k = Inl e"
  by (simp add: rbind_def)

lemma rbind_Inr [simp, res_simps]: "rbind (Inr a) k = k a"
  by (simp add: rbind_def)

lemma rbind_eq_Inr [res_elims]: "rbind r k = Inr b \<longleftrightarrow> (\<exists>a. r = Inr a \<and> k a = Inr b)"
  by (cases r) auto

lemma rbind_eq_Inl: "rbind r k = Inl e \<longleftrightarrow> r = Inl e \<or> (\<exists>a. r = Inr a \<and> k a = Inl e)"
  by (cases r) auto

lemma rbind_assoc: "rbind (rbind r f) g = rbind r (\<lambda>a. rbind (f a) g)"
  by (cases r) auto

lemma ensure_eq_Inr [simp, res_elims]: "ensure c e = Inr u \<longleftrightarrow> c"
  by (simp add: ensure_def)

lemma ensure_eq_Inl [simp, res_elims]: "ensure c e = Inl e' \<longleftrightarrow> \<not> c \<and> e' = e"
  by (auto simp: ensure_def)

lemma ensure_True [simp]: "ensure True e = Inr ()"
  by (simp add: ensure_def)

lemma ensure_False [simp]: "ensure False e = Inl e"
  by (simp add: ensure_def)

lemma ok_or_eq_Inr [simp, res_elims]: "ok_or x e = Inr a \<longleftrightarrow> x = Some a"
  by (cases x) (auto simp: ok_or_def)

lemma ok_or_eq_Inl [simp, res_elims]: "ok_or x e = Inl e' \<longleftrightarrow> x = None \<and> e' = e"
  by (cases x) (auto simp: ok_or_def)

lemma ok_or_simps [simp]: "ok_or None e = Inl e" "ok_or (Some a) e = Inr a"
  by (simp_all add: ok_or_def)

lemma is_ok_simps [simp]: "is_ok (Inl e) = False" "is_ok (Inr a) = True"
  by (simp_all add: is_ok_def)

lemma each_Inr [simp, res_elims]: "each f xs = Inr u \<longleftrightarrow> (\<forall>x \<in> set xs. f x = Inr ())"
  by (induction xs) (auto simp: rbind_eq_Inr)

text \<open>The error a loop stops with is the first one its body reports.\<close>

lemma each_Inl:
  "each f xs = Inl e \<longleftrightarrow>
     (\<exists>ys x zs. xs = ys @ x # zs \<and> (\<forall>y \<in> set ys. f y = Inr ()) \<and> f x = Inl e)"
  (is "_ \<longleftrightarrow> ?split xs")
proof (induction xs)
  case Nil
  then show ?case by simp
next
  case (Cons a xs)
  show ?case
  proof (cases "f a")
    case (Inl e')
    then have "?split (a # xs) \<longleftrightarrow> e' = e"
      by (fastforce simp: Cons_eq_append_conv)
    with Inl show ?thesis by simp
  next
    case (Inr u)
    have "?split (a # xs) \<longleftrightarrow> ?split xs"
    proof
      assume "?split (a # xs)"
      then obtain ys x zs where "a # xs = ys @ x # zs" "\<forall>y \<in> set ys. f y = Inr ()"
        "f x = Inl e" by blast
      then have "xs = tl ys @ x # zs \<and> (\<forall>y \<in> set (tl ys). f y = Inr ()) \<and> f x = Inl e"
        using Inr by (cases ys) auto
      then show "?split xs" by blast
    next
      assume "?split xs"
      then obtain ys x zs where "xs = ys @ x # zs" "\<forall>y \<in> set ys. f y = Inr ()" "f x = Inl e"
        by blast
      then have "a # xs = (a # ys) @ x # zs \<and> (\<forall>y \<in> set (a # ys). f y = Inr ()) \<and> f x = Inl e"
        using Inr by simp
      then show "?split (a # xs)" by blast
    qed
    with Inr Cons.IH show ?thesis by simp
  qed
qed

lemma each_fresh_Inr [simp, res_elims]:
  "each_fresh key e seen xs = Inr u \<longleftrightarrow> distinct (map key xs) \<and> key ` set xs \<inter> seen = {}"
  by (induction xs arbitrary: seen) auto

lemma each_fresh_Inl [simp, res_elims]:
  "each_fresh key e seen xs = Inl e' \<longleftrightarrow>
     e' = e \<and> \<not> (distinct (map key xs) \<and> key ` set xs \<inter> seen = {})"
  by (induction xs arbitrary: seen) auto

section \<open>Lemmas on words\<close>

lemma unat_max_word_iff: "unat (w :: 'w::len word) = 2 ^ LENGTH('w) - 1 \<longleftrightarrow> w = - 1"
proof
  assume "unat w = 2 ^ LENGTH('w) - 1"
  then have "unat w = unat (- 1 :: 'w word)"
    by (simp add: unsigned_minus_1_eq_mask mask_eq_exp_minus_1)
  then show "w = - 1" by (rule unsigned_word_eqI)
next
  assume "w = - 1"
  then show "unat w = 2 ^ LENGTH('w) - 1"
    by (simp add: unsigned_minus_1_eq_mask mask_eq_exp_minus_1)
qed

lemma checked_succ_Some:
  assumes "checked_succ w = Some v"
  shows "unat v = unat w + 1"
proof -
  from assms have "w \<noteq> - 1" and v: "v = w + 1"
    by (auto simp: checked_succ_def split: if_splits)
  then have "unat w \<noteq> 2 ^ LENGTH('a) - 1"
    using unat_max_word_iff by blast
  moreover have "unat w < 2 ^ LENGTH('a)" by simp
  ultimately have "unat w + 1 < 2 ^ LENGTH('a)" by linarith
  then show ?thesis by (simp add: v unat_word_ariths)
qed

lemma checked_succ_neq: "checked_succ w = Some v \<Longrightarrow> v \<noteq> w"
  by (auto dest: checked_succ_Some)

lemma sat_succ_unat: "unat (sat_succ (w :: 'w::len word)) = min (unat w + 1) (2 ^ LENGTH('w) - 1)"
proof (cases "w = - 1")
  case True
  then have "unat w = 2 ^ LENGTH('w) - 1" using unat_max_word_iff by blast
  with True show ?thesis by (simp add: sat_succ_def)
next
  case False
  then have "checked_succ w = Some (w + 1)" by (simp add: checked_succ_def)
  then have "unat (w + 1) = unat w + 1" by (rule checked_succ_Some)
  moreover have "unat (w + 1) < 2 ^ LENGTH('w)" by simp
  ultimately have "unat (w + 1) = min (unat w + 1) (2 ^ LENGTH('w) - 1)" by linarith
  then show ?thesis using False by (simp add: sat_succ_def)
qed

section \<open>Contracts of step systems\<close>

text \<open>An invariant that the initial states have and every step keeps holds in every reachable
  state.\<close>

locale invariant_system =
  fixes init :: "'s \<Rightarrow> bool" and step :: "'s \<Rightarrow> 's \<Rightarrow> bool" and inv :: "'s \<Rightarrow> bool"
  assumes inv_init: "init s \<Longrightarrow> inv s"
    and inv_step: "inv s \<Longrightarrow> step s t \<Longrightarrow> inv t"
begin

lemma reach_inv: "reach init step s \<Longrightarrow> inv s"
  by (induction rule: reach.induct) (auto intro: inv_init inv_step)

lemma run_inv: "run step s n t \<Longrightarrow> inv s \<Longrightarrow> inv t"
  by (induction rule: run.induct) (auto intro: inv_step)

end

text \<open>A retry loop: each retry step uses one unit of a counter which the invariant keeps below a
  limit that no step changes. The number of retries is then bounded by what is left.\<close>

locale bounded_retry =
  fixes retry :: "'s \<Rightarrow> 's \<Rightarrow> bool" and used :: "'s \<Rightarrow> nat" and limit :: "'s \<Rightarrow> nat"
  assumes retry_uses: "retry s t \<Longrightarrow> used t = Suc (used s)"
    and retry_limit: "retry s t \<Longrightarrow> limit t = limit s"
    and retry_below: "retry s t \<Longrightarrow> used s < limit s"
begin

lemma run_used: "run retry s n t \<Longrightarrow> used t = used s + n \<and> limit t = limit s"
  by (induction rule: run.induct) (auto simp: retry_uses retry_limit)

lemma run_bounded:
  assumes "run retry s n t"
  shows "n \<le> limit s - used s"
  using assms
proof (cases rule: run.cases)
  case run_refl
  then show ?thesis by simp
next
  case (run_step m u)
  then have "used u = used s + m" "limit u = limit s" by (auto dest: run_used)
  moreover from run_step have "used u < limit u" by (blast intro: retry_below)
  ultimately show ?thesis using run_step by simp
qed

lemma retry_wf: "wf {(t, s). retry s t}"
proof (rule wf_subset [OF wf_measure [of "\<lambda>s. limit s - used s"]])
  show "{(t, s). retry s t} \<subseteq> measure (\<lambda>s. limit s - used s)"
    using retry_below by (fastforce simp: retry_uses retry_limit)
qed

end

text \<open>A machine that reaches a verdict and never revises it.\<close>

locale verdict_system = invariant_system +
  fixes verdict :: "'s \<Rightarrow> 'v option"
  assumes verdict_kept: "inv s \<Longrightarrow> step s t \<Longrightarrow> verdict s = Some v \<Longrightarrow> verdict t = Some v"
begin

lemma run_verdict:
  assumes "run step s n t" and "inv s" and "verdict s = Some v"
  shows "verdict t = Some v"
  using assms by (induction rule: run.induct) (auto intro: verdict_kept run_inv)

end

end
