(* ===== verification/Effects.thy ===== *)
theory Effects
  imports Prelude
begin

text \<open>
  Fallible operations on a state: \<open>async fn\<close>s and \<open>&mut self\<close> methods that return a \<open>Result\<close>. An
  operation maps the state to its result and the state it leaves behind, on every path, so that what a
  failed call has already changed stays visible. \<open>sbind\<close> is the \<open>?\<close> operator between two calls,
  \<open>stry\<close> is a call whose result is matched on, and \<open>wp\<close> is the weakest precondition of an operation
  for a condition on its result and final state.
\<close>

type_synonym ('s, 'e, 'a) eff = "'s \<Rightarrow> ('e + 'a) \<times> 's"

section \<open>Sequencing\<close>

definition slift :: "'e + 'a \<Rightarrow> ('s, 'e, 'a) eff" where
  "slift r s = (r, s)"

definition sreturn :: "'a \<Rightarrow> ('s, 'e, 'a) eff" where
  "sreturn a s = (Inr a, s)"

definition sfail :: "'e \<Rightarrow> ('s, 'e, 'a) eff" where
  "sfail e s = (Inl e, s)"

definition sbind :: "('s, 'e, 'a) eff \<Rightarrow> ('a \<Rightarrow> ('s, 'e, 'b) eff) \<Rightarrow> ('s, 'e, 'b) eff" where
  "sbind m f s = (case m s of (Inl e, t) \<Rightarrow> (Inl e, t) | (Inr a, t) \<Rightarrow> f a t)"

definition stry :: "('s, 'e, 'a) eff \<Rightarrow> ('e + 'a \<Rightarrow> ('s, 'f, 'b) eff) \<Rightarrow> ('s, 'f, 'b) eff" where
  "stry m f s = (case m s of (r, t) \<Rightarrow> f r t)"

definition smap_err :: "'f \<Rightarrow> ('s, 'e, 'a) eff \<Rightarrow> ('s, 'f, 'a) eff" where
  "smap_err e m s = (case m s of (Inl _, t) \<Rightarrow> (Inl e, t) | (Inr a, t) \<Rightarrow> (Inr a, t))"

primrec seach :: "('a \<Rightarrow> ('s, 'e, unit) eff) \<Rightarrow> 'a list \<Rightarrow> ('s, 'e, unit) eff" where
  "seach f [] = sreturn ()"
| "seach f (x # xs) = sbind (f x) (\<lambda>_. seach f xs)"

section \<open>Weakest preconditions\<close>

definition wp :: "('s, 'e, 'a) eff \<Rightarrow> ('e + 'a \<Rightarrow> 's \<Rightarrow> bool) \<Rightarrow> 's \<Rightarrow> bool" where
  "wp m Q s = (case m s of (r, t) \<Rightarrow> Q r t)"

named_theorems wp_simps \<open>weakest preconditions of the sequencing operators\<close>

lemma wp_slift [wp_simps]: "wp (slift r) Q s = Q r s"
  by (simp add: wp_def slift_def)

lemma wp_sreturn [wp_simps]: "wp (sreturn a) Q s = Q (Inr a) s"
  by (simp add: wp_def sreturn_def)

lemma wp_sfail [wp_simps]: "wp (sfail e) Q s = Q (Inl e) s"
  by (simp add: wp_def sfail_def)

lemma wp_sbind [wp_simps]:
  "wp (sbind m f) Q s = wp m (\<lambda>r t. case r of Inl e \<Rightarrow> Q (Inl e) t | Inr a \<Rightarrow> wp (f a) Q t) s"
  by (auto simp: wp_def sbind_def split: prod.split sum.split)

lemma wp_stry [wp_simps]: "wp (stry m f) Q s = wp m (\<lambda>r t. wp (f r) Q t) s"
  by (auto simp: wp_def stry_def split: prod.split)

lemma wp_smap_err [wp_simps]:
  "wp (smap_err e m) Q s = wp m (\<lambda>r t. case r of Inl _ \<Rightarrow> Q (Inl e) t | Inr a \<Rightarrow> Q (Inr a) t) s"
  by (auto simp: wp_def smap_err_def split: prod.split sum.split)

lemma wp_mono: "wp m P s \<Longrightarrow> (\<And>r t. P r t \<Longrightarrow> Q r t) \<Longrightarrow> wp m Q s"
  by (auto simp: wp_def split: prod.splits)

lemma wp_conj: "wp m P s \<Longrightarrow> wp m Q s \<Longrightarrow> wp m (\<lambda>r t. P r t \<and> Q r t) s"
  by (auto simp: wp_def split: prod.splits)

lemma wpD: "wp m Q s \<Longrightarrow> m s = (r, t) \<Longrightarrow> Q r t"
  by (simp add: wp_def)

lemma wpI: "(\<And>r t. m s = (r, t) \<Longrightarrow> Q r t) \<Longrightarrow> wp m Q s"
  by (auto simp: wp_def split: prod.split)

text \<open>The step rule: what is known of the first call carries over to the rest.\<close>

lemma wp_step:
  assumes "wp m P s" and "\<And>e t. P (Inl e) t \<Longrightarrow> Q (Inl e) t" and "\<And>a t. P (Inr a) t \<Longrightarrow> wp (f a) Q t"
  shows "wp (sbind m f) Q s"
  unfolding wp_sbind using assms(1) by (rule wp_mono) (auto split: sum.split intro: assms(2,3))

lemma wp_try:
  assumes "wp m P s" and "\<And>r t. P r t \<Longrightarrow> wp (f r) Q t"
  shows "wp (stry m f) Q s"
  unfolding wp_stry using assms(1) by (rule wp_mono) (rule assms(2))

lemma wp_case_sum: "wp (case r of Inl e \<Rightarrow> f e | Inr a \<Rightarrow> g a) Q s \<longleftrightarrow>
    (case r of Inl e \<Rightarrow> wp (f e) Q s | Inr a \<Rightarrow> wp (g a) Q s)"
  by (simp split: sum.split)

section \<open>Invariants\<close>

text \<open>An operation keeps a projection of the state on every path.\<close>

definition keeps :: "('s \<Rightarrow> 'v) \<Rightarrow> ('s, 'e, 'a) eff \<Rightarrow> bool" where
  "keeps p m \<longleftrightarrow> (\<forall>s. p (snd (m s)) = p s)"

named_theorems keeps_intros \<open>operations that keep a part of the state\<close>

lemma keepsD: "keeps p m \<Longrightarrow> m s = (r, t) \<Longrightarrow> p t = p s"
  by (metis keeps_def snd_conv)

lemma keepsI:
  assumes "\<And>s r t. m s = (r, t) \<Longrightarrow> p t = p s"
  shows "keeps p m"
  unfolding keeps_def
proof
  fix s
  show "p (snd (m s)) = p s" using assms [of s "fst (m s)" "snd (m s)"] by simp
qed

lemma wp_keeps: "keeps p m \<Longrightarrow> wp m Q s \<Longrightarrow> wp m (\<lambda>r t. Q r t \<and> p t = p s) s"
  by (auto simp: wp_def dest: keepsD split: prod.splits)

lemma keeps_slift [keeps_intros]: "keeps p (slift r)"
  by (simp add: keeps_def slift_def)

lemma keeps_sreturn [keeps_intros]: "keeps p (sreturn a)"
  by (simp add: keeps_def sreturn_def)

lemma keeps_sfail [keeps_intros]: "keeps p (sfail e)"
  by (simp add: keeps_def sfail_def)

lemma keeps_sbind [keeps_intros]: "keeps p m \<Longrightarrow> (\<And>a. keeps p (f a)) \<Longrightarrow> keeps p (sbind m f)"
  by (auto simp: keeps_def sbind_def split: prod.split sum.split) (metis snd_conv)+

lemma keeps_stry [keeps_intros]: "keeps p m \<Longrightarrow> (\<And>r. keeps p (f r)) \<Longrightarrow> keeps p (stry m f)"
  by (auto simp: keeps_def stry_def split: prod.split) (metis snd_conv)+

lemma keeps_smap_err [keeps_intros]: "keeps p m \<Longrightarrow> keeps p (smap_err e m)"
  by (auto simp: keeps_def smap_err_def split: prod.split sum.split) (metis snd_conv)+

lemma keeps_seach [keeps_intros]: "(\<And>x. keeps p (f x)) \<Longrightarrow> keeps p (seach f xs)"
  by (induction xs) (auto intro: keeps_intros)

lemma keeps_if [keeps_intros]: "keeps p m \<Longrightarrow> keeps p n \<Longrightarrow> keeps p (if b then m else n)"
  by simp

lemma keeps_sum [keeps_intros]:
  "(\<And>e. keeps p (f e)) \<Longrightarrow> (\<And>a. keeps p (g a)) \<Longrightarrow> keeps p (case r of Inl e \<Rightarrow> f e | Inr a \<Rightarrow> g a)"
  by (simp split: sum.split)

lemma keeps_option [keeps_intros]:
  "keeps p m \<Longrightarrow> (\<And>a. keeps p (g a)) \<Longrightarrow> keeps p (case r of None \<Rightarrow> m | Some a \<Rightarrow> g a)"
  by (simp split: option.split)

lemma keeps_prod [keeps_intros]: "(\<And>a b. keeps p (f a b)) \<Longrightarrow> keeps p (case r of (a, b) \<Rightarrow> f a b)"
  by (simp split: prod.split)

lemma keeps_let [keeps_intros]: "(\<And>a. keeps p (f a)) \<Longrightarrow> keeps p (let a = r in f a)"
  by simp

text \<open>An operation changes the state at most as \<open>R\<close> allows, on every path.\<close>

definition within :: "('s \<Rightarrow> 's \<Rightarrow> bool) \<Rightarrow> ('s, 'e, 'a) eff \<Rightarrow> bool" where
  "within R m \<longleftrightarrow> (\<forall>s. R s (snd (m s)))"

lemma withinD: "within R m \<Longrightarrow> m s = (r, t) \<Longrightarrow> R s t"
  unfolding within_def by (metis snd_conv)

lemma within_sbind:
  assumes "transp R" and "within R m" and "\<And>a. within R (f a)"
  shows "within R (sbind m f)"
  unfolding within_def
proof
  fix s
  obtain r t where m: "m s = (r, t)" by (cases "m s")
  have "R s t" using m by (rule withinD [OF assms(2)])
  moreover have "R t (snd (f a t))" for a using assms(3) by (simp add: within_def)
  ultimately show "R s (snd (sbind m f s))"
    using m assms(1) by (cases r) (auto simp: sbind_def dest: transpD)
qed

lemma within_stry:
  assumes "transp R" and "within R m" and "\<And>a. within R (f a)"
  shows "within R (stry m f)"
  unfolding within_def
proof
  fix s
  obtain r t where m: "m s = (r, t)" by (cases "m s")
  have "R s t" using m by (rule withinD [OF assms(2)])
  moreover have "R t (snd (f r t))" using assms(3) by (simp add: within_def)
  ultimately show "R s (snd (stry m f s))" using m assms(1) by (auto simp: stry_def dest: transpD)
qed

lemma within_if: "(c \<Longrightarrow> within R m) \<Longrightarrow> (\<not> c \<Longrightarrow> within R n) \<Longrightarrow> within R (if c then m else n)"
  by simp

lemma within_option:
  "within R m \<Longrightarrow> (\<And>a. within R (f a)) \<Longrightarrow> within R (case x of None \<Rightarrow> m | Some a \<Rightarrow> f a)"
  by (cases x) simp_all

lemma within_sum:
  "(\<And>e. within R (f e)) \<Longrightarrow> (\<And>a. within R (g a)) \<Longrightarrow> within R (case x of Inl e \<Rightarrow> f e | Inr a \<Rightarrow> g a)"
  by (cases x) simp_all

lemma within_prod: "(\<And>a b. within R (f a b)) \<Longrightarrow> within R (case x of (a, b) \<Rightarrow> f a b)"
  by (cases x) simp

lemma within_Let: "within R (f a) \<Longrightarrow> within R (Let a f)"
  by simp

lemmas within_rules = within_if within_option within_sum within_prod within_Let

end
