(* ===== verification/Rust_Text.thy ===== *)
theory Rust_Text
  imports Prelude
begin

text \<open>
  What the program uses of Rust's \<open>str\<close>, \<open>char\<close> and \<open>Path\<close>.

  A \<open>String\<close> is the list of its Unicode scalar values (\<open>rstring\<close>), so that \<open>chars()\<close> is the list
  itself; \<open>byte_len\<close> is \<open>len()\<close>, the length of the UTF-8 encoding, which is what every bound of the
  program counts. \<open>lit\<close> turns an ASCII literal into an \<open>rstring\<close>.

  A \<open>Path\<close> is either valid UTF-8 text or raw bytes that are not (\<open>to_str()\<close> then returns nothing).
  \<open>components\<close> follows the Unix rules of \<open>Path::components()\<close>: empty and inner \<open>.\<close> parts vanish, a
  leading \<open>.\<close> is \<open>CurDir\<close>, \<open>..\<close> is \<open>ParentDir\<close>, a leading slash is \<open>RootDir\<close>. Paths compare by
  components, as \<open>PathBuf == PathBuf\<close> does.
\<close>

section \<open>Strings\<close>

type_synonym rchar = nat
type_synonym rstring = "rchar list"
type_synonym byte = "8 word"

definition lit :: "string \<Rightarrow> rstring" where
  "lit s = map of_char s"

definition char_len_utf8 :: "rchar \<Rightarrow> nat" where
  "char_len_utf8 c = (if c < 128 then 1 else if c < 2048 then 2 else if c < 65536 then 3 else 4)"

definition byte_len :: "rstring \<Rightarrow> nat" where
  "byte_len s = sum_list (map char_len_utf8 s)"

definition is_control :: "rchar \<Rightarrow> bool" where
  "is_control c \<longleftrightarrow> c < 32 \<or> (127 \<le> c \<and> c < 160)"

definition is_whitespace :: "rchar \<Rightarrow> bool" where
  "is_whitespace c \<longleftrightarrow> (9 \<le> c \<and> c \<le> 13) \<or> c = 32 \<or> c = 133 \<or> c = 160 \<or> c = 5760
     \<or> (8192 \<le> c \<and> c \<le> 8202) \<or> c = 8232 \<or> c = 8233 \<or> c = 8239 \<or> c = 8287 \<or> c = 12288"

definition is_ascii_digit :: "rchar \<Rightarrow> bool" where
  "is_ascii_digit c \<longleftrightarrow> 48 \<le> c \<and> c \<le> 57"

definition is_ascii_alphanumeric :: "rchar \<Rightarrow> bool" where
  "is_ascii_alphanumeric c \<longleftrightarrow>
     is_ascii_digit c \<or> (65 \<le> c \<and> c \<le> 90) \<or> (97 \<le> c \<and> c \<le> 122)"

definition ascii_lower :: "rchar \<Rightarrow> rchar" where
  "ascii_lower c = (if 65 \<le> c \<and> c \<le> 90 then c + 32 else c)"

definition to_ascii_lowercase :: "rstring \<Rightarrow> rstring" where
  "to_ascii_lowercase s = map ascii_lower s"

definition trim_start :: "rstring \<Rightarrow> rstring" where
  "trim_start s = dropWhile is_whitespace s"

definition trim_end :: "rstring \<Rightarrow> rstring" where
  "trim_end s = rev (dropWhile is_whitespace (rev s))"

definition trim :: "rstring \<Rightarrow> rstring" where
  "trim s = trim_end (trim_start s)"

fun starts_with :: "rstring \<Rightarrow> rstring \<Rightarrow> bool" where
  "starts_with s [] = True"
| "starts_with [] (p # ps) = False"
| "starts_with (c # s) (p # ps) = (c = p \<and> starts_with s ps)"

definition strip_prefix :: "rstring \<Rightarrow> rstring \<Rightarrow> rstring option" where
  "strip_prefix s p = (if starts_with s p then Some (drop (length p) s) else None)"

definition ends_with :: "rstring \<Rightarrow> rstring \<Rightarrow> bool" where
  "ends_with s p = starts_with (rev s) (rev p)"

fun contains_str :: "rstring \<Rightarrow> rstring \<Rightarrow> bool" where
  "contains_str [] p = (p = [])"
| "contains_str (c # s) p = (starts_with (c # s) p \<or> contains_str s p)"

text \<open>\<open>str::replace\<close>: left to right, non-overlapping. The pattern is a non-empty literal at every
  call of the program; for an empty one the model returns its input.\<close>

function replace_str :: "rstring \<Rightarrow> rstring \<Rightarrow> rstring \<Rightarrow> rstring" where
  "replace_str p r s =
     (case s of
        [] \<Rightarrow> []
      | c # s' \<Rightarrow>
          if p \<noteq> [] \<and> starts_with s p then r @ replace_str p r (drop (length p) s)
          else c # replace_str p r s')"
  by pat_completeness auto
termination
  by (relation "measure (\<lambda>(p, r, s). length s)") auto

fun split_on :: "rchar \<Rightarrow> rstring \<Rightarrow> rstring list" where
  "split_on d [] = [[]]"
| "split_on d (c # s) =
     (if c = d then [] # split_on d s
      else (case split_on d s of [] \<Rightarrow> [[c]] | w # ws \<Rightarrow> (c # w) # ws))"

definition words_add :: "rchar \<Rightarrow> rstring list \<times> rstring \<Rightarrow> rstring list \<times> rstring" where
  "words_add c acc = (case acc of (done, cur) \<Rightarrow>
     if is_whitespace c then (if cur = [] then done else cur # done, []) else (done, c # cur))"

text \<open>\<open>split_whitespace\<close>: the maximal runs of non-whitespace characters.\<close>

definition split_whitespace :: "rstring \<Rightarrow> rstring list" where
  "split_whitespace s =
     (case foldr words_add s ([], []) of (done, cur) \<Rightarrow> if cur = [] then done else cur # done)"

fun join :: "rstring \<Rightarrow> rstring list \<Rightarrow> rstring" where
  "join sep [] = []"
| "join sep [x] = x"
| "join sep (x # y # ys) = x @ sep @ join sep (y # ys)"

text \<open>\<open>str::lines\<close>: the parts ended by a newline, without one carriage return directly before it, and
  the rest after the last newline as it is unless it is empty.\<close>

definition strip_cr :: "rstring \<Rightarrow> rstring" where
  "strip_cr l = (if l \<noteq> [] \<and> last l = 13 then butlast l else l)"

definition str_lines :: "rstring \<Rightarrow> rstring list" where
  "str_lines s =
     (let parts = split_on 10 s
      in map strip_cr (butlast parts) @ (if last parts = [] then [] else [last parts]))"

section \<open>UTF-8\<close>

text \<open>\<open>String::from_utf8_lossy\<close>: every maximal prefix of an ill-formed sequence becomes one
  replacement character U+FFFD. \<open>utf8_tail\<close> gives, for a leading byte, the ranges its continuation
  bytes must lie in.\<close>

definition cont_range :: "nat \<times> nat" where
  "cont_range = (128, 191)"

definition utf8_tail :: "nat \<Rightarrow> (nat \<times> nat) list option" where
  "utf8_tail b =
     (if b < 128 then Some []
      else if b < 194 then None
      else if b < 224 then Some [cont_range]
      else if b = 224 then Some [(160, 191), cont_range]
      else if b = 237 then Some [(128, 159), cont_range]
      else if b < 240 then Some [cont_range, cont_range]
      else if b = 240 then Some [(144, 191), cont_range, cont_range]
      else if b < 244 then Some [cont_range, cont_range, cont_range]
      else if b = 244 then Some [(128, 143), cont_range, cont_range]
      else None)"

definition lead_bits :: "nat \<Rightarrow> nat" where
  "lead_bits b = (if b < 128 then b else if b < 224 then b mod 32 else if b < 240 then b mod 16
     else b mod 8)"

fun utf8_take :: "nat \<Rightarrow> (nat \<times> nat) list \<Rightarrow> nat list \<Rightarrow> nat option \<times> nat list" where
  "utf8_take acc [] bs = (Some acc, bs)"
| "utf8_take acc (r # rs) [] = (None, [])"
| "utf8_take acc (r # rs) (b # bs) =
     (if fst r \<le> b \<and> b \<le> snd r then utf8_take (acc * 64 + b mod 64) rs bs else (None, b # bs))"

lemma utf8_take_length: "length (snd (utf8_take acc rs bs)) \<le> length bs"
  by (induction acc rs bs rule: utf8_take.induct) auto

function utf8_lossy :: "nat list \<Rightarrow> rstring" where
  "utf8_lossy bs =
     (case bs of
        [] \<Rightarrow> []
      | b # bs' \<Rightarrow>
          (case utf8_tail b of
             None \<Rightarrow> 65533 # utf8_lossy bs'
           | Some rs \<Rightarrow>
               (case utf8_take (lead_bits b) rs bs' of
                  (oc, rest) \<Rightarrow> (case oc of None \<Rightarrow> 65533 | Some c \<Rightarrow> c) # utf8_lossy rest)))"
  by pat_completeness auto
termination
proof (relation "measure length", goal_cases)
  case (3 bs b bs' rs oc rest)
  then show ?case using utf8_take_length [of "lead_bits b" rs bs'] by (simp flip: 3(3))
qed auto

definition from_utf8_lossy :: "byte list \<Rightarrow> rstring" where
  "from_utf8_lossy bs = utf8_lossy (map unat bs)"

text \<open>\<open>as_bytes\<close> of a string, \<open>to_le_bytes\<close> of a 32-bit integer and \<open>to_string\<close> of an integer.\<close>

definition encode_char :: "rchar \<Rightarrow> nat list" where
  "encode_char c =
     (if c < 128 then [c]
      else if c < 2048 then [192 + c div 64, 128 + c mod 64]
      else if c < 65536 then [224 + c div 4096, 128 + (c div 64) mod 64, 128 + c mod 64]
      else [240 + c div 262144, 128 + (c div 4096) mod 64, 128 + (c div 64) mod 64, 128 + c mod 64])"

definition as_bytes :: "rstring \<Rightarrow> byte list" where
  "as_bytes s = concat (map (\<lambda>c. map of_nat (encode_char c)) s)"

definition u32_to_le_bytes :: "32 word \<Rightarrow> byte list" where
  "u32_to_le_bytes w =
     [ucast w, ucast (drop_bit 8 w), ucast (drop_bit 16 w), ucast (drop_bit 24 w)]"

fun dec_digits :: "nat \<Rightarrow> rstring" where
  "dec_digits n = (if n < 10 then [48 + n] else dec_digits (n div 10) @ [48 + n mod 10])"

definition u32_to_string :: "32 word \<Rightarrow> rstring" where
  "u32_to_string w = dec_digits (unat w)"

definition i32_to_string :: "32 word \<Rightarrow> rstring" where
  "i32_to_string w =
     (if sint w < 0 then 45 # dec_digits (nat (- sint w)) else dec_digits (nat (sint w)))"

section \<open>Paths\<close>

datatype path = Utf8Path rstring | RawPath "byte list"

datatype component = RootDir | CurDir | ParentDir | Normal rstring

definition dot :: rstring where "dot = [46]"

definition path_units :: "path \<Rightarrow> nat list" where
  "path_units p = (case p of Utf8Path s \<Rightarrow> s | RawPath bs \<Rightarrow> map unat bs)"

definition to_str :: "path \<Rightarrow> rstring option" where
  "to_str p = (case p of Utf8Path s \<Rightarrow> Some s | RawPath _ \<Rightarrow> None)"

definition is_absolute :: "path \<Rightarrow> bool" where
  "is_absolute p = starts_with (path_units p) [47]"

definition part_component :: "rstring \<Rightarrow> component" where
  "part_component w = (if w = [46, 46] then ParentDir else Normal w)"

definition components_of :: "nat list \<Rightarrow> component list" where
  "components_of s =
     (let parts = split_on 47 s;
          lead = (if starts_with s [47] then [RootDir]
                  else if hd parts = dot then [CurDir] else [])
      in lead @ map part_component (filter (\<lambda>w. w \<noteq> [] \<and> w \<noteq> dot) parts))"

definition components :: "path \<Rightarrow> component list" where
  "components p = components_of (path_units p)"

definition path_is_raw :: "path \<Rightarrow> bool" where
  "path_is_raw p = (case p of Utf8Path _ \<Rightarrow> False | RawPath _ \<Rightarrow> True)"

definition path_eq :: "path \<Rightarrow> path \<Rightarrow> bool" where
  "path_eq p q \<longleftrightarrow> path_is_raw p = path_is_raw q \<and> components p = components q"

section \<open>Lemmas\<close>

declare replace_str.simps [simp del]
declare utf8_lossy.simps [simp del]
declare dec_digits.simps [simp del]

lemma char_len_utf8_pos [simp]: "0 < char_len_utf8 c"
  by (simp add: char_len_utf8_def)

lemma char_len_utf8_le [simp]: "char_len_utf8 c \<le> 4"
  by (simp add: char_len_utf8_def)

lemma byte_len_simps [simp]:
  "byte_len [] = 0" "byte_len (c # s) = char_len_utf8 c + byte_len s"
  "byte_len (s @ t) = byte_len s + byte_len t"
  by (simp_all add: byte_len_def)

lemma byte_len_0 [simp]: "byte_len s = 0 \<longleftrightarrow> s = []"
  by (cases s) auto

lemma length_le_byte_len: "length s \<le> byte_len s"
proof (induction s)
  case (Cons c s)
  then show ?case using char_len_utf8_pos [of c] by (simp del: char_len_utf8_pos)
qed simp

lemma byte_len_dropWhile: "byte_len (dropWhile P s) \<le> byte_len s"
  by (induction s) auto

lemma byte_len_rev [simp]: "byte_len (rev s) = byte_len s"
  by (simp add: byte_len_def sum_list_rev rev_map [symmetric])

lemma byte_len_trim: "byte_len (trim s) \<le> byte_len s"
  using byte_len_dropWhile [of is_whitespace "rev (trim_start s)"]
    byte_len_dropWhile [of is_whitespace s]
  by (simp add: trim_def trim_end_def trim_start_def)

lemma set_trim: "set (trim s) \<subseteq> set s"
  unfolding trim_def trim_end_def trim_start_def
  by (metis set_dropWhileD set_rev subsetI)

lemma starts_with_iff: "starts_with s p \<longleftrightarrow> (\<exists>t. s = p @ t)"
  by (induction s p rule: starts_with.induct) auto

lemma contains_str_iff: "contains_str s p \<longleftrightarrow> (\<exists>u v. s = u @ p @ v)"
proof (induction s)
  case Nil
  then show ?case by auto
next
  case (Cons c s)
  have "(\<exists>u v. c # s = u @ p @ v) \<longleftrightarrow> (\<exists>v. c # s = p @ v) \<or> (\<exists>u v. s = u @ p @ v)"
  proof
    assume "\<exists>u v. c # s = u @ p @ v"
    then obtain u v where "c # s = u @ p @ v" by blast
    then show "(\<exists>v. c # s = p @ v) \<or> (\<exists>u v. s = u @ p @ v)" by (cases u) auto
  next
    assume "(\<exists>v. c # s = p @ v) \<or> (\<exists>u v. s = u @ p @ v)"
    then show "\<exists>u v. c # s = u @ p @ v"
      by (metis append_Cons append_Nil)
  qed
  with Cons.IH show ?case by (simp add: starts_with_iff)
qed

lemma split_on_ne [simp]: "split_on d s \<noteq> []"
  by (induction s) (auto split: list.splits)

lemma split_on_no_sep: "w \<in> set (split_on d s) \<Longrightarrow> d \<notin> set w"
  by (induction s arbitrary: w) (auto split: list.splits if_splits)

lemma join_Cons: "ys \<noteq> [] \<Longrightarrow> join sep (x # ys) = x @ sep @ join sep ys"
  by (cases ys) auto

lemma join_head: "join sep ((c # w) # ws) = c # join sep (w # ws)"
  by (cases ws) auto

lemma join_split_on: "join [d] (split_on d s) = s"
proof (induction s)
  case (Cons c s)
  then show ?case by (cases "split_on d s") (auto simp: join_Cons join_head)
qed simp

lemma split_on_append_sep: "d \<notin> set w \<Longrightarrow> split_on d (w @ d # s) = w # split_on d s"
  by (induction w) auto

lemma split_on_plain: "d \<notin> set w \<Longrightarrow> split_on d w = [w]"
  by (induction w) auto

lemma split_on_join:
  assumes "ws \<noteq> []" and "\<And>w. w \<in> set ws \<Longrightarrow> d \<notin> set w"
  shows "split_on d (join [d] ws) = ws"
  using assms
proof (induction ws)
  case (Cons w ws)
  then show ?case by (cases "ws = []") (auto simp: split_on_plain join_Cons split_on_append_sep)
qed simp

lemma contains_str_sublist: "contains_str s p \<longleftrightarrow> sublist p s"
  by (auto simp: contains_str_iff sublist_def)

lemma starts_with_prefix: "starts_with s p \<longleftrightarrow> prefix p s"
  by (simp add: starts_with_iff prefix_def)

lemma sublist_trim: "sublist (trim s) s"
proof -
  have "sublist (trim s) (trim_start s)"
    unfolding trim_def trim_end_def by (metis rev_rev_ident sublist_dropWhile sublist_rev)
  then show ?thesis
    unfolding trim_start_def by (meson sublist_dropWhile sublist_order.order_trans)
qed

lemma sublist_sep:
  assumes "d \<notin> set p"
  shows "sublist p (u @ d # v) \<longleftrightarrow> sublist p u \<or> sublist p v"
proof
  assume "sublist p (u @ d # v)"
  then consider "sublist p u" | "sublist p (d # v)"
    | p1 p2 where "p = p1 @ p2" "suffix p1 u" "prefix p2 (d # v)"
    unfolding sublist_append by blast
  then show "sublist p u \<or> sublist p v"
  proof cases
    case 2
    then show ?thesis using assms by (cases p) (auto simp: sublist_Cons_right)
  next
    case 3
    then show ?thesis using assms by (cases p2) auto
  qed simp
next
  assume "sublist p u \<or> sublist p v"
  then show "sublist p (u @ d # v)"
    by (metis append_Cons append_Nil sublist_append_leftI sublist_append_rightI sublist_order.order_trans)
qed

lemma sublist_join:
  assumes "d \<notin> set p" and "p \<noteq> []" and "sublist p (join [d] ws)"
  shows "\<exists>w \<in> set ws. sublist p w"
  using assms(3)
proof (induction ws)
  case (Cons w ws)
  then show ?case
    using assms(1,2) by (cases "ws = []") (auto simp: join_Cons sublist_sep)
qed (use assms in simp)

lemma set_join: "set (join [d] ws) \<subseteq> insert d (\<Union> (set ` set ws))"
  by (induction "[d]" ws rule: join.induct) auto

lemma words_add_split:
  "foldr words_add s ([], []) = (ds, cur) \<Longrightarrow>
     (\<exists>t. s = cur @ t) \<and> (\<forall>c \<in> set cur. \<not> is_whitespace c)
     \<and> (\<forall>w \<in> set ds. w \<noteq> [] \<and> sublist w s \<and> (\<forall>c \<in> set w. \<not> is_whitespace c))"
proof (induction s arbitrary: ds cur)
  case (Cons c s)
  obtain ds' cur' where f: "foldr words_add s ([], []) = (ds', cur')" by fastforce
  note IH = Cons.IH [OF f]
  have sub: "sublist w (c # s)" if "sublist w s" for w
    using that by (simp add: sublist_Cons_right)
  have cur: "sublist cur' s" using IH by auto
  have "words_add c (ds', cur') = (ds, cur)" using Cons.prems f by simp
  then have "is_whitespace c \<and> cur = [] \<and> ds = (if cur' = [] then ds' else cur' # ds')
      \<or> \<not> is_whitespace c \<and> cur = c # cur' \<and> ds = ds'"
    unfolding words_add_def by (auto split: if_splits)
  then show ?case
    using IH sub cur by (auto split: if_splits)
qed auto

lemma split_whitespace_word:
  assumes "w \<in> set (split_whitespace s)"
  shows "w \<noteq> []" and "sublist w s" and "\<forall>c \<in> set w. \<not> is_whitespace c"
proof -
  obtain ds cur where f: "foldr words_add s ([], []) = (ds, cur)" by fastforce
  have "w \<in> set ds \<or> w = cur \<and> cur \<noteq> []"
    using assms f by (auto simp: split_whitespace_def split: if_splits)
  then show "w \<noteq> []" "sublist w s" "\<forall>c \<in> set w. \<not> is_whitespace c"
    using words_add_split [OF f] by auto
qed

text \<open>A replacement whose first character does not occur in the pattern, and whose characters are
  not the pattern's first, leaves no occurrence of the pattern behind.\<close>

lemma replace_str_Nil [simp]: "replace_str p r [] = []"
  by (simp add: replace_str.simps)

lemma replace_str_hit:
  "p \<noteq> [] \<Longrightarrow> starts_with s p \<Longrightarrow> replace_str p r s = r @ replace_str p r (drop (length p) s)"
  by (subst replace_str.simps) (cases s; cases p; simp)

lemma replace_str_miss:
  "\<not> (p \<noteq> [] \<and> starts_with (c # s) p) \<Longrightarrow> replace_str p r (c # s) = c # replace_str p r s"
  by (subst replace_str.simps) auto

lemma prefix_replace_str:
  assumes "r \<noteq> []" and "hd r \<notin> set q" and "prefix q (replace_str p r s)"
  shows "prefix q s"
  using assms(2,3)
proof (induction s arbitrary: q)
  case (Cons c s)
  show ?case
  proof (cases "q = [] \<or> (p \<noteq> [] \<and> starts_with (c # s) p)")
    case True
    then show ?thesis
      using Cons.prems assms(1) by (cases q; cases r) (auto simp: replace_str_hit)
  next
    case False
    then have "prefix q (c # replace_str p r s)"
      using Cons.prems by (simp add: replace_str_miss)
    with False show ?thesis using Cons by (cases q) auto
  qed
qed simp

lemma sublist_append_skip:
  "q \<noteq> [] \<Longrightarrow> hd q \<notin> set r \<Longrightarrow> \<not> sublist q t \<Longrightarrow> \<not> sublist q (r @ t)"
proof (induction r)
  case (Cons x r)
  then show ?case by (cases q) (auto simp: sublist_Cons_right)
qed simp

lemma replace_str_removes:
  assumes "p \<noteq> []" and "r \<noteq> []" and "hd r \<notin> set p" and "hd p \<notin> set r"
  shows "\<not> sublist p (replace_str p r s)"
proof (induction "length s" arbitrary: s rule: less_induct)
  case less
  show ?case
  proof (cases s)
    case Nil
    then show ?thesis using assms by simp
  next
    case (Cons c s')
    show ?thesis
    proof (cases "starts_with s p")
      case True
      let ?t = "drop (length p) s"
      have t: "\<not> sublist p (replace_str p r ?t)"
        using less [of ?t] assms(1) Cons by simp
      then show ?thesis
        using True assms Cons sublist_append_skip [OF _ _ t] by (simp add: replace_str_hit)
    next
      case False
      then have "\<not> prefix p (replace_str p r s)"
        using prefix_replace_str [OF assms(2,3)] by (auto simp: starts_with_prefix)
      moreover have "\<not> sublist p (replace_str p r s')"
        using less [of s'] Cons by simp
      ultimately show ?thesis
        using False Cons by (simp add: replace_str_miss sublist_Cons_right)
    qed
  qed
qed

lemma replace_str_keeps:
  assumes "r \<noteq> []" and "hd r \<notin> set q" and "q \<noteq> []" and "hd q \<notin> set r" and "\<not> sublist q s"
  shows "\<not> sublist q (replace_str p r s)"
  using assms(5)
proof (induction "length s" arbitrary: s rule: less_induct)
  case less
  show ?case
  proof (cases s)
    case Nil
    then show ?thesis using assms by simp
  next
    case (Cons c s')
    show ?thesis
    proof (cases "p \<noteq> [] \<and> starts_with s p")
      case True
      let ?t = "drop (length p) s"
      have "\<not> sublist q ?t" using less.prems by (meson sublist_drop sublist_order.order_trans)
      then have t: "\<not> sublist q (replace_str p r ?t)"
        using less.hyps [of ?t] True Cons by simp
      then show ?thesis
        using True assms Cons sublist_append_skip [OF _ _ t] by (simp add: replace_str_hit)
    next
      case False
      have "\<not> prefix q (replace_str p r s)"
        using prefix_replace_str [OF assms(1,2)] less.prems by blast
      moreover have "\<not> sublist q (replace_str p r s')"
        using less.hyps [of s'] less.prems Cons by (simp add: sublist_Cons_right)
      ultimately show ?thesis
        using False Cons by (auto simp add: replace_str_miss sublist_Cons_right)
    qed
  qed
qed

lemma set_sublist: "sublist s t \<Longrightarrow> set s \<subseteq> set t"
  by (auto simp: sublist_def)

lemma list_ex_subset: "set s \<subseteq> set t \<Longrightarrow> \<not> list_ex P t \<Longrightarrow> \<not> list_ex P s"
  by (auto simp: list_ex_iff)

lemma byte_len_prefix: "prefix p s \<Longrightarrow> byte_len p \<le> byte_len s"
  by (auto simp: prefix_def)

end
