(* ===== verification/Domain.thy ===== *)
theory Domain
  imports Rust_Text
begin

text \<open>
  The provider-neutral types of \<open>crates/vibecoder-domain\<close> and the model-gateway contract of
  \<open>crates/vibecoder-gateway-contract\<close>.

  Every fallible operation of the backend returns \<open>Result<T, VibeCoderError>\<close>, here \<open>'a result\<close>.
  The error text is always a stable ASCII code in the modelled crates and is kept as a \<open>string\<close>.
  A \<open>Uuid\<close> is its 128 bits; operations that call \<open>Uuid::new_v4()\<close> take the fresh value as an
  argument. An \<open>f32\<close> is kept as its 32-bit pattern.
\<close>

section \<open>Shared types\<close>

datatype vibecoder_error =
    InvalidRequest string
  | Agent string
  | Gateway string
  | Routing string
  | Config string
  | Secret string
  | Workspace string
  | Command string
  | Process string
  | Persistence string
  | Checkpoint string
  | Build string
  | MissingCapability string string
  | Cancelled

type_synonym 'a result = "vibecoder_error + 'a"
type_synonym uuid = "128 word"
type_synonym u8 = "8 word"
type_synonym u32 = "32 word"
type_synonym i32 = "32 word"
type_synonym u64 = "64 word"
type_synonym f32 = "32 word"

datatype project_id = ProjectId uuid
datatype conversation_id = ConversationId uuid
datatype session_id = SessionId rstring

definition session_id_parse :: "rstring \<Rightarrow> session_id result" where
  "session_id_parse value =
     (if trim value = [] then Inl (InvalidRequest ''session id cannot be empty'')
      else Inr (SessionId value))"

record project_ref =
  pr_id :: project_id
  pr_root :: path

record model_ref =
  mr_id :: rstring
  mr_display_name :: "rstring option"
  mr_provider :: "rstring option"

datatype permission_decision = AllowOnce | AllowSession | Deny

record permission_request =
  pq_request_id :: rstring
  pq_session_id :: session_id
  pq_action :: rstring
  pq_reason :: "rstring option"

record tool_call_result =
  tc_call_id :: rstring
  tc_tool :: rstring
  tc_output :: rstring
  tc_error :: "rstring option"

record token_usage =
  tu_input :: u64
  tu_output :: u64
  tu_cache_read_input :: "u64 option"

datatype agent_event =
    TextDelta rstring
  | MessageAccepted
  | ToolStarted rstring rstring
  | ToolFinished rstring rstring bool rstring "rstring option"
  | BackgroundProgress rstring rstring "f32 option" rstring bool
  | SessionStatus rstring
  | TokenUsage token_usage
  | PermissionRequired permission_request
  | TurnCompleted
  | Warning rstring

record turn_result =
  tr_text :: rstring
  tr_cancelled :: bool
  tr_tool_calls :: "tool_call_result list"
  tr_usage :: "token_usage option"

record runtime_capabilities =
  rc_sessions :: bool
  rc_streaming_events :: bool
  rc_permissions :: bool
  rc_model_selection :: bool
  rc_file_tools :: bool
  rc_command_tools :: bool

definition runtime_capabilities_none :: runtime_capabilities where
  "runtime_capabilities_none =
     \<lparr>rc_sessions = False, rc_streaming_events = False, rc_permissions = False,
      rc_model_selection = False, rc_file_tools = False, rc_command_tools = False\<rparr>"

section \<open>Gateway contract\<close>

definition VIBECODER_OMNIROUTE_GATEWAY_ID :: rstring where
  "VIBECODER_OMNIROUTE_GATEWAY_ID = lit ''omniroute''"

definition VIBECODER_OMNIROUTE_UPSTREAM_VERSION :: rstring where
  "VIBECODER_OMNIROUTE_UPSTREAM_VERSION = lit ''3.8.50''"

definition VIBECODER_OMNIROUTE_PROFILE_ID :: rstring where
  "VIBECODER_OMNIROUTE_PROFILE_ID = lit ''vibecoder-omniroute-exact-model-v1''"

definition VIBECODER_OMNIROUTE_PROFILE_SHA256 :: rstring where
  "VIBECODER_OMNIROUTE_PROFILE_SHA256 =
     lit ''aec0f63fb0dec08f24fffde9209504ec447e9428bec1cd64c033649ed275fe3d''"

datatype gateway_credential = Anonymous | SecretCredential rstring

definition gateway_credential_debug :: "gateway_credential \<Rightarrow> rstring" where
  "gateway_credential_debug c =
     (case c of Anonymous \<Rightarrow> lit ''Anonymous'' | SecretCredential _ \<Rightarrow> lit ''Secret([REDACTED])'')"

definition is_anonymous :: "gateway_credential \<Rightarrow> bool" where
  "is_anonymous c = (case c of Anonymous \<Rightarrow> True | SecretCredential _ \<Rightarrow> False)"

datatype gateway_health_status =
    Ready
  | AuthenticationRequired
  | AuthenticationRejected
  | AccessDenied
  | NoUsableModels
  | RateLimited
  | EndpointNotFound
  | InvalidResponse
  | Unavailable

record gateway_health =
  gh_ready :: bool
  gh_status :: gateway_health_status
  gh_usable_models :: nat
  gh_detail :: "rstring option"

record gateway_config =
  gc_base_url :: rstring

definition gateway_config_validate :: "gateway_config \<Rightarrow> unit result" where
  "gateway_config_validate c =
     (if trim (gc_base_url c) = [] then Inl (InvalidRequest ''gateway base_url cannot be empty'')
      else if \<not> (starts_with (gc_base_url c) (lit ''http://'')
                 \<or> starts_with (gc_base_url c) (lit ''https://''))
      then Inl (InvalidRequest ''gateway base_url must use http:// or https://'')
      else Inr ())"

record gateway_execution_profile =
  gp_gateway_id :: rstring
  gp_upstream_version :: rstring
  gp_profile_id :: rstring
  gp_profile_sha256 :: rstring
  gp_exact_model_only :: bool
  gp_hidden_model_reroutes_disabled :: bool

definition permits_exact_model_execution :: "gateway_execution_profile \<Rightarrow> bool" where
  "permits_exact_model_execution p =
     (gp_exact_model_only p \<and> gp_hidden_model_reroutes_disabled p)"

end
