(* ===== verification/Routing.thy ===== *)
theory Routing
  imports Domain
begin

text \<open>
  The model-route policy of \<open>crates/vibecoder-routing\<close>: persisted route configuration and its
  validation, resolution against a fresh gateway catalog, and the decision whether a failed attempt
  may advance to the next configured route.

  \<open>resolve\<close> is shown to compute exactly the declarative relation \<open>resolves_to\<close>;
  \<open>decision_after_failure\<close> is characterised on every branch, and the fallback steps are shown to be
  an instance of \<open>bounded_retry\<close>, so that a task makes at most seven automatic fallbacks.
\<close>

section \<open>Model\<close>

definition MAX_ROUTE_TARGETS :: nat where "MAX_ROUTE_TARGETS = 8"
definition MAX_MODEL_ID_BYTES :: nat where "MAX_MODEL_ID_BYTES = 512"
definition MAX_PROVIDER_BYTES :: nat where "MAX_PROVIDER_BYTES = 256"

record route_target_config =
  rt_model_id :: rstring
  rt_provider :: "rstring option"

datatype fallback_trigger =
  FT_RateLimited | FT_Timeout | FT_ProviderUnavailable | FT_ModelUnavailable

datatype fallback_boundary = BeforeResponseOnly

record route_policy_config =
  rp_primary :: route_target_config
  rp_fallbacks :: "route_target_config list"
  rp_fallback_on :: "fallback_trigger list"
  rp_fallback_boundary :: fallback_boundary

definition default_fallback_triggers :: "fallback_trigger list" where
  "default_fallback_triggers =
     [FT_RateLimited, FT_Timeout, FT_ProviderUnavailable, FT_ModelUnavailable]"

datatype route_failure_class =
    RF_RateLimited
  | RF_Timeout
  | RF_ProviderUnavailable
  | RF_GatewayUnavailable
  | RF_ModelUnavailable
  | RF_Authentication
  | RF_AccessDenied
  | RF_InvalidRequest
  | RF_Cancelled
  | RF_ProtocolError
  | RF_Unknown

record route_attempt_state =
  ra_route_index :: nat
  ra_response_started :: bool
  ra_tool_activity_started :: bool

definition pristine :: "nat \<Rightarrow> route_attempt_state" where
  "pristine i = \<lparr>ra_route_index = i, ra_response_started = False, ra_tool_activity_started = False\<rparr>"

definition observable_progress_started :: "route_attempt_state \<Rightarrow> bool" where
  "observable_progress_started s \<longleftrightarrow> ra_response_started s \<or> ra_tool_activity_started s"

definition mark_response_started :: "route_attempt_state \<Rightarrow> route_attempt_state" where
  "mark_response_started s = s\<lparr>ra_response_started := True\<rparr>"

definition mark_tool_activity_started :: "route_attempt_state \<Rightarrow> route_attempt_state" where
  "mark_tool_activity_started s = s\<lparr>ra_tool_activity_started := True\<rparr>"

datatype route_stop_reason =
    ObservableProgressAlreadyStarted
  | FailureNotSafeForFallback
  | FailureNotEnabledForFallback
  | FallbacksExhausted

datatype route_decision =
    Fallback route_attempt_state model_ref
  | RouteStop route_stop_reason

record resolved_policy =
  rv_routes :: "model_ref list"
  rv_fallback_on :: "fallback_trigger list"
  rv_fallback_boundary :: fallback_boundary

definition routing_error :: "string \<Rightarrow> vibecoder_error" where
  "routing_error code = Routing code"

definition validate_bounded_identity :: "rstring \<Rightarrow> nat \<Rightarrow> string \<Rightarrow> unit result" where
  "validate_bounded_identity value max_bytes code =
     (if value = [] \<or> byte_len value > max_bytes \<or> trim value \<noteq> value
         \<or> list_ex is_control value
      then Inl (routing_error code) else Inr ())"

definition validate_target :: "route_target_config \<Rightarrow> unit result" where
  "validate_target target =
     rbind (validate_bounded_identity (rt_model_id target) MAX_MODEL_ID_BYTES
              ''invalid_route_model_id'')
       (\<lambda>_. case rt_provider target of
              None \<Rightarrow> Inr ()
            | Some provider \<Rightarrow>
                validate_bounded_identity provider MAX_PROVIDER_BYTES ''invalid_route_provider'')"

definition validate_policy_shape :: "route_policy_config \<Rightarrow> unit result" where
  "validate_policy_shape config =
     rbind (ensure (1 + length (rp_fallbacks config) \<le> MAX_ROUTE_TARGETS)
              (routing_error ''too_many_route_targets''))
       (\<lambda>_. rbind (each_fresh id (routing_error ''duplicate_fallback_trigger'') {}
                     (rp_fallback_on config))
       (\<lambda>_. if rp_fallbacks config \<noteq> [] \<and> rp_fallback_on config = []
            then Inl (routing_error ''fallback_routes_without_triggers'') else Inr ()))"

definition config_targets :: "route_policy_config \<Rightarrow> route_target_config list" where
  "config_targets config = rp_primary config # rp_fallbacks config"

fun validate_targets :: "rstring set \<Rightarrow> route_target_config list \<Rightarrow> unit result" where
  "validate_targets seen [] = Inr ()"
| "validate_targets seen (t # ts) =
     rbind (validate_target t)
       (\<lambda>_. if rt_model_id t \<in> seen then Inl (routing_error ''duplicate_route_model_id'')
            else validate_targets (insert (rt_model_id t) seen) ts)"

definition policy_config_validate :: "route_policy_config \<Rightarrow> unit result" where
  "policy_config_validate config =
     rbind (validate_policy_shape config) (\<lambda>_. validate_targets {} (config_targets config))"

fun index_catalog :: "(rstring \<rightharpoonup> model_ref) \<Rightarrow> model_ref list \<Rightarrow> (rstring \<rightharpoonup> model_ref) result" where
  "index_catalog by_id [] = Inr by_id"
| "index_catalog by_id (m # ms) =
     rbind (validate_bounded_identity (mr_id m) MAX_MODEL_ID_BYTES ''invalid_catalog_model_id'')
       (\<lambda>_. rbind (case mr_provider m of
                     None \<Rightarrow> Inr ()
                   | Some provider \<Rightarrow>
                       validate_bounded_identity provider MAX_PROVIDER_BYTES
                         ''invalid_catalog_provider'')
       (\<lambda>_. if by_id (mr_id m) \<noteq> None then Inl (routing_error ''ambiguous_catalog_model_id'')
            else index_catalog (by_id(mr_id m \<mapsto> m)) ms))"

definition resolve_target ::
    "(rstring \<rightharpoonup> model_ref) \<Rightarrow> route_target_config \<Rightarrow> model_ref result" where
  "resolve_target by_id target =
     rbind (ok_or (by_id (rt_model_id target)) (routing_error ''configured_route_model_unavailable''))
       (\<lambda>model. case rt_provider target of
                  None \<Rightarrow> Inr model
                | Some expected \<Rightarrow>
                    if mr_provider model \<noteq> Some expected
                    then Inl (routing_error ''configured_route_provider_mismatch'')
                    else Inr model)"

fun resolve_targets ::
    "(rstring \<rightharpoonup> model_ref) \<Rightarrow> rstring set \<Rightarrow> route_target_config list \<Rightarrow> model_ref list result" where
  "resolve_targets by_id seen [] = Inr []"
| "resolve_targets by_id seen (t # ts) =
     rbind (validate_target t)
       (\<lambda>_. if rt_model_id t \<in> seen then Inl (routing_error ''duplicate_route_model_id'')
            else rbind (resolve_target by_id t)
                   (\<lambda>m. rbind (resolve_targets by_id (insert (rt_model_id t) seen) ts)
                   (\<lambda>ms. Inr (m # ms))))"

definition resolve :: "route_policy_config \<Rightarrow> model_ref list \<Rightarrow> resolved_policy result" where
  "resolve config catalog =
     rbind (policy_config_validate config)
       (\<lambda>_. rbind (index_catalog Map.empty catalog)
       (\<lambda>by_id. rbind (resolve_targets by_id {} (config_targets config))
       (\<lambda>routes. Inr \<lparr>rv_routes = routes, rv_fallback_on = rp_fallback_on config,
                      rv_fallback_boundary = rp_fallback_boundary config\<rparr>)))"

text \<open>\<open>primary\<close> indexes the route list at zero; \<open>None\<close> is the panic an empty list would cause.\<close>

definition resolved_primary :: "resolved_policy \<Rightarrow> model_ref option" where
  "resolved_primary p = (case rv_routes p of [] \<Rightarrow> None | m # _ \<Rightarrow> Some m)"

definition start_attempt :: "resolved_policy \<Rightarrow> route_attempt_state" where
  "start_attempt p = pristine 0"

definition safe_fallback_trigger :: "route_failure_class \<Rightarrow> fallback_trigger option" where
  "safe_fallback_trigger failure =
     (case failure of
        RF_RateLimited \<Rightarrow> Some FT_RateLimited
      | RF_Timeout \<Rightarrow> Some FT_Timeout
      | RF_ProviderUnavailable \<Rightarrow> Some FT_ProviderUnavailable
      | RF_ModelUnavailable \<Rightarrow> Some FT_ModelUnavailable
      | RF_GatewayUnavailable \<Rightarrow> None
      | RF_Authentication \<Rightarrow> None
      | RF_AccessDenied \<Rightarrow> None
      | RF_InvalidRequest \<Rightarrow> None
      | RF_Cancelled \<Rightarrow> None
      | RF_ProtocolError \<Rightarrow> None
      | RF_Unknown \<Rightarrow> None)"

definition decision_after_failure ::
    "resolved_policy \<Rightarrow> route_attempt_state \<Rightarrow> route_failure_class \<Rightarrow> route_decision result" where
  "decision_after_failure p s failure =
     (if ra_route_index s \<ge> length (rv_routes p)
      then Inl (routing_error ''route_attempt_index_out_of_bounds'')
      else if (case rv_fallback_boundary p of
                 BeforeResponseOnly \<Rightarrow> observable_progress_started s)
      then Inr (RouteStop ObservableProgressAlreadyStarted)
      else case safe_fallback_trigger failure of
             None \<Rightarrow> Inr (RouteStop FailureNotSafeForFallback)
           | Some trigger \<Rightarrow>
               if trigger \<notin> set (rv_fallback_on p)
               then Inr (RouteStop FailureNotEnabledForFallback)
               else (let next_route_index = ra_route_index s + 1
                     in if next_route_index < length (rv_routes p)
                        then Inr (Fallback (pristine next_route_index)
                                    (rv_routes p ! next_route_index))
                        else Inr (RouteStop FallbacksExhausted)))"

section \<open>Specification\<close>

text \<open>Identities the policy accepts: non-empty, bounded, without surrounding whitespace or control
  characters.\<close>

definition ok_identity :: "nat \<Rightarrow> rstring \<Rightarrow> bool" where
  "ok_identity max_bytes v \<longleftrightarrow>
     v \<noteq> [] \<and> byte_len v \<le> max_bytes \<and> trim v = v \<and> (\<forall>c \<in> set v. \<not> is_control c)"

definition ok_target :: "route_target_config \<Rightarrow> bool" where
  "ok_target t \<longleftrightarrow> ok_identity MAX_MODEL_ID_BYTES (rt_model_id t)
     \<and> (\<forall>p. rt_provider t = Some p \<longrightarrow> ok_identity MAX_PROVIDER_BYTES p)"

definition ok_policy :: "route_policy_config \<Rightarrow> bool" where
  "ok_policy c \<longleftrightarrow> length (config_targets c) \<le> MAX_ROUTE_TARGETS
     \<and> distinct (rp_fallback_on c)
     \<and> (rp_fallbacks c \<noteq> [] \<longrightarrow> rp_fallback_on c \<noteq> [])
     \<and> (\<forall>t \<in> set (config_targets c). ok_target t)
     \<and> distinct (map rt_model_id (config_targets c))"

definition ok_catalog :: "model_ref list \<Rightarrow> bool" where
  "ok_catalog ms \<longleftrightarrow> distinct (map mr_id ms)
     \<and> (\<forall>m \<in> set ms. ok_identity MAX_MODEL_ID_BYTES (mr_id m)
           \<and> (\<forall>p. mr_provider m = Some p \<longrightarrow> ok_identity MAX_PROVIDER_BYTES p))"

text \<open>A configured target names a catalog model: same id and, if configured, same provider.\<close>

definition target_matches :: "route_target_config \<Rightarrow> model_ref \<Rightarrow> bool" where
  "target_matches t m \<longleftrightarrow> mr_id m = rt_model_id t
     \<and> (\<forall>p. rt_provider t = Some p \<longrightarrow> mr_provider m = Some p)"

definition resolves_to :: "route_policy_config \<Rightarrow> model_ref list \<Rightarrow> resolved_policy \<Rightarrow> bool" where
  "resolves_to c catalog p \<longleftrightarrow> ok_policy c \<and> ok_catalog catalog
     \<and> list_all2 target_matches (config_targets c) (rv_routes p)
     \<and> set (rv_routes p) \<subseteq> set catalog
     \<and> rv_fallback_on p = rp_fallback_on c
     \<and> rv_fallback_boundary p = rp_fallback_boundary c"

text \<open>A resolved policy as \<open>resolve\<close> issues it.\<close>

definition resolved_inv :: "resolved_policy \<Rightarrow> bool" where
  "resolved_inv p \<longleftrightarrow> rv_routes p \<noteq> [] \<and> length (rv_routes p) \<le> MAX_ROUTE_TARGETS
     \<and> distinct (map mr_id (rv_routes p))"

text \<open>One automatic fallback: the policy is fixed, some failure of the current attempt advances
  it. The state also carries the progress the agent run made before failing.\<close>

definition fallback_step ::
    "resolved_policy \<times> route_attempt_state \<Rightarrow> resolved_policy \<times> route_attempt_state \<Rightarrow> bool" where
  "fallback_step x y \<longleftrightarrow> fst y = fst x
     \<and> (\<exists>failure m. decision_after_failure (fst x) (snd x) failure = Inr (Fallback (snd y) m))"

section \<open>Validation\<close>

lemma validate_bounded_identity_Inr [simp]:
  "validate_bounded_identity v n code = Inr u \<longleftrightarrow> ok_identity n v"
  by (auto simp: validate_bounded_identity_def ok_identity_def list_ex_iff)

lemma validate_target_Inr [simp]: "validate_target t = Inr u \<longleftrightarrow> ok_target t"
  by (auto simp: validate_target_def ok_target_def rbind_eq_Inr split: option.splits)

lemma validate_targets_Inr:
  "validate_targets seen ts = Inr u \<longleftrightarrow>
     (\<forall>t \<in> set ts. ok_target t) \<and> distinct (map rt_model_id ts)
     \<and> rt_model_id ` set ts \<inter> seen = {}"
  by (induction ts arbitrary: seen) (auto simp: rbind_eq_Inr)

lemma policy_config_validate_Inr: "policy_config_validate c = Inr u \<longleftrightarrow> ok_policy c"
  by (auto simp: policy_config_validate_def validate_policy_shape_def ok_policy_def
      config_targets_def validate_targets_Inr rbind_eq_Inr)

section \<open>Resolution\<close>

definition catalog_index :: "model_ref list \<Rightarrow> (rstring \<rightharpoonup> model_ref)" where
  "catalog_index ms = map_of (map (\<lambda>m. (mr_id m, m)) ms)"

lemma catalog_index_dom: "dom (catalog_index ms) = mr_id ` set ms"
  by (auto simp: catalog_index_def dom_map_of_conv_image_fst image_image)

lemma catalog_index_Some:
  "distinct (map mr_id ms) \<Longrightarrow> catalog_index ms i = Some m \<longleftrightarrow> m \<in> set ms \<and> mr_id m = i"
  by (auto simp: catalog_index_def comp_def dest: map_of_SomeD intro!: map_of_is_SomeI)

lemma catalog_index_Cons:
  "mr_id m \<notin> mr_id ` set ms \<Longrightarrow>
     f(mr_id m \<mapsto> m) ++ catalog_index ms = f ++ catalog_index (m # ms)"
  by (rule ext) (auto simp: map_add_def catalog_index_def image_iff
      dest!: map_of_SomeD split: option.splits)

lemma ok_catalog_Cons:
  "ok_catalog (m # ms) \<longleftrightarrow> ok_catalog ms \<and> mr_id m \<notin> mr_id ` set ms
     \<and> ok_identity MAX_MODEL_ID_BYTES (mr_id m)
     \<and> (\<forall>p. mr_provider m = Some p \<longrightarrow> ok_identity MAX_PROVIDER_BYTES p)"
  by (auto simp: ok_catalog_def)

lemma index_catalog_Inr:
  "index_catalog f ms = Inr g \<longleftrightarrow>
     ok_catalog ms \<and> mr_id ` set ms \<inter> dom f = {} \<and> g = f ++ catalog_index ms"
proof (induction ms arbitrary: f)
  case Nil
  then show ?case by (auto simp: ok_catalog_def catalog_index_def)
next
  case (Cons m ms)
  have "index_catalog f (m # ms) = Inr g \<longleftrightarrow>
      ok_identity MAX_MODEL_ID_BYTES (mr_id m)
      \<and> (\<forall>p. mr_provider m = Some p \<longrightarrow> ok_identity MAX_PROVIDER_BYTES p)
      \<and> f (mr_id m) = None \<and> index_catalog (f(mr_id m \<mapsto> m)) ms = Inr g"
    by (auto simp: rbind_eq_Inr split: option.splits)
  also have "\<dots> \<longleftrightarrow> ok_catalog (m # ms) \<and> mr_id ` set (m # ms) \<inter> dom f = {}
      \<and> g = f(mr_id m \<mapsto> m) ++ catalog_index ms"
    unfolding Cons.IH ok_catalog_Cons dom_fun_upd by (simp add: domIff) blast
  also have "\<dots> \<longleftrightarrow> ok_catalog (m # ms) \<and> mr_id ` set (m # ms) \<inter> dom f = {}
      \<and> g = f ++ catalog_index (m # ms)"
    using catalog_index_Cons [of m ms f] by (auto simp: ok_catalog_Cons)
  finally show ?case .
qed

lemma resolve_target_Inr:
  "resolve_target f t = Inr m \<longleftrightarrow> f (rt_model_id t) = Some m
     \<and> (\<forall>p. rt_provider t = Some p \<longrightarrow> mr_provider m = Some p)"
  by (auto simp: resolve_target_def rbind_eq_Inr split: option.splits if_splits)

lemma resolve_targets_Inr:
  "resolve_targets f seen ts = Inr ms \<longleftrightarrow>
     validate_targets seen ts = Inr () \<and> list_all2 (\<lambda>t m. resolve_target f t = Inr m) ts ms"
proof (induction ts arbitrary: seen ms)
  case Nil
  then show ?case by auto
next
  case (Cons t ts)
  then show ?case by (cases ms) (auto simp: rbind_eq_Inr)
qed

lemma resolve_target_matches:
  assumes "ok_catalog catalog"
  shows "resolve_target (catalog_index catalog) t = Inr m \<longleftrightarrow> m \<in> set catalog \<and> target_matches t m"
  using assms by (auto simp: resolve_target_Inr catalog_index_Some ok_catalog_def target_matches_def)

lemma list_all2_member:
  "list_all2 (\<lambda>t m. m \<in> A \<and> P t m) ts ms \<longleftrightarrow> list_all2 P ts ms \<and> set ms \<subseteq> A"
proof (induction ts arbitrary: ms)
  case Nil
  then show ?case by auto
next
  case (Cons t ts)
  then show ?case by (cases ms) auto
qed

lemma resolve_routes_Inr:
  assumes "ok_policy c" and "ok_catalog catalog"
  shows "resolve_targets (catalog_index catalog) {} (config_targets c) = Inr routes \<longleftrightarrow>
    list_all2 target_matches (config_targets c) routes \<and> set routes \<subseteq> set catalog"
proof -
  have "validate_targets {} (config_targets c) = Inr ()"
    using assms(1) by (simp add: validate_targets_Inr ok_policy_def)
  then show ?thesis
    using assms(2) by (simp add: resolve_targets_Inr resolve_target_matches list_all2_member)
qed

lemma target_ids: "list_all2 target_matches ts ms \<Longrightarrow> map mr_id ms = map rt_model_id ts"
  by (induction rule: list_all2_induct) (auto simp: target_matches_def)

lemma resolves_to_inv: "resolves_to c catalog p \<Longrightarrow> resolved_inv p"
proof -
  assume *: "resolves_to c catalog p"
  then have "length (rv_routes p) = length (config_targets c)"
    and "map mr_id (rv_routes p) = map rt_model_id (config_targets c)"
    by (auto simp: resolves_to_def dest: list_all2_lengthD target_ids)
  with * show "resolved_inv p"
    unfolding resolves_to_def resolved_inv_def ok_policy_def
    by (metis config_targets_def length_0_conv list.distinct(1))
qed

lemma resolve_Inr: "resolve c catalog = Inr p \<longleftrightarrow> resolves_to c catalog p"
proof (cases "ok_policy c \<and> ok_catalog catalog")
  case True
  then have "resolve c catalog = Inr p \<longleftrightarrow>
      (\<exists>routes. resolve_targets (catalog_index catalog) {} (config_targets c) = Inr routes
        \<and> p = \<lparr>rv_routes = routes, rv_fallback_on = rp_fallback_on c,
               rv_fallback_boundary = rp_fallback_boundary c\<rparr>)"
    by (auto simp: resolve_def rbind_eq_Inr policy_config_validate_Inr index_catalog_Inr)
  also have "\<dots> \<longleftrightarrow> resolves_to c catalog p"
    using True by (cases p) (auto simp: resolve_routes_Inr resolves_to_def)
  finally show ?thesis .
next
  case False
  then show ?thesis
    by (auto simp: resolve_def rbind_eq_Inr policy_config_validate_Inr index_catalog_Inr
        resolves_to_def)
qed

text \<open>C18: resolution is exact. The resolver succeeds with a policy precisely when configuration and
  catalog are well formed and the routes are, position by position, catalog entries with the
  configured model id and (where configured) the configured provider; triggers and boundary are
  carried over unchanged. So it never invents, drops, reorders or aliases a model, and it never
  rejects a resolvable configuration.\<close>

theorem resolve_iff_resolves_to: "resolve c catalog = Inr p \<longleftrightarrow> resolves_to c catalog p"
  by (rule resolve_Inr)

lemma resolve_inv: "resolve c catalog = Inr p \<Longrightarrow> resolved_inv p"
  by (simp add: resolve_Inr resolves_to_inv)

lemma resolved_primary_Some: "resolved_inv p \<Longrightarrow> resolved_primary p = Some (rv_routes p ! 0)"
  by (cases "rv_routes p") (auto simp: resolved_primary_def resolved_inv_def)

section \<open>Decisions\<close>

lemma safe_fallback_trigger_Some:
  "safe_fallback_trigger f = Some t \<longleftrightarrow>
     (f = RF_RateLimited \<and> t = FT_RateLimited) \<or> (f = RF_Timeout \<and> t = FT_Timeout)
     \<or> (f = RF_ProviderUnavailable \<and> t = FT_ProviderUnavailable)
     \<or> (f = RF_ModelUnavailable \<and> t = FT_ModelUnavailable)"
  by (cases f) (auto simp: safe_fallback_trigger_def)

lemma boundary_progress:
  "(case b of BeforeResponseOnly \<Rightarrow> x) = x"
  by (cases b) simp

text \<open>The branch taken by a fallback.\<close>

lemma decision_Fallback_iff:
  "decision_after_failure p s f = Inr (Fallback t m) \<longleftrightarrow>
     Suc (ra_route_index s) < length (rv_routes p) \<and> \<not> observable_progress_started s
     \<and> (\<exists>trigger \<in> set (rv_fallback_on p). safe_fallback_trigger f = Some trigger)
     \<and> t = pristine (Suc (ra_route_index s)) \<and> m = rv_routes p ! Suc (ra_route_index s)"
  by (auto simp: decision_after_failure_def boundary_progress Let_def split: option.splits)

lemma decision_in_range:
  "ra_route_index s < length (rv_routes p) \<Longrightarrow> \<exists>d. decision_after_failure p s f = Inr d"
  by (auto simp: decision_after_failure_def boundary_progress Let_def split: option.splits)

text \<open>Once a response or tool activity was seen, no failure whatsoever leads to a fallback.\<close>

lemma decision_after_progress:
  assumes "ra_route_index s < length (rv_routes p)" and "observable_progress_started s"
  shows "decision_after_failure p s f = Inr (RouteStop ObservableProgressAlreadyStarted)"
  using assms by (simp add: decision_after_failure_def boundary_progress)

interpretation fb: bounded_retry fallback_step "\<lambda>x. ra_route_index (snd x)"
    "\<lambda>x. length (rv_routes (fst x)) - 1"
  by unfold_locales
    (auto simp: fallback_step_def decision_Fallback_iff pristine_def)

text \<open>automatic routing terminates. However the attempts fail and whatever progress they make,
  a policy issued by the resolver admits fewer fallbacks than it has routes, hence at most seven.\<close>

theorem fallback_chain_bounded:
  assumes "resolve c catalog = Inr p" and "run fallback_step (p, start_attempt p) n (p', s)"
  shows "n < length (rv_routes p) \<and> n \<le> 7"
proof -
  have inv: "resolved_inv p"
    using assms(1) by (rule resolve_inv)
  then have "n \<le> length (rv_routes p) - 1"
    using fb.run_bounded [OF assms(2)] by simp
  with inv show ?thesis
    by (cases "rv_routes p") (auto simp: resolved_inv_def MAX_ROUTE_TARGETS_def)
qed

section \<open>A concrete policy\<close>

definition demo_model :: "string \<Rightarrow> string \<Rightarrow> model_ref" where
  "demo_model i p = \<lparr>mr_id = lit i, mr_display_name = None, mr_provider = Some (lit p)\<rparr>"

definition demo_config :: route_policy_config where
  "demo_config =
     \<lparr>rp_primary = \<lparr>rt_model_id = lit ''a/m'', rt_provider = Some (lit ''a'')\<rparr>,
      rp_fallbacks = [\<lparr>rt_model_id = lit ''b/m'', rt_provider = None\<rparr>],
      rp_fallback_on = [FT_ModelUnavailable], rp_fallback_boundary = BeforeResponseOnly\<rparr>"

definition demo_catalog :: "model_ref list" where
  "demo_catalog = [demo_model ''b/m'' ''b'', demo_model ''a/m'' ''a'', demo_model ''c/m'' ''c'']"

definition demo_policy :: resolved_policy where
  "demo_policy =
     \<lparr>rv_routes = [demo_model ''a/m'' ''a'', demo_model ''b/m'' ''b''],
      rv_fallback_on = [FT_ModelUnavailable], rv_fallback_boundary = BeforeResponseOnly\<rparr>"

lemma demo_resolve: "resolve demo_config demo_catalog = Inr demo_policy"
  by code_simp

lemma demo_fallback:
  "decision_after_failure demo_policy (start_attempt demo_policy) RF_ModelUnavailable
     = Inr (Fallback (pristine 1) (demo_model ''b/m'' ''b''))"
  by code_simp

lemma demo_fallback_run:
  "run fallback_step (demo_policy, start_attempt demo_policy) (Suc 0) (demo_policy, pristine 1)"
  by (rule run_step [OF run_refl]) (use demo_fallback in \<open>auto simp: fallback_step_def\<close>)

theorem fallback_chain_bounded_witness:
  "resolve demo_config demo_catalog = Inr demo_policy
   \<and> run fallback_step (demo_policy, start_attempt demo_policy) (Suc 0) (demo_policy, pristine 1)
   \<and> Suc 0 < length (rv_routes demo_policy)"
  using fallback_chain_bounded [OF demo_resolve demo_fallback_run] demo_resolve demo_fallback_run
  by blast

end
