(* ===== verification/Persistence_Contract.thy ===== *)
theory Persistence_Contract
  imports Routing
begin

text \<open>
  The persisted project and conversation state of \<open>crates/vibecoder-persistence-contract\<close>: what a store
  may hold, and how a conversation grows.

  \<open>project_state_validate\<close> and \<open>conversation_validate\<close> follow the source line by line;
  \<open>ok_project_state\<close> and \<open>ok_conversation\<close> say declaratively what they accept. The running total of message
  bytes is a natural number: the messages are in memory, so the \<open>checked_add\<close> on their lengths cannot
  overflow a \<open>usize\<close>. \<open>append_message\<close> changes the conversation only when it succeeds, so it returns the
  new conversation or the error.

  The locales \<open>versioned_store\<close> and \<open>conversation_store\<close> state what the traits \<open>ProjectStateStore\<close> and
  \<open>ConversationStore\<close> promise their callers, for any implementation.
\<close>

section \<open>Model\<close>

definition PROJECT_STATE_SCHEMA_V1 :: u32 where "PROJECT_STATE_SCHEMA_V1 = 1"
definition CONVERSATION_STATE_SCHEMA_V1 :: u32 where "CONVERSATION_STATE_SCHEMA_V1 = 1"
definition MAX_PERSISTED_PROJECTS :: nat where "MAX_PERSISTED_PROJECTS = 4096"
definition MAX_PERSISTED_CONVERSATIONS_PER_PROJECT :: nat where
  "MAX_PERSISTED_CONVERSATIONS_PER_PROJECT = 512"
definition MAX_PERSISTED_STATE_BYTES :: nat where "MAX_PERSISTED_STATE_BYTES = 256 * 1024"
definition MAX_PERSISTED_CONVERSATION_BYTES :: nat where
  "MAX_PERSISTED_CONVERSATION_BYTES = 16 * 1024 * 1024"
definition MAX_CONVERSATION_MESSAGES :: nat where "MAX_CONVERSATION_MESSAGES = 4096"
definition MAX_CONVERSATION_MESSAGE_BYTES :: nat where "MAX_CONVERSATION_MESSAGE_BYTES = 256 * 1024"
definition MAX_CONVERSATION_TEXT_BYTES :: nat where
  "MAX_CONVERSATION_TEXT_BYTES = 12 * 1024 * 1024"
definition MAX_CONVERSATION_TITLE_BYTES :: nat where "MAX_CONVERSATION_TITLE_BYTES = 200"
definition MAX_RUNTIME_ID_BYTES :: nat where "MAX_RUNTIME_ID_BYTES = 64"
definition MAX_PERSISTED_SESSION_ID_BYTES :: nat where "MAX_PERSISTED_SESSION_ID_BYTES = 128"

record persisted_agent_session =
  as_runtime_id :: rstring
  as_session_id :: session_id
  as_preferred_model :: "route_target_config option"

record persisted_project_state =
  pst_schema :: u32
  pst_revision :: u64
  pst_project_id :: project_id
  pst_session_creation_pending :: bool
  pst_agent_session :: "persisted_agent_session option"
  pst_route_policy :: "route_policy_config option"

datatype conversation_role = RoleUser | RoleAssistant

record persisted_message =
  pm_sequence :: u64
  pm_role :: conversation_role
  pm_text :: rstring

record persisted_conversation =
  cv_schema :: u32
  cv_revision :: u64
  cv_conversation_id :: conversation_id
  cv_project_id :: project_id
  cv_session_creation_pending :: bool
  cv_agent_session :: "persisted_agent_session option"
  cv_turn_pending :: bool
  cv_title :: "rstring option"
  cv_messages :: "persisted_message list"

definition persistence_error :: "string \<Rightarrow> vibecoder_error" where
  "persistence_error code = Persistence code"

definition is_ascii_lowercase :: "rchar \<Rightarrow> bool" where
  "is_ascii_lowercase c \<longleftrightarrow> 97 \<le> c \<and> c \<le> 122"

definition validate_runtime_id :: "rstring \<Rightarrow> unit result" where
  "validate_runtime_id value =
     (if value = [] \<or> byte_len value > MAX_RUNTIME_ID_BYTES
         \<or> \<not> list_all (\<lambda>b. is_ascii_lowercase b \<or> is_ascii_digit b \<or> b \<in> {45, 95, 46}) value
      then Inl (persistence_error ''project_state_runtime_id_invalid'') else Inr ())"

definition validate_session_id :: "session_id \<Rightarrow> unit result" where
  "validate_session_id sid =
     (case sid of SessionId value \<Rightarrow>
        if value = [] \<or> byte_len value > MAX_PERSISTED_SESSION_ID_BYTES
           \<or> \<not> list_all (\<lambda>b. is_ascii_alphanumeric b \<or> b \<in> {45, 95}) value
        then Inl (persistence_error ''project_state_session_id_invalid'') else Inr ())"

definition agent_session_validate :: "persisted_agent_session \<Rightarrow> unit result" where
  "agent_session_validate s =
     rbind (validate_runtime_id (as_runtime_id s))
       (\<lambda>_. rbind (validate_session_id (as_session_id s))
       (\<lambda>_. case as_preferred_model s of None \<Rightarrow> Inr () | Some model \<Rightarrow> validate_target model))"

definition project_state_new :: "project_id \<Rightarrow> persisted_project_state" where
  "project_state_new pid =
     \<lparr>pst_schema = PROJECT_STATE_SCHEMA_V1, pst_revision = 0, pst_project_id = pid,
      pst_session_creation_pending = False, pst_agent_session = None, pst_route_policy = None\<rparr>"

definition project_state_validate :: "persisted_project_state \<Rightarrow> unit result" where
  "project_state_validate s =
     (if pst_schema s \<noteq> PROJECT_STATE_SCHEMA_V1
      then Inl (persistence_error ''project_state_schema_unsupported'')
      else if pst_session_creation_pending s \<and> pst_agent_session s \<noteq> None
      then Inl (persistence_error ''project_state_session_pending_conflict'')
      else rbind (case pst_agent_session s of
                    None \<Rightarrow> Inr () | Some session \<Rightarrow> agent_session_validate session)
        (\<lambda>_. case pst_route_policy s of
               None \<Rightarrow> Inr () | Some policy \<Rightarrow> policy_config_validate policy))"

definition pending_creation ::
    "conversation_id \<Rightarrow> project_id \<Rightarrow> persisted_conversation" where
  "pending_creation cid pid =
     \<lparr>cv_schema = CONVERSATION_STATE_SCHEMA_V1, cv_revision = 0, cv_conversation_id = cid,
      cv_project_id = pid, cv_session_creation_pending = True, cv_agent_session = None,
      cv_turn_pending = False, cv_title = None, cv_messages = []\<rparr>"

definition message_text_invalid :: "rstring \<Rightarrow> bool" where
  "message_text_invalid t \<longleftrightarrow>
     t = [] \<or> byte_len t > MAX_CONVERSATION_MESSAGE_BYTES \<or> 0 \<in> set t"

fun validate_messages :: "nat \<Rightarrow> nat \<Rightarrow> persisted_message list \<Rightarrow> unit result" where
  "validate_messages index acc [] = Inr ()"
| "validate_messages index acc (m # ms) =
     (if pm_sequence m \<noteq> of_nat index
      then Inl (persistence_error ''conversation_message_sequence_invalid'')
      else if message_text_invalid (pm_text m)
      then Inl (persistence_error ''conversation_message_invalid'')
      else if acc + byte_len (pm_text m) > MAX_CONVERSATION_TEXT_BYTES
      then Inl (persistence_error ''conversation_text_too_large'')
      else validate_messages (index + 1) (acc + byte_len (pm_text m)) ms)"

definition title_invalid :: "rstring \<Rightarrow> bool" where
  "title_invalid t \<longleftrightarrow> t = [] \<or> byte_len t > MAX_CONVERSATION_TITLE_BYTES \<or> trim t \<noteq> t
     \<or> list_ex is_control t"

definition last_role :: "persisted_message list \<Rightarrow> conversation_role option" where
  "last_role ms = (if ms = [] then None else Some (pm_role (last ms)))"

definition conversation_validate :: "persisted_conversation \<Rightarrow> unit result" where
  "conversation_validate c =
     (if cv_schema c \<noteq> CONVERSATION_STATE_SCHEMA_V1
      then Inl (persistence_error ''conversation_state_schema_unsupported'')
      else if cv_session_creation_pending c = (cv_agent_session c \<noteq> None)
      then Inl (persistence_error ''conversation_session_state_invalid'')
      else rbind (case cv_agent_session c of
                    None \<Rightarrow> Inr () | Some session \<Rightarrow> agent_session_validate session)
        (\<lambda>_. if cv_session_creation_pending c \<and> (cv_turn_pending c \<or> cv_messages c \<noteq> [])
             then Inl (persistence_error ''conversation_creation_pending_payload_invalid'')
             else if (case cv_title c of None \<Rightarrow> False | Some t \<Rightarrow> title_invalid t)
             then Inl (persistence_error ''conversation_title_invalid'')
             else if length (cv_messages c) > MAX_CONVERSATION_MESSAGES
             then Inl (persistence_error ''conversation_message_limit_exceeded'')
             else rbind (validate_messages 0 0 (cv_messages c))
        (\<lambda>_. if cv_turn_pending c \<and> last_role (cv_messages c) \<noteq> Some RoleUser
             then Inl (persistence_error ''conversation_pending_turn_invalid'') else Inr ())))"

definition text_bytes :: "persisted_message list \<Rightarrow> nat" where
  "text_bytes ms = sum_list (map (\<lambda>m. byte_len (pm_text m)) ms)"

definition append_message ::
    "persisted_conversation \<Rightarrow> conversation_role \<Rightarrow> rstring \<Rightarrow> persisted_conversation result" where
  "append_message c role t =
     (if message_text_invalid t then Inl (persistence_error ''conversation_message_invalid'')
      else if length (cv_messages c) \<ge> MAX_CONVERSATION_MESSAGES
      then Inl (persistence_error ''conversation_message_limit_exceeded'')
      else if text_bytes (cv_messages c) + byte_len t > MAX_CONVERSATION_TEXT_BYTES
      then Inl (persistence_error ''conversation_text_too_large'')
      else Inr (c\<lparr>cv_messages := cv_messages c
        @ [\<lparr>pm_sequence = of_nat (length (cv_messages c)), pm_role = role, pm_text = t\<rparr>]\<rparr>))"

section \<open>What is accepted\<close>

definition ok_agent_session :: "persisted_agent_session \<Rightarrow> bool" where
  "ok_agent_session s \<longleftrightarrow>
     validate_runtime_id (as_runtime_id s) = Inr () \<and> validate_session_id (as_session_id s) = Inr ()
     \<and> (\<forall>m. as_preferred_model s = Some m \<longrightarrow> ok_target m)"

definition ok_project_state :: "persisted_project_state \<Rightarrow> bool" where
  "ok_project_state s \<longleftrightarrow> pst_schema s = PROJECT_STATE_SCHEMA_V1
     \<and> (pst_session_creation_pending s \<longrightarrow> pst_agent_session s = None)
     \<and> (\<forall>a. pst_agent_session s = Some a \<longrightarrow> ok_agent_session a)
     \<and> (\<forall>p. pst_route_policy s = Some p \<longrightarrow> ok_policy p)"

text \<open>The messages are numbered from zero without gaps and stay within the three size limits.\<close>

definition ok_messages :: "persisted_message list \<Rightarrow> bool" where
  "ok_messages ms \<longleftrightarrow> length ms \<le> MAX_CONVERSATION_MESSAGES
     \<and> text_bytes ms \<le> MAX_CONVERSATION_TEXT_BYTES
     \<and> (\<forall>i < length ms. pm_sequence (ms ! i) = of_nat i)
     \<and> (\<forall>m \<in> set ms. \<not> message_text_invalid (pm_text m))"

text \<open>A conversation either waits for its session, and is then empty, or has a valid session; a turn is
  pending only after a user message.\<close>

definition ok_conversation :: "persisted_conversation \<Rightarrow> bool" where
  "ok_conversation c \<longleftrightarrow> cv_schema c = CONVERSATION_STATE_SCHEMA_V1
     \<and> (if cv_session_creation_pending c
        then cv_agent_session c = None \<and> \<not> cv_turn_pending c \<and> cv_messages c = []
        else (\<exists>a. cv_agent_session c = Some a \<and> ok_agent_session a))
     \<and> (\<forall>t. cv_title c = Some t \<longrightarrow> \<not> title_invalid t)
     \<and> ok_messages (cv_messages c)
     \<and> (cv_turn_pending c \<longrightarrow> last_role (cv_messages c) = Some RoleUser)"

section \<open>Lemmas\<close>

lemma text_bytes_simps [simp]:
  "text_bytes [] = 0" "text_bytes (m # ms) = byte_len (pm_text m) + text_bytes ms"
  "text_bytes (ms @ ns) = text_bytes ms + text_bytes ns"
  by (simp_all add: text_bytes_def)

lemma last_role_simps [simp]: "last_role [] = None" "last_role (ms @ [m]) = Some (pm_role m)"
  by (simp_all add: last_role_def)

lemma agent_session_validate_Inr [simp]: "agent_session_validate s = Inr u \<longleftrightarrow> ok_agent_session s"
  by (auto simp: agent_session_validate_def ok_agent_session_def rbind_eq_Inr 
      split: option.splits)

lemma project_state_validate_Inr: "project_state_validate s = Inr u \<longleftrightarrow> ok_project_state s"
  by (auto simp: project_state_validate_def ok_project_state_def rbind_eq_Inr
      policy_config_validate_Inr split: option.splits)

lemma validate_messages_Inr:
  "validate_messages i acc ms = Inr u \<longleftrightarrow>
     (ms = [] \<or> acc + text_bytes ms \<le> MAX_CONVERSATION_TEXT_BYTES)
     \<and> (\<forall>j < length ms. pm_sequence (ms ! j) = of_nat (i + j))
     \<and> (\<forall>m \<in> set ms. \<not> message_text_invalid (pm_text m))"
proof (induction i acc ms rule: validate_messages.induct)
  case (2 i acc m ms)
  have split: "(\<forall>j < length (m # ms). pm_sequence ((m # ms) ! j) = of_nat (i + j)) \<longleftrightarrow>
      pm_sequence m = of_nat i \<and> (\<forall>j < length ms. pm_sequence (ms ! j) = of_nat (Suc i + j))"
    by (simp add: All_less_Suc2 algebra_simps)
  show ?case using 2 unfolding split by (auto simp: algebra_simps)
qed simp

lemma conversation_validate_Inr: "conversation_validate c = Inr u \<longleftrightarrow> ok_conversation c"
  by (auto simp: conversation_validate_def ok_conversation_def ok_messages_def rbind_eq_Inr
      validate_messages_Inr split: option.splits)

lemma append_message_Inr:
  "append_message c role t = Inr c' \<longleftrightarrow>
     \<not> message_text_invalid t \<and> length (cv_messages c) < MAX_CONVERSATION_MESSAGES
     \<and> text_bytes (cv_messages c) + byte_len t \<le> MAX_CONVERSATION_TEXT_BYTES
     \<and> c' = c\<lparr>cv_messages := cv_messages c
        @ [\<lparr>pm_sequence = of_nat (length (cv_messages c)), pm_role = role, pm_text = t\<rparr>]\<rparr>"
  by (auto simp: append_message_def)

lemma append_message_ok:
  assumes "append_message c role t = Inr c'" and "ok_messages (cv_messages c)"
  shows "ok_messages (cv_messages c')"
  using assms by (auto simp: append_message_Inr ok_messages_def nth_append less_Suc_eq)

section \<open>Store contracts\<close>

text \<open>A store of revisioned values. \<open>view\<close> is what the store durably holds. A failed call may still have
  committed its write (the final directory sync can fail after the rename), so an error leaves either
  the old content or the new one, never anything else.\<close>

locale versioned_store =
  fixes create :: "'s \<Rightarrow> 'v \<Rightarrow> unit result \<times> 's"
    and update :: "'s \<Rightarrow> u64 \<Rightarrow> 'v \<Rightarrow> 'v result \<times> 's"
    and load :: "'s \<Rightarrow> 'k \<Rightarrow> 'v option result \<times> 's"
    and remove :: "'s \<Rightarrow> 'k \<Rightarrow> unit result \<times> 's"
    and sinv :: "'s \<Rightarrow> bool"
    and view :: "'s \<Rightarrow> 'k \<rightharpoonup> 'v"
    and key :: "'v \<Rightarrow> 'k"
    and revision :: "'v \<Rightarrow> u64"
    and with_revision :: "u64 \<Rightarrow> 'v \<Rightarrow> 'v"
    and valid :: "'v \<Rightarrow> bool"
  assumes view_valid: "sinv s \<Longrightarrow> view s k = Some v \<Longrightarrow> valid v \<and> key v = k"
    and revision_with: "revision (with_revision n v) = n"
    and key_with: "key (with_revision n v) = key v"
    and create_inv: "sinv s \<Longrightarrow> sinv (snd (create s v))"
    and create_ok: "sinv s \<Longrightarrow> create s v = (Inr (), s') \<Longrightarrow>
      valid v \<and> revision v = 0 \<and> view s (key v) = None \<and> view s' = (view s)(key v \<mapsto> v)"
    and create_err: "sinv s \<Longrightarrow> create s v = (Inl e, s') \<Longrightarrow>
      view s' = view s \<or> (view s (key v) = None \<and> view s' = (view s)(key v \<mapsto> v))"
    and update_inv: "sinv s \<Longrightarrow> sinv (snd (update s n v))"
    and update_ok: "sinv s \<Longrightarrow> update s n v = (Inr v', s') \<Longrightarrow>
      valid v \<and> revision v = n \<and> (\<exists>m. checked_succ n = Some m \<and> v' = with_revision m v)
      \<and> (\<exists>old. view s (key v) = Some old \<and> revision old = n) \<and> view s' = (view s)(key v \<mapsto> v')"
    and update_err: "sinv s \<Longrightarrow> update s n v = (Inl e, s') \<Longrightarrow>
      view s' = view s \<or>
      (\<exists>m old. checked_succ n = Some m \<and> view s (key v) = Some old \<and> revision old = n
         \<and> view s' = (view s)(key v \<mapsto> with_revision m v))"
    and load_keeps: "sinv s \<Longrightarrow> sinv (snd (load s k)) \<and> view (snd (load s k)) = view s"
    and load_ok: "sinv s \<Longrightarrow> load s k = (Inr r, s') \<Longrightarrow> r = view s k"
    and remove_inv: "sinv s \<Longrightarrow> sinv (snd (remove s k))"
    and remove_ok: "sinv s \<Longrightarrow> remove s k = (Inr (), s') \<Longrightarrow> view s' = (view s)(k := None)"
    and remove_err: "sinv s \<Longrightarrow> remove s k = (Inl e, s') \<Longrightarrow>
      view s' = view s \<or> view s' = (view s)(k := None)"
begin

text \<open>A call on the store other than a removal of \<open>k\<close>.\<close>

definition store_step :: "'k \<Rightarrow> 's \<Rightarrow> 's \<Rightarrow> bool" where
  "store_step k s t \<longleftrightarrow> (\<exists>v. t = snd (create s v)) \<or> (\<exists>n v. t = snd (update s n v))
     \<or> (\<exists>j. t = snd (load s j)) \<or> (\<exists>j. j \<noteq> k \<and> t = snd (remove s j))"

lemma store_step_inv: "sinv s \<Longrightarrow> store_step k s t \<Longrightarrow> sinv t"
  by (auto simp: store_step_def create_inv update_inv load_keeps remove_inv)

lemma create_effect:
  assumes "sinv s"
  shows "view (snd (create s v)) = view s
    \<or> (view s (key v) = None \<and> view (snd (create s v)) = (view s)(key v \<mapsto> v))"
proof -
  obtain r t where eq: "create s v = (r, t)" by (cases "create s v")
  show ?thesis
  proof (cases r)
    case (Inl e)
    with eq create_err [OF assms] show ?thesis by auto
  next
    case (Inr u)
    with eq create_ok [OF assms] show ?thesis by auto
  qed
qed

lemma update_effect:
  assumes "sinv s"
  shows "view (snd (update s n v)) = view s
    \<or> (\<exists>m old. checked_succ n = Some m \<and> view s (key v) = Some old \<and> revision old = n
         \<and> view (snd (update s n v)) = (view s)(key v \<mapsto> with_revision m v))"
proof -
  obtain r t where eq: "update s n v = (r, t)" by (cases "update s n v")
  show ?thesis
  proof (cases r)
    case (Inl e)
    with update_err [OF assms] eq show ?thesis by simp
  next
    case (Inr u)
    with update_ok [OF assms, of n v u t] eq show ?thesis by auto
  qed
qed

lemma remove_effect:
  assumes "sinv s"
  shows "view (snd (remove s k)) = view s \<or> view (snd (remove s k)) = (view s)(k := None)"
proof -
  obtain r t where eq: "remove s k = (r, t)" by (cases "remove s k")
  show ?thesis
  proof (cases r)
    case (Inl e)
    with eq remove_err [OF assms] show ?thesis by auto
  next
    case (Inr u)
    with eq remove_ok [OF assms] show ?thesis by auto
  qed
qed

lemma store_step_revision:
  assumes "sinv s" and "store_step k s t" and "view s k = Some v"
  shows "\<exists>w. view t k = Some w \<and> unat (revision v) \<le> unat (revision w)"
  using assms(2) unfolding store_step_def
proof (elim disjE exE conjE)
  fix u assume "t = snd (create s u)"
  then show ?thesis using create_effect [OF assms(1), of u] assms(3) by (auto simp: fun_upd_apply)
next
  fix n u assume t: "t = snd (update s n u)"
  from update_effect [OF assms(1), of n u] show ?thesis
  proof (elim disjE exE conjE)
    fix m old assume u: "checked_succ n = Some m" "view s (key u) = Some old" "revision old = n"
      "view (snd (update s n u)) = (view s)(key u \<mapsto> with_revision m u)"
    show ?thesis
      using assms(3) u checked_succ_Some [OF u(1)]
      by (cases "key u = k") (auto simp: t revision_with)
  qed (use assms(3) t in auto)
next
  fix j assume "t = snd (load s j)"
  then show ?thesis using load_keeps [OF assms(1)] assms(3) by auto
next
  fix j assume "j \<noteq> k" "t = snd (remove s j)"
  then show ?thesis using remove_effect [OF assms(1), of j] assms(3) by auto
qed

lemma run_revision:
  assumes "run (store_step k) s n t" and "sinv s" and "view s k = Some v"
  shows "sinv t \<and> (\<exists>w. view t k = Some w \<and> unat (revision v) \<le> unat (revision w))"
  using assms
proof (induction rule: run.induct)
  case (run_step s n t u)
  then obtain w where w: "sinv t" "view t k = Some w" "unat (revision v) \<le> unat (revision w)"
    by blast
  from store_step_revision [OF w(1) run_step(2) w(2)] show ?case
    using store_step_inv [OF w(1) run_step(2)] w(3) by (meson order_trans)
qed auto

text \<open>Of two writers that read the same revision at most one commits.\<close>

lemma cas_exclusive:
  assumes "sinv s" and "update s n v = (Inr v', s')" and "run (store_step (key v)) s' i t"
    and "key w = key v"
  shows "fst (update t n w) \<noteq> Inr w'"
proof
  assume "fst (update t n w) = Inr w'"
  then have second: "update t n w = (Inr w', snd (update t n w))" by (simp add: prod_eq_iff)
  from update_ok [OF assms(1,2)] obtain m where m: "checked_succ n = Some m" "v' = with_revision m v"
    and s': "view s' = (view s)(key v \<mapsto> v')" by blast
  have "sinv s'" using update_inv [OF assms(1), of n v] assms(2) by simp
  from run_revision [OF assms(3) this, of v'] s' obtain u
    where t: "sinv t" "view t (key v) = Some u" "unat (revision v') \<le> unat (revision u)" by auto
  from update_ok [OF t(1) second] assms(4) t(2) have "revision u = n" by auto
  with t(3) checked_succ_Some [OF m(1)] show False by (simp add: m(2) revision_with)
qed

end

text \<open>A conversation store also lists the conversations of a project: every conversation it holds for
  the project is listed, once.\<close>

locale conversation_store =
  versioned_store create update load remove sinv view
    "\<lambda>c. (cv_project_id c, cv_conversation_id c)" cv_revision "\<lambda>n c. c\<lparr>cv_revision := n\<rparr>" ok_conversation
  for create :: "'s \<Rightarrow> persisted_conversation \<Rightarrow> unit result \<times> 's"
    and update :: "'s \<Rightarrow> u64 \<Rightarrow> persisted_conversation \<Rightarrow> persisted_conversation result \<times> 's"
    and load :: "'s \<Rightarrow> project_id \<times> conversation_id \<Rightarrow> persisted_conversation option result \<times> 's"
    and remove :: "'s \<Rightarrow> project_id \<times> conversation_id \<Rightarrow> unit result \<times> 's"
    and sinv :: "'s \<Rightarrow> bool"
    and view :: "'s \<Rightarrow> project_id \<times> conversation_id \<rightharpoonup> persisted_conversation" +
  fixes list_ids :: "'s \<Rightarrow> project_id \<Rightarrow> nat \<Rightarrow> conversation_id list result \<times> 's"
  assumes list_keeps: "sinv s \<Longrightarrow> sinv (snd (list_ids s pid n)) \<and> view (snd (list_ids s pid n)) = view s"
    and list_complete: "sinv s \<Longrightarrow> list_ids s pid n = (Inr ids, s') \<Longrightarrow>
      distinct ids \<and> length ids \<le> n \<and> (\<forall>cid. view s (pid, cid) \<noteq> None \<longrightarrow> cid \<in> set ids)"

end
