(* ===== verification/Command_Policy.thy ===== *)
theory Command_Policy
  imports Domain
begin

text \<open>
  The command policy of \<open>crates/vibecoder-command-policy\<close>: validation of structured command requests,
  the broker that keeps requests pending until an explicit decision, and the project epochs that
  revoke issued authorizations.

  The engine's mutex-protected state is an explicit record threaded through the operations; a
  \<open>HashMap\<close> is an association list with distinct keys. \<open>es_poisoned\<close> is the poison flag of the mutex,
  which no operation of the engine sets. The text form of a \<open>Uuid\<close> belongs to the \<open>uuid\<close> crate: the two
  functions the engine uses of it are the parameter \<open>U\<close>. Lengths are natural numbers: the running
  argument total is rejected above 32 KiB before the next argument of at most 4 KiB is added, so the
  \<open>checked_add\<close> on it cannot fail.
\<close>

section \<open>Model\<close>

definition MAX_ARGUMENTS :: nat where "MAX_ARGUMENTS = 64"
definition MAX_ARGUMENT_BYTES :: nat where "MAX_ARGUMENT_BYTES = 4096"
definition MAX_TOTAL_ARGUMENT_BYTES :: nat where "MAX_TOTAL_ARGUMENT_BYTES = 32 * 1024"
definition MAX_RELATIVE_PATH_BYTES :: nat where "MAX_RELATIVE_PATH_BYTES = 4096"
definition MAX_PATH_COMPONENT_BYTES :: nat where "MAX_PATH_COMPONENT_BYTES = 255"
definition MAX_RUNTIME_TOOL_ID_BYTES :: nat where "MAX_RUNTIME_TOOL_ID_BYTES = 64"
definition MAX_ALLOWED_RUNTIME_TOOLS :: nat where "MAX_ALLOWED_RUNTIME_TOOLS = 64"
definition MAX_SESSION_ID_BYTES :: nat where "MAX_SESSION_ID_BYTES = 256"
definition MAX_PENDING_COMMANDS :: nat where "MAX_PENDING_COMMANDS = 64"
definition MAX_PENDING_PER_SESSION :: nat where "MAX_PENDING_PER_SESSION = 8"
definition INTERNAL_TEMP_PREFIX :: rstring where "INTERNAL_TEMP_PREFIX = lit ''.vibecoder-tmp-''"

datatype command_program = RuntimeTool rstring | WorkspaceExecutable path

record command_spec =
  cs_program :: command_program
  cs_args :: "rstring list"
  cs_working_dir :: path

datatype command_approval_decision = CA_AllowOnce | CA_Deny

record command_approval_request =
  ca_request_id :: rstring
  ca_session_id :: session_id
  ca_project_id :: project_id
  ca_command :: command_spec

record command_denied =
  cd_code :: string

datatype command_environment_policy = RuntimeManagedClean

record command_execution_envelope =
  en_request_id :: rstring
  en_session_id :: session_id
  en_project_id :: project_id
  en_command :: command_spec
  en_environment_policy :: command_environment_policy
  en_project_epoch :: u64

record authorized_command =
  au_request_id :: rstring
  au_session_id :: session_id
  au_project_id :: project_id
  au_command :: command_spec
  au_environment_policy :: command_environment_policy
  au_project_epoch :: u64

datatype command_request_outcome =
    ApprovalRequired command_approval_request
  | RequestDenied command_denied

datatype command_decision_outcome =
    Authorized command_execution_envelope
  | DecisionDenied command_denied

definition into_authorized_command :: "command_execution_envelope \<Rightarrow> authorized_command" where
  "into_authorized_command e =
     \<lparr>au_request_id = en_request_id e, au_session_id = en_session_id e,
      au_project_id = en_project_id e, au_command = en_command e,
      au_environment_policy = en_environment_policy e, au_project_epoch = en_project_epoch e\<rparr>"

record command_policy_config =
  cp_allowed_runtime_tools :: "rstring list"
  cp_allow_workspace_executables :: bool

record pending_command =
  pc_session_id :: session_id
  pc_project_id :: project_id
  pc_command :: command_spec

record command_policy_engine =
  es_config :: command_policy_config
  es_pending :: "(rstring \<times> pending_command) list"
  es_project_epochs :: "project_id \<rightharpoonup> u64"
  es_poisoned :: bool

text \<open>What the engine uses of the \<open>uuid\<close> crate: \<open>Uuid::parse_str\<close> and \<open>hyphenated().to_string()\<close>.\<close>

record uuid_text =
  ut_parse_str :: "rstring \<Rightarrow> uuid option"
  ut_hyphenated :: "uuid \<Rightarrow> rstring"

definition command_error :: "string \<Rightarrow> vibecoder_error" where
  "command_error code = Command code"

definition deny_all :: command_policy_config where
  "deny_all = \<lparr>cp_allowed_runtime_tools = [], cp_allow_workspace_executables = False\<rparr>"

definition shell_tools :: "rstring list" where
  "shell_tools = map lit
     [''sh'', ''bash'', ''dash'', ''zsh'', ''fish'', ''cmd'', ''cmd.exe'', ''powershell'',
      ''powershell.exe'', ''pwsh'', ''pwsh.exe'']"

definition tool_id_char :: "rchar \<Rightarrow> bool" where
  "tool_id_char c \<longleftrightarrow> is_ascii_alphanumeric c \<or> c = 46 \<or> c = 95 \<or> c = 45"

definition validate_runtime_tool_id :: "rstring \<Rightarrow> rstring result" where
  "validate_runtime_tool_id tool_id =
     (if tool_id = [] \<or> byte_len tool_id > MAX_RUNTIME_TOOL_ID_BYTES
         \<or> \<not> list_all tool_id_char tool_id
      then Inl (command_error ''command_runtime_tool_id_invalid'')
      else if to_ascii_lowercase tool_id \<in> set shell_tools
      then Inl (command_error ''command_runtime_shell_tool_forbidden'')
      else Inr tool_id)"

fun add_runtime_tools :: "rstring list \<Rightarrow> rstring list \<Rightarrow> rstring list result" where
  "add_runtime_tools tools [] = Inr tools"
| "add_runtime_tools tools (t # ts) =
     (if length tools \<ge> MAX_ALLOWED_RUNTIME_TOOLS
      then Inl (command_error ''command_policy_runtime_tool_limit'')
      else rbind (validate_runtime_tool_id t)
        (\<lambda>tool. if tool \<in> set tools
                then Inl (command_error ''command_policy_duplicate_runtime_tool'')
                else add_runtime_tools (tools @ [tool]) ts))"

definition command_policy_config_new :: "rstring list \<Rightarrow> bool \<Rightarrow> command_policy_config result" where
  "command_policy_config_new tools allow_workspace =
     rbind (add_runtime_tools [] tools)
       (\<lambda>ts. Inr \<lparr>cp_allowed_runtime_tools = ts,
                  cp_allow_workspace_executables = allow_workspace\<rparr>)"

definition forbidden_display_char :: "rchar \<Rightarrow> bool" where
  "forbidden_display_char ch \<longleftrightarrow> is_control ch \<or> ch = 1564 \<or> ch = 8206 \<or> ch = 8207
     \<or> (8234 \<le> ch \<and> ch \<le> 8238) \<or> (8294 \<le> ch \<and> ch \<le> 8297)"

definition has_forbidden_display_char :: "rstring \<Rightarrow> bool" where
  "has_forbidden_display_char value = list_ex forbidden_display_char value"

fun normalize_components :: "component list \<Rightarrow> rstring list result" where
  "normalize_components [] = Inr []"
| "normalize_components (CurDir # cs) = normalize_components cs"
| "normalize_components (Normal value # cs) =
     (if value = [] \<or> byte_len value > MAX_PATH_COMPONENT_BYTES
         \<or> starts_with value INTERNAL_TEMP_PREFIX
      then Inl (command_error ''command_path_component_invalid'')
      else rbind (normalize_components cs) (\<lambda>vs. Inr (value # vs)))"
| "normalize_components (ParentDir # cs) = Inl (command_error ''command_path_parent_forbidden'')"
| "normalize_components (RootDir # cs) =
     Inl (command_error ''command_path_must_be_project_relative'')"

definition normalize_project_relative :: "path \<Rightarrow> bool \<Rightarrow> path result" where
  "normalize_project_relative p allow_root =
     (if is_absolute p then Inl (command_error ''command_path_must_be_project_relative'')
      else case to_str p of
        None \<Rightarrow> Inl (command_error ''command_path_must_be_utf8'')
      | Some text \<Rightarrow>
          if byte_len text > MAX_RELATIVE_PATH_BYTES \<or> 92 \<in> set text
             \<or> has_forbidden_display_char text
          then Inl (command_error ''command_path_invalid'')
          else rbind (normalize_components (components p))
            (\<lambda>vs. if vs = []
                  then (if \<not> allow_root then Inl (command_error ''command_executable_path_empty'')
                        else Inr (Utf8Path dot))
                  else Inr (Utf8Path (join [47] vs))))"

fun validate_arguments :: "nat \<Rightarrow> rstring list \<Rightarrow> unit result" where
  "validate_arguments acc [] = Inr ()"
| "validate_arguments acc (arg # args) =
     (if byte_len arg > MAX_ARGUMENT_BYTES \<or> has_forbidden_display_char arg
      then Inl (command_error ''command_argument_invalid'')
      else if acc + byte_len arg > MAX_TOTAL_ARGUMENT_BYTES
      then Inl (command_error ''command_argument_bytes_exceeded'')
      else validate_arguments (acc + byte_len arg) args)"

definition validate_program :: "command_program \<Rightarrow> command_program result" where
  "validate_program program =
     (case program of
        RuntimeTool tool_id \<Rightarrow>
          rbind (validate_runtime_tool_id tool_id) (\<lambda>t. Inr (RuntimeTool t))
      | WorkspaceExecutable relative_path \<Rightarrow>
          rbind (normalize_project_relative relative_path False)
            (\<lambda>p. Inr (WorkspaceExecutable p)))"

definition validate_command_spec :: "command_spec \<Rightarrow> command_spec result" where
  "validate_command_spec command =
     (if length (cs_args command) > MAX_ARGUMENTS
      then Inl (command_error ''command_argument_count_exceeded'')
      else rbind (validate_arguments 0 (cs_args command))
        (\<lambda>_. rbind (normalize_project_relative (cs_working_dir command) True)
        (\<lambda>working_dir. rbind (validate_program (cs_program command))
        (\<lambda>program. Inr \<lparr>cs_program = program, cs_args = cs_args command,
                        cs_working_dir = working_dir\<rparr>))))"

definition validate_session_scope :: "session_id \<Rightarrow> unit result" where
  "validate_session_scope sid =
     (case sid of SessionId value \<Rightarrow>
        if trim value = [] \<or> trim value \<noteq> value \<or> byte_len value > MAX_SESSION_ID_BYTES
           \<or> has_forbidden_display_char value
        then Inl (command_error ''command_session_id_invalid'') else Inr ())"

definition validate_request_id :: "uuid_text \<Rightarrow> rstring \<Rightarrow> unit result" where
  "validate_request_id U request_id =
     rbind (ok_or (ut_parse_str U request_id) (command_error ''command_request_id_invalid''))
       (\<lambda>parsed. if ut_hyphenated U parsed \<noteq> request_id
                 then Inl (command_error ''command_request_id_invalid'') else Inr ())"

text \<open>Derived equality of \<open>CommandSpec\<close>: paths compare by components.\<close>

fun program_eq :: "command_program \<Rightarrow> command_program \<Rightarrow> bool" where
  "program_eq (RuntimeTool a) (RuntimeTool b) = (a = b)"
| "program_eq (WorkspaceExecutable p) (WorkspaceExecutable q) = path_eq p q"
| "program_eq p q = False"

definition command_eq :: "command_spec \<Rightarrow> command_spec \<Rightarrow> bool" where
  "command_eq a b \<longleftrightarrow> program_eq (cs_program a) (cs_program b) \<and> cs_args a = cs_args b
     \<and> path_eq (cs_working_dir a) (cs_working_dir b)"

definition engine_new :: "command_policy_config \<Rightarrow> command_policy_engine" where
  "engine_new config =
     \<lparr>es_config = config, es_pending = [], es_project_epochs = Map.empty, es_poisoned = False\<rparr>"

definition policy_denial :: "command_policy_config \<Rightarrow> command_spec \<Rightarrow> string option" where
  "policy_denial config command =
     (case cs_program command of
        RuntimeTool tool_id \<Rightarrow>
          if tool_id \<in> set (cp_allowed_runtime_tools config) then None
          else Some ''command_runtime_tool_not_allowed''
      | WorkspaceExecutable _ \<Rightarrow>
          if cp_allow_workspace_executables config then None
          else Some ''command_workspace_executable_not_allowed'')"

definition lock_state :: "command_policy_engine \<Rightarrow> unit result" where
  "lock_state s =
     (if es_poisoned s then Inl (command_error ''command_policy_state_poisoned'') else Inr ())"

definition session_pending :: "command_policy_engine \<Rightarrow> session_id \<Rightarrow> nat" where
  "session_pending s sid = length (filter (\<lambda>e. pc_session_id (snd e) = sid) (es_pending s))"

definition duplicate_pending ::
    "command_policy_engine \<Rightarrow> session_id \<Rightarrow> project_id \<Rightarrow> command_spec \<Rightarrow> bool" where
  "duplicate_pending s sid pid command =
     list_ex (\<lambda>e. pc_session_id (snd e) = sid \<and> pc_project_id (snd e) = pid
        \<and> command_eq (pc_command (snd e)) command) (es_pending s)"

definition request_command ::
    "uuid_text \<Rightarrow> uuid \<Rightarrow> command_policy_engine \<Rightarrow> session_id \<Rightarrow> project_id \<Rightarrow> command_spec
      \<Rightarrow> command_request_outcome result \<times> command_policy_engine" where
  "request_command U fresh s sid pid command0 =
     (case validate_session_scope sid of Inl e \<Rightarrow> (Inl e, s) | Inr _ \<Rightarrow>
      case validate_command_spec command0 of Inl e \<Rightarrow> (Inl e, s) | Inr command \<Rightarrow>
      case policy_denial (es_config s) command of
        Some code \<Rightarrow> (Inr (RequestDenied \<lparr>cd_code = code\<rparr>), s)
      | None \<Rightarrow>
        (case lock_state s of Inl e \<Rightarrow> (Inl e, s) | Inr _ \<Rightarrow>
         if length (es_pending s) \<ge> MAX_PENDING_COMMANDS
         then (Inl (command_error ''command_pending_global_limit''), s)
         else if session_pending s sid \<ge> MAX_PENDING_PER_SESSION
         then (Inl (command_error ''command_pending_session_limit''), s)
         else if duplicate_pending s sid pid command
         then (Inl (command_error ''command_request_duplicate_pending''), s)
         else
           (let request_id = ut_hyphenated U fresh;
                pending = \<lparr>pc_session_id = sid, pc_project_id = pid, pc_command = command\<rparr>
            in if map_of (es_pending s) request_id \<noteq> None
               then (Inl (command_error ''command_request_id_collision''), s)
               else (Inr (ApprovalRequired
                       \<lparr>ca_request_id = request_id, ca_session_id = sid, ca_project_id = pid,
                        ca_command = command\<rparr>),
                     s\<lparr>es_pending := (request_id, pending) # es_pending s\<rparr>))))"

definition remove_pending ::
    "rstring \<Rightarrow> (rstring \<times> pending_command) list \<Rightarrow> (rstring \<times> pending_command) list" where
  "remove_pending rid ps = filter (\<lambda>e. fst e \<noteq> rid) ps"

definition project_epoch :: "command_policy_engine \<Rightarrow> project_id \<Rightarrow> u64" where
  "project_epoch s pid = (case es_project_epochs s pid of None \<Rightarrow> 0 | Some n \<Rightarrow> n)"

definition check_approval ::
    "uuid_text \<Rightarrow> command_policy_engine \<Rightarrow> session_id \<Rightarrow> project_id \<Rightarrow> command_approval_request
      \<Rightarrow> command_approval_decision \<Rightarrow> pending_command result" where
  "check_approval U s sid pid approval decision =
     rbind (validate_session_scope sid)
     (\<lambda>_. rbind (validate_session_scope (ca_session_id approval))
     (\<lambda>_. rbind (validate_request_id U (ca_request_id approval))
     (\<lambda>_. if ca_session_id approval \<noteq> sid \<or> ca_project_id approval \<noteq> pid
          then Inl (command_error ''command_approval_context_mismatch'')
          else rbind (lock_state s)
     (\<lambda>_. rbind (ok_or (map_of (es_pending s) (ca_request_id approval))
                   (command_error ''command_request_not_pending''))
     (\<lambda>pending. if pc_session_id pending \<noteq> sid \<or> pc_project_id pending \<noteq> pid
                then Inl (command_error ''command_request_scope_mismatch'')
                else if decision = CA_AllowOnce
                        \<and> \<not> command_eq (pc_command pending) (ca_command approval)
                then Inl (command_error ''command_approval_payload_mismatch'')
                else Inr pending)))))"

definition decide ::
    "uuid_text \<Rightarrow> command_policy_engine \<Rightarrow> session_id \<Rightarrow> project_id \<Rightarrow> command_approval_request
      \<Rightarrow> command_approval_decision
      \<Rightarrow> command_decision_outcome result \<times> command_policy_engine" where
  "decide U s sid pid approval decision =
     (case check_approval U s sid pid approval decision of
        Inl e \<Rightarrow> (Inl e, s)
      | Inr pending \<Rightarrow>
          (let s' = s\<lparr>es_pending := remove_pending (ca_request_id approval) (es_pending s)\<rparr>
           in case decision of
                CA_Deny \<Rightarrow>
                  (Inr (DecisionDenied \<lparr>cd_code = ''command_denied_by_user''\<rparr>), s')
              | CA_AllowOnce \<Rightarrow>
                  (Inr (Authorized
                     \<lparr>en_request_id = ca_request_id approval,
                      en_session_id = pc_session_id pending,
                      en_project_id = pc_project_id pending,
                      en_command = pc_command pending,
                      en_environment_policy = RuntimeManagedClean,
                      en_project_epoch = project_epoch s (pc_project_id pending)\<rparr>), s')))"

definition revoke_pending_for_session ::
    "command_policy_engine \<Rightarrow> session_id \<Rightarrow> nat result \<times> command_policy_engine" where
  "revoke_pending_for_session s sid =
     (case rbind (validate_session_scope sid) (\<lambda>_. lock_state s) of
        Inl e \<Rightarrow> (Inl e, s)
      | Inr _ \<Rightarrow>
          (let ps = filter (\<lambda>e. pc_session_id (snd e) \<noteq> sid) (es_pending s)
           in (Inr (length (es_pending s) - length ps), s\<lparr>es_pending := ps\<rparr>)))"

definition invalidate_project_authorizations ::
    "command_policy_engine \<Rightarrow> project_id \<Rightarrow> nat result \<times> command_policy_engine" where
  "invalidate_project_authorizations s pid =
     (case lock_state s of
        Inl e \<Rightarrow> (Inl e, s)
      | Inr _ \<Rightarrow>
          (let ps = filter (\<lambda>e. pc_project_id (snd e) \<noteq> pid) (es_pending s);
               s1 = s\<lparr>es_pending := ps\<rparr>
           in case checked_succ (project_epoch s pid) of
                None \<Rightarrow> (Inl (command_error ''command_project_epoch_overflow''), s1)
              | Some next_epoch \<Rightarrow>
                  (Inr (length (es_pending s) - length ps),
                   s1\<lparr>es_project_epochs := (es_project_epochs s)(pid \<mapsto> next_epoch)\<rparr>)))"

definition validate_execution_envelope ::
    "command_policy_engine \<Rightarrow> command_execution_envelope \<Rightarrow> unit result" where
  "validate_execution_envelope s envelope =
     rbind (lock_state s)
       (\<lambda>_. if en_project_epoch envelope \<noteq> project_epoch s (en_project_id envelope)
            then Inl (command_error ''command_execution_envelope_stale_project_epoch'')
            else Inr ())"

definition pending_count :: "command_policy_engine \<Rightarrow> nat result" where
  "pending_count s = rbind (lock_state s) (\<lambda>_. Inr (length (es_pending s)))"

section \<open>Executions\<close>

datatype engine_request =
    RequestCall uuid session_id project_id command_spec
  | DecideCall session_id project_id command_approval_request command_approval_decision
  | RevokeCall session_id
  | InvalidateCall project_id

fun engine_call :: "uuid_text \<Rightarrow> command_policy_engine \<Rightarrow> engine_request \<Rightarrow> command_policy_engine" where
  "engine_call U s (RequestCall fresh sid pid command) =
     snd (request_command U fresh s sid pid command)"
| "engine_call U s (DecideCall sid pid approval decision) = snd (decide U s sid pid approval decision)"
| "engine_call U s (RevokeCall sid) = snd (revoke_pending_for_session s sid)"
| "engine_call U s (InvalidateCall pid) = snd (invalidate_project_authorizations s pid)"

definition engine_calls ::
    "uuid_text \<Rightarrow> command_policy_engine \<Rightarrow> engine_request list \<Rightarrow> command_policy_engine" where
  "engine_calls U s calls = foldl (engine_call U) s calls"

section \<open>Specification\<close>

text \<open>Path components the policy lets through, and the paths made of them: relative, without
  parent or root components, hence confined to the project directory.\<close>

definition ok_component :: "rstring \<Rightarrow> bool" where
  "ok_component w \<longleftrightarrow> w \<noteq> [] \<and> w \<noteq> dot \<and> w \<noteq> [46, 46] \<and> 47 \<notin> set w
     \<and> byte_len w \<le> MAX_PATH_COMPONENT_BYTES \<and> \<not> starts_with w INTERNAL_TEMP_PREFIX"

definition project_confined :: "path \<Rightarrow> bool" where
  "project_confined p \<longleftrightarrow> \<not> is_absolute p \<and>
     (p = Utf8Path dot \<or>
      (\<exists>ws. ws \<noteq> [] \<and> p = Utf8Path (join [47] ws) \<and> components p = map Normal ws
         \<and> (\<forall>w \<in> set ws. ok_component w)))"

definition ok_program :: "command_policy_config \<Rightarrow> command_program \<Rightarrow> bool" where
  "ok_program config program =
     (case program of
        RuntimeTool t \<Rightarrow> t \<in> set (cp_allowed_runtime_tools config)
          \<and> to_ascii_lowercase t \<notin> set shell_tools
      | WorkspaceExecutable p \<Rightarrow> cp_allow_workspace_executables config
          \<and> project_confined p \<and> p \<noteq> Utf8Path dot)"

definition ok_command :: "command_policy_config \<Rightarrow> command_spec \<Rightarrow> bool" where
  "ok_command config c \<longleftrightarrow> ok_program config (cs_program c) \<and> project_confined (cs_working_dir c)
     \<and> length (cs_args c) \<le> MAX_ARGUMENTS
     \<and> sum_list (map byte_len (cs_args c)) \<le> MAX_TOTAL_ARGUMENT_BYTES
     \<and> (\<forall>a \<in> set (cs_args c). byte_len a \<le> MAX_ARGUMENT_BYTES \<and> \<not> has_forbidden_display_char a)"

definition same_scope :: "pending_command \<Rightarrow> pending_command \<Rightarrow> bool" where
  "same_scope p q \<longleftrightarrow> pc_session_id p = pc_session_id q \<and> pc_project_id p = pc_project_id q
     \<and> command_eq (pc_command p) (pc_command q)"

definition engine_inv :: "command_policy_engine \<Rightarrow> bool" where
  "engine_inv s \<longleftrightarrow> distinct (map fst (es_pending s))
     \<and> length (es_pending s) \<le> MAX_PENDING_COMMANDS
     \<and> (\<forall>sid. session_pending s sid \<le> MAX_PENDING_PER_SESSION)
     \<and> sorted_wrt (\<lambda>d e. \<not> same_scope (snd e) (snd d)) (es_pending s)
     \<and> (\<forall>e \<in> set (es_pending s). ok_command (es_config s) (pc_command (snd e)))"

section \<open>Paths\<close>

lemma normalize_components_Inr:
  "normalize_components cs = Inr vs \<longleftrightarrow>
     (\<forall>c \<in> set cs. c = CurDir \<or> (\<exists>w. c = Normal w \<and> w \<noteq> []
        \<and> byte_len w \<le> MAX_PATH_COMPONENT_BYTES \<and> \<not> starts_with w INTERNAL_TEMP_PREFIX))
     \<and> vs = [w. Normal w \<leftarrow> cs]"
  by (induction cs arbitrary: vs rule: normalize_components.induct) (auto simp: rbind_eq_Inr)

lemma component_Normal:
  assumes "Normal w \<in> set (components_of s)"
  shows "w \<noteq> [] \<and> w \<noteq> dot \<and> w \<noteq> [46, 46] \<and> 47 \<notin> set w"
  using assms split_on_no_sep [of w 47 s]
  by (auto simp: components_of_def part_component_def Let_def split: if_splits)

lemma normals_of_components:
  "[w. Normal w \<leftarrow> components_of s] =
     filter (\<lambda>w. w \<noteq> [] \<and> w \<noteq> dot \<and> w \<noteq> [46, 46]) (split_on 47 s)"
proof -
  have "[w. Normal w \<leftarrow> map part_component (filter (\<lambda>w. w \<noteq> [] \<and> w \<noteq> dot) ws)] =
      filter (\<lambda>w. w \<noteq> [] \<and> w \<noteq> dot \<and> w \<noteq> [46, 46]) ws" for ws
    by (induction ws) (auto simp: part_component_def)
  then show ?thesis by (simp add: components_of_def Let_def)
qed

lemma byte_len_join_filter: "byte_len (join [47] (filter P ws)) \<le> byte_len (join [47] ws)"
proof (induction ws)
  case (Cons w ws)
  show ?case
  proof (cases "ws = []")
    case False
    with Cons.IH show ?thesis by (cases "filter P ws = []") (auto simp: join_Cons)
  qed auto
qed simp

lemma split_on_set: "w \<in> set (split_on d s) \<Longrightarrow> set w \<subseteq> set s"
proof (induction s arbitrary: w)
  case (Cons c s)
  then show ?case by (cases "split_on d s"; cases "c = d") (auto, fastforce+)
qed simp

lemma components_join:
  assumes "ws \<noteq> []" and "\<forall>w \<in> set ws. ok_component w"
  shows "components_of (join [47] ws) = map Normal ws" and "\<not> starts_with (join [47] ws) [47]"
proof -
  have split: "split_on 47 (join [47] ws) = ws"
    using assms by (intro split_on_join) (auto simp: ok_component_def)
  obtain w ws' where ws: "ws = w # ws'" using assms(1) by (cases ws) auto
  have w: "w \<noteq> []" "47 \<notin> set w" "w \<noteq> dot"
    using assms(2) ws by (auto simp: ok_component_def)
  then show abs: "\<not> starts_with (join [47] ws) [47]"
    using ws by (cases w; cases ws') auto
  have "filter (\<lambda>w. w \<noteq> [] \<and> w \<noteq> dot) ws = ws"
    using assms(2) by (auto simp: filter_id_conv ok_component_def)
  moreover have "map part_component ws = map Normal ws"
    using assms(2) by (auto simp: part_component_def ok_component_def)
  moreover have "hd ws \<noteq> dot" using w ws by simp
  ultimately show "components_of (join [47] ws) = map Normal ws"
    using abs by (simp add: components_of_def split Let_def)
qed

lemma slash_allowed: "\<not> forbidden_display_char 47"
  by code_simp

text \<open>What a successful normalization returns.\<close>

lemma normalize_Inr_cases:
  assumes "normalize_project_relative p allow = Inr q"
  obtains (root) "allow" "q = Utf8Path dot"
  | (below) ws where "ws \<noteq> []" "q = Utf8Path (join [47] ws)" "\<forall>w \<in> set ws. ok_component w"
      "byte_len (join [47] ws) \<le> MAX_RELATIVE_PATH_BYTES" "92 \<notin> set (join [47] ws)"
      "\<not> has_forbidden_display_char (join [47] ws)"
proof -
  from assms obtain str vs where p: "p = Utf8Path str"
    and str: "byte_len str \<le> MAX_RELATIVE_PATH_BYTES" "92 \<notin> set str"
      "\<not> has_forbidden_display_char str"
    and vs: "normalize_components (components p) = Inr vs"
    and q: "vs = [] \<and> allow \<and> q = Utf8Path dot \<or> vs \<noteq> [] \<and> q = Utf8Path (join [47] vs)"
    by (cases p) (auto simp: normalize_project_relative_def to_str_def rbind_eq_Inr split: if_splits)
  have comps: "components p = components_of str" by (simp add: p components_def path_units_def)
  have vs_eq: "vs = filter (\<lambda>w. w \<noteq> [] \<and> w \<noteq> dot \<and> w \<noteq> [46, 46]) (split_on 47 str)"
    using vs by (simp add: normalize_components_Inr comps normals_of_components)
  have ok: "ok_component w" if "w \<in> set vs" for w
  proof -
    have "w \<in> set [w. Normal w \<leftarrow> components p]"
      using vs that by (simp add: normalize_components_Inr)
    then have "Normal w \<in> set (components p)" by (auto split: component.splits)
    with vs component_Normal [of w str] show ?thesis
      by (auto simp: normalize_components_Inr comps ok_component_def)
  qed
  have len: "byte_len (join [47] vs) \<le> byte_len str"
    using byte_len_join_filter [of _ "split_on 47 str"] by (simp add: vs_eq join_split_on)
  have "\<Union> (set ` set vs) \<subseteq> set str"
    using split_on_set by (fastforce simp: vs_eq)
  then have chars: "set (join [47] vs) \<subseteq> insert 47 (set str)" using set_join [of 47 vs] by blast
  from q show thesis
  proof
    assume "vs = [] \<and> allow \<and> q = Utf8Path dot"
    then show thesis using root by simp
  next
    assume "vs \<noteq> [] \<and> q = Utf8Path (join [47] vs)"
    moreover have "92 \<notin> set (join [47] vs)" using chars str(2) by auto
    moreover have "\<not> has_forbidden_display_char (join [47] vs)"
      using chars str(3) slash_allowed by (auto simp: has_forbidden_display_char_def list_ex_iff)
    ultimately show thesis using below [of vs] ok len str(1) by simp
  qed
qed

lemma normalize_confined: "normalize_project_relative p allow = Inr q \<Longrightarrow> project_confined q"
proof (erule normalize_Inr_cases)
  fix ws
  assume ws: "ws \<noteq> []" "q = Utf8Path (join [47] ws)" "\<forall>w \<in> set ws. ok_component w"
  then show "project_confined q"
    using components_join [OF ws(1,3)]
    by (auto simp: project_confined_def is_absolute_def components_def path_units_def)
qed (simp add: project_confined_def is_absolute_def path_units_def dot_def)

lemma normalize_dot: "normalize_project_relative (Utf8Path dot) True = Inr (Utf8Path dot)"
  by code_simp

lemma normalize_idem_below:
  assumes "ws \<noteq> []" and "\<forall>w \<in> set ws. ok_component w"
    and "byte_len (join [47] ws) \<le> MAX_RELATIVE_PATH_BYTES" and "92 \<notin> set (join [47] ws)"
    and "\<not> has_forbidden_display_char (join [47] ws)"
  shows "normalize_project_relative (Utf8Path (join [47] ws)) allow = Inr (Utf8Path (join [47] ws))"
proof -
  have "[w. Normal w \<leftarrow> map Normal ws] = ws" by (induction ws) auto
  then have "normalize_components (map Normal ws) = Inr ws"
    using assms(2) by (auto simp: normalize_components_Inr ok_component_def)
  then show ?thesis
    using assms components_join [OF assms(1,2)]
    by (simp add: normalize_project_relative_def is_absolute_def path_units_def to_str_def
        components_def)
qed

text \<open>path normalization confines and is idempotent. An accepted path is relative, has no parent
  or root component and no reserved or oversized component, and normalizing it again returns it
  unchanged.\<close>

theorem normalize_project_relative_sound:
  assumes "normalize_project_relative p allow = Inr q"
  shows "project_confined q \<and> normalize_project_relative q allow = Inr q
    \<and> (\<not> allow \<longrightarrow> q \<noteq> Utf8Path dot)"
  using assms
proof (cases rule: normalize_Inr_cases)
  case root
  then show ?thesis using normalize_confined [OF assms] normalize_dot by simp
next
  case (below ws)
  have "join [47] ws \<noteq> dot"
  proof
    assume "join [47] ws = dot"
    then have "map Normal ws = components_of dot" using components_join [OF below(1,3)] by simp
    then show False using below(1) by (cases ws) (simp_all add: components_of_def dot_def Let_def)
  qed
  then show ?thesis
    using normalize_confined [OF assms] normalize_idem_below [of ws] below by simp
qed

section \<open>Validated commands\<close>

lemma validate_runtime_tool_id_Inr:
  "validate_runtime_tool_id t = Inr u \<longleftrightarrow> u = t \<and> t \<noteq> []
     \<and> byte_len t \<le> MAX_RUNTIME_TOOL_ID_BYTES \<and> list_all tool_id_char t
     \<and> to_ascii_lowercase t \<notin> set shell_tools"
  by (auto simp: validate_runtime_tool_id_def)

lemma validate_arguments_Inr:
  "validate_arguments acc args = Inr u \<Longrightarrow> acc \<le> MAX_TOTAL_ARGUMENT_BYTES \<Longrightarrow>
     acc + sum_list (map byte_len args) \<le> MAX_TOTAL_ARGUMENT_BYTES
     \<and> (\<forall>a \<in> set args. byte_len a \<le> MAX_ARGUMENT_BYTES \<and> \<not> has_forbidden_display_char a)"
proof (induction args arbitrary: acc)
  case (Cons a args)
  then have step: "validate_arguments (acc + byte_len a) args = Inr u"
      "acc + byte_len a \<le> MAX_TOTAL_ARGUMENT_BYTES"
      "byte_len a \<le> MAX_ARGUMENT_BYTES" "\<not> has_forbidden_display_char a"
    by (auto split: if_splits)
  with Cons.IH [OF step(1,2)] show ?case by simp
qed simp

lemma normalize_not_root:
  "normalize_project_relative p False = Inr q \<Longrightarrow> q \<noteq> Utf8Path dot"
proof (erule normalize_Inr_cases)
  fix ws
  assume ws: "ws \<noteq> []" "q = Utf8Path (join [47] ws)" "\<forall>w \<in> set ws. ok_component w"
  have "components_of dot = [CurDir]" by code_simp
  then show "q \<noteq> Utf8Path dot" using ws components_join [OF ws(1,3)] by (cases ws) auto
qed simp

lemma validate_command_spec_ok:
  assumes "validate_command_spec c0 = Inr c" and "policy_denial config c = None"
  shows "ok_command config c"
proof -
  from assms(1) obtain wd prog where
      args: "length (cs_args c0) \<le> MAX_ARGUMENTS" "validate_arguments 0 (cs_args c0) = Inr ()"
    and wd: "normalize_project_relative (cs_working_dir c0) True = Inr wd"
    and prog: "validate_program (cs_program c0) = Inr prog"
    and c: "c = \<lparr>cs_program = prog, cs_args = cs_args c0, cs_working_dir = wd\<rparr>"
    by (auto simp: validate_command_spec_def rbind_eq_Inr split: if_splits)
  have "ok_program config prog"
    using prog assms(2) normalize_confined normalize_not_root
    by (auto simp: validate_program_def ok_program_def policy_denial_def c rbind_eq_Inr
        validate_runtime_tool_id_Inr split: command_program.splits if_splits)
  then show ?thesis
    using args validate_arguments_Inr [OF args(2)] normalize_confined [OF wd]
    by (simp add: ok_command_def c)
qed

lemma command_eq_refl: "command_eq c c"
  by (cases "cs_program c") (auto simp: command_eq_def path_eq_def)

section \<open>Single operations\<close>

lemma lock_state_Inr [simp]: "lock_state s = Inr u \<longleftrightarrow> \<not> es_poisoned s"
  by (simp add: lock_state_def)

lemma request_command_cases:
  obtains (refused) "snd (request_command U fresh s sid pid c0) = s"
      "\<And>a. fst (request_command U fresh s sid pid c0) \<noteq> Inr (ApprovalRequired a)"
  | (queued) c where "validate_session_scope sid = Inr ()" "validate_command_spec c0 = Inr c"
      "policy_denial (es_config s) c = None" "length (es_pending s) < MAX_PENDING_COMMANDS"
      "session_pending s sid < MAX_PENDING_PER_SESSION" "\<not> duplicate_pending s sid pid c"
      "map_of (es_pending s) (ut_hyphenated U fresh) = None" "\<not> es_poisoned s"
      "request_command U fresh s sid pid c0 =
        (Inr (ApprovalRequired \<lparr>ca_request_id = ut_hyphenated U fresh, ca_session_id = sid,
                ca_project_id = pid, ca_command = c\<rparr>),
         s\<lparr>es_pending := (ut_hyphenated U fresh,
             \<lparr>pc_session_id = sid, pc_project_id = pid, pc_command = c\<rparr>) # es_pending s\<rparr>)"
proof (cases "\<exists>a. fst (request_command U fresh s sid pid c0) = Inr (ApprovalRequired a)")
  case True
  then obtain c where "validate_session_scope sid = Inr ()" "validate_command_spec c0 = Inr c"
      "policy_denial (es_config s) c = None" "length (es_pending s) < MAX_PENDING_COMMANDS"
      "session_pending s sid < MAX_PENDING_PER_SESSION" "\<not> duplicate_pending s sid pid c"
      "map_of (es_pending s) (ut_hyphenated U fresh) = None" "\<not> es_poisoned s"
    by (auto simp: request_command_def lock_state_def Let_def
        split: sum.splits option.splits if_splits)
  then show thesis
    by (intro queued [of c]) (simp_all add: request_command_def lock_state_def Let_def)
next
  case False
  then have "snd (request_command U fresh s sid pid c0) = s"
    by (auto simp: request_command_def lock_state_def Let_def
        split: sum.splits option.splits if_splits)
  with False show thesis using refused by blast
qed

lemma decide_cases:
  obtains (refused) e where "decide U s sid pid a d = (Inl e, s)"
  | (resolved) p where "map_of (es_pending s) (ca_request_id a) = Some p"
      "pc_session_id p = sid" "pc_project_id p = pid" "ca_session_id a = sid"
      "ca_project_id a = pid" "d = CA_AllowOnce \<Longrightarrow> command_eq (pc_command p) (ca_command a)"
      "decide U s sid pid a d =
        (Inr (case d of CA_Deny \<Rightarrow> DecisionDenied \<lparr>cd_code = ''command_denied_by_user''\<rparr>
               | CA_AllowOnce \<Rightarrow> Authorized
                   \<lparr>en_request_id = ca_request_id a, en_session_id = sid, en_project_id = pid,
                    en_command = pc_command p, en_environment_policy = RuntimeManagedClean,
                    en_project_epoch = project_epoch s pid\<rparr>),
         s\<lparr>es_pending := remove_pending (ca_request_id a) (es_pending s)\<rparr>)"
proof (cases "check_approval U s sid pid a d")
  case (Inl e)
  then show thesis using refused [of e] by (simp add: decide_def)
next
  case (Inr p)
  then have "map_of (es_pending s) (ca_request_id a) = Some p" "pc_session_id p = sid"
      "pc_project_id p = pid" "ca_session_id a = sid" "ca_project_id a = pid"
      "d = CA_AllowOnce \<Longrightarrow> command_eq (pc_command p) (ca_command a)"
    by (auto simp: check_approval_def rbind_eq_Inr split: if_splits)
  with Inr show thesis
    by (intro resolved [of p])
      (simp_all add: decide_def Let_def split: command_approval_decision.splits)
qed

section \<open>Engine invariant\<close>

lemma engine_inv_new: "engine_inv (engine_new config)"
  by (simp add: engine_inv_def engine_new_def session_pending_def)

lemma session_pending_filter:
  "session_pending (s\<lparr>es_pending := filter P (es_pending s)\<rparr>) sid \<le> session_pending s sid"
proof -
  have "filter (\<lambda>e. pc_session_id (snd e) = sid) (filter P (es_pending s)) =
      filter P (filter (\<lambda>e. pc_session_id (snd e) = sid) (es_pending s))"
    by (simp add: filter_filter conj_commute)
  then show ?thesis by (simp add: session_pending_def del: filter_filter)
qed

lemma engine_inv_filter:
  assumes "engine_inv s"
  shows "engine_inv (s\<lparr>es_pending := filter P (es_pending s)\<rparr>)"
proof -
  have "session_pending (s\<lparr>es_pending := filter P (es_pending s)\<rparr>) sid
      \<le> MAX_PENDING_PER_SESSION" for sid
    using session_pending_filter [of P s sid] assms le_trans unfolding engine_inv_def by blast
  moreover have "length (filter P (es_pending s)) \<le> MAX_PENDING_COMMANDS"
    using assms length_filter_le le_trans unfolding engine_inv_def by blast
  ultimately show ?thesis
    using assms by (auto simp: engine_inv_def distinct_map_filter sorted_wrt_filter)
qed

lemma engine_inv_epochs [simp]: "engine_inv (s\<lparr>es_project_epochs := x\<rparr>) = engine_inv s"
  by (simp add: engine_inv_def session_pending_def)

lemma engine_inv_queue:
  assumes "engine_inv s" and "map_of (es_pending s) rid = None" and "ok_command (es_config s) c"
    and "length (es_pending s) < MAX_PENDING_COMMANDS"
    and "session_pending s sid < MAX_PENDING_PER_SESSION" and "\<not> duplicate_pending s sid pid c"
  shows "engine_inv (s\<lparr>es_pending :=
    (rid, \<lparr>pc_session_id = sid, pc_project_id = pid, pc_command = c\<rparr>) # es_pending s\<rparr>)"
  using assms
  by (auto simp: engine_inv_def session_pending_def map_of_eq_None_iff same_scope_def
      duplicate_pending_def list_ex_iff le_eq_less_or_eq [of _ MAX_PENDING_PER_SESSION] Suc_le_eq)

lemma engine_call_inv:
  assumes "engine_inv s"
  shows "engine_inv (engine_call U s call)"
proof (cases call)
  case (RequestCall fresh sid pid c0)
  show ?thesis
  proof (cases rule: request_command_cases [of U fresh s sid pid c0])
    case refused
    then show ?thesis using assms RequestCall by simp
  next
    case (queued c)
    then show ?thesis
      using RequestCall engine_inv_queue [OF assms] validate_command_spec_ok by simp
  qed
next
  case (DecideCall sid pid a d)
  show ?thesis
    by (cases rule: decide_cases [of U s sid pid a d])
      (use assms DecideCall in \<open>auto simp: remove_pending_def intro: engine_inv_filter\<close>)
next
  case (RevokeCall sid)
  then show ?thesis
    using assms
    by (auto simp: revoke_pending_for_session_def Let_def intro: engine_inv_filter split: sum.splits)
next
  case (InvalidateCall pid)
  then show ?thesis
    using assms engine_inv_filter [OF assms, of "\<lambda>e. pc_project_id (snd e) \<noteq> pid"]
    by (auto simp: invalidate_project_authorizations_def Let_def split: sum.splits option.splits)
qed

definition engine_init :: "command_policy_engine \<Rightarrow> bool" where
  "engine_init s \<longleftrightarrow> (\<exists>config. s = engine_new config)"

definition engine_step :: "uuid_text \<Rightarrow> command_policy_engine \<Rightarrow> command_policy_engine \<Rightarrow> bool" where
  "engine_step U s t \<longleftrightarrow> (\<exists>call. t = engine_call U s call)"

interpretation engine: invariant_system engine_init "engine_step U" engine_inv for U
  by unfold_locales
    (auto simp: engine_init_def engine_step_def intro: engine_inv_new engine_call_inv)

section \<open>Authorization\<close>

lemma engine_calls_simps [simp]:
  "engine_calls U s [] = s" "engine_calls U s (c # cs) = engine_calls U (engine_call U s c) cs"
  "engine_calls U s (xs @ ys) = engine_calls U (engine_calls U s xs) ys"
  by (simp_all add: engine_calls_def)

lemma engine_calls_inv: "engine_inv s \<Longrightarrow> engine_inv (engine_calls U s calls)"
  by (induction calls arbitrary: s) (simp_all add: engine_call_inv)

lemma engine_call_config: "es_config (engine_call U s call) = es_config s"
proof (cases call)
  case (RequestCall fresh sid pid c)
  then show ?thesis by (cases rule: request_command_cases [of U fresh s sid pid c]) auto
next
  case (DecideCall sid pid a d)
  then show ?thesis by (cases rule: decide_cases [of U s sid pid a d]) auto
qed (auto simp: revoke_pending_for_session_def invalidate_project_authorizations_def Let_def
      split: sum.splits option.splits)

lemma engine_calls_config: "es_config (engine_calls U s calls) = es_config s"
  by (induction calls arbitrary: s) (simp_all add: engine_call_config)

text \<open>C21: only confined commands are authorized. Whatever calls were made on a fresh engine, a command
  it authorizes runs an allow-listed runtime tool that is no shell under any capitalization, or an
  enabled workspace executable below the project directory; its working directory is inside the
  project and its arguments are bounded and free of control and direction-override characters.\<close>

theorem authorized_command_confined:
  assumes "decide U (engine_calls U (engine_new config) calls) sid pid a d = (Inr (Authorized en), s')"
  shows "ok_command config (en_command en) \<and> en_session_id en = sid \<and> en_project_id en = pid"
proof -
  let ?s = "engine_calls U (engine_new config) calls"
  have inv: "engine_inv ?s" using engine_calls_inv engine_inv_new by blast
  have config: "es_config ?s = config" by (simp add: engine_calls_config engine_new_def)
  show ?thesis
  proof (cases rule: decide_cases [of U ?s sid pid a d])
    case (refused e)
    then show ?thesis using assms by simp
  next
    case (resolved p)
    then have "en_command en = pc_command p \<and> en_session_id en = sid \<and> en_project_id en = pid"
      using assms by (cases d) auto
    moreover have "(ca_request_id a, p) \<in> set (es_pending ?s)"
      using resolved(1) by (rule map_of_SomeD)
    then have "ok_command config (pc_command p)"
      using inv config by (fastforce simp: engine_inv_def)
    ultimately show ?thesis by simp
  qed
qed

text \<open>pending requests stay bounded and unambiguous. In every reachable engine at most 64 requests
  are pending, at most eight of one session, no request id is pending twice, and no two pending
  requests of one session and project are the same command.\<close>

theorem pending_bounded:
  assumes "reach engine_init (engine_step U) s"
  shows "length (es_pending s) \<le> 64 \<and> (\<forall>sid. session_pending s sid \<le> 8)
    \<and> distinct (map fst (es_pending s))
    \<and> sorted_wrt (\<lambda>d e. \<not> same_scope (snd e) (snd d)) (es_pending s)"
  using engine.reach_inv [OF assms]
  by (simp add: engine_inv_def MAX_PENDING_COMMANDS_def MAX_PENDING_PER_SESSION_def)

lemma not_pending_call:
  assumes "map_of (es_pending s) rid = None"
    and "\<And>fresh sid pid c. call = RequestCall fresh sid pid c \<Longrightarrow> ut_hyphenated U fresh \<noteq> rid"
  shows "map_of (es_pending (engine_call U s call)) rid = None"
proof (cases call)
  case (RequestCall fresh sid pid c)
  then show ?thesis
    using assms by (cases rule: request_command_cases [of U fresh s sid pid c]) auto
next
  case (DecideCall sid pid a d)
  then show ?thesis
    using assms
    by (cases rule: decide_cases [of U s sid pid a d])
      (auto simp: map_of_eq_None_iff remove_pending_def)
qed (use assms in \<open>auto simp: revoke_pending_for_session_def invalidate_project_authorizations_def
      Let_def map_of_eq_None_iff split: sum.splits option.splits\<close>)

lemma not_pending_calls:
  assumes "map_of (es_pending s) rid = None"
    and "\<forall>fresh sid pid c. RequestCall fresh sid pid c \<in> set calls \<longrightarrow> ut_hyphenated U fresh \<noteq> rid"
  shows "map_of (es_pending (engine_calls U s calls)) rid = None"
  using assms
proof (induction calls arbitrary: s)
  case (Cons c calls)
  from Cons.prems have "map_of (es_pending (engine_call U s c)) rid = None"
    by (intro not_pending_call) auto
  then have "map_of (es_pending (engine_calls U (engine_call U s c) calls)) rid = None"
    by (rule Cons.IH) (use Cons.prems(2) in auto)
  then show ?case by simp
qed simp

lemma decide_not_pending:
  assumes "map_of (es_pending s) (ca_request_id a) = None"
  shows "\<exists>e. decide U s sid pid a d = (Inl e, s)"
  by (cases rule: decide_cases [of U s sid pid a d]) (use assms in auto)

text \<open>C22: a request is decided at most once. After a decision on a request succeeded, whatever calls
  follow, no further decision on that request id succeeds, unless a later request was issued the
  same identifier.\<close>

theorem decision_single_use:
  assumes "decide U s sid pid a d = (Inr out, s')" and "ca_request_id b = ca_request_id a"
    and "\<forall>fresh sid pid c. RequestCall fresh sid pid c \<in> set calls \<longrightarrow>
      ut_hyphenated U fresh \<noteq> ca_request_id a"
  shows "\<exists>e. decide U (engine_calls U s' calls) sid' pid' b d' =
    (Inl e, engine_calls U s' calls)"
proof -
  have "map_of (es_pending s') (ca_request_id a) = None"
    by (cases rule: decide_cases [of U s sid pid a d])
      (use assms(1) in \<open>auto simp: map_of_eq_None_iff remove_pending_def\<close>)
  then have "map_of (es_pending (engine_calls U s' calls)) (ca_request_id b) = None"
    unfolding assms(2) using assms(3) by (rule not_pending_calls)
  then show ?thesis by (rule decide_not_pending)
qed

text \<open>an approval round trip succeeds. If the identifier's text form parses back, the approval
  the engine hands out for a queued request, returned unchanged by the same session, is authorized
  with exactly the validated command and the current project epoch, and the issued envelope is
  valid at that moment.\<close>

theorem approval_roundtrip:
  assumes "ut_parse_str U (ut_hyphenated U fresh) = Some fresh"
    and "request_command U fresh s sid pid c0 = (Inr (ApprovalRequired a), s1)"
  shows "\<exists>en s2. decide U s1 sid pid a CA_AllowOnce = (Inr (Authorized en), s2)
    \<and> validate_command_spec c0 = Inr (en_command en) \<and> en_request_id en = ca_request_id a
    \<and> en_project_epoch en = project_epoch s pid \<and> validate_execution_envelope s2 en = Inr ()"
proof (cases rule: request_command_cases [of U fresh s sid pid c0])
  case refused
  then show ?thesis using assms(2) refused(2) [of a] by simp
next
  case (queued c)
  then have a: "a = \<lparr>ca_request_id = ut_hyphenated U fresh, ca_session_id = sid,
        ca_project_id = pid, ca_command = c\<rparr>"
    and s1: "s1 = s\<lparr>es_pending := (ut_hyphenated U fresh,
        \<lparr>pc_session_id = sid, pc_project_id = pid, pc_command = c\<rparr>) # es_pending s\<rparr>"
    using assms(2) by auto
  then show ?thesis
    using queued assms(1) command_eq_refl [of c]
    by (simp add: decide_def check_approval_def validate_request_id_def lock_state_def Let_def
        validate_execution_envelope_def project_epoch_def)
qed

section \<open>Revocation\<close>

text \<open>The contract a holder of issued authorizations relies on: the epoch of a project never goes
  back, and revoking the project moves it strictly forward.\<close>

locale epoch_authority =
  fixes step :: "'s \<Rightarrow> 's \<Rightarrow> bool" and epoch :: "'s \<Rightarrow> 'p \<Rightarrow> nat"
    and revoke :: "'s \<Rightarrow> 'p \<Rightarrow> 's \<Rightarrow> bool"
  assumes epoch_mono: "step s t \<Longrightarrow> epoch s p \<le> epoch t p"
    and revoke_strict: "revoke s p t \<Longrightarrow> epoch s p < epoch t p"
begin

lemma run_epoch_mono: "run step s n t \<Longrightarrow> epoch s p \<le> epoch t p"
  by (induction rule: run.induct) (auto dest: epoch_mono [of _ _ p])

lemma revoked_forever:
  assumes "run step s m u" and "revoke u p v" and "run step v n w"
  shows "epoch s p < epoch w p"
  using run_epoch_mono [OF assms(1), of p] revoke_strict [OF assms(2)]
    run_epoch_mono [OF assms(3), of p] by linarith

end

definition engine_revoke ::
    "command_policy_engine \<Rightarrow> project_id \<Rightarrow> command_policy_engine \<Rightarrow> bool" where
  "engine_revoke s pid t \<longleftrightarrow> (\<exists>n. invalidate_project_authorizations s pid = (Inr n, t))"

lemma engine_call_epochs:
  "(\<And>pid. call \<noteq> InvalidateCall pid) \<Longrightarrow> project_epoch (engine_call U s call) pid = project_epoch s pid"
proof (cases call)
  case (RequestCall fresh sid pid c)
  then show ?thesis
    by (cases rule: request_command_cases [of U fresh s sid pid c]) (auto simp: project_epoch_def)
next
  case (DecideCall sid pid a d)
  then show ?thesis
    by (cases rule: decide_cases [of U s sid pid a d]) (auto simp: project_epoch_def)
qed (auto simp: revoke_pending_for_session_def project_epoch_def Let_def split: sum.splits)

lemma invalidate_epochs:
  assumes "invalidate_project_authorizations s pid = (r, t)"
  shows "unat (project_epoch t p) = unat (project_epoch s p) + (if is_ok r \<and> p = pid then 1 else 0)"
  using assms
  by (auto simp: invalidate_project_authorizations_def project_epoch_def Let_def
      dest: checked_succ_Some split: sum.splits option.splits if_splits)

interpretation epochs: epoch_authority "engine_step U" "\<lambda>s p. unat (project_epoch s p)" engine_revoke
  for U
proof unfold_locales
  fix s t p
  assume "engine_step U s t"
  then obtain call where t: "t = engine_call U s call" by (auto simp: engine_step_def)
  show "unat (project_epoch s p) \<le> unat (project_epoch t p)"
  proof (cases "\<exists>pid. call = InvalidateCall pid")
    case True
    then obtain pid where "t = snd (invalidate_project_authorizations s pid)" using t by auto
    then show ?thesis
      using invalidate_epochs [of s pid "fst (invalidate_project_authorizations s pid)" t p] by simp
  next
    case False
    then show ?thesis using t engine_call_epochs [of call U s p] by auto
  qed
next
  fix s p t
  assume "engine_revoke s p t"
  then show "unat (project_epoch s p) < unat (project_epoch t p)"
    by (auto simp: engine_revoke_def dest!: invalidate_epochs [where p = p])
qed

lemma run_engine_calls: "\<exists>n. run (engine_step U) s n (engine_calls U s calls)"
proof (induction calls rule: rev_induct)
  case Nil
  then show ?case using run_refl by fastforce
next
  case (snoc c calls)
  then obtain n where "run (engine_step U) s n (engine_calls U s calls)" by blast
  then have "run (engine_step U) s (Suc n) (engine_call U (engine_calls U s calls) c)"
    by (rule run_step) (auto simp: engine_step_def)
  then show ?case by auto
qed

lemma decide_epoch:
  assumes "decide U s sid pid a d = (Inr (Authorized en), s')"
  shows "en_project_epoch en = project_epoch s' (en_project_id en)"
  by (cases rule: decide_cases [of U s sid pid a d])
    (use assms in \<open>auto simp: project_epoch_def split: command_approval_decision.splits\<close>)

text \<open>C23: revocation is permanent. Once a project's authorizations were invalidated, an envelope that
  was issued for it before can never again be validated for execution, whatever calls are made
  before and after the invalidation; the epoch counter cannot wrap around to revive it.\<close>

theorem revoked_envelope_stale:
  assumes "decide U s sid pid a d = (Inr (Authorized en), s1)"
    and "invalidate_project_authorizations (engine_calls U s1 before) (en_project_id en) = (Inr n, s2)"
  shows "validate_execution_envelope (engine_calls U s2 after) en \<noteq> Inr ()"
proof -
  let ?t = "engine_calls U s2 after"
  obtain k m where runs: "run (engine_step U) s1 k (engine_calls U s1 before)"
      "run (engine_step U) s2 m ?t"
    using run_engine_calls by blast
  have "engine_revoke (engine_calls U s1 before) (en_project_id en) s2"
    using assms(2) by (auto simp: engine_revoke_def)
  from epochs.revoked_forever [OF runs(1) this runs(2)]
  have "project_epoch s1 (en_project_id en) \<noteq> project_epoch ?t (en_project_id en)" by auto
  then show ?thesis
    using decide_epoch [OF assms(1)] by (simp add: validate_execution_envelope_def rbind_eq_Inr)
qed

section \<open>Provenance\<close>

definition stems_from :: "uuid_text \<Rightarrow> engine_request list \<Rightarrow> rstring \<Rightarrow> pending_command \<Rightarrow> bool" where
  "stems_from U calls rid p \<longleftrightarrow>
     (\<exists>fresh c0. RequestCall fresh (pc_session_id p) (pc_project_id p) c0 \<in> set calls
        \<and> ut_hyphenated U fresh = rid \<and> validate_command_spec c0 = Inr (pc_command p))"

lemma stems_from_snoc: "stems_from U calls rid p \<Longrightarrow> stems_from U (calls @ [c]) rid p"
  unfolding stems_from_def by auto

lemma stems_from_new:
  "validate_command_spec c0 = Inr (pc_command p) \<Longrightarrow>
     stems_from U (calls @ [RequestCall fresh (pc_session_id p) (pc_project_id p) c0])
       (ut_hyphenated U fresh) p"
  unfolding stems_from_def by auto

lemma pending_provenance:
  "map_of (es_pending (engine_calls U (engine_new config) calls)) rid = Some p \<Longrightarrow>
     stems_from U calls rid p"
proof (induction calls rule: rev_induct)
  case Nil
  then show ?case by (simp add: engine_new_def)
next
  case (snoc call calls)
  let ?s = "engine_calls U (engine_new config) calls"
  have old: ?case if "map_of (es_pending ?s) rid = Some p"
    using snoc.IH [OF that] by (rule stems_from_snoc)
  have inv: "distinct (map fst (es_pending ?s))"
    using engine_calls_inv [OF engine_inv_new, of U config calls] by (simp add: engine_inv_def)
  have filtered: ?case if "set (es_pending (engine_call U ?s call)) \<subseteq> set (es_pending ?s)"
  proof (rule old)
    have "(rid, p) \<in> set (es_pending ?s)"
      using snoc.prems that by (auto dest!: map_of_SomeD)
    then show "map_of (es_pending ?s) rid = Some p" using inv by simp
  qed
  show ?case
  proof (cases call)
    case (RequestCall fresh sid pid c0)
    show ?thesis
    proof (cases rule: request_command_cases [of U fresh ?s sid pid c0])
      case refused
      then show ?thesis using snoc.prems RequestCall by (intro old) simp
    next
      case (queued c)
      then show ?thesis
        using snoc.prems RequestCall old stems_from_new [of c0 p U calls fresh]
        by (auto split: if_splits)
    qed
  next
    case (DecideCall sid pid a d)
    then show ?thesis
      by (intro filtered, cases rule: decide_cases [of U ?s sid pid a d])
        (auto simp: remove_pending_def)
  next
    case (RevokeCall sid)
    then show ?thesis
      by (intro filtered) (auto simp: revoke_pending_for_session_def Let_def split: sum.splits)
  next
    case (InvalidateCall pid)
    then show ?thesis
      by (intro filtered)
        (auto simp: invalidate_project_authorizations_def Let_def split: sum.splits option.splits)
  qed
qed

text \<open>every authorization stems from a request. An envelope issued by an engine carries the
  identifier, session, project and validated command of a request that was made on it.\<close>

theorem authorization_provenance:
  assumes "decide U (engine_calls U (engine_new config) calls) sid pid a d = (Inr (Authorized en), s')"
  shows "\<exists>fresh c0. RequestCall fresh (en_session_id en) (en_project_id en) c0 \<in> set calls
    \<and> ut_hyphenated U fresh = en_request_id en \<and> validate_command_spec c0 = Inr (en_command en)"
proof (cases rule: decide_cases [of U "engine_calls U (engine_new config) calls" sid pid a d])
  case (refused e)
  then show ?thesis using assms by simp
next
  case (resolved p)
  have "d = CA_AllowOnce" using assms resolved(7) by (cases d) auto
  with assms resolved(7) have "en = \<lparr>en_request_id = ca_request_id a, en_session_id = sid,
      en_project_id = pid, en_command = pc_command p, en_environment_policy = RuntimeManagedClean,
      en_project_epoch = project_epoch (engine_calls U (engine_new config) calls) pid\<rparr>"
    by simp
  then have en: "en_session_id en = pc_session_id p" "en_project_id en = pc_project_id p"
      "en_command en = pc_command p" "en_request_id en = ca_request_id a"
    using resolved(2,3) by simp_all
  then show ?thesis using pending_provenance [OF resolved(1)] by (simp add: stems_from_def)
qed

section \<open>A concrete engine\<close>

text \<open>Identifier texts of one character stand in for the hyphenated form.\<close>

definition demo_uuid_text :: uuid_text where
  "demo_uuid_text =
     \<lparr>ut_parse_str = (\<lambda>s. case s of [c] \<Rightarrow> Some (of_nat c) | _ \<Rightarrow> None),
      ut_hyphenated = (\<lambda>u. [unat u])\<rparr>"

definition demo_policy_config :: command_policy_config where
  "demo_policy_config =
     \<lparr>cp_allowed_runtime_tools = [lit ''npm''], cp_allow_workspace_executables = False\<rparr>"

definition demo_command :: command_spec where
  "demo_command =
     \<lparr>cs_program = RuntimeTool (lit ''npm''), cs_args = [lit ''ci''],
      cs_working_dir = Utf8Path (lit ''./web//app'')\<rparr>"

definition demo_session :: session_id where "demo_session = SessionId (lit ''s-1'')"
definition demo_project :: project_id where "demo_project = ProjectId 7"

definition demo_request :: engine_request where
  "demo_request = RequestCall 5 demo_session demo_project demo_command"

definition demo_approval :: command_approval_request where
  "demo_approval =
     \<lparr>ca_request_id = [5], ca_session_id = demo_session, ca_project_id = demo_project,
      ca_command = demo_command\<lparr>cs_working_dir := Utf8Path (lit ''web/app'')\<rparr>\<rparr>"

definition demo_envelope :: command_execution_envelope where
  "demo_envelope =
     \<lparr>en_request_id = [5], en_session_id = demo_session, en_project_id = demo_project,
      en_command = demo_command\<lparr>cs_working_dir := Utf8Path (lit ''web/app'')\<rparr>,
      en_environment_policy = RuntimeManagedClean, en_project_epoch = 0\<rparr>"

abbreviation demo_engine :: "engine_request list \<Rightarrow> command_policy_engine" where
  "demo_engine calls \<equiv> engine_calls demo_uuid_text (engine_new demo_policy_config) calls"

lemma demo_normalize:
  "normalize_project_relative (Utf8Path (lit ''./web//app'')) False = Inr (Utf8Path (lit ''web/app''))"
  by code_simp

lemma demo_requested:
  "request_command demo_uuid_text 5 (engine_new demo_policy_config) demo_session demo_project
     demo_command = (Inr (ApprovalRequired demo_approval), demo_engine [demo_request])"
proof (rule prod_eqI)
  show "fst (request_command demo_uuid_text 5 (engine_new demo_policy_config) demo_session
      demo_project demo_command) = fst (Inr (ApprovalRequired demo_approval), demo_engine [demo_request])"
    by code_simp
qed (simp add: demo_request_def)

definition demo_decided_engine :: command_policy_engine where
  "demo_decided_engine =
     snd (decide demo_uuid_text (demo_engine [demo_request]) demo_session demo_project demo_approval
       CA_AllowOnce)"

lemma demo_decided:
  "decide demo_uuid_text (demo_engine [demo_request]) demo_session demo_project demo_approval
     CA_AllowOnce = (Inr (Authorized demo_envelope), demo_decided_engine)"
proof (rule prod_eqI)
  show "fst (decide demo_uuid_text (demo_engine [demo_request]) demo_session demo_project
      demo_approval CA_AllowOnce) = fst (Inr (Authorized demo_envelope), demo_decided_engine)"
    by code_simp
qed (simp add: demo_decided_engine_def)

definition demo_invalidated_engine :: command_policy_engine where
  "demo_invalidated_engine = snd (invalidate_project_authorizations demo_decided_engine demo_project)"

lemma demo_invalidated:
  "invalidate_project_authorizations demo_decided_engine demo_project
     = (Inr 0, demo_invalidated_engine)"
proof (rule prod_eqI)
  show "fst (invalidate_project_authorizations demo_decided_engine demo_project)
      = fst (Inr 0, demo_invalidated_engine)"
    by code_simp
qed (simp add: demo_invalidated_engine_def)

theorem normalize_project_relative_sound_witness:
  "normalize_project_relative (Utf8Path (lit ''./web//app'')) False = Inr (Utf8Path (lit ''web/app''))
   \<and> project_confined (Utf8Path (lit ''web/app''))"
  using normalize_project_relative_sound [OF demo_normalize] demo_normalize by blast

theorem authorized_command_confined_witness:
  "ok_command demo_policy_config (en_command demo_envelope)
   \<and> en_project_id demo_envelope = demo_project"
  using authorized_command_confined [OF demo_decided] by simp

theorem pending_bounded_witness:
  "reach engine_init (engine_step demo_uuid_text) (engine_new demo_policy_config)
   \<and> length (es_pending (engine_new demo_policy_config)) \<le> 64"
proof -
  have r: "reach engine_init (engine_step demo_uuid_text) (engine_new demo_policy_config)"
    by (rule reach_init) (auto simp: engine_init_def)
  show ?thesis using r pending_bounded [OF r] by simp
qed

theorem decision_single_use_witness:
  "\<exists>e. decide demo_uuid_text demo_decided_engine demo_session demo_project demo_approval CA_AllowOnce
     = (Inl e, demo_decided_engine)"
  using decision_single_use [OF demo_decided refl, of "[]"] by simp

theorem approval_roundtrip_witness:
  "ut_parse_str demo_uuid_text (ut_hyphenated demo_uuid_text 5) = Some 5
   \<and> (\<exists>en s2. decide demo_uuid_text (demo_engine [demo_request]) demo_session demo_project
        demo_approval CA_AllowOnce = (Inr (Authorized en), s2)
      \<and> validate_execution_envelope s2 en = Inr ())"
proof -
  have p: "ut_parse_str demo_uuid_text (ut_hyphenated demo_uuid_text 5) = Some 5"
    by (simp add: demo_uuid_text_def)
  show ?thesis using p approval_roundtrip [OF p demo_requested] by blast
qed

theorem revoked_envelope_stale_witness:
  "validate_execution_envelope demo_invalidated_engine demo_envelope \<noteq> Inr ()"
  using revoked_envelope_stale [OF demo_decided, of "[]" 0 demo_invalidated_engine "[]"]
    demo_invalidated by (simp add: demo_envelope_def)

theorem authorization_provenance_witness:
  "\<exists>fresh c0. RequestCall fresh demo_session demo_project c0 \<in> set [demo_request]
     \<and> ut_hyphenated demo_uuid_text fresh = [5]
     \<and> validate_command_spec c0 = Inr (en_command demo_envelope)"
  using authorization_provenance [OF demo_decided] by (simp add: demo_envelope_def)

end
