(* ===== verification/Persistence_Local.thy ===== *)
theory Persistence_Local
  imports Persistence_Contract Command_Policy "HOL-Library.List_Lexorder"
begin

text \<open>
  The app-private state store of \<open>crates/vibecoder-persistence-local\<close> (\<open>lib.rs\<close> and \<open>unix_store.rs\<close>): one
  JSON file per project and per conversation, replaced by rename, with a compare-and-swap revision.

  A state directory is the list of its entries in \<open>readdir\<close> order, without \<open>.\<close> and \<open>..\<close>; a file has what
  \<open>stat\<close> reports and its bytes. The operating system is an oracle carried by the store: \<open>ls_io n\<close> says
  which system calls fail during the \<open>n\<close>-th operation on a directory, how much of a failing write
  reached the file, what \<open>stat\<close> reports for a newly created file and which random id its name gets.
  JSON coding and the text form of a \<open>Uuid\<close> belong to other crates and are fields of the store
  (\<open>ls_codec\<close>, \<open>ls_uuid\<close>); what the code relies on is part of \<open>store_inv\<close>. The mutex of the store makes
  every operation atomic; \<open>ls_poisoned\<close> is its poison flag.

  The project and the conversation variants of a file operation are the same code with other error
  codes: \<open>write_state_file\<close> and \<open>read_state_file\<close> take the kind of file. The private-directory setup of
  \<open>initialize\<close> is not modelled.
\<close>

unbundle bit_operations_syntax

section \<open>Model\<close>

definition MAX_STATE_DIRECTORY_ENTRIES :: nat where "MAX_STATE_DIRECTORY_ENTRIES = 8192"
definition TEMP_PREFIX :: rstring where "TEMP_PREFIX = lit ''.vibecoder-state-tmp-''"
definition CONVERSATION_TEMP_PREFIX :: rstring where
  "CONVERSATION_TEMP_PREFIX = lit ''.vibecoder-conversation-tmp-''"

record file_stat =
  st_regular :: bool
  st_nlink :: nat
  st_owned :: bool
  st_mode :: u32

record state_file =
  sf_stat :: file_stat
  sf_bytes :: "byte list"

type_synonym state_dir = "(path \<times> state_file) list"

datatype io_step =
    IoOpenAppRoot | IoAppRootInvalid | IoOpenDirectory nat | IoDirectoryInvalid nat
  | IoStatTarget | IoCreateTemp | IoStatTemp | IoWrite | IoSyncFile | IoRename | IoUnlinkTemp
  | IoSyncDirectory | IoOpenFile | IoStatFile | IoRaced | IoRead
  | IoListDup | IoListOpen | IoListRead nat | IoListStat nat | IoUnlink

record io_outcome =
  io_fails :: "io_step \<Rightarrow> bool"
  io_written :: nat
  io_created_stat :: file_stat
  io_temp_id :: uuid

record store_codec =
  sc_encode_project :: "persisted_project_state \<Rightarrow> byte list option"
  sc_decode_project :: "byte list \<Rightarrow> persisted_project_state option"
  sc_encode_conversation :: "persisted_conversation \<Rightarrow> byte list option"
  sc_decode_conversation :: "byte list \<Rightarrow> persisted_conversation option"

record uuid_names = uuid_text +
  ut_simple :: "uuid \<Rightarrow> rstring"

record local_store =
  ls_codec :: store_codec
  ls_uuid :: uuid_names
  ls_poisoned :: bool
  ls_projects :: state_dir
  ls_conversations :: state_dir
  ls_io :: "nat \<Rightarrow> io_outcome"
  ls_tick :: nat

datatype file_kind = ProjectFile | ConversationFile

definition file_error :: "file_kind \<Rightarrow> string \<Rightarrow> vibecoder_error" where
  "file_error kind code = persistence_error
     ((case kind of ProjectFile \<Rightarrow> ''project_state_'' | ConversationFile \<Rightarrow> ''conversation_'') @ code)"

definition max_file_bytes :: "file_kind \<Rightarrow> nat" where
  "max_file_bytes kind =
     (case kind of ProjectFile \<Rightarrow> MAX_PERSISTED_STATE_BYTES
      | ConversationFile \<Rightarrow> MAX_PERSISTED_CONVERSATION_BYTES)"

definition temp_prefix :: "file_kind \<Rightarrow> rstring" where
  "temp_prefix kind =
     (case kind of ProjectFile \<Rightarrow> TEMP_PREFIX | ConversationFile \<Rightarrow> CONVERSATION_TEMP_PREFIX)"

subsection \<open>Directories and files\<close>

definition open_directory_path_nofollow :: "io_outcome \<Rightarrow> unit result" where
  "open_directory_path_nofollow io =
     (if io_fails io IoOpenAppRoot then Inl (persistence_error ''app_private_root_open_failed'')
      else if io_fails io IoAppRootInvalid then Inl (persistence_error ''app_private_root_invalid'')
      else Inr ())"

definition open_directory_at :: "io_outcome \<Rightarrow> nat \<Rightarrow> unit result" where
  "open_directory_at io level =
     (if io_fails io (IoOpenDirectory level)
      then Inl (persistence_error ''state_directory_open_failed'')
      else if io_fails io (IoDirectoryInvalid level)
      then Inl (persistence_error ''state_directory_invalid'')
      else Inr ())"

definition open_state_root :: "io_outcome \<Rightarrow> unit result" where
  "open_state_root io =
     rbind (open_directory_path_nofollow io)
       (\<lambda>_. rbind (open_directory_at io 0)
       (\<lambda>_. rbind (open_directory_at io 1) (\<lambda>_. open_directory_at io 2)))"

definition private_regular :: "file_stat \<Rightarrow> bool" where
  "private_regular st \<longleftrightarrow> st_regular st \<and> st_nlink st = 1 \<and> st_owned st
     \<and> st_mode st AND 0x3F = 0 \<and> st_mode st AND 0x100 \<noteq> 0"

definition verify_private_regular_stat :: "vibecoder_error \<Rightarrow> file_stat \<Rightarrow> unit result" where
  "verify_private_regular_stat e st = (if \<not> private_regular st then Inl e else Inr ())"

definition fstatat_nofollow_optional ::
    "io_outcome \<Rightarrow> state_dir \<Rightarrow> path \<Rightarrow> state_file option result" where
  "fstatat_nofollow_optional io dir name =
     (if io_fails io IoStatTarget then Inl (persistence_error ''project_state_stat_failed'')
      else Inr (map_of dir name))"

definition inspect_state_for_read ::
    "io_outcome \<Rightarrow> state_dir \<Rightarrow> path \<Rightarrow> state_file option result" where
  "inspect_state_for_read io dir name =
     rbind (fstatat_nofollow_optional io dir name)
       (\<lambda>found. case found of
          None \<Rightarrow> Inr None
        | Some f \<Rightarrow> rbind (verify_private_regular_stat
              (persistence_error ''project_state_target_invalid'') (sf_stat f)) (\<lambda>_. Inr (Some f)))"

definition inspect_existing_state_target ::
    "io_outcome \<Rightarrow> state_dir \<Rightarrow> path \<Rightarrow> unit result" where
  "inspect_existing_state_target io dir name =
     rbind (fstatat_nofollow_optional io dir name)
       (\<lambda>found. case found of
          None \<Rightarrow> Inr ()
        | Some f \<Rightarrow> verify_private_regular_stat
            (persistence_error ''project_state_target_invalid'') (sf_stat f))"

text \<open>The temporary file an abandoned write leaves behind when its cleanup fails too.\<close>

definition abandon_temp :: "io_outcome \<Rightarrow> path \<Rightarrow> byte list \<Rightarrow> state_dir \<Rightarrow> state_dir" where
  "abandon_temp io temp written dir =
     (if io_fails io IoUnlinkTemp
      then (temp, \<lparr>sf_stat = io_created_stat io, sf_bytes = written\<rparr>) # dir else dir)"

definition replace_file :: "path \<Rightarrow> state_file \<Rightarrow> state_dir \<Rightarrow> state_dir" where
  "replace_file name f dir = (name, f) # filter (\<lambda>e. fst e \<noteq> name) dir"

definition write_state_file ::
    "file_kind \<Rightarrow> uuid_names \<Rightarrow> io_outcome \<Rightarrow> state_dir \<Rightarrow> path \<Rightarrow> byte list
      \<Rightarrow> unit result \<times> state_dir" where
  "write_state_file kind U io dir target encoded =
     (if length encoded > max_file_bytes kind then (Inl (file_error kind ''too_large''), dir)
      else case rbind (open_state_root io) (\<lambda>_. inspect_existing_state_target io dir target) of
        Inl e \<Rightarrow> (Inl e, dir)
      | Inr _ \<Rightarrow>
        (let temp = Utf8Path (temp_prefix kind @ ut_simple U (io_temp_id io));
             abandon = (\<lambda>written. abandon_temp io temp written dir)
         in if io_fails io IoCreateTemp \<or> map_of dir temp \<noteq> None
            then (Inl (persistence_error ''project_state_temp_create_failed''), dir)
            else if io_fails io IoStatTemp \<or> \<not> private_regular (io_created_stat io)
            then (Inl (file_error kind ''temp_invalid''), abandon [])
            else if io_fails io IoWrite
            then (Inl (file_error kind ''write_failed''), abandon (take (io_written io) encoded))
            else if io_fails io IoSyncFile
            then (Inl (file_error kind ''file_sync_failed''), abandon encoded)
            else if io_fails io IoRename
            then (Inl (file_error kind ''rename_failed''), abandon encoded)
            else (if io_fails io IoSyncDirectory
                  then Inl (file_error kind ''parent_sync_failed'') else Inr (),
                  replace_file target
                    \<lparr>sf_stat = io_created_stat io, sf_bytes = encoded\<rparr> dir)))"

definition read_state_file ::
    "file_kind \<Rightarrow> io_outcome \<Rightarrow> state_dir \<Rightarrow> path \<Rightarrow> byte list option result" where
  "read_state_file kind io dir name =
     rbind (open_state_root io)
     (\<lambda>_. rbind (inspect_state_for_read io dir name)
     (\<lambda>found. case found of
        None \<Rightarrow> Inr None
      | Some f \<Rightarrow>
          if length (sf_bytes f) > max_file_bytes kind then Inl (file_error kind ''too_large'')
          else if io_fails io IoOpenFile then Inl (persistence_error ''project_state_open_failed'')
          else if io_fails io IoStatFile then Inl (file_error kind ''stat_failed'')
          else if io_fails io IoRaced then Inl (file_error kind ''changed_during_open'')
          else if io_fails io IoRead then Inl (file_error kind ''read_failed'')
          else Inr (Some (sf_bytes f))))"

definition remove_state_file ::
    "file_kind \<Rightarrow> io_outcome \<Rightarrow> state_dir \<Rightarrow> path \<Rightarrow> unit result \<times> state_dir" where
  "remove_state_file kind io dir name =
     (case rbind (open_state_root io) (\<lambda>_. inspect_state_for_read io dir name) of
        Inl e \<Rightarrow> (Inl e, dir)
      | Inr None \<Rightarrow> (Inr (), dir)
      | Inr (Some f) \<Rightarrow>
          if io_fails io IoUnlink then (Inl (file_error kind ''remove_failed''), dir)
          else (if io_fails io IoSyncDirectory
                then Inl (file_error kind ''parent_sync_failed'') else Inr (),
                filter (\<lambda>e. fst e \<noteq> name) dir))"

subsection \<open>File names\<close>

definition json_suffix :: rstring where "json_suffix = lit ''.json''"
definition name_separator :: rstring where "name_separator = lit ''--''"

definition uuid_of_project :: "project_id \<Rightarrow> uuid" where
  "uuid_of_project pid = (case pid of ProjectId u \<Rightarrow> u)"

definition uuid_of_conversation :: "conversation_id \<Rightarrow> uuid" where
  "uuid_of_conversation cid = (case cid of ConversationId u \<Rightarrow> u)"

definition state_file_name :: "uuid_names \<Rightarrow> project_id \<Rightarrow> rstring" where
  "state_file_name U pid = ut_hyphenated U (uuid_of_project pid) @ json_suffix"

definition conversation_file_name ::
    "uuid_names \<Rightarrow> project_id \<Rightarrow> conversation_id \<Rightarrow> rstring" where
  "conversation_file_name U pid cid =
     ut_hyphenated U (uuid_of_project pid) @ name_separator
     @ ut_hyphenated U (uuid_of_conversation cid) @ json_suffix"

definition strip_suffix :: "rstring \<Rightarrow> rstring \<Rightarrow> rstring option" where
  "strip_suffix s p = (if ends_with s p then Some (take (length s - length p) s) else None)"

text \<open>\<open>split_once\<close> with a two-character pattern: at its first occurrence.\<close>

fun split_once :: "rstring \<Rightarrow> rstring \<Rightarrow> (rstring \<times> rstring) option" where
  "split_once [] p = (if p = [] then Some ([], []) else None)"
| "split_once (c # s) p =
     (if starts_with (c # s) p then Some ([], drop (length p) (c # s))
      else map_option (\<lambda>(a, b). (c # a, b)) (split_once s p))"

definition parse_project_file_name :: "uuid_names \<Rightarrow> path \<Rightarrow> project_id result" where
  "parse_project_file_name U name =
     (let unexpected = persistence_error ''project_state_directory_unexpected_entry''
      in rbind (ok_or (to_str name) unexpected)
         (\<lambda>txt. rbind (ok_or (strip_suffix txt json_suffix) unexpected)
         (\<lambda>stem. rbind (ok_or (ut_parse_str U stem) unexpected)
         (\<lambda>u. if stem \<noteq> ut_hyphenated U u then Inl unexpected else Inr (ProjectId u)))))"

definition parse_conversation_file_name ::
    "uuid_names \<Rightarrow> rstring \<Rightarrow> (project_id \<times> conversation_id) result" where
  "parse_conversation_file_name U txt =
     (let unexpected = persistence_error ''conversation_directory_unexpected_entry''
      in rbind (ok_or (strip_suffix txt json_suffix) unexpected)
         (\<lambda>stem. rbind (ok_or (split_once stem name_separator) unexpected)
         (\<lambda>(project_text, conversation_text).
            if contains_str conversation_text name_separator then Inl unexpected
            else rbind (ok_or (ut_parse_str U project_text) unexpected)
         (\<lambda>p. rbind (ok_or (ut_parse_str U conversation_text) unexpected)
         (\<lambda>c. if project_text \<noteq> ut_hyphenated U p \<or> conversation_text \<noteq> ut_hyphenated U c
              then Inl unexpected else Inr (ProjectId p, ConversationId c))))))"

subsection \<open>Project state files\<close>

definition save_project_state ::
    "store_codec \<Rightarrow> uuid_names \<Rightarrow> io_outcome \<Rightarrow> state_dir \<Rightarrow> persisted_project_state
      \<Rightarrow> unit result \<times> state_dir" where
  "save_project_state C U io dir s =
     (case sc_encode_project C s of
        None \<Rightarrow> (Inl (file_error ProjectFile ''serialize_failed''), dir)
      | Some encoded \<Rightarrow>
          write_state_file ProjectFile U io dir (Utf8Path (state_file_name U (pst_project_id s))) encoded)"

definition decode_project_state ::
    "store_codec \<Rightarrow> project_id \<Rightarrow> byte list \<Rightarrow> persisted_project_state result" where
  "decode_project_state C pid bytes =
     rbind (ok_or (sc_decode_project C bytes) (file_error ProjectFile ''invalid_json''))
       (\<lambda>s. rbind (project_state_validate s)
       (\<lambda>_. if pst_project_id s \<noteq> pid then Inl (file_error ProjectFile ''id_mismatch'') else Inr s))"

definition load_project_state_file ::
    "store_codec \<Rightarrow> uuid_names \<Rightarrow> io_outcome \<Rightarrow> state_dir \<Rightarrow> project_id
      \<Rightarrow> persisted_project_state option result" where
  "load_project_state_file C U io dir pid =
     rbind (read_state_file ProjectFile io dir (Utf8Path (state_file_name U pid)))
       (\<lambda>found. case found of
          None \<Rightarrow> Inr None
        | Some bytes \<Rightarrow> rbind (decode_project_state C pid bytes) (\<lambda>s. Inr (Some s)))"

fun scan_project_dir ::
    "uuid_names \<Rightarrow> io_outcome \<Rightarrow> nat \<Rightarrow> nat \<Rightarrow> project_id list \<Rightarrow> state_dir
      \<Rightarrow> project_id list result" where
  "scan_project_dir U io max_projects seen ids [] =
     (if io_fails io (IoListRead seen) then Inl (file_error ProjectFile ''list_read_failed'')
      else Inr ids)"
| "scan_project_dir U io max_projects seen ids ((name, f) # rest) =
     (if io_fails io (IoListRead seen) then Inl (file_error ProjectFile ''list_read_failed'')
      else if seen + 1 > MAX_STATE_DIRECTORY_ENTRIES
      then Inl (file_error ProjectFile ''directory_too_large'')
      else if starts_with (path_units name) TEMP_PREFIX
      then scan_project_dir U io max_projects (seen + 1) ids rest
      else rbind (parse_project_file_name U name)
        (\<lambda>pid. if io_fails io (IoListStat seen)
               then Inl (file_error ProjectFile ''list_stat_failed'')
               else rbind (verify_private_regular_stat
                      (persistence_error ''project_state_target_invalid'') (sf_stat f))
        (\<lambda>_. if length (ids @ [pid]) > max_projects
             then Inl (file_error ProjectFile ''list_limit_exceeded'')
             else scan_project_dir U io max_projects (seen + 1) (ids @ [pid]) rest)))"

definition open_list :: "file_kind \<Rightarrow> io_outcome \<Rightarrow> unit result" where
  "open_list kind io =
     rbind (open_state_root io)
       (\<lambda>_. if io_fails io IoListDup then Inl (file_error kind ''list_dup_failed'')
            else if io_fails io IoListOpen then Inl (file_error kind ''list_open_failed'')
            else Inr ())"

definition list_project_files_ids ::
    "uuid_names \<Rightarrow> io_outcome \<Rightarrow> state_dir \<Rightarrow> nat \<Rightarrow> project_id list result" where
  "list_project_files_ids U io dir max_projects =
     rbind (open_list ProjectFile io)
       (\<lambda>_. rbind (scan_project_dir U io max_projects 0 [] dir)
       (\<lambda>ids. Inr (sort_key (\<lambda>pid. ut_hyphenated U (uuid_of_project pid)) ids)))"

subsection \<open>Conversation files\<close>

definition save_conversation ::
    "store_codec \<Rightarrow> uuid_names \<Rightarrow> io_outcome \<Rightarrow> state_dir \<Rightarrow> persisted_conversation
      \<Rightarrow> unit result \<times> state_dir" where
  "save_conversation C U io dir c =
     (case sc_encode_conversation C c of
        None \<Rightarrow> (Inl (file_error ConversationFile ''serialize_failed''), dir)
      | Some encoded \<Rightarrow>
          write_state_file ConversationFile U io dir
            (Utf8Path (conversation_file_name U (cv_project_id c) (cv_conversation_id c))) encoded)"

definition decode_conversation ::
    "store_codec \<Rightarrow> project_id \<Rightarrow> conversation_id \<Rightarrow> byte list \<Rightarrow> persisted_conversation result" where
  "decode_conversation C pid cid bytes =
     rbind (ok_or (sc_decode_conversation C bytes) (file_error ConversationFile ''invalid_json''))
       (\<lambda>c. rbind (conversation_validate c)
       (\<lambda>_. if cv_project_id c \<noteq> pid \<or> cv_conversation_id c \<noteq> cid
            then Inl (file_error ConversationFile ''id_mismatch'') else Inr c))"

definition load_conversation_file ::
    "store_codec \<Rightarrow> uuid_names \<Rightarrow> io_outcome \<Rightarrow> state_dir \<Rightarrow> project_id \<Rightarrow> conversation_id
      \<Rightarrow> persisted_conversation option result" where
  "load_conversation_file C U io dir pid cid =
     rbind (read_state_file ConversationFile io dir (Utf8Path (conversation_file_name U pid cid)))
       (\<lambda>found. case found of
          None \<Rightarrow> Inr None
        | Some bytes \<Rightarrow> rbind (decode_conversation C pid cid bytes) (\<lambda>c. Inr (Some c)))"

fun scan_conversation_dir ::
    "uuid_names \<Rightarrow> io_outcome \<Rightarrow> project_id \<Rightarrow> nat \<Rightarrow> nat \<Rightarrow> conversation_id list \<Rightarrow> state_dir
      \<Rightarrow> conversation_id list result" where
  "scan_conversation_dir U io pid max_conversations seen ids [] =
     (if io_fails io (IoListRead seen) then Inl (file_error ConversationFile ''list_read_failed'')
      else Inr ids)"
| "scan_conversation_dir U io pid max_conversations seen ids ((name, f) # rest) =
     (if io_fails io (IoListRead seen) then Inl (file_error ConversationFile ''list_read_failed'')
      else if seen + 1 > MAX_STATE_DIRECTORY_ENTRIES
      then Inl (file_error ConversationFile ''directory_too_large'')
      else if starts_with (path_units name) CONVERSATION_TEMP_PREFIX
      then scan_conversation_dir U io pid max_conversations (seen + 1) ids rest
      else rbind (ok_or (to_str name)
             (persistence_error ''conversation_directory_unexpected_entry''))
        (\<lambda>txt. rbind (parse_conversation_file_name U txt)
        (\<lambda>entry. if io_fails io (IoListStat seen)
               then Inl (file_error ConversationFile ''list_stat_failed'')
               else rbind (verify_private_regular_stat
                      (file_error ConversationFile ''target_invalid'') (sf_stat f))
        (\<lambda>_. if fst entry = pid
             then if length (ids @ [snd entry]) > max_conversations
                  then Inl (file_error ConversationFile ''list_limit_exceeded'')
                  else scan_conversation_dir U io pid max_conversations (seen + 1)
                         (ids @ [snd entry]) rest
             else scan_conversation_dir U io pid max_conversations (seen + 1) ids rest))))"

definition list_conversation_files_ids ::
    "uuid_names \<Rightarrow> io_outcome \<Rightarrow> state_dir \<Rightarrow> project_id \<Rightarrow> nat \<Rightarrow> conversation_id list result" where
  "list_conversation_files_ids U io dir pid max_conversations =
     rbind (open_list ConversationFile io)
       (\<lambda>_. rbind (scan_conversation_dir U io pid max_conversations 0 [] dir)
       (\<lambda>ids. Inr (sort_key (\<lambda>cid. ut_hyphenated U (uuid_of_conversation cid)) ids)))"

subsection \<open>The store\<close>

definition now_io :: "local_store \<Rightarrow> io_outcome" where
  "now_io s = ls_io s (ls_tick s)"

definition tick :: "local_store \<Rightarrow> local_store" where
  "tick s = s\<lparr>ls_tick := ls_tick s + 1\<rparr>"

definition lock_gate :: "local_store \<Rightarrow> unit result" where
  "lock_gate s =
     (if ls_poisoned s then Inl (persistence_error ''project_state_gate_poisoned'') else Inr ())"

definition load_project_state ::
    "local_store \<Rightarrow> project_id \<Rightarrow> persisted_project_state option result \<times> local_store" where
  "load_project_state s pid =
     (case lock_gate s of
        Inl e \<Rightarrow> (Inl e, s)
      | Inr _ \<Rightarrow> (load_project_state_file (ls_codec s) (ls_uuid s) (now_io s) (ls_projects s) pid, tick s))"

definition put_project ::
    "local_store \<Rightarrow> persisted_project_state \<Rightarrow> unit result \<times> local_store" where
  "put_project s st =
     (case save_project_state (ls_codec s) (ls_uuid s) (now_io s) (ls_projects s) st of
        (r, dir) \<Rightarrow> (r, (tick s)\<lparr>ls_projects := dir\<rparr>))"

definition create_project_state ::
    "local_store \<Rightarrow> persisted_project_state \<Rightarrow> unit result \<times> local_store" where
  "create_project_state s st =
     (case rbind (project_state_validate st)
             (\<lambda>_. if pst_revision st \<noteq> 0
                  then Inl (persistence_error ''project_state_create_revision_invalid'')
                  else Inr ()) of
        Inl e \<Rightarrow> (Inl e, s)
      | Inr _ \<Rightarrow>
        (case load_project_state s (pst_project_id st) of
           (Inl e, s1) \<Rightarrow> (Inl e, s1)
         | (Inr (Some _), s1) \<Rightarrow> (Inl (persistence_error ''project_state_already_exists''), s1)
         | (Inr None, s1) \<Rightarrow> put_project s1 st))"

definition update_project_state ::
    "local_store \<Rightarrow> u64 \<Rightarrow> persisted_project_state \<Rightarrow> persisted_project_state result \<times> local_store" where
  "update_project_state s expected st =
     (case rbind (project_state_validate st)
             (\<lambda>_. if pst_revision st \<noteq> expected
                  then Inl (persistence_error ''project_state_expected_revision_mismatch'')
                  else Inr ()) of
        Inl e \<Rightarrow> (Inl e, s)
      | Inr _ \<Rightarrow>
        (case load_project_state s (pst_project_id st) of
           (Inl e, s1) \<Rightarrow> (Inl e, s1)
         | (Inr None, s1) \<Rightarrow> (Inl (persistence_error ''project_state_not_found''), s1)
         | (Inr (Some current), s1) \<Rightarrow>
             if pst_revision current \<noteq> expected
             then (Inl (persistence_error ''project_state_revision_conflict''), s1)
             else (case checked_succ expected of
               None \<Rightarrow> (Inl (persistence_error ''project_state_revision_overflow''), s1)
             | Some next_revision \<Rightarrow>
                 (let committed = st\<lparr>pst_revision := next_revision\<rparr>
                  in case put_project s1 committed of
                       (Inl e, s2) \<Rightarrow> (Inl e, s2)
                     | (Inr _, s2) \<Rightarrow> (Inr committed, s2)))))"

definition list_project_ids :: "local_store \<Rightarrow> nat \<Rightarrow> project_id list result \<times> local_store" where
  "list_project_ids s max_projects =
     (if max_projects = 0 \<or> max_projects > MAX_PERSISTED_PROJECTS
      then (Inl (persistence_error ''project_state_list_limit_invalid''), s)
      else case lock_gate s of
        Inl e \<Rightarrow> (Inl e, s)
      | Inr _ \<Rightarrow> (list_project_files_ids (ls_uuid s) (now_io s) (ls_projects s) max_projects, tick s))"

definition remove_project_state :: "local_store \<Rightarrow> project_id \<Rightarrow> unit result \<times> local_store" where
  "remove_project_state s pid =
     (case lock_gate s of
        Inl e \<Rightarrow> (Inl e, s)
      | Inr _ \<Rightarrow>
        (case remove_state_file ProjectFile (now_io s) (ls_projects s)
                (Utf8Path (state_file_name (ls_uuid s) pid)) of
           (r, dir) \<Rightarrow> (r, (tick s)\<lparr>ls_projects := dir\<rparr>)))"

definition load_conversation ::
    "local_store \<Rightarrow> project_id \<times> conversation_id
      \<Rightarrow> persisted_conversation option result \<times> local_store" where
  "load_conversation s k =
     (case lock_gate s of
        Inl e \<Rightarrow> (Inl e, s)
      | Inr _ \<Rightarrow> (load_conversation_file (ls_codec s) (ls_uuid s) (now_io s) (ls_conversations s)
                    (fst k) (snd k), tick s))"

definition list_conversation_ids ::
    "local_store \<Rightarrow> project_id \<Rightarrow> nat \<Rightarrow> conversation_id list result \<times> local_store" where
  "list_conversation_ids s pid max_conversations =
     (if max_conversations = 0 \<or> max_conversations > MAX_PERSISTED_CONVERSATIONS_PER_PROJECT
      then (Inl (persistence_error ''conversation_list_limit_invalid''), s)
      else case lock_gate s of
        Inl e \<Rightarrow> (Inl e, s)
      | Inr _ \<Rightarrow> (list_conversation_files_ids (ls_uuid s) (now_io s) (ls_conversations s) pid
                    max_conversations, tick s))"

definition put_conversation ::
    "local_store \<Rightarrow> persisted_conversation \<Rightarrow> unit result \<times> local_store" where
  "put_conversation s c =
     (case save_conversation (ls_codec s) (ls_uuid s) (now_io s) (ls_conversations s) c of
        (r, dir) \<Rightarrow> (r, (tick s)\<lparr>ls_conversations := dir\<rparr>))"

definition create_conversation ::
    "local_store \<Rightarrow> persisted_conversation \<Rightarrow> unit result \<times> local_store" where
  "create_conversation s c =
     (case rbind (conversation_validate c)
             (\<lambda>_. if cv_revision c \<noteq> 0
                  then Inl (persistence_error ''conversation_create_revision_invalid'')
                  else Inr ()) of
        Inl e \<Rightarrow> (Inl e, s)
      | Inr _ \<Rightarrow>
        (case load_conversation s (cv_project_id c, cv_conversation_id c) of
           (Inl e, s1) \<Rightarrow> (Inl e, s1)
         | (Inr (Some _), s1) \<Rightarrow> (Inl (persistence_error ''conversation_already_exists''), s1)
         | (Inr None, s1) \<Rightarrow>
             (case list_conversation_ids s1 (cv_project_id c)
                     MAX_PERSISTED_CONVERSATIONS_PER_PROJECT of
                (Inl e, s2) \<Rightarrow> (Inl e, s2)
              | (Inr ids, s2) \<Rightarrow>
                  if length ids \<ge> MAX_PERSISTED_CONVERSATIONS_PER_PROJECT
                  then (Inl (persistence_error ''conversation_limit_exceeded''), s2)
                  else put_conversation s2 c)))"

definition update_conversation ::
    "local_store \<Rightarrow> u64 \<Rightarrow> persisted_conversation \<Rightarrow> persisted_conversation result \<times> local_store" where
  "update_conversation s expected c =
     (case rbind (conversation_validate c)
             (\<lambda>_. if cv_revision c \<noteq> expected
                  then Inl (persistence_error ''conversation_expected_revision_mismatch'')
                  else Inr ()) of
        Inl e \<Rightarrow> (Inl e, s)
      | Inr _ \<Rightarrow>
        (case load_conversation s (cv_project_id c, cv_conversation_id c) of
           (Inl e, s1) \<Rightarrow> (Inl e, s1)
         | (Inr None, s1) \<Rightarrow> (Inl (persistence_error ''conversation_not_found''), s1)
         | (Inr (Some current), s1) \<Rightarrow>
             if cv_revision current \<noteq> expected
             then (Inl (persistence_error ''conversation_revision_conflict''), s1)
             else (case checked_succ expected of
               None \<Rightarrow> (Inl (persistence_error ''conversation_revision_overflow''), s1)
             | Some next_revision \<Rightarrow>
                 (let committed = c\<lparr>cv_revision := next_revision\<rparr>
                  in case put_conversation s1 committed of
                       (Inl e, s2) \<Rightarrow> (Inl e, s2)
                     | (Inr _, s2) \<Rightarrow> (Inr committed, s2)))))"

definition remove_conversation ::
    "local_store \<Rightarrow> project_id \<times> conversation_id \<Rightarrow> unit result \<times> local_store" where
  "remove_conversation s k =
     (case lock_gate s of
        Inl e \<Rightarrow> (Inl e, s)
      | Inr _ \<Rightarrow>
        (case remove_state_file ConversationFile (now_io s) (ls_conversations s)
                (Utf8Path (conversation_file_name (ls_uuid s) (fst k) (snd k))) of
           (r, dir) \<Rightarrow> (r, (tick s)\<lparr>ls_conversations := dir\<rparr>)))"

fun remove_each_conversation ::
    "project_id \<Rightarrow> local_store \<Rightarrow> conversation_id list \<Rightarrow> unit result \<times> local_store" where
  "remove_each_conversation pid s [] = (Inr (), s)"
| "remove_each_conversation pid s (cid # cids) =
     (case remove_conversation s (pid, cid) of
        (Inl e, s1) \<Rightarrow> (Inl e, s1)
      | (Inr _, s1) \<Rightarrow> remove_each_conversation pid s1 cids)"

definition remove_project_conversations ::
    "local_store \<Rightarrow> project_id \<Rightarrow> unit result \<times> local_store" where
  "remove_project_conversations s pid =
     (case list_conversation_ids s pid MAX_PERSISTED_CONVERSATIONS_PER_PROJECT of
        (Inl e, s1) \<Rightarrow> (Inl e, s1)
      | (Inr ids, s1) \<Rightarrow> remove_each_conversation pid s1 ids)"

section \<open>What the store holds\<close>

definition codec_ok :: "store_codec \<Rightarrow> bool" where
  "codec_ok C \<longleftrightarrow>
     (\<forall>v b. sc_encode_project C v = Some b \<longrightarrow> sc_decode_project C b = Some v)
     \<and> (\<forall>v b. sc_encode_conversation C v = Some b \<longrightarrow> sc_decode_conversation C b = Some v)"

text \<open>The hyphenated text of a \<open>Uuid\<close> parses back, consists of lower-case hexadecimal digits and single
  hyphens, and neither begins nor ends with a hyphen.\<close>

definition uuid_char :: "rchar \<Rightarrow> bool" where
  "uuid_char c \<longleftrightarrow> is_ascii_digit c \<or> (97 \<le> c \<and> c \<le> 102) \<or> c = 45"

definition uuid_ok :: "uuid_names \<Rightarrow> bool" where
  "uuid_ok U \<longleftrightarrow>
     (\<forall>u. ut_parse_str U (ut_hyphenated U u) = Some u)
     \<and> (\<forall>u. list_all uuid_char (ut_hyphenated U u))
     \<and> (\<forall>u. \<not> contains_str (ut_hyphenated U u) name_separator)
     \<and> (\<forall>u. ut_hyphenated U u \<noteq> [] \<and> hd (ut_hyphenated U u) \<noteq> 45 \<and> last (ut_hyphenated U u) \<noteq> 45)"

definition store_inv :: "local_store \<Rightarrow> bool" where
  "store_inv s \<longleftrightarrow> codec_ok (ls_codec s) \<and> uuid_ok (ls_uuid s)
     \<and> distinct (map fst (ls_projects s)) \<and> distinct (map fst (ls_conversations s))"

definition stored_file :: "file_kind \<Rightarrow> state_dir \<Rightarrow> path \<Rightarrow> byte list option" where
  "stored_file kind dir name =
     (case map_of dir name of
        None \<Rightarrow> None
      | Some f \<Rightarrow> if private_regular (sf_stat f) \<and> length (sf_bytes f) \<le> max_file_bytes kind
                  then Some (sf_bytes f) else None)"

definition ok_value :: "'a result \<Rightarrow> 'a option" where
  "ok_value r = (case r of Inl _ \<Rightarrow> None | Inr a \<Rightarrow> Some a)"

definition projects_in ::
    "store_codec \<Rightarrow> uuid_names \<Rightarrow> state_dir \<Rightarrow> project_id \<rightharpoonup> persisted_project_state" where
  "projects_in C U dir pid =
     (case stored_file ProjectFile dir (Utf8Path (state_file_name U pid)) of
        None \<Rightarrow> None
      | Some bytes \<Rightarrow> ok_value (decode_project_state C pid bytes))"

definition conversations_in ::
    "store_codec \<Rightarrow> uuid_names \<Rightarrow> state_dir
      \<Rightarrow> project_id \<times> conversation_id \<rightharpoonup> persisted_conversation" where
  "conversations_in C U dir k =
     (case stored_file ConversationFile dir (Utf8Path (conversation_file_name U (fst k) (snd k))) of
        None \<Rightarrow> None
      | Some bytes \<Rightarrow> ok_value (decode_conversation C (fst k) (snd k) bytes))"

definition project_view :: "local_store \<Rightarrow> project_id \<rightharpoonup> persisted_project_state" where
  "project_view s = projects_in (ls_codec s) (ls_uuid s) (ls_projects s)"

definition conversation_view ::
    "local_store \<Rightarrow> project_id \<times> conversation_id \<rightharpoonup> persisted_conversation" where
  "conversation_view s = conversations_in (ls_codec s) (ls_uuid s) (ls_conversations s)"

section \<open>Files\<close>

lemma ok_value_Some [simp]: "ok_value r = Some a \<longleftrightarrow> r = Inr a"
  by (cases r) (simp_all add: ok_value_def)

lemma ok_value_simps [simp]: "ok_value (Inr a) = Some a" "ok_value (Inl e) = None"
  by (simp_all add: ok_value_def)

lemma tick_simps [simp]:
  "ls_codec (tick s) = ls_codec s" "ls_uuid (tick s) = ls_uuid s" "ls_poisoned (tick s) = ls_poisoned s"
  "ls_projects (tick s) = ls_projects s" "ls_conversations (tick s) = ls_conversations s"
  by (simp_all add: tick_def)

lemma write_state_file_effect:
  assumes "write_state_file kind U io dir target encoded = (r, dir')"
  defines "temp \<equiv> Utf8Path (temp_prefix kind @ ut_simple U (io_temp_id io))"
  shows "(\<exists>e. r = Inl e) \<and> (dir' = dir \<or> (\<exists>f. map_of dir temp = None \<and> dir' = (temp, f) # dir))
    \<or> (\<exists>st. private_regular st \<and> length encoded \<le> max_file_bytes kind
        \<and> dir' = replace_file target \<lparr>sf_stat = st, sf_bytes = encoded\<rparr> dir)"
proof (cases "rbind (open_state_root io) (\<lambda>_. inspect_existing_state_target io dir target)")
  case (Inl e)
  from assms(1) show ?thesis by (auto simp: write_state_file_def Inl split: if_splits)
next
  case (Inr u)
  from assms(1) show ?thesis unfolding temp_def
    by (auto simp: write_state_file_def Inr abandon_temp_def Let_def split: if_splits)
qed

text \<open>A failed write has replaced the target only if the final sync of the directory failed.\<close>

lemma write_state_file_failed:
  assumes "write_state_file kind U io dir target encoded = (Inl e, dir')"
  shows "dir' = dir \<or> (\<exists>f. dir' = (Utf8Path (temp_prefix kind @ ut_simple U (io_temp_id io)), f) # dir)
    \<or> e = file_error kind ''parent_sync_failed''"
  using assms by (auto simp: write_state_file_def abandon_temp_def Let_def split: if_splits sum.splits)

lemma map_of_replace_file [simp]:
  "map_of (replace_file name f dir) = (map_of dir)(name \<mapsto> f)"
proof
  fix k
  have "map_of (filter (\<lambda>e. fst e \<noteq> name) dir) k = map_of dir k" if "k \<noteq> name"
    using that by (induction dir) auto
  then show "map_of (replace_file name f dir) k = ((map_of dir)(name \<mapsto> f)) k"
    by (simp add: replace_file_def)
qed

lemma map_of_filter_name:
  "map_of (filter (\<lambda>e. fst e \<noteq> name) dir) = (map_of dir)(name := None)"
proof
  fix k show "map_of (filter (\<lambda>e. fst e \<noteq> name) dir) k = ((map_of dir)(name := None)) k"
    by (induction dir) auto
qed

lemma replace_file_distinct [simp]:
  "distinct (map fst dir) \<Longrightarrow> distinct (map fst (replace_file name f dir))"
  by (auto simp: replace_file_def distinct_map_filter)

lemma verify_private_regular_stat_Inr [simp]:
  "verify_private_regular_stat e st = Inr u \<longleftrightarrow> private_regular st"
  by (simp add: verify_private_regular_stat_def)

lemma inspect_state_for_read_Inr:
  "inspect_state_for_read io dir name = Inr r \<Longrightarrow>
     r = map_of dir name \<and> (\<forall>f. r = Some f \<longrightarrow> private_regular (sf_stat f))"
  by (auto simp: inspect_state_for_read_def fstatat_nofollow_optional_def rbind_eq_Inr
      split: option.splits if_splits)

lemma read_state_file_Inr:
  "read_state_file kind io dir name = Inr r \<Longrightarrow> r = stored_file kind dir name"
  by (auto simp: read_state_file_def stored_file_def rbind_eq_Inr split: option.splits if_splits
      dest!: inspect_state_for_read_Inr)

lemma remove_state_file_effect:
  assumes "remove_state_file kind io dir name = (r, dir')"
  shows "(dir' = dir \<and> (r = Inr () \<longrightarrow> map_of dir name = None))
    \<or> dir' = filter (\<lambda>e. fst e \<noteq> name) dir"
  using assms
  by (auto simp: remove_state_file_def rbind_eq_Inr split: sum.splits option.splits if_splits
      dest!: inspect_state_for_read_Inr)

lemma stored_file_replace:
  assumes "private_regular st" and "length b \<le> max_file_bytes kind"
  shows "stored_file kind (replace_file name \<lparr>sf_stat = st, sf_bytes = b\<rparr> dir)
    = (stored_file kind dir)(name \<mapsto> b)"
  using assms by (auto simp: stored_file_def fun_eq_iff)

lemma stored_file_filter:
  "stored_file kind (filter (\<lambda>e. fst e \<noteq> name) dir) = (stored_file kind dir)(name := None)"
  by (auto simp: stored_file_def fun_eq_iff map_of_filter_name)

lemma stored_file_other: "name \<noteq> n \<Longrightarrow> stored_file kind ((n, f) # dir) name = stored_file kind dir name"
  by (simp add: stored_file_def)

section \<open>File names\<close>

lemma uuid_okD:
  assumes "uuid_ok U"
  shows "ut_parse_str U (ut_hyphenated U u) = Some u" "list_all uuid_char (ut_hyphenated U u)"
    "\<not> contains_str (ut_hyphenated U u) name_separator" "ut_hyphenated U u \<noteq> []"
    "hd (ut_hyphenated U u) \<noteq> 45" "last (ut_hyphenated U u) \<noteq> 45"
  using assms by (simp_all add: uuid_ok_def)

lemma hyphenated_inj: "uuid_ok U \<Longrightarrow> ut_hyphenated U u = ut_hyphenated U v \<longleftrightarrow> u = v"
  using uuid_okD(1) [of U] by (metis option.inject)

lemma strip_suffix_append [simp]: "strip_suffix (s @ p) p = Some s"
  by (simp add: strip_suffix_def ends_with_def starts_with_iff)

lemma strip_suffix_Some: "strip_suffix s p = Some t \<Longrightarrow> s = t @ p"
proof -
  assume a: "strip_suffix s p = Some t"
  then obtain q where "rev s = rev p @ q"
    by (auto simp: strip_suffix_def ends_with_def starts_with_iff split: if_splits)
  then have "s = rev q @ p" by (metis rev_append rev_rev_ident)
  with a show ?thesis by (auto simp: strip_suffix_def split: if_splits)
qed

lemma split_once_Some: "split_once s p = Some (a, b) \<Longrightarrow> s = a @ p @ b"
proof (induction s p arbitrary: a rule: split_once.induct)
  case (2 c s p)
  show ?case
  proof (cases "starts_with (c # s) p")
    case True
    with 2(2) show ?thesis by (auto simp: starts_with_iff)
  next
    case False
    with 2(2) obtain a' where "split_once s p = Some (a', b)" "a = c # a'" by auto
    with 2(1) [OF False] show ?thesis by simp
  qed
qed (auto split: if_splits)

text \<open>A hyphenated id followed by the separator is cut exactly there.\<close>

lemma split_once_separator:
  assumes "\<not> contains_str a name_separator" and "a \<noteq> []" and "last a \<noteq> 45"
  shows "split_once (a @ name_separator @ b) name_separator = Some (a, b)"
  using assms
proof (induction a)
  case (Cons c a)
  have sep: "name_separator = [45, 45]" by code_simp
  have no: "\<not> starts_with (c # a @ name_separator @ b) name_separator"
  proof (cases a)
    case Nil
    with Cons.prems show ?thesis by (simp add: sep)
  next
    case (Cons d a')
    with Cons.prems(1) show ?thesis by (auto simp: sep)
  qed
  show ?case
  proof (cases "a = []")
    case True
    have "split_once (name_separator @ b) name_separator = Some ([], b)"
      by (simp add: sep)
    with no True show ?thesis by simp
  next
    case False
    with Cons have "split_once (a @ name_separator @ b) name_separator = Some (a, b)" by simp
    with no show ?thesis by simp
  qed
qed simp

lemma uuid_of_project_inj [simp]: "uuid_of_project p = uuid_of_project q \<longleftrightarrow> p = q"
  by (cases p; cases q) (simp add: uuid_of_project_def)

lemma uuid_of_conversation_inj [simp]: "uuid_of_conversation c = uuid_of_conversation d \<longleftrightarrow> c = d"
  by (cases c; cases d) (simp add: uuid_of_conversation_def)

lemma uuid_id [simp]:
  "ProjectId (uuid_of_project p) = p" "ConversationId (uuid_of_conversation c) = c"
  "uuid_of_project (ProjectId u) = u" "uuid_of_conversation (ConversationId u) = u"
  by (cases p, simp add: uuid_of_project_def) (cases c, simp_all add: uuid_of_conversation_def uuid_of_project_def)

lemma conversation_name_roundtrip:
  assumes "uuid_ok U"
  shows "parse_conversation_file_name U txt = Inr (p, c) \<longleftrightarrow> txt = conversation_file_name U p c"
proof
  assume "parse_conversation_file_name U txt = Inr (p, c)"
  then obtain stem where "strip_suffix txt json_suffix = Some stem"
      and "split_once stem name_separator
         = Some (ut_hyphenated U (uuid_of_project p), ut_hyphenated U (uuid_of_conversation c))"
    by (auto simp: parse_conversation_file_name_def Let_def rbind_eq_Inr split: if_splits)
  then show "txt = conversation_file_name U p c"
    by (auto simp: conversation_file_name_def dest!: strip_suffix_Some split_once_Some)
next
  let ?a = "ut_hyphenated U (uuid_of_project p)" and ?b = "ut_hyphenated U (uuid_of_conversation c)"
  assume name: "txt = conversation_file_name U p c"
  have "strip_suffix txt json_suffix = Some (?a @ name_separator @ ?b)"
    using strip_suffix_append [of "?a @ name_separator @ ?b" json_suffix]
    by (simp add: name conversation_file_name_def)
  moreover have "split_once (?a @ name_separator @ ?b) name_separator = Some (?a, ?b)"
    using uuid_okD [OF assms] by (intro split_once_separator) auto
  ultimately show "parse_conversation_file_name U txt = Inr (p, c)"
    using uuid_okD [OF assms] by (simp add: parse_conversation_file_name_def)
qed

lemma project_name_roundtrip:
  assumes "uuid_ok U"
  shows "parse_project_file_name U name = Inr p \<longleftrightarrow> name = Utf8Path (state_file_name U p)"
proof
  assume "parse_project_file_name U name = Inr p"
  then show "name = Utf8Path (state_file_name U p)"
    by (cases name)
       (auto simp: parse_project_file_name_def Let_def rbind_eq_Inr to_str_def state_file_name_def
         dest!: strip_suffix_Some split: if_splits)
next
  assume "name = Utf8Path (state_file_name U p)"
  then show "parse_project_file_name U name = Inr p"
    using uuid_okD(1) [OF assms]
    by (simp add: parse_project_file_name_def to_str_def state_file_name_def)
qed

lemma state_file_name_inj: "uuid_ok U \<Longrightarrow> state_file_name U p = state_file_name U q \<longleftrightarrow> p = q"
  by (simp add: state_file_name_def hyphenated_inj)

lemma conversation_file_name_inj:
  "uuid_ok U \<Longrightarrow> conversation_file_name U p c = conversation_file_name U q d \<longleftrightarrow> p = q \<and> c = d"
  using conversation_name_roundtrip [of U] by (metis Inr_inject prod.inject)

lemma temp_prefix_dot: "\<exists>t. temp_prefix kind = 46 # t"
  by (cases kind) (simp_all add: temp_prefix_def TEMP_PREFIX_def CONVERSATION_TEMP_PREFIX_def lit_def)

lemma hd_hyphenated: "uuid_ok U \<Longrightarrow> hd (ut_hyphenated U u) \<noteq> 46"
  using uuid_okD [of U u]
  by (cases "ut_hyphenated U u") (auto simp: uuid_char_def is_ascii_digit_def)

lemma not_temp_name:
  assumes "uuid_ok U"
  shows "\<not> starts_with (state_file_name U p) (temp_prefix kind @ r)"
    and "\<not> starts_with (conversation_file_name U p c) (temp_prefix kind @ r)"
proof -
  obtain t where t: "temp_prefix kind = 46 # t" using temp_prefix_dot by blast
  let ?h = "ut_hyphenated U (uuid_of_project p)"
  obtain x xs where "?h = x # xs" "x \<noteq> 46"
    using uuid_okD(4) [OF assms] hd_hyphenated [OF assms, of "uuid_of_project p"] by (cases ?h) auto
  then show "\<not> starts_with (state_file_name U p) (temp_prefix kind @ r)"
    "\<not> starts_with (conversation_file_name U p c) (temp_prefix kind @ r)"
    by (simp_all add: t state_file_name_def conversation_file_name_def)
qed

lemma starts_with_refl [simp]: "starts_with s s"
  by (simp add: starts_with_iff)

lemma temp_name_neq:
  assumes "uuid_ok U"
  shows "Utf8Path (state_file_name U p) \<noteq> Utf8Path (temp_prefix kind @ r)"
    and "Utf8Path (conversation_file_name U p c) \<noteq> Utf8Path (temp_prefix kind @ r)"
  using not_temp_name [OF assms] starts_with_refl by (metis path.inject(1))+

section \<open>The contracts\<close>

lemma lock_gate_Inr [simp]: "lock_gate s = Inr u \<longleftrightarrow> \<not> ls_poisoned s"
  by (simp add: lock_gate_def)

lemma store_inv_tick [simp]: "store_inv (tick s) = store_inv s"
  by (simp add: store_inv_def)

lemma view_tick [simp]:
  "project_view (tick s) = project_view s" "conversation_view (tick s) = conversation_view s"
  by (simp_all add: project_view_def conversation_view_def)

lemma load_project_state_effect:
  "load_project_state s pid = (r, s') \<Longrightarrow>
     (s' = s \<or> s' = tick s) \<and> (\<forall>v. r = Inr v \<longrightarrow> v = project_view s pid)"
  by (auto simp: load_project_state_def load_project_state_file_def project_view_def projects_in_def
      rbind_eq_Inr
      split: sum.split_asm option.splits dest!: read_state_file_Inr)

lemma load_conversation_effect:
  "load_conversation s k = (r, s') \<Longrightarrow>
     (s' = s \<or> s' = tick s) \<and> (\<forall>v. r = Inr v \<longrightarrow> v = conversation_view s k)"
  by (auto simp: load_conversation_def load_conversation_file_def conversation_view_def
      conversations_in_def rbind_eq_Inr
      split: sum.split_asm option.splits dest!: read_state_file_Inr)

lemma decode_encoded_project:
  assumes "codec_ok C" and "sc_encode_project C st = Some b" and "ok_project_state st"
  shows "decode_project_state C (pst_project_id st) b = Inr st"
  using assms by (auto simp: codec_ok_def decode_project_state_def project_state_validate_Inr
      rbind_eq_Inr)

lemma decode_encoded_conversation:
  assumes "codec_ok C" and "sc_encode_conversation C c = Some b" and "ok_conversation c"
  shows "decode_conversation C (cv_project_id c) (cv_conversation_id c) b = Inr c"
  using assms by (auto simp: codec_ok_def decode_conversation_def conversation_validate_Inr
      rbind_eq_Inr)

lemma write_keeps_distinct:
  assumes "write_state_file kind U io dir target encoded = (r, dir')" and "distinct (map fst dir)"
  shows "distinct (map fst dir')"
  using write_state_file_effect [OF assms(1)] assms(2) by (auto simp: map_of_eq_None_iff)

lemma put_project_effect:
  assumes inv: "store_inv s" and st: "ok_project_state st" and put: "put_project s st = (r, s')"
  shows "store_inv s'" and "conversation_view s' = conversation_view s"
    and "((\<exists>e. r = Inl e) \<and> project_view s' = project_view s)
      \<or> project_view s' = (project_view s)(pst_project_id st \<mapsto> st)"
proof -
  let ?C = "ls_codec s" and ?U = "ls_uuid s"
  let ?name = "Utf8Path (state_file_name ?U (pst_project_id st))"
  have C: "codec_ok ?C" and U: "uuid_ok ?U" using inv by (simp_all add: store_inv_def)
  obtain dir where save: "save_project_state ?C ?U (now_io s) (ls_projects s) st = (r, dir)"
    and s': "s' = (tick s)\<lparr>ls_projects := dir\<rparr>"
    using put by (auto simp: put_project_def split: prod.splits)
  show "conversation_view s' = conversation_view s"
    by (simp add: s' conversation_view_def)
  show "store_inv s'" using inv save write_keeps_distinct
    by (fastforce simp: s' store_inv_def save_project_state_def split: option.splits)
  show "((\<exists>e. r = Inl e) \<and> project_view s' = project_view s)
      \<or> project_view s' = (project_view s)(pst_project_id st \<mapsto> st)"
  proof (cases "sc_encode_project ?C st")
    case None
    with save show ?thesis by (auto simp: save_project_state_def s' project_view_def)
  next
    case (Some b)
    with save have "write_state_file ProjectFile ?U (now_io s) (ls_projects s) ?name b = (r, dir)"
      by (simp add: save_project_state_def)
    from write_state_file_effect [OF this] show ?thesis
    proof (elim disjE conjE exE)
      fix f e
      assume "r = Inl e" "dir = (Utf8Path (temp_prefix ProjectFile @ ut_simple ?U (io_temp_id (now_io s))), f) # ls_projects s"
      then show ?thesis
        using temp_name_neq(1) [OF U] by (simp add: s' project_view_def projects_in_def fun_eq_iff stored_file_other)
    next
      fix x assume "private_regular x" "length b \<le> max_file_bytes ProjectFile"
        "dir = replace_file ?name \<lparr>sf_stat = x, sf_bytes = b\<rparr> (ls_projects s)"
      then have "project_view s' = (project_view s)(pst_project_id st \<mapsto> st)"
        using decode_encoded_project [OF C Some st] state_file_name_inj [OF U]
        by (auto simp: s' project_view_def projects_in_def fun_eq_iff stored_file_replace)
      then show ?thesis by blast
    qed (auto simp: s' project_view_def)
  qed
qed

lemma put_conversation_effect:
  assumes inv: "store_inv s" and c: "ok_conversation c" and put: "put_conversation s c = (r, s')"
  shows "store_inv s'" and "project_view s' = project_view s"
    and "((\<exists>e. r = Inl e) \<and> conversation_view s' = conversation_view s)
      \<or> conversation_view s' = (conversation_view s)((cv_project_id c, cv_conversation_id c) \<mapsto> c)"
proof -
  let ?C = "ls_codec s" and ?U = "ls_uuid s"
  let ?name = "Utf8Path (conversation_file_name ?U (cv_project_id c) (cv_conversation_id c))"
  have C: "codec_ok ?C" and U: "uuid_ok ?U" using inv by (simp_all add: store_inv_def)
  obtain dir where save: "save_conversation ?C ?U (now_io s) (ls_conversations s) c = (r, dir)"
    and s': "s' = (tick s)\<lparr>ls_conversations := dir\<rparr>"
    using put by (auto simp: put_conversation_def split: prod.splits)
  show "project_view s' = project_view s"
    by (simp add: s' project_view_def)
  show "store_inv s'" using inv save write_keeps_distinct
    by (fastforce simp: s' store_inv_def save_conversation_def split: option.splits)
  show "((\<exists>e. r = Inl e) \<and> conversation_view s' = conversation_view s)
      \<or> conversation_view s' = (conversation_view s)((cv_project_id c, cv_conversation_id c) \<mapsto> c)"
  proof (cases "sc_encode_conversation ?C c")
    case None
    with save show ?thesis by (auto simp: save_conversation_def s' conversation_view_def)
  next
    case (Some b)
    with save have "write_state_file ConversationFile ?U (now_io s) (ls_conversations s) ?name b = (r, dir)"
      by (simp add: save_conversation_def)
    from write_state_file_effect [OF this] show ?thesis
    proof (elim disjE conjE exE)
      fix f e
      assume "r = Inl e" "dir = (Utf8Path (temp_prefix ConversationFile @ ut_simple ?U (io_temp_id (now_io s))), f)
        # ls_conversations s"
      then show ?thesis
        using temp_name_neq(2) [OF U] by (simp add: s' conversation_view_def conversations_in_def fun_eq_iff stored_file_other)
    next
      fix x assume "private_regular x" "length b \<le> max_file_bytes ConversationFile"
        "dir = replace_file ?name \<lparr>sf_stat = x, sf_bytes = b\<rparr> (ls_conversations s)"
      then have "conversation_view s' = (conversation_view s)((cv_project_id c, cv_conversation_id c) \<mapsto> c)"
        using decode_encoded_conversation [OF C Some c] conversation_file_name_inj [OF U]
        by (auto simp: s' conversation_view_def conversations_in_def fun_eq_iff stored_file_replace)
      then show ?thesis by blast
    qed (auto simp: s' conversation_view_def)
  qed
qed

lemma ok_project_state_revision [simp]: "ok_project_state (st\<lparr>pst_revision := n\<rparr>) = ok_project_state st"
  by (simp add: ok_project_state_def)

lemma ok_conversation_revision [simp]: "ok_conversation (c\<lparr>cv_revision := n\<rparr>) = ok_conversation c"
  by (simp add: ok_conversation_def)

lemma load_project_state_cases:
  assumes "store_inv s" and "load_project_state s pid = (r, s1)"
  shows "store_inv s1 \<and> project_view s1 = project_view s \<and> conversation_view s1 = conversation_view s
    \<and> (\<forall>v. r = Inr v \<longrightarrow> v = project_view s pid)"
  using load_project_state_effect [OF assms(2)] assms(1) by auto

lemma load_conversation_cases:
  assumes "store_inv s" and "load_conversation s k = (r, s1)"
  shows "store_inv s1 \<and> project_view s1 = project_view s \<and> conversation_view s1 = conversation_view s
    \<and> (\<forall>v. r = Inr v \<longrightarrow> v = conversation_view s k)"
  using load_conversation_effect [OF assms(2)] assms(1) by auto

lemma list_conversation_ids_keeps:
  "list_conversation_ids s pid n = (r, s1) \<Longrightarrow> s1 = s \<or> s1 = tick s"
  by (auto simp: list_conversation_ids_def split: if_splits sum.split_asm)

definition stays :: "local_store \<Rightarrow> local_store \<Rightarrow> bool" where
  "stays s s' \<longleftrightarrow> store_inv s' \<and> project_view s' = project_view s \<and> conversation_view s' = conversation_view s"

lemma create_project_state_effect:
  assumes inv: "store_inv s" and call: "create_project_state s st = (r, s')"
  shows "(\<exists>e. r = Inl e) \<and> stays s s'
    \<or> store_inv s' \<and> conversation_view s' = conversation_view s \<and> ok_project_state st \<and> pst_revision st = 0
      \<and> project_view s (pst_project_id st) = None
      \<and> project_view s' = (project_view s)(pst_project_id st \<mapsto> st)"
proof -
  let ?g = "rbind (project_state_validate st) (\<lambda>_. if pst_revision st \<noteq> 0
      then Inl (persistence_error ''project_state_create_revision_invalid'') else Inr ())"
  obtain r1 s1 where l: "load_project_state s (pst_project_id st) = (r1, s1)" by fastforce
  note l1 = load_project_state_cases [OF inv l]
  show ?thesis
  proof (cases ?g)
    case (Inl e)
    from call inv show ?thesis by (auto simp: create_project_state_def Inl stays_def)
  next
    case ok: (Inr u)
    then have vok: "ok_project_state st" "pst_revision st = 0"
      by (auto simp: rbind_eq_Inr project_state_validate_Inr split: if_splits)
    show ?thesis
    proof (cases r1)
      case (Inl e)
      from call l1 show ?thesis by (auto simp: create_project_state_def ok l Inl stays_def)
    next
      case (Inr v)
      show ?thesis
      proof (cases v)
        case None
        from call have put: "put_project s1 st = (r, s')" by (simp add: create_project_state_def ok l Inr None)
        from put_project_effect [OF _ vok(1) put] l1 Inr None vok show ?thesis by (auto simp: stays_def)
      next
        case (Some w)
        from call l1 show ?thesis by (auto simp: create_project_state_def ok l Inr Some stays_def)
      qed
    qed
  qed
qed

lemma update_project_state_effect:
  assumes inv: "store_inv s" and call: "update_project_state s n st = (r, s')"
  shows "(\<exists>e. r = Inl e) \<and> stays s s'
    \<or> (\<exists>m old. store_inv s' \<and> conversation_view s' = conversation_view s \<and> ok_project_state st \<and> pst_revision st = n
      \<and> checked_succ n = Some m \<and> project_view s (pst_project_id st) = Some old \<and> pst_revision old = n
      \<and> project_view s' = (project_view s)(pst_project_id st \<mapsto> st\<lparr>pst_revision := m\<rparr>)
      \<and> ((\<exists>e. r = Inl e) \<or> r = Inr (st\<lparr>pst_revision := m\<rparr>)))"
proof -
  let ?g = "rbind (project_state_validate st) (\<lambda>_. if pst_revision st \<noteq> n
      then Inl (persistence_error ''project_state_expected_revision_mismatch'') else Inr ())"
  obtain r1 s1 where l: "load_project_state s (pst_project_id st) = (r1, s1)" by fastforce
  note l1 = load_project_state_cases [OF inv l]
  show ?thesis
  proof (cases ?g)
    case (Inl e)
    from call inv show ?thesis by (auto simp: update_project_state_def Inl stays_def)
  next
    case ok: (Inr u)
    then have vok: "ok_project_state st" "pst_revision st = n"
      by (auto simp: rbind_eq_Inr project_state_validate_Inr split: if_splits)
    show ?thesis
    proof (cases "\<exists>old m. r1 = Inr (Some old) \<and> pst_revision old = n \<and> checked_succ n = Some m")
      case False
      then have "(\<exists>e. r = Inl e) \<and> s' = s1"
        using call by (auto simp: update_project_state_def ok l split: sum.split_asm option.split_asm if_splits)
      with l1 show ?thesis by (auto simp: stays_def)
    next
      case True
      then obtain old m where o: "r1 = Inr (Some old)" "pst_revision old = n" "checked_succ n = Some m"
        by blast
      obtain r2 s2 where put: "put_project s1 (st\<lparr>pst_revision := m\<rparr>) = (r2, s2)" by fastforce
      have r: "s' = s2 \<and> (case r2 of Inl e \<Rightarrow> r = Inl e | Inr _ \<Rightarrow> r = Inr (st\<lparr>pst_revision := m\<rparr>))"
        using call by (cases r2) (auto simp: update_project_state_def ok l o put Let_def)
      have s1: "store_inv s1" "project_view s1 = project_view s" "conversation_view s1 = conversation_view s"
        and v: "project_view s (pst_project_id st) = Some old"
        using l1 o(1) by auto
      have "ok_project_state (st\<lparr>pst_revision := m\<rparr>)" using vok(1) by simp
      from put_project_effect [OF s1(1) this put] s1 v o(2,3) vok r show ?thesis
        by (cases r2) (auto simp: stays_def)
    qed
  qed
qed

lemma create_conversation_effect:
  assumes inv: "store_inv s" and call: "create_conversation s st = (r, s')"
  shows "(\<exists>e. r = Inl e) \<and> stays s s'
    \<or> store_inv s' \<and> project_view s' = project_view s \<and> ok_conversation st \<and> cv_revision st = 0
      \<and> conversation_view s ((cv_project_id st, cv_conversation_id st)) = None
      \<and> conversation_view s' = (conversation_view s)((cv_project_id st, cv_conversation_id st) \<mapsto> st)"
proof -
  let ?g = "rbind (conversation_validate st) (\<lambda>_. if cv_revision st \<noteq> 0
      then Inl (persistence_error ''conversation_create_revision_invalid'') else Inr ())"
  obtain r1 s1 where l: "load_conversation s (cv_project_id st, cv_conversation_id st) = (r1, s1)" by fastforce
  note l1 = load_conversation_cases [OF inv l]
  show ?thesis
  proof (cases ?g)
    case (Inl e)
    from call inv show ?thesis by (auto simp: create_conversation_def Inl stays_def)
  next
    case ok: (Inr u)
    then have vok: "ok_conversation st" "cv_revision st = 0"
      by (auto simp: rbind_eq_Inr conversation_validate_Inr split: if_splits)
    show ?thesis
    proof (cases r1)
      case (Inl e)
      from call l1 show ?thesis by (auto simp: create_conversation_def ok l Inl stays_def)
    next
      case (Inr v)
      show ?thesis
      proof (cases v)
        case None
        obtain r2 s2 where q: "list_conversation_ids s1 (cv_project_id st)
            MAX_PERSISTED_CONVERSATIONS_PER_PROJECT = (r2, s2)" by fastforce
        have s2: "store_inv s2" "project_view s2 = project_view s" "conversation_view s2 = conversation_view s"
          using list_conversation_ids_keeps [OF q] l1 by auto
        show ?thesis
        proof (cases "\<exists>ids. r2 = Inr ids \<and> length ids < MAX_PERSISTED_CONVERSATIONS_PER_PROJECT")
          case True
          with call have put: "put_conversation s2 st = (r, s')"
            by (auto simp: create_conversation_def ok l Inr None q)
          from put_conversation_effect [OF s2(1) vok(1) put] s2 l1 Inr None vok show ?thesis
            by (auto simp: stays_def)
        next
          case False
          then have "(\<exists>e. r = Inl e) \<and> s' = s2"
            using call by (cases r2) (auto simp: create_conversation_def ok l Inr None q split: if_splits)
          with s2 show ?thesis by (auto simp: stays_def)
        qed
      next
        case (Some w)
        from call l1 show ?thesis by (auto simp: create_conversation_def ok l Inr Some stays_def)
      qed
    qed
  qed
qed

lemma put_conversation_failed:
  assumes "store_inv s" and "put_conversation s c = (Inl e, s')"
  shows "conversation_view s' = conversation_view s \<or> e = file_error ConversationFile ''parent_sync_failed''"
proof -
  have U: "uuid_ok (ls_uuid s)" using assms(1) by (simp add: store_inv_def)
  obtain dir where save: "save_conversation (ls_codec s) (ls_uuid s) (now_io s) (ls_conversations s) c = (Inl e, dir)"
    and s': "s' = (tick s)\<lparr>ls_conversations := dir\<rparr>"
    using assms(2) by (auto simp: put_conversation_def split: prod.splits)
  show ?thesis
  proof (cases "sc_encode_conversation (ls_codec s) c")
    case None
    with save show ?thesis by (auto simp: save_conversation_def s' conversation_view_def)
  next
    case (Some b)
    with save have "write_state_file ConversationFile (ls_uuid s) (now_io s) (ls_conversations s)
        (Utf8Path (conversation_file_name (ls_uuid s) (cv_project_id c) (cv_conversation_id c))) b = (Inl e, dir)"
      by (simp add: save_conversation_def)
    from write_state_file_failed [OF this] show ?thesis
      using temp_name_neq(2) [OF U]
      by (auto simp: s' conversation_view_def conversations_in_def fun_eq_iff stored_file_other)
  qed
qed

lemma update_conversation_failed:
  assumes inv: "store_inv s" and call: "update_conversation s n c = (Inl e, s')"
  shows "conversation_view s' = conversation_view s \<or> e = file_error ConversationFile ''parent_sync_failed''"
proof -
  let ?k = "(cv_project_id c, cv_conversation_id c)"
  obtain r1 s1 where l: "load_conversation s ?k = (r1, s1)" by fastforce
  note l1 = load_conversation_cases [OF inv l]
  then have s1: "store_inv s1" "conversation_view s1 = conversation_view s" by auto
  have "s' = s \<or> s' = s1 \<or> (\<exists>m. put_conversation s1 (c\<lparr>cv_revision := m\<rparr>) = (Inl e, s'))"
    using call l by (auto simp: update_conversation_def Let_def split: sum.split_asm option.split_asm if_splits prod.split_asm)
  with s1 put_conversation_failed [OF s1(1)] show ?thesis by auto
qed

lemma update_conversation_effect:
  assumes inv: "store_inv s" and call: "update_conversation s n st = (r, s')"
  shows "(\<exists>e. r = Inl e) \<and> stays s s'
    \<or> (\<exists>m old. store_inv s' \<and> project_view s' = project_view s \<and> ok_conversation st \<and> cv_revision st = n
      \<and> checked_succ n = Some m \<and> conversation_view s ((cv_project_id st, cv_conversation_id st)) = Some old \<and> cv_revision old = n
      \<and> conversation_view s' = (conversation_view s)((cv_project_id st, cv_conversation_id st) \<mapsto> st\<lparr>cv_revision := m\<rparr>)
      \<and> ((\<exists>e. r = Inl e) \<or> r = Inr (st\<lparr>cv_revision := m\<rparr>)))"
proof -
  let ?g = "rbind (conversation_validate st) (\<lambda>_. if cv_revision st \<noteq> n
      then Inl (persistence_error ''conversation_expected_revision_mismatch'') else Inr ())"
  obtain r1 s1 where l: "load_conversation s (cv_project_id st, cv_conversation_id st) = (r1, s1)" by fastforce
  note l1 = load_conversation_cases [OF inv l]
  show ?thesis
  proof (cases ?g)
    case (Inl e)
    from call inv show ?thesis by (auto simp: update_conversation_def Inl stays_def)
  next
    case ok: (Inr u)
    then have vok: "ok_conversation st" "cv_revision st = n"
      by (auto simp: rbind_eq_Inr conversation_validate_Inr split: if_splits)
    show ?thesis
    proof (cases "\<exists>old m. r1 = Inr (Some old) \<and> cv_revision old = n \<and> checked_succ n = Some m")
      case False
      then have "(\<exists>e. r = Inl e) \<and> s' = s1"
        using call by (auto simp: update_conversation_def ok l split: sum.split_asm option.split_asm if_splits)
      with l1 show ?thesis by (auto simp: stays_def)
    next
      case True
      then obtain old m where o: "r1 = Inr (Some old)" "cv_revision old = n" "checked_succ n = Some m"
        by blast
      obtain r2 s2 where put: "put_conversation s1 (st\<lparr>cv_revision := m\<rparr>) = (r2, s2)" by fastforce
      have r: "s' = s2 \<and> (case r2 of Inl e \<Rightarrow> r = Inl e | Inr _ \<Rightarrow> r = Inr (st\<lparr>cv_revision := m\<rparr>))"
        using call by (cases r2) (auto simp: update_conversation_def ok l o put Let_def)
      have s1: "store_inv s1" "project_view s1 = project_view s" "conversation_view s1 = conversation_view s"
        and v: "conversation_view s ((cv_project_id st, cv_conversation_id st)) = Some old"
        using l1 o(1) by auto
      have "ok_conversation (st\<lparr>cv_revision := m\<rparr>)" using vok(1) by simp
      from put_conversation_effect [OF s1(1) this put] s1 v o(2,3) vok r show ?thesis
        by (cases r2) (auto simp: stays_def)
    qed
  qed
qed

lemma remove_project_state_effect:
  assumes "store_inv s" and "remove_project_state s pid = (r, s')"
  shows "store_inv s' \<and> conversation_view s' = conversation_view s
    \<and> (project_view s' = (project_view s)(pid := None) \<or> (\<exists>e. r = Inl e) \<and> project_view s' = project_view s)"
proof (cases "ls_poisoned s")
  case True
  with assms show ?thesis by (auto simp: remove_project_state_def lock_gate_def)
next
  case False
  let ?name = "Utf8Path (state_file_name (ls_uuid s) pid)"
  have U: "uuid_ok (ls_uuid s)" using assms(1) by (simp add: store_inv_def)
  obtain dir where d: "remove_state_file ProjectFile (now_io s) (ls_projects s) ?name = (r, dir)"
    and s': "s' = (tick s)\<lparr>ls_projects := dir\<rparr>"
    using assms(2) False by (auto simp: remove_project_state_def lock_gate_def split: prod.splits)
  have view: "project_view s' = projects_in (ls_codec s) (ls_uuid s) dir"
    "conversation_view s' = conversation_view s"
    by (simp_all add: s' project_view_def conversation_view_def)
  from remove_state_file_effect [OF d] show ?thesis
  proof (elim disjE conjE)
    assume d: "dir = ls_projects s" "r = Inr () \<longrightarrow> map_of (ls_projects s) ?name = None"
    have "project_view s' = (project_view s)(pid := None)" if "r = Inr ()"
      using that d by (auto simp: view project_view_def [of s] projects_in_def stored_file_def fun_eq_iff)
    moreover have "project_view s' = project_view s" by (simp add: view d project_view_def [of s])
    ultimately show ?thesis using assms(1) d
      by (cases r) (auto simp: s' store_inv_def project_view_def conversation_view_def)
  next
    assume "dir = filter (\<lambda>e. fst e \<noteq> ?name) (ls_projects s)"
    then have "project_view s' = (project_view s)(pid := None)" "distinct (map fst dir)"
      using assms(1) state_file_name_inj [OF U]
      by (auto simp: view project_view_def [of s] projects_in_def stored_file_filter fun_eq_iff
          store_inv_def distinct_map_filter)
    then show ?thesis using assms(1) by (simp add: s' store_inv_def conversation_view_def)
  qed
qed

lemma remove_conversation_effect:
  assumes "store_inv s" and "remove_conversation s k = (r, s')"
  shows "store_inv s' \<and> project_view s' = project_view s
    \<and> (conversation_view s' = (conversation_view s)(k := None)
        \<or> (\<exists>e. r = Inl e) \<and> conversation_view s' = conversation_view s)"
proof (cases "ls_poisoned s")
  case True
  with assms show ?thesis by (auto simp: remove_conversation_def lock_gate_def)
next
  case False
  let ?name = "Utf8Path (conversation_file_name (ls_uuid s) (fst k) (snd k))"
  have U: "uuid_ok (ls_uuid s)" using assms(1) by (simp add: store_inv_def)
  obtain dir where d: "remove_state_file ConversationFile (now_io s) (ls_conversations s) ?name = (r, dir)"
    and s': "s' = (tick s)\<lparr>ls_conversations := dir\<rparr>"
    using assms(2) False by (auto simp: remove_conversation_def lock_gate_def split: prod.splits)
  have view: "conversation_view s' = conversations_in (ls_codec s) (ls_uuid s) dir"
    "project_view s' = project_view s"
    by (simp_all add: s' project_view_def conversation_view_def)
  from remove_state_file_effect [OF d] show ?thesis
  proof (elim disjE conjE)
    assume d: "dir = ls_conversations s" "r = Inr () \<longrightarrow> map_of (ls_conversations s) ?name = None"
    have "conversation_view s' = (conversation_view s)(k := None)" if "r = Inr ()"
      using that d by (auto simp: view conversation_view_def [of s] conversations_in_def stored_file_def fun_eq_iff)
    moreover have "conversation_view s' = conversation_view s" by (simp add: view d conversation_view_def [of s])
    ultimately show ?thesis using assms(1) d
      by (cases r) (auto simp: s' store_inv_def project_view_def conversation_view_def)
  next
    assume "dir = filter (\<lambda>e. fst e \<noteq> ?name) (ls_conversations s)"
    then have "conversation_view s' = (conversation_view s)(k := None)" "distinct (map fst dir)"
      using assms(1) conversation_file_name_inj [OF U]
      by (auto simp: view conversation_view_def [of s] conversations_in_def stored_file_filter fun_eq_iff
          store_inv_def distinct_map_filter prod_eq_iff)
    then show ?thesis using assms(1) by (simp add: s' store_inv_def project_view_def)
  qed
qed

lemma view_valid_project: "project_view s pid = Some st \<Longrightarrow> ok_project_state st \<and> pst_project_id st = pid"
  by (auto simp: project_view_def projects_in_def decode_project_state_def rbind_eq_Inr
      project_state_validate_Inr split: option.splits if_splits)

lemma view_valid_conversation:
  "conversation_view s k = Some c \<Longrightarrow> ok_conversation c \<and> (cv_project_id c, cv_conversation_id c) = k"
  by (auto simp: conversation_view_def conversations_in_def decode_conversation_def rbind_eq_Inr
      conversation_validate_Inr prod_eq_iff split: option.splits if_splits)

interpretation projects: versioned_store create_project_state update_project_state
  load_project_state remove_project_state store_inv project_view pst_project_id pst_revision
  "\<lambda>n st. st\<lparr>pst_revision := n\<rparr>" ok_project_state
proof (unfold_locales, goal_cases)
  case (4 s v)
  then show ?case using create_project_state_effect [OF 4, of v "fst (create_project_state s v)"
      "snd (create_project_state s v)"] by (auto simp: stays_def)
next
  case (5 s v s')
  then show ?case using create_project_state_effect by blast
next
  case (6 s v e s')
  then show ?case using create_project_state_effect [OF 6] by (auto simp: stays_def)
next
  case (7 s n v)
  then show ?case using update_project_state_effect [OF 7, of n v "fst (update_project_state s n v)"
      "snd (update_project_state s n v)"] by (auto simp: stays_def)
next
  case (8 s n v v' s')
  then show ?case using update_project_state_effect [OF 8] by auto
next
  case (9 s n v e s')
  then show ?case using update_project_state_effect [OF 9] by (auto simp: stays_def)
next
  case (10 s k)
  then show ?case using load_project_state_cases [OF 10, of k] by (metis prod.collapse)
next
  case (11 s k r s')
  then show ?case using load_project_state_cases by blast
next
  case (12 s k)
  then show ?case using remove_project_state_effect [OF 12, of k] by (metis prod.collapse)
next
  case (13 s k s')
  then show ?case using remove_project_state_effect by blast
next
  case (14 s k e s')
  then show ?case using remove_project_state_effect by blast
qed (use view_valid_project in auto)

section \<open>Listing\<close>

definition conversation_entry :: "uuid_names \<Rightarrow> project_id \<Rightarrow> path \<Rightarrow> conversation_id option" where
  "conversation_entry U pid name =
     (case to_str name of
        None \<Rightarrow> None
      | Some t \<Rightarrow> (case parse_conversation_file_name U t of
          Inl _ \<Rightarrow> None | Inr (p, c) \<Rightarrow> if p = pid then Some c else None))"

definition listed :: "uuid_names \<Rightarrow> project_id \<Rightarrow> state_dir \<Rightarrow> conversation_id list" where
  "listed U pid dir = List.map_filter (\<lambda>e. conversation_entry U pid (fst e))
     (filter (\<lambda>e. \<not> starts_with (path_units (fst e)) CONVERSATION_TEMP_PREFIX) dir)"

lemma listed_Cons:
  "listed U pid ((name, f) # dir) =
     (if starts_with (path_units name) CONVERSATION_TEMP_PREFIX then listed U pid dir
      else case conversation_entry U pid name of None \<Rightarrow> listed U pid dir | Some c \<Rightarrow> c # listed U pid dir)"
  by (simp add: listed_def map_filter_simps split: option.splits)

lemma listed_Nil [simp]: "listed U pid [] = []"
  by (simp add: listed_def map_filter_simps)

lemma scan_conversation_dir_Inr:
  "scan_conversation_dir U io pid n seen ids dir = Inr r \<Longrightarrow> length ids \<le> n \<Longrightarrow>
     r = ids @ listed U pid dir \<and> length r \<le> n"
proof (induction dir arbitrary: seen ids)
  case (Cons e dir)
  obtain name f where e: "e = (name, f)" by (cases e)
  show ?case
  proof (cases "starts_with (path_units name) CONVERSATION_TEMP_PREFIX")
    case True
    with Cons.prems have "scan_conversation_dir U io pid n (seen + 1) ids dir = Inr r"
      by (simp add: e split: if_splits)
    from Cons.IH [OF this Cons.prems(2)] True show ?thesis by (auto simp: e listed_Cons)
  next
    case False
    with Cons.prems obtain t p c where t: "to_str name = Some t"
        "parse_conversation_file_name U t = Inr (p, c)"
      and rest: "if p = pid then length ids < n
            \<and> scan_conversation_dir U io pid n (seen + 1) (ids @ [c]) dir = Inr r
          else scan_conversation_dir U io pid n (seen + 1) ids dir = Inr r"
      by (auto simp: e rbind_eq_Inr split: if_splits)
    show ?thesis
    proof (cases "p = pid")
      case True
      with rest Cons.IH [of "seen + 1" "ids @ [c]"] t False show ?thesis
        by (auto simp: e listed_Cons conversation_entry_def)
    next
      case other: False
      with rest Cons.IH [of "seen + 1" ids] Cons.prems(2) t False show ?thesis
        by (auto simp: e listed_Cons conversation_entry_def)
    qed
  qed
qed (simp split: if_splits)

lemma conversation_entry_Some:
  assumes "uuid_ok U"
  shows "conversation_entry U pid name = Some c \<longleftrightarrow> name = Utf8Path (conversation_file_name U pid c)"
proof
  assume "conversation_entry U pid name = Some c"
  then obtain t where "to_str name = Some t" "parse_conversation_file_name U t = Inr (pid, c)"
    by (auto simp: conversation_entry_def split: option.splits sum.splits if_splits)
  then show "name = Utf8Path (conversation_file_name U pid c)"
    by (cases name) (auto simp: to_str_def conversation_name_roundtrip [OF assms])
next
  assume n: "name = Utf8Path (conversation_file_name U pid c)"
  have "parse_conversation_file_name U (conversation_file_name U pid c) = Inr (pid, c)"
    by (simp add: conversation_name_roundtrip [OF assms])
  then show "conversation_entry U pid name = Some c" by (simp add: n conversation_entry_def to_str_def)
qed

lemma set_listed:
  assumes "uuid_ok U"
  shows "c \<in> set (listed U pid dir) \<longleftrightarrow> Utf8Path (conversation_file_name U pid c) \<in> fst ` set dir"
proof (induction dir)
  case (Cons e dir)
  have "\<not> starts_with (conversation_file_name U pid c) CONVERSATION_TEMP_PREFIX"
    using not_temp_name(2) [OF assms, of pid c ConversationFile "[]"] by (simp add: temp_prefix_def)
  moreover have "conversation_entry U pid (fst e) = Some c
      \<longleftrightarrow> fst e = Utf8Path (conversation_file_name U pid c)"
    by (rule conversation_entry_Some [OF assms])
  ultimately show ?case using Cons
    by (cases e; cases "fst e = Utf8Path (conversation_file_name U pid c)")
       (auto simp: listed_Cons path_units_def split: option.splits)
qed simp

lemma distinct_listed:
  assumes "uuid_ok U" and "distinct (map fst dir)"
  shows "distinct (listed U pid dir)"
  using assms(2)
proof (induction dir)
  case (Cons e dir)
  then show ?case using set_listed [OF assms(1)] conversation_entry_Some [OF assms(1)]
    by (cases e) (auto simp: listed_Cons split: option.splits)
qed simp

lemma list_conversation_ids_Inr:
  assumes inv: "store_inv s" and call: "list_conversation_ids s pid n = (Inr ids, s')"
  shows "distinct ids" and "length ids \<le> n"
    and "sorted (map (\<lambda>c. ut_hyphenated (ls_uuid s) (uuid_of_conversation c)) ids)"
    and "set ids = {c. Utf8Path (conversation_file_name (ls_uuid s) pid c) \<in> fst ` set (ls_conversations s)}"
proof -
  let ?U = "ls_uuid s" and ?dir = "ls_conversations s"
  from inv have U: "uuid_ok ?U" and d: "distinct (map fst ?dir)" by (simp_all add: store_inv_def)
  obtain r where r: "scan_conversation_dir ?U (now_io s) pid n 0 [] ?dir = Inr r"
    "ids = sort_key (\<lambda>c. ut_hyphenated ?U (uuid_of_conversation c)) r"
    using call by (auto simp: list_conversation_ids_def list_conversation_files_ids_def rbind_eq_Inr
        split: if_splits sum.split_asm)
  from scan_conversation_dir_Inr [OF r(1)] have *: "r = listed ?U pid ?dir" "length r \<le> n" by auto
  show "distinct ids" "length ids \<le> n"
    "sorted (map (\<lambda>c. ut_hyphenated (ls_uuid s) (uuid_of_conversation c)) ids)"
    using *(2) distinct_listed [OF U d, of pid] by (simp_all add: r(2) flip: *(1))
  show "set ids = {c. Utf8Path (conversation_file_name (ls_uuid s) pid c) \<in> fst ` set (ls_conversations s)}"
    by (simp add: r(2) *(1) set_eq_iff set_listed [OF U])
qed

lemma view_file:
  assumes "conversation_view s (pid, c) \<noteq> None"
  shows "Utf8Path (conversation_file_name (ls_uuid s) pid c) \<in> fst ` set (ls_conversations s)"
proof -
  from assms obtain f where
      "map_of (ls_conversations s) (Utf8Path (conversation_file_name (ls_uuid s) pid c)) = Some f"
    by (auto simp: conversation_view_def conversations_in_def stored_file_def split: option.splits)
  then show ?thesis by (force dest: map_of_SomeD)
qed

interpretation conversations: conversation_store create_conversation update_conversation
  load_conversation remove_conversation store_inv conversation_view list_conversation_ids
proof (unfold_locales, goal_cases)
  case (4 s v)
  then show ?case using create_conversation_effect [OF 4, of v "fst (create_conversation s v)"
      "snd (create_conversation s v)"] by (auto simp: stays_def)
next
  case (5 s v s')
  then show ?case using create_conversation_effect by blast
next
  case (6 s v e s')
  then show ?case using create_conversation_effect [OF 6] by (auto simp: stays_def)
next
  case (7 s n v)
  then show ?case using update_conversation_effect [OF 7, of n v "fst (update_conversation s n v)"
      "snd (update_conversation s n v)"] by (auto simp: stays_def)
next
  case (8 s n v v' s')
  then show ?case using update_conversation_effect [OF 8] by auto
next
  case (9 s n v e s')
  then show ?case using update_conversation_effect [OF 9] by (auto simp: stays_def)
next
  case (10 s k)
  then show ?case using load_conversation_cases [OF 10, of k] by (metis prod.collapse)
next
  case (11 s k r s')
  then show ?case using load_conversation_cases by blast
next
  case (12 s k)
  then show ?case using remove_conversation_effect [OF 12, of k] by (metis prod.collapse)
next
  case (13 s k s')
  then show ?case using remove_conversation_effect by blast
next
  case (14 s k e s')
  then show ?case using remove_conversation_effect by blast
next
  case (15 s pid n)
  then show ?case using list_conversation_ids_keeps [of s pid n] by (metis prod.collapse store_inv_tick view_tick(2))
next
  case (16 s pid n ids s')
  then show ?case using list_conversation_ids_Inr [OF 16] view_file by auto
qed (use view_valid_conversation in auto)

section \<open>Histories\<close>

datatype conversation_op =
    CallCreateConversation persisted_conversation
  | CallUpdateConversation u64 persisted_conversation
  | CallLoadConversation "project_id \<times> conversation_id"
  | CallRemoveConversation "project_id \<times> conversation_id"

fun conversation_call :: "local_store \<Rightarrow> conversation_op \<Rightarrow> local_store" where
  "conversation_call s (CallCreateConversation c) = snd (create_conversation s c)"
| "conversation_call s (CallUpdateConversation n c) = snd (update_conversation s n c)"
| "conversation_call s (CallLoadConversation k) = snd (load_conversation s k)"
| "conversation_call s (CallRemoveConversation k) = snd (remove_conversation s k)"

definition conversation_calls :: "local_store \<Rightarrow> conversation_op list \<Rightarrow> local_store" where
  "conversation_calls s cs = foldl conversation_call s cs"

lemma conversation_calls_run:
  "CallRemoveConversation k \<notin> set cs \<Longrightarrow>
     run (conversations.store_step k) s (length cs) (conversation_calls s cs)"
proof (induction cs rule: rev_induct)
  case (snoc c cs)
  then have r: "run (conversations.store_step k) s (length cs) (conversation_calls s cs)"
    and "c \<noteq> CallRemoveConversation k" by auto
  then have "conversations.store_step k (conversation_calls s cs) (conversation_calls s (cs @ [c]))"
    by (cases c) (auto simp: conversation_calls_def conversations.store_step_def)
  with r show ?case by (auto intro: run.intros)
qed (simp add: conversation_calls_def run.intros)

text \<open>The abstract register: an update commits exactly when the stored revision is the expected one.\<close>

definition cas_update ::
    "(project_id \<times> conversation_id \<rightharpoonup> persisted_conversation) \<Rightarrow> u64 \<Rightarrow> persisted_conversation
      \<Rightarrow> (project_id \<times> conversation_id \<rightharpoonup> persisted_conversation) option" where
  "cas_update m n c =
     (case m (cv_project_id c, cv_conversation_id c) of
        None \<Rightarrow> None
      | Some old \<Rightarrow>
          if ok_conversation c \<and> cv_revision c = n \<and> cv_revision old = n
          then map_option (\<lambda>next_revision.
             m((cv_project_id c, cv_conversation_id c) \<mapsto> c\<lparr>cv_revision := next_revision\<rparr>))
             (checked_succ n)
          else None)"

section \<open>Properties\<close>

text \<open>C33: Saving a conversation refines an abstract compare-and-swap register, whatever system calls fail.
  A successful update is exactly one step of the register and returns what is now stored; a failed one
  leaves the register as it was or, only with the error that the final directory sync reports after the
  new file is in place, made that same step. No other file of the store changes its meaning.\<close>

theorem update_refines_register:
  assumes "store_inv s" and "update_conversation s n c = (r, s')"
  shows "store_inv s' \<and> project_view s' = project_view s
    \<and> (case r of
         Inl e \<Rightarrow> conversation_view s' = conversation_view s
           \<or> cas_update (conversation_view s) n c = Some (conversation_view s')
             \<and> e = file_error ConversationFile ''parent_sync_failed''
       | Inr c' \<Rightarrow> cas_update (conversation_view s) n c = Some (conversation_view s')
           \<and> conversation_view s' (cv_project_id c, cv_conversation_id c) = Some c')"
proof (cases r)
  case (Inl e)
  have "conversation_view s' = conversation_view s \<or> e = file_error ConversationFile ''parent_sync_failed''"
    by (rule update_conversation_failed [OF assms(1) assms(2) [unfolded Inl]])
  then show ?thesis using update_conversation_effect [OF assms] Inl by (auto simp: stays_def cas_update_def)
qed (use update_conversation_effect [OF assms] in \<open>auto simp: stays_def cas_update_def\<close>)

text \<open>Two writers cannot both win. After an update from some revision succeeded, no later update of
  the same conversation from the same revision succeeds, whatever calls come in between and whatever
  system calls fail, unless the conversation was removed.\<close>

theorem stale_update_rejected:
  assumes "store_inv s" and "update_conversation s n c = (Inr c', s')"
    and "CallRemoveConversation (cv_project_id c, cv_conversation_id c) \<notin> set calls"
    and "cv_project_id d = cv_project_id c" and "cv_conversation_id d = cv_conversation_id c"
  shows "\<not> is_ok (fst (update_conversation (conversation_calls s' calls) n d))"
  using conversations.cas_exclusive [OF assms(1,2) conversation_calls_run [OF assms(3)], of d] assms(4,5)
  by (cases "fst (update_conversation (conversation_calls s' calls) n d)") auto

text \<open>The listing of a project's conversations is exact: it names every conversation that has a file
  in the directory and no other, once each, in the order of their ids.\<close>

theorem conversation_listing_exact:
  assumes "store_inv s" and "list_conversation_ids s pid n = (Inr ids, s')"
  shows "set ids = {c. Utf8Path (conversation_file_name (ls_uuid s) pid c) \<in> fst ` set (ls_conversations s)}
    \<and> distinct ids \<and> sorted (map (\<lambda>c. ut_hyphenated (ls_uuid s) (uuid_of_conversation c)) ids)
    \<and> {c. conversation_view s (pid, c) \<noteq> None} \<subseteq> set ids"
  using list_conversation_ids_Inr [OF assms] view_file by auto

text \<open>Conversation file names and ids correspond one to one: a name is accepted for a project and a
  conversation exactly if it is the name the store writes for them.\<close>

theorem conversation_file_name_roundtrip:
  assumes "uuid_ok U"
  shows "parse_conversation_file_name U name = Inr (p, c) \<longleftrightarrow> name = conversation_file_name U p c"
  by (rule conversation_name_roundtrip [OF assms])

section \<open>Concrete instances\<close>

definition demo_uuid_names :: uuid_names where
  "demo_uuid_names =
     \<lparr>ut_parse_str = (\<lambda>s. if length s = 128 \<and> set s \<subseteq> {48, 49}
        then Some (horner_sum of_bool 2 (map (\<lambda>c. c = 49) s)) else None),
      ut_hyphenated = (\<lambda>u. map (\<lambda>i. if bit u i then 49 else 48) [0..<128]),
      ut_simple = (\<lambda>u. map (\<lambda>i. if bit u i then 49 else 48) [0..<128])\<rparr>"

lemma demo_uuid_ok: "uuid_ok demo_uuid_names"
proof -
  let ?h = "ut_hyphenated demo_uuid_names"
  have h: "?h u = map (\<lambda>i. if bit u i then 49 else 48) [0..<128]" for u
    by (simp add: demo_uuid_names_def)
  have chars: "set (?h u) \<subseteq> {48, 49}" for u by (auto simp: h)
  have ne: "?h u \<noteq> []" for u by (simp add: h)
  have bits: "map (\<lambda>c. c = 49) (?h u) = map (bit u) [0..<128]" for u by (simp add: h)
  have len: "length (?h u) = 128" for u by (simp add: h)
  have "ut_parse_str demo_uuid_names s = (if length s = 128 \<and> set s \<subseteq> {48, 49}
      then Some (horner_sum of_bool 2 (map (\<lambda>c. c = 49) s)) else None)" for s
    by (simp add: demo_uuid_names_def)
  then have parse: "ut_parse_str demo_uuid_names (?h u) = Some u" for u
    using chars [of u] len [of u]
    by (simp add: bits horner_sum_bit_eq_take_bit take_bit_word_eq_self del: set_map)
  have sep: "\<not> contains_str (?h u) name_separator" for u
  proof
    assume "contains_str (?h u) name_separator"
    then have "45 \<in> set (?h u)" by (auto simp: contains_str_iff name_separator_def lit_def)
    with chars [of u] show False by auto
  qed
  have "hd (?h u) \<noteq> 45" "last (?h u) \<noteq> 45" for u
    using chars [of u] ne [of u] hd_in_set [OF ne] last_in_set [OF ne] by fastforce+
  moreover have "list_all uuid_char (?h u)" for u
    using chars [of u] by (auto simp: list_all_iff uuid_char_def is_ascii_digit_def)
  ultimately show ?thesis using parse sep ne by (simp add: uuid_ok_def)
qed

definition demo_conversation :: persisted_conversation where
  "demo_conversation =
     (pending_creation (ConversationId 2) (ProjectId 1))
       \<lparr>cv_session_creation_pending := False,
        cv_agent_session := Some \<lparr>as_runtime_id = lit ''jcode-harness'',
          as_session_id = SessionId (lit ''safe-session''), as_preferred_model = None\<rparr>\<rparr>"

definition demo_codec :: store_codec where
  "demo_codec =
     \<lparr>sc_encode_project = (\<lambda>_. None), sc_decode_project = (\<lambda>_. None),
      sc_encode_conversation = (\<lambda>c. if c = demo_conversation then Some [1]
         else if c = demo_conversation\<lparr>cv_revision := 1\<rparr> then Some [2] else None),
      sc_decode_conversation = (\<lambda>b. if b = [1] then Some demo_conversation
         else if b = [2] then Some (demo_conversation\<lparr>cv_revision := 1\<rparr>) else None)\<rparr>"

definition demo_stat :: file_stat where
  "demo_stat = \<lparr>st_regular = True, st_nlink = 1, st_owned = True, st_mode = 0x180\<rparr>"

definition demo_io :: io_outcome where
  "demo_io = \<lparr>io_fails = (\<lambda>_. False), io_written = 0, io_created_stat = demo_stat, io_temp_id = 7\<rparr>"

definition demo_store :: local_store where
  "demo_store =
     \<lparr>ls_codec = demo_codec, ls_uuid = demo_uuid_names, ls_poisoned = False, ls_projects = [],
      ls_conversations =
        [(Utf8Path (conversation_file_name demo_uuid_names (ProjectId 1) (ConversationId 2)),
          \<lparr>sf_stat = demo_stat, sf_bytes = [1]\<rparr>)],
      ls_io = (\<lambda>_. demo_io), ls_tick = 0\<rparr>"

lemma demo_store_inv: "store_inv demo_store"
  by (simp add: store_inv_def demo_store_def demo_uuid_ok codec_ok_def demo_codec_def)

lemma demo_update:
  "fst (update_conversation demo_store 0 demo_conversation) = Inr (demo_conversation\<lparr>cv_revision := 1\<rparr>)"
proof -
  have ok: "conversation_validate demo_conversation = Inr ()" by code_simp
  have st: "private_regular demo_stat" by code_simp
  have ids: "cv_project_id demo_conversation = ProjectId 1"
    "cv_conversation_id demo_conversation = ConversationId 2" "cv_revision demo_conversation = 0"
    by (simp_all add: demo_conversation_def pending_creation_def)
  have ne: "demo_conversation\<lparr>cv_revision := 1\<rparr> \<noteq> demo_conversation"
    using ids(3) by (metis persisted_conversation.select_convs(2) persisted_conversation.surjective
        persisted_conversation.update_convs(2) zero_neq_one)
  have load: "load_conversation demo_store (ProjectId 1, ConversationId 2)
      = (Inr (Some demo_conversation), tick demo_store)"
    using ok st ids
    by (simp add: load_conversation_def lock_gate_def load_conversation_file_def read_state_file_def
        open_state_root_def open_directory_path_nofollow_def open_directory_at_def now_io_def verify_private_regular_stat_def
        inspect_state_for_read_def fstatat_nofollow_optional_def decode_conversation_def
        demo_store_def demo_codec_def demo_io_def max_file_bytes_def
        MAX_PERSISTED_CONVERSATION_BYTES_def)
  have nt: "temp_prefix ConversationFile @ ut_simple demo_uuid_names 7
      \<noteq> conversation_file_name demo_uuid_names (ProjectId 1) (ConversationId 2)"
    using temp_name_neq(2) [OF demo_uuid_ok] by (metis path.inject(1))
  have put: "fst (put_conversation (tick demo_store) (demo_conversation\<lparr>cv_revision := 1\<rparr>)) = Inr ()"
    using st ids ne nt
    by (simp add: put_conversation_def save_conversation_def write_state_file_def
        open_state_root_def open_directory_path_nofollow_def open_directory_at_def now_io_def verify_private_regular_stat_def
        inspect_existing_state_target_def fstatat_nofollow_optional_def Let_def tick_def
        demo_store_def demo_codec_def demo_io_def max_file_bytes_def
        MAX_PERSISTED_CONVERSATION_BYTES_def split: prod.splits)
  have succ: "checked_succ (0 :: u64) = Some 1" by code_simp
  from put obtain s2 where "put_conversation (tick demo_store) (demo_conversation\<lparr>cv_revision := 1\<rparr>)
      = (Inr (), s2)" by (metis prod.collapse)
  then show ?thesis by (simp add: update_conversation_def ok ids load succ Let_def)
qed

theorem update_refines_register_witness:
  "\<exists>s'. store_inv s' \<and> conversation_view s' (ProjectId 1, ConversationId 2)
     = Some (demo_conversation\<lparr>cv_revision := 1\<rparr>)"
proof -
  have ids: "cv_project_id demo_conversation = ProjectId 1"
    "cv_conversation_id demo_conversation = ConversationId 2"
    by (simp_all add: demo_conversation_def pending_creation_def)
  have "update_conversation demo_store 0 demo_conversation
      = (Inr (demo_conversation\<lparr>cv_revision := 1\<rparr>), snd (update_conversation demo_store 0 demo_conversation))"
    using demo_update by (simp add: prod_eq_iff)
  from update_refines_register [OF demo_store_inv this] show ?thesis by (auto simp: ids)
qed

theorem stale_update_rejected_witness:
  "\<not> is_ok (fst (update_conversation
     (conversation_calls (snd (update_conversation demo_store 0 demo_conversation)) []) 0 demo_conversation))"
proof -
  have "update_conversation demo_store 0 demo_conversation
      = (Inr (demo_conversation\<lparr>cv_revision := 1\<rparr>), snd (update_conversation demo_store 0 demo_conversation))"
    using demo_update by (simp add: prod_eq_iff)
  from stale_update_rejected [OF demo_store_inv this, of "[]" demo_conversation] show ?thesis by simp
qed

theorem conversation_listing_exact_witness:
  "\<exists>ids s'. list_conversation_ids demo_store (ProjectId 1) 16 = (Inr ids, s') \<and> distinct ids"
proof -
  let ?r = "list_conversation_ids demo_store (ProjectId 1) 16"
  let ?name = "conversation_file_name demo_uuid_names (ProjectId 1) (ConversationId 2)"
  have st: "private_regular demo_stat" by code_simp
  have "parse_conversation_file_name demo_uuid_names ?name = Inr (ProjectId 1, ConversationId 2)"
    by (simp add: conversation_name_roundtrip [OF demo_uuid_ok])
  moreover have "\<not> starts_with ?name CONVERSATION_TEMP_PREFIX"
    using not_temp_name(2) [OF demo_uuid_ok, of _ _ ConversationFile "[]"] by (simp add: temp_prefix_def)
  ultimately have "fst ?r = Inr [ConversationId 2]"
    using st
    by (simp add: list_conversation_ids_def list_conversation_files_ids_def lock_gate_def open_list_def
        open_state_root_def open_directory_path_nofollow_def open_directory_at_def now_io_def verify_private_regular_stat_def
        MAX_PERSISTED_CONVERSATIONS_PER_PROJECT_def MAX_STATE_DIRECTORY_ENTRIES_def
        demo_store_def demo_io_def path_units_def to_str_def)
  then have eq: "?r = (Inr [ConversationId 2], snd ?r)" by (simp add: prod_eq_iff)
  from conversation_listing_exact [OF demo_store_inv this] eq show ?thesis by blast
qed

theorem conversation_file_name_roundtrip_witness:
  "parse_conversation_file_name demo_uuid_names
     (conversation_file_name demo_uuid_names (ProjectId 1) (ConversationId 2))
     = Inr (ProjectId 1, ConversationId 2)"
  using conversation_file_name_roundtrip [OF demo_uuid_ok] by blast

end
