(* ===== verification/Json.thy ===== *)
theory Json
  imports Rust_Text
begin

text \<open>
  The JSON values of the \<open>serde_json\<close> crate, as far as the program looks at them. An object is the list
  of its entries in key order with distinct keys; numbers, which no modelled code looks into, keep
  their text. Parsing is a parameter of the operations that use it.
\<close>

datatype json =
    JNull | JBool bool | JNumber rstring | JString rstring | JArray "json list"
  | JObject "(rstring \<times> json) list"

definition as_str :: "json \<Rightarrow> rstring option" where
  "as_str v = (case v of JString s \<Rightarrow> Some s | _ \<Rightarrow> None)"

definition as_object :: "json \<Rightarrow> (rstring \<times> json) list option" where
  "as_object v = (case v of JObject es \<Rightarrow> Some es | _ \<Rightarrow> None)"

end
