(* ===== verification/Gateway_Omniroute.thy ===== *)
theory Gateway_Omniroute
  imports Routing Json
begin

text \<open>
  The OmniRoute gateway adapter of \<open>crates/vibecoder-gateway-omniroute\<close>: interpretation of the model
  catalog, of the runtime profile attestation and of a chat completion, the bearer-token check, and
  the gateway's health, model list and execution profile.

  The HTTP exchange belongs to \<open>reqwest\<close>: what a request returned (a status, a content type and a
  bounded body, or a transport error) is an argument. Decoding a JSON body into one of the adapter's
  structures belongs to \<open>serde\<close>: the decoders are parameters, the structures are modelled.
\<close>

section \<open>Model\<close>

type_synonym u16 = "16 word"

record raw_gateway_response =
  rg_status :: u16
  rg_content_type :: "rstring option"
  rg_body :: "byte list"

definition gateway_error :: "string \<Rightarrow> vibecoder_error" where
  "gateway_error code = Gateway code"

subsection \<open>Authentication\<close>

definition MAX_BEARER_TOKEN_BYTES :: nat where "MAX_BEARER_TOKEN_BYTES = 8192"

definition is_ascii_graphic :: "rchar \<Rightarrow> bool" where
  "is_ascii_graphic c \<longleftrightarrow> 33 \<le> c \<and> c \<le> 126"

definition validate_bearer_token :: "rstring \<Rightarrow> unit result" where
  "validate_bearer_token token =
     (if token = [] \<or> byte_len token > MAX_BEARER_TOKEN_BYTES \<or> trim token \<noteq> token
         \<or> \<not> list_all is_ascii_graphic token
      then Inl (InvalidRequest ''OmniRoute bearer token has an invalid HTTP credential shape'')
      else Inr ())"

definition bearer_token :: "gateway_credential \<Rightarrow> rstring option result" where
  "bearer_token auth =
     (case auth of
        Anonymous \<Rightarrow> Inr None
      | SecretCredential token \<Rightarrow> rbind (validate_bearer_token token) (\<lambda>_. Inr (Some token)))"

subsection \<open>The model catalog\<close>

definition MAX_CATALOG_ENTRIES :: nat where "MAX_CATALOG_ENTRIES = 20000"
definition CATALOG_MAX_MODEL_ID_BYTES :: nat where "CATALOG_MAX_MODEL_ID_BYTES = 512"
definition MAX_DISPLAY_NAME_BYTES :: nat where "MAX_DISPLAY_NAME_BYTES = 512"
definition CATALOG_MAX_PROVIDER_BYTES :: nat where "CATALOG_MAX_PROVIDER_BYTES = 256"
definition MAX_TYPE_BYTES :: nat where "MAX_TYPE_BYTES = 64"
definition MAX_ENDPOINTS_PER_MODEL :: nat where "MAX_ENDPOINTS_PER_MODEL = 32"
definition MAX_ENDPOINT_NAME_BYTES :: nat where "MAX_ENDPOINT_NAME_BYTES = 64"

record catalog_entry =
  ce_id :: rstring
  ce_object :: "rstring option"
  ce_owned_by :: "rstring option"
  ce_name :: "rstring option"
  ce_model_type :: "rstring option"
  ce_supported_endpoints :: "rstring list option"

record catalog_envelope =
  cv_object :: rstring
  cv_data :: "catalog_entry list"

definition validate_bounded_text :: "rstring \<Rightarrow> nat \<Rightarrow> string \<Rightarrow> unit result" where
  "validate_bounded_text value max_bytes code =
     (if value = [] \<or> byte_len value > max_bytes \<or> trim value \<noteq> value \<or> list_ex is_control value
      then Inl (gateway_error code) else Inr ())"

definition validate_catalog_classification :: "catalog_entry \<Rightarrow> unit result" where
  "validate_catalog_classification entry =
     rbind (case ce_model_type entry of
              None \<Rightarrow> Inr ()
            | Some t \<Rightarrow> validate_bounded_text t MAX_TYPE_BYTES ''invalid_model_type'')
       (\<lambda>_. case ce_supported_endpoints entry of
              None \<Rightarrow> Inr ()
            | Some endpoints \<Rightarrow>
                if length endpoints > MAX_ENDPOINTS_PER_MODEL
                then Inl (gateway_error ''too_many_model_endpoints'')
                else each (\<lambda>e. validate_bounded_text e MAX_ENDPOINT_NAME_BYTES
                                ''invalid_model_endpoint'') endpoints)"

definition validate_usable_catalog_entry :: "catalog_entry \<Rightarrow> unit result" where
  "validate_usable_catalog_entry entry =
     rbind (validate_bounded_text (ce_id entry) CATALOG_MAX_MODEL_ID_BYTES ''invalid_model_id'')
     (\<lambda>_. rbind (case ce_object entry of
              None \<Rightarrow> Inr ()
            | Some ob \<Rightarrow> ensure (ob = lit ''model'') (gateway_error ''invalid_model_object''))
     (\<lambda>_. rbind (case ce_owned_by entry of
              None \<Rightarrow> Inr ()
            | Some provider \<Rightarrow>
                validate_bounded_text provider CATALOG_MAX_PROVIDER_BYTES ''invalid_model_provider'')
     (\<lambda>_. case ce_name entry of
              None \<Rightarrow> Inr ()
            | Some name \<Rightarrow> validate_bounded_text name MAX_DISPLAY_NAME_BYTES ''invalid_model_name'')))"

definition usable_by_type :: "catalog_entry \<Rightarrow> bool" where
  "usable_by_type entry =
     (case ce_model_type entry of None \<Rightarrow> True | Some t \<Rightarrow> t = [] \<or> t = lit ''chat'')"

definition is_usable_chat_entry :: "catalog_entry \<Rightarrow> bool result" where
  "is_usable_chat_entry entry =
     (if ce_owned_by entry = Some (lit ''combo'') then Inr False
      else case ce_supported_endpoints entry of
        None \<Rightarrow> Inr (usable_by_type entry)
      | Some endpoints \<Rightarrow>
          rbind (each_fresh id (gateway_error ''duplicate_model_endpoint'') {} endpoints)
            (\<lambda>_. if list_ex (\<lambda>e. e = lit ''chat'' \<or> e = lit ''responses'') endpoints then Inr True
                 else if endpoints \<noteq> [] then Inr False
                 else Inr (usable_by_type entry)))"

definition model_of_entry :: "catalog_entry \<Rightarrow> model_ref" where
  "model_of_entry entry =
     \<lparr>mr_id = ce_id entry, mr_display_name = ce_name entry, mr_provider = ce_owned_by entry\<rparr>"

fun parse_entries :: "rstring list \<Rightarrow> catalog_entry list \<Rightarrow> model_ref list result" where
  "parse_entries seen [] = Inr []"
| "parse_entries seen (entry # entries) =
     rbind (validate_catalog_classification entry)
     (\<lambda>_. rbind (is_usable_chat_entry entry)
     (\<lambda>usable. if \<not> usable then parse_entries seen entries
        else rbind (validate_usable_catalog_entry entry)
     (\<lambda>_. if ce_id entry \<in> set seen then Inl (gateway_error ''duplicate_usable_model_id'')
          else rbind (parse_entries (ce_id entry # seen) entries)
     (\<lambda>ms. Inr (model_of_entry entry # ms)))))"

definition parse_catalog ::
    "(byte list \<Rightarrow> catalog_envelope option) \<Rightarrow> byte list \<Rightarrow> model_ref list result" where
  "parse_catalog D body =
     rbind (ok_or (D body) (gateway_error ''invalid_models_json''))
       (\<lambda>envelope.
          if cv_object envelope \<noteq> lit ''list'' then Inl (gateway_error ''invalid_models_envelope'')
          else if length (cv_data envelope) > MAX_CATALOG_ENTRIES
          then Inl (gateway_error ''too_many_models'')
          else parse_entries [] (cv_data envelope))"

definition is_json_content_type :: "rstring option \<Rightarrow> bool" where
  "is_json_content_type value =
     (case value of
        None \<Rightarrow> False
      | Some v \<Rightarrow>
          (let media_type = trim (hd (split_on 59 v))
           in to_ascii_lowercase media_type = lit ''application/json''
              \<or> (case strip_prefix (to_ascii_lowercase media_type) (lit ''application/'') of
                   None \<Rightarrow> False | Some rest \<Rightarrow> ends_with rest (lit ''+json''))))"

datatype catalog_interpretation =
    Models "model_ref list"
  | NotReady gateway_health_status string

definition not_ready_status :: "u16 \<Rightarrow> gateway_credential \<Rightarrow> gateway_health_status \<times> string" where
  "not_ready_status status credential =
     (if status = 401
      then (if is_anonymous credential then (AuthenticationRequired, ''authentication_required'')
            else (AuthenticationRejected, ''authentication_rejected''))
      else if status = 403 then (AccessDenied, ''catalog_access_denied'')
      else if status = 404 then (EndpointNotFound, ''models_endpoint_not_found'')
      else if status = 429 then (RateLimited, ''catalog_rate_limited'')
      else if 500 \<le> status \<and> status \<le> 599 then (Unavailable, ''gateway_server_error'')
      else (InvalidResponse, ''unexpected_models_status''))"

definition interpret_catalog_response ::
    "(byte list \<Rightarrow> catalog_envelope option) \<Rightarrow> raw_gateway_response \<Rightarrow> gateway_credential
      \<Rightarrow> catalog_interpretation result" where
  "interpret_catalog_response D response credential =
     (if rg_status response \<noteq> 200
      then (case not_ready_status (rg_status response) credential of (s, code) \<Rightarrow> Inr (NotReady s code))
      else if \<not> is_json_content_type (rg_content_type response)
      then Inr (NotReady InvalidResponse ''invalid_models_content_type'')
      else if rg_body response = [] then Inr (NotReady InvalidResponse ''empty_models_response'')
      else rbind (parse_catalog D (rg_body response))
        (\<lambda>models. if models = [] then Inr (NotReady NoUsableModels ''no_usable_chat_models'')
                  else Inr (Models models)))"

subsection \<open>The runtime profile\<close>

record runtime_profile_envelope =
  pe_schema :: u8
  pe_gateway_id :: rstring
  pe_upstream_version :: rstring
  pe_profile_id :: rstring
  pe_profile_sha256 :: rstring
  pe_exact_model_only :: bool
  pe_hidden_model_reroutes_disabled :: bool

definition profile_status_code :: "u16 \<Rightarrow> string" where
  "profile_status_code status =
     (if status = 401 then ''runtime_profile_authentication_rejected''
      else if status = 403 then ''runtime_profile_access_denied''
      else if status = 404 then ''runtime_profile_endpoint_not_found''
      else if status = 429 then ''runtime_profile_rate_limited''
      else if 500 \<le> status \<and> status \<le> 599 then ''runtime_profile_gateway_unavailable''
      else ''unexpected_runtime_profile_status'')"

definition interpret_runtime_profile_response ::
    "(byte list \<Rightarrow> runtime_profile_envelope option) \<Rightarrow> raw_gateway_response
      \<Rightarrow> gateway_execution_profile result" where
  "interpret_runtime_profile_response D response =
     (if rg_status response \<noteq> 200
      then Inl (gateway_error (profile_status_code (rg_status response)))
      else if \<not> is_json_content_type (rg_content_type response)
      then Inl (gateway_error ''invalid_runtime_profile_content_type'')
      else if rg_body response = []
      then Inl (gateway_error ''empty_runtime_profile_response'')
      else rbind (ok_or (D (rg_body response)) (gateway_error ''invalid_runtime_profile_json''))
        (\<lambda>p. if pe_schema p \<noteq> 1
                \<or> pe_gateway_id p \<noteq> VIBECODER_OMNIROUTE_GATEWAY_ID
                \<or> pe_upstream_version p \<noteq> VIBECODER_OMNIROUTE_UPSTREAM_VERSION
                \<or> pe_profile_id p \<noteq> VIBECODER_OMNIROUTE_PROFILE_ID
                \<or> pe_profile_sha256 p \<noteq> VIBECODER_OMNIROUTE_PROFILE_SHA256
                \<or> \<not> pe_exact_model_only p
                \<or> \<not> pe_hidden_model_reroutes_disabled p
             then Inl (gateway_error ''runtime_profile_attestation_mismatch'')
             else Inr \<lparr>gp_gateway_id = pe_gateway_id p, gp_upstream_version = pe_upstream_version p,
                       gp_profile_id = pe_profile_id p, gp_profile_sha256 = pe_profile_sha256 p,
                       gp_exact_model_only = pe_exact_model_only p,
                       gp_hidden_model_reroutes_disabled = pe_hidden_model_reroutes_disabled p\<rparr>))"

subsection \<open>Chat completion\<close>

definition MAX_MESSAGES :: nat where "MAX_MESSAGES = 64"
definition MAX_MESSAGE_BYTES :: nat where "MAX_MESSAGE_BYTES = 128 * 1024"
definition MAX_TOTAL_MESSAGE_BYTES :: nat where "MAX_TOTAL_MESSAGE_BYTES = 256 * 1024"
definition MAX_OUTPUT_TOKENS :: u32 where "MAX_OUTPUT_TOKENS = 8192"
definition MAX_FINISH_REASON_BYTES :: nat where "MAX_FINISH_REASON_BYTES = 64"
definition CHAT_MAX_MODEL_ID_BYTES :: nat where "CHAT_MAX_MODEL_ID_BYTES = 512"
definition CHAT_MAX_PROVIDER_BYTES :: nat where "CHAT_MAX_PROVIDER_BYTES = 256"

datatype gateway_chat_role = System | User | Assistant

record gateway_chat_message =
  cm_role :: gateway_chat_role
  cm_content :: rstring

record gateway_chat_request =
  cq_model :: model_ref
  cq_messages :: "gateway_chat_message list"
  cq_max_output_tokens :: u32

record gateway_chat_response =
  cr_requested_model_id :: rstring
  cr_observed_model_id :: "rstring option"
  cr_text :: rstring
  cr_finish_reason :: "rstring option"
  cr_usage :: "token_usage option"

definition validate_chat_text :: "rstring \<Rightarrow> nat \<Rightarrow> string \<Rightarrow> unit result" where
  "validate_chat_text value max_bytes code =
     (if value = [] \<or> byte_len value > max_bytes \<or> trim value \<noteq> value
         \<or> \<not> list_all is_ascii_graphic value
      then Inl (gateway_error code) else Inr ())"

text \<open>The message loop, with the running byte total and whether a user message was seen. The total
  is at most 256 KiB when the next message, of at most 128 KiB, is added, so the \<open>checked_add\<close> on it
  cannot fail.\<close>

fun validate_messages :: "nat \<Rightarrow> bool \<Rightarrow> gateway_chat_message list \<Rightarrow> bool result" where
  "validate_messages acc has_user [] = Inr has_user"
| "validate_messages acc has_user (message # messages) =
     (if cm_content message = [] \<or> byte_len (cm_content message) > MAX_MESSAGE_BYTES
         \<or> 0 \<in> set (cm_content message)
      then Inl (gateway_error ''invalid_inference_message_content'')
      else if acc + byte_len (cm_content message) > MAX_TOTAL_MESSAGE_BYTES
      then Inl (gateway_error ''inference_request_too_large'')
      else validate_messages (acc + byte_len (cm_content message))
             (has_user \<or> cm_role message = User) messages)"

definition validate_request :: "gateway_chat_request \<Rightarrow> unit result" where
  "validate_request request =
     rbind (validate_chat_text (mr_id (cq_model request)) CHAT_MAX_MODEL_ID_BYTES
              ''invalid_inference_model_id'')
     (\<lambda>_. rbind (case mr_provider (cq_model request) of
              None \<Rightarrow> Inr ()
            | Some provider \<Rightarrow>
                validate_chat_text provider CHAT_MAX_PROVIDER_BYTES ''invalid_inference_model_provider'')
     (\<lambda>_. if cq_messages request = [] \<or> length (cq_messages request) > MAX_MESSAGES
          then Inl (gateway_error ''invalid_inference_message_count'')
          else if cq_max_output_tokens request = 0 \<or> cq_max_output_tokens request > MAX_OUTPUT_TOKENS
          then Inl (gateway_error ''invalid_inference_max_output_tokens'')
          else rbind (validate_messages 0 False (cq_messages request))
     (\<lambda>has_user. ensure has_user (gateway_error ''inference_user_message_required''))))"

record openai_chat_message =
  om_role :: rstring
  om_content :: rstring

record openai_chat_request =
  oq_model :: rstring
  oq_messages :: "openai_chat_message list"
  oq_stream :: bool
  oq_max_tokens :: u32

definition role_name :: "gateway_chat_role \<Rightarrow> rstring" where
  "role_name r =
     (case r of System \<Rightarrow> lit ''system'' | User \<Rightarrow> lit ''user'' | Assistant \<Rightarrow> lit ''assistant'')"

definition build_wire_request :: "gateway_chat_request \<Rightarrow> openai_chat_request" where
  "build_wire_request request =
     \<lparr>oq_model = mr_id (cq_model request),
      oq_messages = map (\<lambda>m. \<lparr>om_role = role_name (cm_role m), om_content = cm_content m\<rparr>)
        (cq_messages request),
      oq_stream = False, oq_max_tokens = cq_max_output_tokens request\<rparr>"

record openai_assistant_message =
  oa_role :: "rstring option"
  oa_content :: "rstring option"
  oa_tool_calls :: "json option"
  oa_function_call :: "json option"

record openai_choice =
  oc_index :: nat
  oc_message :: openai_assistant_message
  oc_finish_reason :: "rstring option"

record openai_usage =
  ou_prompt_tokens :: "u64 option"
  ou_completion_tokens :: "u64 option"
  ou_cached_tokens :: "u64 option option"

record openai_chat_envelope =
  oe_model :: "rstring option"
  oe_choices :: "openai_choice list"
  oe_usage :: "openai_usage option"

definition nonempty_json_value :: "json \<Rightarrow> bool" where
  "nonempty_json_value v =
     (case v of JNull \<Rightarrow> False | JArray vs \<Rightarrow> vs \<noteq> [] | JObject es \<Rightarrow> es \<noteq> [] | _ \<Rightarrow> True)"

definition chat_status_code :: "u16 \<Rightarrow> gateway_credential \<Rightarrow> string" where
  "chat_status_code status credential =
     (if status = 400 \<or> status = 409 \<or> status = 413 \<or> status = 422 then ''inference_invalid_request''
      else if status = 401
      then (if is_anonymous credential then ''inference_authentication_required''
            else ''inference_authentication_rejected'')
      else if status = 403 then ''inference_access_denied''
      else if status = 404 then ''inference_model_or_endpoint_not_found''
      else if status = 408 then ''inference_timeout''
      else if status = 429 then ''inference_rate_limited''
      else if 500 \<le> status \<and> status \<le> 599 then ''inference_provider_unavailable''
      else ''unexpected_inference_status'')"

definition usage_of :: "openai_usage \<Rightarrow> token_usage" where
  "usage_of u =
     \<lparr>tu_input = (case ou_prompt_tokens u of None \<Rightarrow> 0 | Some n \<Rightarrow> n),
      tu_output = (case ou_completion_tokens u of None \<Rightarrow> 0 | Some n \<Rightarrow> n),
      tu_cache_read_input = (case ou_cached_tokens u of None \<Rightarrow> None | Some c \<Rightarrow> c)\<rparr>"

definition opt_nonempty :: "json option \<Rightarrow> bool" where
  "opt_nonempty v = (case v of None \<Rightarrow> False | Some j \<Rightarrow> nonempty_json_value j)"

definition interpret_choice ::
    "openai_chat_envelope \<Rightarrow> openai_choice \<Rightarrow> rstring \<Rightarrow> gateway_chat_response result" where
  "interpret_choice envelope choice requested_model_id =
     (if (case oa_role (oc_message choice) of None \<Rightarrow> False | Some r \<Rightarrow> r \<noteq> lit ''assistant'')
      then Inl (gateway_error ''invalid_inference_message_role'')
      else if opt_nonempty (oa_tool_calls (oc_message choice))
              \<or> opt_nonempty (oa_function_call (oc_message choice))
      then Inl (gateway_error ''inference_tool_call_not_allowed_part34_5'')
      else rbind (ok_or (oa_content (oc_message choice)) (gateway_error ''inference_text_missing''))
     (\<lambda>s. if s = [] then Inl (gateway_error ''inference_text_empty'')
      else rbind (case oc_finish_reason choice of
              None \<Rightarrow> Inr ()
            | Some reason \<Rightarrow> validate_chat_text reason MAX_FINISH_REASON_BYTES
                ''invalid_inference_finish_reason'')
     (\<lambda>_. rbind (case oe_model envelope of
              None \<Rightarrow> Inr ()
            | Some model \<Rightarrow> validate_chat_text model CHAT_MAX_MODEL_ID_BYTES
                ''invalid_inference_observed_model'')
     (\<lambda>_. Inr \<lparr>cr_requested_model_id = requested_model_id, cr_observed_model_id = oe_model envelope,
               cr_text = s, cr_finish_reason = oc_finish_reason choice,
               cr_usage = map_option usage_of (oe_usage envelope)\<rparr>))))"

definition interpret_chat_response ::
    "(byte list \<Rightarrow> openai_chat_envelope option) \<Rightarrow> raw_gateway_response \<Rightarrow> gateway_credential
      \<Rightarrow> rstring \<Rightarrow> gateway_chat_response result" where
  "interpret_chat_response D response credential requested_model_id =
     (if rg_status response \<noteq> 200
      then Inl (gateway_error (chat_status_code (rg_status response) credential))
      else if \<not> is_json_content_type (rg_content_type response)
      then Inl (gateway_error ''invalid_inference_content_type'')
      else if rg_body response = [] then Inl (gateway_error ''empty_inference_response'')
      else rbind (ok_or (D (rg_body response)) (gateway_error ''invalid_inference_json''))
        (\<lambda>envelope. case oe_choices envelope of
             [choice] \<Rightarrow>
               if oc_index choice \<noteq> 0 then Inl (gateway_error ''invalid_inference_choices'')
               else interpret_choice envelope choice requested_model_id
           | _ \<Rightarrow> Inl (gateway_error ''invalid_inference_choices'')))"

text \<open>\<open>execute_chat_completion\<close>: \<open>send\<close> is the transport, given the serialized request; \<open>ser\<close> is
  \<open>serde_json::to_vec\<close>.\<close>

definition execute_chat_completion ::
    "(openai_chat_request \<Rightarrow> byte list option) \<Rightarrow> (byte list \<Rightarrow> raw_gateway_response result)
      \<Rightarrow> (byte list \<Rightarrow> openai_chat_envelope option) \<Rightarrow> gateway_credential \<Rightarrow> gateway_chat_request
      \<Rightarrow> gateway_chat_response result" where
  "execute_chat_completion ser send D credential request =
     rbind (validate_request request)
     (\<lambda>_. rbind (ok_or (ser (build_wire_request request)) (gateway_error ''chat_request_json_failed''))
     (\<lambda>body. rbind (send body)
     (\<lambda>raw. interpret_chat_response D raw credential (mr_id (cq_model request)))))"

subsection \<open>The gateway\<close>

definition execution_profile ::
    "(byte list \<Rightarrow> runtime_profile_envelope option) \<Rightarrow> raw_gateway_response result
      \<Rightarrow> gateway_execution_profile result" where
  "execution_profile D fetched = rbind fetched (interpret_runtime_profile_response D)"

definition transport_health_status :: "string \<Rightarrow> gateway_health_status" where
  "transport_health_status code =
     (if code = ''response_too_large'' then InvalidResponse else Unavailable)"

definition unhealthy :: "gateway_health_status \<Rightarrow> string \<Rightarrow> gateway_health" where
  "unhealthy status code =
     \<lparr>gh_ready = False, gh_status = status, gh_usable_models = 0, gh_detail = Some (lit code)\<rparr>"

definition health ::
    "(byte list \<Rightarrow> catalog_envelope option) \<Rightarrow> raw_gateway_response result \<Rightarrow> gateway_credential
      \<Rightarrow> gateway_health result" where
  "health D fetched credential =
     (case fetched of
        Inl (Gateway code) \<Rightarrow> Inr (unhealthy (transport_health_status code) code)
      | Inl e \<Rightarrow> Inl e
      | Inr raw \<Rightarrow>
          (case interpret_catalog_response D raw credential of
             Inl (Gateway code) \<Rightarrow> Inr (unhealthy InvalidResponse code)
           | Inl e \<Rightarrow> Inl e
           | Inr (Models models) \<Rightarrow>
               Inr \<lparr>gh_ready = True, gh_status = Ready, gh_usable_models = length models,
                    gh_detail = None\<rparr>
           | Inr (NotReady status code) \<Rightarrow> Inr (unhealthy status code)))"

definition list_models ::
    "(byte list \<Rightarrow> catalog_envelope option) \<Rightarrow> raw_gateway_response result \<Rightarrow> gateway_credential
      \<Rightarrow> model_ref list result" where
  "list_models D fetched credential =
     rbind fetched (\<lambda>raw. rbind (interpret_catalog_response D raw credential)
       (\<lambda>i. case i of Models models \<Rightarrow> Inr models | NotReady _ code \<Rightarrow> Inl (Gateway code)))"

section \<open>Lemmas\<close>

lemma validate_bounded_text_Inr [simp]: "validate_bounded_text v n code = Inr u \<longleftrightarrow> ok_identity n v"
  by (auto simp: validate_bounded_text_def ok_identity_def list_ex_iff)

definition usable_entry :: "catalog_entry \<Rightarrow> bool" where
  "usable_entry e \<longleftrightarrow> is_usable_chat_entry e = Inr True"

text \<open>An entry that is usable and passes the usable-entry check gives a model the route resolver
  accepts.\<close>

lemma usable_entry_model:
  assumes "validate_usable_catalog_entry e = Inr u" and "is_usable_chat_entry e = Inr True"
  shows "ok_identity Routing.MAX_MODEL_ID_BYTES (mr_id (model_of_entry e))
    \<and> (\<forall>p. mr_provider (model_of_entry e) = Some p \<longrightarrow>
         ok_identity Routing.MAX_PROVIDER_BYTES p \<and> p \<noteq> lit ''combo'')"
  using assms
  by (auto simp: validate_usable_catalog_entry_def is_usable_chat_entry_def model_of_entry_def
      rbind_eq_Inr CATALOG_MAX_MODEL_ID_BYTES_def CATALOG_MAX_PROVIDER_BYTES_def
      Routing.MAX_MODEL_ID_BYTES_def Routing.MAX_PROVIDER_BYTES_def split: option.splits if_splits)

lemma parse_entries_Inr:
  assumes "parse_entries seen es = Inr ms"
  shows "ms = map model_of_entry (filter usable_entry es)
    \<and> distinct (map mr_id ms) \<and> (\<forall>m \<in> set ms. mr_id m \<notin> set seen)
    \<and> (\<forall>m \<in> set ms. ok_identity Routing.MAX_MODEL_ID_BYTES (mr_id m)
         \<and> (\<forall>p. mr_provider m = Some p \<longrightarrow> ok_identity Routing.MAX_PROVIDER_BYTES p \<and> p \<noteq> lit ''combo''))"
  using assms
proof (induction seen es arbitrary: ms rule: parse_entries.induct)
  case (2 seen e es)
  obtain usable where u: "is_usable_chat_entry e = Inr usable"
      and cl: "validate_catalog_classification e = Inr ()"
    using 2(3) by (auto simp: rbind_eq_Inr)
  show ?case
  proof (cases usable)
    case False
    then have p: "parse_entries seen es = Inr ms" using 2(3) u cl by simp
    have "\<not> usable_entry e" using u False by (simp add: usable_entry_def)
    then have eq: "filter usable_entry (e # es) = filter usable_entry es" by simp
    show ?thesis unfolding eq by (rule 2(1) [OF False p])
  next
    case True
    obtain ms' where v: "validate_usable_catalog_entry e = Inr ()" and fresh: "ce_id e \<notin> set seen"
        and rest: "parse_entries (ce_id e # seen) es = Inr ms'" and ms: "ms = model_of_entry e # ms'"
      using 2(3) u cl True by (auto simp: rbind_eq_Inr split: if_splits)
    have "ms' = map model_of_entry (filter usable_entry es)
      \<and> distinct (map mr_id ms') \<and> (\<forall>m \<in> set ms'. mr_id m \<notin> set (ce_id e # seen))
      \<and> (\<forall>m \<in> set ms'. ok_identity Routing.MAX_MODEL_ID_BYTES (mr_id m)
         \<and> (\<forall>p. mr_provider m = Some p \<longrightarrow> ok_identity Routing.MAX_PROVIDER_BYTES p \<and> p \<noteq> lit ''combo''))"
      using 2(2) rest u True cl v fresh by simp
    moreover have "mr_id (model_of_entry e) = ce_id e" by (simp add: model_of_entry_def)
    moreover have "usable_entry e" using u True by (simp add: usable_entry_def)
    ultimately show ?thesis
      using usable_entry_model [OF v] u True ms fresh by auto
  qed
qed simp

lemma list_models_Inr:
  assumes "list_models D fetched credential = Inr ms"
  shows "\<exists>raw env. fetched = Inr raw \<and> rg_status raw = 200 \<and> D (rg_body raw) = Some env
    \<and> ms \<noteq> [] \<and> parse_entries [] (cv_data env) = Inr ms"
proof -
  obtain raw where raw: "fetched = Inr raw" "interpret_catalog_response D raw credential = Inr (Models ms)"
  proof -
    obtain raw i where "fetched = Inr raw" "interpret_catalog_response D raw credential = Inr i"
        and "(case i of Models models \<Rightarrow> Inr models | NotReady _ code \<Rightarrow> Inl (Gateway code)) = Inr ms"
      using assms unfolding list_models_def rbind_eq_Inr by blast
    then show thesis using that by (cases i) auto
  qed
  then have "rg_status raw = 200" "parse_catalog D (rg_body raw) = Inr ms" "ms \<noteq> []"
    by (auto simp: interpret_catalog_response_def rbind_eq_Inr split: if_splits prod.splits)
  moreover from this(2) obtain env where "D (rg_body raw) = Some env"
      "parse_entries [] (cv_data env) = Inr ms"
    by (auto simp: parse_catalog_def rbind_eq_Inr split: if_splits)
  ultimately show ?thesis using raw(1) by blast
qed

lemma listed_ok_catalog: "list_models D fetched credential = Inr ms \<Longrightarrow> ok_catalog ms"
  using parse_entries_Inr by (fastforce simp: ok_catalog_def dest!: list_models_Inr)

text \<open>What the gateway lists, the route resolver accepts. The listed models are, in catalog order,
  exactly the usable chat entries of a successful response; there is at least one, none is a combo
  alias, and as a catalog they satisfy everything the resolver requires, so indexing them cannot
  fail.\<close>

theorem listed_models_resolvable:
  assumes "list_models D fetched credential = Inr ms"
  shows "\<exists>raw env. fetched = Inr raw \<and> rg_status raw = 200 \<and> D (rg_body raw) = Some env
    \<and> ms = map model_of_entry (filter usable_entry (cv_data env)) \<and> ms \<noteq> []
    \<and> (\<forall>m \<in> set ms. mr_provider m \<noteq> Some (lit ''combo''))
    \<and> is_ok (index_catalog Map.empty ms)"
proof -
  obtain raw env where r: "fetched = Inr raw" "rg_status raw = 200" "D (rg_body raw) = Some env"
      "ms \<noteq> []" "parse_entries [] (cv_data env) = Inr ms"
    using list_models_Inr [OF assms] by blast
  note p = parse_entries_Inr [OF r(5)]
  have "index_catalog Map.empty ms = Inr (Map.empty ++ catalog_index ms)"
    using listed_ok_catalog [OF assms] by (simp add: index_catalog_Inr)
  then show ?thesis using r p by auto
qed

text \<open>Health and model list agree. For one and the same catalog response the gateway reports
  ready exactly when the model list succeeds, with that many usable models; when it is not ready it
  names no models and says why.\<close>

theorem health_matches_models:
  assumes "health D fetched credential = Inr h"
  shows "(gh_ready h \<longleftrightarrow> is_ok (list_models D fetched credential))
    \<and> (gh_ready h \<longleftrightarrow> gh_status h = Ready)
    \<and> (case list_models D fetched credential of
         Inr ms \<Rightarrow> gh_usable_models h = length ms \<and> gh_detail h = None
       | Inl e \<Rightarrow> \<exists>code. e = Gateway code \<and> gh_usable_models h = 0 \<and> gh_detail h = Some (lit code))"
proof (cases fetched)
  case (Inl e)
  then show ?thesis
    using assms
    by (cases e) (auto simp: health_def list_models_def unhealthy_def transport_health_status_def
        split: if_splits)
next
  case (Inr raw)
  show ?thesis
  proof (cases "interpret_catalog_response D raw credential")
    case (Inl e)
    then show ?thesis
      using assms Inr by (cases e) (auto simp: health_def list_models_def unhealthy_def)
  next
    case i: (Inr i)
    show ?thesis
    proof (cases i)
      case (Models ms)
      then show ?thesis using assms Inr i by (auto simp: health_def list_models_def)
    next
      case (NotReady s code)
      have "s \<noteq> Ready"
        using i NotReady
        by (auto simp: interpret_catalog_response_def not_ready_status_def rbind_eq_Inr
            split: if_splits)
      then show ?thesis
        using assms Inr i NotReady by (auto simp: health_def list_models_def unhealthy_def)
    qed
  qed
qed

definition pinned_profile :: gateway_execution_profile where
  "pinned_profile =
     \<lparr>gp_gateway_id = VIBECODER_OMNIROUTE_GATEWAY_ID,
      gp_upstream_version = VIBECODER_OMNIROUTE_UPSTREAM_VERSION,
      gp_profile_id = VIBECODER_OMNIROUTE_PROFILE_ID,
      gp_profile_sha256 = VIBECODER_OMNIROUTE_PROFILE_SHA256,
      gp_exact_model_only = True, gp_hidden_model_reroutes_disabled = True\<rparr>"

text \<open>The runtime profile fails closed. The gateway's execution profile is accepted precisely when
  a successful JSON response attests the one pinned profile, schema one; the accepted profile is that
  profile and permits exact-model execution. Every other outcome is an error.\<close>

theorem profile_attestation_exact:
  "execution_profile D fetched = Inr p \<longleftrightarrow>
     p = pinned_profile \<and> permits_exact_model_execution p
     \<and> (\<exists>raw. fetched = Inr raw \<and> rg_status raw = 200
          \<and> is_json_content_type (rg_content_type raw) \<and> rg_body raw \<noteq> []
          \<and> D (rg_body raw) = Some \<lparr>pe_schema = 1, pe_gateway_id = gp_gateway_id pinned_profile,
               pe_upstream_version = gp_upstream_version pinned_profile,
               pe_profile_id = gp_profile_id pinned_profile,
               pe_profile_sha256 = gp_profile_sha256 pinned_profile,
               pe_exact_model_only = True, pe_hidden_model_reroutes_disabled = True\<rparr>)"
  (is "?L \<longleftrightarrow> ?R")
proof
  assume ?L
  then obtain raw env where raw: "fetched = Inr raw" "rg_status raw = 200"
      "is_json_content_type (rg_content_type raw)" "rg_body raw \<noteq> []" "D (rg_body raw) = Some env"
      and env: "pe_schema env = 1" "pe_gateway_id env = VIBECODER_OMNIROUTE_GATEWAY_ID"
      "pe_upstream_version env = VIBECODER_OMNIROUTE_UPSTREAM_VERSION"
      "pe_profile_id env = VIBECODER_OMNIROUTE_PROFILE_ID"
      "pe_profile_sha256 env = VIBECODER_OMNIROUTE_PROFILE_SHA256"
      "pe_exact_model_only env" "pe_hidden_model_reroutes_disabled env"
      and p: "p = pinned_profile"
    by (auto simp: execution_profile_def interpret_runtime_profile_response_def rbind_eq_Inr
        pinned_profile_def split: if_splits)
  then show ?R
    by (cases env) (simp add: pinned_profile_def permits_exact_model_execution_def)
next
  assume ?R
  then show ?L
    by (auto simp: execution_profile_def interpret_runtime_profile_response_def pinned_profile_def)
qed

text \<open>C31: A chat response is answered text of the requested exchange only. A completion succeeds only
  for a validated request; its response echoes the requested model, carries non-empty text from the
  single choice, and a response that asks for a tool or function call is never accepted.\<close>

theorem chat_completion_sound:
  assumes "execute_chat_completion ser send D credential request = Inr r"
  shows "validate_request request = Inr () \<and> cr_requested_model_id r = mr_id (cq_model request)
    \<and> cr_text r \<noteq> []
    \<and> (\<exists>body raw env choice. ser (build_wire_request request) = Some body \<and> send body = Inr raw
         \<and> rg_status raw = 200 \<and> D (rg_body raw) = Some env \<and> oe_choices env = [choice]
         \<and> oa_content (oc_message choice) = Some (cr_text r)
         \<and> \<not> opt_nonempty (oa_tool_calls (oc_message choice))
         \<and> \<not> opt_nonempty (oa_function_call (oc_message choice)))"
proof -
  obtain body raw where b: "validate_request request = Inr ()"
      "ser (build_wire_request request) = Some body" "send body = Inr raw"
      and i: "interpret_chat_response D raw credential (mr_id (cq_model request)) = Inr r"
    using assms by (auto simp: execute_chat_completion_def rbind_eq_Inr)
  obtain env where e: "rg_status raw = 200" "D (rg_body raw) = Some env"
      and cs: "(case oe_choices env of
          [choice] \<Rightarrow> if oc_index choice \<noteq> 0 then Inl (gateway_error ''invalid_inference_choices'')
            else interpret_choice env choice (mr_id (cq_model request))
        | _ \<Rightarrow> Inl (gateway_error ''invalid_inference_choices'')) = Inr r"
    using i by (auto simp: interpret_chat_response_def rbind_eq_Inr split: if_splits)
  obtain choice where ch: "oe_choices env = [choice]"
      and c: "interpret_choice env choice (mr_id (cq_model request)) = Inr r"
    using cs by (cases "oe_choices env" rule: list.exhaust [case_product list.exhaust])
      (auto split: if_splits list.splits)
  have "cr_requested_model_id r = mr_id (cq_model request)" "cr_text r \<noteq> []"
    "oa_content (oc_message choice) = Some (cr_text r)"
    "\<not> opt_nonempty (oa_tool_calls (oc_message choice))"
    "\<not> opt_nonempty (oa_function_call (oc_message choice))"
    using c by (auto simp: interpret_choice_def rbind_eq_Inr split: if_splits)
  with b e ch show ?thesis by blast
qed

text \<open>The classification check rejects an empty model type, although the usability test means to read
  it as a chat model.\<close>

lemma empty_model_type_rejected:
  "ce_model_type e = Some [] \<Longrightarrow>
     usable_by_type e \<and> validate_catalog_classification e = Inl (Gateway ''invalid_model_type'')"
  by (simp add: usable_by_type_def validate_catalog_classification_def validate_bounded_text_def
      gateway_error_def)

section \<open>Concrete instances\<close>

definition demo_entry :: "string \<Rightarrow> string \<Rightarrow> catalog_entry" where
  "demo_entry name owner =
     \<lparr>ce_id = lit name, ce_object = Some (lit ''model''), ce_owned_by = Some (lit owner),
      ce_name = None, ce_model_type = Some (lit ''chat''), ce_supported_endpoints = None\<rparr>"

text \<open>A stand-in decoder that reads every body as one catalog: a model of a provider whose name holds
  a space, and a combo alias.\<close>

definition demo_decoder :: "byte list \<Rightarrow> catalog_envelope option" where
  "demo_decoder body =
     Some \<lparr>cv_object = lit ''list'',
           cv_data = [demo_entry ''llama-3'' ''Meta AI'', demo_entry ''smart'' ''combo'']\<rparr>"

definition demo_response :: raw_gateway_response where
  "demo_response =
     \<lparr>rg_status = 200, rg_content_type = Some (lit ''application/json; charset=utf-8''), rg_body = [123]\<rparr>"

definition demo_models :: "model_ref list" where
  "demo_models = [\<lparr>mr_id = lit ''llama-3'', mr_display_name = None, mr_provider = Some (lit ''Meta AI'')\<rparr>]"

definition demo_route :: route_policy_config where
  "demo_route =
     \<lparr>rp_primary = \<lparr>rt_model_id = lit ''llama-3'', rt_provider = Some (lit ''Meta AI'')\<rparr>,
      rp_fallbacks = [], rp_fallback_on = [], rp_fallback_boundary = BeforeResponseOnly\<rparr>"

lemma demo_list_models: "list_models demo_decoder (Inr demo_response) Anonymous = Inr demo_models"
  by code_simp

theorem listed_models_resolvable_witness:
  "list_models demo_decoder (Inr demo_response) Anonymous = Inr demo_models
   \<and> is_ok (index_catalog Map.empty demo_models)"
  using listed_models_resolvable [OF demo_list_models] demo_list_models by blast

theorem health_matches_models_witness:
  "\<exists>h. health demo_decoder (Inr demo_response) Anonymous = Inr h \<and> gh_ready h
     \<and> gh_usable_models h = 1"
proof -
  have "is_ok (health demo_decoder (Inr demo_response) Anonymous)" by code_simp
  then obtain h where h: "health demo_decoder (Inr demo_response) Anonymous = Inr h"
    by (auto simp: is_ok_def split: sum.splits)
  have "length demo_models = 1" by code_simp
  then show ?thesis using health_matches_models [OF h] h demo_list_models by simp
qed

definition demo_request_chat :: gateway_chat_request where
  "demo_request_chat =
     \<lparr>cq_model = \<lparr>mr_id = lit ''llama-3'', mr_display_name = None, mr_provider = None\<rparr>,
      cq_messages = [\<lparr>cm_role = User, cm_content = lit ''hello''\<rparr>], cq_max_output_tokens = 128\<rparr>"

definition demo_chat_decoder :: "byte list \<Rightarrow> openai_chat_envelope option" where
  "demo_chat_decoder body =
     Some \<lparr>oe_model = None,
           oe_choices = [\<lparr>oc_index = 0, oc_message = \<lparr>oa_role = Some (lit ''assistant''),
             oa_content = Some (lit ''hi''), oa_tool_calls = Some JNull, oa_function_call = None\<rparr>,
             oc_finish_reason = Some (lit ''stop'')\<rparr>],
           oe_usage = None\<rparr>"

theorem chat_completion_sound_witness:
  "\<exists>r. execute_chat_completion (\<lambda>_. Some [123]) (\<lambda>_. Inr demo_response) demo_chat_decoder Anonymous
      demo_request_chat = Inr r
     \<and> cr_requested_model_id r = lit ''llama-3'' \<and> cr_text r \<noteq> []"
proof -
  have "is_ok (execute_chat_completion (\<lambda>_. Some [123]) (\<lambda>_. Inr demo_response) demo_chat_decoder
      Anonymous demo_request_chat)" by code_simp
  then obtain r where r: "execute_chat_completion (\<lambda>_. Some [123]) (\<lambda>_. Inr demo_response)
      demo_chat_decoder Anonymous demo_request_chat = Inr r"
    by (auto simp: is_ok_def split: sum.splits)
  have "mr_id (cq_model demo_request_chat) = lit ''llama-3''" by (simp add: demo_request_chat_def)
  then show ?thesis using chat_completion_sound [OF r] r by simp
qed

text \<open>C32: A model can be listed and routed and yet never be called. The catalog and the resolver accept
  provider names with inner spaces; the chat request check demands printable ASCII without spaces and
  rejects every request for such a model, whatever its messages.\<close>

theorem listed_model_rejected_by_chat:
  "\<exists>p. list_models demo_decoder (Inr demo_response) Anonymous = Inr demo_models
     \<and> resolve demo_route demo_models = Inr p \<and> rv_routes p = demo_models
     \<and> (\<forall>messages n. validate_request \<lparr>cq_model = hd demo_models, cq_messages = messages,
            cq_max_output_tokens = n\<rparr> = Inl (Gateway ''invalid_inference_model_provider''))"
proof -
  have "map_sum id rv_routes (resolve demo_route demo_models) = Inr demo_models" by code_simp
  then obtain p where p: "resolve demo_route demo_models = Inr p" "rv_routes p = demo_models"
    by (cases "resolve demo_route demo_models") auto
  have "validate_chat_text (lit ''llama-3'') CHAT_MAX_MODEL_ID_BYTES ''invalid_inference_model_id'' = Inr ()"
    "validate_chat_text (lit ''Meta AI'') CHAT_MAX_PROVIDER_BYTES ''invalid_inference_model_provider''
       = Inl (Gateway ''invalid_inference_model_provider'')"
    by code_simp+
  then show ?thesis
    using p demo_list_models by (simp add: validate_request_def demo_models_def)
qed

end
