(* ===== verification/Task_Orchestration.thy ===== *)
theory Task_Orchestration
  imports Routing
begin

text \<open>
  The prompt-to-result task machine of \<open>crates/vibecoder-task-orchestration\<close>.

  A task walks from \<open>Prepared\<close> over the two corroboration phases to \<open>Running\<close> and ends completed or
  \<open>Stopped\<close>; a failure may send it back to \<open>Prepared\<close> on the next configured route. The event observer
  is an \<open>Arc<Mutex<AttemptProgress>>\<close> which the machine and the agent run share, so progress cells live
  in an explicit store (\<open>cells\<close>, addressed by index, grown by \<open>begin_inference\<close>) and an observer is the
  address of its cell. A handle kept from an earlier attempt therefore writes to its own old cell.

  Every operation returns its \<open>Result\<close> together with the machine it leaves behind, because an error
  return of the source can follow a change of state. \<open>prepare\<close> returns \<open>None\<close> for the panic an empty
  route list would cause.
\<close>

section \<open>Model\<close>

definition MAX_PROMPT_BYTES :: nat where "MAX_PROMPT_BYTES = 1024 * 1024"

datatype backend_task_phase =
  Prepared | AgentCatalogCorroborated | ActiveModelCorroborated | Running | Stopped

record attempt_progress =
  ap_response_started :: bool
  ap_tool_activity_started :: bool

definition attempt_progress_default :: attempt_progress where
  "attempt_progress_default = \<lparr>ap_response_started = False, ap_tool_activity_started = False\<rparr>"

type_synonym cells = "attempt_progress list"
type_synonym observer = nat

definition observe_progress :: "agent_event \<Rightarrow> attempt_progress \<Rightarrow> attempt_progress" where
  "observe_progress event p =
     (case event of
        TextDelta _ \<Rightarrow> p\<lparr>ap_response_started := True\<rparr>
      | BackgroundProgress _ _ _ _ _ \<Rightarrow> p\<lparr>ap_response_started := True\<rparr>
      | ToolStarted _ _ \<Rightarrow> p\<lparr>ap_tool_activity_started := True\<rparr>
      | ToolFinished _ _ _ _ _ \<Rightarrow> p\<lparr>ap_tool_activity_started := True\<rparr>
      | MessageAccepted \<Rightarrow> p
      | SessionStatus _ \<Rightarrow> p
      | TokenUsage _ \<Rightarrow> p
      | PermissionRequired _ \<Rightarrow> p
      | TurnCompleted \<Rightarrow> p
      | Warning _ \<Rightarrow> p)"

definition observe :: "cells \<Rightarrow> observer \<Rightarrow> agent_event \<Rightarrow> cells" where
  "observe cs h event =
     (if h < length cs then cs[h := observe_progress event (cs ! h)] else cs)"

definition snapshot :: "cells \<Rightarrow> observer \<Rightarrow> attempt_progress" where
  "snapshot cs h = (if h < length cs then cs ! h else attempt_progress_default)"

datatype failure_decision = RetryConfiguredFallback | TaskStop route_stop_reason

record task_machine =
  tm_task_id :: uuid
  tm_project_id :: project_id
  tm_session_id :: session_id
  tm_route_policy :: resolved_policy
  tm_attempt :: "route_attempt_state option"
  tm_selected_model :: model_ref
  tm_phase :: backend_task_phase
  tm_observer :: "observer option"

record task_outcome =
  to_task_id :: uuid
  to_project_id :: project_id
  to_session_id :: session_id
  to_model :: model_ref
  to_attempt_index :: nat
  to_turn :: turn_result

definition task_error :: "string \<Rightarrow> vibecoder_error" where
  "task_error code = Routing code"

definition prepare ::
    "uuid \<Rightarrow> project_id \<Rightarrow> session_id \<Rightarrow> rstring \<Rightarrow> resolved_policy \<Rightarrow> task_machine result option" where
  "prepare fresh project session prompt policy =
     (if trim prompt = [] \<or> byte_len prompt > MAX_PROMPT_BYTES
      then Some (Inl (task_error ''invalid_backend_task_prompt''))
      else map_option (\<lambda>model.
        Inr \<lparr>tm_task_id = fresh, tm_project_id = project, tm_session_id = session,
             tm_route_policy = policy, tm_attempt = Some (start_attempt policy),
             tm_selected_model = model, tm_phase = Prepared, tm_observer = None\<rparr>)
        (resolved_primary policy))"

definition require_phase :: "task_machine \<Rightarrow> backend_task_phase \<Rightarrow> unit result" where
  "require_phase m expected =
     (if tm_phase m \<noteq> expected then Inl (task_error ''backend_task_phase_violation'') else Inr ())"

definition require_provider :: "model_ref \<Rightarrow> string \<Rightarrow> rstring result" where
  "require_provider model code =
     (case mr_provider model of
        None \<Rightarrow> Inl (task_error code)
      | Some provider \<Rightarrow> if provider = [] then Inl (task_error code) else Inr provider)"

definition require_exact_identity :: "model_ref \<Rightarrow> model_ref \<Rightarrow> string \<Rightarrow> unit result" where
  "require_exact_identity expected actual code =
     rbind (require_provider expected ''gateway_model_provider_missing'')
       (\<lambda>ep. rbind (require_provider actual ''agent_model_provider_missing'')
       (\<lambda>ap. if mr_id expected \<noteq> mr_id actual \<or> ep \<noteq> ap then Inl (task_error code) else Inr ()))"

fun scan_agent_catalog ::
    "rstring \<Rightarrow> rstring set \<Rightarrow> model_ref option \<Rightarrow> model_ref list \<Rightarrow> model_ref option result" where
  "scan_agent_catalog selected seen exact [] = Inr exact"
| "scan_agent_catalog selected seen exact (c # cs) =
     (if mr_id c \<in> seen then Inl (task_error ''ambiguous_agent_catalog_model_id'')
      else scan_agent_catalog selected (insert (mr_id c) seen)
             (if mr_id c = selected then Some c else exact) cs)"

definition corroborate_agent_catalog ::
    "task_machine \<Rightarrow> model_ref list \<Rightarrow> bool result \<times> task_machine" where
  "corroborate_agent_catalog m catalog =
     (let r = rbind (require_phase m Prepared)
        (\<lambda>_. rbind (require_provider (tm_selected_model m) ''gateway_model_provider_missing'')
        (\<lambda>_. rbind (scan_agent_catalog (mr_id (tm_selected_model m)) {} None catalog)
        (\<lambda>exact. case exact of
           None \<Rightarrow> Inr False
         | Some candidate \<Rightarrow>
             rbind (require_exact_identity (tm_selected_model m) candidate
                      ''agent_catalog_identity_mismatch'')
               (\<lambda>_. Inr True))))
      in (r, if r = Inr True then m\<lparr>tm_phase := AgentCatalogCorroborated\<rparr> else m))"

definition corroborate_bridged_agent_catalog ::
    "task_machine \<Rightarrow> model_ref list \<Rightarrow> rstring \<Rightarrow> bool result \<times> task_machine" where
  "corroborate_bridged_agent_catalog m catalog transport =
     (let r = rbind (require_phase m Prepared)
        (\<lambda>_. rbind (require_provider (tm_selected_model m) ''gateway_model_provider_missing'')
        (\<lambda>_. if transport = [] \<or> trim transport \<noteq> transport \<or> list_ex is_control transport
             then Inl (task_error ''agent_bridge_transport_provider_invalid'')
             else rbind (scan_agent_catalog (mr_id (tm_selected_model m)) {} None catalog)
        (\<lambda>exact. case exact of
           None \<Rightarrow> Inr False
         | Some candidate \<Rightarrow>
             if mr_provider candidate \<noteq> Some transport
             then Inl (task_error ''agent_bridge_transport_provider_mismatch'')
             else Inr True)))
      in (r, if r = Inr True then m\<lparr>tm_phase := AgentCatalogCorroborated\<rparr> else m))"

definition corroborate_active_model :: "task_machine \<Rightarrow> model_ref \<Rightarrow> unit result \<times> task_machine" where
  "corroborate_active_model m active =
     (let r = rbind (require_phase m AgentCatalogCorroborated)
        (\<lambda>_. require_exact_identity (tm_selected_model m) active ''agent_active_identity_mismatch'')
      in (r, if is_ok r then m\<lparr>tm_phase := ActiveModelCorroborated\<rparr> else m))"

definition begin_inference ::
    "task_machine \<Rightarrow> cells \<Rightarrow> observer result \<times> task_machine \<times> cells" where
  "begin_inference m cs =
     (case require_phase m ActiveModelCorroborated of
        Inl e \<Rightarrow> (Inl e, m, cs)
      | Inr _ \<Rightarrow>
          (Inr (length cs), m\<lparr>tm_observer := Some (length cs), tm_phase := Running\<rparr>,
           cs @ [attempt_progress_default]))"

definition mark_progress :: "attempt_progress \<Rightarrow> route_attempt_state \<Rightarrow> route_attempt_state" where
  "mark_progress p a =
     (let a' = (if ap_response_started p then mark_response_started a else a)
      in if ap_tool_activity_started p then mark_tool_activity_started a' else a')"

definition decide_failure ::
    "task_machine \<Rightarrow> cells \<Rightarrow> route_failure_class \<Rightarrow> failure_decision result \<times> task_machine" where
  "decide_failure m cs failure =
     (if tm_phase m \<notin> {Prepared, AgentCatalogCorroborated, ActiveModelCorroborated, Running}
      then (Inl (task_error ''backend_task_failure_in_invalid_phase''), m)
      else case tm_attempt m of
        None \<Rightarrow> (Inl (task_error ''backend_task_attempt_already_consumed''), m)
      | Some a \<Rightarrow>
          (let m1 = m\<lparr>tm_attempt := None, tm_observer := None\<rparr>;
               a1 = (case tm_observer m of None \<Rightarrow> a | Some h \<Rightarrow> mark_progress (snapshot cs h) a)
           in case decision_after_failure (tm_route_policy m) a1 failure of
                Inl e \<Rightarrow> (Inl e, m1)
              | Inr (Fallback next_attempt model) \<Rightarrow>
                  (Inr RetryConfiguredFallback,
                   m1\<lparr>tm_attempt := Some next_attempt, tm_selected_model := model,
                      tm_phase := Prepared\<rparr>)
              | Inr (RouteStop reason) \<Rightarrow>
                  (Inr (TaskStop reason), m1\<lparr>tm_phase := Stopped\<rparr>)))"

definition complete :: "task_machine \<Rightarrow> turn_result \<Rightarrow> task_outcome result" where
  "complete m turn =
     rbind (require_phase m Running)
       (\<lambda>_. if tr_cancelled turn then Inl Cancelled
            else rbind (ok_or (tm_attempt m) (task_error ''backend_task_attempt_already_consumed''))
       (\<lambda>a. Inr \<lparr>to_task_id = tm_task_id m, to_project_id = tm_project_id m,
                 to_session_id = tm_session_id m, to_model = tm_selected_model m,
                 to_attempt_index = ra_route_index a, to_turn = turn\<rparr>))"

definition classify_agent_failure :: "vibecoder_error \<Rightarrow> route_failure_class" where
  "classify_agent_failure e =
     (case e of
        Cancelled \<Rightarrow> RF_Cancelled
      | Agent _ \<Rightarrow> RF_Unknown
      | InvalidRequest _ \<Rightarrow> RF_InvalidRequest
      | _ \<Rightarrow> RF_ProtocolError)"

section \<open>Executions\<close>

text \<open>The calls a driver can make on a prepared machine, in any order; observations may come from
  any handle ever issued.\<close>

datatype task_request =
    CallCatalog "model_ref list"
  | CallBridgedCatalog "model_ref list" rstring
  | CallActive model_ref
  | CallBegin
  | CallObserve observer agent_event
  | CallFailure route_failure_class

type_synonym task_state = "task_machine \<times> cells"

fun task_call :: "task_state \<Rightarrow> task_request \<Rightarrow> task_state" where
  "task_call (m, cs) (CallCatalog catalog) = (snd (corroborate_agent_catalog m catalog), cs)"
| "task_call (m, cs) (CallBridgedCatalog catalog transport) =
     (snd (corroborate_bridged_agent_catalog m catalog transport), cs)"
| "task_call (m, cs) (CallActive active) = (snd (corroborate_active_model m active), cs)"
| "task_call (m, cs) CallBegin = snd (begin_inference m cs)"
| "task_call (m, cs) (CallObserve h event) = (m, observe cs h event)"
| "task_call (m, cs) (CallFailure failure) = (snd (decide_failure m cs failure), cs)"

definition task_calls :: "task_state \<Rightarrow> task_request list \<Rightarrow> task_state" where
  "task_calls s calls = foldl task_call s calls"

text \<open>The machines \<open>prepare\<close> issues for a policy the resolver issued.\<close>

definition task_init :: "task_state \<Rightarrow> bool" where
  "task_init s \<longleftrightarrow> snd s = [] \<and>
     (\<exists>fresh project session prompt c catalog policy. resolve c catalog = Inr policy
        \<and> prepare fresh project session prompt policy = Some (Inr (fst s)))"

definition task_step :: "task_state \<Rightarrow> task_state \<Rightarrow> bool" where
  "task_step s t \<longleftrightarrow> (\<exists>call. t = task_call s call)"

text \<open>The live attempt is at a configured route, is unmarked, and the machine has an observer exactly
  while inference runs.\<close>

definition task_inv :: "task_state \<Rightarrow> bool" where
  "task_inv s \<longleftrightarrow> (let m = fst s in
     resolved_inv (tm_route_policy m)
     \<and> (tm_phase m = Stopped \<longrightarrow> tm_attempt m = None)
     \<and> (tm_phase m \<noteq> Stopped \<longrightarrow>
          (\<exists>i. i < length (rv_routes (tm_route_policy m)) \<and> tm_attempt m = Some (pristine i)
               \<and> tm_selected_model m = rv_routes (tm_route_policy m) ! i))
     \<and> (case tm_observer m of
          None \<Rightarrow> tm_phase m \<noteq> Running
        | Some h \<Rightarrow> tm_phase m = Running \<and> h < length (snd s)))"

text \<open>How often a sequence of calls moved the task to another route.\<close>

fun is_retry :: "task_state \<Rightarrow> task_request \<Rightarrow> bool" where
  "is_retry (m, cs) (CallFailure failure) =
     (fst (decide_failure m cs failure) = Inr RetryConfiguredFallback)"
| "is_retry s call = False"

fun count_retries :: "task_state \<Rightarrow> task_request list \<Rightarrow> nat" where
  "count_retries s [] = 0"
| "count_retries s (c # cs) = (if is_retry s c then 1 else 0) + count_retries (task_call s c) cs"

text \<open>A call that shows the selected model in the agent's catalog: with its own provider for a
  direct agent, with the attested transport provider for a bridged one. A call that shows it to be
  the agent's active model.\<close>

fun catalog_evidence :: "model_ref \<Rightarrow> task_request \<Rightarrow> bool" where
  "catalog_evidence sel (CallCatalog catalog) =
     (\<exists>c \<in> set catalog. mr_id c = mr_id sel \<and> mr_provider c = mr_provider sel
        \<and> mr_provider sel \<notin> {None, Some []})"
| "catalog_evidence sel (CallBridgedCatalog catalog transport) =
     (\<exists>c \<in> set catalog. mr_id c = mr_id sel \<and> mr_provider c = Some transport
        \<and> mr_provider sel \<notin> {None, Some []})"
| "catalog_evidence sel call = False"

fun active_evidence :: "model_ref \<Rightarrow> task_request \<Rightarrow> bool" where
  "active_evidence sel (CallActive active) =
     (mr_id active = mr_id sel \<and> mr_provider active = mr_provider sel
        \<and> mr_provider sel \<notin> {None, Some []})"
| "active_evidence sel call = False"

text \<open>Events that make a turn observable, after which it must not be replayed.\<close>

fun is_progress_event :: "agent_event \<Rightarrow> bool" where
  "is_progress_event (TextDelta t) = True"
| "is_progress_event (BackgroundProgress a b c d e) = True"
| "is_progress_event (ToolStarted t c) = True"
| "is_progress_event (ToolFinished t c ok out err) = True"
| "is_progress_event event = False"

definition progressed :: "attempt_progress \<Rightarrow> bool" where
  "progressed p \<longleftrightarrow> ap_response_started p \<or> ap_tool_activity_started p"

text \<open>No retry is possible any more: the task is stopped, or its live observer saw progress.\<close>

definition committed :: "task_state \<Rightarrow> bool" where
  "committed s \<longleftrightarrow> tm_phase (fst s) = Stopped \<or>
     (\<exists>h. tm_observer (fst s) = Some h \<and> progressed (snapshot (snd s) h))"

section \<open>Single operations\<close>

lemma require_phase_Inr [simp]: "require_phase m ph = Inr u \<longleftrightarrow> tm_phase m = ph"
  by (auto simp: require_phase_def)

lemma require_provider_Inr [simp]:
  "require_provider m code = Inr p \<longleftrightarrow> mr_provider m = Some p \<and> p \<noteq> []"
  by (auto simp: require_provider_def split: option.splits)

lemma require_exact_identity_Inr [simp]:
  "require_exact_identity e a code = Inr u \<longleftrightarrow>
     mr_id a = mr_id e \<and> mr_provider a = mr_provider e \<and> mr_provider e \<notin> {None, Some []}"
  by (auto simp: require_exact_identity_def rbind_eq_Inr)

lemma scan_agent_catalog_Inr:
  "scan_agent_catalog sel seen ex cs = Inr r \<Longrightarrow>
     r = ex \<or> (\<exists>c \<in> set cs. mr_id c = sel \<and> r = Some c)"
  by (induction cs arbitrary: seen ex) (auto split: if_splits)

lemma corroborate_agent_catalog_effect:
  "snd (corroborate_agent_catalog m catalog) = m \<or>
   (tm_phase m = Prepared \<and> catalog_evidence (tm_selected_model m) (CallCatalog catalog)
    \<and> snd (corroborate_agent_catalog m catalog) = m\<lparr>tm_phase := AgentCatalogCorroborated\<rparr>)"
  by (auto simp: corroborate_agent_catalog_def rbind_eq_Inr Let_def
      dest!: scan_agent_catalog_Inr split: option.splits)

lemma corroborate_bridged_effect:
  "snd (corroborate_bridged_agent_catalog m catalog tp) = m \<or>
   (tm_phase m = Prepared \<and> catalog_evidence (tm_selected_model m) (CallBridgedCatalog catalog tp)
    \<and> snd (corroborate_bridged_agent_catalog m catalog tp)
        = m\<lparr>tm_phase := AgentCatalogCorroborated\<rparr>)"
  by (auto simp: corroborate_bridged_agent_catalog_def rbind_eq_Inr Let_def
      dest!: scan_agent_catalog_Inr split: option.splits if_splits)

lemma is_ok_iff: "is_ok r \<longleftrightarrow> (\<exists>a. r = Inr a)"
  by (cases r) auto

lemma corroborate_active_effect:
  "snd (corroborate_active_model m active) = m \<or>
   (tm_phase m = AgentCatalogCorroborated \<and> active_evidence (tm_selected_model m) (CallActive active)
    \<and> snd (corroborate_active_model m active) = m\<lparr>tm_phase := ActiveModelCorroborated\<rparr>)"
  by (auto simp: corroborate_active_model_def rbind_eq_Inr is_ok_iff Let_def)

lemma begin_inference_effect:
  "snd (begin_inference m cs) = (m, cs) \<or>
   (tm_phase m = ActiveModelCorroborated
    \<and> snd (begin_inference m cs) =
        (m\<lparr>tm_observer := Some (length cs), tm_phase := Running\<rparr>, cs @ [attempt_progress_default]))"
  by (auto simp: begin_inference_def split: sum.splits)

lemma mark_progress_index [simp]: "ra_route_index (mark_progress p a) = ra_route_index a"
  by (simp add: mark_progress_def mark_response_started_def mark_tool_activity_started_def)

lemma mark_progress_observable [simp]:
  "observable_progress_started (mark_progress p a) \<longleftrightarrow>
     observable_progress_started a \<or> ap_response_started p \<or> ap_tool_activity_started p"
  by (auto simp: mark_progress_def mark_response_started_def mark_tool_activity_started_def
      observable_progress_started_def)

lemma pristine_simps [simp]:
  "ra_route_index (pristine i) = i" "\<not> observable_progress_started (pristine i)"
  "pristine i = pristine j \<longleftrightarrow> i = j"
  by (simp_all add: pristine_def observable_progress_started_def)

section \<open>Invariant\<close>

lemma prepare_Inr:
  assumes "prepare fresh project session prompt policy = Some (Inr m)"
  shows "resolved_primary policy = Some (tm_selected_model m) \<and> tm_route_policy m = policy
    \<and> tm_attempt m = Some (pristine 0) \<and> tm_phase m = Prepared \<and> tm_observer m = None"
  using assms by (auto simp: prepare_def start_attempt_def split: if_splits)

lemma task_init_inv: "task_init s \<Longrightarrow> task_inv s"
proof -
  assume "task_init s"
  then obtain fresh project session prompt c catalog policy where
      r: "resolve c catalog = Inr policy"
    and p: "prepare fresh project session prompt policy = Some (Inr (fst s))"
    by (auto simp: task_init_def)
  from r have inv: "resolved_inv policy" by (rule resolve_inv)
  then have "0 < length (rv_routes policy)" by (simp add: resolved_inv_def)
  with inv prepare_Inr [OF p] show "task_inv s"
    by (simp add: task_inv_def Let_def resolved_primary_Some)
qed

text \<open>On a live machine a failure report always yields a decision: stop, or move to the very next
  route with a fresh attempt, the latter only when the observer saw no progress.\<close>

lemma decide_failure_live:
  assumes "task_inv (m, cs)" and "tm_phase m \<noteq> Stopped"
  obtains (stop) reason where "decide_failure m cs f =
      (Inr (TaskStop reason), m\<lparr>tm_attempt := None, tm_observer := None, tm_phase := Stopped\<rparr>)"
  | (retry) i where "tm_attempt m = Some (pristine i)"
      "Suc i < length (rv_routes (tm_route_policy m))"
      "\<And>h. tm_observer m = Some h \<Longrightarrow> snapshot cs h = attempt_progress_default"
      "decide_failure m cs f = (Inr RetryConfiguredFallback,
         m\<lparr>tm_attempt := Some (pristine (Suc i)), tm_observer := None,
           tm_selected_model := rv_routes (tm_route_policy m) ! Suc i, tm_phase := Prepared\<rparr>)"
proof -
  obtain i where i: "tm_attempt m = Some (pristine i)" "i < length (rv_routes (tm_route_policy m))"
    using assms by (auto simp: task_inv_def Let_def)
  define a where "a = (case tm_observer m of None \<Rightarrow> pristine i
      | Some h \<Rightarrow> mark_progress (snapshot cs h) (pristine i))"
  have idx: "ra_route_index a = i" by (simp add: a_def split: option.splits)
  have phase: "tm_phase m \<in> {Prepared, AgentCatalogCorroborated, ActiveModelCorroborated, Running}"
    using assms(2) by (cases "tm_phase m") auto
  obtain d where d: "decision_after_failure (tm_route_policy m) a f = Inr d"
    using decision_in_range [of a "tm_route_policy m" f] i idx by auto
  show thesis
  proof (cases d)
    case (RouteStop reason)
    with d i phase show thesis
      by (intro stop [of reason]) (simp add: decide_failure_def a_def Let_def)
  next
    case (Fallback t mo)
    with d have fb: "Suc i < length (rv_routes (tm_route_policy m))"
        "\<not> observable_progress_started a" "t = pristine (Suc i)"
        "mo = rv_routes (tm_route_policy m) ! Suc i"
      by (auto simp: decision_Fallback_iff idx)
    have "snapshot cs h = attempt_progress_default" if "tm_observer m = Some h" for h
      using fb(2) that by (simp add: a_def attempt_progress_default_def)
    with Fallback d i phase fb show thesis
      by (intro retry [of i]) (simp_all add: decide_failure_def a_def Let_def)
  qed
qed

lemma decide_failure_stopped:
  "tm_phase m = Stopped \<Longrightarrow>
     decide_failure m cs f = (Inl (task_error ''backend_task_failure_in_invalid_phase''), m)"
  by (simp add: decide_failure_def)

lemma length_observe [simp]: "length (observe cs h e) = length cs"
  by (simp add: observe_def)

lemma task_call_inv:
  assumes "task_inv (m, cs)"
  shows "task_inv (task_call (m, cs) call)"
proof (cases call)
  case (CallCatalog catalog)
  then show ?thesis
    using assms corroborate_agent_catalog_effect [of m catalog]
    by (auto simp: task_inv_def Let_def split: option.splits)
next
  case (CallBridgedCatalog catalog tp)
  then show ?thesis
    using assms corroborate_bridged_effect [of m catalog tp]
    by (auto simp: task_inv_def Let_def split: option.splits)
next
  case (CallActive active)
  then show ?thesis
    using assms corroborate_active_effect [of m active]
    by (auto simp: task_inv_def Let_def split: option.splits)
next
  case CallBegin
  then show ?thesis
    using assms begin_inference_effect [of m cs]
    by (auto simp: task_inv_def Let_def split: option.splits)
next
  case (CallObserve h e)
  then show ?thesis
    using assms by (simp add: task_inv_def Let_def split: option.splits)
next
  case (CallFailure f)
  show ?thesis
  proof (cases "tm_phase m = Stopped")
    case True
    then show ?thesis using assms CallFailure by (simp add: decide_failure_stopped)
  next
    case False
    show ?thesis
      using assms False
      by (rule decide_failure_live [where f = f])
        (use assms CallFailure in \<open>auto simp: task_inv_def Let_def\<close>)
  qed
qed

lemma task_call_stopped:
  assumes "task_inv (m, cs)" and "tm_phase m = Stopped"
  shows "fst (task_call (m, cs) call) = m"
proof (cases call)
  case (CallFailure f)
  with assms(2) show ?thesis by (simp add: decide_failure_stopped)
qed (use assms corroborate_agent_catalog_effect [of m] corroborate_bridged_effect [of m]
      corroborate_active_effect [of m] begin_inference_effect [of m cs] in fastforce)+

interpretation task: invariant_system task_init task_step task_inv
  by unfold_locales (auto simp: task_step_def intro: task_init_inv task_call_inv)

lemma task_calls_simps [simp]:
  "task_calls s [] = s" "task_calls s (c # cs) = task_calls (task_call s c) cs"
  "task_calls s (xs @ ys) = task_calls (task_calls s xs) ys"
  by (simp_all add: task_calls_def)

lemma task_calls_inv: "task_inv s \<Longrightarrow> task_inv (task_calls s calls)"
proof (induction calls arbitrary: s)
  case (Cons c calls)
  then show ?case by (cases s) (simp add: task_call_inv)
qed simp

section \<open>Corroboration before inference\<close>

text \<open>The phases are passed in order, each advance backed by its evidence, and the selected model
  only changes together with a return to \<open>Prepared\<close>.\<close>

lemma task_call_phase:
  assumes "task_inv (m, cs)" and "task_call (m, cs) call = (m', cs')"
  obtains (same) "tm_phase m' = tm_phase m" "tm_selected_model m' = tm_selected_model m"
  | (catalog) "tm_phase m = Prepared" "tm_phase m' = AgentCatalogCorroborated"
      "tm_selected_model m' = tm_selected_model m" "catalog_evidence (tm_selected_model m) call"
  | (active) "tm_phase m = AgentCatalogCorroborated" "tm_phase m' = ActiveModelCorroborated"
      "tm_selected_model m' = tm_selected_model m" "active_evidence (tm_selected_model m) call"
  | (begin_run) "tm_phase m = ActiveModelCorroborated" "tm_phase m' = Running"
      "tm_selected_model m' = tm_selected_model m"
  | (return) "tm_phase m' \<in> {Prepared, Stopped}"
proof (cases call)
  case (CallCatalog catalog)
  with assms(2) show thesis
    using corroborate_agent_catalog_effect [of m catalog] same catalog
    by (auto simp del: catalog_evidence.simps)
next
  case (CallBridgedCatalog catalog tp)
  with assms(2) show thesis
    using corroborate_bridged_effect [of m catalog tp] same catalog
    by (auto simp del: catalog_evidence.simps)
next
  case (CallActive a)
  with assms(2) show thesis
    using corroborate_active_effect [of m a] same active by auto
next
  case CallBegin
  with assms(2) show thesis
    using begin_inference_effect [of m cs] same begin_run by auto
next
  case (CallObserve h e)
  with assms(2) show thesis using same by simp
next
  case (CallFailure f)
  show thesis
  proof (cases "tm_phase m = Stopped")
    case True
    with assms(2) CallFailure show thesis using same by (simp add: decide_failure_stopped)
  next
    case False
    show thesis
      using assms(1) False
      by (rule decide_failure_live [where f = f]) (use assms(2) CallFailure return in auto)
  qed
qed

definition catalog_backed :: "model_ref \<Rightarrow> task_request list \<Rightarrow> bool" where
  "catalog_backed sel calls \<longleftrightarrow> (\<exists>pre c post. calls = pre @ c # post \<and> catalog_evidence sel c)"

definition active_backed :: "model_ref \<Rightarrow> task_request list \<Rightarrow> bool" where
  "active_backed sel calls \<longleftrightarrow>
     (\<exists>pre c mid a post. calls = pre @ c # mid @ a # post
        \<and> catalog_evidence sel c \<and> active_evidence sel a)"

lemma catalog_backed_snoc [intro]:
  "catalog_backed sel calls \<Longrightarrow> catalog_backed sel (calls @ [x])"
  "catalog_evidence sel x \<Longrightarrow> catalog_backed sel (calls @ [x])"
  unfolding catalog_backed_def by (metis append.assoc append_Cons) blast

lemma active_backed_snoc [intro]:
  assumes "active_backed sel calls"
  shows "active_backed sel (calls @ [x])"
proof -
  from assms obtain pre c mid a post where "calls = pre @ c # mid @ a # post"
    "catalog_evidence sel c" "active_evidence sel a" by (auto simp: active_backed_def)
  then have "calls @ [x] = pre @ c # mid @ a # (post @ [x]) \<and> catalog_evidence sel c
      \<and> active_evidence sel a" by simp
  then show ?thesis unfolding active_backed_def by blast
qed

lemma active_backed_new [intro]:
  assumes "catalog_backed sel calls" and "active_evidence sel x"
  shows "active_backed sel (calls @ [x])"
proof -
  from assms obtain pre c post where "calls = pre @ c # post" "catalog_evidence sel c"
    by (auto simp: catalog_backed_def)
  with assms(2) have "calls @ [x] = pre @ c # post @ x # [] \<and> catalog_evidence sel c
      \<and> active_evidence sel x" by simp
  then show ?thesis unfolding active_backed_def by blast
qed

lemma phases_backed:
  assumes "task_inv s" and "tm_phase (fst s) = Prepared"
  defines "end_of \<equiv> \<lambda>calls. fst (task_calls s calls)"
  shows "(tm_phase (end_of calls) = AgentCatalogCorroborated \<longrightarrow>
            catalog_backed (tm_selected_model (end_of calls)) calls)
       \<and> (tm_phase (end_of calls) \<in> {ActiveModelCorroborated, Running} \<longrightarrow>
            active_backed (tm_selected_model (end_of calls)) calls)"
proof (induction calls rule: rev_induct)
  case Nil
  then show ?case using assms(2) by (simp add: end_of_def)
next
  case (snoc x calls)
  obtain m cs where mc: "task_calls s calls = (m, cs)" by fastforce
  obtain m' cs' where mc': "task_call (m, cs) x = (m', cs')" by fastforce
  have "task_inv (m, cs)" using task_calls_inv [OF assms(1), of calls] by (simp add: mc)
  moreover note mc'
  moreover have e: "end_of calls = m" "end_of (calls @ [x]) = m'"
    by (simp_all add: end_of_def mc mc')
  ultimately show ?case
  proof (cases rule: task_call_phase)
    case same
    then show ?thesis using snoc.IH e by auto
  next
    case catalog
    then show ?thesis using e by auto
  next
    case active
    then show ?thesis using snoc.IH e by auto
  next
    case begin_run
    then show ?thesis using snoc.IH e by auto
  next
    case return
    then show ?thesis using e by auto
  qed
qed

lemma task_init_prepared: "task_init s \<Longrightarrow> tm_phase (fst s) = Prepared"
  by (auto simp: task_init_def dest: prepare_Inr)

text \<open>C19: inference only runs on a corroborated model. Whatever sequence of calls brought a prepared
  task into \<open>Running\<close>, it contains a call that found the currently selected model in the agent's
  catalog and, after it, a call that found it to be the agent's active model with the same id and
  provider; and the selected model is one of the resolved routes.\<close>

theorem running_model_corroborated:
  assumes "task_init s" and "task_calls s calls = (m, cs)" and "tm_phase m = Running"
  shows "(\<exists>pre c mid a post. calls = pre @ c # mid @ a # post
      \<and> catalog_evidence (tm_selected_model m) c \<and> active_evidence (tm_selected_model m) a)
    \<and> tm_selected_model m \<in> set (rv_routes (tm_route_policy m))"
proof
  have inv: "task_inv s" using assms(1) by (rule task_init_inv)
  show "\<exists>pre c mid a post. calls = pre @ c # mid @ a # post
      \<and> catalog_evidence (tm_selected_model m) c \<and> active_evidence (tm_selected_model m) a"
    using phases_backed [OF inv task_init_prepared [OF assms(1)], of calls] assms(2,3)
    by (simp add: active_backed_def)
  have "task_inv (m, cs)" using task_calls_inv [OF inv, of calls] assms(2) by simp
  then show "tm_selected_model m \<in> set (rv_routes (tm_route_policy m))"
    using assms(3) by (auto simp: task_inv_def Let_def)
qed

section \<open>No replay after progress\<close>

lemma snapshot_observe:
  "snapshot (observe cs h e) k =
     (if k = h \<and> h < length cs then observe_progress e (snapshot cs h) else snapshot cs k)"
  by (auto simp: snapshot_def observe_def)

lemma observe_progress_mono: "progressed p \<Longrightarrow> progressed (observe_progress e p)"
  by (cases e) (auto simp: observe_progress_def progressed_def)

lemma observe_progress_event: "is_progress_event e \<Longrightarrow> progressed (observe_progress e p)"
  by (cases e) (auto simp: observe_progress_def progressed_def)

lemma committed_no_retry:
  assumes "task_inv s" and "committed s"
  shows "\<not> is_retry s c"
proof (cases "(s, c)" rule: is_retry.cases)
  case (1 m cs f)
  show ?thesis
  proof (cases "tm_phase m = Stopped")
    case True
    then show ?thesis using 1 by (simp add: decide_failure_stopped)
  next
    case False
    have "task_inv (m, cs)" using assms 1 by simp
    from this False show ?thesis
      by (rule decide_failure_live [where f = f])
        (use assms(2) 1 False in \<open>auto simp: committed_def progressed_def attempt_progress_default_def\<close>)
  qed
qed auto

lemma committed_call:
  assumes "task_inv (m, cs)" and "committed (m, cs)"
  shows "committed (task_call (m, cs) c)
    \<and> tm_selected_model (fst (task_call (m, cs) c)) = tm_selected_model m"
proof (cases "tm_phase m = Stopped")
  case True
  then show ?thesis using task_call_stopped [OF assms(1), of c] by (simp add: committed_def)
next
  case False
  then obtain h where h: "tm_observer m = Some h" "progressed (snapshot cs h)"
    using assms(2) by (auto simp: committed_def)
  then have run: "tm_phase m = Running" using assms(1) by (auto simp: task_inv_def Let_def)
  show ?thesis
  proof (cases c)
    case (CallObserve k e)
    then show ?thesis
      using h by (auto simp: committed_def snapshot_observe observe_progress_mono)
  next
    case (CallFailure f)
    show ?thesis
      using assms(1) False
    proof (rule decide_failure_live [where f = f])
      fix reason
      assume "decide_failure m cs f = (Inr (TaskStop reason),
        m\<lparr>tm_attempt := None, tm_observer := None, tm_phase := Stopped\<rparr>)"
      then show ?thesis using CallFailure by (simp add: committed_def)
    next
      fix i
      assume "\<And>h. tm_observer m = Some h \<Longrightarrow> snapshot cs h = attempt_progress_default"
      then show ?thesis using h by (simp add: progressed_def attempt_progress_default_def)
    qed
  qed (use assms h run corroborate_agent_catalog_effect [of m] corroborate_bridged_effect [of m]
        corroborate_active_effect [of m] begin_inference_effect [of m cs] in fastforce)+
qed

lemma committed_calls:
  "task_inv s \<Longrightarrow> committed s \<Longrightarrow> count_retries s calls = 0
     \<and> tm_selected_model (fst (task_calls s calls)) = tm_selected_model (fst s)"
proof (induction calls arbitrary: s)
  case (Cons c calls)
  obtain m cs where s: "s = (m, cs)" by fastforce
  with Cons.prems have "task_inv (task_call s c)" "committed (task_call s c)"
    "tm_selected_model (fst (task_call s c)) = tm_selected_model (fst s)"
    using task_call_inv committed_call by auto
  with Cons show ?case by (simp add: committed_no_retry)
qed simp

text \<open>C20: no replay after observable progress. Once the live observer of a running task has seen
  assistant text, background progress or tool activity, no later sequence of calls, with any
  reported failures, moves the task to another route: the model that produced the output stays the
  selected one.\<close>

theorem no_fallback_after_progress:
  assumes "task_init s" and "task_calls s calls = (m, cs)" and "tm_observer m = Some h"
    and "is_progress_event e"
  shows "count_retries (task_call (m, cs) (CallObserve h e)) later = 0
    \<and> tm_selected_model (fst (task_calls (task_call (m, cs) (CallObserve h e)) later))
        = tm_selected_model m"
proof -
  have inv: "task_inv (m, cs)"
    using task_calls_inv [OF task_init_inv [OF assms(1)], of calls] assms(2) by simp
  then have "h < length cs" using assms(3) by (simp add: task_inv_def Let_def)
  then have "committed (task_call (m, cs) (CallObserve h e))"
    using assms(3,4) by (simp add: committed_def snapshot_observe observe_progress_event)
  then show ?thesis
    using task_call_inv [OF inv, of "CallObserve h e"]
      committed_calls [of "task_call (m, cs) (CallObserve h e)" later] by simp
qed

section \<open>Retry budget and completion\<close>

text \<open>The route index of the live attempt counts the retries made so far.\<close>

lemma task_call_frame:
  assumes "\<And>f. c \<noteq> CallFailure f" and "task_call (m, cs) c = (m', cs')"
  shows "tm_attempt m' = tm_attempt m \<and> tm_route_policy m' = tm_route_policy m"
proof (cases c)
  case (CallCatalog catalog)
  then show ?thesis using assms(2) corroborate_agent_catalog_effect [of m catalog] by auto
next
  case (CallBridgedCatalog catalog tp)
  then show ?thesis using assms(2) corroborate_bridged_effect [of m catalog tp] by auto
next
  case (CallActive a)
  then show ?thesis using assms(2) corroborate_active_effect [of m a] by auto
next
  case CallBegin
  then show ?thesis using assms(2) begin_inference_effect [of m cs] by auto
qed (use assms in auto)

lemma task_call_index:
  assumes "task_inv (m, cs)" and "task_call (m, cs) c = (m', cs')" and "tm_phase m' \<noteq> Stopped"
    and "tm_attempt m = Some (pristine i)"
  shows "tm_attempt m' = Some (pristine (i + (if is_retry (m, cs) c then 1 else 0)))
    \<and> tm_route_policy m' = tm_route_policy m"
proof (cases c)
  case (CallFailure f)
  have live: "tm_phase m \<noteq> Stopped"
    using assms by (auto simp: task_inv_def Let_def)
  show ?thesis
    using assms(1) live
    by (rule decide_failure_live [where f = f]) (use assms CallFailure in auto)
qed (use assms(4) task_call_frame [OF _ assms(2)] in simp_all)

lemma stopped_calls:
  "task_inv s \<Longrightarrow> tm_phase (fst s) = Stopped \<Longrightarrow> fst (task_calls s calls) = fst s"
proof (induction calls arbitrary: s)
  case (Cons c calls)
  obtain m cs where s: "s = (m, cs)" by fastforce
  with Cons.prems have "fst (task_call s c) = m" "task_inv (task_call s c)"
    by (simp_all add: task_call_stopped task_call_inv)
  with Cons s show ?case by simp
qed simp

lemma task_calls_index:
  assumes "task_inv s" and "tm_attempt (fst s) = Some (pristine i)"
    and "tm_phase (fst (task_calls s calls)) \<noteq> Stopped"
  shows "tm_attempt (fst (task_calls s calls)) = Some (pristine (i + count_retries s calls))
    \<and> tm_route_policy (fst (task_calls s calls)) = tm_route_policy (fst s)"
  using assms
proof (induction calls arbitrary: s i)
  case (Cons c calls)
  obtain m cs where s: "s = (m, cs)" by fastforce
  obtain m' cs' where s': "task_call (m, cs) c = (m', cs')" by fastforce
  have inv': "task_inv (m', cs')" using task_call_inv Cons.prems(1) s s' by metis
  have live': "tm_phase m' \<noteq> Stopped"
  proof
    assume "tm_phase m' = Stopped"
    then show False
      using Cons.prems(3) stopped_calls [OF inv', of calls] by (simp add: s s')
  qed
  have step: "tm_attempt m' = Some (pristine (i + (if is_retry s c then 1 else 0)))
      \<and> tm_route_policy m' = tm_route_policy m"
    using task_call_index [OF _ s' live'] Cons.prems(1,2) s by simp
  have "tm_phase (fst (task_calls (m', cs') calls)) \<noteq> Stopped"
    using Cons.prems(3) by (simp add: s s')
  from Cons.IH [OF inv' _ this] step show ?case by (simp add: s s' add.assoc)
qed simp

lemma retry_budget:
  assumes "task_inv s"
  shows "count_retries s calls
    \<le> (case tm_attempt (fst s) of None \<Rightarrow> 0
       | Some a \<Rightarrow> length (rv_routes (tm_route_policy (fst s))) - Suc (ra_route_index a))"
  using assms
proof (induction calls arbitrary: s)
  case (Cons c calls)
  obtain m cs where s: "s = (m, cs)" by fastforce
  obtain m' cs' where s': "task_call (m, cs) c = (m', cs')" by fastforce
  have inv': "task_inv (m', cs')" using task_call_inv Cons.prems s s' by metis
  show ?case
  proof (cases "tm_phase m' = Stopped")
    case True
    then have "\<not> is_retry s c" and "tm_attempt m' = None"
      using inv' s s' by (cases c; auto simp: task_inv_def Let_def decide_failure_def
          split: option.splits sum.splits route_decision.splits if_splits)+
    then show ?thesis using Cons.IH [OF inv'] by (simp add: s s')
  next
    case False
    have "tm_phase m \<noteq> Stopped"
      using False task_call_stopped [of m cs c] Cons.prems s s' by auto
    then obtain i where i: "tm_attempt m = Some (pristine i)"
      using Cons.prems s by (auto simp: task_inv_def Let_def)
    note step = task_call_index [OF _ s' False i]
    have "i + (if is_retry s c then 1 else 0) < length (rv_routes (tm_route_policy m))"
      using inv' False step Cons.prems s by (auto simp: task_inv_def Let_def)
    then show ?thesis using Cons.IH [OF inv'] step Cons.prems i by (auto simp: s s')
  qed
qed simp

text \<open>the whole task has a fixed retry budget. In any sequence of calls on a prepared task the
  number of automatic fallbacks is below the number of resolved routes, hence at most seven.\<close>

theorem task_retries_bounded:
  assumes "task_init s"
  shows "count_retries s calls < length (rv_routes (tm_route_policy (fst s)))
    \<and> count_retries s calls \<le> 7"
proof -
  have inv: "task_inv s" using assms by (rule task_init_inv)
  then have "resolved_inv (tm_route_policy (fst s))" by (simp add: task_inv_def Let_def)
  moreover have "tm_attempt (fst s) = Some (pristine 0)"
    using assms by (auto simp: task_init_def dest: prepare_Inr)
  ultimately show ?thesis
    using retry_budget [OF inv, of calls]
    by (cases "rv_routes (tm_route_policy (fst s))")
      (auto simp: resolved_inv_def MAX_ROUTE_TARGETS_def)
qed

text \<open>a completed task reports the truth. An outcome is only produced for a running task whose
  turn was not cancelled; its attempt index is the number of fallbacks that were made, and its model
  is the resolved route with that index.\<close>

theorem completed_outcome_exact:
  assumes "task_init s" and "complete (fst (task_calls s calls)) turn = Inr out"
  shows "to_attempt_index out = count_retries s calls
    \<and> to_model out = rv_routes (tm_route_policy (fst s)) ! count_retries s calls
    \<and> \<not> tr_cancelled (to_turn out)
    \<and> to_task_id out = tm_task_id (fst (task_calls s calls))"
proof -
  obtain m cs where mc: "task_calls s calls = (m, cs)" by fastforce
  have inv: "task_inv s" using assms(1) by (rule task_init_inv)
  have run: "tm_phase m = Running" and out: "\<not> tr_cancelled turn"
      "\<exists>a. tm_attempt m = Some a \<and> out = \<lparr>to_task_id = tm_task_id m, to_project_id = tm_project_id m,
         to_session_id = tm_session_id m, to_model = tm_selected_model m,
         to_attempt_index = ra_route_index a, to_turn = turn\<rparr>"
    using assms(2) by (auto simp: mc complete_def rbind_eq_Inr split: if_splits)
  have "tm_attempt (fst s) = Some (pristine 0)"
    using assms(1) by (auto simp: task_init_def dest: prepare_Inr)
  with task_calls_index [OF inv, of 0 calls] run mc
  have "tm_attempt m = Some (pristine (count_retries s calls))"
      "tm_route_policy m = tm_route_policy (fst s)" by auto
  moreover have "task_inv (m, cs)" using task_calls_inv [OF inv, of calls] mc by simp
  ultimately show ?thesis using run out mc by (auto simp: task_inv_def Let_def)
qed

section \<open>Observers\<close>

lemma decide_failure_other_cell:
  "tm_observer m \<noteq> Some h \<Longrightarrow> decide_failure m (observe cs h e) f = decide_failure m cs f"
  by (auto simp: decide_failure_def snapshot_observe Let_def split: option.splits)

text \<open>observers of earlier attempts are isolated. A handle that existed before an attempt began
  inference cannot influence how a failure of that attempt is decided, whatever events are reported
  through it.\<close>

theorem stale_observer_isolated:
  assumes "begin_inference m cs = (Inr h, m', cs')" and "stale < length cs"
  shows "decide_failure m' (observe cs' stale e) f = decide_failure m' cs' f"
  using assms
  by (intro decide_failure_other_cell) (auto simp: begin_inference_def split: sum.splits)

section \<open>A concrete task\<close>

definition demo_task :: task_machine where
  "demo_task =
     \<lparr>tm_task_id = 1, tm_project_id = ProjectId 2, tm_session_id = SessionId (lit ''session''),
      tm_route_policy = demo_policy, tm_attempt = Some (pristine 0),
      tm_selected_model = demo_model ''a/m'' ''a'', tm_phase = Prepared, tm_observer = None\<rparr>"

definition demo_calls :: "task_request list" where
  "demo_calls =
     [CallFailure RF_ModelUnavailable, CallCatalog demo_catalog,
      CallActive (demo_model ''b/m'' ''b''), CallBegin]"

definition demo_running :: task_state where
  "demo_running =
     (demo_task\<lparr>tm_attempt := Some (pristine 1), tm_selected_model := demo_model ''b/m'' ''b'',
        tm_phase := Running, tm_observer := Some 0\<rparr>, [attempt_progress_default])"

definition demo_turn :: turn_result where
  "demo_turn = \<lparr>tr_text = lit ''ok'', tr_cancelled = False, tr_tool_calls = [], tr_usage = None\<rparr>"

lemma demo_prepare:
  "prepare 1 (ProjectId 2) (SessionId (lit ''session'')) (lit ''build it'') demo_policy
     = Some (Inr demo_task)"
  by code_simp

lemma demo_init: "task_init (demo_task, [])"
  unfolding task_init_def fst_conv snd_conv using demo_resolve demo_prepare by blast

lemma demo_run: "task_calls (demo_task, []) demo_calls = demo_running"
  by code_simp

lemma demo_running_simps:
  "tm_phase (fst demo_running) = Running" "tm_observer (fst demo_running) = Some 0"
  "tm_selected_model (fst demo_running) = demo_model ''b/m'' ''b''"
  by code_simp+

theorem running_model_corroborated_witness:
  "task_init (demo_task, []) \<and> task_calls (demo_task, []) demo_calls = demo_running
   \<and> (\<exists>pre c mid a post. demo_calls = pre @ c # mid @ a # post
        \<and> catalog_evidence (demo_model ''b/m'' ''b'') c
        \<and> active_evidence (demo_model ''b/m'' ''b'') a)"
  using running_model_corroborated
      [of "(demo_task, [])" demo_calls "fst demo_running" "snd demo_running"]
    demo_init demo_run demo_running_simps by simp

theorem no_fallback_after_progress_witness:
  "count_retries (task_call demo_running (CallObserve 0 (TextDelta (lit ''hi''))))
     [CallFailure RF_ModelUnavailable, CallFailure RF_Timeout] = 0"
  using no_fallback_after_progress
      [of "(demo_task, [])" demo_calls "fst demo_running" "snd demo_running" 0
        "TextDelta (lit ''hi'')" "[CallFailure RF_ModelUnavailable, CallFailure RF_Timeout]"]
    demo_init demo_run demo_running_simps by simp

theorem task_retries_bounded_witness:
  "task_init (demo_task, []) \<and> count_retries (demo_task, []) demo_calls \<le> 7"
  using task_retries_bounded [of "(demo_task, [])" demo_calls] demo_init by simp

lemma demo_complete:
  "complete (fst demo_running) demo_turn =
     Inr \<lparr>to_task_id = 1, to_project_id = ProjectId 2, to_session_id = SessionId (lit ''session''),
          to_model = demo_model ''b/m'' ''b'', to_attempt_index = 1, to_turn = demo_turn\<rparr>"
  by code_simp

theorem completed_outcome_exact_witness:
  "count_retries (demo_task, []) demo_calls = 1
   \<and> rv_routes demo_policy ! 1 = demo_model ''b/m'' ''b''"
  using completed_outcome_exact
      [of "(demo_task, [])" demo_calls demo_turn, unfolded demo_run demo_complete, OF demo_init refl]
  by (simp add: demo_task_def)

theorem stale_observer_isolated_witness:
  "begin_inference (demo_task\<lparr>tm_phase := ActiveModelCorroborated\<rparr>) [attempt_progress_default] =
     (Inr 1, demo_task\<lparr>tm_phase := Running, tm_observer := Some 1\<rparr>,
      [attempt_progress_default, attempt_progress_default])
   \<and> decide_failure (demo_task\<lparr>tm_phase := Running, tm_observer := Some 1\<rparr>)
       (observe [attempt_progress_default, attempt_progress_default] 0 (TextDelta [])) RF_Timeout
     = decide_failure (demo_task\<lparr>tm_phase := Running, tm_observer := Some 1\<rparr>)
       [attempt_progress_default, attempt_progress_default] RF_Timeout"
proof -
  have b: "begin_inference (demo_task\<lparr>tm_phase := ActiveModelCorroborated\<rparr>)
      [attempt_progress_default] =
     (Inr 1, demo_task\<lparr>tm_phase := Running, tm_observer := Some 1\<rparr>,
      [attempt_progress_default, attempt_progress_default])"
    by (simp add: begin_inference_def require_phase_def)
  show ?thesis using b stale_observer_isolated [OF b, of 0] by simp
qed

end
