(* ===== verification/Core_Checks.thy ===== *)
theory Core_Checks
  imports Persistence_Local Gateway_Omniroute Task_Orchestration
begin

text \<open>
  The pure checks of \<open>crates/vibecoder-core/src/lib.rs\<close>: the budget policy and the one-shot guard of the
  explicit agent loop, the observer of tool events, the acceptance test of an agent turn, the parser
  of the loop's status line, the capacity reservation of a conversation, the context sent to a model
  and the identity checks on models, profiles and bridges.

  Byte counts are natural numbers; the texts are in memory, so the \<open>checked_add\<close>s on their lengths do
  not overflow. An observation's \<open>HashMap\<close> is an association list with distinct keys.
\<close>

section \<open>Model\<close>

definition MAX_CONVERSATION_MODEL_MESSAGES :: nat where "MAX_CONVERSATION_MODEL_MESSAGES = 64"
definition MAX_CONVERSATION_MODEL_MESSAGE_BYTES :: nat where
  "MAX_CONVERSATION_MODEL_MESSAGE_BYTES = 128 * 1024"
definition MAX_CONVERSATION_MODEL_CONTEXT_BYTES :: nat where
  "MAX_CONVERSATION_MODEL_CONTEXT_BYTES = 256 * 1024"
definition MAX_CONVERSATION_MODEL_OUTPUT_TOKENS :: u32 where
  "MAX_CONVERSATION_MODEL_OUTPUT_TOKENS = 8192"
definition MAX_CONVERSATION_MODEL_ID_BYTES :: nat where "MAX_CONVERSATION_MODEL_ID_BYTES = 512"
definition MAX_AGENT_ACTION_TOOL_CALLS :: nat where "MAX_AGENT_ACTION_TOOL_CALLS = 32"
definition MAX_AGENT_ACTION_CALL_ID_BYTES :: nat where "MAX_AGENT_ACTION_CALL_ID_BYTES = 256"

definition AGENT_ACTION_FILE_TOOLS :: "rstring list" where
  "AGENT_ACTION_FILE_TOOLS = map lit
     [''read'', ''write'', ''edit'', ''multiedit'', ''apply_patch'', ''patch'', ''agentgrep'', ''ls'']"

definition AGENT_ACTION_MUTATION_TOOLS :: "rstring list" where
  "AGENT_ACTION_MUTATION_TOOLS = map lit
     [''write'', ''edit'', ''multiedit'', ''apply_patch'', ''patch'']"

definition DEFAULT_EXPLICIT_AGENT_LOOP_MAX_TURNS :: u8 where
  "DEFAULT_EXPLICIT_AGENT_LOOP_MAX_TURNS = 4"
definition MAX_EXPLICIT_AGENT_LOOP_TURNS :: u8 where "MAX_EXPLICIT_AGENT_LOOP_TURNS = 8"
definition DEFAULT_EXPLICIT_AGENT_LOOP_MAX_TOTAL_TOOL_CALLS :: nat where
  "DEFAULT_EXPLICIT_AGENT_LOOP_MAX_TOTAL_TOOL_CALLS = 96"
definition MAX_EXPLICIT_AGENT_LOOP_TOTAL_TOOL_CALLS :: nat where
  "MAX_EXPLICIT_AGENT_LOOP_TOTAL_TOOL_CALLS = 256"
definition DEFAULT_EXPLICIT_AGENT_LOOP_MAX_SAME_WORKSPACE_OCCURRENCES :: u8 where
  "DEFAULT_EXPLICIT_AGENT_LOOP_MAX_SAME_WORKSPACE_OCCURRENCES = 2"
definition MAX_EXPLICIT_AGENT_LOOP_SAME_WORKSPACE_OCCURRENCES :: u8 where
  "MAX_EXPLICIT_AGENT_LOOP_SAME_WORKSPACE_OCCURRENCES = 3"
definition EXPLICIT_AGENT_LOOP_COMPLETE_MARKER :: rstring where
  "EXPLICIT_AGENT_LOOP_COMPLETE_MARKER = lit ''VIBECODER_LOOP_STATUS=complete''"
definition EXPLICIT_AGENT_LOOP_CONTINUE_MARKER :: rstring where
  "EXPLICIT_AGENT_LOOP_CONTINUE_MARKER = lit ''VIBECODER_LOOP_STATUS=continue''"

subsection \<open>The explicit loop: policy and guard\<close>

record explicit_loop_policy =
  el_max_turns :: u8
  el_max_total_tool_calls :: nat
  el_max_same_workspace_occurrences :: u8

definition explicit_loop_policy_default :: explicit_loop_policy where
  "explicit_loop_policy_default =
     \<lparr>el_max_turns = DEFAULT_EXPLICIT_AGENT_LOOP_MAX_TURNS,
      el_max_total_tool_calls = DEFAULT_EXPLICIT_AGENT_LOOP_MAX_TOTAL_TOOL_CALLS,
      el_max_same_workspace_occurrences =
        DEFAULT_EXPLICIT_AGENT_LOOP_MAX_SAME_WORKSPACE_OCCURRENCES\<rparr>"

definition explicit_loop_policy_validate :: "explicit_loop_policy \<Rightarrow> explicit_loop_policy result" where
  "explicit_loop_policy_validate p =
     (if el_max_turns p = 0 \<or> el_max_turns p > MAX_EXPLICIT_AGENT_LOOP_TURNS
      then Inl (InvalidRequest ''explicit_agent_loop_turn_budget_invalid'')
      else if el_max_total_tool_calls p = 0
              \<or> el_max_total_tool_calls p > MAX_EXPLICIT_AGENT_LOOP_TOTAL_TOOL_CALLS
      then Inl (InvalidRequest ''explicit_agent_loop_tool_budget_invalid'')
      else if el_max_same_workspace_occurrences p < 2
              \<or> el_max_same_workspace_occurrences p
                  > MAX_EXPLICIT_AGENT_LOOP_SAME_WORKSPACE_OCCURRENCES
      then Inl (InvalidRequest ''explicit_agent_loop_repeat_limit_invalid'')
      else Inr p)"

record explicit_loop_guard =
  eg_project_id :: project_id
  eg_conversation_id :: conversation_id
  eg_policy :: explicit_loop_policy
  eg_started :: bool

definition explicit_loop_guard_new ::
    "project_id \<Rightarrow> conversation_id \<Rightarrow> explicit_loop_policy \<Rightarrow> explicit_loop_guard result" where
  "explicit_loop_guard_new pid cid policy =
     rbind (explicit_loop_policy_validate policy)
       (\<lambda>p. Inr \<lparr>eg_project_id = pid, eg_conversation_id = cid, eg_policy = p, eg_started = False\<rparr>)"

definition begin_once :: "explicit_loop_guard \<Rightarrow> unit result \<times> explicit_loop_guard" where
  "begin_once g =
     (if eg_started g then (Inl (InvalidRequest ''explicit_agent_loop_guard_already_used''), g)
      else (Inr (), g\<lparr>eg_started := True\<rparr>))"

datatype explicit_loop_stop_reason =
  EL_Completed | EL_Cancelled | EL_TurnBudgetExhausted | EL_ToolBudgetExhausted
  | EL_RepeatedWorkspaceState

datatype explicit_loop_decision = EL_Complete | EL_Continue

subsection \<open>Observed tool calls\<close>

record observed_tool_call =
  oc_tool :: rstring
  oc_finished :: bool
  oc_ok :: bool

record agent_action_observation =
  ao_calls :: "(rstring \<times> observed_tool_call) list"
  ao_protocol_failure :: bool

definition agent_action_observation_default :: agent_action_observation where
  "agent_action_observation_default = \<lparr>ao_calls = [], ao_protocol_failure = False\<rparr>"

definition agent_action_tool_identity_is_safe :: "rstring \<Rightarrow> rstring \<Rightarrow> bool" where
  "agent_action_tool_identity_is_safe tool call_id \<longleftrightarrow>
     tool \<noteq> [] \<and> trim tool = tool \<and> byte_len tool \<le> 64
     \<and> list_all (\<lambda>b. is_ascii_alphanumeric b \<or> b = 95) tool
     \<and> call_id \<noteq> [] \<and> trim call_id = call_id \<and> byte_len call_id \<le> MAX_AGENT_ACTION_CALL_ID_BYTES
     \<and> \<not> list_ex is_control call_id"

definition put_call ::
    "rstring \<Rightarrow> observed_tool_call \<Rightarrow> (rstring \<times> observed_tool_call) list
      \<Rightarrow> (rstring \<times> observed_tool_call) list" where
  "put_call k v cs = (k, v) # filter (\<lambda>e. fst e \<noteq> k) cs"

definition observe_event :: "agent_action_observation \<Rightarrow> agent_event \<Rightarrow> agent_action_observation" where
  "observe_event ob event =
     (case event of
        ToolStarted tool call_id \<Rightarrow>
          if \<not> agent_action_tool_identity_is_safe tool call_id
             \<or> tool \<notin> set AGENT_ACTION_FILE_TOOLS
             \<or> length (ao_calls ob) \<ge> MAX_AGENT_ACTION_TOOL_CALLS
          then ob\<lparr>ao_protocol_failure := True\<rparr>
          else (let calls = put_call call_id \<lparr>oc_tool = tool, oc_finished = False, oc_ok = False\<rparr>
                              (ao_calls ob)
                in if map_of (ao_calls ob) call_id \<noteq> None
                   then ob\<lparr>ao_calls := calls, ao_protocol_failure := True\<rparr>
                   else ob\<lparr>ao_calls := calls\<rparr>)
      | ToolFinished tool call_id ok _ _ \<Rightarrow>
          (case map_of (ao_calls ob) call_id of
             Some call \<Rightarrow>
               if oc_tool call = tool \<and> \<not> oc_finished call
               then ob\<lparr>ao_calls := put_call call_id (call\<lparr>oc_finished := True, oc_ok := ok\<rparr>)
                                    (ao_calls ob)\<rparr>
               else ob\<lparr>ao_protocol_failure := True\<rparr>
           | None \<Rightarrow> ob\<lparr>ao_protocol_failure := True\<rparr>)
      | _ \<Rightarrow> ob)"

definition observe_events ::
    "agent_action_observation \<Rightarrow> agent_event list \<Rightarrow> agent_action_observation" where
  "observe_events ob events = foldl observe_event ob events"

subsection \<open>Acceptance of a turn\<close>

fun check_tool_calls ::
    "agent_action_observation \<Rightarrow> rstring set \<Rightarrow> nat \<Rightarrow> nat \<Rightarrow> tool_call_result list
      \<Rightarrow> (nat \<times> nat) result" where
  "check_tool_calls ob ids files mutations [] = Inr (files, mutations)"
| "check_tool_calls ob ids files mutations (call # calls) =
     (if \<not> agent_action_tool_identity_is_safe (tc_tool call) (tc_call_id call)
         \<or> tc_tool call \<notin> set AGENT_ACTION_FILE_TOOLS \<or> tc_call_id call \<in> ids
      then Inl (Agent ''agent_action_tool_result_identity_invalid'')
      else case map_of (ao_calls ob) (tc_call_id call) of
        None \<Rightarrow> Inl (Agent ''agent_action_tool_result_unobserved'')
      | Some observed \<Rightarrow>
          (let result_ok = (tc_error call = None)
           in if oc_tool observed \<noteq> tc_tool call \<or> \<not> oc_finished observed
                 \<or> oc_ok observed \<noteq> result_ok
              then Inl (Agent ''agent_action_tool_result_event_mismatch'')
              else check_tool_calls ob (insert (tc_call_id call) ids)
                     (if result_ok then files + 1 else files)
                     (if result_ok \<and> tc_tool call \<in> set AGENT_ACTION_MUTATION_TOOLS
                      then mutations + 1 else mutations) calls))"

definition validate_agent_file_tool_turn ::
    "turn_result \<Rightarrow> agent_action_observation \<Rightarrow> (nat \<times> nat \<times> nat) result" where
  "validate_agent_file_tool_turn turn ob =
     (if ao_protocol_failure ob then Inl (Agent ''agent_action_tool_event_protocol_invalid'')
      else if trim (tr_text turn) = [] \<or> byte_len (tr_text turn) > MAX_CONVERSATION_MESSAGE_BYTES
              \<or> 0 \<in> set (tr_text turn)
      then Inl (Agent ''agent_action_final_response_invalid'')
      else if tr_tool_calls turn = [] \<or> length (tr_tool_calls turn) > MAX_AGENT_ACTION_TOOL_CALLS
      then Inl (Agent ''agent_action_tool_count_invalid'')
      else if length (ao_calls ob) \<noteq> length (tr_tool_calls turn)
      then Inl (Agent ''agent_action_tool_transcript_count_mismatch'')
      else rbind (check_tool_calls ob {} 0 0 (tr_tool_calls turn))
        (\<lambda>(files, mutations).
           if files = 0 then Inl (Agent ''agent_action_no_successful_file_tool'')
           else Inr (length (ao_calls ob), files, mutations)))"

definition validate_agent_action_turn ::
    "turn_result \<Rightarrow> agent_action_observation \<Rightarrow> (nat \<times> nat \<times> nat) result" where
  "validate_agent_action_turn turn ob =
     rbind (validate_agent_file_tool_turn turn ob)
       (\<lambda>(observed, files, mutations).
          if mutations = 0 then Inl (Agent ''agent_action_no_successful_mutation'')
          else Inr (observed, files, mutations))"

definition validate_agent_loop_iteration_turn ::
    "turn_result \<Rightarrow> agent_action_observation \<Rightarrow> (nat \<times> nat \<times> nat) result" where
  "validate_agent_loop_iteration_turn turn ob = validate_agent_file_tool_turn turn ob"

subsection \<open>The loop's prompt and status line\<close>

definition nl :: rstring where "nl = [10]"

definition explicit_loop_prompt_text :: "rstring \<Rightarrow> u8 \<Rightarrow> u8 \<Rightarrow> rstring" where
  "explicit_loop_prompt_text original_prompt iteration max_turns =
     original_prompt @ nl @ nl @ lit ''[VibeCoder explicit loop control]'' @ nl
     @ lit ''This loop was explicitly requested by the user. Iteration ''
     @ dec_digits (unat iteration) @ lit '' of at most '' @ dec_digits (unat max_turns) @ lit ''. ''
     @ lit ''Inspect the current workspace with the allowed file tools before deciding. ''
     @ lit ''Continue working only if the original task is not yet complete. ''
     @ lit ''Do not use shell, browser, MCP, or external tools.'' @ nl
     @ lit ''Your final non-empty line MUST be exactly one of:'' @ nl
     @ EXPLICIT_AGENT_LOOP_COMPLETE_MARKER @ nl
     @ EXPLICIT_AGENT_LOOP_CONTINUE_MARKER @ nl
     @ lit ''Use `complete` only when the original task is satisfied based on the evidence ''
     @ lit ''available through the allowed file tools. Use `continue` only when another ''
     @ lit ''file-mutation iteration is genuinely required. ''
     @ lit ''Put the user-facing explanation before the marker.''"

definition build_explicit_agent_loop_iteration_prompt ::
    "rstring \<Rightarrow> u8 \<Rightarrow> u8 \<Rightarrow> rstring result" where
  "build_explicit_agent_loop_iteration_prompt original_prompt iteration max_turns =
     (if iteration = 0 \<or> iteration > max_turns \<or> max_turns = 0
      then Inl (InvalidRequest ''explicit_agent_loop_iteration_invalid'')
      else (let prompt = explicit_loop_prompt_text original_prompt iteration max_turns
            in if byte_len prompt > 1024 * 1024 \<or> 0 \<in> set prompt
               then Inl (InvalidRequest ''explicit_agent_loop_iteration_prompt_too_large'')
               else Inr prompt))"

definition trim_end_blanks :: "rstring \<Rightarrow> rstring" where
  "trim_end_blanks s = rev (dropWhile (\<lambda>c. c \<in> {13, 10, 32, 9}) (rev s))"

definition loop_status :: "rstring \<Rightarrow> (rstring \<times> explicit_loop_decision) option" where
  "loop_status trimmed =
     (case strip_suffix trimmed EXPLICIT_AGENT_LOOP_COMPLETE_MARKER of
        Some body \<Rightarrow> Some (body, EL_Complete)
      | None \<Rightarrow>
          (case strip_suffix trimmed EXPLICIT_AGENT_LOOP_CONTINUE_MARKER of
             Some body \<Rightarrow> Some (body, EL_Continue)
           | None \<Rightarrow> None))"

definition parse_explicit_agent_loop_response ::
    "rstring \<Rightarrow> (explicit_loop_decision \<times> rstring) result" where
  "parse_explicit_agent_loop_response t =
     (if message_text_invalid t then Inl (Agent ''explicit_agent_loop_response_invalid'')
      else case loop_status (trim_end t) of
        None \<Rightarrow> Inl (Agent ''explicit_agent_loop_status_marker_missing'')
      | Some (raw, decision) \<Rightarrow>
          (let body = trim_end_blanks raw
           in if trim body = [] \<or> contains_str body EXPLICIT_AGENT_LOOP_COMPLETE_MARKER
                 \<or> contains_str body EXPLICIT_AGENT_LOOP_CONTINUE_MARKER
                 \<or> byte_len body > MAX_CONVERSATION_MESSAGE_BYTES
              then Inl (Agent ''explicit_agent_loop_response_body_invalid'')
              else Inr (decision, body)))"

definition explicit_agent_loop_stop_message :: "explicit_loop_stop_reason \<Rightarrow> rstring" where
  "explicit_agent_loop_stop_message reason = lit
     (case reason of
        EL_Completed \<Rightarrow> ''Explicit loop completed.''
      | EL_Cancelled \<Rightarrow>
          ''Explicit loop cancelled. Workspace restored to the pre-loop checkpoint.''
      | EL_TurnBudgetExhausted \<Rightarrow>
          ''Explicit loop stopped at its turn limit. Workspace restored to the pre-loop checkpoint.''
      | EL_ToolBudgetExhausted \<Rightarrow>
          ''Explicit loop stopped at its tool-call limit. Workspace restored to the pre-loop checkpoint.''
      | EL_RepeatedWorkspaceState \<Rightarrow>
          ''Explicit loop stopped after repeating a workspace state. Workspace restored to the pre-loop checkpoint.'')"

subsection \<open>Conversation turns\<close>

definition validate_conversation_model_id :: "rstring \<Rightarrow> unit result" where
  "validate_conversation_model_id value =
     (if value = [] \<or> byte_len value > MAX_CONVERSATION_MODEL_ID_BYTES \<or> trim value \<noteq> value
         \<or> \<not> list_all is_ascii_graphic value
      then Inl (InvalidRequest ''conversation_model_id_invalid'') else Inr ())"

definition validate_conversation_model_prompt :: "rstring \<Rightarrow> unit result" where
  "validate_conversation_model_prompt value =
     (if trim value = [] \<or> byte_len value > MAX_CONVERSATION_MODEL_MESSAGE_BYTES \<or> 0 \<in> set value
      then Inl (InvalidRequest ''conversation_model_prompt_invalid'') else Inr ())"

definition ensure_conversation_model_turn_capacity ::
    "persisted_conversation \<Rightarrow> rstring \<Rightarrow> unit result" where
  "ensure_conversation_model_turn_capacity c prompt =
     (if length (cv_messages c) > MAX_CONVERSATION_MESSAGES - 2
      then Inl (Persistence ''conversation_model_turn_message_capacity_exhausted'')
      else if text_bytes (cv_messages c) + byte_len prompt + MAX_CONVERSATION_MESSAGE_BYTES
                > MAX_CONVERSATION_TEXT_BYTES
      then Inl (Persistence ''conversation_model_turn_text_capacity_exhausted'')
      else Inr ())"

definition ensure_conversation_agent_action_capacity ::
    "persisted_conversation \<Rightarrow> rstring \<Rightarrow> unit result" where
  "ensure_conversation_agent_action_capacity c prompt =
     (if length (cv_messages c) > MAX_CONVERSATION_MESSAGES - 2
      then Inl (Persistence ''conversation_agent_action_message_capacity_exhausted'')
      else if text_bytes (cv_messages c) + byte_len prompt + MAX_CONVERSATION_MESSAGE_BYTES
                > MAX_CONVERSATION_TEXT_BYTES
      then Inl (Persistence ''conversation_agent_action_text_capacity_exhausted'')
      else Inr ())"

definition select_exact_gateway_model :: "model_ref list \<Rightarrow> rstring \<Rightarrow> model_ref result" where
  "select_exact_gateway_model catalog requested =
     (case filter (\<lambda>m. mr_id m = requested) catalog of
        [] \<Rightarrow> Inl (Gateway ''conversation_model_not_in_catalog'')
      | [model] \<Rightarrow> Inr model
      | model # _ \<Rightarrow> Inl (Gateway ''conversation_model_catalog_ambiguous''))"

definition gateway_role :: "conversation_role \<Rightarrow> gateway_chat_role" where
  "gateway_role r = (case r of RoleUser \<Rightarrow> User | RoleAssistant \<Rightarrow> Assistant)"

definition gateway_message :: "persisted_message \<Rightarrow> gateway_chat_message" where
  "gateway_message m = \<lparr>cm_role = gateway_role (pm_role m), cm_content = pm_text m\<rparr>"

text \<open>The loop over the newest messages first; \<open>acc\<close> is the vector before \<open>reverse()\<close>, newest first.\<close>

fun collect_context ::
    "gateway_chat_message list \<Rightarrow> nat \<Rightarrow> persisted_message list \<Rightarrow> gateway_chat_message list \<times> nat" where
  "collect_context acc bytes [] = (acc, bytes)"
| "collect_context acc bytes (m # ms) =
     (if length acc = MAX_CONVERSATION_MODEL_MESSAGES
         \<or> byte_len (pm_text m) > MAX_CONVERSATION_MODEL_MESSAGE_BYTES
      then (acc, bytes)
      else if bytes + byte_len (pm_text m) > MAX_CONVERSATION_MODEL_CONTEXT_BYTES then (acc, bytes)
      else collect_context (acc @ [gateway_message m]) (bytes + byte_len (pm_text m)) ms)"

definition build_gateway_conversation_context ::
    "persisted_conversation \<Rightarrow> (gateway_chat_message list \<times> nat) result" where
  "build_gateway_conversation_context c =
     (case collect_context [] 0 (rev (cv_messages c)) of (reversed, bytes) \<Rightarrow>
        if reversed = [] then Inl (InvalidRequest ''conversation_model_context_empty'')
        else (let messages = rev reversed;
                  drop_first = (cm_role (hd messages) = Assistant);
                  kept = (if drop_first then tl messages else messages);
                  kept_bytes = (if drop_first then bytes - byte_len (cm_content (hd messages)) else bytes)
              in if kept = [] \<or> cm_role (last kept) \<noteq> User
                 then Inl (Persistence ''conversation_model_context_latest_user_missing'')
                 else Inr (kept, kept_bytes)))"

definition validate_conversation_model_response ::
    "model_ref \<Rightarrow> gateway_chat_response \<Rightarrow> unit result" where
  "validate_conversation_model_response model response =
     (if cr_requested_model_id response \<noteq> mr_id model
      then Inl (Gateway ''conversation_model_response_request_mismatch'')
      else if (case cr_observed_model_id response of None \<Rightarrow> False | Some observed \<Rightarrow> observed \<noteq> mr_id model)
      then Inl (Gateway ''conversation_model_response_identity_mismatch'')
      else if message_text_invalid (cr_text response)
      then Inl (Gateway ''conversation_model_response_text_invalid'')
      else Inr ())"

definition is_ascii_lower_hex :: "rchar \<Rightarrow> bool" where
  "is_ascii_lower_hex c \<longleftrightarrow> is_ascii_digit c \<or> (97 \<le> c \<and> c \<le> 102)"

definition require_deterministic_gateway_profile :: "gateway_execution_profile \<Rightarrow> unit result" where
  "require_deterministic_gateway_profile p =
     (if gp_gateway_id p = [] \<or> gp_upstream_version p = [] \<or> gp_profile_id p = []
         \<or> byte_len (gp_profile_sha256 p) \<noteq> 64 \<or> \<not> list_all is_ascii_lower_hex (gp_profile_sha256 p)
         \<or> \<not> permits_exact_model_execution p
      then Inl (Gateway ''deterministic_gateway_runtime_profile_required'') else Inr ())"

record model_gateway_bridge_identity =
  gb_gateway_id :: rstring
  gb_transport_provider :: rstring
  gb_exact_model_id_passthrough :: bool

definition require_agent_gateway_bridge_matches_profile ::
    "model_gateway_bridge_identity \<Rightarrow> gateway_execution_profile \<Rightarrow> unit result" where
  "require_agent_gateway_bridge_matches_profile bridge p =
     (if gb_gateway_id bridge \<noteq> gp_gateway_id p \<or> gb_transport_provider bridge = []
         \<or> trim (gb_transport_provider bridge) \<noteq> gb_transport_provider bridge
         \<or> list_ex is_control (gb_transport_provider bridge)
         \<or> \<not> gb_exact_model_id_passthrough bridge
      then Inl (Gateway ''agent_model_gateway_bridge_profile_mismatch'') else Inr ())"

section \<open>Lemmas\<close>

lemmas core_limits =
  MAX_CONVERSATION_MODEL_MESSAGES_def MAX_CONVERSATION_MODEL_MESSAGE_BYTES_def
  MAX_CONVERSATION_MODEL_CONTEXT_BYTES_def MAX_CONVERSATION_MESSAGES_def
  MAX_CONVERSATION_MESSAGE_BYTES_def MAX_CONVERSATION_TEXT_BYTES_def

subsection \<open>Capacity\<close>

definition turn_fits :: "persisted_conversation \<Rightarrow> rstring \<Rightarrow> bool" where
  "turn_fits c prompt \<longleftrightarrow> length (cv_messages c) \<le> MAX_CONVERSATION_MESSAGES - 2
     \<and> text_bytes (cv_messages c) + byte_len prompt + MAX_CONVERSATION_MESSAGE_BYTES
         \<le> MAX_CONVERSATION_TEXT_BYTES"

lemma capacity_Inr [simp]:
  "ensure_conversation_model_turn_capacity c prompt = Inr u \<longleftrightarrow> turn_fits c prompt"
  "ensure_conversation_agent_action_capacity c prompt = Inr u \<longleftrightarrow> turn_fits c prompt"
  by (auto simp: ensure_conversation_model_turn_capacity_def
      ensure_conversation_agent_action_capacity_def turn_fits_def)

lemma turn_fits_append:
  assumes "turn_fits c prompt" and "\<not> message_text_invalid prompt" and "\<not> message_text_invalid t"
  shows "\<exists>c1 c2. append_message c RoleUser prompt = Inr c1 \<and> append_message c1 RoleAssistant t = Inr c2"
  using assms by (auto simp: append_message_Inr turn_fits_def message_text_invalid_def core_limits)

subsection \<open>Context\<close>

lemma collect_context_spec:
  assumes "collect_context acc bytes ms = (out, n)"
    and "length acc \<le> MAX_CONVERSATION_MODEL_MESSAGES"
    and "bytes \<le> MAX_CONVERSATION_MODEL_CONTEXT_BYTES"
  shows "\<exists>k \<le> length ms. out = acc @ map gateway_message (take k ms) \<and> n = bytes + text_bytes (take k ms)
    \<and> length out \<le> MAX_CONVERSATION_MODEL_MESSAGES \<and> n \<le> MAX_CONVERSATION_MODEL_CONTEXT_BYTES
    \<and> (\<forall>m \<in> set (take k ms). byte_len (pm_text m) \<le> MAX_CONVERSATION_MODEL_MESSAGE_BYTES)
    \<and> (k < length ms \<longrightarrow> length out = MAX_CONVERSATION_MODEL_MESSAGES
         \<or> byte_len (pm_text (ms ! k)) > MAX_CONVERSATION_MODEL_MESSAGE_BYTES
         \<or> n + byte_len (pm_text (ms ! k)) > MAX_CONVERSATION_MODEL_CONTEXT_BYTES)"
  using assms
proof (induction acc bytes ms rule: collect_context.induct)
  case (1 acc bytes)
  then show ?case by simp
next
  case (2 acc bytes m ms)
  show ?case
  proof (cases "length acc = MAX_CONVERSATION_MODEL_MESSAGES
      \<or> byte_len (pm_text m) > MAX_CONVERSATION_MODEL_MESSAGE_BYTES
      \<or> bytes + byte_len (pm_text m) > MAX_CONVERSATION_MODEL_CONTEXT_BYTES")
    case True
    with 2(2-) show ?thesis by (intro exI [of _ 0]) (auto split: if_splits)
  next
    case False
    then have "collect_context (acc @ [gateway_message m]) (bytes + byte_len (pm_text m)) ms = (out, n)"
      "length (acc @ [gateway_message m]) \<le> MAX_CONVERSATION_MODEL_MESSAGES"
      "bytes + byte_len (pm_text m) \<le> MAX_CONVERSATION_MODEL_CONTEXT_BYTES"
      using 2(2,3) by auto
    from 2(1) [OF _ _ this] False obtain k where "k \<le> length ms"
      "out = (acc @ [gateway_message m]) @ map gateway_message (take k ms)"
      "n = bytes + byte_len (pm_text m) + text_bytes (take k ms)"
      "length out \<le> MAX_CONVERSATION_MODEL_MESSAGES" "n \<le> MAX_CONVERSATION_MODEL_CONTEXT_BYTES"
      "\<forall>m \<in> set (take k ms). byte_len (pm_text m) \<le> MAX_CONVERSATION_MODEL_MESSAGE_BYTES"
      "k < length ms \<longrightarrow> length out = MAX_CONVERSATION_MODEL_MESSAGES
         \<or> byte_len (pm_text (ms ! k)) > MAX_CONVERSATION_MODEL_MESSAGE_BYTES
         \<or> n + byte_len (pm_text (ms ! k)) > MAX_CONVERSATION_MODEL_CONTEXT_BYTES"
      by blast
    with False show ?thesis by (intro exI [of _ "Suc k"]) auto
  qed
qed

lemma gateway_message_simps [simp]:
  "cm_content (gateway_message m) = pm_text m"
  "cm_role (gateway_message m) = Assistant \<longleftrightarrow> pm_role m = RoleAssistant"
  "cm_role (gateway_message m) = User \<longleftrightarrow> pm_role m = RoleUser"
  by (simp_all add: gateway_message_def gateway_role_def split: conversation_role.split)

lemma text_bytes_rev [simp]: "text_bytes (rev ms) = text_bytes ms"
  by (simp add: text_bytes_def rev_map [symmetric] sum_list_rev)

text \<open>The context is a suffix of the history that ends with the user's newest message; it starts with
  an answer only where two answers adjoin in the history.\<close>

definition recent_context :: "persisted_message list \<Rightarrow> persisted_message list \<Rightarrow> bool" where
  "recent_context history ms \<longleftrightarrow> suffix ms history \<and> ms \<noteq> []
     \<and> pm_role (last ms) = RoleUser
     \<and> (pm_role (hd ms) = RoleAssistant
         \<longrightarrow> (\<exists>m. pm_role m = RoleAssistant \<and> suffix (m # ms) history))
     \<and> length ms \<le> MAX_CONVERSATION_MODEL_MESSAGES
     \<and> text_bytes ms \<le> MAX_CONVERSATION_MODEL_CONTEXT_BYTES
     \<and> (\<forall>m \<in> set ms. byte_len (pm_text m) \<le> MAX_CONVERSATION_MODEL_MESSAGE_BYTES)"

lemma collect_newest:
  assumes "collect_context [] 0 (rev history) = (out, n)"
  obtains kept where "suffix kept history" "rev out = map gateway_message kept" "n = text_bytes kept"
    "length kept \<le> MAX_CONVERSATION_MODEL_MESSAGES" "n \<le> MAX_CONVERSATION_MODEL_CONTEXT_BYTES"
    "\<forall>m \<in> set kept. byte_len (pm_text m) \<le> MAX_CONVERSATION_MODEL_MESSAGE_BYTES"
    "history \<noteq> [] \<and> kept = []
      \<longrightarrow> byte_len (pm_text (last history)) > MAX_CONVERSATION_MODEL_MESSAGE_BYTES"
proof -
  have "length ([] :: gateway_chat_message list) \<le> MAX_CONVERSATION_MODEL_MESSAGES"
    "0 \<le> MAX_CONVERSATION_MODEL_CONTEXT_BYTES" by simp_all
  from collect_context_spec [OF assms this] obtain k where k: "k \<le> length (rev history)"
    "out = [] @ map gateway_message (take k (rev history))" "n = 0 + text_bytes (take k (rev history))"
    "length out \<le> MAX_CONVERSATION_MODEL_MESSAGES" "n \<le> MAX_CONVERSATION_MODEL_CONTEXT_BYTES"
    "\<forall>m \<in> set (take k (rev history)). byte_len (pm_text m) \<le> MAX_CONVERSATION_MODEL_MESSAGE_BYTES"
    "k < length (rev history) \<longrightarrow> length out = MAX_CONVERSATION_MODEL_MESSAGES
      \<or> byte_len (pm_text (rev history ! k)) > MAX_CONVERSATION_MODEL_MESSAGE_BYTES
      \<or> n + byte_len (pm_text (rev history ! k)) > MAX_CONVERSATION_MODEL_CONTEXT_BYTES"
    by blast
  let ?kept = "drop (length history - k) history"
  have kept: "take k (rev history) = rev ?kept" using k(1) by (simp add: rev_drop)
  show ?thesis
  proof (rule that [of ?kept])
    show "suffix ?kept history" by (rule suffix_drop)
    show "history \<noteq> [] \<and> ?kept = []
      \<longrightarrow> byte_len (pm_text (last history)) > MAX_CONVERSATION_MODEL_MESSAGE_BYTES"
      proof (intro impI, elim conjE)
      assume "history \<noteq> []" "?kept = []"
      then have "k = 0" using k(1) by auto
      then show "byte_len (pm_text (last history)) > MAX_CONVERSATION_MODEL_MESSAGE_BYTES"
        using k(2,3,7) \<open>history \<noteq> []\<close> by (auto simp: core_limits last_conv_nth rev_nth)
    qed
  qed (use k in \<open>auto simp: kept rev_map\<close>)
qed

lemma build_context_Inr:
  assumes "build_gateway_conversation_context c = Inr (ms, n)"
  shows "\<exists>kept. recent_context (cv_messages c) kept \<and> ms = map gateway_message kept \<and> n = text_bytes kept"
proof -
  obtain out b where out: "collect_context [] 0 (rev (cv_messages c)) = (out, b)" by fastforce
  then obtain kept where kept: "suffix kept (cv_messages c)" "rev out = map gateway_message kept"
    "b = text_bytes kept" "length kept \<le> MAX_CONVERSATION_MODEL_MESSAGES"
    "b \<le> MAX_CONVERSATION_MODEL_CONTEXT_BYTES"
    "\<forall>m \<in> set kept. byte_len (pm_text m) \<le> MAX_CONVERSATION_MODEL_MESSAGE_BYTES"
    by (rule collect_newest)
  show ?thesis
  proof (cases kept)
    case Nil
    then show ?thesis using assms out kept(2) by (simp add: build_gateway_conversation_context_def)
  next
    case (Cons m rest)
    then have "out \<noteq> []" using kept(2) by auto
    show ?thesis
    proof (cases "pm_role m = RoleAssistant")
      case True
      have "suffix rest (cv_messages c)" using kept(1) Cons by (auto simp: suffix_def)
      then show ?thesis using assms out kept \<open>out \<noteq> []\<close> True Cons
        apply (intro exI [of _ rest])
        apply (auto simp: build_gateway_conversation_context_def recent_context_def last_map Let_def
            split: if_splits)
        done
    next
      case False
      then show ?thesis using assms out kept \<open>out \<noteq> []\<close> Cons
        apply (intro exI [of _ kept])
        apply (auto simp: build_gateway_conversation_context_def recent_context_def last_map Let_def
            split: if_splits)
        done
    qed
  qed
qed

lemma build_context_total:
  assumes "cv_messages c \<noteq> []" and "pm_role (last (cv_messages c)) = RoleUser"
    and "byte_len (pm_text (last (cv_messages c))) \<le> MAX_CONVERSATION_MODEL_MESSAGE_BYTES"
  shows "is_ok (build_gateway_conversation_context c)"
proof -
  obtain out b where out: "collect_context [] 0 (rev (cv_messages c)) = (out, b)" by fastforce
  then obtain kept where kept: "suffix kept (cv_messages c)" "rev out = map gateway_message kept"
    "cv_messages c \<noteq> [] \<and> kept = [] \<longrightarrow>
      byte_len (pm_text (last (cv_messages c))) > MAX_CONVERSATION_MODEL_MESSAGE_BYTES"
    by (rule collect_newest)
  have ne: "kept \<noteq> []" using kept(3) assms(1,3) by auto
  have "last kept = last (cv_messages c)" using kept(1) ne by (auto simp: suffix_def)
  then show ?thesis using out kept(2) ne assms(2)
    by (cases kept) (auto simp: build_gateway_conversation_context_def Let_def last_map hd_map)
qed

lemma gateway_messages_valid:
  assumes "\<forall>m \<in> set ms. \<not> message_text_invalid (pm_text m)
      \<and> byte_len (pm_text m) \<le> MAX_CONVERSATION_MODEL_MESSAGE_BYTES"
    and "acc + text_bytes ms \<le> MAX_CONVERSATION_MODEL_CONTEXT_BYTES"
  shows "Gateway_Omniroute.validate_messages acc u (map gateway_message ms)
    = Inr (u \<or> (\<exists>m \<in> set ms. pm_role m = RoleUser))"
  using assms
  by (induction ms arbitrary: acc u)
    (auto simp: message_text_invalid_def core_limits MAX_MESSAGE_BYTES_def MAX_TOTAL_MESSAGE_BYTES_def)

subsection \<open>Observed turns\<close>

lemma observe_events_snoc [simp]:
  "observe_events ob [] = ob" "observe_events ob (es @ [e]) = observe_event (observe_events ob es) e"
  by (simp_all add: observe_events_def)

lemma put_call_simps [simp]:
  "set (put_call k v cs) = insert (k, v) {e \<in> set cs. fst e \<noteq> k}"
  "distinct (map fst cs) \<Longrightarrow> distinct (map fst (put_call k v cs))"
  by (auto simp: put_call_def distinct_map_filter)

definition ok_call :: "agent_event list \<Rightarrow> rstring \<Rightarrow> observed_tool_call \<Rightarrow> bool" where
  "ok_call events i call \<longleftrightarrow> oc_tool call \<in> set AGENT_ACTION_FILE_TOOLS
     \<and> ToolStarted (oc_tool call) i \<in> set events
     \<and> (oc_finished call \<longrightarrow> (\<exists>out err. ToolFinished (oc_tool call) i (oc_ok call) out err \<in> set events))"

text \<open>Without a protocol failure the observation is exactly what the events tell.\<close>

definition observed_from :: "agent_event list \<Rightarrow> agent_action_observation \<Rightarrow> bool" where
  "observed_from events ob \<longleftrightarrow> distinct (map fst (ao_calls ob))
     \<and> (\<forall>e \<in> set (ao_calls ob). ok_call events (fst e) (snd e))
     \<and> (\<forall>tool i. ToolStarted tool i \<in> set events \<longrightarrow> (\<exists>call. (i, call) \<in> set (ao_calls ob) \<and> oc_tool call = tool))"

lemma observed_fromD: "observed_from events ob \<Longrightarrow> (i, call) \<in> set (ao_calls ob) \<Longrightarrow> ok_call events i call"
  by (auto simp: observed_from_def)

lemma ok_call_mono: "ok_call events i call \<Longrightarrow> set events \<subseteq> set events' \<Longrightarrow> ok_call events' i call"
  unfolding ok_call_def by blast

lemma observe_failure_stays: "ao_protocol_failure ob \<Longrightarrow> ao_protocol_failure (observe_event ob e)"
  by (auto simp: observe_event_def Let_def split: agent_event.split option.split)

lemma observed_put:
  assumes old: "observed_from events ob" and new: "ok_call (events @ [e]) i call"
    and start: "\<And>t j. e = ToolStarted t j \<Longrightarrow> j = i \<and> t = oc_tool call"
    and same: "\<And>c. (i, c) \<in> set (ao_calls ob) \<Longrightarrow> oc_tool c = oc_tool call"
    and calls: "ao_calls ob' = put_call i call (ao_calls ob)"
  shows "observed_from (events @ [e]) ob'"
  unfolding observed_from_def
proof (intro conjI ballI allI impI)
  show "distinct (map fst (ao_calls ob'))" using old by (simp add: calls observed_from_def)
next
  fix x
  assume "x \<in> set (ao_calls ob')"
  then consider "x = (i, call)" | "x \<in> set (ao_calls ob)" by (auto simp: calls)
  then show "ok_call (events @ [e]) (fst x) (snd x)"
  proof cases
    case 1
    then show ?thesis using new by simp
  next
    case 2
    then have "ok_call events (fst x) (snd x)" using old by (simp add: observed_from_def)
    then show ?thesis by (rule ok_call_mono) auto
  qed
next
  fix t j
  assume "ToolStarted t j \<in> set (events @ [e])"
  then consider "e = ToolStarted t j" | "ToolStarted t j \<in> set events" by auto
  then show "\<exists>c. (j, c) \<in> set (ao_calls ob') \<and> oc_tool c = t"
  proof cases
    case 1
    then show ?thesis using start by (auto simp: calls)
  next
    case 2
    then obtain c where c: "(j, c) \<in> set (ao_calls ob)" "oc_tool c = t"
      using old unfolding observed_from_def by blast
    show ?thesis
    proof (cases "j = i")
      case True
      then show ?thesis using same c by (auto simp: calls)
    next
      case False
      then show ?thesis using c by (auto simp: calls)
    qed
  qed
qed

lemma observed_event:
  assumes "observed_from events ob" and "\<not> ao_protocol_failure (observe_event ob e)"
  shows "observed_from (events @ [e]) (observe_event ob e)"
proof (cases e)
  case (ToolStarted tool i)
  then have fresh: "map_of (ao_calls ob) i = None" "tool \<in> set AGENT_ACTION_FILE_TOOLS"
    and ob': "ao_calls (observe_event ob e)
      = put_call i \<lparr>oc_tool = tool, oc_finished = False, oc_ok = False\<rparr> (ao_calls ob)"
    using assms(2) by (auto simp: observe_event_def Let_def split: if_splits)
  show ?thesis
  proof (rule observed_put [OF assms(1) _ _ _ ob'])
    show "ok_call (events @ [e]) i \<lparr>oc_tool = tool, oc_finished = False, oc_ok = False\<rparr>"
      using fresh(2) ToolStarted by (simp add: ok_call_def)
  qed (use fresh(1) ToolStarted in \<open>auto simp: map_of_eq_None_iff image_iff\<close>)
next
  case (ToolFinished tool i ok out err)
  then obtain call where call: "map_of (ao_calls ob) i = Some call" "oc_tool call = tool"
    "\<not> oc_finished call" and ob': "ao_calls (observe_event ob e)
      = put_call i (call\<lparr>oc_finished := True, oc_ok := ok\<rparr>) (ao_calls ob)"
    using assms(2) by (auto simp: observe_event_def split: option.splits if_splits)
  have "ok_call events i call"
    using assms(1) map_of_SomeD [OF call(1)] by (auto simp: observed_from_def)
  then have new: "ok_call (events @ [e]) i (call\<lparr>oc_finished := True, oc_ok := ok\<rparr>)"
    using ToolFinished call(2) by (auto simp: ok_call_def)
  have unique: "c = call" if "(i, c) \<in> set (ao_calls ob)" for c
    using assms(1) call(1) that by (auto simp: observed_from_def)
  show ?thesis
    by (rule observed_put [OF assms(1) new _ _ ob']) (use ToolFinished unique in auto)
qed (use assms(1) in \<open>auto simp: observed_from_def observe_event_def intro: ok_call_mono\<close>)

lemma observed_events:
  "\<not> ao_protocol_failure (observe_events agent_action_observation_default events)
   \<Longrightarrow> observed_from events (observe_events agent_action_observation_default events)"
proof (induction events rule: rev_induct)
  case Nil
  then show ?case by (simp add: observed_from_def agent_action_observation_default_def)
next
  case (snoc e events)
  then have "\<not> ao_protocol_failure (observe_events agent_action_observation_default events)"
    using observe_failure_stays by auto
  with snoc show ?case by (simp add: observed_event)
qed

definition succeeded :: "tool_call_result \<Rightarrow> bool" where
  "succeeded call \<longleftrightarrow> tc_error call = None"

lemma check_tool_calls_Inr:
  "check_tool_calls ob ids f m calls = Inr (f', m') \<longleftrightarrow>
     distinct (map tc_call_id calls) \<and> ids \<inter> set (map tc_call_id calls) = {}
     \<and> (\<forall>c \<in> set calls. agent_action_tool_identity_is_safe (tc_tool c) (tc_call_id c)
          \<and> tc_tool c \<in> set AGENT_ACTION_FILE_TOOLS
          \<and> (\<exists>ob'. map_of (ao_calls ob) (tc_call_id c) = Some ob' \<and> oc_tool ob' = tc_tool c
               \<and> oc_finished ob' \<and> oc_ok ob' = succeeded c))
     \<and> f' = f + length (filter succeeded calls)
     \<and> m' = m + length (filter (\<lambda>c. succeeded c \<and> tc_tool c \<in> set AGENT_ACTION_MUTATION_TOOLS) calls)"
proof (induction calls arbitrary: ids f m)
  case Nil
  then show ?case by auto
next
  case (Cons c calls)
  show ?case
    by (cases "map_of (ao_calls ob) (tc_call_id c)")
      (auto simp: Cons.IH succeeded_def Let_def)
qed

lemma check_tool_calls_entry:
  assumes "check_tool_calls ob {} 0 0 calls = Inr (f, m)" and "c \<in> set calls"
  shows "\<exists>call. (tc_call_id c, call) \<in> set (ao_calls ob) \<and> oc_tool call = tc_tool c
    \<and> oc_finished call \<and> oc_ok call = succeeded c"
proof -
  obtain call where "map_of (ao_calls ob) (tc_call_id c) = Some call" "oc_tool call = tc_tool c"
    "oc_finished call" "oc_ok call = succeeded c"
    using assms unfolding check_tool_calls_Inr by blast
  then show ?thesis using map_of_SomeD by fast
qed

lemma transcript_complete:
  assumes ob: "observed_from events ob" and calls: "check_tool_calls ob {} 0 0 calls = Inr (f, m)"
    and len: "length (ao_calls ob) = length calls" and started: "ToolStarted tool i \<in> set events"
  shows "tool \<in> set AGENT_ACTION_FILE_TOOLS \<and> (\<exists>c \<in> set calls. tc_tool c = tool \<and> tc_call_id c = i)"
proof -
  have "set (map tc_call_id calls) \<subseteq> set (map fst (ao_calls ob))"
    using check_tool_calls_entry [OF calls] by (force simp: image_iff)
  moreover have "card (set (map tc_call_id calls)) = card (set (map fst (ao_calls ob)))"
    using calls len ob by (metis check_tool_calls_Inr distinct_card length_map observed_from_def)
  ultimately have ids: "set (map tc_call_id calls) = set (map fst (ao_calls ob))"
    by (intro card_subset_eq) auto
  obtain call where call: "(i, call) \<in> set (ao_calls ob)" "oc_tool call = tool"
    using ob started unfolding observed_from_def by blast
  then have "i \<in> set (map tc_call_id calls)" unfolding ids by force
  then obtain c where c: "c \<in> set calls" "tc_call_id c = i" by auto
  obtain call' where "(i, call') \<in> set (ao_calls ob)" "oc_tool call' = tc_tool c"
    using check_tool_calls_entry [OF calls c(1)] c(2) by blast
  with call ob have "tc_tool c = tool" by (auto simp: observed_from_def dest: eq_key_imp_eq_value)
  moreover have "tool \<in> set AGENT_ACTION_FILE_TOOLS"
    using ob call by (auto simp: observed_from_def ok_call_def)
  ultimately show ?thesis using c by blast
qed

subsection \<open>The status line\<close>

definition status_marker :: "explicit_loop_decision \<Rightarrow> rstring" where
  "status_marker d = (case d of EL_Complete \<Rightarrow> EXPLICIT_AGENT_LOOP_COMPLETE_MARKER
     | EL_Continue \<Rightarrow> EXPLICIT_AGENT_LOOP_CONTINUE_MARKER)"

lemma strip_suffix_iff: "strip_suffix s p = Some b \<longleftrightarrow> s = b @ p"
  using strip_suffix_Some strip_suffix_append by metis

lemma markers_eq:
  "EXPLICIT_AGENT_LOOP_COMPLETE_MARKER = lit ''VIBECODER_LOOP_STATUS=c'' @ lit ''omplete''"
  "EXPLICIT_AGENT_LOOP_CONTINUE_MARKER = lit ''VIBECODER_LOOP_STATUS=c'' @ lit ''ontinue''"
  by code_simp+

lemma marker_lengths [simp]: "length (status_marker d) = 30"
  by (cases d) (simp_all add: status_marker_def markers_eq lit_def)

lemma marker_clash:
  assumes "s = b @ status_marker d" and "s = b' @ status_marker d'"
  shows "b' = b \<and> d' = d"
proof -
  have "status_marker d = status_marker d'" "b' = b" using assms by auto
  then show ?thesis by (cases d; cases d') (auto simp: status_marker_def markers_eq lit_def)
qed

lemma loop_status_Some: "loop_status s = Some (b, d) \<longleftrightarrow> s = b @ status_marker d"
proof
  assume "loop_status s = Some (b, d)"
  then show "s = b @ status_marker d"
    by (auto simp: loop_status_def status_marker_def strip_suffix_iff split: option.splits)
next
  assume s: "s = b @ status_marker d"
  then have "strip_suffix s (status_marker d) = Some b" by (simp add: strip_suffix_iff)
  then have "loop_status s \<noteq> None"
    by (cases d) (auto simp: loop_status_def status_marker_def split: option.split)
  then obtain b' d' where r: "loop_status s = Some (b', d')" by auto
  then have "s = b' @ status_marker d'"
    by (auto simp: loop_status_def status_marker_def strip_suffix_iff split: option.splits)
  then show "loop_status s = Some (b, d)" using marker_clash s r by metis
qed

lemma drop_end_iff:
  "rev (dropWhile P (rev s)) = b \<longleftrightarrow>
     (\<exists>t. s = b @ t \<and> (\<forall>c \<in> set t. P c) \<and> (b = [] \<or> \<not> P (last b)))"
proof
  assume b: "rev (dropWhile P (rev s)) = b"
  have "s = b @ rev (takeWhile P (rev s))"
    using b by (metis rev_append rev_rev_ident takeWhile_dropWhile_id)
  moreover have "b = [] \<or> \<not> P (last b)"
    using b hd_dropWhile [of P "rev s"] by (auto simp: last_rev)
  ultimately show "\<exists>t. s = b @ t \<and> (\<forall>c \<in> set t. P c) \<and> (b = [] \<or> \<not> P (last b))"
    by (intro exI [of _ "rev (takeWhile P (rev s))"]) (auto dest: set_takeWhileD)
next
  assume "\<exists>t. s = b @ t \<and> (\<forall>c \<in> set t. P c) \<and> (b = [] \<or> \<not> P (last b))"
  then obtain t where t: "s = b @ t" "\<forall>c \<in> set t. P c" "b = [] \<or> \<not> P (last b)" by blast
  then have "dropWhile P (rev s) = dropWhile P (rev b)"
    using dropWhile_append2 [of "rev t" P "rev b"] by simp
  also have "\<dots> = rev b" using t(3) by (cases b rule: rev_cases) auto
  finally show "rev (dropWhile P (rev s)) = b" by simp
qed

definition ok_loop_body :: "rstring \<Rightarrow> bool" where
  "ok_loop_body body \<longleftrightarrow> trim body \<noteq> [] \<and> last body \<notin> {13, 10, 32, 9}
     \<and> (\<forall>d. \<not> contains_str body (status_marker d))"

lemma status_marker_end: "\<exists>m. status_marker d = m @ [101]"
  by (cases d) (auto simp: status_marker_def markers_eq lit_def)

lemma trim_end_status: "trim_end t = raw @ status_marker d \<longleftrightarrow>
    (\<exists>tail. t = raw @ status_marker d @ tail \<and> list_all is_whitespace tail)"
proof -
  obtain m where "status_marker d = m @ [101]" using status_marker_end by blast
  then show ?thesis unfolding trim_end_def drop_end_iff
    by (auto simp: list_all_iff is_whitespace_def)
qed

section \<open>Properties\<close>

text \<open>C9: An accepted action turn is backed by the events of the turn. Its reported tool calls have
  distinct ids, and each was seen to start and to finish with the reported result; no other tool was
  started; only the eight file tools occur; and the counts of successful calls and of successful
  mutations are exact, with at least one mutation.\<close>

theorem accepted_turn_is_evidenced:
  assumes "validate_agent_action_turn turn (observe_events agent_action_observation_default events)
    = Inr (observed, files, mutations)"
  shows "distinct (map tc_call_id (tr_tool_calls turn))
    \<and> (\<forall>c \<in> set (tr_tool_calls turn). ToolStarted (tc_tool c) (tc_call_id c) \<in> set events
         \<and> (\<exists>out err. ToolFinished (tc_tool c) (tc_call_id c) (tc_error c = None) out err \<in> set events))
    \<and> (\<forall>tool i. ToolStarted tool i \<in> set events \<longrightarrow> tool \<in> set AGENT_ACTION_FILE_TOOLS
         \<and> (\<exists>c \<in> set (tr_tool_calls turn). tc_tool c = tool \<and> tc_call_id c = i))
    \<and> observed = length (tr_tool_calls turn)
    \<and> files = length (filter (\<lambda>c. tc_error c = None) (tr_tool_calls turn))
    \<and> mutations = length (filter (\<lambda>c. tc_error c = None \<and> tc_tool c \<in> set AGENT_ACTION_MUTATION_TOOLS)
        (tr_tool_calls turn)) \<and> mutations > 0"
proof -
  let ?ob = "observe_events agent_action_observation_default events"
  let ?calls = "tr_tool_calls turn"
  have acc: "\<not> ao_protocol_failure ?ob" "length (ao_calls ?ob) = length ?calls"
    "check_tool_calls ?ob {} 0 0 ?calls = Inr (files, mutations)" "observed = length (ao_calls ?ob)"
    "mutations > 0"
    using assms by (auto simp: validate_agent_action_turn_def validate_agent_file_tool_turn_def
        rbind_eq_Inr split: if_splits)
  have ob: "observed_from events ?ob" by (rule observed_events [OF acc(1)])
  have evidenced: "ToolStarted (tc_tool c) (tc_call_id c) \<in> set events
      \<and> (\<exists>out err. ToolFinished (tc_tool c) (tc_call_id c) (tc_error c = None) out err \<in> set events)"
    if c: "c \<in> set ?calls" for c
  proof -
    obtain call where call: "(tc_call_id c, call) \<in> set (ao_calls ?ob)" "oc_tool call = tc_tool c"
      "oc_finished call" "oc_ok call = succeeded c"
      using check_tool_calls_entry [OF acc(3) c] by (elim exE conjE) (rule that)
    have "ok_call events (tc_call_id c) call" using ob call(1) by (rule observed_fromD)
    then show ?thesis by (simp only: ok_call_def call(2-4) succeeded_def simp_thms)
  qed
  have reported: "tool \<in> set AGENT_ACTION_FILE_TOOLS
      \<and> (\<exists>c \<in> set ?calls. tc_tool c = tool \<and> tc_call_id c = i)"
    if "ToolStarted tool i \<in> set events" for tool i
    using transcript_complete [OF ob acc(3,2) that] .
  show ?thesis
    using acc(3) [unfolded check_tool_calls_Inr succeeded_def] acc(2,4,5) reported evidenced by auto
qed

text \<open>Whatever the history, a conversation whose newest message is a user prompt within the model
  limit yields a context, and the gateway accepts the request made of it. The context is a run of the
  newest messages that ends with the prompt, within the message, byte and size limits of the gateway.\<close>

theorem model_context_accepted:
  assumes "ok_messages (cv_messages c)" and "append_message c RoleUser prompt = Inr c'"
    and "validate_conversation_model_prompt prompt = Inr ()"
    and "validate_conversation_model_id (mr_id model) = Inr ()"
    and "\<forall>p. mr_provider model = Some p
      \<longrightarrow> validate_chat_text p CHAT_MAX_PROVIDER_BYTES ''invalid_inference_model_provider'' = Inr ()"
  shows "\<exists>kept bytes.
    build_gateway_conversation_context c' = Inr (map gateway_message kept, bytes)
    \<and> recent_context (cv_messages c') kept \<and> bytes = text_bytes kept
    \<and> validate_request \<lparr>cq_model = model, cq_messages = map gateway_message kept,
         cq_max_output_tokens = MAX_CONVERSATION_MODEL_OUTPUT_TOKENS\<rparr> = Inr ()"
proof -
  have ok: "ok_messages (cv_messages c')" by (rule append_message_ok [OF assms(2,1)])
  have "cv_messages c' \<noteq> []" "pm_role (last (cv_messages c')) = RoleUser"
    "byte_len (pm_text (last (cv_messages c'))) \<le> MAX_CONVERSATION_MODEL_MESSAGE_BYTES"
    using assms(2,3) by (auto simp: append_message_Inr validate_conversation_model_prompt_def split: if_splits)
  then obtain ms n where built: "build_gateway_conversation_context c' = Inr (ms, n)"
    using build_context_total by (metis is_ok_iff old.prod.exhaust)
  then obtain kept where kept: "recent_context (cv_messages c') kept" "ms = map gateway_message kept"
    "n = text_bytes kept" using build_context_Inr by blast
  have sub: "set kept \<subseteq> set (cv_messages c')"
    using kept(1) set_mono_suffix by (auto simp: recent_context_def)
  have "Gateway_Omniroute.validate_messages 0 False ms = Inr (False \<or> (\<exists>m \<in> set kept. pm_role m = RoleUser))"
    unfolding kept(2) using kept(1) ok sub
    by (intro gateway_messages_valid) (auto simp: recent_context_def ok_messages_def)
  moreover have "\<exists>m \<in> set kept. pm_role m = RoleUser"
    using kept(1) last_in_set by (auto simp: recent_context_def)
  ultimately have "validate_request \<lparr>cq_model = model, cq_messages = ms,
      cq_max_output_tokens = MAX_CONVERSATION_MODEL_OUTPUT_TOKENS\<rparr> = Inr ()"
    using kept(1,2) assms(4,5)
    by (auto simp: validate_request_def validate_chat_text_def validate_conversation_model_id_def
        recent_context_def core_limits MAX_MESSAGES_def CHAT_MAX_MODEL_ID_BYTES_def ensure_def
        MAX_CONVERSATION_MODEL_ID_BYTES_def MAX_CONVERSATION_MODEL_OUTPUT_TOKENS_def
        MAX_OUTPUT_TOKENS_def rbind_eq_Inr split: if_splits option.split)
  then show ?thesis using built kept by blast
qed

text \<open>The capacity check before a model or action turn reserves enough. After it succeeded, the
  prompt and then any persistable answer of up to 256 KiB can be appended, and the conversation stays
  within its limits, so a finished turn can always be stored.\<close>

theorem turn_capacity_suffices:
  assumes "ok_messages (cv_messages c)" and "\<not> message_text_invalid prompt"
    and "ensure_conversation_model_turn_capacity c prompt = Inr ()
       \<or> ensure_conversation_agent_action_capacity c prompt = Inr ()"
    and "\<not> message_text_invalid answer"
  shows "\<exists>c1 c2. append_message c RoleUser prompt = Inr c1
    \<and> append_message c1 RoleAssistant answer = Inr c2 \<and> ok_messages (cv_messages c2)"
proof -
  have "turn_fits c prompt" using assms(3) by simp
  then obtain c1 c2 where "append_message c RoleUser prompt = Inr c1"
    "append_message c1 RoleAssistant answer = Inr c2" using turn_fits_append assms(2,4) by blast
  then show ?thesis using append_message_ok assms(1) by blast
qed

text \<open>The status line of an explicit loop is read exactly. An answer is accepted with a decision
  and a body if and only if it is persistable and consists of the body, blanks, the marker of that
  decision and trailing white space, where the body is not blank, does not end in a blank and holds
  neither marker.\<close>

theorem loop_response_exact:
  "parse_explicit_agent_loop_response t = Inr (d, body) \<longleftrightarrow>
     \<not> message_text_invalid t \<and> ok_loop_body body
     \<and> (\<exists>sep tail. t = body @ sep @ status_marker d @ tail \<and> set sep \<subseteq> {13, 10, 32, 9}
          \<and> list_all is_whitespace tail)"
  (is "?parsed \<longleftrightarrow> ?accepted")
proof -
  have markers: "(\<forall>d. \<not> contains_str b (status_marker d)) \<longleftrightarrow>
      \<not> contains_str b EXPLICIT_AGENT_LOOP_COMPLETE_MARKER
      \<and> \<not> contains_str b EXPLICIT_AGENT_LOOP_CONTINUE_MARKER" for b
    using explicit_loop_decision.exhaust by (metis explicit_loop_decision.simps(3,4) status_marker_def)
  have blanks: "trim_end_blanks raw = body \<longleftrightarrow>
      (\<exists>sep. raw = body @ sep \<and> set sep \<subseteq> {13, 10, 32, 9} \<and> (body = [] \<or> last body \<notin> {13, 10, 32, 9}))"
    for raw unfolding trim_end_blanks_def drop_end_iff by blast
  have parts: "(\<exists>raw. (\<exists>tail. t = raw @ m @ tail \<and> W tail) \<and> (\<exists>sep. raw = body @ sep \<and> B sep \<and> C))
      \<longleftrightarrow> C \<and> (\<exists>sep tail. t = body @ sep @ m @ tail \<and> B sep \<and> W tail)" for m W B C
    by (metis append_assoc)
  have ne: "trim body \<noteq> [] \<Longrightarrow> body \<noteq> []" by (auto simp: trim_def trim_start_def trim_end_def)
  have "?parsed \<longleftrightarrow> \<not> message_text_invalid t
      \<and> (\<exists>raw. trim_end t = raw @ status_marker d \<and> trim_end_blanks raw = body) \<and> trim body \<noteq> []
      \<and> (\<forall>d. \<not> contains_str body (status_marker d)) \<and> byte_len body \<le> MAX_CONVERSATION_MESSAGE_BYTES"
    unfolding markers loop_status_Some [symmetric]
    by (auto simp: parse_explicit_agent_loop_response_def Let_def split: option.splits if_splits)
  also have "\<dots> \<longleftrightarrow> \<not> message_text_invalid t \<and> trim body \<noteq> []
      \<and> (\<exists>sep tail. t = body @ sep @ status_marker d @ tail \<and> set sep \<subseteq> {13, 10, 32, 9}
          \<and> list_all is_whitespace tail) \<and> last body \<notin> {13, 10, 32, 9}
      \<and> (\<forall>d. \<not> contains_str body (status_marker d)) \<and> byte_len body \<le> MAX_CONVERSATION_MESSAGE_BYTES"
    unfolding trim_end_status blanks using ne by (simp only: parts) blast
  also have "\<dots> \<longleftrightarrow> ?accepted"
    unfolding ok_loop_body_def message_text_invalid_def by auto
  finally show ?thesis .
qed

section \<open>Concrete instances\<close>

definition demo_turn :: turn_result where
  "demo_turn = \<lparr>tr_text = lit ''done'', tr_cancelled = False,
     tr_tool_calls = [\<lparr>tc_call_id = lit ''c1'', tc_tool = lit ''write'', tc_output = [], tc_error = None\<rparr>],
     tr_usage = None\<rparr>"

definition demo_events :: "agent_event list" where
  "demo_events = [MessageAccepted, ToolStarted (lit ''write'') (lit ''c1''),
     ToolFinished (lit ''write'') (lit ''c1'') True [] None, TurnCompleted]"

definition demo_chat :: persisted_conversation where
  "demo_chat = \<lparr>cv_schema = CONVERSATION_STATE_SCHEMA_V1, cv_revision = 3,
     cv_conversation_id = ConversationId 7, cv_project_id = ProjectId 5,
     cv_session_creation_pending = False,
     cv_agent_session = Some \<lparr>as_runtime_id = lit ''jcode'', as_session_id = SessionId (lit ''s1''),
       as_preferred_model = None\<rparr>,
     cv_turn_pending = False, cv_title = None,
     cv_messages = [\<lparr>pm_sequence = 0, pm_role = RoleUser, pm_text = lit ''hi''\<rparr>,
       \<lparr>pm_sequence = 1, pm_role = RoleAssistant, pm_text = lit ''hello''\<rparr>]\<rparr>"

lemma demo_chat_ok: "ok_messages (cv_messages demo_chat)"
proof -
  have "Persistence_Contract.validate_messages 0 0 (cv_messages demo_chat) = Inr ()" by code_simp
  moreover have "length (cv_messages demo_chat) \<le> MAX_CONVERSATION_MESSAGES"
    by (simp add: demo_chat_def core_limits)
  ultimately show ?thesis by (simp only: validate_messages_Inr ok_messages_def) (simp add: demo_chat_def)
qed

theorem accepted_turn_is_evidenced_witness:
  "ToolFinished (lit ''write'') (lit ''c1'') True [] None \<in> set demo_events
   \<and> distinct (map tc_call_id (tr_tool_calls demo_turn))"
proof -
  have "validate_agent_action_turn demo_turn (observe_events agent_action_observation_default demo_events)
      = Inr (1, 1, 1)" by code_simp
  from accepted_turn_is_evidenced [OF this] show ?thesis by (simp add: demo_events_def)
qed

theorem model_context_accepted_witness:
  "\<exists>c' kept bytes. append_message demo_chat RoleUser (lit ''go'') = Inr c'
    \<and> build_gateway_conversation_context c' = Inr (map gateway_message kept, bytes) \<and> kept \<noteq> []"
proof -
  have "is_ok (append_message demo_chat RoleUser (lit ''go''))" by code_simp
  then obtain c' where c': "append_message demo_chat RoleUser (lit ''go'') = Inr c'"
    by (auto simp: is_ok_iff)
  let ?model = "\<lparr>mr_id = lit ''m'', mr_display_name = None, mr_provider = None\<rparr>"
  have "validate_conversation_model_prompt (lit ''go'') = Inr ()"
    "validate_conversation_model_id (mr_id ?model) = Inr ()" by code_simp+
  from model_context_accepted [OF demo_chat_ok c' this] obtain kept bytes where
    "build_gateway_conversation_context c' = Inr (map gateway_message kept, bytes)"
    "recent_context (cv_messages c') kept" by auto
  then show ?thesis using c' by (auto simp: recent_context_def)
qed

theorem turn_capacity_suffices_witness:
  "\<exists>c1 c2. append_message demo_chat RoleUser (lit ''go'') = Inr c1
    \<and> append_message c1 RoleAssistant (lit ''ok'') = Inr c2 \<and> ok_messages (cv_messages c2)"
proof -
  have "\<not> message_text_invalid (lit ''go'')" "\<not> message_text_invalid (lit ''ok'')" by code_simp+
  moreover have "ensure_conversation_model_turn_capacity demo_chat (lit ''go'') = Inr ()" by code_simp
  ultimately show ?thesis by (intro turn_capacity_suffices [OF demo_chat_ok]) auto
qed

end
