(* ===== verification/Checkpoint_Contract.thy ===== *)
theory Checkpoint_Contract
  imports Domain
begin

text \<open>
  \<open>vibecoder-checkpoint-contract\<close>: checkpoint metadata and its validation.
\<close>

section \<open>Model\<close>

definition CHECKPOINT_SCHEMA_V1 :: u32 where "CHECKPOINT_SCHEMA_V1 = 1"
definition MAX_CHECKPOINTS_PER_PROJECT :: nat where "MAX_CHECKPOINTS_PER_PROJECT = 64"
definition MAX_CHECKPOINT_FILES :: u64 where "MAX_CHECKPOINT_FILES = 100000"
definition MAX_CHECKPOINT_TOTAL_BYTES :: u64 where
  "MAX_CHECKPOINT_TOTAL_BYTES = 4 * 1024 * 1024 * 1024"
definition MAX_CHECKPOINT_DEPTH :: nat where "MAX_CHECKPOINT_DEPTH = 128"
definition SHA256_HEX_BYTES :: nat where "SHA256_HEX_BYTES = 64"

datatype checkpoint_id = CheckpointId uuid

datatype checkpoint_reason =
  Manual | BeforeAgentChange | AgentChangeVerification | BeforeBuildRepair | BeforeRollback

record checkpoint_metadata =
  ck_schema :: u32
  ck_checkpoint_id :: checkpoint_id
  ck_project_id :: project_id
  ck_created_unix_ms :: u64
  ck_reason :: checkpoint_reason
  ck_file_count :: u64
  ck_total_bytes :: u64
  ck_tree_sha256 :: rstring

definition checkpoint_error :: "string \<Rightarrow> vibecoder_error" where
  "checkpoint_error code = Checkpoint code"

definition lower_hex_digit :: "rchar \<Rightarrow> bool" where
  "lower_hex_digit c \<longleftrightarrow> is_ascii_digit c \<or> (97 \<le> c \<and> c \<le> 102)"

definition checkpoint_metadata_validate :: "checkpoint_metadata \<Rightarrow> unit result" where
  "checkpoint_metadata_validate m =
     (if ck_schema m \<noteq> CHECKPOINT_SCHEMA_V1 then Inl (checkpoint_error ''checkpoint_schema_unsupported'')
      else if ck_file_count m > MAX_CHECKPOINT_FILES
      then Inl (checkpoint_error ''checkpoint_file_count_invalid'')
      else if ck_total_bytes m > MAX_CHECKPOINT_TOTAL_BYTES
      then Inl (checkpoint_error ''checkpoint_total_bytes_invalid'')
      else if byte_len (ck_tree_sha256 m) \<noteq> SHA256_HEX_BYTES
              \<or> \<not> list_all lower_hex_digit (ck_tree_sha256 m)
      then Inl (checkpoint_error ''checkpoint_digest_invalid'')
      else Inr ())"

record rollback_result =
  rr_project_id :: project_id
  rr_checkpoint_id :: checkpoint_id
  rr_restored_file_count :: u64
  rr_restored_total_bytes :: u64
  rr_tree_sha256 :: rstring

end
