(* ===== verification/Workspace_Contract.thy ===== *)
theory Workspace_Contract
  imports Domain
begin

text \<open>\<open>vibecoder-workspace-contract\<close>: the values exchanged with a workspace runtime.\<close>

section \<open>Model\<close>

record workspace_capabilities =
  wc_read_write_files :: bool
  wc_managed_project_roots :: bool
  wc_canonical_path_containment :: bool
  wc_text_edit :: bool
  wc_project_search :: bool
  wc_commands :: bool
  wc_process_isolation :: bool
  wc_resource_limits :: bool
  wc_snapshots :: bool
  wc_max_file_read_bytes :: u64
  wc_max_file_write_bytes :: u64

record text_patch_hunk =
  th_expected :: rstring
  th_replacement :: rstring

record text_patch_result =
  tp_hunks_applied :: u32
  tp_bytes_before :: u64
  tp_bytes_after :: u64

record text_edit_result =
  te_replacements :: u32
  te_bytes_before :: u64
  te_bytes_after :: u64

record project_file_entry =
  pf_relative_path :: rstring
  pf_size_bytes :: u64
  pf_owner_executable :: bool

record project_file_list =
  fl_files :: "project_file_entry list"
  fl_skipped_entries :: u32
  fl_truncated :: bool

record project_text_match =
  ptm_relative_path :: rstring
  ptm_line :: u32
  ptm_column :: u32
  ptm_preview :: rstring

record project_text_search_result =
  tsr_matches :: "project_text_match list"
  tsr_files_scanned :: u32
  tsr_files_skipped :: u32
  tsr_bytes_scanned :: u64
  tsr_truncated :: bool

end
