(* ===== verification/Process_Contract.thy ===== *)
theory Process_Contract
  imports Domain
begin

text \<open>
  The process lifecycle contract of \<open>crates/vibecoder-process-contract\<close>: execution bounds, process
  events and results, and the observation handle of a running process. The event channel of a handle
  is the queue of buffered events, its completion channel the value it will deliver (\<open>None\<close> when the
  sender is dropped without one).
\<close>

section \<open>Model\<close>

definition DEFAULT_TIMEOUT_MS :: u64 where "DEFAULT_TIMEOUT_MS = 10 * 60 * 1000"
definition MIN_TIMEOUT_MS :: u64 where "MIN_TIMEOUT_MS = 1000"
definition MAX_TIMEOUT_MS :: u64 where "MAX_TIMEOUT_MS = 30 * 60 * 1000"
definition DEFAULT_STDOUT_LIMIT_BYTES :: nat where "DEFAULT_STDOUT_LIMIT_BYTES = 4 * 1024 * 1024"
definition DEFAULT_STDERR_LIMIT_BYTES :: nat where "DEFAULT_STDERR_LIMIT_BYTES = 4 * 1024 * 1024"
definition MAX_STREAM_CAPTURE_BYTES :: nat where "MAX_STREAM_CAPTURE_BYTES = 16 * 1024 * 1024"
definition MAX_EVENT_DRAIN :: nat where "MAX_EVENT_DRAIN = 256"

datatype process_id = ProcessId uuid

record process_execution_options =
  po_timeout_ms :: u64
  po_max_stdout_bytes :: nat
  po_max_stderr_bytes :: nat

definition process_error :: "string \<Rightarrow> vibecoder_error" where
  "process_error code = Process code"

definition execution_options_validate ::
    "process_execution_options \<Rightarrow> process_execution_options result" where
  "execution_options_validate o1 =
     (if \<not> (MIN_TIMEOUT_MS \<le> po_timeout_ms o1 \<and> po_timeout_ms o1 \<le> MAX_TIMEOUT_MS)
      then Inl (process_error ''process_timeout_out_of_range'')
      else if po_max_stdout_bytes o1 > MAX_STREAM_CAPTURE_BYTES
              \<or> po_max_stderr_bytes o1 > MAX_STREAM_CAPTURE_BYTES
      then Inl (process_error ''process_capture_limit_out_of_range'')
      else Inr o1)"

definition execution_options_default :: process_execution_options where
  "execution_options_default =
     \<lparr>po_timeout_ms = DEFAULT_TIMEOUT_MS, po_max_stdout_bytes = DEFAULT_STDOUT_LIMIT_BYTES,
      po_max_stderr_bytes = DEFAULT_STDERR_LIMIT_BYTES\<rparr>"

datatype process_termination = PT_Exited | PT_Signaled | PT_TimedOut | PT_Cancelled

datatype process_event =
    PE_Started process_id
  | PE_Stdout "byte list"
  | PE_Stderr "byte list"
  | PE_EventQueueOverflow
  | PE_Finished process_id process_termination "i32 option"

record process_result =
  ps_process_id :: process_id
  ps_termination :: process_termination
  ps_exit_code :: "i32 option"
  ps_stdout :: "byte list"
  ps_stderr :: "byte list"
  ps_stdout_truncated :: bool
  ps_stderr_truncated :: bool
  ps_event_queue_overflowed :: bool
  ps_duration_ms :: u64

definition process_success :: "process_result \<Rightarrow> bool" where
  "process_success r \<longleftrightarrow> ps_termination r = PT_Exited \<and> ps_exit_code r = Some 0"

record running_process =
  rn_process_id :: process_id
  rn_events :: "process_event list"
  rn_completion :: "process_result result option"

text \<open>The receive loop: at most \<open>n\<close> more events, stopping when the queue is empty.\<close>

fun drain_loop :: "nat \<Rightarrow> process_event list \<Rightarrow> process_event list \<times> process_event list" where
  "drain_loop 0 q = ([], q)"
| "drain_loop (Suc n) [] = ([], [])"
| "drain_loop (Suc n) (e # q) = (case drain_loop n q of (es, rest) \<Rightarrow> (e # es, rest))"

definition process_drain_events ::
    "running_process \<Rightarrow> nat \<Rightarrow> process_event list result \<times> running_process" where
  "process_drain_events p max_events =
     (if max_events = 0 \<or> max_events > MAX_EVENT_DRAIN
      then (Inl (process_error ''process_event_drain_limit''), p)
      else case drain_loop max_events (rn_events p) of
             (es, rest) \<Rightarrow> (Inr es, p\<lparr>rn_events := rest\<rparr>))"

definition process_wait :: "running_process \<Rightarrow> process_result result" where
  "process_wait p =
     (case rn_completion p of
        None \<Rightarrow> Inl (process_error ''process_completion_channel_closed'')
      | Some r \<Rightarrow> r)"

section \<open>Lemmas\<close>

lemma drain_loop_eq: "drain_loop n q = (take n q, drop n q)"
  by (induction n q rule: drain_loop.induct) auto

lemma execution_options_validate_Inr:
  "execution_options_validate o1 = Inr o2 \<longleftrightarrow> o2 = o1
     \<and> MIN_TIMEOUT_MS \<le> po_timeout_ms o1 \<and> po_timeout_ms o1 \<le> MAX_TIMEOUT_MS
     \<and> po_max_stdout_bytes o1 \<le> MAX_STREAM_CAPTURE_BYTES
     \<and> po_max_stderr_bytes o1 \<le> MAX_STREAM_CAPTURE_BYTES"
  by (auto simp: execution_options_validate_def)

lemma default_options_valid:
  "execution_options_validate execution_options_default = Inr execution_options_default"
  by code_simp

end
