(* ===== verification/Build_Contract.thy ===== *)
theory Build_Contract
  imports Process_Contract Command_Policy
begin

text \<open>
  The normalized build-job model of \<open>crates/vibecoder-build-contract\<close>: states, diagnostics and
  artifacts with their validation, the result of a build process, and a running build job as a
  wrapper of a running process. A \<open>BuildId\<close> is drawn fresh by \<open>BuildJobDescriptor::new\<close> and is an
  argument here. \<open>is_bidi_control\<close> also stands for the two literal copies of that function in the
  repair and toolchain crates.
\<close>

section \<open>Model\<close>

definition MAX_BUILD_DIAGNOSTICS :: nat where "MAX_BUILD_DIAGNOSTICS = 512"
definition MAX_BUILD_ARTIFACTS :: nat where "MAX_BUILD_ARTIFACTS = 64"
definition MAX_DIAGNOSTIC_CODE_BYTES :: nat where "MAX_DIAGNOSTIC_CODE_BYTES = 256"
definition MAX_DIAGNOSTIC_MESSAGE_BYTES :: nat where "MAX_DIAGNOSTIC_MESSAGE_BYTES = 16 * 1024"
definition MAX_ARTIFACT_RELATIVE_PATH_BYTES :: nat where "MAX_ARTIFACT_RELATIVE_PATH_BYTES = 4096"
definition MAX_ARTIFACT_PATH_COMPONENT_BYTES :: nat where "MAX_ARTIFACT_PATH_COMPONENT_BYTES = 255"

datatype build_id = BuildId uuid

datatype build_target_kind = Website | Android

datatype build_state =
  BS_Queued | BS_Running | BS_Succeeded | BS_Failed | BS_Cancelled | BS_TimedOut

definition build_state_is_terminal :: "build_state \<Rightarrow> bool" where
  "build_state_is_terminal s \<longleftrightarrow> s \<in> {BS_Succeeded, BS_Failed, BS_Cancelled, BS_TimedOut}"

datatype build_output_stream = Stdout | Stderr

datatype build_diagnostic_severity = SevError | SevWarning | SevInfo

datatype build_artifact_kind = WebsiteBundle | AndroidApk | AndroidAab | OtherArtifact

record build_diagnostic =
  bd_severity :: build_diagnostic_severity
  bd_code :: "rstring option"
  bd_message :: rstring
  bd_relative_path :: "path option"
  bd_line :: "u32 option"
  bd_column :: "u32 option"

definition build_error :: "string \<Rightarrow> vibecoder_error" where
  "build_error code = Build code"

definition is_bidi_control :: "rchar \<Rightarrow> bool" where
  "is_bidi_control ch \<longleftrightarrow> ch \<in> {1564, 8206, 8207, 8234, 8235, 8236, 8237, 8238, 8294, 8295, 8296, 8297}"

definition unsafe_char :: "rchar \<Rightarrow> bool" where
  "unsafe_char ch \<longleftrightarrow> is_control ch \<or> is_bidi_control ch"

text \<open>The component loop of \<open>validate_relative_artifact_path\<close>; the accumulated \<open>normalized\<close> text is
  the accepted components joined by slashes.\<close>

fun artifact_components :: "component list \<Rightarrow> rstring list result" where
  "artifact_components [] = Inr []"
| "artifact_components (Normal value # cs) =
     (if value = [] \<or> byte_len value > MAX_ARTIFACT_PATH_COMPONENT_BYTES
         \<or> starts_with value INTERNAL_TEMP_PREFIX
      then Inl (build_error ''build_relative_path_invalid'')
      else rbind (artifact_components cs) (\<lambda>vs. Inr (value # vs)))"
| "artifact_components (c # cs) = Inl (build_error ''build_relative_path_invalid'')"

definition validate_relative_artifact_path :: "path \<Rightarrow> unit result" where
  "validate_relative_artifact_path p =
     (case to_str p of
        None \<Rightarrow> Inl (build_error ''build_relative_path_invalid'')
      | Some raw \<Rightarrow>
          if raw = [] \<or> byte_len raw > MAX_ARTIFACT_RELATIVE_PATH_BYTES \<or> 92 \<in> set raw
             \<or> list_ex unsafe_char raw
          then Inl (build_error ''build_relative_path_invalid'')
          else rbind (artifact_components (components p))
            (\<lambda>vs. if join [47] vs = [] \<or> join [47] vs \<noteq> raw
                  then Inl (build_error ''build_relative_path_invalid'') else Inr ()))"

definition build_diagnostic_new ::
    "build_diagnostic_severity \<Rightarrow> rstring option \<Rightarrow> rstring \<Rightarrow> path option \<Rightarrow> u32 option \<Rightarrow> u32 option
      \<Rightarrow> build_diagnostic result" where
  "build_diagnostic_new severity code message relative_path line column =
     (if message = [] \<or> byte_len message > MAX_DIAGNOSTIC_MESSAGE_BYTES
         \<or> list_ex unsafe_char message
      then Inl (build_error ''build_diagnostic_message_invalid'')
      else if (case code of None \<Rightarrow> False
               | Some c \<Rightarrow> c = [] \<or> byte_len c > MAX_DIAGNOSTIC_CODE_BYTES \<or> list_ex unsafe_char c)
      then Inl (build_error ''build_diagnostic_code_invalid'')
      else rbind (case relative_path of None \<Rightarrow> Inr ()
                  | Some p \<Rightarrow> validate_relative_artifact_path p)
        (\<lambda>_. if line = Some 0 \<or> column = Some 0
             then Inl (build_error ''build_diagnostic_location_invalid'')
             else Inr \<lparr>bd_severity = severity, bd_code = code, bd_message = message,
                       bd_relative_path = relative_path, bd_line = line, bd_column = column\<rparr>))"

record build_artifact =
  ba_kind :: build_artifact_kind
  ba_relative_path :: path
  ba_size_bytes :: u64
  ba_sha256_hex :: "rstring option"

definition lower_hex_char :: "rchar \<Rightarrow> bool" where
  "lower_hex_char c \<longleftrightarrow> is_ascii_digit c \<or> (97 \<le> c \<and> c \<le> 102)"

definition build_artifact_new ::
    "build_artifact_kind \<Rightarrow> path \<Rightarrow> u64 \<Rightarrow> rstring option \<Rightarrow> build_artifact result" where
  "build_artifact_new kind relative_path size_bytes sha256_hex =
     rbind (validate_relative_artifact_path relative_path)
       (\<lambda>_. if (case sha256_hex of None \<Rightarrow> False
                | Some digest \<Rightarrow> byte_len digest \<noteq> 64 \<or> \<not> list_all lower_hex_char digest)
            then Inl (build_error ''build_artifact_sha256_invalid'')
            else Inr \<lparr>ba_kind = kind, ba_relative_path = relative_path,
                      ba_size_bytes = size_bytes, ba_sha256_hex = sha256_hex\<rparr>)"

record build_output =
  bo_stdout :: "byte list"
  bo_stderr :: "byte list"
  bo_stdout_truncated :: bool
  bo_stderr_truncated :: bool
  bo_live_event_queue_overflowed :: bool

record build_job_descriptor =
  jd_build_id :: build_id
  jd_project_id :: project_id
  jd_target :: build_target_kind

definition build_job_descriptor_new ::
    "uuid \<Rightarrow> project_id \<Rightarrow> build_target_kind \<Rightarrow> build_job_descriptor" where
  "build_job_descriptor_new fresh pid target =
     \<lparr>jd_build_id = BuildId fresh, jd_project_id = pid, jd_target = target\<rparr>"

record build_result =
  br_build_id :: build_id
  br_project_id :: project_id
  br_target :: build_target_kind
  br_state :: build_state
  br_process_id :: process_id
  br_exit_code :: "i32 option"
  br_duration_ms :: u64
  br_output :: build_output
  br_diagnostics :: "build_diagnostic list"
  br_artifacts :: "build_artifact list"

definition from_process_result :: "build_job_descriptor \<Rightarrow> process_result \<Rightarrow> build_result" where
  "from_process_result d p =
     \<lparr>br_build_id = jd_build_id d, br_project_id = jd_project_id d, br_target = jd_target d,
      br_state = (case ps_termination p of
          PT_Exited \<Rightarrow> if ps_exit_code p = Some 0 then BS_Succeeded else BS_Failed
        | PT_Signaled \<Rightarrow> BS_Failed
        | PT_TimedOut \<Rightarrow> BS_TimedOut
        | PT_Cancelled \<Rightarrow> BS_Cancelled),
      br_process_id = ps_process_id p, br_exit_code = ps_exit_code p,
      br_duration_ms = ps_duration_ms p,
      br_output = \<lparr>bo_stdout = ps_stdout p, bo_stderr = ps_stderr p,
        bo_stdout_truncated = ps_stdout_truncated p, bo_stderr_truncated = ps_stderr_truncated p,
        bo_live_event_queue_overflowed = ps_event_queue_overflowed p\<rparr>,
      br_diagnostics = [], br_artifacts = []\<rparr>"

definition build_success :: "build_result \<Rightarrow> bool" where
  "build_success r \<longleftrightarrow> br_state r = BS_Succeeded"

definition set_diagnostics ::
    "build_result \<Rightarrow> build_diagnostic list \<Rightarrow> unit result \<times> build_result" where
  "set_diagnostics r ds =
     (if length ds > MAX_BUILD_DIAGNOSTICS then (Inl (build_error ''build_diagnostic_limit''), r)
      else (Inr (), r\<lparr>br_diagnostics := ds\<rparr>))"

text \<open>\<open>HashSet<PathBuf>::insert\<close> compares paths by components.\<close>

fun distinct_paths :: "path list \<Rightarrow> path list \<Rightarrow> bool" where
  "distinct_paths seen [] = True"
| "distinct_paths seen (p # ps) = (\<not> list_ex (path_eq p) seen \<and> distinct_paths (p # seen) ps)"

definition set_artifacts ::
    "build_result \<Rightarrow> build_artifact list \<Rightarrow> unit result \<times> build_result" where
  "set_artifacts r artifacts =
     (if length artifacts > MAX_BUILD_ARTIFACTS then (Inl (build_error ''build_artifact_limit''), r)
      else if \<not> distinct_paths [] (map ba_relative_path artifacts)
      then (Inl (build_error ''build_artifact_duplicate_path''), r)
      else (Inr (), r\<lparr>br_artifacts := artifacts\<rparr>))"

datatype build_event =
    BE_Queued build_id
  | BE_Started build_id process_id
  | BE_Output build_id build_output_stream "byte list"
  | BE_EventQueueOverflow build_id
  | BE_Finished build_id build_state "i32 option"

definition state_from_termination :: "process_termination \<Rightarrow> i32 option \<Rightarrow> build_state" where
  "state_from_termination termination exit_code =
     (case termination of
        PT_Exited \<Rightarrow> if exit_code = Some 0 then BS_Succeeded else BS_Failed
      | PT_Signaled \<Rightarrow> BS_Failed
      | PT_TimedOut \<Rightarrow> BS_TimedOut
      | PT_Cancelled \<Rightarrow> BS_Cancelled)"

definition normalize_event :: "build_id \<Rightarrow> process_event \<Rightarrow> build_event result" where
  "normalize_event b event = Inr
     (case event of
        PE_Started pid \<Rightarrow> BE_Started b pid
      | PE_Stdout bytes \<Rightarrow> BE_Output b Stdout bytes
      | PE_Stderr bytes \<Rightarrow> BE_Output b Stderr bytes
      | PE_EventQueueOverflow \<Rightarrow> BE_EventQueueOverflow b
      | PE_Finished _ termination exit_code \<Rightarrow>
          BE_Finished b (state_from_termination termination exit_code) exit_code)"

record running_build_job =
  rj_descriptor :: build_job_descriptor
  rj_process :: running_process

text \<open>\<open>collect\<close> of an iterator of results: all values, or the first error.\<close>

fun collect_results :: "'a result list \<Rightarrow> 'a list result" where
  "collect_results [] = Inr []"
| "collect_results (r # rs) = rbind r (\<lambda>x. rbind (collect_results rs) (\<lambda>xs. Inr (x # xs)))"

definition build_drain_events ::
    "running_build_job \<Rightarrow> nat \<Rightarrow> build_event list result \<times> running_build_job" where
  "build_drain_events j max_events =
     (if max_events = 0 \<or> max_events > MAX_EVENT_DRAIN
      then (Inl (build_error ''build_event_drain_limit''), j)
      else case process_drain_events (rj_process j) max_events of
        (r, p) \<Rightarrow>
          (rbind r (\<lambda>es. collect_results (map (normalize_event (jd_build_id (rj_descriptor j))) es)),
           j\<lparr>rj_process := p\<rparr>))"

definition build_wait :: "running_build_job \<Rightarrow> build_result result" where
  "build_wait j =
     rbind (process_wait (rj_process j)) (\<lambda>p. Inr (from_process_result (rj_descriptor j) p))"

section \<open>Lemmas\<close>

lemma unsafe_char_iff: "unsafe_char = forbidden_display_char"
  by (rule ext) (auto simp: unsafe_char_def is_bidi_control_def forbidden_display_char_def)

lemma artifact_components_Inr:
  "artifact_components cs = Inr vs \<longleftrightarrow> cs = map Normal vs
     \<and> (\<forall>w \<in> set vs. w \<noteq> [] \<and> byte_len w \<le> MAX_ARTIFACT_PATH_COMPONENT_BYTES
           \<and> \<not> starts_with w INTERNAL_TEMP_PREFIX)"
  by (induction cs arbitrary: vs rule: artifact_components.induct) (auto simp: rbind_eq_Inr)

lemma join_ne: "ws \<noteq> [] \<Longrightarrow> \<forall>w \<in> set ws. w \<noteq> [] \<Longrightarrow> join sep ws \<noteq> []"
  by (induction sep ws rule: join.induct) auto

text \<open>An accepted artifact path is in canonical form: components joined by single slashes.\<close>

lemma validate_relative_artifact_path_Inr:
  "validate_relative_artifact_path p = Inr u \<longleftrightarrow>
     (\<exists>ws. ws \<noteq> [] \<and> p = Utf8Path (join [47] ws) \<and> (\<forall>w \<in> set ws. ok_component w)
        \<and> byte_len (join [47] ws) \<le> 4096 \<and> 92 \<notin> set (join [47] ws)
        \<and> \<not> has_forbidden_display_char (join [47] ws))" (is "?L \<longleftrightarrow> ?R")
proof
  assume ?L
  then obtain raw vs where p: "p = Utf8Path raw" and raw: "raw \<noteq> []" "byte_len raw \<le> 4096"
      "92 \<notin> set raw" "\<not> list_ex unsafe_char raw"
    and vs: "artifact_components (components p) = Inr vs" "join [47] vs = raw"
    by (cases p)
      (auto simp: validate_relative_artifact_path_def to_str_def rbind_eq_Inr
        MAX_ARTIFACT_RELATIVE_PATH_BYTES_def split: if_splits)
  have comps: "components_of raw = map Normal vs"
    using vs(1) by (simp add: artifact_components_Inr p components_def path_units_def)
  have "ok_component w" if "w \<in> set vs" for w
    using that vs(1) component_Normal [of w raw] comps
    by (auto simp: artifact_components_Inr ok_component_def
        MAX_ARTIFACT_PATH_COMPONENT_BYTES_def MAX_PATH_COMPONENT_BYTES_def)
  moreover have "vs \<noteq> []" using vs(2) raw(1) by auto
  ultimately show ?R
    using p raw vs(2) by (auto simp: has_forbidden_display_char_def unsafe_char_iff)
next
  assume ?R
  then obtain ws where ws: "ws \<noteq> []" "p = Utf8Path (join [47] ws)" "\<forall>w \<in> set ws. ok_component w"
      "byte_len (join [47] ws) \<le> 4096" "92 \<notin> set (join [47] ws)"
      "\<not> has_forbidden_display_char (join [47] ws)" by blast
  have ne: "join [47] ws \<noteq> []"
    using join_ne ws(1,3) by (auto simp: ok_component_def)
  have "artifact_components (components p) = Inr ws"
    using ws(2,3) components_join [OF ws(1,3)]
    by (auto simp: artifact_components_Inr components_def path_units_def ok_component_def
        MAX_ARTIFACT_PATH_COMPONENT_BYTES_def MAX_PATH_COMPONENT_BYTES_def)
  then show ?L
    using ws ne by (simp add: validate_relative_artifact_path_def to_str_def
        MAX_ARTIFACT_RELATIVE_PATH_BYTES_def has_forbidden_display_char_def unsafe_char_iff)
qed

text \<open>the two path validators of the program agree. A path is acceptable as an artifact or
  diagnostic path exactly when it is a fixed point of the command policy's normalization of
  executable paths, although the two are written independently.\<close>

theorem path_validators_agree:
  "validate_relative_artifact_path p = Inr () \<longleftrightarrow> normalize_project_relative p False = Inr p"
proof
  assume "validate_relative_artifact_path p = Inr ()"
  then obtain ws where "ws \<noteq> []" "p = Utf8Path (join [47] ws)" "\<forall>w \<in> set ws. ok_component w"
      "byte_len (join [47] ws) \<le> 4096" "92 \<notin> set (join [47] ws)"
      "\<not> has_forbidden_display_char (join [47] ws)"
    unfolding validate_relative_artifact_path_Inr by blast
  then show "normalize_project_relative p False = Inr p"
    using normalize_idem_below [of ws False] by (simp add: MAX_RELATIVE_PATH_BYTES_def)
next
  assume "normalize_project_relative p False = Inr p"
  then show "validate_relative_artifact_path p = Inr ()"
  proof (cases rule: normalize_Inr_cases)
    case (below ws)
    then show ?thesis
      unfolding validate_relative_artifact_path_Inr by (auto simp: MAX_RELATIVE_PATH_BYTES_def)
  qed simp
qed

text \<open>Accepted paths that are equal as paths are equal as texts.\<close>

lemma accepted_path_eq:
  assumes "validate_relative_artifact_path p = Inr u" and "validate_relative_artifact_path q = Inr v"
  shows "path_eq p q \<longleftrightarrow> p = q"
proof -
  obtain vs ws where vs: "vs \<noteq> []" "p = Utf8Path (join [47] vs)" "\<forall>w \<in> set vs. ok_component w"
    and ws: "ws \<noteq> []" "q = Utf8Path (join [47] ws)" "\<forall>w \<in> set ws. ok_component w"
    using assms unfolding validate_relative_artifact_path_Inr by blast
  have "inj Normal" by (simp add: inj_def)
  then have "path_eq p q \<longleftrightarrow> vs = ws"
    using vs(2) ws(2) components_join [OF vs(1,3)] components_join [OF ws(1,3)]
    by (simp add: path_eq_def components_def path_units_def path_is_raw_def inj_map_eq_map)
  moreover have "join [47] vs = join [47] ws \<Longrightarrow> vs = ws"
    using components_join [OF vs(1,3)] components_join [OF ws(1,3)] \<open>inj Normal\<close>
    by (metis inj_map_eq_map)
  ultimately show ?thesis using vs(2) ws(2) by auto
qed

lemma distinct_paths_iff:
  assumes "\<forall>p \<in> set seen \<union> set ps. validate_relative_artifact_path p = Inr ()"
  shows "distinct_paths seen ps \<longleftrightarrow> distinct ps \<and> set ps \<inter> set seen = {}"
  using assms
proof (induction ps arbitrary: seen)
  case (Cons p ps)
  have "list_ex (path_eq p) seen \<longleftrightarrow> p \<in> set seen"
    using Cons.prems accepted_path_eq [of p "()" _ "()"] by (auto simp: list_ex_iff)
  then show ?case using Cons.IH [of "p # seen"] Cons.prems by auto
qed simp

lemma build_artifact_new_Inr:
  "build_artifact_new k p n h = Inr a \<Longrightarrow>
     ba_relative_path a = p \<and> validate_relative_artifact_path p = Inr ()"
  by (auto simp: build_artifact_new_def rbind_eq_Inr split: if_splits)

text \<open>artifact attachment is exact. For artifacts built by the constructor, attaching succeeds
  precisely when there are at most 64 of them with pairwise different paths; otherwise the result is
  left unchanged.\<close>

theorem set_artifacts_exact:
  assumes "\<forall>a \<in> set artifacts. \<exists>k p n h. build_artifact_new k p n h = Inr a"
  shows "set_artifacts r artifacts =
    (if length artifacts \<le> 64 \<and> distinct (map ba_relative_path artifacts)
     then (Inr (), r\<lparr>br_artifacts := artifacts\<rparr>)
     else (Inl (build_error (if length artifacts > 64 then ''build_artifact_limit''
            else ''build_artifact_duplicate_path'')), r))"
proof -
  have "\<forall>p \<in> set (map ba_relative_path artifacts). validate_relative_artifact_path p = Inr ()"
    using assms by (auto dest: build_artifact_new_Inr)
  then have "distinct_paths [] (map ba_relative_path artifacts) \<longleftrightarrow>
      distinct (map ba_relative_path artifacts)"
    using distinct_paths_iff [of "[]" "map ba_relative_path artifacts"] by simp
  then show ?thesis by (auto simp: set_artifacts_def MAX_BUILD_ARTIFACTS_def)
qed

section \<open>Events and results\<close>

definition plain_event :: "build_id \<Rightarrow> process_event \<Rightarrow> build_event" where
  "plain_event b e = projr (normalize_event b e)"

lemma normalize_event_eq: "normalize_event b e = Inr (plain_event b e)"
  by (simp add: plain_event_def normalize_event_def)

lemma collect_normalized: "collect_results (map (normalize_event b) es) = Inr (map (plain_event b) es)"
  by (induction es) (simp_all add: normalize_event_eq)

lemma from_process_result_state:
  "br_state (from_process_result d p) = state_from_termination (ps_termination p) (ps_exit_code p)"
  by (simp add: from_process_result_def state_from_termination_def)

text \<open>draining a build job is lossless and in order. Draining within the limit hands out the
  first buffered process events, translated one by one, and keeps the rest; what is handed out and
  what is kept are together exactly the buffered events.\<close>

theorem build_drain_lossless:
  assumes "0 < n" and "n \<le> 256"
  shows "\<exists>es rest. build_drain_events j n =
      (Inr (map (plain_event (jd_build_id (rj_descriptor j))) es),
       j\<lparr>rj_process := (rj_process j)\<lparr>rn_events := rest\<rparr>\<rparr>)
    \<and> es @ rest = rn_events (rj_process j) \<and> length es = min n (length (rn_events (rj_process j)))"
  using assms
  by (intro exI [of _ "take n (rn_events (rj_process j))"] exI [of _ "drop n (rn_events (rj_process j))"])
    (simp add: build_drain_events_def process_drain_events_def drain_loop_eq collect_normalized
      MAX_EVENT_DRAIN_def)

text \<open>the live event stream and the final result tell the same story. For a process that reports
  its termination in its result, the finished event derived from the same termination carries the
  state of the build result; that state is terminal, and it is a success exactly when the process
  exited with code zero.\<close>

theorem finished_event_matches_result:
  assumes "build_wait j = Inr r" and "process_wait (rj_process j) = Inr p"
  shows "plain_event b (PE_Finished (ps_process_id p) (ps_termination p) (ps_exit_code p))
      = BE_Finished b (br_state r) (br_exit_code r)
    \<and> build_state_is_terminal (br_state r) \<and> (build_success r \<longleftrightarrow> process_success p)
    \<and> br_build_id r = jd_build_id (rj_descriptor j) \<and> br_project_id r = jd_project_id (rj_descriptor j)"
proof -
  have r: "r = from_process_result (rj_descriptor j) p"
    using assms by (simp add: build_wait_def)
  then have "br_state r = state_from_termination (ps_termination p) (ps_exit_code p)"
    by (simp add: from_process_result_state)
  moreover have "br_exit_code r = ps_exit_code p" "br_build_id r = jd_build_id (rj_descriptor j)"
      "br_project_id r = jd_project_id (rj_descriptor j)"
    by (simp_all add: r from_process_result_def)
  ultimately show ?thesis
    by (auto simp: plain_event_def normalize_event_def build_state_is_terminal_def build_success_def
        process_success_def state_from_termination_def split: process_termination.splits)
qed

section \<open>Well-formed diagnostics\<close>

definition ok_diagnostic :: "build_diagnostic \<Rightarrow> bool" where
  "ok_diagnostic d \<longleftrightarrow>
     build_diagnostic_new (bd_severity d) (bd_code d) (bd_message d) (bd_relative_path d) (bd_line d)
       (bd_column d) = Inr d"

lemma build_diagnostic_new_ok: "build_diagnostic_new sev c msg p l col = Inr d \<Longrightarrow> ok_diagnostic d"
  by (auto simp: ok_diagnostic_def build_diagnostic_new_def rbind_eq_Inr split: if_splits)

text \<open>Replacing the message of a well-formed diagnostic by another acceptable one succeeds.\<close>

lemma build_diagnostic_new_message:
  assumes "ok_diagnostic d" and "msg \<noteq> []" and "byte_len msg \<le> MAX_DIAGNOSTIC_MESSAGE_BYTES"
    and "\<not> list_ex unsafe_char msg"
  shows "build_diagnostic_new (bd_severity d) (bd_code d) msg (bd_relative_path d) (bd_line d)
    (bd_column d) = Inr (d\<lparr>bd_message := msg\<rparr>)"
  using assms
  by (cases d) (auto simp: ok_diagnostic_def build_diagnostic_new_def rbind_eq_Inr split: if_splits)

section \<open>Concrete instances\<close>

definition demo_artifact :: build_artifact where
  "demo_artifact =
     \<lparr>ba_kind = WebsiteBundle, ba_relative_path = Utf8Path (lit ''dist/index.html''),
      ba_size_bytes = 10, ba_sha256_hex = None\<rparr>"

lemma demo_artifact_new:
  "build_artifact_new WebsiteBundle (Utf8Path (lit ''dist/index.html'')) 10 None = Inr demo_artifact"
  by code_simp

definition demo_process_result :: process_result where
  "demo_process_result =
     \<lparr>ps_process_id = ProcessId 3, ps_termination = PT_Exited, ps_exit_code = Some 1,
      ps_stdout = [], ps_stderr = [], ps_stdout_truncated = False, ps_stderr_truncated = False,
      ps_event_queue_overflowed = False, ps_duration_ms = 5\<rparr>"

definition demo_job :: running_build_job where
  "demo_job =
     \<lparr>rj_descriptor = build_job_descriptor_new 9 demo_project Website,
      rj_process = \<lparr>rn_process_id = ProcessId 3,
        rn_events = [PE_Started (ProcessId 3), PE_Finished (ProcessId 3) PT_Exited (Some 1)],
        rn_completion = Some (Inr demo_process_result)\<rparr>\<rparr>"

definition demo_result :: build_result where
  "demo_result = from_process_result (rj_descriptor demo_job) demo_process_result"

theorem set_artifacts_exact_witness:
  "set_artifacts demo_result [demo_artifact, demo_artifact] =
     (Inl (build_error ''build_artifact_duplicate_path''), demo_result)"
proof -
  have "\<forall>a \<in> set [demo_artifact, demo_artifact]. \<exists>k p n h. build_artifact_new k p n h = Inr a"
    using demo_artifact_new by auto
  then show ?thesis by (subst set_artifacts_exact) auto
qed

theorem build_drain_lossless_witness:
  "\<exists>es rest. build_drain_events demo_job 1 =
      (Inr (map (plain_event (jd_build_id (rj_descriptor demo_job))) es),
       demo_job\<lparr>rj_process := (rj_process demo_job)\<lparr>rn_events := rest\<rparr>\<rparr>)
    \<and> es @ rest = rn_events (rj_process demo_job)"
  using build_drain_lossless [of 1 demo_job] by auto

theorem finished_event_matches_result_witness:
  "build_wait demo_job = Inr demo_result \<and> build_state_is_terminal (br_state demo_result)
   \<and> \<not> build_success demo_result"
proof -
  have w: "build_wait demo_job = Inr demo_result"
      "process_wait (rj_process demo_job) = Inr demo_process_result"
    by (simp_all add: build_wait_def process_wait_def demo_job_def demo_result_def)
  have "\<not> process_success demo_process_result" by code_simp
  then show ?thesis using w finished_event_matches_result [OF w] by simp
qed

end
