(* ===== verification/Build_Loop.thy ===== *)
theory Build_Loop
  imports Build_Repair
begin

text \<open>
  The repair/rebuild loop guard of \<open>crates/vibecoder-build-loop\<close>: retry accounting, repeated-failure
  detection and cooperative cancellation. The shared cancellation flag (\<open>Arc<AtomicBool>\<close>) is a field
  of the guard; \<open>cancellation_request\<close> is the store a holder of a clone performs between two calls.
  Operations that take \<open>&mut self\<close> return the result together with the updated guard. Permits are
  affine values in Rust; here any permit value may be presented at any time, so the theorems do not
  rest on the ownership discipline.
\<close>

section \<open>Model\<close>

definition DEFAULT_MAX_REPAIR_ATTEMPTS :: u8 where "DEFAULT_MAX_REPAIR_ATTEMPTS = 3"
definition MAX_REPAIR_ATTEMPTS :: u8 where "MAX_REPAIR_ATTEMPTS = 8"
definition DEFAULT_MAX_SAME_FAILURE_OCCURRENCES :: u8 where
  "DEFAULT_MAX_SAME_FAILURE_OCCURRENCES = 2"
definition MAX_SAME_FAILURE_OCCURRENCES :: u8 where "MAX_SAME_FAILURE_OCCURRENCES = 4"

record build_repair_loop_policy =
  lp_max_repair_attempts :: u8
  lp_max_same_failure_occurrences :: u8

definition loop_policy_default :: build_repair_loop_policy where
  "loop_policy_default =
     \<lparr>lp_max_repair_attempts = DEFAULT_MAX_REPAIR_ATTEMPTS,
      lp_max_same_failure_occurrences = DEFAULT_MAX_SAME_FAILURE_OCCURRENCES\<rparr>"

definition loop_error :: "string \<Rightarrow> vibecoder_error" where
  "loop_error code = Build code"

definition loop_policy_validate :: "build_repair_loop_policy \<Rightarrow> build_repair_loop_policy result" where
  "loop_policy_validate p =
     (if lp_max_repair_attempts p = 0 \<or> lp_max_repair_attempts p > MAX_REPAIR_ATTEMPTS
      then Inl (loop_error ''build_loop_retry_budget_invalid'')
      else if lp_max_same_failure_occurrences p < 2
              \<or> lp_max_same_failure_occurrences p > MAX_SAME_FAILURE_OCCURRENCES
      then Inl (loop_error ''build_loop_same_failure_limit_invalid'')
      else Inr p)"

datatype stop_reason =
    Succeeded | StopCancelled | TimedOut | RetryBudgetExhausted | RepeatedFailure
  | RepairTurnCancelled

datatype loop_phase =
    AwaitingBuildResult
  | RepairRunning u8
  | AwaitingRebuild u8
  | Terminal stop_reason

datatype build_repair_loop_id = BuildRepairLoopId uuid

record repair_attempt_permit =
  ra_loop_id :: build_repair_loop_id
  ra_project_id :: project_id
  ra_attempt :: u8
  ra_fingerprint_sha256 :: rstring
  ra_evidence :: build_failure_evidence

record rebuild_attempt_permit =
  rb_loop_id :: build_repair_loop_id
  rb_project_id :: project_id
  rb_target :: build_target_kind
  rb_attempt :: u8

datatype repair_authorization = Repair repair_attempt_permit | Stop stop_reason

record build_repair_loop_guard =
  lg_loop_id :: build_repair_loop_id
  lg_project_id :: project_id
  lg_target :: build_target_kind
  lg_policy :: build_repair_loop_policy
  lg_cancel_requested :: bool
  lg_phase :: loop_phase
  lg_repair_attempts_started :: u8
  lg_last_failure_fingerprint :: "rstring option"
  lg_same_failure_occurrences :: u8

definition loop_guard_new ::
    "uuid \<Rightarrow> project_id \<Rightarrow> build_target_kind \<Rightarrow> build_repair_loop_policy
      \<Rightarrow> build_repair_loop_guard result" where
  "loop_guard_new fresh pid target policy =
     rbind (loop_policy_validate policy)
       (\<lambda>p. Inr \<lparr>lg_loop_id = BuildRepairLoopId fresh, lg_project_id = pid, lg_target = target,
                 lg_policy = p, lg_cancel_requested = False, lg_phase = AwaitingBuildResult,
                 lg_repair_attempts_started = 0, lg_last_failure_fingerprint = None,
                 lg_same_failure_occurrences = 0\<rparr>)"

definition cancellation_request :: "build_repair_loop_guard \<Rightarrow> build_repair_loop_guard" where
  "cancellation_request g = g\<lparr>lg_cancel_requested := True\<rparr>"

definition loop_stop_reason :: "build_repair_loop_guard \<Rightarrow> stop_reason option" where
  "loop_stop_reason g =
     (case lg_phase g of
        Terminal reason \<Rightarrow> Some reason
      | _ \<Rightarrow> if lg_cancel_requested g then Some StopCancelled else None)"

definition finish_nonfailed_build ::
    "build_repair_loop_guard \<Rightarrow> build_result \<Rightarrow> stop_reason result \<times> build_repair_loop_guard" where
  "finish_nonfailed_build g r =
     (if br_project_id r \<noteq> lg_project_id g \<or> br_target r \<noteq> lg_target g
      then (Inl (loop_error ''build_loop_result_scope_mismatch''), g)
      else if lg_phase g \<noteq> AwaitingBuildResult
      then (Inl (loop_error ''build_loop_not_awaiting_build_result''), g)
      else case br_state r of
             BS_Succeeded \<Rightarrow> (Inr Succeeded, g\<lparr>lg_phase := Terminal Succeeded\<rparr>)
           | BS_Cancelled \<Rightarrow> (Inr StopCancelled, g\<lparr>lg_phase := Terminal StopCancelled\<rparr>)
           | BS_TimedOut \<Rightarrow> (Inr TimedOut, g\<lparr>lg_phase := Terminal TimedOut\<rparr>)
           | BS_Failed \<Rightarrow>
               (Inl (loop_error ''build_loop_failed_result_requires_repair_authorization''), g)
           | BS_Queued \<Rightarrow> (Inl (loop_error ''build_loop_requires_terminal_build_result''), g)
           | BS_Running \<Rightarrow> (Inl (loop_error ''build_loop_requires_terminal_build_result''), g))"

text \<open>The failed-build branch of \<open>authorize_repair\<close>, from the point where the evidence is known:
  counting the failure, the two stop rules, and the permit.\<close>

definition count_failure :: "build_repair_loop_guard \<Rightarrow> rstring \<Rightarrow> build_repair_loop_guard" where
  "count_failure g fp =
     (if lg_last_failure_fingerprint g = Some fp
      then g\<lparr>lg_same_failure_occurrences := sat_succ (lg_same_failure_occurrences g)\<rparr>
      else g\<lparr>lg_last_failure_fingerprint := Some fp, lg_same_failure_occurrences := 1\<rparr>)"

definition authorize_failed ::
    "build_repair_loop_guard \<Rightarrow> build_failure_evidence
      \<Rightarrow> repair_authorization \<times> build_repair_loop_guard" where
  "authorize_failed g evidence =
     (let g1 = count_failure g (fe_fingerprint_sha256 evidence)
      in if lg_same_failure_occurrences g1 \<ge> lp_max_same_failure_occurrences (lg_policy g1)
         then (Stop RepeatedFailure, g1\<lparr>lg_phase := Terminal RepeatedFailure\<rparr>)
         else if lg_repair_attempts_started g1 \<ge> lp_max_repair_attempts (lg_policy g1)
         then (Stop RetryBudgetExhausted, g1\<lparr>lg_phase := Terminal RetryBudgetExhausted\<rparr>)
         else let attempt = sat_succ (lg_repair_attempts_started g1)
              in (Repair \<lparr>ra_loop_id = lg_loop_id g1, ra_project_id = lg_project_id g1,
                          ra_attempt = attempt,
                          ra_fingerprint_sha256 = fe_fingerprint_sha256 evidence,
                          ra_evidence = evidence\<rparr>,
                  g1\<lparr>lg_repair_attempts_started := attempt, lg_phase := RepairRunning attempt\<rparr>))"

definition authorize_repair ::
    "(byte list \<Rightarrow> byte list) \<Rightarrow> build_repair_loop_guard \<Rightarrow> build_result
      \<Rightarrow> repair_authorization result \<times> build_repair_loop_guard" where
  "authorize_repair H g r =
     (if br_project_id r \<noteq> lg_project_id g \<or> br_target r \<noteq> lg_target g
      then (Inl (loop_error ''build_loop_result_scope_mismatch''), g)
      else if lg_phase g \<noteq> AwaitingBuildResult
      then (Inl (loop_error ''build_loop_not_awaiting_build_result''), g)
      else case br_state r of
             BS_Succeeded \<Rightarrow> (Inr (Stop Succeeded), g\<lparr>lg_phase := Terminal Succeeded\<rparr>)
           | BS_Cancelled \<Rightarrow> (Inr (Stop StopCancelled), g\<lparr>lg_phase := Terminal StopCancelled\<rparr>)
           | BS_TimedOut \<Rightarrow> (Inr (Stop TimedOut), g\<lparr>lg_phase := Terminal TimedOut\<rparr>)
           | BS_Queued \<Rightarrow> (Inl (loop_error ''build_loop_requires_terminal_build_result''), g)
           | BS_Running \<Rightarrow> (Inl (loop_error ''build_loop_requires_terminal_build_result''), g)
           | BS_Failed \<Rightarrow>
               if lg_cancel_requested g
               then (Inr (Stop StopCancelled), g\<lparr>lg_phase := Terminal StopCancelled\<rparr>)
               else case from_failed_build H r of
                      Inl e \<Rightarrow> (Inl e, g)
                    | Inr plan \<Rightarrow>
                        (case authorize_failed g (rp_evidence plan) of (a, g') \<Rightarrow> (Inr a, g')))"

definition verify_repair_permit ::
    "build_repair_loop_guard \<Rightarrow> repair_attempt_permit \<Rightarrow> unit result" where
  "verify_repair_permit g permit =
     (if ra_loop_id permit \<noteq> lg_loop_id g \<or> ra_project_id permit \<noteq> lg_project_id g
      then Inl (loop_error ''build_loop_repair_permit_scope_mismatch'')
      else case lg_phase g of
             RepairRunning attempt \<Rightarrow>
               if attempt \<noteq> ra_attempt permit
               then Inl (loop_error ''build_loop_repair_attempt_mismatch'') else Inr ()
           | _ \<Rightarrow> Inl (loop_error ''build_loop_repair_not_running''))"

definition finish_repair ::
    "build_repair_loop_guard \<Rightarrow> repair_attempt_permit \<Rightarrow> turn_result \<Rightarrow> rstring
      \<Rightarrow> unit result \<times> build_repair_loop_guard" where
  "finish_repair g permit turn observed_fingerprint =
     (case verify_repair_permit g permit of
        Inl e \<Rightarrow> (Inl e, g)
      | Inr _ \<Rightarrow>
          if ra_fingerprint_sha256 permit \<noteq> observed_fingerprint
          then (Inl (loop_error ''build_loop_repair_fingerprint_mismatch''), g)
          else if lg_cancel_requested g
          then (Inr (), g\<lparr>lg_phase := Terminal StopCancelled\<rparr>)
          else if tr_cancelled turn
          then (Inr (), g\<lparr>lg_phase := Terminal RepairTurnCancelled\<rparr>)
          else (Inr (), g\<lparr>lg_phase := AwaitingRebuild (ra_attempt permit)\<rparr>))"

definition rebuild_permit :: "build_repair_loop_guard \<Rightarrow> rebuild_attempt_permit result" where
  "rebuild_permit g =
     (if lg_cancel_requested g then Inl Cancelled
      else case lg_phase g of
             AwaitingRebuild attempt \<Rightarrow>
               Inr \<lparr>rb_loop_id = lg_loop_id g, rb_project_id = lg_project_id g,
                    rb_target = lg_target g, rb_attempt = attempt\<rparr>
           | _ \<Rightarrow> Inl (loop_error ''build_loop_not_awaiting_rebuild''))"

definition mark_rebuild_prepared ::
    "build_repair_loop_guard \<Rightarrow> rebuild_attempt_permit \<Rightarrow> unit result \<times> build_repair_loop_guard" where
  "mark_rebuild_prepared g permit =
     (if rb_loop_id permit \<noteq> lg_loop_id g \<or> rb_project_id permit \<noteq> lg_project_id g
         \<or> rb_target permit \<noteq> lg_target g
      then (Inl (loop_error ''build_loop_rebuild_permit_scope_mismatch''), g)
      else case lg_phase g of
             AwaitingRebuild attempt \<Rightarrow>
               if attempt \<noteq> rb_attempt permit
               then (Inl (loop_error ''build_loop_rebuild_attempt_mismatch''), g)
               else if lg_cancel_requested g
               then (Inl Cancelled, g\<lparr>lg_phase := Terminal StopCancelled\<rparr>)
               else (Inr (), g\<lparr>lg_phase := AwaitingBuildResult\<rparr>)
           | _ \<Rightarrow> (Inl (loop_error ''build_loop_not_awaiting_rebuild''), g))"

section \<open>Histories\<close>

text \<open>One call of the guard by its client, and the history of a run: the guard with the repair
  permits granted and the rebuild attempts accepted so far, most recent first.\<close>

datatype loop_call =
    CallFinishNonfailed build_result
  | CallAuthorize build_result
  | CallFinishRepair repair_attempt_permit turn_result rstring
  | CallPrepared rebuild_attempt_permit
  | CallCancel

record loop_history =
  lh_guard :: build_repair_loop_guard
  lh_granted :: "repair_attempt_permit list"
  lh_rebuilt :: "u8 list"

definition loop_call_step ::
    "(byte list \<Rightarrow> byte list) \<Rightarrow> loop_history \<Rightarrow> loop_call \<Rightarrow> loop_history" where
  "loop_call_step H s c =
     (case c of
        CallFinishNonfailed r \<Rightarrow> s\<lparr>lh_guard := snd (finish_nonfailed_build (lh_guard s) r)\<rparr>
      | CallAuthorize r \<Rightarrow>
          (case authorize_repair H (lh_guard s) r of (a, g) \<Rightarrow>
             (case a of
                Inr (Repair p) \<Rightarrow> s\<lparr>lh_guard := g, lh_granted := p # lh_granted s\<rparr>
              | _ \<Rightarrow> s\<lparr>lh_guard := g\<rparr>))
      | CallFinishRepair p turn fp \<Rightarrow>
          s\<lparr>lh_guard := snd (finish_repair (lh_guard s) p turn fp)\<rparr>
      | CallPrepared p \<Rightarrow>
          (case mark_rebuild_prepared (lh_guard s) p of (res, g) \<Rightarrow>
             (case res of
                Inr _ \<Rightarrow> s\<lparr>lh_guard := g, lh_rebuilt := rb_attempt p # lh_rebuilt s\<rparr>
              | Inl _ \<Rightarrow> s\<lparr>lh_guard := g\<rparr>))
      | CallCancel \<Rightarrow> s\<lparr>lh_guard := cancellation_request (lh_guard s)\<rparr>)"

definition loop_step :: "(byte list \<Rightarrow> byte list) \<Rightarrow> loop_history \<Rightarrow> loop_history \<Rightarrow> bool" where
  "loop_step H s t \<longleftrightarrow> (\<exists>c. t = loop_call_step H s c)"

definition loop_init :: "loop_history \<Rightarrow> bool" where
  "loop_init s \<longleftrightarrow> (\<exists>fresh pid target policy.
     loop_guard_new fresh pid target policy = Inr (lh_guard s) \<and> lh_granted s = [] \<and> lh_rebuilt s = [])"

section \<open>Lemmas\<close>

definition live :: "build_repair_loop_guard \<Rightarrow> bool" where
  "live g \<longleftrightarrow> (\<forall>r. lg_phase g \<noteq> Terminal r)"

lemma finish_nonfailed_effect:
  "snd (finish_nonfailed_build g r) = g
   \<or> live g \<and> (\<exists>reason. snd (finish_nonfailed_build g r) = g\<lparr>lg_phase := Terminal reason\<rparr>)"
proof (cases "br_project_id r = lg_project_id g \<and> br_target r = lg_target g
    \<and> lg_phase g = AwaitingBuildResult")
  case True
  then have "live g" by (simp add: live_def)
  with True show ?thesis
    by (cases "br_state r") (auto simp: finish_nonfailed_build_def)
qed (auto simp: finish_nonfailed_build_def)

lemma finish_repair_effect:
  "snd (finish_repair g p turn fp) = g
   \<or> live g \<and> (\<exists>reason. snd (finish_repair g p turn fp) = g\<lparr>lg_phase := Terminal reason\<rparr>)
   \<or> (\<exists>a. lg_phase g = RepairRunning a
         \<and> snd (finish_repair g p turn fp) = g\<lparr>lg_phase := AwaitingRebuild a\<rparr>)"
proof (cases "\<exists>a. lg_phase g = RepairRunning a \<and> a = ra_attempt p")
  case True
  then have "live g" by (auto simp: live_def)
  with True show ?thesis by (auto simp: finish_repair_def verify_repair_permit_def)
next
  case False
  then have "\<exists>e. verify_repair_permit g p = Inl e"
    by (auto simp: verify_repair_permit_def split: loop_phase.splits)
  then show ?thesis by (auto simp: finish_repair_def)
qed

lemma mark_rebuild_effect:
  "(\<exists>e. mark_rebuild_prepared g p = (Inl e, g))
   \<or> live g \<and> (\<exists>e reason. mark_rebuild_prepared g p = (Inl e, g\<lparr>lg_phase := Terminal reason\<rparr>))
   \<or> lg_phase g = AwaitingRebuild (rb_attempt p) \<and> \<not> lg_cancel_requested g
      \<and> mark_rebuild_prepared g p = (Inr (), g\<lparr>lg_phase := AwaitingBuildResult\<rparr>)"
proof (cases "lg_phase g = AwaitingRebuild (rb_attempt p)")
  case True
  then have "live g" by (auto simp: live_def)
  with True show ?thesis by (auto simp: mark_rebuild_prepared_def)
qed (auto simp: mark_rebuild_prepared_def split: loop_phase.splits)

lemma authorize_effect:
  "(\<exists>e. authorize_repair H g r = (Inl e, g))
   \<or> live g \<and> (\<exists>reason. authorize_repair H g r = (Inr (Stop reason), g\<lparr>lg_phase := Terminal reason\<rparr>))
   \<or> lg_phase g = AwaitingBuildResult \<and> \<not> lg_cancel_requested g
      \<and> (\<exists>e a g'. authorize_failed g e = (a, g') \<and> authorize_repair H g r = (Inr a, g'))"
proof (cases "br_project_id r = lg_project_id g \<and> br_target r = lg_target g
    \<and> lg_phase g = AwaitingBuildResult")
  case True
  then have "live g" by (simp add: live_def)
  with True show ?thesis
    by (cases "br_state r") (auto simp: authorize_repair_def split: sum.splits prod.splits)
qed (auto simp: authorize_repair_def)

lemma authorize_failed_Stop:
  "authorize_failed g e = (Stop reason, g') \<Longrightarrow>
     g' = (count_failure g (fe_fingerprint_sha256 e))\<lparr>lg_phase := Terminal reason\<rparr>"
  by (auto simp: authorize_failed_def Let_def split: if_splits)

text \<open>The possible effects of a call, with what the code has checked on each path.\<close>

lemma loop_call_cases:
  obtains
    (same) "loop_call_step H s c = s"
  | (stop) reason where "live (lh_guard s)"
      "loop_call_step H s c = s\<lparr>lh_guard := (lh_guard s)\<lparr>lg_phase := Terminal reason\<rparr>\<rparr>"
  | (counted) fp reason where "live (lh_guard s)"
      "loop_call_step H s c
         = s\<lparr>lh_guard := (count_failure (lh_guard s) fp)\<lparr>lg_phase := Terminal reason\<rparr>\<rparr>"
  | (grant) e p where "lg_phase (lh_guard s) = AwaitingBuildResult"
      "\<not> lg_cancel_requested (lh_guard s)"
      "authorize_failed (lh_guard s) e = (Repair p, lh_guard (loop_call_step H s c))"
      "loop_call_step H s c = s\<lparr>lh_guard := lh_guard (loop_call_step H s c),
         lh_granted := p # lh_granted s\<rparr>"
  | (finish) a where "lg_phase (lh_guard s) = RepairRunning a"
      "loop_call_step H s c = s\<lparr>lh_guard := (lh_guard s)\<lparr>lg_phase := AwaitingRebuild a\<rparr>\<rparr>"
  | (prepared) a where "lg_phase (lh_guard s) = AwaitingRebuild a"
      "\<not> lg_cancel_requested (lh_guard s)"
      "loop_call_step H s c = s\<lparr>lh_guard := (lh_guard s)\<lparr>lg_phase := AwaitingBuildResult\<rparr>,
         lh_rebuilt := a # lh_rebuilt s\<rparr>"
  | (cancel) "loop_call_step H s c = s\<lparr>lh_guard := cancellation_request (lh_guard s)\<rparr>"
proof (cases c)
  case (CallFinishNonfailed r)
  then show thesis
    using finish_nonfailed_effect [of "lh_guard s" r] same stop
    by (force simp: loop_call_step_def)
next
  case (CallAuthorize r)
  from authorize_effect [of H "lh_guard s" r] show thesis
  proof (elim disjE conjE exE)
    fix e a g'
    assume aw: "lg_phase (lh_guard s) = AwaitingBuildResult" "\<not> lg_cancel_requested (lh_guard s)"
      and af: "authorize_failed (lh_guard s) e = (a, g')"
      and ar: "authorize_repair H (lh_guard s) r = (Inr a, g')"
    show thesis
    proof (cases a)
      case (Repair p)
      then show thesis
        using grant [OF aw, of e p] af ar CallAuthorize by (simp add: loop_call_step_def)
    next
      case (Stop reason)
      moreover have "live (lh_guard s)" using aw by (simp add: live_def)
      ultimately show thesis
        using counted [of reason "fe_fingerprint_sha256 e"]
          authorize_failed_Stop [of "lh_guard s" e reason g'] af ar CallAuthorize by (simp add: loop_call_step_def)
    qed
  qed (use CallAuthorize same stop in \<open>auto simp: loop_call_step_def\<close>)
next
  case (CallFinishRepair p turn fp)
  then show thesis
    using finish_repair_effect [of "lh_guard s" p turn fp] same stop finish
    by (force simp: loop_call_step_def)
next
  case (CallPrepared p)
  from mark_rebuild_effect [of "lh_guard s" p] show thesis
    by (elim disjE conjE exE)
      (use CallPrepared same stop prepared in \<open>auto simp: loop_call_step_def\<close>)
qed (simp add: cancel loop_call_step_def)


definition attempts :: "loop_history \<Rightarrow> nat list" where
  "attempts s = map (\<lambda>p. unat (ra_attempt p)) (lh_granted s)"

definition fingerprints :: "loop_history \<Rightarrow> rstring list" where
  "fingerprints s = map ra_fingerprint_sha256 (lh_granted s)"

abbreviation max_attempts :: "loop_history \<Rightarrow> nat" where
  "max_attempts s \<equiv> unat (lp_max_repair_attempts (lg_policy (lh_guard s)))"

abbreviation max_same :: "loop_history \<Rightarrow> nat" where
  "max_same s \<equiv> unat (lp_max_same_failure_occurrences (lg_policy (lh_guard s)))"

text \<open>The number of most recent grants that share the last failure fingerprint.\<close>

definition streak :: "loop_history \<Rightarrow> nat" where
  "streak s =
     length (takeWhile (\<lambda>fp. lg_last_failure_fingerprint (lh_guard s) = Some fp) (fingerprints s))"

definition count_inv :: "loop_history \<Rightarrow> bool" where
  "count_inv s \<longleftrightarrow>
     1 \<le> max_attempts s \<and> max_attempts s \<le> 8 \<and> 2 \<le> max_same s \<and> max_same s \<le> 4
     \<and> unat (lg_repair_attempts_started (lh_guard s)) = length (lh_granted s)
     \<and> length (lh_granted s) \<le> max_attempts s
     \<and> attempts s = rev [1..<Suc (length (lh_granted s))]
     \<and> (\<forall>fp. \<not> sublist (replicate (max_same s) fp) (fingerprints s))
     \<and> (live (lh_guard s) \<longrightarrow>
          lg_last_failure_fingerprint (lh_guard s)
            = (if lh_granted s = [] then None else Some (hd (fingerprints s)))
          \<and> unat (lg_same_failure_occurrences (lh_guard s)) = streak s)"

definition phase_inv :: "loop_history \<Rightarrow> bool" where
  "phase_inv s \<longleftrightarrow>
     (\<forall>a. lg_phase (lh_guard s) = RepairRunning a \<or> lg_phase (lh_guard s) = AwaitingRebuild a
        \<longrightarrow> a = lg_repair_attempts_started (lh_guard s) \<and> 1 \<le> a \<and> a \<notin> set (lh_rebuilt s))
     \<and> (\<forall>b \<in> set (lh_rebuilt s). 1 \<le> b \<and> b \<le> lg_repair_attempts_started (lh_guard s))
     \<and> distinct (lh_rebuilt s)"

definition loop_inv :: "loop_history \<Rightarrow> bool" where
  "loop_inv s \<longleftrightarrow> count_inv s \<and> phase_inv s"

lemma count_failure_simps [simp]:
  "lg_policy (count_failure g fp) = lg_policy g" "lg_loop_id (count_failure g fp) = lg_loop_id g"
  "lg_project_id (count_failure g fp) = lg_project_id g"
  "lg_repair_attempts_started (count_failure g fp) = lg_repair_attempts_started g"
  "lg_last_failure_fingerprint (count_failure g fp) = Some fp"
  "lg_phase (count_failure g fp) = lg_phase g"
  "lg_cancel_requested (count_failure g fp) = lg_cancel_requested g"
  by (auto simp: count_failure_def)

lemma sat_succ_u8: "unat (w :: u8) < 255 \<Longrightarrow> unat (sat_succ w) = Suc (unat w)"
  using sat_succ_unat [of w] by simp

lemma authorize_failed_Repair:
  assumes "authorize_failed g e = (Repair p, g')"
  shows "g' = (count_failure g (fe_fingerprint_sha256 e))
      \<lparr>lg_repair_attempts_started := ra_attempt p, lg_phase := RepairRunning (ra_attempt p)\<rparr>"
    and "ra_attempt p = sat_succ (lg_repair_attempts_started g)"
    and "ra_fingerprint_sha256 p = fe_fingerprint_sha256 e"
    and "unat (lg_repair_attempts_started g) < unat (lp_max_repair_attempts (lg_policy g))"
    and "unat (lg_same_failure_occurrences (count_failure g (fe_fingerprint_sha256 e)))
      < unat (lp_max_same_failure_occurrences (lg_policy g))"
    and "ra_loop_id p = lg_loop_id g" and "ra_project_id p = lg_project_id g"
    and "ra_evidence p = e"
  using assms by (auto simp: authorize_failed_def Let_def word_le_nat_alt split: if_splits)

lemma takeWhile_replicate_prefix:
  "prefix (replicate n x) xs \<Longrightarrow> n \<le> length (takeWhile (\<lambda>y. y = x) xs)"
proof (induction n arbitrary: xs)
  case (Suc n)
  then show ?case by (cases xs) auto
qed simp

lemma loop_init_inv:
  assumes "loop_init s"
  shows "loop_inv s"
proof -
  obtain fresh pid target policy where new: "loop_guard_new fresh pid target policy = Inr (lh_guard s)"
      and empty: "lh_granted s = []" "lh_rebuilt s = []"
    using assms by (auto simp: loop_init_def)
  then have valid: "loop_policy_validate policy = Inr policy"
    by (auto simp: loop_guard_new_def rbind_eq_Inr loop_policy_validate_def split: if_splits)
  have "lh_guard s = \<lparr>lg_loop_id = BuildRepairLoopId fresh, lg_project_id = pid, lg_target = target,
      lg_policy = policy, lg_cancel_requested = False, lg_phase = AwaitingBuildResult,
      lg_repair_attempts_started = 0, lg_last_failure_fingerprint = None,
      lg_same_failure_occurrences = 0\<rparr>"
    using new valid by (simp add: loop_guard_new_def)
  then have g: "lg_policy (lh_guard s) = policy" "lg_phase (lh_guard s) = AwaitingBuildResult"
      "lg_repair_attempts_started (lh_guard s) = 0" "lg_last_failure_fingerprint (lh_guard s) = None"
      "lg_same_failure_occurrences (lh_guard s) = 0"
    by simp_all
  have pol: "1 \<le> unat (lp_max_repair_attempts policy)" "unat (lp_max_repair_attempts policy) \<le> 8"
    "2 \<le> unat (lp_max_same_failure_occurrences policy)"
    "unat (lp_max_same_failure_occurrences policy) \<le> 4"
    using valid unat_gt_0 [of "lp_max_repair_attempts policy"]
    by (auto simp: loop_policy_validate_def word_le_nat_alt word_less_nat_alt
        MAX_REPAIR_ATTEMPTS_def MAX_SAME_FAILURE_OCCURRENCES_def split: if_splits)
  then show ?thesis
    using g empty by (auto simp: loop_inv_def count_inv_def phase_inv_def attempts_def
        fingerprints_def streak_def)
qed

lemma count_inv_guard:
  assumes "count_inv s" and "lg_policy g = lg_policy (lh_guard s)"
    and "lg_repair_attempts_started g = lg_repair_attempts_started (lh_guard s)"
    and "live g \<Longrightarrow> live (lh_guard s)
      \<and> lg_last_failure_fingerprint g = lg_last_failure_fingerprint (lh_guard s)
      \<and> lg_same_failure_occurrences g = lg_same_failure_occurrences (lh_guard s)"
  shows "count_inv (s\<lparr>lh_guard := g, lh_rebuilt := bs\<rparr>)"
  using assms by (auto simp: count_inv_def attempts_def fingerprints_def streak_def)

lemma count_inv_grant:
  assumes inv: "count_inv s" and aw: "lg_phase (lh_guard s) = AwaitingBuildResult"
    and af: "authorize_failed (lh_guard s) e = (Repair p, g')"
  shows "count_inv (s\<lparr>lh_guard := g', lh_granted := p # lh_granted s\<rparr>)"
proof -
  let ?g = "lh_guard s" and ?fp = "fe_fingerprint_sha256 e"
  let ?t = "s\<lparr>lh_guard := g', lh_granted := p # lh_granted s\<rparr>"
  note p = authorize_failed_Repair [OF af]
  have live: "live ?g" using aw by (simp add: live_def)
  have inv': "length (lh_granted s) \<le> 8" "2 \<le> max_same s" "max_attempts s \<le> 8"
      "unat (lg_repair_attempts_started ?g) = length (lh_granted s)"
      "attempts s = rev [1..<Suc (length (lh_granted s))]"
      "\<And>fp. \<not> sublist (replicate (max_same s) fp) (fingerprints s)"
      "lg_last_failure_fingerprint ?g
         = (if lh_granted s = [] then None else Some (hd (fingerprints s)))"
      "unat (lg_same_failure_occurrences ?g) = streak s"
    using inv live unfolding count_inv_def by auto
  have small: "streak s \<le> 8"
    using inv'(1) length_takeWhile_le [of _ "fingerprints s"]
    unfolding streak_def fingerprints_def by (metis le_trans length_map)
  have ft: "fingerprints ?t = ?fp # fingerprints s" using p(3) by (simp add: fingerprints_def)
  have st: "streak ?t = Suc (length (takeWhile (\<lambda>fp. fp = ?fp) (fingerprints s)))"
    unfolding streak_def ft using p(1) by (simp add: eq_commute)
  have streak: "unat (lg_same_failure_occurrences g') = streak ?t"
  proof (cases "lg_last_failure_fingerprint ?g = Some ?fp")
    case True
    then have "streak s = length (takeWhile (\<lambda>fp. fp = ?fp) (fingerprints s))"
      by (simp add: streak_def eq_commute)
    moreover have "unat (sat_succ (lg_same_failure_occurrences ?g)) = Suc (streak s)"
      using inv'(8) small by (simp add: sat_succ_u8)
    ultimately show ?thesis using True p(1) st by (simp add: count_failure_def)
  next
    case False
    then have "takeWhile (\<lambda>fp. fp = ?fp) (fingerprints s) = []"
      using inv'(7) by (cases "lh_granted s") (auto simp: fingerprints_def split: if_splits)
    then show ?thesis using False p(1) st by (simp add: count_failure_def)
  qed
  have started: "unat (ra_attempt p) = Suc (length (lh_granted s))"
    using p(2) inv'(1,4) sat_succ_u8 by simp
  have "\<not> sublist (replicate (max_same s) fp) (?fp # fingerprints s)" for fp
  proof
    assume "sublist (replicate (max_same s) fp) (?fp # fingerprints s)"
    then have pre: "prefix (replicate (max_same s) fp) (?fp # fingerprints s)"
      using inv'(6) by (simp add: sublist_Cons_right)
    then have "fp = ?fp" using inv'(2) by (cases "max_same s") auto
    with pre have "max_same s \<le> streak ?t"
      using takeWhile_replicate_prefix [OF pre] st by simp
    then show False using p(5,1) streak by simp
  qed
  moreover have "lg_policy g' = lg_policy ?g" "lg_repair_attempts_started g' = ra_attempt p"
      "lg_last_failure_fingerprint g' = Some ?fp"
    using p(1) by simp_all
  ultimately show ?thesis
    using inv' inv p(4) started streak unfolding count_inv_def ft by (simp add: attempts_def)
qed


lemma phase_inv_call:
  assumes "phase_inv s" and "count_inv s"
  shows "phase_inv (loop_call_step H s c)"
proof (cases rule: loop_call_cases [of H s c])
  case (grant e p)
  let ?t = "loop_call_step H s c"
  note p = authorize_failed_Repair [OF grant(3)]
  have "unat (ra_attempt p) = Suc (unat (lg_repair_attempts_started (lh_guard s)))"
    using assms(2) p(2) sat_succ_u8 [of "lg_repair_attempts_started (lh_guard s)"]
    by (simp add: count_inv_def)
  then have lt: "lg_repair_attempts_started (lh_guard s) < ra_attempt p" "1 \<le> ra_attempt p"
    by (simp_all add: word_less_nat_alt word_le_nat_alt)
  have "lh_rebuilt ?t = lh_rebuilt s" by (subst grant(4)) simp
  then show ?thesis
    using assms(1) lt p(1) unfolding phase_inv_def by (auto simp: leD)
next
  case (prepared a)
  then show ?thesis
    using assms by (auto simp: phase_inv_def)
qed (use assms in \<open>auto simp: phase_inv_def cancellation_request_def\<close>)

lemma count_inv_call:
  assumes "count_inv s"
  shows "count_inv (loop_call_step H s c)"
proof (cases rule: loop_call_cases [of H s c])
  case (grant e p)
  show ?thesis using count_inv_grant [OF assms grant(1,3)] grant(4) by simp
next
  case same
  then show ?thesis using assms by simp
next
  case (stop reason)
  then show ?thesis
    using count_inv_guard [OF assms, of "(lh_guard s)\<lparr>lg_phase := Terminal reason\<rparr>" "lh_rebuilt s"]
    by (simp add: live_def)
next
  case (counted fp reason)
  then show ?thesis
    using count_inv_guard [OF assms, of "(count_failure (lh_guard s) fp)\<lparr>lg_phase := Terminal reason\<rparr>"
        "lh_rebuilt s"]
    by (simp add: live_def)
next
  case (finish a)
  then show ?thesis
    using count_inv_guard [OF assms, of "(lh_guard s)\<lparr>lg_phase := AwaitingRebuild a\<rparr>" "lh_rebuilt s"]
    by (simp add: live_def)
next
  case (prepared a)
  then show ?thesis
    using count_inv_guard [OF assms, of "(lh_guard s)\<lparr>lg_phase := AwaitingBuildResult\<rparr>"
        "a # lh_rebuilt s"]
    by (simp add: live_def)
next
  case cancel
  then show ?thesis
    using count_inv_guard [OF assms, of "cancellation_request (lh_guard s)" "lh_rebuilt s"]
    by (simp add: live_def cancellation_request_def)
qed

lemma loop_call_inv: "loop_inv s \<Longrightarrow> loop_inv (loop_call_step H s c)"
  by (simp add: loop_inv_def count_inv_call phase_inv_call)

definition loop_verdict :: "loop_history \<Rightarrow> (stop_reason \<times> repair_attempt_permit list \<times> u8 list) option" where
  "loop_verdict s =
     (case lg_phase (lh_guard s) of
        Terminal reason \<Rightarrow> Some (reason, lh_granted s, lh_rebuilt s) | _ \<Rightarrow> None)"

interpretation repair_loop: verdict_system loop_init "loop_step H" loop_inv loop_verdict
proof
  fix s t v
  assume "loop_step H s t" and v: "loop_verdict s = Some v"
  then obtain c where t: "t = loop_call_step H s c" by (auto simp: loop_step_def)
  obtain reason where reason: "lg_phase (lh_guard s) = Terminal reason"
    using v by (auto simp: loop_verdict_def split: loop_phase.splits)
  then have "\<not> live (lh_guard s)" by (simp add: live_def)
  then show "loop_verdict t = Some v"
    using t v reason
    by (cases rule: loop_call_cases [of H s c])
      (auto simp: loop_verdict_def cancellation_request_def)
qed (auto simp: loop_step_def intro: loop_init_inv loop_call_inv)


text \<open>Once the loop has a stop reason, a call neither grants nor accepts anything.\<close>

lemma stopped_call:
  assumes "loop_stop_reason (lh_guard s) \<noteq> None"
  shows "loop_stop_reason (lh_guard (loop_call_step H s c)) \<noteq> None
    \<and> lh_granted (loop_call_step H s c) = lh_granted s \<and> lh_rebuilt (loop_call_step H s c) = lh_rebuilt s"
  using assms
  by (cases rule: loop_call_cases [of H s c])
    (auto simp: loop_stop_reason_def cancellation_request_def live_def split: loop_phase.splits if_splits)

lemma stopped_run:
  "run (loop_step H) s n t \<Longrightarrow> loop_stop_reason (lh_guard s) \<noteq> None \<Longrightarrow>
     loop_stop_reason (lh_guard t) \<noteq> None \<and> lh_granted t = lh_granted s \<and> lh_rebuilt t = lh_rebuilt s"
proof (induction rule: run.induct)
  case (run_step s n t u)
  then obtain c where "u = loop_call_step H t c" by (auto simp: loop_step_def)
  with run_step show ?case using stopped_call [of t H c] by simp
qed simp

text \<open>C27: The repair loop is bounded. Whatever builds fail and however its operations are called, a
  guard grants at most its configured number of repair attempts, hence at most eight, numbered
  consecutively from one, and accepts at most one rebuild for each.\<close>

theorem repair_attempts_bounded:
  assumes "reach loop_init (loop_step H) s"
  shows "length (lh_granted s) \<le> unat (lp_max_repair_attempts (lg_policy (lh_guard s)))
    \<and> length (lh_granted s) \<le> 8
    \<and> map (\<lambda>p. unat (ra_attempt p)) (lh_granted s) = rev [1..<Suc (length (lh_granted s))]
    \<and> distinct (lh_rebuilt s) \<and> set (lh_rebuilt s) \<subseteq> ra_attempt ` set (lh_granted s)
    \<and> length (lh_rebuilt s) \<le> length (lh_granted s)"
proof -
  have inv: "count_inv s" "phase_inv s"
    using repair_loop.reach_inv [OF assms] by (auto simp: loop_inv_def)
  then have nums: "map (\<lambda>p. unat (ra_attempt p)) (lh_granted s) = rev [1..<Suc (length (lh_granted s))]"
      and n: "length (lh_granted s) \<le> 8" "length (lh_granted s) \<le> max_attempts s"
      and started: "unat (lg_repair_attempts_started (lh_guard s)) = length (lh_granted s)"
    by (auto simp: count_inv_def attempts_def)
  have sub: "set (lh_rebuilt s) \<subseteq> ra_attempt ` set (lh_granted s)"
  proof
    fix b
    assume "b \<in> set (lh_rebuilt s)"
    then have "1 \<le> unat b" "unat b \<le> length (lh_granted s)"
      using inv(2) started by (auto simp: phase_inv_def word_le_nat_alt)
    then have "unat b \<in> set (map (\<lambda>p. unat (ra_attempt p)) (lh_granted s))"
      unfolding nums by auto
    then show "b \<in> ra_attempt ` set (lh_granted s)" by (auto dest: unsigned_word_eqI)
  qed
  have dist: "distinct (lh_rebuilt s)" using inv(2) by (simp add: phase_inv_def)
  have "length (lh_rebuilt s) = card (set (lh_rebuilt s))" using dist by (simp add: distinct_card)
  also have "\<dots> \<le> card (ra_attempt ` set (lh_granted s))" using sub by (simp add: card_mono)
  also have "\<dots> \<le> length (lh_granted s)" by (meson card_image_le card_length finite_set le_trans)
  finally show ?thesis using nums n sub dist by blast
qed

text \<open>The loop never keeps repairing one failure. In the sequence of granted repairs no failure
  fingerprint occurs as often in a row as the configured limit, which is at most four.\<close>

theorem repeated_failure_stops:
  assumes "reach loop_init (loop_step H) s"
  shows "\<not> sublist (replicate (unat (lp_max_same_failure_occurrences (lg_policy (lh_guard s)))) fp)
      (map ra_fingerprint_sha256 (lh_granted s))
    \<and> unat (lp_max_same_failure_occurrences (lg_policy (lh_guard s))) \<le> 4"
  using repair_loop.reach_inv [OF assms] by (auto simp: loop_inv_def count_inv_def fingerprints_def)

text \<open>A stopped loop stays stopped. Once the guard reports a stop reason, because it is terminal
  or because cancellation was requested, no later call grants a repair or accepts a rebuild, the
  guard keeps reporting a stop reason, and a terminal reason is never revised.\<close>

theorem stopped_loop_stays_stopped:
  assumes "reach loop_init (loop_step H) s" and "loop_stop_reason (lh_guard s) \<noteq> None"
    and "run (loop_step H) s n t"
  shows "loop_stop_reason (lh_guard t) \<noteq> None \<and> lh_granted t = lh_granted s
    \<and> lh_rebuilt t = lh_rebuilt s
    \<and> (\<forall>reason. lg_phase (lh_guard s) = Terminal reason \<longrightarrow> lg_phase (lh_guard t) = Terminal reason)"
proof -
  have "lg_phase (lh_guard t) = Terminal reason" if "lg_phase (lh_guard s) = Terminal reason" for reason
    using repair_loop.run_verdict [OF assms(3) repair_loop.reach_inv [OF assms(1)]] that
    by (fastforce simp: loop_verdict_def split: loop_phase.splits)
  then show ?thesis using stopped_run [OF assms(3,2)] by blast
qed

text \<open>A granted repair leads to exactly one rebuild. From a granted permit, the completed repair
  turn moves the loop to a rebuild whose permit is accepted; presenting either permit a second time
  is rejected without effect.\<close>

theorem repair_cycle:
  assumes "authorize_repair H g r = (Inr (Repair p), g1)" and "\<not> tr_cancelled turn"
  shows "\<exists>g2 q g3. finish_repair g1 p turn (ra_fingerprint_sha256 p) = (Inr (), g2)
    \<and> rebuild_permit g2 = Inr q \<and> mark_rebuild_prepared g2 q = (Inr (), g3)
    \<and> lg_phase g3 = AwaitingBuildResult
    \<and> finish_repair g2 p turn (ra_fingerprint_sha256 p)
        = (Inl (Build ''build_loop_repair_not_running''), g2)
    \<and> mark_rebuild_prepared g3 q = (Inl (Build ''build_loop_not_awaiting_rebuild''), g3)"
proof -
  have nc: "\<not> lg_cancel_requested g" and "\<exists>e. authorize_failed g e = (Repair p, g1)"
    using authorize_effect [of H g r] assms(1) by auto
  then obtain e where af: "authorize_failed g e = (Repair p, g1)" by blast
  note p = authorize_failed_Repair [OF af]
  have g1: "lg_loop_id g1 = ra_loop_id p" "lg_project_id g1 = ra_project_id p"
      "lg_phase g1 = RepairRunning (ra_attempt p)" "\<not> lg_cancel_requested g1"
    using p nc by simp_all
  let ?g2 = "g1\<lparr>lg_phase := AwaitingRebuild (ra_attempt p)\<rparr>"
  let ?q = "\<lparr>rb_loop_id = lg_loop_id g1, rb_project_id = lg_project_id g1, rb_target = lg_target g1,
    rb_attempt = ra_attempt p\<rparr>"
  show ?thesis
    using g1 assms(2)
    by (intro exI [of _ ?g2] exI [of _ ?q] exI [of _ "?g2\<lparr>lg_phase := AwaitingBuildResult\<rparr>"])
      (simp add: finish_repair_def verify_repair_permit_def rebuild_permit_def
        mark_rebuild_prepared_def loop_error_def)
qed

section \<open>Concrete instances\<close>

definition demo_loop_policy :: build_repair_loop_policy where
  "demo_loop_policy = loop_policy_default"

definition demo_guard :: build_repair_loop_guard where
  "demo_guard = \<lparr>lg_loop_id = BuildRepairLoopId 5, lg_project_id = demo_project, lg_target = Website,
     lg_policy = demo_loop_policy, lg_cancel_requested = False, lg_phase = AwaitingBuildResult,
     lg_repair_attempts_started = 0, lg_last_failure_fingerprint = None,
     lg_same_failure_occurrences = 0\<rparr>"

definition demo_loop :: loop_history where
  "demo_loop = \<lparr>lh_guard = demo_guard, lh_granted = [], lh_rebuilt = []\<rparr>"

definition demo_loop1 :: loop_history where
  "demo_loop1 = loop_call_step demo_digest demo_loop (CallAuthorize demo_result)"

definition demo_loop2 :: loop_history where
  "demo_loop2 = loop_call_step demo_digest demo_loop1 CallCancel"

lemma demo_loop_init: "loop_init demo_loop"
proof -
  have "loop_guard_new 5 demo_project Website demo_loop_policy = Inr demo_guard" by code_simp
  then show ?thesis by (auto simp: loop_init_def demo_loop_def)
qed

lemma demo_loop_reach:
  "reach loop_init (loop_step demo_digest) demo_loop1" "reach loop_init (loop_step demo_digest) demo_loop2"
proof -
  show one: "reach loop_init (loop_step demo_digest) demo_loop1"
    by (rule reach_step [OF reach_init [of loop_init, OF demo_loop_init]])
      (auto simp: loop_step_def demo_loop1_def)
  show "reach loop_init (loop_step demo_digest) demo_loop2"
    by (rule reach_step [OF one]) (auto simp: loop_step_def demo_loop2_def)
qed

lemma demo_loop1_granted: "length (lh_granted demo_loop1) = 1"
  by code_simp

theorem repair_attempts_bounded_witness:
  "length (lh_granted demo_loop1) = 1
   \<and> map (\<lambda>p. unat (ra_attempt p)) (lh_granted demo_loop1) = [1]"
  using repair_attempts_bounded [OF demo_loop_reach(1)] demo_loop1_granted by simp

theorem repeated_failure_stops_witness:
  "lh_granted demo_loop1 \<noteq> [] \<and> \<not> sublist (replicate 2 (ra_fingerprint_sha256 (hd (lh_granted demo_loop1))))
     (map ra_fingerprint_sha256 (lh_granted demo_loop1))"
proof -
  have "unat (lp_max_same_failure_occurrences (lg_policy (lh_guard demo_loop1))) = 2" by code_simp
  then show ?thesis
    using repeated_failure_stops [OF demo_loop_reach(1)] demo_loop1_granted by auto
qed

theorem stopped_loop_stays_stopped_witness:
  "loop_stop_reason (lh_guard demo_loop2) = Some StopCancelled
   \<and> lh_granted (loop_call_step demo_digest demo_loop2 (CallAuthorize demo_result)) = lh_granted demo_loop2"
proof -
  have stop: "loop_stop_reason (lh_guard demo_loop2) = Some StopCancelled" by code_simp
  have "run (loop_step demo_digest) demo_loop2 (Suc 0)
      (loop_call_step demo_digest demo_loop2 (CallAuthorize demo_result))"
    by (rule run_step [OF run_refl]) (auto simp: loop_step_def)
  from stopped_loop_stays_stopped [OF demo_loop_reach(2) _ this] stop show ?thesis by simp
qed

definition demo_turn :: turn_result where
  "demo_turn = \<lparr>tr_text = [], tr_cancelled = False, tr_tool_calls = [], tr_usage = None\<rparr>"

theorem repair_cycle_witness:
  "\<exists>p g1 g2. authorize_repair demo_digest demo_guard demo_result = (Inr (Repair p), g1)
     \<and> finish_repair g1 p demo_turn (ra_fingerprint_sha256 p) = (Inr (), g2)"
proof -
  have "case fst (authorize_repair demo_digest demo_guard demo_result) of
      Inr (Repair _) \<Rightarrow> True | _ \<Rightarrow> False" by code_simp
  then obtain p g1 where a: "authorize_repair demo_digest demo_guard demo_result = (Inr (Repair p), g1)"
    by (cases "authorize_repair demo_digest demo_guard demo_result")
      (auto split: sum.splits repair_authorization.splits)
  have "\<not> tr_cancelled demo_turn" by (simp add: demo_turn_def)
  then show ?thesis using repair_cycle [OF a] a by blast
qed

end
