(* ===== verification/Web_Toolchain.thy ===== *)
theory Web_Toolchain
  imports Build_Repair Json
begin

text \<open>
  Read-only website toolchain detection of \<open>crates/vibecoder-web-toolchain\<close>.

  The workspace is used through the \<open>WorkspaceRuntime\<close> trait; the three methods called here, for the
  inspected project, are the fields of \<open>workspace_view\<close>, an argument of the inspection. Parsing JSON
  text belongs to the \<open>serde_json\<close> crate and SHA-256 to \<open>sha2\<close>: \<open>J\<close> and \<open>H\<close> are parameters.
\<close>

section \<open>Strict UTF-8 and decimal numbers\<close>

text \<open>\<open>std::str::from_utf8\<close>: the decoded text, or nothing when a sequence is ill-formed.\<close>

function utf8_strict :: "nat list \<Rightarrow> rstring option" where
  "utf8_strict bs =
     (case bs of
        [] \<Rightarrow> Some []
      | b # bs' \<Rightarrow>
          (case utf8_tail b of
             None \<Rightarrow> None
           | Some rs \<Rightarrow>
               (case utf8_take (lead_bits b) rs bs' of
                  (None, rest) \<Rightarrow> None
                | (Some c, rest) \<Rightarrow> map_option ((#) c) (utf8_strict rest))))"
  by pat_completeness auto
termination
proof (relation "measure length", goal_cases)
  case (2 bs b bs' rs oc rest c)
  then show ?case using utf8_take_length [of "lead_bits b" rs bs'] by (simp flip: 2(3))
qed auto

declare utf8_strict.simps [simp del]

definition from_utf8 :: "byte list \<Rightarrow> rstring option" where
  "from_utf8 bs = utf8_strict (map unat bs)"

text \<open>\<open>str::parse::<u32>\<close> on a text of ASCII digits.\<close>

definition digits_value :: "rstring \<Rightarrow> nat" where
  "digits_value ds = foldl (\<lambda>acc d. acc * 10 + (d - 48)) 0 ds"

definition parse_u32 :: "rstring \<Rightarrow> nat option" where
  "parse_u32 ds = (if ds = [] \<or> digits_value ds \<ge> 2 ^ 32 then None else Some (digits_value ds))"

section \<open>Model\<close>

record workspace_view =
  wv_verify_project :: "unit result"
  wv_regular_file_exists :: "rstring \<Rightarrow> bool result"
  wv_read_file :: "rstring \<Rightarrow> nat \<Rightarrow> byte list result"

definition MAX_PACKAGE_JSON_BYTES :: nat where "MAX_PACKAGE_JSON_BYTES = 1024 * 1024"
definition MAX_LOCKFILE_BYTES :: nat where "MAX_LOCKFILE_BYTES = 8 * 1024 * 1024"
definition MAX_PACKAGE_NAME_BYTES :: nat where "MAX_PACKAGE_NAME_BYTES = 256"
definition MAX_RUNTIME_REQUIREMENT_BYTES :: nat where "MAX_RUNTIME_REQUIREMENT_BYTES = 256"
definition BUILD_SCRIPT_NAME :: rstring where "BUILD_SCRIPT_NAME = lit ''build''"

datatype package_manager = Npm | Pnpm | Yarn | Bun

definition runtime_tool_id :: "package_manager \<Rightarrow> rstring" where
  "runtime_tool_id m =
     (case m of Npm \<Rightarrow> lit ''npm'' | Pnpm \<Rightarrow> lit ''pnpm'' | Yarn \<Rightarrow> lit ''yarn'' | Bun \<Rightarrow> lit ''bun'')"

datatype web_framework = Static | Vite | React | Vue | NextJs | Angular | GenericNode

record node_runtime_requirement =
  nr_engines_node :: "rstring option"

datatype dependency_install_intent = Locked | Unlocked | NotRequired

record website_build_intent =
  bi_package_manager :: "package_manager option"
  bi_install :: dependency_install_intent
  bi_build_script_name :: "rstring option"

record website_toolchain_report =
  wr_framework :: web_framework
  wr_package_manager :: "package_manager option"
  wr_package_manager_declaration :: "rstring option"
  wr_node_requirement :: "node_runtime_requirement option"
  wr_package_name :: "rstring option"
  wr_has_build_script :: bool
  wr_build_intent :: website_build_intent
  wr_manifest_sha256_hex :: rstring
  wr_lockfile_relative_path :: "rstring option"
  wr_lockfile_sha256_hex :: "rstring option"

definition toolchain_error :: "string \<Rightarrow> vibecoder_error" where
  "toolchain_error code = Build code"

definition validate_metadata_text :: "rstring \<Rightarrow> nat \<Rightarrow> string \<Rightarrow> unit result" where
  "validate_metadata_text s max_bytes error =
     (if s = [] \<or> byte_len s > max_bytes \<or> list_ex unsafe_char s
      then Inl (toolchain_error error) else Inr ())"

definition optional_bounded_string ::
    "(rstring \<times> json) list \<Rightarrow> rstring \<Rightarrow> nat \<Rightarrow> string \<Rightarrow> rstring option result" where
  "optional_bounded_string object key max_bytes error =
     (case map_of object key of
        None \<Rightarrow> Inr None
      | Some v \<Rightarrow>
          rbind (ok_or (as_str v) (toolchain_error error))
            (\<lambda>s. rbind (validate_metadata_text s max_bytes error) (\<lambda>_. Inr (Some s))))"

definition has_string_script :: "(rstring \<times> json) list \<Rightarrow> rstring \<Rightarrow> bool result" where
  "has_string_script object name =
     (case map_of object (lit ''scripts'') of
        None \<Rightarrow> Inr False
      | Some v \<Rightarrow>
          rbind (ok_or (as_object v) (toolchain_error ''web_toolchain_scripts_invalid''))
            (\<lambda>scripts. case map_of scripts name of
               None \<Rightarrow> Inr False
             | Some script \<Rightarrow>
                 rbind (ok_or (as_str script) (toolchain_error ''web_toolchain_build_script_invalid''))
                   (\<lambda>s. if s = [] \<or> byte_len s > 64 * 1024
                        then Inl (toolchain_error ''web_toolchain_build_script_invalid'')
                        else Inr True)))"

definition detect_framework :: "rstring list \<Rightarrow> rstring list \<Rightarrow> web_framework" where
  "detect_framework dependencies files =
     (let dep = (\<lambda>n. lit n \<in> set dependencies); file = (\<lambda>n. lit n \<in> set files)
      in if dep ''next'' \<or> file ''next.config.js'' \<or> file ''next.config.mjs''
            \<or> file ''next.config.ts''
         then NextJs
         else if dep ''@angular/core'' \<or> file ''angular.json'' then Angular
         else if dep ''vite'' \<or> file ''vite.config.js'' \<or> file ''vite.config.ts''
            \<or> file ''vite.config.mjs''
         then Vite
         else if dep ''vue'' then Vue
         else if dep ''react'' then React
         else GenericNode)"

fun check_dependency_names :: "rstring list \<Rightarrow> unit result" where
  "check_dependency_names [] = Inr ()"
| "check_dependency_names (name # names) =
     (if byte_len name > MAX_PACKAGE_NAME_BYTES \<or> name = [] \<or> list_ex unsafe_char name
      then Inl (toolchain_error ''web_toolchain_dependency_name_invalid'')
      else check_dependency_names names)"

fun collect_dependencies ::
    "(rstring \<times> json) list \<Rightarrow> rstring list \<Rightarrow> rstring list \<Rightarrow> rstring list result" where
  "collect_dependencies object out [] = Inr out"
| "collect_dependencies object out (key # keys) =
     (case map_of object key of
        None \<Rightarrow> collect_dependencies object out keys
      | Some v \<Rightarrow>
          rbind (ok_or (as_object v) (toolchain_error ''web_toolchain_dependencies_invalid''))
            (\<lambda>entries. rbind (check_dependency_names (map fst entries))
            (\<lambda>_. collect_dependencies object (out @ map fst entries) keys)))"

definition dependency_names :: "(rstring \<times> json) list \<Rightarrow> rstring list result" where
  "dependency_names object =
     collect_dependencies object []
       [lit ''dependencies'', lit ''devDependencies'', lit ''peerDependencies'']"

definition parse_node_requirement :: "(rstring \<times> json) list \<Rightarrow> node_runtime_requirement result" where
  "parse_node_requirement object =
     rbind (case map_of object (lit ''engines'') of
              None \<Rightarrow> Inr None
            | Some (JObject engines) \<Rightarrow>
                optional_bounded_string engines (lit ''node'') MAX_RUNTIME_REQUIREMENT_BYTES
                  ''web_toolchain_node_engine_invalid''
            | Some _ \<Rightarrow> Inl (toolchain_error ''web_toolchain_engines_invalid''))
       (\<lambda>e. Inr \<lparr>nr_engines_node = e\<rparr>)"

definition reconcile_package_manager ::
    "package_manager option \<Rightarrow> package_manager option \<Rightarrow> package_manager result" where
  "reconcile_package_manager field lockfile =
     (case (field, lockfile) of
        (Some a, Some b) \<Rightarrow>
          if a \<noteq> b then Inl (toolchain_error ''web_toolchain_package_manager_conflict'') else Inr a
      | (Some manager, None) \<Rightarrow> Inr manager
      | (None, Some manager) \<Rightarrow> Inr manager
      | (None, None) \<Rightarrow> Inl (toolchain_error ''web_toolchain_package_manager_unknown''))"

definition manager_of_name :: "rstring \<Rightarrow> package_manager option" where
  "manager_of_name name =
     (if name = lit ''npm'' then Some Npm
      else if name = lit ''pnpm'' then Some Pnpm
      else if name = lit ''yarn'' then Some Yarn
      else if name = lit ''bun'' then Some Bun
      else None)"

definition parse_package_manager_field ::
    "(rstring \<times> json) list \<Rightarrow> (package_manager \<times> rstring) option result" where
  "parse_package_manager_field object =
     (case map_of object (lit ''packageManager'') of
        None \<Rightarrow> Inr None
      | Some v \<Rightarrow>
          rbind (ok_or (as_str v) (toolchain_error ''web_toolchain_package_manager_field_invalid''))
          (\<lambda>s. rbind (validate_metadata_text s MAX_RUNTIME_REQUIREMENT_BYTES
                       ''web_toolchain_package_manager_field_invalid'')
          (\<lambda>_. rbind (ok_or (manager_of_name (hd (split_on 64 s)))
                       (toolchain_error ''web_toolchain_package_manager_unsupported''))
          (\<lambda>m. Inr (Some (m, s))))))"

definition detect_lockfile_manager ::
    "rstring list \<Rightarrow> (package_manager \<times> rstring) option result" where
  "detect_lockfile_manager files =
     (let has = (\<lambda>n. lit n \<in> set files);
          npm_lock = (if has ''npm-shrinkwrap.json'' then Some (lit ''npm-shrinkwrap.json'')
                      else if has ''package-lock.json'' then Some (lit ''package-lock.json'')
                      else None)
      in if has ''bun.lock'' \<and> has ''bun.lockb''
         then Inl (toolchain_error ''web_toolchain_multiple_bun_lockfiles'')
         else
           (let bun_lock = (if has ''bun.lock'' then Some (lit ''bun.lock'')
                            else if has ''bun.lockb'' then Some (lit ''bun.lockb'') else None);
                found = (case npm_lock of None \<Rightarrow> [] | Some p \<Rightarrow> [(Npm, p)])
                  @ (if has ''pnpm-lock.yaml'' then [(Pnpm, lit ''pnpm-lock.yaml'')] else [])
                  @ (if has ''yarn.lock'' then [(Yarn, lit ''yarn.lock'')] else [])
                  @ (case bun_lock of None \<Rightarrow> [] | Some p \<Rightarrow> [(Bun, p)])
            in case found of
                 [] \<Rightarrow> Inr None
               | [one] \<Rightarrow> Inr (Some one)
               | _ \<Rightarrow> Inl (toolchain_error ''web_toolchain_multiple_lockfiles'')))"

definition probed_files :: "rstring list" where
  "probed_files = map lit
     [''package.json'', ''index.html'', ''package-lock.json'', ''npm-shrinkwrap.json'',
      ''pnpm-lock.yaml'', ''yarn.lock'', ''bun.lock'', ''bun.lockb'', ''next.config.js'',
      ''next.config.mjs'', ''next.config.ts'', ''angular.json'', ''vite.config.js'',
      ''vite.config.ts'', ''vite.config.mjs'']"

fun probe_files :: "workspace_view \<Rightarrow> rstring list \<Rightarrow> rstring list \<Rightarrow> rstring list result" where
  "probe_files w files [] = Inr files"
| "probe_files w files (name # names) =
     rbind (wv_regular_file_exists w name)
       (\<lambda>found. probe_files w (if found then files @ [name] else files) names)"

definition static_report :: website_toolchain_report where
  "static_report =
     \<lparr>wr_framework = Static, wr_package_manager = None, wr_package_manager_declaration = None,
      wr_node_requirement = None, wr_package_name = None, wr_has_build_script = False,
      wr_build_intent = \<lparr>bi_package_manager = None, bi_install = NotRequired,
        bi_build_script_name = None\<rparr>,
      wr_manifest_sha256_hex = [], wr_lockfile_relative_path = None,
      wr_lockfile_sha256_hex = None\<rparr>"

definition hex_digest :: "(byte list \<Rightarrow> byte list) \<Rightarrow> byte list \<Rightarrow> rstring" where
  "hex_digest H bytes = concat (map hex_byte (H bytes))"

definition read_lockfile ::
    "(byte list \<Rightarrow> byte list) \<Rightarrow> workspace_view \<Rightarrow> (package_manager \<times> rstring) option
      \<Rightarrow> (rstring option \<times> rstring option) result" where
  "read_lockfile H w detected =
     (case detected of
        None \<Rightarrow> Inr (None, None)
      | Some (_, relative) \<Rightarrow>
          rbind (wv_read_file w relative MAX_LOCKFILE_BYTES)
            (\<lambda>bytes. Inr (Some relative, Some (hex_digest H bytes))))"

text \<open>The part of \<open>inspect_website_project\<close> after the manifest is parsed.\<close>

definition inspect_manifest ::
    "(byte list \<Rightarrow> byte list) \<Rightarrow> workspace_view \<Rightarrow> rstring list \<Rightarrow> rstring
      \<Rightarrow> (rstring \<times> json) list \<Rightarrow> website_toolchain_report result" where
  "inspect_manifest H w files manifest_sha object =
     rbind (optional_bounded_string object (lit ''name'') MAX_PACKAGE_NAME_BYTES
              ''web_toolchain_package_name_invalid'')
     (\<lambda>package_name. rbind (parse_node_requirement object)
     (\<lambda>node_requirement. rbind (parse_package_manager_field object)
     (\<lambda>field. rbind (detect_lockfile_manager files)
     (\<lambda>detected. rbind (reconcile_package_manager (map_option fst field) (map_option fst detected))
     (\<lambda>manager. rbind (read_lockfile H w detected)
     (\<lambda>lock. rbind (dependency_names object)
     (\<lambda>dependencies. rbind (has_string_script object BUILD_SCRIPT_NAME)
     (\<lambda>has_build_script. Inr
        \<lparr>wr_framework = detect_framework dependencies files,
         wr_package_manager = Some manager,
         wr_package_manager_declaration = map_option snd field,
         wr_node_requirement = Some node_requirement,
         wr_package_name = package_name,
         wr_has_build_script = has_build_script,
         wr_build_intent =
           \<lparr>bi_package_manager = Some manager,
            bi_install = (if detected \<noteq> None then Locked else Unlocked),
            bi_build_script_name = (if has_build_script then Some BUILD_SCRIPT_NAME else None)\<rparr>,
         wr_manifest_sha256_hex = manifest_sha,
         wr_lockfile_relative_path = fst lock,
         wr_lockfile_sha256_hex = snd lock\<rparr>))))))))"

definition inspect_website_project ::
    "(byte list \<Rightarrow> byte list) \<Rightarrow> (rstring \<Rightarrow> json option) \<Rightarrow> workspace_view
      \<Rightarrow> website_toolchain_report result" where
  "inspect_website_project H J w =
     rbind (wv_verify_project w)
     (\<lambda>_. rbind (probe_files w [] probed_files)
     (\<lambda>files.
        if lit ''package.json'' \<notin> set files
        then (if lit ''index.html'' \<in> set files then Inr static_report
              else Inl (toolchain_error ''web_toolchain_package_json_missing''))
        else rbind (wv_read_file w (lit ''package.json'') MAX_PACKAGE_JSON_BYTES)
     (\<lambda>bytes. rbind (ok_or (from_utf8 bytes) (toolchain_error ''web_toolchain_package_json_non_utf8''))
     (\<lambda>s. rbind (ok_or (J s) (toolchain_error ''web_toolchain_package_json_invalid''))
     (\<lambda>root. rbind (ok_or (as_object root)
                      (toolchain_error ''web_toolchain_package_json_root_invalid''))
     (\<lambda>object. inspect_manifest H w files (hex_digest H bytes) object))))))"

section \<open>Lemmas\<close>

definition lockfiles_of :: "package_manager \<Rightarrow> rstring list" where
  "lockfiles_of m =
     (case m of Npm \<Rightarrow> [lit ''npm-shrinkwrap.json'', lit ''package-lock.json'']
      | Pnpm \<Rightarrow> [lit ''pnpm-lock.yaml'']
      | Yarn \<Rightarrow> [lit ''yarn.lock'']
      | Bun \<Rightarrow> [lit ''bun.lock'', lit ''bun.lockb''])"

definition has_lockfile :: "rstring list \<Rightarrow> package_manager \<Rightarrow> bool" where
  "has_lockfile files m \<longleftrightarrow> (\<exists>p \<in> set (lockfiles_of m). p \<in> set files)"

definition chosen_lockfile :: "rstring list \<Rightarrow> package_manager \<Rightarrow> rstring" where
  "chosen_lockfile files m = hd (filter (\<lambda>p. p \<in> set files) (lockfiles_of m))"

lemma managers: "(\<forall>m. P m) \<longleftrightarrow> P Npm \<and> P Pnpm \<and> P Yarn \<and> P Bun"
  by (metis package_manager.exhaust)

text \<open>The detection finds a manager precisely when it is the only one with a lockfile; which of npm's
  two lockfiles is taken follows npm's own precedence.\<close>

lemma detect_lockfile_Some:
  "detect_lockfile_manager files = Inr (Some (m, p)) \<longleftrightarrow>
     (\<forall>m'. has_lockfile files m' \<longleftrightarrow> m' = m) \<and> p = chosen_lockfile files m
     \<and> \<not> (lit ''bun.lock'' \<in> set files \<and> lit ''bun.lockb'' \<in> set files)"
  unfolding managers
  by (cases m) (auto simp: detect_lockfile_manager_def has_lockfile_def lockfiles_of_def
      chosen_lockfile_def Let_def split: if_splits)

lemma detect_lockfile_None:
  "detect_lockfile_manager files = Inr None \<longleftrightarrow> (\<forall>m. \<not> has_lockfile files m)"
  unfolding managers
  by (auto simp: detect_lockfile_manager_def has_lockfile_def lockfiles_of_def Let_def
      split: if_splits)

lemma has_lockfile_chosen:
  "has_lockfile files m \<Longrightarrow> chosen_lockfile files m \<in> set files
     \<and> chosen_lockfile files m \<in> set (lockfiles_of m)"
proof -
  assume "has_lockfile files m"
  then have "filter (\<lambda>p. p \<in> set files) (lockfiles_of m) \<noteq> []"
    by (auto simp: has_lockfile_def filter_empty_conv)
  then have "chosen_lockfile files m \<in> set (filter (\<lambda>p. p \<in> set files) (lockfiles_of m))"
    unfolding chosen_lockfile_def by (rule hd_in_set)
  then show ?thesis by simp
qed

lemma probe_files_Inr:
  "probe_files w files names = Inr fs \<longleftrightarrow>
     (\<forall>n \<in> set names. \<exists>b. wv_regular_file_exists w n = Inr b)
     \<and> fs = files @ filter (\<lambda>n. wv_regular_file_exists w n = Inr True) names"
proof (induction names arbitrary: files)
  case (Cons a names)
  then show ?case by (cases "wv_regular_file_exists w a") auto
qed auto

lemma parse_field_Some:
  "parse_package_manager_field object = Inr (Some (m, d)) \<Longrightarrow>
     hd (split_on 64 d) = runtime_tool_id m \<and> d \<noteq> [] \<and> byte_len d \<le> 256 \<and> \<not> list_ex unsafe_char d"
  by (auto simp: parse_package_manager_field_def rbind_eq_Inr manager_of_name_def
      validate_metadata_text_def runtime_tool_id_def MAX_RUNTIME_REQUIREMENT_BYTES_def
      split: option.splits if_splits)

lemma reconcile_Inr:
  "reconcile_package_manager field lockfile = Inr m \<longleftrightarrow>
     (field = Some m \<or> lockfile = Some m) \<and> (\<forall>a. field = Some a \<longrightarrow> a = m)
     \<and> (\<forall>b. lockfile = Some b \<longrightarrow> b = m)"
  by (auto simp: reconcile_package_manager_def split: option.splits)

text \<open>What a report says about a project, in terms of the files the workspace reports.\<close>

definition present :: "workspace_view \<Rightarrow> rstring \<Rightarrow> bool" where
  "present w n \<longleftrightarrow> wv_regular_file_exists w n = Inr True"

definition report_faithful ::
    "(byte list \<Rightarrow> byte list) \<Rightarrow> workspace_view \<Rightarrow> website_toolchain_report \<Rightarrow> package_manager \<Rightarrow> bool" where
  "report_faithful H w r m \<longleftrightarrow>
     wr_package_manager r = Some m \<and> bi_package_manager (wr_build_intent r) = Some m
     \<and> (\<forall>m'. (\<exists>p \<in> set (lockfiles_of m'). present w p) \<longrightarrow> m' = m)
     \<and> (bi_install (wr_build_intent r) = Locked \<longleftrightarrow> (\<exists>p \<in> set (lockfiles_of m). present w p))
     \<and> (bi_install (wr_build_intent r) = Unlocked \<longleftrightarrow> \<not> (\<exists>p \<in> set (lockfiles_of m). present w p))
     \<and> (\<forall>p. wr_lockfile_relative_path r = Some p \<longrightarrow> p \<in> set (lockfiles_of m) \<and> present w p
          \<and> (\<exists>bytes. wv_read_file w p MAX_LOCKFILE_BYTES = Inr bytes
               \<and> wr_lockfile_sha256_hex r = Some (hex_digest H bytes)))
     \<and> (wr_lockfile_relative_path r = None \<longleftrightarrow> bi_install (wr_build_intent r) = Unlocked)
     \<and> (\<forall>d. wr_package_manager_declaration r = Some d \<longrightarrow> hd (split_on 64 d) = runtime_tool_id m)
     \<and> (\<exists>bytes. wv_read_file w (lit ''package.json'') MAX_PACKAGE_JSON_BYTES = Inr bytes
          \<and> wr_manifest_sha256_hex r = hex_digest H bytes)
     \<and> bi_build_script_name (wr_build_intent r)
         = (if wr_has_build_script r then Some BUILD_SCRIPT_NAME else None)"

lemma probed_lockfiles: "set (lockfiles_of m) \<subseteq> set probed_files"
proof -
  have "list_all (\<lambda>m. list_all (\<lambda>p. p \<in> set probed_files) (lockfiles_of m)) [Npm, Pnpm, Yarn, Bun]"
    by code_simp
  then show ?thesis by (cases m) (auto simp: list_all_iff)
qed

lemma inspect_manifest_faithful:
  assumes r: "inspect_manifest H w files (hex_digest H bytes) object = Inr r"
    and files: "files = filter (present w) probed_files"
    and bytes: "wv_read_file w (lit ''package.json'') MAX_PACKAGE_JSON_BYTES = Inr bytes"
  shows "\<exists>m. report_faithful H w r m"
proof -
  obtain name node field detected m lock deps script where
    field: "parse_package_manager_field object = Inr field"
    and det: "detect_lockfile_manager files = Inr detected"
    and rec: "reconcile_package_manager (map_option fst field) (map_option fst detected) = Inr m"
    and lock: "read_lockfile H w detected = Inr lock"
    and rep: "r = \<lparr>wr_framework = detect_framework deps files, wr_package_manager = Some m,
         wr_package_manager_declaration = map_option snd field, wr_node_requirement = Some node,
         wr_package_name = name, wr_has_build_script = script,
         wr_build_intent = \<lparr>bi_package_manager = Some m,
            bi_install = (if detected \<noteq> None then Locked else Unlocked),
            bi_build_script_name = (if script then Some BUILD_SCRIPT_NAME else None)\<rparr>,
         wr_manifest_sha256_hex = hex_digest H bytes, wr_lockfile_relative_path = fst lock,
         wr_lockfile_sha256_hex = snd lock\<rparr>"
    using r unfolding inspect_manifest_def rbind_eq_Inr by blast
  have has: "has_lockfile files m' \<longleftrightarrow> (\<exists>p \<in> set (lockfiles_of m'). present w p)" for m'
    using probed_lockfiles by (auto simp: has_lockfile_def files)
  have decl: "hd (split_on 64 d) = runtime_tool_id m" if "map_option snd field = Some d" for d
    using that field rec parse_field_Some by (cases field) (auto simp: reconcile_Inr)
  show ?thesis
  proof (cases detected)
    case None
    then have none: "\<not> has_lockfile files m'" for m' using det detect_lockfile_None by simp
    have "lock = (None, None)" using lock None by (simp add: read_lockfile_def)
    then have "report_faithful H w r m"
      unfolding report_faithful_def using None none [unfolded has] decl bytes by (simp add: rep)
    then show ?thesis ..
  next
    case (Some mp)
    then obtain p where mp: "mp = (m, p)" using rec by (cases mp) (auto simp: reconcile_Inr)
    have one: "has_lockfile files m' \<longleftrightarrow> m' = m" for m'
      using det Some mp detect_lockfile_Some by blast
    have p: "p \<in> set (lockfiles_of m)" "present w p"
      using det Some mp detect_lockfile_Some has_lockfile_chosen [of files m] files by auto
    obtain lb where "wv_read_file w p MAX_LOCKFILE_BYTES = Inr lb"
        "lock = (Some p, Some (hex_digest H lb))"
      using lock Some mp by (auto simp: read_lockfile_def rbind_eq_Inr)
    then have "report_faithful H w r m"
      unfolding report_faithful_def using Some one [unfolded has] p decl bytes
      by (simp add: rep)
    then show ?thesis ..
  qed
qed

text \<open>A toolchain report tells the truth about the project. It is the static report when there is
  an index page and no manifest. Otherwise it names one package manager: no other manager has a
  lockfile in the project, the install intent is locked exactly when this one has, the recorded
  lockfile and manifest digests are those of the bytes the workspace served, and a declared manager
  agrees.\<close>

theorem inspect_report_faithful:
  assumes "inspect_website_project H J w = Inr r"
  shows "(r = static_report \<and> present w (lit ''index.html'') \<and> \<not> present w (lit ''package.json''))
    \<or> (present w (lit ''package.json'') \<and> (\<exists>m. report_faithful H w r m))"
proof -
  obtain files where files: "probe_files w [] probed_files = Inr files"
    using assms by (auto simp: inspect_website_project_def rbind_eq_Inr)
  then have fs: "files = filter (present w) probed_files"
    by (simp add: probe_files_Inr present_def [abs_def])
  have probed: "lit ''package.json'' \<in> set probed_files" "lit ''index.html'' \<in> set probed_files"
    by code_simp+
  show ?thesis
  proof (cases "lit ''package.json'' \<in> set files")
    case False
    then show ?thesis
      using assms files fs probed
      by (auto simp: inspect_website_project_def rbind_eq_Inr split: if_splits)
  next
    case True
    then obtain bytes object where
      "wv_read_file w (lit ''package.json'') MAX_PACKAGE_JSON_BYTES = Inr bytes"
      "inspect_manifest H w files (hex_digest H bytes) object = Inr r"
      using assms files by (auto simp: inspect_website_project_def rbind_eq_Inr)
    then have "\<exists>m. report_faithful H w r m" using inspect_manifest_faithful [OF _ fs] by blast
    moreover have "present w (lit ''package.json'')" using True fs by simp
    ultimately show ?thesis by blast
  qed
qed

section \<open>Concrete instances\<close>

definition demo_workspace :: workspace_view where
  "demo_workspace =
     \<lparr>wv_verify_project = Inr (),
      wv_regular_file_exists = (\<lambda>n. Inr (n \<in> {lit ''package.json'', lit ''package-lock.json''})),
      wv_read_file = (\<lambda>n _. Inr (as_bytes n))\<rparr>"

text \<open>A stand-in for the JSON parser that reads every text as one manifest.\<close>

definition demo_parser :: "rstring \<Rightarrow> json option" where
  "demo_parser s = Some (JObject
     [(lit ''dependencies'', JObject [(lit ''vite'', JString (lit ''5'')) ]),
      (lit ''packageManager'', JString (lit ''npm@10.2.0'')),
      (lit ''scripts'', JObject [(lit ''build'', JString (lit ''vite build''))])])"

lemma demo_inspect: "is_ok (inspect_website_project demo_digest demo_parser demo_workspace)"
  by code_simp

theorem inspect_report_faithful_witness:
  "\<exists>r m. inspect_website_project demo_digest demo_parser demo_workspace = Inr r
     \<and> report_faithful demo_digest demo_workspace r m"
proof -
  obtain r where r: "inspect_website_project demo_digest demo_parser demo_workspace = Inr r"
    using demo_inspect by (auto simp: is_ok_def split: sum.splits)
  have "present demo_workspace (lit ''package.json'')" by code_simp
  then show ?thesis using inspect_report_faithful [OF r] r by blast
qed

end
