(* ===== verification/Web_Build_Pipeline.thy ===== *)
theory Web_Build_Pipeline
  imports Web_Toolchain
begin

text \<open>
  The website build pipeline of \<open>crates/vibecoder-web-build-pipeline\<close>: from a toolchain report to the
  exact package-manager commands, advanced only by real build results. A pipeline is consumed by
  value in Rust; the operations return the next one. Awaiting a running job is \<open>build_wait\<close>.
\<close>

section \<open>Model\<close>

datatype website_pipeline_id = WebsitePipelineId uuid

datatype website_build_stage = DependencyInstall | BuildScript

datatype website_build_pipeline_state =
    NoBuildRequired
  | AwaitingApproval website_build_stage
  | PipelineRunning website_build_stage
  | PipelineSucceeded
  | PipelineFailed
  | PipelineCancelled
  | PipelineTimedOut

definition pipeline_state_is_terminal :: "website_build_pipeline_state \<Rightarrow> bool" where
  "pipeline_state_is_terminal s \<longleftrightarrow>
     s \<in> {NoBuildRequired, PipelineSucceeded, PipelineFailed, PipelineCancelled, PipelineTimedOut}"

record website_build_policy =
  wp_install_dependencies :: bool
  wp_allow_dependency_install_scripts :: bool

definition website_build_policy_default :: website_build_policy where
  "website_build_policy_default =
     \<lparr>wp_install_dependencies = True, wp_allow_dependency_install_scripts = False\<rparr>"

record website_build_pipeline =
  pl_pipeline_id :: website_pipeline_id
  pl_project_id :: project_id
  pl_report :: website_toolchain_report
  pl_policy :: website_build_policy
  pl_state :: website_build_pipeline_state

definition web_build_error :: "string \<Rightarrow> vibecoder_error" where
  "web_build_error code = Build code"

definition initial_state ::
    "website_toolchain_report \<Rightarrow> website_build_policy \<Rightarrow> website_build_pipeline_state result" where
  "initial_state report policy =
     (if wr_package_manager report = None
      then (if wr_has_build_script report
            then Inl (web_build_error ''web_build_static_script_inconsistent'')
            else Inr NoBuildRequired)
      else if \<not> wr_has_build_script report
              \<or> bi_build_script_name (wr_build_intent report) \<noteq> Some (lit ''build'')
      then Inl (web_build_error ''web_build_script_missing'')
      else if wp_install_dependencies policy
      then (case bi_install (wr_build_intent report) of
              Locked \<Rightarrow> Inr (AwaitingApproval DependencyInstall)
            | Unlocked \<Rightarrow> Inl (web_build_error ''web_build_unlocked_install_disallowed'')
            | NotRequired \<Rightarrow> Inl (web_build_error ''web_build_install_intent_inconsistent''))
      else Inr (AwaitingApproval BuildScript))"

definition pipeline_new ::
    "uuid \<Rightarrow> project_id \<Rightarrow> website_toolchain_report \<Rightarrow> website_build_policy
      \<Rightarrow> website_build_pipeline result" where
  "pipeline_new fresh pid report policy =
     rbind (initial_state report policy)
       (\<lambda>state. Inr \<lparr>pl_pipeline_id = WebsitePipelineId fresh, pl_project_id = pid,
                    pl_report = report, pl_policy = policy, pl_state = state\<rparr>)"

definition verify_toolchain_unchanged ::
    "website_build_pipeline \<Rightarrow> website_toolchain_report \<Rightarrow> unit result" where
  "verify_toolchain_unchanged p current =
     (if pl_report p \<noteq> current then Inl (web_build_error ''web_build_toolchain_changed'') else Inr ())"

definition current_stage :: "website_build_pipeline \<Rightarrow> website_build_stage option" where
  "current_stage p =
     (case pl_state p of
        AwaitingApproval stage \<Rightarrow> Some stage | PipelineRunning stage \<Rightarrow> Some stage | _ \<Rightarrow> None)"

definition yarn_locked_install_args :: "website_build_pipeline \<Rightarrow> rstring list result" where
  "yarn_locked_install_args p =
     (if wp_allow_dependency_install_scripts (pl_policy p)
      then Inr [lit ''install'', lit ''--frozen-lockfile'']
      else rbind (ok_or (wr_package_manager_declaration (pl_report p))
                   (web_build_error ''web_build_yarn_version_required_for_safe_install''))
      (\<lambda>declaration. rbind (ok_or (strip_prefix declaration (lit ''yarn@''))
                   (web_build_error ''web_build_yarn_version_invalid''))
      (\<lambda>version. rbind (ok_or (parse_u32 (takeWhile is_ascii_digit version))
                   (web_build_error ''web_build_yarn_version_invalid''))
      (\<lambda>major.
         if major = 0 then Inl (web_build_error ''web_build_yarn_version_invalid'')
         else if major = 1
         then Inr [lit ''install'', lit ''--frozen-lockfile'', lit ''--ignore-scripts'']
         else Inr [lit ''install'', lit ''--immutable'', lit ''--mode=skip-build'']))))"

definition install_args ::
    "website_build_pipeline \<Rightarrow> package_manager \<Rightarrow> rstring list result" where
  "install_args p manager =
     (case bi_install (wr_build_intent (pl_report p)) of
        Unlocked \<Rightarrow> Inl (web_build_error ''web_build_unlocked_install_disallowed'')
      | NotRequired \<Rightarrow> Inl (web_build_error ''web_build_install_intent_inconsistent'')
      | Locked \<Rightarrow>
          rbind (case manager of
                   Npm \<Rightarrow> Inr [lit ''ci'']
                 | Pnpm \<Rightarrow> Inr [lit ''install'', lit ''--frozen-lockfile'']
                 | Yarn \<Rightarrow> yarn_locked_install_args p
                 | Bun \<Rightarrow> Inr [lit ''install'', lit ''--frozen-lockfile''])
            (\<lambda>args. Inr (if \<not> wp_allow_dependency_install_scripts (pl_policy p) \<and> manager \<noteq> Yarn
                         then args @ [lit ''--ignore-scripts''] else args)))"

definition command_for_stage ::
    "website_build_pipeline \<Rightarrow> website_build_stage \<Rightarrow> command_spec result" where
  "command_for_stage p stage =
     rbind (ok_or (wr_package_manager (pl_report p))
              (web_build_error ''web_build_package_manager_missing''))
     (\<lambda>manager. rbind (case stage of
              DependencyInstall \<Rightarrow> install_args p manager
            | BuildScript \<Rightarrow> Inr [lit ''run'', lit ''build''])
     (\<lambda>args. Inr \<lparr>cs_program = RuntimeTool (runtime_tool_id manager), cs_args = args,
                  cs_working_dir = Utf8Path dot\<rparr>))"

definition current_command :: "website_build_pipeline \<Rightarrow> command_spec result" where
  "current_command p =
     (case pl_state p of
        AwaitingApproval stage \<Rightarrow> command_for_stage p stage
      | _ \<Rightarrow> Inl (web_build_error ''web_build_stage_not_awaiting_approval''))"

definition command_matches_current_stage ::
    "website_build_pipeline \<Rightarrow> command_spec \<Rightarrow> unit result" where
  "command_matches_current_stage p command =
     rbind (current_command p)
       (\<lambda>c. if \<not> command_eq c command
            then Inl (web_build_error ''web_build_authorized_command_mismatch'') else Inr ())"

record running_website_build_stage =
  rs_pipeline :: website_build_pipeline
  rs_stage :: website_build_stage
  rs_running :: running_build_job

definition into_running ::
    "website_build_pipeline \<Rightarrow> running_build_job \<Rightarrow> running_website_build_stage result" where
  "into_running p running =
     (case pl_state p of
        AwaitingApproval stage \<Rightarrow>
          if jd_project_id (rj_descriptor running) \<noteq> pl_project_id p
             \<or> jd_target (rj_descriptor running) \<noteq> Website
          then Inl (web_build_error ''web_build_running_job_scope_mismatch'')
          else Inr \<lparr>rs_pipeline = p\<lparr>pl_state := PipelineRunning stage\<rparr>, rs_stage = stage,
                    rs_running = running\<rparr>
      | _ \<Rightarrow> Inl (web_build_error ''web_build_stage_not_awaiting_approval''))"

definition finish_stage ::
    "website_build_pipeline \<Rightarrow> website_build_stage \<Rightarrow> build_result \<Rightarrow> website_build_pipeline result" where
  "finish_stage p stage result =
     (if br_project_id result \<noteq> pl_project_id p \<or> br_target result \<noteq> Website
      then Inl (web_build_error ''web_build_result_scope_mismatch'')
      else if pl_state p \<noteq> PipelineRunning stage
      then Inl (web_build_error ''web_build_result_stage_mismatch'')
      else case br_state result of
             BS_Succeeded \<Rightarrow>
               Inr (p\<lparr>pl_state := (case stage of DependencyInstall \<Rightarrow> AwaitingApproval BuildScript
                                   | BuildScript \<Rightarrow> PipelineSucceeded)\<rparr>)
           | BS_Failed \<Rightarrow> Inr (p\<lparr>pl_state := PipelineFailed\<rparr>)
           | BS_Cancelled \<Rightarrow> Inr (p\<lparr>pl_state := PipelineCancelled\<rparr>)
           | BS_TimedOut \<Rightarrow> Inr (p\<lparr>pl_state := PipelineTimedOut\<rparr>)
           | BS_Queued \<Rightarrow> Inl (web_build_error ''web_build_nonterminal_stage_result'')
           | BS_Running \<Rightarrow> Inl (web_build_error ''web_build_nonterminal_stage_result''))"

record website_build_stage_completion =
  sc_stage :: website_build_stage
  sc_pipeline :: website_build_pipeline
  sc_result :: build_result

definition stage_wait ::
    "running_website_build_stage \<Rightarrow> website_build_stage_completion result" where
  "stage_wait s =
     rbind (build_wait (rs_running s))
     (\<lambda>result. rbind (finish_stage (rs_pipeline s) (rs_stage s) result)
     (\<lambda>pipeline. Inr \<lparr>sc_stage = rs_stage s, sc_pipeline = pipeline, sc_result = result\<rparr>))"

section \<open>Executions\<close>

text \<open>Running one job to completion, and a sequence of jobs on the same pipeline with the log of the
  stages they completed and the build states they ended in.\<close>

definition advance ::
    "website_build_pipeline \<Rightarrow> running_build_job \<Rightarrow> website_build_stage_completion result" where
  "advance p job = rbind (into_running p job) stage_wait"

fun advance_all ::
    "website_build_pipeline \<Rightarrow> running_build_job list
      \<Rightarrow> ((website_build_stage \<times> build_state) list \<times> website_build_pipeline) result" where
  "advance_all p [] = Inr ([], p)"
| "advance_all p (job # jobs) =
     rbind (advance p job)
     (\<lambda>c. rbind (advance_all (sc_pipeline c) jobs)
     (\<lambda>(log, q). Inr ((sc_stage c, br_state (sc_result c)) # log, q)))"

section \<open>Lemmas\<close>

definition install_arg_lists :: "rstring list list" where
  "install_arg_lists =
     [[lit ''ci''], [lit ''ci'', lit ''--ignore-scripts''],
      [lit ''install'', lit ''--frozen-lockfile''],
      [lit ''install'', lit ''--frozen-lockfile'', lit ''--ignore-scripts''],
      [lit ''install'', lit ''--immutable'', lit ''--mode=skip-build'']]"

definition script_free :: "rstring list \<Rightarrow> bool" where
  "script_free args \<longleftrightarrow> lit ''--ignore-scripts'' \<in> set args \<or> lit ''--mode=skip-build'' \<in> set args"

lemma yarn_args_Inr:
  "yarn_locked_install_args p = Inr args \<Longrightarrow> args \<in> set install_arg_lists
     \<and> (\<not> wp_allow_dependency_install_scripts (pl_policy p) \<longrightarrow> script_free args)"
  by (auto simp: yarn_locked_install_args_def rbind_eq_Inr install_arg_lists_def script_free_def
      split: if_splits)

lemma install_args_Inr:
  assumes "install_args p manager = Inr args"
  shows "bi_install (wr_build_intent (pl_report p)) = Locked" and "args \<in> set install_arg_lists"
    and "\<not> wp_allow_dependency_install_scripts (pl_policy p) \<Longrightarrow> script_free args"
proof -
  show locked: "bi_install (wr_build_intent (pl_report p)) = Locked"
    using assms by (auto simp: install_args_def split: dependency_install_intent.splits)
  have "args \<in> set install_arg_lists
      \<and> (\<not> wp_allow_dependency_install_scripts (pl_policy p) \<longrightarrow> script_free args)"
  proof (cases "manager = Yarn")
    case True
    then show ?thesis using assms locked yarn_args_Inr by (auto simp: install_args_def rbind_eq_Inr)
  next
    case False
    then show ?thesis
      using assms locked
      by (cases manager) (auto simp: install_args_def install_arg_lists_def script_free_def
          split: if_splits)
  qed
  then show "args \<in> set install_arg_lists"
    "\<not> wp_allow_dependency_install_scripts (pl_policy p) \<Longrightarrow> script_free args" by blast+
qed

lemma known_commands_accepted:
  assumes "args \<in> set ([lit ''run'', lit ''build''] # install_arg_lists)"
  shows "validate_command_spec \<lparr>cs_program = RuntimeTool (runtime_tool_id m), cs_args = args,
      cs_working_dir = Utf8Path dot\<rparr>
    = Inr \<lparr>cs_program = RuntimeTool (runtime_tool_id m), cs_args = args, cs_working_dir = Utf8Path dot\<rparr>"
proof -
  have "list_all (\<lambda>m. list_all (\<lambda>args. validate_command_spec
        \<lparr>cs_program = RuntimeTool (runtime_tool_id m), cs_args = args, cs_working_dir = Utf8Path dot\<rparr>
      = Inr \<lparr>cs_program = RuntimeTool (runtime_tool_id m), cs_args = args,
             cs_working_dir = Utf8Path dot\<rparr>) ([lit ''run'', lit ''build''] # install_arg_lists))
      [Npm, Pnpm, Yarn, Bun]"
    by code_simp
  then show ?thesis using assms by (cases m) (simp_all only: list_all_iff list.set ball_simps, blast+)
qed

lemma current_command_valid:
  assumes "current_command p = Inr c"
  shows "\<exists>m. wr_package_manager (pl_report p) = Some m \<and> cs_program c = RuntimeTool (runtime_tool_id m)
    \<and> validate_command_spec c = Inr c"
proof -
  obtain stage m args where m: "wr_package_manager (pl_report p) = Some m"
      and args: "(case stage of DependencyInstall \<Rightarrow> install_args p m
        | BuildScript \<Rightarrow> Inr [lit ''run'', lit ''build'']) = Inr args"
      and c: "c = \<lparr>cs_program = RuntimeTool (runtime_tool_id m), cs_args = args,
        cs_working_dir = Utf8Path dot\<rparr>"
    using assms
    by (auto simp: current_command_def command_for_stage_def rbind_eq_Inr
        split: website_build_pipeline_state.splits)
  have "args \<in> set ([lit ''run'', lit ''build''] # install_arg_lists)"
    using args install_args_Inr(2) by (cases stage) auto
  then show ?thesis using known_commands_accepted m c by simp
qed

text \<open>The pipeline only proposes commands the command policy accepts as they are. The command of
  the current stage passes the policy's validation unchanged, and the policy denies it only when the
  project's package manager is not an allowed runtime tool.\<close>

theorem pipeline_command_accepted:
  assumes "current_command p = Inr c"
  shows "validate_command_spec c = Inr c
    \<and> (\<exists>m. wr_package_manager (pl_report p) = Some m \<and>
        (policy_denial config c = None \<longleftrightarrow> runtime_tool_id m \<in> set (cp_allowed_runtime_tools config)))"
  using current_command_valid [OF assms] by (auto simp: policy_denial_def)

text \<open>Dependencies are installed from the lockfile only, and without running package scripts
  unless the policy allows them. An install command exists only for a report with a lockfile; it is
  a clean install or carries the frozen or immutable lockfile option, and unless install scripts are
  allowed it carries the option that skips them.\<close>

theorem install_is_locked_and_script_free:
  assumes "current_command p = Inr c" and "pl_state p = AwaitingApproval DependencyInstall"
  shows "bi_install (wr_build_intent (pl_report p)) = Locked
    \<and> (cs_args c \<noteq> [] \<and> hd (cs_args c) = lit ''ci'' \<or> lit ''--frozen-lockfile'' \<in> set (cs_args c)
       \<or> lit ''--immutable'' \<in> set (cs_args c))
    \<and> (wp_allow_dependency_install_scripts (pl_policy p)
       \<or> lit ''--ignore-scripts'' \<in> set (cs_args c) \<or> lit ''--mode=skip-build'' \<in> set (cs_args c))"
proof -
  obtain m where m: "install_args p m = Inr (cs_args c)"
    using assms by (auto simp: current_command_def command_for_stage_def rbind_eq_Inr)
  note args = install_args_Inr [OF m]
  have "cs_args c \<noteq> [] \<and> hd (cs_args c) = lit ''ci'' \<or> lit ''--frozen-lockfile'' \<in> set (cs_args c)
       \<or> lit ''--immutable'' \<in> set (cs_args c)"
    using args(2) by (auto simp: install_arg_lists_def)
  then show ?thesis using args(1,3) unfolding script_free_def by blast
qed

definition next_state :: "website_build_stage \<Rightarrow> build_state \<Rightarrow> website_build_pipeline_state" where
  "next_state stage b =
     (case b of
        BS_Succeeded \<Rightarrow> (case stage of DependencyInstall \<Rightarrow> AwaitingApproval BuildScript
                        | BuildScript \<Rightarrow> PipelineSucceeded)
      | BS_Failed \<Rightarrow> PipelineFailed | BS_Cancelled \<Rightarrow> PipelineCancelled | _ \<Rightarrow> PipelineTimedOut)"

lemma advance_Inr:
  assumes "advance p job = Inr c"
  shows "pl_state p = AwaitingApproval (sc_stage c)"
    and "sc_pipeline c = p\<lparr>pl_state := next_state (sc_stage c) (br_state (sc_result c))\<rparr>"
    and "build_wait job = Inr (sc_result c)"
proof -
  obtain stage where st: "pl_state p = AwaitingApproval stage" and
    w: "stage_wait \<lparr>rs_pipeline = p\<lparr>pl_state := PipelineRunning stage\<rparr>, rs_stage = stage,
       rs_running = job\<rparr> = Inr c"
    using assms
    by (auto simp: advance_def into_running_def rbind_eq_Inr
        split: website_build_pipeline_state.splits if_splits)
  from w obtain result q where "build_wait job = Inr result"
      and q: "finish_stage (p\<lparr>pl_state := PipelineRunning stage\<rparr>) stage result = Inr q"
      and c: "c = \<lparr>sc_stage = stage, sc_pipeline = q, sc_result = result\<rparr>"
    by (auto simp: stage_wait_def rbind_eq_Inr)
  then show "pl_state p = AwaitingApproval (sc_stage c)" "build_wait job = Inr (sc_result c)"
    using st by simp_all
  show "sc_pipeline c = p\<lparr>pl_state := next_state (sc_stage c) (br_state (sc_result c))\<rparr>"
    using q c
    by (cases "br_state result") (auto simp: finish_stage_def next_state_def split: if_splits)
qed

text \<open>The stages still to be completed in a state, and the stages a fresh pipeline plans.\<close>

definition remaining :: "website_build_pipeline_state \<Rightarrow> website_build_stage list" where
  "remaining s =
     (case s of AwaitingApproval DependencyInstall \<Rightarrow> [DependencyInstall, BuildScript]
      | AwaitingApproval BuildScript \<Rightarrow> [BuildScript] | _ \<Rightarrow> [])"

definition planned_stages ::
    "website_toolchain_report \<Rightarrow> website_build_policy \<Rightarrow> website_build_stage list" where
  "planned_stages report policy =
     (if wr_package_manager report = None then []
      else if wp_install_dependencies policy then [DependencyInstall, BuildScript] else [BuildScript])"

lemma pipeline_new_remaining:
  "pipeline_new fresh pid report policy = Inr p \<Longrightarrow>
     remaining (pl_state p) = planned_stages report policy \<and> pl_report p = report
     \<and> pl_state p \<noteq> PipelineSucceeded"
  by (auto simp: pipeline_new_def initial_state_def rbind_eq_Inr remaining_def planned_stages_def
      split: if_splits dependency_install_intent.splits)

definition log_in_order ::
    "website_build_stage list \<Rightarrow> (website_build_stage \<times> build_state) list \<Rightarrow> bool" where
  "log_in_order stages log \<longleftrightarrow>
     length log \<le> length stages \<and> map fst log = take (length log) stages
     \<and> (\<forall>e \<in> set (butlast log). snd e = BS_Succeeded)"

lemma advance_all_order:
  "advance_all p jobs = Inr (log, q) \<Longrightarrow>
     log_in_order (remaining (pl_state p)) log \<and> pl_report q = pl_report p
     \<and> (log = [] \<longrightarrow> q = p)
     \<and> (remaining (pl_state p) \<noteq> [] \<longrightarrow>
          (pl_state q = PipelineSucceeded \<longleftrightarrow>
             map snd log = replicate (length (remaining (pl_state p))) BS_Succeeded))"
proof (induction jobs arbitrary: p log q)
  case Nil
  then show ?case
    by (auto simp: log_in_order_def remaining_def split: website_build_pipeline_state.splits
        website_build_stage.splits)
next
  case (Cons job jobs)
  obtain c log' where c: "advance p job = Inr c"
      and rest: "advance_all (sc_pipeline c) jobs = Inr (log', q)"
      and log: "log = (sc_stage c, br_state (sc_result c)) # log'"
    using Cons.prems by (auto simp: rbind_eq_Inr)
  note st = advance_Inr [OF c]
  let ?s' = "next_state (sc_stage c) (br_state (sc_result c))"
  have s': "pl_state (sc_pipeline c) = ?s'" "pl_report (sc_pipeline c) = pl_report p"
    using st(2) by simp_all
  note IH = Cons.IH [OF rest, unfolded s']
  show ?case
  proof (cases "br_state (sc_result c) = BS_Succeeded \<and> sc_stage c = DependencyInstall")
    case True
    then have "remaining ?s' = [BuildScript]" "remaining (pl_state p) = [DependencyInstall, BuildScript]"
      using st(1) by (simp_all add: next_state_def remaining_def)
    then show ?thesis
      using IH True log by (auto simp: log_in_order_def)
  next
    case False
    then have "remaining ?s' = []"
      by (cases "br_state (sc_result c)"; cases "sc_stage c") (auto simp: next_state_def remaining_def)
    then have log': "log' = []" "q = sc_pipeline c" using IH by (auto simp: log_in_order_def)
    have "pl_state q = PipelineSucceeded \<longleftrightarrow>
        br_state (sc_result c) = BS_Succeeded \<and> sc_stage c = BuildScript"
      using log'(2) s'(1)
      by (cases "br_state (sc_result c)"; cases "sc_stage c") (auto simp: next_state_def)
    then show ?thesis
      using False log log' st(1) s'(2)
      by (cases "sc_stage c") (auto simp: log_in_order_def remaining_def)
  qed
qed

text \<open>C29: Stages run in order and success means that all of them succeeded. Whatever jobs are run on a
  fresh pipeline, the completed stages are a prefix of the planned ones, each stage but the last
  succeeded, and a pipeline with planned stages is reported successful exactly when every planned
  stage completed with a successful build.\<close>

theorem pipeline_stages_in_order:
  assumes "pipeline_new fresh pid report policy = Inr p0" and "advance_all p0 jobs = Inr (log, p)"
  shows "length log \<le> length (planned_stages report policy)
    \<and> map fst log = take (length log) (planned_stages report policy)
    \<and> (\<forall>e \<in> set (butlast log). snd e = BS_Succeeded)
    \<and> (pl_state p = PipelineSucceeded \<longleftrightarrow> planned_stages report policy \<noteq> []
         \<and> map snd log = replicate (length (planned_stages report policy)) BS_Succeeded)"
proof -
  note new = pipeline_new_remaining [OF assms(1)]
  note all = advance_all_order [OF assms(2)]
  have "pl_state p \<noteq> PipelineSucceeded" if "planned_stages report policy = []"
    using that new all by (auto simp: log_in_order_def)
  then show ?thesis using new all unfolding log_in_order_def by auto
qed

section \<open>Concrete instances\<close>

definition demo_report :: website_toolchain_report where
  "demo_report =
     \<lparr>wr_framework = Vite, wr_package_manager = Some Npm, wr_package_manager_declaration = None,
      wr_node_requirement = None, wr_package_name = None, wr_has_build_script = True,
      wr_build_intent = \<lparr>bi_package_manager = Some Npm, bi_install = Locked,
        bi_build_script_name = Some BUILD_SCRIPT_NAME\<rparr>,
      wr_manifest_sha256_hex = [], wr_lockfile_relative_path = Some (lit ''package-lock.json''),
      wr_lockfile_sha256_hex = Some []\<rparr>"

definition demo_pipeline :: website_build_pipeline where
  "demo_pipeline =
     \<lparr>pl_pipeline_id = WebsitePipelineId 11, pl_project_id = demo_project, pl_report = demo_report,
      pl_policy = website_build_policy_default, pl_state = AwaitingApproval DependencyInstall\<rparr>"

definition demo_install_command :: command_spec where
  "demo_install_command =
     \<lparr>cs_program = RuntimeTool (lit ''npm''), cs_args = [lit ''ci'', lit ''--ignore-scripts''],
      cs_working_dir = Utf8Path dot\<rparr>"

definition demo_ok_job :: running_build_job where
  "demo_ok_job =
     \<lparr>rj_descriptor = build_job_descriptor_new 10 demo_project Website,
      rj_process = \<lparr>rn_process_id = ProcessId 4, rn_events = [],
        rn_completion = Some (Inr (demo_process_result\<lparr>ps_exit_code := Some 0\<rparr>))\<rparr>\<rparr>"

lemma demo_pipeline_new:
  "pipeline_new 11 demo_project demo_report website_build_policy_default = Inr demo_pipeline"
  by code_simp

lemma demo_current_command: "current_command demo_pipeline = Inr demo_install_command"
  by code_simp

theorem pipeline_command_accepted_witness:
  "validate_command_spec demo_install_command = Inr demo_install_command"
  using pipeline_command_accepted [OF demo_current_command] by blast

theorem install_is_locked_and_script_free_witness:
  "current_command demo_pipeline = Inr demo_install_command
   \<and> (wp_allow_dependency_install_scripts (pl_policy demo_pipeline)
      \<or> lit ''--ignore-scripts'' \<in> set (cs_args demo_install_command)
      \<or> lit ''--mode=skip-build'' \<in> set (cs_args demo_install_command))"
  using install_is_locked_and_script_free [OF demo_current_command] demo_current_command
  by (simp add: demo_pipeline_def)

theorem pipeline_stages_in_order_witness:
  "\<exists>log p. advance_all demo_pipeline [demo_ok_job, demo_ok_job] = Inr (log, p)
     \<and> length log \<le> 2 \<and> map fst log = take (length log) [DependencyInstall, BuildScript]"
proof -
  have "is_ok (advance_all demo_pipeline [demo_ok_job, demo_ok_job])" by code_simp
  then obtain log p where a: "advance_all demo_pipeline [demo_ok_job, demo_ok_job] = Inr (log, p)"
    by (auto simp: is_ok_def split: sum.splits)
  have "planned_stages demo_report website_build_policy_default = [DependencyInstall, BuildScript]"
    by code_simp
  then show ?thesis using pipeline_stages_in_order [OF demo_pipeline_new a] a by auto
qed

end
