(* ===== verification/Core_State.thy ===== *)
theory Core_State
  imports Effects Core_Checks Checkpoint_Contract Workspace_Contract Build_Loop Web_Build_Pipeline
begin

text \<open>
  \<open>crates/vibecoder-core/src/lib.rs\<close>, first part: the state of \<open>VibeCoderCore\<close>, the project lifecycle
  gate, and the operations on commands, processes, checkpoints, projects, files and website builds.

  The core is generic in the agent runtime, the model gateway and the workspace, and holds the process
  runtime and the checkpoint store behind optional interfaces. These are parameters of the model
  (\<open>core_env\<close>), operations on an arbitrary outside world \<open>'x\<close> with arbitrary results. The project and
  conversation stores are the ones of \<open>Persistence_Local\<close>, the only implementation in the repository;
  two flags say whether they are attached. An agent turn also delivers the events it passed to its
  handler and the calls that were made to the command policy while it ran, since neither
  \<open>request_project_command\<close> nor \<open>decide_project_command\<close> takes the lifecycle permit.

  A permit is taken by \<open>with_permit\<close> and dropped at the end of its scope on every path, as \<open>Drop\<close> does.
  Fresh ids are arguments.
\<close>

section \<open>Model\<close>

subsection \<open>Environment and state\<close>

type_synonym ('s, 'a) act = "('s, vibecoder_error, 'a) eff"

record 'x process_ops =
  po_start :: "project_ref \<Rightarrow> command_execution_envelope \<Rightarrow> process_execution_options
    \<Rightarrow> ('x, running_process) act"
  po_active_for_project :: "project_id \<Rightarrow> ('x, nat) act"
  po_cancel :: "process_id \<Rightarrow> ('x, unit) act"

record 'x checkpoint_ops =
  ko_create :: "project_ref \<Rightarrow> checkpoint_reason \<Rightarrow> ('x, checkpoint_metadata) act"
  ko_list :: "project_id \<Rightarrow> nat \<Rightarrow> ('x, checkpoint_metadata list) act"
  ko_rollback :: "project_ref \<Rightarrow> checkpoint_id \<Rightarrow> ('x, rollback_result) act"
  ko_remove :: "project_id \<Rightarrow> checkpoint_id \<Rightarrow> ('x, unit) act"

record 'x core_env =
  ce_uuid :: uuid_text
  ce_hash :: "byte list \<Rightarrow> byte list"
  ce_json :: "rstring \<Rightarrow> json option"
  ce_has_project_store :: bool
  ce_has_conversation_store :: bool
  ce_process :: "'x process_ops option"
  ce_checkpoints :: "'x checkpoint_ops option"
  ag_runtime_id :: rstring
  ag_bridge :: "model_gateway_bridge_identity option"
  ag_ensure_ready :: "('x, runtime_capabilities) act"
  ag_create_session :: "project_ref \<Rightarrow> ('x, session_id) act"
  ag_resume_session :: "project_ref \<Rightarrow> session_id \<Rightarrow> ('x, unit) act"
  ag_verify_session_project_binding :: "project_ref \<Rightarrow> session_id \<Rightarrow> ('x, unit) act"
  ag_ensure_workspace_quiescent :: "project_ref \<Rightarrow> ('x, unit) act"
  ag_refresh_session :: "project_ref \<Rightarrow> session_id \<Rightarrow> ('x, unit) act"
  ag_run_turn :: "session_id \<Rightarrow> rstring \<Rightarrow> model_ref option \<Rightarrow> 'x
    \<Rightarrow> (turn_result result \<times> agent_event list \<times> engine_request list) \<times> 'x"
  ag_cancel :: "session_id \<Rightarrow> ('x, unit) act"
  ag_list_models :: "session_id \<Rightarrow> ('x, model_ref list) act"
  ag_corroborate_model_identity :: "session_id \<Rightarrow> model_ref \<Rightarrow> ('x, model_ref) act"
  ag_set_model :: "session_id \<Rightarrow> model_ref \<Rightarrow> ('x, unit) act"
  gw_health :: "gateway_credential \<Rightarrow> ('x, gateway_health) act"
  gw_execution_profile :: "gateway_credential \<Rightarrow> ('x, gateway_execution_profile) act"
  gw_list_models :: "gateway_credential \<Rightarrow> ('x, model_ref list) act"
  gw_chat_completion :: "gateway_credential \<Rightarrow> gateway_chat_request \<Rightarrow> ('x, gateway_chat_response) act"
  ws_capabilities :: workspace_capabilities
  ws_create_project :: "project_id \<Rightarrow> ('x, project_ref) act"
  ws_open_project :: "project_id \<Rightarrow> ('x, project_ref) act"
  ws_remove_project :: "project_ref \<Rightarrow> ('x, unit) act"
  ws_verify_project :: "project_ref \<Rightarrow> ('x, unit) act"
  ws_resolve_project_path :: "project_ref \<Rightarrow> path \<Rightarrow> ('x, path) act"
  ws_create_dir_all :: "project_ref \<Rightarrow> path \<Rightarrow> ('x, unit) act"
  ws_read_file :: "project_ref \<Rightarrow> path \<Rightarrow> nat \<Rightarrow> ('x, byte list) act"
  ws_atomic_write_file :: "project_ref \<Rightarrow> path \<Rightarrow> byte list \<Rightarrow> ('x, unit) act"
  ws_edit_text_file :: "project_ref \<Rightarrow> path \<Rightarrow> rstring \<Rightarrow> rstring \<Rightarrow> ('x, text_edit_result) act"
  ws_apply_text_patch :: "project_ref \<Rightarrow> path \<Rightarrow> text_patch_hunk list \<Rightarrow> ('x, text_patch_result) act"
  ws_list_project_files :: "project_ref \<Rightarrow> nat \<Rightarrow> ('x, project_file_list) act"
  ws_search_project_text :: "project_ref \<Rightarrow> rstring \<Rightarrow> nat \<Rightarrow> ('x, project_text_search_result) act"
  ws_view :: "project_ref \<Rightarrow> 'x \<Rightarrow> workspace_view"

record 'x core =
  co_active :: "project_id set"
  co_gate_poisoned :: bool
  co_commands :: command_policy_engine
  co_store :: local_store
  co_world :: 'x

definition core_new_with_command_policy ::
    "local_store \<Rightarrow> 'x \<Rightarrow> command_policy_config \<Rightarrow> 'x core" where
  "core_new_with_command_policy store x config =
     \<lparr>co_active = {}, co_gate_poisoned = False, co_commands = engine_new config, co_store = store,
      co_world = x\<rparr>"

definition core_new :: "local_store \<Rightarrow> 'x \<Rightarrow> 'x core" where
  "core_new store x = core_new_with_command_policy store x deny_all"

definition on_world :: "('x, 'a) act \<Rightarrow> ('x core, 'a) act" where
  "on_world m s = (case m (co_world s) of (r, x) \<Rightarrow> (r, s\<lparr>co_world := x\<rparr>))"

definition on_store :: "(local_store \<Rightarrow> 'a result \<times> local_store) \<Rightarrow> ('x core, 'a) act" where
  "on_store m s = (case m (co_store s) of (r, d) \<Rightarrow> (r, s\<lparr>co_store := d\<rparr>))"

definition on_commands ::
    "(command_policy_engine \<Rightarrow> 'a result \<times> command_policy_engine) \<Rightarrow> ('x core, 'a) act" where
  "on_commands m s = (case m (co_commands s) of (r, c) \<Rightarrow> (r, s\<lparr>co_commands := c\<rparr>))"

subsection \<open>The lifecycle gate\<close>

definition try_acquire :: "project_id \<Rightarrow> ('x core, unit) act" where
  "try_acquire pid s =
     (if co_gate_poisoned s then (Inl (InvalidRequest ''project_lifecycle_gate_poisoned''), s)
      else if pid \<in> co_active s then (Inl (InvalidRequest ''project_lifecycle_busy''), s)
      else (Inr (), s\<lparr>co_active := insert pid (co_active s)\<rparr>))"

definition drop_permit :: "project_id \<Rightarrow> 'x core \<Rightarrow> 'x core" where
  "drop_permit pid s = s\<lparr>co_active := co_active s - {pid}\<rparr>"

definition with_permit :: "project_id \<Rightarrow> ('x core, 'a) act \<Rightarrow> ('x core, 'a) act" where
  "with_permit pid body =
     sbind (try_acquire pid) (\<lambda>_ s. case body s of (r, t) \<Rightarrow> (r, drop_permit pid t))"

subsection \<open>Guards\<close>

definition project_state_store_of :: "'x core_env \<Rightarrow> unit result" where
  "project_state_store_of E =
     ensure (ce_has_project_store E)
       (MissingCapability ''project state store'' ''project_session_persistence'')"

definition conversation_store_of :: "'x core_env \<Rightarrow> unit result" where
  "conversation_store_of E =
     ensure (ce_has_conversation_store E)
       (MissingCapability ''conversation store'' ''multi_chat_persistence'')"

definition checkpoint_store_of :: "'x core_env \<Rightarrow> 'x checkpoint_ops result" where
  "checkpoint_store_of E =
     ok_or (ce_checkpoints E) (MissingCapability ''checkpoint store'' ''project_checkpoint_rollback'')"

definition process_runtime :: "'x core_env \<Rightarrow> 'x process_ops result" where
  "process_runtime E = ok_or (ce_process E) (MissingCapability ''process runtime'' ''local execution'')"

definition ensure_no_active_project_process :: "'x core_env \<Rightarrow> project_id \<Rightarrow> ('x core, unit) act" where
  "ensure_no_active_project_process E pid =
     (case ce_process E of
        None \<Rightarrow> sreturn ()
      | Some runtime \<Rightarrow>
          sbind (on_world (po_active_for_project runtime pid))
            (\<lambda>n. slift (ensure (n = 0) (Process ''project_process_active''))))"

definition invalidate :: "project_id \<Rightarrow> ('x core, nat) act" where
  "invalidate pid = on_commands (\<lambda>c. invalidate_project_authorizations c pid)"

definition agent_turn ::
    "'x core_env \<Rightarrow> session_id \<Rightarrow> rstring \<Rightarrow> model_ref option
      \<Rightarrow> ('x core, turn_result result \<times> agent_event list) act" where
  "agent_turn E sid prompt model s =
     (case ag_run_turn E sid prompt model (co_world s) of ((r, events, calls), x) \<Rightarrow>
        (Inr (r, events),
         s\<lparr>co_world := x, co_commands := engine_calls (ce_uuid E) (co_commands s) calls\<rparr>))"

subsection \<open>Commands and processes\<close>

definition request_project_command ::
    "'x core_env \<Rightarrow> uuid \<Rightarrow> project_ref \<Rightarrow> session_id \<Rightarrow> command_spec
      \<Rightarrow> ('x core, command_request_outcome) act" where
  "request_project_command E fresh project sid command =
     sbind (on_world (ws_verify_project E project))
     (\<lambda>_. sbind (on_world (ag_verify_session_project_binding E project sid))
     (\<lambda>_. on_commands (\<lambda>c. request_command (ce_uuid E) fresh c sid (pr_id project) command)))"

definition decide_project_command ::
    "'x core_env \<Rightarrow> project_ref \<Rightarrow> session_id \<Rightarrow> command_approval_request \<Rightarrow> command_approval_decision
      \<Rightarrow> ('x core, command_decision_outcome) act" where
  "decide_project_command E project sid approval decision =
     sbind (if decision = CA_AllowOnce
            then sbind (on_world (ws_verify_project E project))
                   (\<lambda>_. on_world (ag_verify_session_project_binding E project sid))
            else sreturn ())
     (\<lambda>_. on_commands (\<lambda>c. decide (ce_uuid E) c sid (pr_id project) approval decision))"

definition revoke_pending_project_commands :: "session_id \<Rightarrow> ('x core, nat) act" where
  "revoke_pending_project_commands sid = on_commands (\<lambda>c. revoke_pending_for_session c sid)"

definition start_authorized_project_command_with_lifecycle_held ::
    "'x core_env \<Rightarrow> project_ref \<Rightarrow> session_id \<Rightarrow> command_execution_envelope
      \<Rightarrow> process_execution_options \<Rightarrow> ('x core, running_process) act" where
  "start_authorized_project_command_with_lifecycle_held E project sid envelope options =
     (if en_project_id envelope \<noteq> pr_id project \<or> en_session_id envelope \<noteq> sid
      then sfail (Process ''process_authorization_scope_mismatch'')
      else sbind (on_world (ws_verify_project E project))
      (\<lambda>_. sbind (on_world (ag_verify_session_project_binding E project sid))
      (\<lambda>_. sbind (slift (process_runtime E))
      (\<lambda>runtime. sbind (on_commands (\<lambda>c. (validate_execution_envelope c envelope, c)))
      (\<lambda>_. on_world (po_start runtime project envelope options))))))"

definition start_authorized_project_command ::
    "'x core_env \<Rightarrow> project_ref \<Rightarrow> session_id \<Rightarrow> command_execution_envelope
      \<Rightarrow> process_execution_options \<Rightarrow> ('x core, running_process) act" where
  "start_authorized_project_command E project sid envelope options =
     with_permit (pr_id project)
       (start_authorized_project_command_with_lifecycle_held E project sid envelope options)"

definition prepare_build_job ::
    "'x core_env \<Rightarrow> uuid \<Rightarrow> project_ref \<Rightarrow> build_target_kind \<Rightarrow> ('x core, build_job_descriptor) act" where
  "prepare_build_job E fresh project target =
     sbind (on_world (ws_verify_project E project))
       (\<lambda>_. sreturn (build_job_descriptor_new fresh (pr_id project) target))"

definition start_authorized_build_job ::
    "'x core_env \<Rightarrow> project_ref \<Rightarrow> session_id \<Rightarrow> build_job_descriptor \<Rightarrow> command_execution_envelope
      \<Rightarrow> process_execution_options \<Rightarrow> ('x core, running_build_job) act" where
  "start_authorized_build_job E project sid descriptor envelope options =
     (if jd_project_id descriptor \<noteq> pr_id project
      then sfail (Build ''build_project_scope_mismatch'')
      else sbind (start_authorized_project_command E project sid envelope options)
        (\<lambda>running. sreturn \<lparr>rj_descriptor = descriptor, rj_process = running\<rparr>))"

definition cancel_project_process :: "'x core_env \<Rightarrow> process_id \<Rightarrow> ('x core, unit) act" where
  "cancel_project_process E process_id =
     sbind (slift (process_runtime E)) (\<lambda>runtime. on_world (po_cancel runtime process_id))"

subsection \<open>Checkpoints\<close>

definition create_project_checkpoint ::
    "'x core_env \<Rightarrow> project_ref \<Rightarrow> checkpoint_reason \<Rightarrow> ('x core, checkpoint_metadata) act" where
  "create_project_checkpoint E project reason =
     with_permit (pr_id project)
      (sbind (on_world (ws_verify_project E project))
      (\<lambda>_. sbind (ensure_no_active_project_process E (pr_id project))
      (\<lambda>_. sbind (on_world (ag_ensure_workspace_quiescent E project))
      (\<lambda>_. sbind (slift (checkpoint_store_of E))
      (\<lambda>store. on_world (ko_create store project reason))))))"

definition list_project_checkpoints ::
    "'x core_env \<Rightarrow> project_id \<Rightarrow> nat \<Rightarrow> ('x core, checkpoint_metadata list) act" where
  "list_project_checkpoints E pid max_results =
     sbind (on_world (ws_open_project E pid))
     (\<lambda>_. sbind (slift (checkpoint_store_of E))
     (\<lambda>store. on_world (ko_list store pid max_results)))"

definition remove_project_checkpoint ::
    "'x core_env \<Rightarrow> project_id \<Rightarrow> checkpoint_id \<Rightarrow> ('x core, unit) act" where
  "remove_project_checkpoint E pid cid =
     sbind (on_world (ws_open_project E pid))
     (\<lambda>_. sbind (ensure_no_active_project_process E pid)
     (\<lambda>_. sbind (slift (checkpoint_store_of E))
     (\<lambda>store. on_world (ko_remove store pid cid))))"

text \<open>The session of the project's own persisted state that a rollback has to refresh.\<close>

definition rollback_project_session ::
    "'x core_env \<Rightarrow> project_id \<Rightarrow> ('x core, session_id option) act" where
  "rollback_project_session E pid =
     (if \<not> ce_has_project_store E then sreturn None
      else sbind (on_store (\<lambda>d. load_project_state d pid))
        (\<lambda>found. case found of
           None \<Rightarrow> sreturn None
         | Some state \<Rightarrow>
             if pst_session_creation_pending state
             then sfail (Checkpoint ''checkpoint_rollback_session_creation_pending'')
             else (case pst_agent_session state of
                     None \<Rightarrow> sreturn None
                   | Some session \<Rightarrow>
                       if as_runtime_id session \<noteq> ag_runtime_id E
                       then sfail (Checkpoint ''checkpoint_rollback_session_runtime_mismatch'')
                       else sreturn (Some (as_session_id session)))))"

text \<open>What one listed conversation contributes: its session, and whether it is the permitted pending
  one. The \<open>HashSet\<close> of session ids is the set of the sessions collected so far.\<close>

definition rollback_conversation ::
    "'x core_env \<Rightarrow> (conversation_id \<times> session_id) option \<Rightarrow> session_id list \<Rightarrow> bool
      \<Rightarrow> persisted_conversation \<Rightarrow> (session_id \<times> bool) result" where
  "rollback_conversation E permitted sessions seen c =
     (if cv_session_creation_pending c
      then Inl (Checkpoint ''checkpoint_rollback_conversation_session_creation_pending'')
      else rbind (ok_or (cv_agent_session c)
                    (Checkpoint ''checkpoint_rollback_conversation_session_missing''))
        (\<lambda>session.
           if as_runtime_id session \<noteq> ag_runtime_id E
           then Inl (Checkpoint ''checkpoint_rollback_conversation_runtime_mismatch'')
           else if cv_turn_pending c
                   \<and> (permitted \<noteq> Some (cv_conversation_id c, as_session_id session) \<or> seen)
           then Inl (Checkpoint ''checkpoint_rollback_conversation_turn_pending'')
           else if as_session_id session \<in> set sessions
           then Inl (Checkpoint ''checkpoint_rollback_conversation_session_duplicate'')
           else Inr (as_session_id session, seen \<or> cv_turn_pending c)))"

fun rollback_conversations ::
    "'x core_env \<Rightarrow> project_id \<Rightarrow> (conversation_id \<times> session_id) option \<Rightarrow> session_id list \<Rightarrow> bool
      \<Rightarrow> conversation_id list \<Rightarrow> ('x core, session_id list \<times> bool) act" where
  "rollback_conversations E pid permitted sessions seen [] = sreturn (sessions, seen)"
| "rollback_conversations E pid permitted sessions seen (cid # cids) =
     sbind (on_store (\<lambda>d. load_conversation d (pid, cid)))
     (\<lambda>found. sbind (slift (ok_or found (Checkpoint ''checkpoint_rollback_conversation_disappeared'')))
     (\<lambda>c. sbind (slift (rollback_conversation E permitted sessions seen c))
     (\<lambda>(session, seen'). rollback_conversations E pid permitted (sessions @ [session]) seen' cids)))"

definition rollback_conversation_sessions ::
    "'x core_env \<Rightarrow> project_id \<Rightarrow> (conversation_id \<times> session_id) option
      \<Rightarrow> ('x core, session_id list) act" where
  "rollback_conversation_sessions E pid permitted =
     (if ce_has_conversation_store E
      then sbind (on_store (\<lambda>d. list_conversation_ids d pid MAX_PERSISTED_CONVERSATIONS_PER_PROJECT))
        (\<lambda>ids. sbind (rollback_conversations E pid permitted [] False ids)
        (\<lambda>(sessions, seen).
           if permitted \<noteq> None \<and> \<not> seen
           then sfail (Checkpoint ''checkpoint_rollback_permitted_pending_conversation_missing'')
           else sreturn sessions))
      else if permitted \<noteq> None
      then sfail (Checkpoint ''checkpoint_rollback_pending_conversation_store_missing'')
      else sreturn [])"

definition refresh_sessions ::
    "'x core_env \<Rightarrow> project_ref \<Rightarrow> session_id option \<Rightarrow> session_id list \<Rightarrow> ('x core, unit) act" where
  "refresh_sessions E reopened project_session sessions =
     sbind (case project_session of
              None \<Rightarrow> sreturn ()
            | Some sid \<Rightarrow>
                smap_err (Checkpoint ''checkpoint_rollback_committed_agent_refresh_failed'')
                  (on_world (ag_refresh_session E reopened sid)))
     (\<lambda>_. seach (\<lambda>sid.
        smap_err (Checkpoint ''checkpoint_rollback_committed_conversation_refresh_failed'')
          (on_world (ag_refresh_session E reopened sid))) sessions)"

definition rollback_project_checkpoint_internal ::
    "'x core_env \<Rightarrow> project_ref \<Rightarrow> checkpoint_id \<Rightarrow> (conversation_id \<times> session_id) option
      \<Rightarrow> ('x core, project_ref \<times> rollback_result) act" where
  "rollback_project_checkpoint_internal E project cid permitted =
     with_permit (pr_id project)
      (sbind (on_world (ws_verify_project E project))
      (\<lambda>_. sbind (ensure_no_active_project_process E (pr_id project))
      (\<lambda>_. sbind (on_world (ag_ensure_workspace_quiescent E project))
      (\<lambda>_. sbind (invalidate (pr_id project))
      (\<lambda>_. sbind (rollback_project_session E (pr_id project))
      (\<lambda>project_session. sbind (rollback_conversation_sessions E (pr_id project) permitted)
      (\<lambda>sessions. sbind (slift (checkpoint_store_of E))
      (\<lambda>store. sbind (on_world (ko_rollback store project cid))
      (\<lambda>result. sbind (invalidate (pr_id project))
      (\<lambda>_. sbind (on_world (ws_open_project E (pr_id project)))
      (\<lambda>reopened. sbind (on_world (ws_verify_project E reopened))
      (\<lambda>_. sbind (refresh_sessions E reopened project_session sessions)
      (\<lambda>_. sreturn (reopened, result))))))))))))))"

definition rollback_project_checkpoint ::
    "'x core_env \<Rightarrow> project_ref \<Rightarrow> checkpoint_id \<Rightarrow> ('x core, project_ref \<times> rollback_result) act" where
  "rollback_project_checkpoint E project cid = rollback_project_checkpoint_internal E project cid None"

definition rollback_project_checkpoint_for_pending_conversation ::
    "'x core_env \<Rightarrow> project_ref \<Rightarrow> checkpoint_id \<Rightarrow> conversation_id \<Rightarrow> session_id
      \<Rightarrow> ('x core, project_ref \<times> rollback_result) act" where
  "rollback_project_checkpoint_for_pending_conversation E project cid conversation sid =
     rollback_project_checkpoint_internal E project cid (Some (conversation, sid))"

subsection \<open>Gateway\<close>

definition gateway_health_core :: "'x core_env \<Rightarrow> gateway_credential \<Rightarrow> ('x core, gateway_health) act" where
  "gateway_health_core E credential = on_world (gw_health E credential)"

definition list_gateway_models :: "'x core_env \<Rightarrow> gateway_credential \<Rightarrow> ('x core, model_ref list) act" where
  "list_gateway_models E credential = on_world (gw_list_models E credential)"

definition gateway_execution_profile_core ::
    "'x core_env \<Rightarrow> gateway_credential \<Rightarrow> ('x core, gateway_execution_profile) act" where
  "gateway_execution_profile_core E credential = on_world (gw_execution_profile E credential)"

definition resolve_model_route_policy ::
    "'x core_env \<Rightarrow> gateway_credential \<Rightarrow> route_policy_config \<Rightarrow> ('x core, resolved_policy) act" where
  "resolve_model_route_policy E credential policy =
     sbind (list_gateway_models E credential) (\<lambda>catalog. slift (resolve policy catalog))"

text \<open>An error text of the gateway is a stable code; \<open>detail_code\<close> is that text as the error carries it.\<close>

definition detail_code :: "rstring \<Rightarrow> string" where
  "detail_code t = map char_of t"

definition preflight :: "'x core_env \<Rightarrow> gateway_credential \<Rightarrow> ('x core, unit) act" where
  "preflight E credential =
     sbind (gateway_health_core E credential)
     (\<lambda>h. if \<not> gh_ready h
          then sfail (Gateway (case gh_detail h of
                 None \<Rightarrow> ''model_gateway_not_ready'' | Some d \<Rightarrow> detail_code d))
          else sbind (on_world (ag_ensure_ready E))
     (\<lambda>agent. if \<not> rc_sessions agent then sfail (MissingCapability ''agent runtime'' ''sessions'')
        else if \<not> rc_file_tools agent then sfail (MissingCapability ''agent runtime'' ''file_tools'')
        else (let w = ws_capabilities E in
          if \<not> wc_managed_project_roots w
          then sfail (MissingCapability ''workspace runtime'' ''managed_project_roots'')
          else if \<not> wc_canonical_path_containment w
          then sfail (MissingCapability ''workspace runtime'' ''canonical_path_containment'')
          else if \<not> wc_read_write_files w
          then sfail (MissingCapability ''workspace runtime'' ''read_write_files'')
          else if \<not> wc_text_edit w then sfail (MissingCapability ''workspace runtime'' ''text_edit'')
          else if \<not> wc_project_search w
          then sfail (MissingCapability ''workspace runtime'' ''project_search'')
          else sreturn ())))"

subsection \<open>Projects\<close>

definition create_persisted_project :: "'x core_env \<Rightarrow> uuid \<Rightarrow> ('x core, project_ref) act" where
  "create_persisted_project E fresh =
     sbind (slift (project_state_store_of E))
     (\<lambda>_. sbind (on_world (ws_create_project E (ProjectId fresh)))
     (\<lambda>project. stry (on_store (\<lambda>d. create_project_state d (project_state_new (pr_id project))))
     (\<lambda>created. case created of
        Inr _ \<Rightarrow> sreturn project
      | Inl e \<Rightarrow>
          stry (on_world (ws_remove_project E project))
            (\<lambda>removed. if is_ok removed then sfail e
                       else sfail (Persistence ''project_create_state_rollback_failed'')))))"

definition load_required_project_state ::
    "project_id \<Rightarrow> ('x core, persisted_project_state) act" where
  "load_required_project_state pid =
     sbind (on_store (\<lambda>d. load_project_state d pid))
       (\<lambda>found. slift (ok_or found (Persistence ''project_state_not_found'')))"

definition open_persisted_project ::
    "'x core_env \<Rightarrow> project_id \<Rightarrow> ('x core, project_ref \<times> persisted_project_state) act" where
  "open_persisted_project E pid =
     sbind (slift (project_state_store_of E))
     (\<lambda>_. sbind (load_required_project_state pid)
     (\<lambda>state. sbind (on_world (ws_open_project E pid))
     (\<lambda>project. sreturn (project, state))))"

definition list_persisted_project_ids :: "'x core_env \<Rightarrow> nat \<Rightarrow> ('x core, project_id list) act" where
  "list_persisted_project_ids E max_projects =
     sbind (slift (project_state_store_of E)) (\<lambda>_. on_store (\<lambda>d. list_project_ids d max_projects))"

definition remove_persisted_project :: "'x core_env \<Rightarrow> project_ref \<Rightarrow> ('x core, unit) act" where
  "remove_persisted_project E project =
     with_permit (pr_id project)
      (sbind (slift (project_state_store_of E))
      (\<lambda>_. sbind (load_required_project_state (pr_id project))
      (\<lambda>state. sbind (on_world (ws_verify_project E project))
      (\<lambda>_. sbind (ensure_no_active_project_process E (pr_id project))
      (\<lambda>_. sbind (on_world (ag_ensure_workspace_quiescent E project))
      (\<lambda>_. sbind (invalidate (pr_id project))
      (\<lambda>_. sbind (case pst_agent_session state of
                    None \<Rightarrow> sreturn 0
                  | Some session \<Rightarrow> revoke_pending_project_commands (as_session_id session))
      (\<lambda>_. sbind (on_world (ws_remove_project E project))
      (\<lambda>_. sbind (if ce_has_conversation_store E
                  then on_store (\<lambda>d. remove_project_conversations d (pr_id project))
                  else sreturn ())
      (\<lambda>_. on_store (\<lambda>d. remove_project_state d (pr_id project))))))))))))"

definition create_project :: "'x core_env \<Rightarrow> uuid \<Rightarrow> ('x core, project_ref) act" where
  "create_project E fresh = on_world (ws_create_project E (ProjectId fresh))"

definition open_project :: "'x core_env \<Rightarrow> project_id \<Rightarrow> ('x core, project_ref) act" where
  "open_project E pid = on_world (ws_open_project E pid)"

definition remove_project :: "'x core_env \<Rightarrow> project_ref \<Rightarrow> ('x core, unit) act" where
  "remove_project E project =
     with_permit (pr_id project)
      (sbind (on_world (ws_verify_project E project))
      (\<lambda>_. sbind (ensure_no_active_project_process E (pr_id project))
      (\<lambda>_. sbind (on_world (ag_ensure_workspace_quiescent E project))
      (\<lambda>_. sbind (invalidate (pr_id project))
      (\<lambda>_. on_world (ws_remove_project E project))))))"

definition resolve_project_path :: "'x core_env \<Rightarrow> project_ref \<Rightarrow> path \<Rightarrow> ('x core, path) act" where
  "resolve_project_path E project relative = on_world (ws_resolve_project_path E project relative)"

definition create_project_dir_all :: "'x core_env \<Rightarrow> project_ref \<Rightarrow> path \<Rightarrow> ('x core, unit) act" where
  "create_project_dir_all E project relative =
     with_permit (pr_id project) (on_world (ws_create_dir_all E project relative))"

definition read_project_file :: "'x core_env \<Rightarrow> project_ref \<Rightarrow> path \<Rightarrow> nat \<Rightarrow> ('x core, byte list) act" where
  "read_project_file E project relative max_bytes =
     on_world (ws_read_file E project relative max_bytes)"

definition atomic_write_project_file ::
    "'x core_env \<Rightarrow> project_ref \<Rightarrow> path \<Rightarrow> byte list \<Rightarrow> ('x core, unit) act" where
  "atomic_write_project_file E project relative contents =
     with_permit (pr_id project) (on_world (ws_atomic_write_file E project relative contents))"

definition edit_project_text_file ::
    "'x core_env \<Rightarrow> project_ref \<Rightarrow> path \<Rightarrow> rstring \<Rightarrow> rstring \<Rightarrow> ('x core, text_edit_result) act" where
  "edit_project_text_file E project relative expected replacement =
     with_permit (pr_id project) (on_world (ws_edit_text_file E project relative expected replacement))"

definition apply_project_text_patch ::
    "'x core_env \<Rightarrow> project_ref \<Rightarrow> path \<Rightarrow> text_patch_hunk list \<Rightarrow> ('x core, text_patch_result) act" where
  "apply_project_text_patch E project relative hunks =
     with_permit (pr_id project) (on_world (ws_apply_text_patch E project relative hunks))"

definition list_project_files ::
    "'x core_env \<Rightarrow> project_ref \<Rightarrow> nat \<Rightarrow> ('x core, project_file_list) act" where
  "list_project_files E project max_entries = on_world (ws_list_project_files E project max_entries)"

definition search_project_text ::
    "'x core_env \<Rightarrow> project_ref \<Rightarrow> rstring \<Rightarrow> nat \<Rightarrow> ('x core, project_text_search_result) act" where
  "search_project_text E project needle max_matches =
     on_world (ws_search_project_text E project needle max_matches)"

subsection \<open>Website builds\<close>

definition inspect_website_toolchain ::
    "'x core_env \<Rightarrow> project_ref \<Rightarrow> ('x core, website_toolchain_report) act" where
  "inspect_website_toolchain E project s =
     (inspect_website_project (ce_hash E) (ce_json E) (ws_view E project (co_world s)), s)"

definition prepare_website_build_pipeline ::
    "'x core_env \<Rightarrow> uuid \<Rightarrow> project_ref \<Rightarrow> website_build_policy \<Rightarrow> ('x core, website_build_pipeline) act" where
  "prepare_website_build_pipeline E fresh project policy =
     sbind (on_world (ws_verify_project E project))
     (\<lambda>_. sbind (inspect_website_toolchain E project)
     (\<lambda>report. slift (pipeline_new fresh (pr_id project) report policy)))"

definition request_website_build_stage_command ::
    "'x core_env \<Rightarrow> uuid \<Rightarrow> project_ref \<Rightarrow> session_id \<Rightarrow> website_build_pipeline
      \<Rightarrow> ('x core, command_request_outcome) act" where
  "request_website_build_stage_command E fresh project sid pipeline =
     (if pl_project_id pipeline \<noteq> pr_id project
      then sfail (Build ''web_build_project_scope_mismatch'')
      else sbind (inspect_website_toolchain E project)
      (\<lambda>current. sbind (slift (verify_toolchain_unchanged pipeline current))
      (\<lambda>_. sbind (slift (current_command pipeline))
      (\<lambda>command. request_project_command E fresh project sid command))))"

definition start_authorized_website_build_stage ::
    "'x core_env \<Rightarrow> uuid \<Rightarrow> project_ref \<Rightarrow> session_id \<Rightarrow> website_build_pipeline
      \<Rightarrow> command_execution_envelope \<Rightarrow> process_execution_options
      \<Rightarrow> ('x core, running_website_build_stage) act" where
  "start_authorized_website_build_stage E fresh project sid pipeline envelope options =
     with_permit (pr_id project)
      (if pl_project_id pipeline \<noteq> pr_id project
       then sfail (Build ''web_build_project_scope_mismatch'')
       else sbind (on_world (ws_verify_project E project))
       (\<lambda>_. sbind (on_world (ag_ensure_workspace_quiescent E project))
       (\<lambda>_. sbind (inspect_website_toolchain E project)
       (\<lambda>current. sbind (slift (verify_toolchain_unchanged pipeline current))
       (\<lambda>_. sbind (slift (command_matches_current_stage pipeline (en_command envelope)))
       (\<lambda>_. sbind (start_authorized_project_command_with_lifecycle_held E project sid envelope options)
       (\<lambda>running. slift (into_running pipeline
          \<lparr>rj_descriptor = build_job_descriptor_new fresh (pr_id project) Website,
           rj_process = running\<rparr>))))))))"

subsection \<open>Build repair\<close>

record build_repair_turn_outcome =
  bo_checkpoint :: checkpoint_metadata
  bo_failure :: build_failure_evidence
  bo_turn :: turn_result

record guarded_build_repair_turn_outcome =
  go_attempt :: u8
  go_repair :: build_repair_turn_outcome
  go_stop_reason :: "stop_reason option"

datatype guarded_build_repair_decision =
  RepairTurn guarded_build_repair_turn_outcome | RepairStop stop_reason

definition run_first_build_repair_turn ::
    "'x core_env \<Rightarrow> project_ref \<Rightarrow> session_id \<Rightarrow> build_result \<Rightarrow> model_ref option
      \<Rightarrow> ('x core, build_repair_turn_outcome) act" where
  "run_first_build_repair_turn E project sid failed_build model =
     sbind (slift (from_failed_build (ce_hash E) failed_build))
     (\<lambda>plan. if fe_project_id (rp_evidence plan) \<noteq> pr_id project
        then sfail (Build ''build_repair_project_scope_mismatch'')
        else with_permit (pr_id project)
          (sbind (on_world (ws_verify_project E project))
          (\<lambda>_. sbind (ensure_no_active_project_process E (pr_id project))
          (\<lambda>_. sbind (on_world (ag_ensure_workspace_quiescent E project))
          (\<lambda>_. sbind (on_world (ag_verify_session_project_binding E project sid))
          (\<lambda>_. sbind (invalidate (pr_id project))
          (\<lambda>_. sbind (slift (checkpoint_store_of E))
          (\<lambda>store. sbind (on_world (ko_create store project BeforeBuildRepair))
          (\<lambda>checkpoint. sbind (agent_turn E sid (rp_prompt plan) model)
          (\<lambda>(turn_result, events). sbind (invalidate (pr_id project))
          (\<lambda>_. sbind (slift turn_result)
          (\<lambda>turn. sreturn \<lparr>bo_checkpoint = checkpoint, bo_failure = rp_evidence plan,
                           bo_turn = turn\<rparr>))))))))))))"

definition new_build_repair_loop ::
    "uuid \<Rightarrow> project_id \<Rightarrow> build_target_kind \<Rightarrow> build_repair_loop_policy
      \<Rightarrow> build_repair_loop_guard result" where
  "new_build_repair_loop fresh pid target policy = loop_guard_new fresh pid target policy"

text \<open>The guard is the caller's \<open>&mut\<close> value: the result holds the decision and the guard afterwards,
  and so does an error, which is why the guard is returned beside the result.\<close>

definition run_guarded_build_repair_turn ::
    "'x core_env \<Rightarrow> build_repair_loop_guard \<Rightarrow> project_ref \<Rightarrow> session_id \<Rightarrow> build_result
      \<Rightarrow> model_ref option \<Rightarrow> 'x core
      \<Rightarrow> (guarded_build_repair_decision result \<times> build_repair_loop_guard) \<times> 'x core" where
  "run_guarded_build_repair_turn E guard project sid failed_build model s =
     (if lg_project_id guard \<noteq> pr_id project \<or> lg_target guard \<noteq> br_target failed_build
      then ((Inl (Build ''build_loop_project_scope_mismatch''), guard), s)
      else case authorize_repair (ce_hash E) guard failed_build of
        (Inl e, g) \<Rightarrow> ((Inl e, g), s)
      | (Inr (Stop reason), g) \<Rightarrow> ((Inr (RepairStop reason), g), s)
      | (Inr (Repair permit), g) \<Rightarrow>
          (case run_first_build_repair_turn E project sid failed_build model s of
             (Inl e, t) \<Rightarrow> ((Inl e, g), t)
           | (Inr repair, t) \<Rightarrow>
               (let observed = fe_fingerprint_sha256 (bo_failure repair)
                in case finish_repair g permit (bo_turn repair) observed of
                     (Inl e, g') \<Rightarrow> ((Inl e, g'), t)
                   | (Inr _, g') \<Rightarrow>
                       ((if observed \<noteq> ra_fingerprint_sha256 permit
                         then Inl (Build ''build_loop_repair_evidence_changed'')
                         else Inr (RepairTurn \<lparr>go_attempt = ra_attempt permit, go_repair = repair,
                                go_stop_reason = loop_stop_reason g'\<rparr>), g'), t))))"

definition record_guarded_website_build_completion ::
    "build_repair_loop_guard \<Rightarrow> website_build_stage_completion
      \<Rightarrow> stop_reason option result \<times> build_repair_loop_guard" where
  "record_guarded_website_build_completion guard completion =
     (if lg_project_id guard \<noteq> pl_project_id (sc_pipeline completion) \<or> lg_target guard \<noteq> Website
      then (Inl (Build ''build_loop_project_scope_mismatch''), guard)
      else case pl_state (sc_pipeline completion) of
        AwaitingApproval _ \<Rightarrow> (Inr None, guard)
      | PipelineFailed \<Rightarrow> (Inr None, guard)
      | NoBuildRequired \<Rightarrow> (Inl (Build ''build_loop_website_completion_state_invalid''), guard)
      | PipelineRunning _ \<Rightarrow> (Inl (Build ''build_loop_website_completion_state_invalid''), guard)
      | _ \<Rightarrow> (case finish_nonfailed_build guard (sc_result completion) of
               (Inl e, g) \<Rightarrow> (Inl e, g) | (Inr reason, g) \<Rightarrow> (Inr (Some reason), g)))"

definition prepare_guarded_website_rebuild ::
    "'x core_env \<Rightarrow> uuid \<Rightarrow> build_repair_loop_guard \<Rightarrow> project_ref \<Rightarrow> website_build_policy \<Rightarrow> 'x core
      \<Rightarrow> (website_build_pipeline result \<times> build_repair_loop_guard) \<times> 'x core" where
  "prepare_guarded_website_rebuild E fresh guard project policy s =
     (if lg_project_id guard \<noteq> pr_id project \<or> lg_target guard \<noteq> Website
      then ((Inl (Build ''build_loop_project_scope_mismatch''), guard), s)
      else case rebuild_permit guard of
        Inl e \<Rightarrow> ((Inl e, guard), s)
      | Inr permit \<Rightarrow>
          (case prepare_website_build_pipeline E fresh project policy s of
             (Inl e, t) \<Rightarrow> ((Inl e, guard), t)
           | (Inr pipeline, t) \<Rightarrow>
               (case mark_rebuild_prepared guard permit of
                  (Inl e, g) \<Rightarrow> ((Inl e, g), t) | (Inr _, g) \<Rightarrow> ((Inr pipeline, g), t))))"

definition request_build_repair_loop_cancel ::
    "build_repair_loop_guard \<Rightarrow> 'x core \<Rightarrow> (unit result \<times> build_repair_loop_guard) \<times> 'x core" where
  "request_build_repair_loop_cancel guard s =
     (case invalidate (lg_project_id guard) s of (r, t) \<Rightarrow>
        ((map_sum id (\<lambda>_. ()) r, cancellation_request guard), t))"

definition cancel_active_guarded_website_rebuild ::
    "'x core_env \<Rightarrow> build_repair_loop_guard \<Rightarrow> running_website_build_stage \<Rightarrow> 'x core
      \<Rightarrow> (unit result \<times> build_repair_loop_guard) \<times> 'x core" where
  "cancel_active_guarded_website_rebuild E guard running s =
     (if lg_project_id guard \<noteq> pl_project_id (rs_pipeline running) \<or> lg_target guard \<noteq> Website
      then ((Inl (Build ''build_loop_project_scope_mismatch''), guard), s)
      else case request_build_repair_loop_cancel guard s of
        ((Inl e, g), t) \<Rightarrow> ((Inl e, g), t)
      | ((Inr _, g), t) \<Rightarrow>
          (case cancel_project_process E (rn_process_id (rj_process (rs_running running))) t of
             (r, u) \<Rightarrow> ((r, g), u)))"

definition cancel_active_build_repair_turn ::
    "'x core_env \<Rightarrow> build_repair_loop_guard \<Rightarrow> project_ref \<Rightarrow> session_id \<Rightarrow> 'x core
      \<Rightarrow> (unit result \<times> build_repair_loop_guard) \<times> 'x core" where
  "cancel_active_build_repair_turn E guard project sid s =
     (if lg_project_id guard \<noteq> pr_id project
      then ((Inl (Build ''build_loop_project_scope_mismatch''), guard), s)
      else case request_build_repair_loop_cancel guard s of
        ((Inl e, g), t) \<Rightarrow> ((Inl e, g), t)
      | ((Inr _, g), t) \<Rightarrow>
          (case sbind (on_world (ws_verify_project E project))
                  (\<lambda>_. sbind (on_world (ag_verify_session_project_binding E project sid))
                  (\<lambda>_. on_world (ag_cancel E sid))) t of
             (r, u) \<Rightarrow> ((r, g), u)))"

definition start_project_session :: "'x core_env \<Rightarrow> project_ref \<Rightarrow> ('x core, session_id) act" where
  "start_project_session E project =
     with_permit (pr_id project)
      (sbind (on_world (ws_verify_project E project))
      (\<lambda>_. on_world (ag_create_session E project)))"

definition resume_project_session ::
    "'x core_env \<Rightarrow> project_ref \<Rightarrow> session_id \<Rightarrow> ('x core, unit) act" where
  "resume_project_session E project sid =
     with_permit (pr_id project)
      (sbind (on_world (ws_verify_project E project))
      (\<lambda>_. on_world (ag_resume_session E project sid)))"

definition list_session_models :: "'x core_env \<Rightarrow> session_id \<Rightarrow> ('x core, model_ref list) act" where
  "list_session_models E sid = on_world (ag_list_models E sid)"

definition set_session_model :: "'x core_env \<Rightarrow> session_id \<Rightarrow> model_ref \<Rightarrow> ('x core, unit) act" where
  "set_session_model E sid model = on_world (ag_set_model E sid model)"

section \<open>What operations leave alone\<close>

text \<open>The durable part of the state: whether the store is well formed, and what it holds.\<close>

definition durable ::
    "'x core \<Rightarrow> bool \<times> (project_id \<times> conversation_id \<rightharpoonup> persisted_conversation)
      \<times> (project_id \<rightharpoonup> persisted_project_state)" where
  "durable s = (store_inv (co_store s), conversation_view (co_store s), project_view (co_store s))"

lemma durable_simps [simp]:
  "durable (s\<lparr>co_world := x\<rparr>) = durable s" "durable (s\<lparr>co_commands := c\<rparr>) = durable s"
  "durable (s\<lparr>co_active := a\<rparr>) = durable s" "durable (drop_permit pid s) = durable s"
  by (simp_all add: durable_def drop_permit_def)

lemma durable_tick: "d = co_store s \<or> d = tick (co_store s) \<Longrightarrow> durable (s\<lparr>co_store := d\<rparr>) = durable s"
  by (auto simp: durable_def)

lemma keeps_on_world [keeps_intros]:
  "keeps co_active (on_world m)" "keeps co_store (on_world m)" "keeps co_commands (on_world m)"
  "keeps durable (on_world m)"
  by (auto simp: keeps_def on_world_def split: prod.split)

lemma keeps_on_commands [keeps_intros]:
  "keeps co_active (on_commands m)" "keeps co_store (on_commands m)" "keeps durable (on_commands m)"
  by (auto simp: keeps_def on_commands_def split: prod.split)

lemma keeps_on_store [keeps_intros]: "keeps co_active (on_store m)" "keeps co_commands (on_store m)"
  by (auto simp: keeps_def on_store_def split: prod.split)

lemma keeps_loads [keeps_intros]:
  "keeps durable (on_store (\<lambda>d. load_conversation d k))"
  "keeps durable (on_store (\<lambda>d. load_project_state d pid))"
  "keeps durable (on_store (\<lambda>d. list_conversation_ids d pid n))"
  by (auto simp: keeps_def on_store_def intro!: durable_tick split: prod.split
      dest: load_conversation_effect load_project_state_effect list_conversation_ids_keeps)

lemma keeps_agent_turn [keeps_intros]:
  "keeps co_active (agent_turn E sid prompt m)" "keeps durable (agent_turn E sid prompt m)"
  by (auto simp: keeps_def agent_turn_def split: prod.split)

lemma keeps_invalidate [keeps_intros]:
  "keeps co_active (invalidate pid)" "keeps durable (invalidate pid)"
  by (auto simp: invalidate_def intro: keeps_intros)

lemma with_permit_cases:
  assumes "with_permit pid body s = (r, t)"
  obtains e where "r = Inl e" "t = s"
  | u where "pid \<notin> co_active s" "body (s\<lparr>co_active := insert pid (co_active s)\<rparr>) = (r, u)"
      "t = drop_permit pid u"
  using assms by (auto simp: with_permit_def sbind_def try_acquire_def split: if_splits prod.splits)

lemma keeps_with_permit [keeps_intros]:
  "keeps co_active body \<Longrightarrow> keeps co_active (with_permit pid body)"
  "keeps durable body \<Longrightarrow> keeps durable (with_permit pid body)"
proof -
  assume k: "keeps co_active body"
  have "co_active t = co_active s" if "with_permit pid body s = (r, t)" for s r t
    using that
  proof (cases rule: with_permit_cases)
    case (2 u)
    then show ?thesis using keepsD [OF k 2(2)] by (auto simp: drop_permit_def)
  qed simp
  then show "keeps co_active (with_permit pid body)" by (rule keepsI)
next
  assume k: "keeps durable body"
  have "durable t = durable s" if "with_permit pid body s = (r, t)" for s r t
    using that
  proof (cases rule: with_permit_cases)
    case (2 u)
    then show ?thesis using keepsD [OF k 2(2)] by simp
  qed simp
  then show "keeps durable (with_permit pid body)" by (rule keepsI)
qed

lemma keeps_guards [keeps_intros]:
  "keeps co_active (ensure_no_active_project_process E pid)"
  "keeps durable (ensure_no_active_project_process E pid)"
  by (auto simp: ensure_no_active_project_process_def intro!: keeps_intros split: option.split)

lemma keeps_checkpoint_ops [keeps_intros]:
  "keeps co_active (create_project_checkpoint E p reason)" "keeps durable (create_project_checkpoint E p reason)"
  "keeps co_active (remove_project_checkpoint E pid cid)" "keeps durable (remove_project_checkpoint E pid cid)"
  by (simp_all only: create_project_checkpoint_def remove_project_checkpoint_def) (intro keeps_intros)+

lemma keeps_rollback_conversations [keeps_intros]:
  "keeps co_active (rollback_conversations E pid permitted sessions seen cids)"
  "keeps durable (rollback_conversations E pid permitted sessions seen cids)"
  by (induction cids arbitrary: sessions seen) (auto intro!: keeps_intros)

lemma keeps_rollback [keeps_intros]:
  "keeps co_active (rollback_project_checkpoint_internal E p cid permitted)"
  "keeps durable (rollback_project_checkpoint_internal E p cid permitted)"
  by (simp_all only: rollback_project_checkpoint_internal_def rollback_project_session_def
      rollback_conversation_sessions_def refresh_sessions_def) (intro keeps_intros)+

lemma keeps_rollbacks [keeps_intros]:
  "keeps co_active (rollback_project_checkpoint E p cid)"
  "keeps durable (rollback_project_checkpoint E p cid)"
  "keeps co_active (rollback_project_checkpoint_for_pending_conversation E p cid c sid)"
  "keeps durable (rollback_project_checkpoint_for_pending_conversation E p cid c sid)"
  by (simp_all add: rollback_project_checkpoint_def
      rollback_project_checkpoint_for_pending_conversation_def keeps_rollback)

section \<open>Rules\<close>

lemma wp_quiet: "keeps p m \<Longrightarrow> (\<And>r t. p t = p s \<Longrightarrow> Q r t) \<Longrightarrow> wp m Q s"
  by (rule wpI) (auto dest: keepsD)

lemma wp_permit:
  assumes "\<And>e. Q (Inl e) s"
    and "pid \<notin> co_active s
      \<Longrightarrow> wp body (\<lambda>r t. Q r (drop_permit pid t)) (s\<lparr>co_active := insert pid (co_active s)\<rparr>)"
  shows "wp (with_permit pid body) Q s"
proof (rule wpI)
  fix r t
  assume "with_permit pid body s = (r, t)"
  then show "Q r t"
  proof (cases rule: with_permit_cases)
    case (1 e)
    then show ?thesis using assms(1) by simp
  next
    case (2 u)
    then show ?thesis using wpD [OF assms(2) 2(2)] by simp
  qed
qed

lemma sbind_same:
  assumes "keeps p m" and "\<And>a t. p t = p s \<Longrightarrow> f a t = g a t"
  shows "sbind m f s = sbind m g s"
  using assms(2) keepsD [OF assms(1), of s] by (auto simp: sbind_def split: prod.split sum.split)

lemma sbind_fails:
  assumes "keeps p m" and "\<And>a t. p t = p s \<Longrightarrow> \<exists>e u. f a t = (Inl e, u)"
  shows "\<exists>e u. sbind m f s = (Inl e, u)"
  using assms(2) keepsD [OF assms(1), of s] by (auto simp: sbind_def split: prod.split sum.split)

lemma load_conversation_step:
  "on_store (\<lambda>d. load_conversation d k) s = (Inr v, t) \<Longrightarrow>
     v = conversation_view (co_store s) k \<and> durable t = durable s"
  using keepsD [OF keeps_loads(1)]
  by (fastforce simp: on_store_def dest: load_conversation_effect split: prod.splits)

text \<open>Every step of an update that the store can make, as one fact.\<close>

lemma update_conversation_step:
  assumes "on_store (\<lambda>d. update_conversation d n c) s = (r, t)" and "store_inv (co_store s)"
  shows "(\<exists>e. r = Inl e) \<and> durable t = durable s
    \<or> (\<exists>m old. ok_conversation c \<and> cv_revision c = n \<and> checked_succ n = Some m
      \<and> conversation_view (co_store s) (cv_project_id c, cv_conversation_id c) = Some old
      \<and> durable t = (True, (conversation_view (co_store s))
          ((cv_project_id c, cv_conversation_id c) \<mapsto> c\<lparr>cv_revision := m\<rparr>), project_view (co_store s))
      \<and> ((\<exists>e. r = Inl e) \<or> r = Inr (c\<lparr>cv_revision := m\<rparr>)))"
proof -
  obtain d where d: "update_conversation (co_store s) n c = (r, d)" "t = s\<lparr>co_store := d\<rparr>"
    using assms(1) by (auto simp: on_store_def split: prod.splits)
  from update_conversation_effect [OF assms(2) d(1)] show ?thesis
    using assms(2) unfolding d(2) by (elim disjE) (auto simp: stays_def durable_def)
qed

subsection \<open>Pending turns block a rollback\<close>

definition blocks_rollback ::
    "(conversation_id \<times> session_id) option \<Rightarrow> persisted_conversation \<Rightarrow> bool" where
  "blocks_rollback permitted c \<longleftrightarrow> cv_turn_pending c
     \<and> (\<forall>sid. permitted \<noteq> Some (cv_conversation_id c, sid))"

lemma rollback_conversation_blocked:
  "blocks_rollback permitted c \<Longrightarrow> \<exists>e. rollback_conversation E permitted ss seen c = Inl e"
  by (cases "cv_agent_session c") (auto simp: rollback_conversation_def blocks_rollback_def)

lemma rollback_conversations_blocked:
  assumes "cid \<in> set cids" and "conversation_view (co_store s) (pid, cid) = Some c"
    and "blocks_rollback permitted c"
  shows "\<exists>e t. rollback_conversations E pid permitted ss seen cids s = (Inl e, t)"
  using assms(1,2)
proof (induction cids arbitrary: ss seen s)
  case (Cons x xs)
  let ?load = "on_store (\<lambda>d. load_conversation d (pid, x)) s"
  obtain r t where load: "?load = (r, t)" by fastforce
  show ?case
  proof (cases r)
    case (Inr found)
    have found: "found = conversation_view (co_store s) (pid, x)" "durable t = durable s"
      using load_conversation_step load Inr by blast+
    then have view: "conversation_view (co_store t) = conversation_view (co_store s)"
      by (simp add: durable_def)
    show ?thesis
    proof (cases "x = cid")
      case True
      then have "r = Inr (Some c)" using Inr found(1) Cons.prems(2) by simp
      moreover obtain e where "rollback_conversation E permitted ss seen c = Inl e"
        using rollback_conversation_blocked [OF assms(3)] by blast
      ultimately show ?thesis by (simp add: sbind_def slift_def load)
    next
      case False
      then have "\<exists>e u. rollback_conversations E pid permitted ss' seen' xs t = (Inl e, u)" for ss' seen'
        using Cons view by auto
      then show ?thesis using load Inr found(1)
        by (auto simp: sbind_def slift_def split: prod.split sum.split)
    qed
  qed (auto simp: sbind_def load)
qed simp

lemma rollback_sessions_blocked:
  assumes "store_inv (co_store s)" and "ce_has_conversation_store E"
    and "conversation_view (co_store s) (pid, cid) = Some c" and "blocks_rollback permitted c"
  shows "\<exists>e t. rollback_conversation_sessions E pid permitted s = (Inl e, t)"
proof -
  let ?ids = "on_store (\<lambda>d. list_conversation_ids d pid MAX_PERSISTED_CONVERSATIONS_PER_PROJECT)"
  obtain r t where list: "?ids s = (r, t)" by fastforce
  show ?thesis
  proof (cases r)
    case (Inr ids)
    then obtain d where d: "list_conversation_ids (co_store s) pid
        MAX_PERSISTED_CONVERSATIONS_PER_PROJECT = (Inr ids, d)"
      using list by (auto simp: on_store_def split: prod.splits)
    have cid: "cid \<in> set ids" using conversations.list_complete [OF assms(1) d] assms(3) by blast
    have "durable t = durable s" using keepsD [OF keeps_loads(3) list] .
    then have "conversation_view (co_store t) (pid, cid) = Some c"
      using assms(3) by (simp add: durable_def)
    from rollback_conversations_blocked [OF cid this assms(4)] obtain e u
      where "rollback_conversations E pid permitted [] False ids t = (Inl e, u)" by blast
    then show ?thesis by (simp add: rollback_conversation_sessions_def assms(2) sbind_def list Inr)
  qed (use list assms(2) in \<open>auto simp: rollback_conversation_sessions_def sbind_def\<close>)
qed

text \<open>Which rollback function a checkpoint store has does not matter before it is called.\<close>

lemma rollback_frame [simp]:
  "ensure_no_active_project_process (E\<lparr>ce_checkpoints := k\<rparr>) = ensure_no_active_project_process E"
  "rollback_project_session (E\<lparr>ce_checkpoints := k\<rparr>) = rollback_project_session E"
  "rollback_conversation (E\<lparr>ce_checkpoints := k\<rparr>) = rollback_conversation E"
  by (simp_all add: ensure_no_active_project_process_def rollback_project_session_def
      rollback_conversation_def fun_eq_iff cong: option.case_cong if_cong)

lemma rollback_conversations_frame [simp]:
  "rollback_conversations (E\<lparr>ce_checkpoints := k\<rparr>) pid permitted ss seen cids
     = rollback_conversations E pid permitted ss seen cids"
  by (induction cids arbitrary: ss seen) simp_all

lemma rollback_sessions_frame [simp]:
  "rollback_conversation_sessions (E\<lparr>ce_checkpoints := k\<rparr>) = rollback_conversation_sessions E"
  by (simp add: rollback_conversation_sessions_def fun_eq_iff)

section \<open>The gate under concurrent requests\<close>

text \<open>Requests run concurrently; each holds the permits it took until it drops them. The state is the
  gate with the permits that are out.\<close>

inductive gate_step :: "'x core \<times> project_id list \<Rightarrow> 'x core \<times> project_id list \<Rightarrow> bool" where
  acquire: "try_acquire pid s = (Inr (), t) \<Longrightarrow> gate_step (s, held) (t, pid # held)"
| refused: "try_acquire pid s = (Inl e, t) \<Longrightarrow> gate_step (s, held) (t, held)"
| release: "pid \<in> set held \<Longrightarrow> gate_step (s, held) (drop_permit pid s, remove1 pid held)"
| other: "co_active t = co_active s \<Longrightarrow> gate_step (s, held) (t, held)"

inductive_cases gate_stepE: "gate_step st st'"

definition gate_init :: "'x core \<times> project_id list \<Rightarrow> bool" where
  "gate_init st \<longleftrightarrow> co_active (fst st) = {} \<and> snd st = []"

definition gate_inv :: "'x core \<times> project_id list \<Rightarrow> bool" where
  "gate_inv st \<longleftrightarrow> distinct (snd st) \<and> co_active (fst st) = set (snd st)"

lemma gate_step_inv:
  assumes "gate_step st st'" and "gate_inv st"
  shows "gate_inv st'"
  using assms
proof (induction rule: gate_step.induct)
  case (acquire pid s t held)
  then have "pid \<notin> co_active s \<and> t = s\<lparr>co_active := insert pid (co_active s)\<rparr>"
    unfolding try_acquire_def by (simp split: if_splits)
  then show ?case using acquire by (simp add: gate_inv_def)
next
  case (refused pid s e t held)
  then have "t = s" unfolding try_acquire_def by (simp split: if_splits)
  then show ?case using refused by (simp add: gate_inv_def)
next
  case (release pid held s)
  then show ?case by (auto simp: gate_inv_def drop_permit_def)
next
  case (other t s held)
  then show ?case by (simp add: gate_inv_def)
qed

interpretation gate: invariant_system gate_init gate_step gate_inv
  by unfold_locales (simp add: gate_init_def gate_inv_def, rule gate_step_inv)

section \<open>Revocation at a boundary\<close>

lemma invalidate_drops_pending:
  "invalidate_project_authorizations e pid = (Inr n, c) \<Longrightarrow>
     es_pending c = filter (\<lambda>x. pc_project_id (snd x) \<noteq> pid) (es_pending e)"
  by (auto simp: invalidate_project_authorizations_def Let_def split_beta
      split: sum.split_asm option.split_asm if_splits)

lemma invalidate_revokes:
  assumes "invalidate pid s = (Inr n, t)"
  shows "\<forall>e \<in> set (es_pending (co_commands t)). pc_project_id (snd e) \<noteq> pid"
    and "unat (project_epoch (co_commands t) pid) = unat (project_epoch (co_commands s) pid) + 1"
proof -
  obtain c where c: "invalidate_project_authorizations (co_commands s) pid = (Inr n, c)"
    "co_commands t = c"
    using assms by (auto simp: invalidate_def on_commands_def split: prod.splits)
  then show "unat (project_epoch (co_commands t) pid) = unat (project_epoch (co_commands s) pid) + 1"
    using invalidate_epochs [OF c(1), of pid] by simp
  show "\<forall>e \<in> set (es_pending (co_commands t)). pc_project_id (snd e) \<noteq> pid"
    using invalidate_drops_pending [OF c(1)] c(2) by simp
qed

section \<open>A refused rollback\<close>

text \<open>The part of a rollback that runs before the checkpoint store is looked up.\<close>

definition rollback_guards ::
    "'x core_env \<Rightarrow> project_ref \<Rightarrow> (conversation_id \<times> session_id) option
      \<Rightarrow> (session_id option \<Rightarrow> session_id list \<Rightarrow> ('x core, 'a) act) \<Rightarrow> ('x core, 'a) act" where
  "rollback_guards E project permitted rest =
     sbind (on_world (ws_verify_project E project))
     (\<lambda>_. sbind (ensure_no_active_project_process E (pr_id project))
     (\<lambda>_. sbind (on_world (ag_ensure_workspace_quiescent E project))
     (\<lambda>_. sbind (invalidate (pr_id project))
     (\<lambda>_. sbind (rollback_project_session E (pr_id project))
     (\<lambda>session. sbind (rollback_conversation_sessions E (pr_id project) permitted)
     (\<lambda>sessions. rest session sessions))))))"

lemma keeps_try_acquire [keeps_intros]: "keeps durable (try_acquire pid)"
  by (rule keepsI) (auto simp: try_acquire_def split: if_splits)

lemma keeps_rollback_project_session [keeps_intros]: "keeps durable (rollback_project_session E pid)"
  unfolding rollback_project_session_def by (intro keeps_intros)

lemma rollback_guards_refuse:
  assumes "\<And>t. durable t = durable s \<Longrightarrow>
      \<exists>e u. rollback_conversation_sessions E (pr_id project) permitted t = (Inl e, u)"
  shows "rollback_guards E project permitted f s = rollback_guards E project permitted g s"
    and "\<exists>e u. rollback_guards E project permitted f s = (Inl e, u)"
proof -
  have refused: "\<exists>e u. rollback_conversation_sessions E (pr_id project) permitted t = (Inl e, u)"
    if "durable t = durable s" for t using assms that .
  have quiet: "keeps durable (on_world (ws_verify_project E project))"
    "keeps durable (ensure_no_active_project_process E (pr_id project))"
    "keeps durable (on_world (ag_ensure_workspace_quiescent E project))"
    "keeps durable (invalidate (pr_id project))"
    "keeps durable (rollback_project_session E (pr_id project))"
    by (intro keeps_intros)+
  show "rollback_guards E project permitted f s = rollback_guards E project permitted g s"
    unfolding rollback_guards_def
    by (rule sbind_same [OF quiet(1)], rule sbind_same [OF quiet(2)], rule sbind_same [OF quiet(3)],
        rule sbind_same [OF quiet(4)], rule sbind_same [OF quiet(5)])
      (use refused in \<open>fastforce simp: sbind_def\<close>)
  show "\<exists>e u. rollback_guards E project permitted f s = (Inl e, u)"
    unfolding rollback_guards_def
    by (rule sbind_fails [OF quiet(1)], rule sbind_fails [OF quiet(2)], rule sbind_fails [OF quiet(3)],
        rule sbind_fails [OF quiet(4)], rule sbind_fails [OF quiet(5)])
      (use refused in \<open>fastforce simp: sbind_def\<close>)
qed

section \<open>Concrete instances\<close>

text \<open>A core over a store that holds one conversation, with every external call failing.\<close>

definition one_store :: "persisted_conversation \<Rightarrow> local_store" where
  "one_store c = demo_store
     \<lparr>ls_codec := \<lparr>sc_encode_project = (\<lambda>_. None), sc_decode_project = (\<lambda>_. None),
        sc_encode_conversation = (\<lambda>v. if v = c then Some [1] else None),
        sc_decode_conversation = (\<lambda>b. if b = [1] then Some c else None)\<rparr>,
      ls_conversations :=
        [(Utf8Path (conversation_file_name demo_uuid_names (cv_project_id c) (cv_conversation_id c)),
          \<lparr>sf_stat = demo_stat, sf_bytes = [1]\<rparr>)]\<rparr>"

lemma one_store_inv: "store_inv (one_store c)"
  by (simp add: store_inv_def one_store_def demo_store_def demo_uuid_ok codec_ok_def)

lemma one_store_view:
  assumes "conversation_validate c = Inr ()"
  shows "conversation_view (one_store c) (cv_project_id c, cv_conversation_id c) = Some c"
proof -
  have "private_regular demo_stat" by code_simp
  with assms show ?thesis
    by (simp add: conversation_view_def conversations_in_def stored_file_def one_store_def demo_store_def
        decode_conversation_def max_file_bytes_def MAX_PERSISTED_CONVERSATION_BYTES_def)
qed

text \<open>The environment of these instances: both stores are there, and every call that leaves the core fails.\<close>

definition offline :: "('s, 'a) act" where
  "offline = sfail (MissingCapability ''witness'' ''offline'')"

definition offline_env :: "unit core_env" where
  "offline_env =
     \<lparr>ce_uuid = \<lparr>ut_parse_str = (\<lambda>_. None), ut_hyphenated = (\<lambda>_. [])\<rparr>,
      ce_hash = (\<lambda>_. []), ce_json = (\<lambda>_. None),
      ce_has_project_store = True, ce_has_conversation_store = True, ce_process = None,
      ce_checkpoints = None, ag_runtime_id = lit ''jcode-harness'', ag_bridge = None,
      ag_ensure_ready = offline, ag_create_session = (\<lambda>_. offline),
      ag_resume_session = (\<lambda>_ _. offline), ag_verify_session_project_binding = (\<lambda>_ _. offline),
      ag_ensure_workspace_quiescent = (\<lambda>_. offline), ag_refresh_session = (\<lambda>_ _. offline),
      ag_run_turn = (\<lambda>_ _ _ x. ((Inl (MissingCapability ''witness'' ''offline''), [], []), x)),
      ag_cancel = (\<lambda>_. offline), ag_list_models = (\<lambda>_. offline),
      ag_corroborate_model_identity = (\<lambda>_ _. offline), ag_set_model = (\<lambda>_ _. offline),
      gw_health = (\<lambda>_. offline), gw_execution_profile = (\<lambda>_. offline),
      gw_list_models = (\<lambda>_. offline), gw_chat_completion = (\<lambda>_ _. offline),
      ws_capabilities = \<lparr>wc_read_write_files = False, wc_managed_project_roots = False,
        wc_canonical_path_containment = False, wc_text_edit = False, wc_project_search = False,
        wc_commands = False, wc_process_isolation = False, wc_resource_limits = False,
        wc_snapshots = False, wc_max_file_read_bytes = 0, wc_max_file_write_bytes = 0\<rparr>,
      ws_create_project = (\<lambda>_. offline), ws_open_project = (\<lambda>_. offline),
      ws_remove_project = (\<lambda>_. offline), ws_verify_project = (\<lambda>_. offline),
      ws_resolve_project_path = (\<lambda>_ _. offline), ws_create_dir_all = (\<lambda>_ _. offline),
      ws_read_file = (\<lambda>_ _ _. offline), ws_atomic_write_file = (\<lambda>_ _ _. offline),
      ws_edit_text_file = (\<lambda>_ _ _ _. offline), ws_apply_text_patch = (\<lambda>_ _ _. offline),
      ws_list_project_files = (\<lambda>_ _. offline), ws_search_project_text = (\<lambda>_ _ _. offline),
      ws_view = (\<lambda>_ _. \<lparr>wv_verify_project = Inl Cancelled, wv_regular_file_exists = (\<lambda>_. Inl Cancelled),
        wv_read_file = (\<lambda>_ _. Inl Cancelled)\<rparr>)\<rparr>"

definition sample_project :: project_ref where
  "sample_project = \<lparr>pr_id = ProjectId 1, pr_root = Utf8Path (lit ''/projects/1'')\<rparr>"

definition pending_conversation :: persisted_conversation where
  "pending_conversation = demo_conversation
     \<lparr>cv_turn_pending := True,
      cv_messages := [\<lparr>pm_sequence = 0, pm_role = RoleUser, pm_text = lit ''Add a footer''\<rparr>]\<rparr>"

lemma pending_conversation_facts:
  "conversation_validate pending_conversation = Inr ()" "cv_turn_pending pending_conversation"
  "cv_project_id pending_conversation = ProjectId 1"
  "cv_conversation_id pending_conversation = ConversationId 2"
  by code_simp+

section \<open>Properties\<close>

text \<open>C8: Lifecycle permits exclude each other. However requests interleave, the projects in the gate
  are exactly those whose permit is out, no project has two permits out, and a request for a held
  project is refused and leaves the core unchanged.\<close>

theorem lifecycle_mutual_exclusion:
  assumes "reach gate_init gate_step (s, held)"
  shows "distinct held \<and> co_active s = set held
    \<and> (\<forall>pid \<in> set held. \<exists>e. try_acquire pid s = (Inl e, s))
    \<and> (\<forall>pid. pid \<notin> set held \<and> \<not> co_gate_poisoned s
        \<longrightarrow> try_acquire pid s = (Inr (), s\<lparr>co_active := set (pid # held)\<rparr>))"
  using gate.reach_inv [OF assms] by (auto simp: gate_inv_def try_acquire_def)

text \<open>C7: A rollback never runs under another conversation's turn. If a conversation of the project is
  pending and is not the one the core itself nominated, the rollback is refused, and refused before
  the checkpoint store is asked: the outcome is the same for every rollback function it could have.\<close>

theorem rollback_spares_pending_turns:
  fixes E :: "'x core_env"
  assumes "store_inv (co_store s)" and "ce_has_conversation_store E"
    and "conversation_view (co_store s) (pr_id project, cid) = Some c" and "cv_turn_pending c"
    and "\<forall>sid. permitted \<noteq> Some (cid, sid)"
  shows "\<exists>e t. \<forall>f. rollback_project_checkpoint_internal
      (E\<lparr>ce_checkpoints := map_option (ko_rollback_update (\<lambda>_. f)) (ce_checkpoints E)\<rparr>)
      project k permitted s = (Inl e, t)"
proof -
  let ?E = "\<lambda>f. E\<lparr>ce_checkpoints := map_option (ko_rollback_update (\<lambda>_. f)) (ce_checkpoints E)\<rparr>"
  have "cv_conversation_id c = cid" using view_valid_conversation [OF assms(3)] by simp
  then have b: "blocks_rollback permitted c" using assms(4,5) by (simp add: blocks_rollback_def)
  have blocked: "\<exists>e u. rollback_conversation_sessions E (pr_id project) permitted t = (Inl e, u)"
    if "durable t = durable s" for t
    using rollback_sessions_blocked [OF _ assms(2) _ b] that assms(1,3) by (simp add: durable_def)
  let ?s = "s\<lparr>co_active := insert (pr_id project) (co_active s)\<rparr>"
  have E: "\<exists>F. rollback_project_checkpoint_internal (?E f) project k permitted
      = with_permit (pr_id project) (rollback_guards E project permitted F)" for f
    by (auto simp: rollback_project_checkpoint_internal_def rollback_guards_def)
  have blocked': "\<exists>e u. rollback_conversation_sessions E (pr_id project) permitted t = (Inl e, u)"
    if "durable t = durable ?s" for t using blocked that by simp
  define stop :: "session_id option \<Rightarrow> session_id list \<Rightarrow> ('x core, project_ref \<times> rollback_result) act"
    where "stop = (\<lambda>_ _. sfail Cancelled)"
  obtain e u where e: "rollback_guards E project permitted stop ?s = (Inl e, u)"
    using rollback_guards_refuse(2) [OF blocked', where f = stop] by blast
  have "rollback_guards E project permitted F ?s = rollback_guards E project permitted stop ?s" for F
    by (rule rollback_guards_refuse(1) [OF blocked'])
  then have "\<exists>e t. \<forall>F :: session_id option \<Rightarrow> session_id list \<Rightarrow> ('x core, project_ref \<times> rollback_result) act.
      with_permit (pr_id project) (rollback_guards E project permitted F) s = (Inl e, t)"
    by (auto simp: with_permit_def sbind_def try_acquire_def e)
  then show ?thesis using E by metis
qed

theorem lifecycle_mutual_exclusion_witness:
  "distinct [ProjectId 1]
    \<and> fst (try_acquire (ProjectId 1) (core_new demo_store ()\<lparr>co_active := {ProjectId 1}\<rparr>))
      = Inl (InvalidRequest ''project_lifecycle_busy'')"
proof -
  let ?s = "core_new demo_store ()"
  have "reach gate_init gate_step (?s, [])"
    by (rule reach_init) (simp add: gate_init_def core_new_def core_new_with_command_policy_def)
  moreover have "gate_step (?s, []) (?s\<lparr>co_active := {ProjectId 1}\<rparr>, [ProjectId 1])"
    by (rule acquire) (simp add: try_acquire_def core_new_def core_new_with_command_policy_def)
  ultimately have "reach gate_init gate_step (?s\<lparr>co_active := {ProjectId 1}\<rparr>, [ProjectId 1])"
    by (rule reach_step)
  from lifecycle_mutual_exclusion [OF this] show ?thesis
    by (simp add: try_acquire_def core_new_def core_new_with_command_policy_def)
qed

theorem rollback_spares_pending_turns_witness:
  "\<not> is_ok (fst (rollback_project_checkpoint_internal (offline_env\<lparr>ce_checkpoints := None\<rparr>)
      sample_project (CheckpointId 3) None (core_new (one_store pending_conversation) ())))"
proof -
  let ?s = "core_new (one_store pending_conversation) ()"
  have s: "co_store ?s = one_store pending_conversation"
    by (simp add: core_new_def core_new_with_command_policy_def)
  have "\<exists>e t. \<forall>f. rollback_project_checkpoint_internal
      (offline_env\<lparr>ce_checkpoints := map_option (ko_rollback_update (\<lambda>_. f)) (ce_checkpoints offline_env)\<rparr>)
      sample_project (CheckpointId 3) None ?s = (Inl e, t)"
    by (rule rollback_spares_pending_turns [where c = pending_conversation and cid = "ConversationId 2"])
      (use one_store_view [OF pending_conversation_facts(1)] in
        \<open>simp_all add: s one_store_inv offline_env_def sample_project_def pending_conversation_facts\<close>)
  then obtain e t where "rollback_project_checkpoint_internal (offline_env\<lparr>ce_checkpoints := None\<rparr>)
      sample_project (CheckpointId 3) None ?s = (Inl e, t)"
    by (auto simp: offline_env_def)
  then show ?thesis by simp
qed

end
