(* ===== verification/Core_Turns.thy ===== *)
theory Core_Turns
  imports Core_State
begin

text \<open>
  \<open>crates/vibecoder-core/src/lib.rs\<close>, second part: the backend task, persisted conversations and
  sessions, and the single turns of a persisted conversation: through the agent, as a verified coding
  action, and directly through the model gateway.

  A turn of a persisted conversation first stores the user's message with the marker \<open>turn_pending\<close>,
  then works, then stores the answer and clears the marker. The events an agent passes to its handler
  are returned with the outcome, since the core's own handlers only record them. A cancellation flag is
  read at the points where the code reads it; the readings are an argument.
\<close>

section \<open>Model\<close>

subsection \<open>The backend task\<close>

datatype attempt_outcome =
    AttemptDone task_outcome "agent_event list"
  | AttemptRetry task_machine cells "agent_event list"

definition corroborate_catalog ::
    "'x core_env \<Rightarrow> task_machine \<Rightarrow> model_ref list \<Rightarrow> bool result \<times> task_machine" where
  "corroborate_catalog E m catalog =
     (case ag_bridge E of
        Some bridge \<Rightarrow> corroborate_bridged_agent_catalog m catalog (gb_transport_provider bridge)
      | None \<Rightarrow> corroborate_agent_catalog m catalog)"

text \<open>What follows a failed attempt: the next configured route, or the given error.\<close>

definition after_failure ::
    "task_machine \<Rightarrow> cells \<Rightarrow> route_failure_class \<Rightarrow> agent_event list \<Rightarrow> vibecoder_error
      \<Rightarrow> attempt_outcome result" where
  "after_failure m cs failure events stop_error =
     (case decide_failure m cs failure of
        (Inl e, _) \<Rightarrow> Inl e
      | (Inr RetryConfiguredFallback, m') \<Rightarrow> Inr (AttemptRetry m' cs events)
      | (Inr (TaskStop _), _) \<Rightarrow> Inl stop_error)"

definition run_inference ::
    "'x core_env \<Rightarrow> project_id \<Rightarrow> session_id \<Rightarrow> rstring \<Rightarrow> model_ref \<Rightarrow> task_machine \<Rightarrow> cells
      \<Rightarrow> observer \<Rightarrow> agent_event list \<Rightarrow> ('x core, attempt_outcome) act" where
  "run_inference E pid sid prompt selected m cs observer seen =
     sbind (invalidate pid)
     (\<lambda>_. sbind (agent_turn E sid prompt (Some selected))
     (\<lambda>(turn_result, events). sbind (invalidate pid)
     (\<lambda>_. case turn_result of
        Inr turn \<Rightarrow> slift (rbind (complete m turn) (\<lambda>out. Inr (AttemptDone out (seen @ events))))
      | Inl e \<Rightarrow>
          slift (after_failure m (foldl (\<lambda>cs event. observe cs observer event) cs events)
                   (classify_agent_failure e) (seen @ events) e))))"

definition backend_attempt ::
    "'x core_env \<Rightarrow> project_id \<Rightarrow> session_id \<Rightarrow> rstring \<Rightarrow> task_machine \<Rightarrow> cells \<Rightarrow> agent_event list
      \<Rightarrow> ('x core, attempt_outcome) act" where
  "backend_attempt E pid sid prompt m cs seen =
     sbind (on_world (ag_list_models E sid))
     (\<lambda>catalog. case corroborate_catalog E m catalog of
        (Inl e, _) \<Rightarrow> sfail e
      | (Inr False, m1) \<Rightarrow>
          slift (after_failure m1 cs RF_ModelUnavailable seen
                   (Routing ''agent_model_unavailable_without_safe_fallback''))
      | (Inr True, m1) \<Rightarrow>
          stry (on_world (ag_corroborate_model_identity E sid (tm_selected_model m)))
          (\<lambda>active. case active of
             Inl e \<Rightarrow> (case decide_failure m1 cs (classify_agent_failure e) of
                         (Inl e', _) \<Rightarrow> sfail e' | (Inr _, _) \<Rightarrow> sfail e)
           | Inr model \<Rightarrow>
               (case corroborate_active_model m1 model of
                  (Inl e, _) \<Rightarrow> sfail e
                | (Inr _, m2) \<Rightarrow>
                    (case begin_inference m2 cs of
                       (Inl e, _) \<Rightarrow> sfail e
                     | (Inr observer, m3, cs1) \<Rightarrow>
                         run_inference E pid sid prompt (tm_selected_model m) m3 cs1 observer seen))))"

text \<open>Routes that are left after the current one.\<close>

definition routes_left :: "task_machine \<Rightarrow> nat" where
  "routes_left m = length (rv_routes (tm_route_policy m))
     - (case tm_attempt m of None \<Rightarrow> 0 | Some a \<Rightarrow> ra_route_index a)"

lemma after_failure_retry:
  assumes "after_failure m cs failure events e = Inr (AttemptRetry m' cs' events')"
  shows "routes_left m' < routes_left m \<and> tm_route_policy m' = tm_route_policy m"
proof -
  obtain a where a: "tm_attempt m = Some a"
    using assms by (cases "tm_attempt m") (auto simp: after_failure_def decide_failure_def split: if_splits)
  then show ?thesis using assms
    by (auto simp: after_failure_def decide_failure_def Let_def routes_left_def
        decision_after_failure_def
        split: if_splits prod.splits sum.split_asm option.split_asm failure_decision.split_asm
          route_decision.split_asm)
qed

lemma corroborate_catalog_frame:
  "corroborate_catalog E m catalog = (r, m') \<Longrightarrow>
     tm_attempt m' = tm_attempt m \<and> tm_route_policy m' = tm_route_policy m"
  by (auto simp: corroborate_catalog_def corroborate_bridged_agent_catalog_def
      corroborate_agent_catalog_def Let_def split: option.split_asm if_splits)

lemma backend_attempt_retry:
  assumes "backend_attempt E pid sid prompt m cs seen s = (Inr (AttemptRetry m' cs' seen'), t)"
  shows "routes_left m' < routes_left m"
  using assms
  by (auto simp: backend_attempt_def run_inference_def sbind_def stry_def slift_def sfail_def
      corroborate_active_model_def begin_inference_def Let_def rbind_eq_Inr routes_left_def
      split: prod.split_asm sum.split_asm bool.split_asm if_splits
      dest!: after_failure_retry corroborate_catalog_frame)

function backend_loop ::
    "'x core_env \<Rightarrow> project_id \<Rightarrow> session_id \<Rightarrow> rstring \<Rightarrow> task_machine \<Rightarrow> cells \<Rightarrow> agent_event list
      \<Rightarrow> 'x core \<Rightarrow> (task_outcome \<times> agent_event list) result \<times> 'x core" where
  "backend_loop E pid sid prompt m cs seen s =
     (case backend_attempt E pid sid prompt m cs seen s of
        (Inl e, t) \<Rightarrow> (Inl e, t)
      | (Inr (AttemptDone out events), t) \<Rightarrow> (Inr (out, events), t)
      | (Inr (AttemptRetry m' cs' seen'), t) \<Rightarrow> backend_loop E pid sid prompt m' cs' seen' t)"
  by pat_completeness auto
termination
  by (relation "measure (\<lambda>(E, pid, sid, prompt, m, cs, seen, s). routes_left m)")
    (auto dest: backend_attempt_retry [OF sym])

declare backend_loop.simps [simp del]

text \<open>\<open>prepare\<close> panics only on a policy without routes, which the resolver never issues.\<close>

definition prepare_task ::
    "uuid \<Rightarrow> project_id \<Rightarrow> session_id \<Rightarrow> rstring \<Rightarrow> resolved_policy \<Rightarrow> task_machine result" where
  "prepare_task fresh pid sid prompt policy =
     (case prepare fresh pid sid prompt policy of
        Some r \<Rightarrow> r | None \<Rightarrow> Inl (Routing ''resolved_policy_without_routes''))"

definition run_backend_task ::
    "'x core_env \<Rightarrow> uuid \<Rightarrow> project_ref \<Rightarrow> session_id \<Rightarrow> gateway_credential \<Rightarrow> route_policy_config
      \<Rightarrow> rstring \<Rightarrow> ('x core, task_outcome \<times> agent_event list) act" where
  "run_backend_task E fresh project sid credential policy prompt =
     with_permit (pr_id project)
      (sbind (on_world (ws_verify_project E project))
      (\<lambda>_. sbind (ensure_no_active_project_process E (pr_id project))
      (\<lambda>_. sbind (on_world (ag_ensure_workspace_quiescent E project))
      (\<lambda>_. sbind (on_world (ag_verify_session_project_binding E project sid))
      (\<lambda>_. sbind (on_world (ag_ensure_ready E))
      (\<lambda>capabilities.
         if \<not> rc_sessions capabilities \<or> \<not> rc_streaming_events capabilities
            \<or> \<not> rc_file_tools capabilities
         then sfail (MissingCapability ''agent runtime'' ''backend_task_execution'')
         else sbind (on_world (gw_execution_profile E credential))
      (\<lambda>profile. sbind (slift (require_deterministic_gateway_profile profile))
      (\<lambda>_. sbind (slift (case ag_bridge E of
                           None \<Rightarrow> Inr ()
                         | Some bridge \<Rightarrow>
                             require_agent_gateway_bridge_matches_profile bridge profile))
      (\<lambda>_. sbind (on_world (gw_list_models E credential))
      (\<lambda>catalog. sbind (slift (resolve policy catalog))
      (\<lambda>resolved. sbind (slift (prepare_task fresh (pr_id project) sid prompt resolved))
      (\<lambda>task. backend_loop E (pr_id project) sid prompt task [] []))))))))))))"

subsection \<open>Conversations\<close>

definition load_required_conversation ::
    "project_id \<Rightarrow> conversation_id \<Rightarrow> ('x core, persisted_conversation) act" where
  "load_required_conversation pid cid =
     sbind (on_store (\<lambda>d. load_conversation d (pid, cid)))
       (\<lambda>found. slift (ok_or found (Persistence ''conversation_not_found'')))"

text \<open>The session of a conversation that is ready for a new turn.\<close>

definition ready_session :: "'x core_env \<Rightarrow> persisted_conversation \<Rightarrow> session_id result" where
  "ready_session E c =
     (if cv_session_creation_pending c
      then Inl (Persistence ''conversation_session_creation_incomplete'')
      else if cv_turn_pending c then Inl (Persistence ''conversation_turn_recovery_required'')
      else rbind (ok_or (cv_agent_session c) (Persistence ''conversation_session_not_persisted''))
        (\<lambda>session. if as_runtime_id session \<noteq> ag_runtime_id E
           then Inl (Persistence ''conversation_session_runtime_mismatch'')
           else Inr (as_session_id session)))"

definition create_persisted_conversation ::
    "'x core_env \<Rightarrow> uuid \<Rightarrow> project_ref \<Rightarrow> ('x core, conversation_id) act" where
  "create_persisted_conversation E fresh project =
     with_permit (pr_id project)
      (sbind (slift (conversation_store_of E))
      (\<lambda>_. sbind (on_world (ws_verify_project E project))
      (\<lambda>_. sbind (slift (project_state_store_of E))
      (\<lambda>_. sbind (load_required_project_state (pr_id project))
      (\<lambda>_. (let cid = ConversationId fresh; c = pending_creation cid (pr_id project) in
        sbind (on_store (\<lambda>d. create_conversation d c))
        (\<lambda>_. stry (on_world (ag_create_session E project))
        (\<lambda>created. case created of
           Inl e \<Rightarrow>
             stry (on_store (\<lambda>d. remove_conversation d (pr_id project, cid)))
               (\<lambda>removed. if is_ok removed then sfail e
                          else sfail (Persistence ''conversation_create_rollback_failed''))
         | Inr sid \<Rightarrow>
             sbind (smap_err (Persistence ''conversation_session_persistence_incomplete_after_create'')
                     (on_store (\<lambda>d. update_conversation d (cv_revision c)
                        (c\<lparr>cv_session_creation_pending := False,
                           cv_agent_session := Some \<lparr>as_runtime_id = ag_runtime_id E,
                             as_session_id = sid, as_preferred_model = None\<rparr>\<rparr>))))
               (\<lambda>_. sreturn cid)))))))))"

definition list_persisted_conversation_ids ::
    "'x core_env \<Rightarrow> project_id \<Rightarrow> nat \<Rightarrow> ('x core, conversation_id list) act" where
  "list_persisted_conversation_ids E pid max_conversations =
     sbind (on_world (ws_open_project E pid))
     (\<lambda>_. sbind (slift (conversation_store_of E))
     (\<lambda>_. on_store (\<lambda>d. list_conversation_ids d pid max_conversations)))"

definition load_persisted_conversation ::
    "'x core_env \<Rightarrow> project_id \<Rightarrow> conversation_id \<Rightarrow> ('x core, persisted_conversation) act" where
  "load_persisted_conversation E pid cid =
     sbind (on_world (ws_open_project E pid))
     (\<lambda>_. sbind (slift (conversation_store_of E))
     (\<lambda>_. load_required_conversation pid cid))"

definition resume_persisted_conversation ::
    "'x core_env \<Rightarrow> project_id \<Rightarrow> conversation_id \<Rightarrow> ('x core, project_ref \<times> session_id) act" where
  "resume_persisted_conversation E pid cid =
     with_permit pid
      (sbind (on_world (ws_open_project E pid))
      (\<lambda>project. sbind (slift (conversation_store_of E))
      (\<lambda>_. sbind (load_required_conversation pid cid)
      (\<lambda>c. sbind (slift (ready_session E c))
      (\<lambda>sid. sbind (on_world (ag_resume_session E project sid))
      (\<lambda>_. sreturn (project, sid)))))))"

subsection \<open>A turn through the agent\<close>

text \<open>Under the permit: the message and the marker are stored.\<close>

definition open_agent_turn ::
    "'x core_env \<Rightarrow> project_id \<Rightarrow> conversation_id \<Rightarrow> rstring
      \<Rightarrow> ('x core, project_ref \<times> session_id \<times> persisted_conversation) act" where
  "open_agent_turn E pid cid prompt =
     with_permit pid
      (sbind (on_world (ws_open_project E pid))
      (\<lambda>project. sbind (load_required_conversation pid cid)
      (\<lambda>c. sbind (slift (ready_session E c))
      (\<lambda>sid. sbind (on_world (ag_resume_session E project sid))
      (\<lambda>_. sbind (slift (append_message c RoleUser prompt))
      (\<lambda>c1. sbind (on_store (\<lambda>d. update_conversation d (cv_revision c1) (c1\<lparr>cv_turn_pending := True\<rparr>)))
      (\<lambda>c2. sreturn (project, sid, c2))))))))"

definition run_persisted_conversation_turn ::
    "'x core_env \<Rightarrow> uuid \<Rightarrow> project_id \<Rightarrow> conversation_id \<Rightarrow> gateway_credential \<Rightarrow> route_policy_config
      \<Rightarrow> rstring \<Rightarrow> ('x core, task_outcome) act" where
  "run_persisted_conversation_turn E fresh pid cid credential policy prompt =
     (if trim prompt = [] then sfail (InvalidRequest ''conversation_prompt_empty'')
      else sbind (slift (conversation_store_of E))
      (\<lambda>_. sbind (open_agent_turn E pid cid prompt)
      (\<lambda>(project, sid, c). stry (run_backend_task E fresh project sid credential policy prompt)
      (\<lambda>r. let cleared = c\<lparr>cv_turn_pending := False\<rparr> in
        case r of
          Inr (outcome, events) \<Rightarrow>
            sbind (slift (if tr_text (to_turn outcome) = [] then Inr cleared
                          else append_message cleared RoleAssistant (tr_text (to_turn outcome))))
            (\<lambda>c'. sbind (on_store (\<lambda>d. update_conversation d (cv_revision c) c'))
            (\<lambda>_. sreturn outcome))
        | Inl e \<Rightarrow>
            stry (on_store (\<lambda>d. update_conversation d (cv_revision c) cleared))
              (\<lambda>stored. if is_ok stored then sfail e
                 else sfail (Persistence ''conversation_turn_failure_cleanup_failed''))))))"

subsection \<open>A verified coding action\<close>

record action_turn_outcome =
  at_backend :: task_outcome
  at_observed_tool_calls :: nat
  at_successful_file_tool_calls :: nat
  at_successful_mutation_tool_calls :: nat
  at_pre_action_tree_sha256 :: rstring
  at_post_action_tree_sha256 :: rstring
  at_checkpoint_cleanup_complete :: bool

definition recover_failed_persisted_agent_action ::
    "'x core_env \<Rightarrow> project_ref \<Rightarrow> persisted_conversation \<Rightarrow> checkpoint_id \<Rightarrow> checkpoint_id option
      \<Rightarrow> ('x core, unit) act" where
  "recover_failed_persisted_agent_action E project c pre_action post_action =
     sbind (slift (ok_or (cv_agent_session c)
                     (Persistence ''conversation_agent_action_recovery_session_missing'')))
     (\<lambda>session. sbind
        (smap_err (Checkpoint ''conversation_agent_action_rollback_failed_pending_preserved'')
          (rollback_project_checkpoint_for_pending_conversation E project pre_action
             (cv_conversation_id c) (as_session_id session)))
     (\<lambda>_. sbind
        (smap_err (Persistence ''conversation_agent_action_failure_cleanup_failed_pending_preserved'')
          (on_store (\<lambda>d. update_conversation d (cv_revision c) (c\<lparr>cv_turn_pending := False\<rparr>))))
     (\<lambda>_. sbind (case post_action of
                   None \<Rightarrow> sreturn ()
                 | Some cp \<Rightarrow> stry (remove_project_checkpoint E (pr_id project) cp) (\<lambda>_. sreturn ()))
     (\<lambda>_. stry (remove_project_checkpoint E (pr_id project) pre_action) (\<lambda>_. sreturn ())))))"

text \<open>The checks before an action: the agent has file tools and no command tools, and its model traffic
  is bridged with exact model ids.\<close>

definition action_preconditions :: "'x core_env \<Rightarrow> ('x core, unit) act" where
  "action_preconditions E =
     sbind (on_world (ag_ensure_ready E))
     (\<lambda>capabilities.
        if \<not> rc_file_tools capabilities
        then sfail (MissingCapability ''agent runtime'' ''file_tools'')
        else if rc_command_tools capabilities
        then sfail (InvalidRequest ''agent_action_command_tools_must_remain_disabled'')
        else sbind (slift (ok_or (ag_bridge E) (MissingCapability ''agent runtime'' ''model_gateway_bridge'')))
     (\<lambda>bridge. slift (ensure (gb_exact_model_id_passthrough bridge)
        (Gateway ''agent_action_exact_model_bridge_required''))))"

text \<open>Under the permit: a checkpoint is taken, then the message and the marker are stored.\<close>

definition open_action_turn ::
    "'x core_env \<Rightarrow> project_id \<Rightarrow> conversation_id \<Rightarrow> rstring
      \<Rightarrow> ('x core, project_ref \<times> session_id \<times> persisted_conversation \<times> checkpoint_metadata) act" where
  "open_action_turn E pid cid prompt =
     with_permit pid
      (sbind (on_world (ws_open_project E pid))
      (\<lambda>project. sbind (on_world (ws_verify_project E project))
      (\<lambda>_. sbind (load_required_conversation pid cid)
      (\<lambda>c. sbind (slift (ready_session E c))
      (\<lambda>sid. sbind (slift (ensure_conversation_agent_action_capacity c prompt))
      (\<lambda>_. sbind (on_world (ag_resume_session E project sid))
      (\<lambda>_. sbind (ensure_no_active_project_process E (pr_id project))
      (\<lambda>_. sbind (on_world (ag_ensure_workspace_quiescent E project))
      (\<lambda>_. sbind (slift (checkpoint_store_of E))
      (\<lambda>store. sbind (on_world (ko_create store project BeforeAgentChange))
      (\<lambda>checkpoint. sbind (slift (append_message c RoleUser prompt))
      (\<lambda>c1. stry (on_store (\<lambda>d. update_conversation d (cv_revision c1) (c1\<lparr>cv_turn_pending := True\<rparr>)))
      (\<lambda>stored. case stored of
         Inr c2 \<Rightarrow> sreturn (project, sid, c2, checkpoint)
       | Inl e \<Rightarrow>
           stry (on_world (ko_remove store (pr_id project) (ck_checkpoint_id checkpoint)))
             (\<lambda>_. sfail e))))))))))))))"

definition fail_action ::
    "'x core_env \<Rightarrow> project_ref \<Rightarrow> persisted_conversation \<Rightarrow> checkpoint_metadata
      \<Rightarrow> checkpoint_metadata option \<Rightarrow> vibecoder_error \<Rightarrow> ('x core, 'a) act" where
  "fail_action E project c checkpoint post e =
     sbind (recover_failed_persisted_agent_action E project c (ck_checkpoint_id checkpoint)
              (map_option ck_checkpoint_id post))
       (\<lambda>_. sfail e)"

text \<open>The answer is stored and the marker cleared.\<close>

definition commit_action ::
    "'x core_env \<Rightarrow> project_ref \<Rightarrow> persisted_conversation \<Rightarrow> checkpoint_metadata \<Rightarrow> checkpoint_metadata
      \<Rightarrow> task_outcome \<Rightarrow> nat \<times> nat \<times> nat \<Rightarrow> ('x core, action_turn_outcome) act" where
  "commit_action E project c checkpoint post outcome counts =
     stry (slift (append_message (c\<lparr>cv_turn_pending := False\<rparr>) RoleAssistant (tr_text (to_turn outcome))))
     (\<lambda>completed. case completed of
        Inl e \<Rightarrow> fail_action E project c checkpoint (Some post) e
      | Inr c' \<Rightarrow>
          stry (on_store (\<lambda>d. update_conversation d (cv_revision c) c'))
          (\<lambda>stored. case stored of
             Inl e \<Rightarrow> fail_action E project c checkpoint (Some post) e
           | Inr _ \<Rightarrow>
               stry (remove_project_checkpoint E (pr_id project) (ck_checkpoint_id post))
               (\<lambda>post_removed. stry (remove_project_checkpoint E (pr_id project) (ck_checkpoint_id checkpoint))
               (\<lambda>pre_removed. sreturn
                  \<lparr>at_backend = outcome, at_observed_tool_calls = fst counts,
                   at_successful_file_tool_calls = fst (snd counts),
                   at_successful_mutation_tool_calls = snd (snd counts),
                   at_pre_action_tree_sha256 = ck_tree_sha256 checkpoint,
                   at_post_action_tree_sha256 = ck_tree_sha256 post,
                   at_checkpoint_cleanup_complete = is_ok post_removed \<and> is_ok pre_removed\<rparr>))))"

definition run_persisted_agent_action_turn ::
    "'x core_env \<Rightarrow> uuid \<Rightarrow> project_id \<Rightarrow> conversation_id \<Rightarrow> gateway_credential \<Rightarrow> route_policy_config
      \<Rightarrow> rstring \<Rightarrow> ('x core, action_turn_outcome) act" where
  "run_persisted_agent_action_turn E fresh pid cid credential policy prompt =
     sbind (slift (validate_conversation_model_prompt prompt))
     (\<lambda>_. sbind (action_preconditions E)
     (\<lambda>_. sbind (slift (conversation_store_of E))
     (\<lambda>_. sbind (open_action_turn E pid cid prompt)
     (\<lambda>(project, sid, c, checkpoint).
        stry (run_backend_task E fresh project sid credential policy prompt)
     (\<lambda>action. case action of
        Inl e \<Rightarrow> fail_action E project c checkpoint None e
      | Inr (outcome, events) \<Rightarrow>
          (case validate_agent_action_turn (to_turn outcome)
                  (observe_events agent_action_observation_default events) of
             Inl e \<Rightarrow> fail_action E project c checkpoint None e
           | Inr counts \<Rightarrow>
               stry (create_project_checkpoint E project AgentChangeVerification)
               (\<lambda>verified. case verified of
                  Inl e \<Rightarrow> fail_action E project c checkpoint None e
                | Inr post \<Rightarrow>
                    if ck_tree_sha256 post = ck_tree_sha256 checkpoint
                    then fail_action E project c checkpoint (Some post)
                           (Agent ''agent_action_workspace_unchanged'')
                    else commit_action E project c checkpoint post outcome counts)))))))"

subsection \<open>A turn through the model gateway\<close>

record model_turn_outcome =
  mo_model :: model_ref
  mo_observed_model_id :: "rstring option"
  mo_finish_reason :: "rstring option"
  mo_usage :: "token_usage option"
  mo_assistant_text :: rstring
  mo_context_messages_sent :: nat
  mo_context_bytes_sent :: nat

text \<open>The readings of the cancellation flag: \<open>cancelled n\<close> while the \<open>n\<close>-th gateway call of the turn is
  awaited, which drops that call, and \<open>cancelled 3\<close> after the last one. A turn without a cancellation
  handle reads \<open>False\<close> throughout.\<close>

definition unless_cancelled :: "bool \<Rightarrow> ('s, 'a) act \<Rightarrow> ('s, 'a) act" where
  "unless_cancelled flag m = (if flag then sfail Cancelled else m)"

definition model_inference ::
    "'x core_env \<Rightarrow> (nat \<Rightarrow> bool) \<Rightarrow> gateway_credential \<Rightarrow> rstring \<Rightarrow> u32 \<Rightarrow> persisted_conversation
      \<Rightarrow> ('x core, model_ref \<times> gateway_chat_response \<times> nat \<times> nat) act" where
  "model_inference E cancelled credential requested_model_id max_output_tokens c =
     sbind (unless_cancelled (cancelled 0) (on_world (gw_execution_profile E credential)))
     (\<lambda>profile. sbind (slift (require_deterministic_gateway_profile profile))
     (\<lambda>_. sbind (unless_cancelled (cancelled 1) (on_world (gw_list_models E credential)))
     (\<lambda>catalog. sbind (slift (select_exact_gateway_model catalog requested_model_id))
     (\<lambda>model. sbind (slift (build_gateway_conversation_context c))
     (\<lambda>(messages, context_bytes_sent). sbind (unless_cancelled (cancelled 2)
        (on_world (gw_chat_completion E credential
           \<lparr>cq_model = model, cq_messages = messages, cq_max_output_tokens = max_output_tokens\<rparr>)))
     (\<lambda>response. sbind (slift (validate_conversation_model_response model response))
     (\<lambda>_. sreturn (model, response, length messages, context_bytes_sent))))))))"

definition model_turn_body ::
    "'x core_env \<Rightarrow> (nat \<Rightarrow> bool) \<Rightarrow> project_id \<Rightarrow> conversation_id \<Rightarrow> gateway_credential \<Rightarrow> rstring \<Rightarrow> u32
      \<Rightarrow> rstring \<Rightarrow> ('x core, model_turn_outcome) act" where
  "model_turn_body E cancelled pid cid credential requested_model_id max_output_tokens prompt =
     sbind (slift (conversation_store_of E))
     (\<lambda>_. sbind (on_world (ws_open_project E pid))
     (\<lambda>project. sbind (on_world (ws_verify_project E project))
     (\<lambda>_. sbind (load_required_conversation pid cid)
     (\<lambda>c0. sbind (slift (ready_session E c0))
     (\<lambda>_. sbind (slift (ensure_conversation_model_turn_capacity c0 prompt))
     (\<lambda>_. sbind (slift (append_message c0 RoleUser prompt))
     (\<lambda>c1. sbind (on_store (\<lambda>d. update_conversation d (cv_revision c1) (c1\<lparr>cv_turn_pending := True\<rparr>)))
     (\<lambda>c. stry (model_inference E cancelled credential requested_model_id max_output_tokens c)
     (\<lambda>inference.
        let cleared = c\<lparr>cv_turn_pending := False\<rparr> in
        case (if cancelled 3 then Inl Cancelled else inference) of
          Inr (model, response, context_messages_sent, context_bytes_sent) \<Rightarrow>
            sbind (slift (append_message cleared RoleAssistant (cr_text response)))
            (\<lambda>c'. sbind (on_store (\<lambda>d. update_conversation d (cv_revision c) c'))
            (\<lambda>_. sreturn \<lparr>mo_model = model, mo_observed_model_id = cr_observed_model_id response,
                   mo_finish_reason = cr_finish_reason response, mo_usage = cr_usage response,
                   mo_assistant_text = cr_text response,
                   mo_context_messages_sent = context_messages_sent,
                   mo_context_bytes_sent = context_bytes_sent\<rparr>))
        | Inl e \<Rightarrow>
            stry (on_store (\<lambda>d. update_conversation d (cv_revision c) cleared))
              (\<lambda>stored. if is_ok stored then sfail e
                 else sfail (Persistence ''conversation_model_turn_failure_cleanup_failed'')))))))))))"

definition run_persisted_model_conversation_turn_inner ::
    "'x core_env \<Rightarrow> (nat \<Rightarrow> bool) \<Rightarrow> project_id \<Rightarrow> conversation_id \<Rightarrow> gateway_credential \<Rightarrow> rstring \<Rightarrow> u32
      \<Rightarrow> rstring \<Rightarrow> ('x core, model_turn_outcome) act" where
  "run_persisted_model_conversation_turn_inner E cancelled pid cid credential requested_model_id
       max_output_tokens prompt =
     sbind (slift (validate_conversation_model_id requested_model_id))
     (\<lambda>_. sbind (slift (validate_conversation_model_prompt prompt))
     (\<lambda>_. if max_output_tokens = 0 \<or> max_output_tokens > MAX_CONVERSATION_MODEL_OUTPUT_TOKENS
          then sfail (InvalidRequest ''conversation_model_output_tokens_invalid'')
          else with_permit pid
            (model_turn_body E cancelled pid cid credential requested_model_id max_output_tokens prompt)))"

definition run_persisted_model_conversation_turn ::
    "'x core_env \<Rightarrow> project_id \<Rightarrow> conversation_id \<Rightarrow> gateway_credential \<Rightarrow> rstring \<Rightarrow> u32 \<Rightarrow> rstring
      \<Rightarrow> ('x core, model_turn_outcome) act" where
  "run_persisted_model_conversation_turn E =
     run_persisted_model_conversation_turn_inner E (\<lambda>_. False)"

definition run_persisted_model_conversation_turn_cancellable ::
    "'x core_env \<Rightarrow> (nat \<Rightarrow> bool) \<Rightarrow> project_id \<Rightarrow> conversation_id \<Rightarrow> gateway_credential \<Rightarrow> rstring \<Rightarrow> u32
      \<Rightarrow> rstring \<Rightarrow> ('x core, model_turn_outcome) act" where
  "run_persisted_model_conversation_turn_cancellable E cancelled =
     run_persisted_model_conversation_turn_inner E cancelled"

definition cancel_persisted_conversation_turn ::
    "'x core_env \<Rightarrow> project_id \<Rightarrow> conversation_id \<Rightarrow> ('x core, unit) act" where
  "cancel_persisted_conversation_turn E pid cid =
     sbind (slift (conversation_store_of E))
     (\<lambda>_. sbind (load_required_conversation pid cid)
     (\<lambda>c. sbind (slift (ok_or (cv_agent_session c) (Persistence ''conversation_session_not_persisted'')))
     (\<lambda>session. if as_runtime_id session \<noteq> ag_runtime_id E
        then sfail (Persistence ''conversation_session_runtime_mismatch'')
        else on_world (ag_cancel E (as_session_id session)))))"

subsection \<open>Sessions\<close>

definition start_persisted_project_session ::
    "'x core_env \<Rightarrow> project_ref \<Rightarrow> ('x core, session_id) act" where
  "start_persisted_project_session E project =
     with_permit (pr_id project)
      (sbind (slift (project_state_store_of E))
      (\<lambda>_. sbind (on_world (ws_verify_project E project))
      (\<lambda>_. sbind (load_required_project_state (pr_id project))
      (\<lambda>state0. if pst_session_creation_pending state0
         then sfail (Persistence ''project_session_creation_incomplete'')
         else if pst_agent_session state0 \<noteq> None
         then sfail (Persistence ''project_session_already_persisted'')
         else sbind (on_store (\<lambda>d. update_project_state d (pst_revision state0)
                                 (state0\<lparr>pst_session_creation_pending := True\<rparr>)))
      (\<lambda>state. stry (on_world (ag_create_session E project))
      (\<lambda>created. let cleared = state\<lparr>pst_session_creation_pending := False\<rparr> in
         case created of
           Inl e \<Rightarrow>
             stry (on_store (\<lambda>d. update_project_state d (pst_revision state) cleared))
               (\<lambda>stored. if is_ok stored then sfail e
                  else sfail (Persistence ''project_session_pending_clear_failed''))
         | Inr sid \<Rightarrow>
             sbind (smap_err (Persistence ''project_session_persistence_incomplete_after_create'')
                     (on_store (\<lambda>d. update_project_state d (pst_revision state)
                        (cleared\<lparr>pst_agent_session := Some \<lparr>as_runtime_id = ag_runtime_id E,
                           as_session_id = sid, as_preferred_model = None\<rparr>\<rparr>))))
               (\<lambda>_. sreturn sid)))))))"

text \<open>The verified session of a project's persisted state.\<close>

definition persisted_session ::
    "'x core_env \<Rightarrow> persisted_project_state \<Rightarrow> persisted_agent_session result" where
  "persisted_session E state =
     (if pst_session_creation_pending state
      then Inl (Persistence ''project_session_creation_incomplete'')
      else rbind (ok_or (pst_agent_session state) (Persistence ''project_session_not_persisted''))
        (\<lambda>session. if as_runtime_id session \<noteq> ag_runtime_id E
           then Inl (Persistence ''project_session_runtime_mismatch'') else Inr session))"

definition resume_persisted_project_session ::
    "'x core_env \<Rightarrow> project_id \<Rightarrow> ('x core, project_ref \<times> session_id) act" where
  "resume_persisted_project_session E pid =
     with_permit pid
      (sbind (open_persisted_project E pid)
      (\<lambda>(project, state). sbind (slift (persisted_session E state))
      (\<lambda>session. sbind (on_world (ag_resume_session E project (as_session_id session)))
      (\<lambda>_. sreturn (project, as_session_id session)))))"

definition set_persisted_session_model ::
    "'x core_env \<Rightarrow> project_id \<Rightarrow> model_ref \<Rightarrow> ('x core, unit) act" where
  "set_persisted_session_model E pid model =
     with_permit pid
      (sbind (slift (project_state_store_of E))
      (\<lambda>_. sbind (open_persisted_project E pid)
      (\<lambda>(project, state). sbind (slift (persisted_session E state))
      (\<lambda>session. sbind (on_world (ag_resume_session E project (as_session_id session)))
      (\<lambda>_. (let target = \<lparr>rt_model_id = mr_id model, rt_provider = mr_provider model\<rparr> in
         sbind (slift (validate_target target))
         (\<lambda>_. sbind (on_store (\<lambda>d. update_project_state d (pst_revision state)
            (state\<lparr>pst_agent_session := Some (session\<lparr>as_preferred_model := Some target\<rparr>)\<rparr>)))
         (\<lambda>_. on_world (ag_set_model E (as_session_id session) model)))))))))"

definition set_persisted_route_policy ::
    "'x core_env \<Rightarrow> project_id \<Rightarrow> route_policy_config option \<Rightarrow> ('x core, persisted_project_state) act" where
  "set_persisted_route_policy E pid policy =
     sbind (slift (project_state_store_of E))
     (\<lambda>_. sbind (on_world (ws_open_project E pid))
     (\<lambda>_. sbind (slift (case policy of None \<Rightarrow> Inr () | Some p \<Rightarrow> policy_config_validate p))
     (\<lambda>_. sbind (load_required_project_state pid)
     (\<lambda>state. if pst_session_creation_pending state
        then sfail (Persistence ''project_session_creation_incomplete'')
        else on_store (\<lambda>d. update_project_state d (pst_revision state)
               (state\<lparr>pst_route_policy := policy\<rparr>))))))"

end
