(* ===== verification/Core_Loop.thy ===== *)
theory Core_Loop
  imports Core_Turns
begin

text \<open>
  \<open>crates/vibecoder-core/src/lib.rs\<close>, third part: the explicit agent loop. One user message is stored
  with the marker \<open>turn_pending\<close>; then the agent works in up to \<open>max_turns\<close> iterations, each verified by
  its tool transcript and a checkpoint of the tree. The loop ends with a stored answer, with the
  workspace restored to the checkpoint taken before it and a stored note, or with an error after the
  same restoration.

  The cancellation flag is read at five kinds of points; \<open>cancelled i k\<close> is its reading at point \<open>k\<close> of
  iteration \<open>i\<close>, and \<open>cancelled 0 0\<close> the one before the loop.
\<close>

section \<open>Model\<close>

record explicit_loop_outcome =
  lo_stop_reason :: explicit_loop_stop_reason
  lo_turns_completed :: u8
  lo_total_tool_calls :: nat
  lo_total_successful_mutations :: nat
  lo_baseline_tree_sha256 :: rstring
  lo_final_tree_sha256 :: rstring
  lo_workspace_committed :: bool
  lo_rollback_performed :: bool
  lo_checkpoint_cleanup_complete :: bool
  lo_assistant_text :: rstring

text \<open>What stays fixed during a loop, and its counters.\<close>

record loop_context =
  lc_project :: project_ref
  lc_session_id :: session_id
  lc_conversation :: persisted_conversation
  lc_baseline :: checkpoint_metadata
  lc_policy :: explicit_loop_policy

record loop_counters =
  lk_previous_tree_sha256 :: rstring
  lk_workspace_occurrences :: "rstring \<rightharpoonup> u8"
  lk_turns_completed :: u8
  lk_total_tool_calls :: nat
  lk_total_successful_mutations :: nat

datatype loop_step = LoopDone explicit_loop_outcome | LoopNext loop_counters

definition loop_preconditions :: "'x core_env \<Rightarrow> ('x core, unit) act" where
  "loop_preconditions E =
     sbind (on_world (ag_ensure_ready E))
     (\<lambda>capabilities.
        if \<not> rc_file_tools capabilities
        then sfail (MissingCapability ''agent runtime'' ''file_tools'')
        else if rc_command_tools capabilities
        then sfail (InvalidRequest ''explicit_agent_loop_command_tools_must_remain_disabled'')
        else sbind (slift (ok_or (ag_bridge E) (MissingCapability ''agent runtime'' ''model_gateway_bridge'')))
     (\<lambda>bridge. slift (ensure (gb_exact_model_id_passthrough bridge)
        (Gateway ''explicit_agent_loop_exact_model_bridge_required''))))"

definition recover_failed_persisted_explicit_agent_loop ::
    "'x core_env \<Rightarrow> loop_context \<Rightarrow> checkpoint_id option \<Rightarrow> ('x core, unit) act" where
  "recover_failed_persisted_explicit_agent_loop E k verification =
     (let c = lc_conversation k; pid = pr_id (lc_project k);
          baseline = ck_checkpoint_id (lc_baseline k) in
     sbind (smap_err (Checkpoint ''explicit_agent_loop_rollback_failed_pending_preserved'')
        (rollback_project_checkpoint_for_pending_conversation E (lc_project k) baseline
           (cv_conversation_id c) (lc_session_id k)))
     (\<lambda>_. sbind (smap_err
        (Persistence ''explicit_agent_loop_failure_cleanup_failed_pending_preserved'')
        (on_store (\<lambda>d. update_conversation d (cv_revision c) (c\<lparr>cv_turn_pending := False\<rparr>))))
     (\<lambda>_. sbind (case verification of
                   None \<Rightarrow> sreturn ()
                 | Some v \<Rightarrow> stry (remove_project_checkpoint E pid v) (\<lambda>_. sreturn ()))
     (\<lambda>_. stry (remove_project_checkpoint E pid baseline) (\<lambda>_. sreturn ())))))"

definition fail_loop ::
    "'x core_env \<Rightarrow> loop_context \<Rightarrow> checkpoint_metadata option \<Rightarrow> vibecoder_error \<Rightarrow> ('x core, 'a) act" where
  "fail_loop E k verification e =
     sbind (recover_failed_persisted_explicit_agent_loop E k (map_option ck_checkpoint_id verification))
       (\<lambda>_. sfail e)"

definition finish_persisted_explicit_agent_loop_non_success ::
    "'x core_env \<Rightarrow> loop_context \<Rightarrow> checkpoint_metadata option \<Rightarrow> explicit_loop_stop_reason
      \<Rightarrow> loop_counters \<Rightarrow> ('x core, loop_step) act" where
  "finish_persisted_explicit_agent_loop_non_success E k verification reason n =
     (let c = lc_conversation k; pid = pr_id (lc_project k);
          baseline = ck_checkpoint_id (lc_baseline k);
          answer = explicit_agent_loop_stop_message reason in
     if reason = EL_Completed
     then sfail (InvalidRequest ''explicit_agent_loop_completed_cannot_use_rollback_finish'')
     else sbind (smap_err (Checkpoint ''explicit_agent_loop_terminal_rollback_failed_pending_preserved'')
        (rollback_project_checkpoint_for_pending_conversation E (lc_project k) baseline
           (cv_conversation_id c) (lc_session_id k)))
     (\<lambda>_. sbind (slift (append_message (c\<lparr>cv_turn_pending := False\<rparr>) RoleAssistant answer))
     (\<lambda>c'. sbind (smap_err
        (Persistence ''explicit_agent_loop_terminal_persistence_failed_pending_preserved'')
        (on_store (\<lambda>d. update_conversation d (cv_revision c) c')))
     (\<lambda>_. stry (case verification of
                  None \<Rightarrow> sreturn ()
                | Some v \<Rightarrow> remove_project_checkpoint E pid (ck_checkpoint_id v))
     (\<lambda>verification_removed. stry (remove_project_checkpoint E pid baseline)
     (\<lambda>baseline_removed. sreturn (LoopDone
        \<lparr>lo_stop_reason = reason, lo_turns_completed = lk_turns_completed n,
         lo_total_tool_calls = lk_total_tool_calls n,
         lo_total_successful_mutations = lk_total_successful_mutations n,
         lo_baseline_tree_sha256 = ck_tree_sha256 (lc_baseline k),
         lo_final_tree_sha256 = ck_tree_sha256 (lc_baseline k),
         lo_workspace_committed = False, lo_rollback_performed = True,
         lo_checkpoint_cleanup_complete = is_ok verification_removed \<and> is_ok baseline_removed,
         lo_assistant_text = answer\<rparr>)))))))"

definition complete_loop ::
    "'x core_env \<Rightarrow> loop_context \<Rightarrow> checkpoint_metadata \<Rightarrow> rstring \<Rightarrow> loop_counters \<Rightarrow> ('x core, loop_step) act" where
  "complete_loop E k verification body n =
     (let c = lc_conversation k; pid = pr_id (lc_project k) in
     stry (slift (append_message (c\<lparr>cv_turn_pending := False\<rparr>) RoleAssistant body))
     (\<lambda>completed. case completed of
        Inl e \<Rightarrow> fail_loop E k (Some verification) e
      | Inr c' \<Rightarrow>
          stry (on_store (\<lambda>d. update_conversation d (cv_revision c) c'))
          (\<lambda>stored. case stored of
             Inl e \<Rightarrow> fail_loop E k (Some verification) e
           | Inr _ \<Rightarrow>
               stry (remove_project_checkpoint E pid (ck_checkpoint_id verification))
               (\<lambda>verify_removed. stry (remove_project_checkpoint E pid (ck_checkpoint_id (lc_baseline k)))
               (\<lambda>baseline_removed. sreturn (LoopDone
                  \<lparr>lo_stop_reason = EL_Completed, lo_turns_completed = lk_turns_completed n,
                   lo_total_tool_calls = lk_total_tool_calls n,
                   lo_total_successful_mutations = lk_total_successful_mutations n,
                   lo_baseline_tree_sha256 = ck_tree_sha256 (lc_baseline k),
                   lo_final_tree_sha256 = ck_tree_sha256 verification,
                   lo_workspace_committed = True, lo_rollback_performed = False,
                   lo_checkpoint_cleanup_complete = is_ok verify_removed \<and> is_ok baseline_removed,
                   lo_assistant_text = body\<rparr>))))))"

text \<open>The decision \<open>Continue\<close>: real progress, no repeated tree, and a further iteration left.\<close>

definition continue_loop ::
    "'x core_env \<Rightarrow> loop_context \<Rightarrow> u8 \<Rightarrow> checkpoint_metadata \<Rightarrow> nat \<Rightarrow> loop_counters
      \<Rightarrow> ('x core, loop_step) act" where
  "continue_loop E k iteration verification successful_mutations n =
     (let tree = ck_tree_sha256 verification in
     if successful_mutations = 0 \<or> tree = lk_previous_tree_sha256 n
     then fail_loop E k (Some verification)
            (Agent ''explicit_agent_loop_continue_without_workspace_progress'')
     else (let occurrence = sat_succ (case lk_workspace_occurrences n tree of None \<Rightarrow> 0 | Some v \<Rightarrow> v);
               n1 = n\<lparr>lk_workspace_occurrences := (lk_workspace_occurrences n)(tree \<mapsto> occurrence)\<rparr> in
       if occurrence \<ge> el_max_same_workspace_occurrences (lc_policy k)
       then finish_persisted_explicit_agent_loop_non_success E k (Some verification)
              EL_RepeatedWorkspaceState n1
       else (let n2 = n1\<lparr>lk_previous_tree_sha256 := tree\<rparr> in
         stry (remove_project_checkpoint E (pr_id (lc_project k)) (ck_checkpoint_id verification))
         (\<lambda>_. if iteration = el_max_turns (lc_policy k)
              then finish_persisted_explicit_agent_loop_non_success E k None EL_TurnBudgetExhausted n2
              else sreturn (LoopNext n2)))))"

text \<open>An iteration after its turn has returned.\<close>

definition judge_iteration ::
    "'x core_env \<Rightarrow> (nat \<Rightarrow> bool) \<Rightarrow> loop_context \<Rightarrow> u8 \<Rightarrow> turn_result \<Rightarrow> agent_event list \<Rightarrow> loop_counters
      \<Rightarrow> ('x core, loop_step) act" where
  "judge_iteration E cancelled k iteration turn events n =
     (if cancelled 2
      then finish_persisted_explicit_agent_loop_non_success E k None EL_Cancelled n
      else case parse_explicit_agent_loop_response (tr_text turn) of
        Inl e \<Rightarrow> fail_loop E k None e
      | Inr (decision, body) \<Rightarrow>
          (case validate_agent_loop_iteration_turn turn
                  (observe_events agent_action_observation_default events) of
             Inl e \<Rightarrow> fail_loop E k None e
           | Inr (observed, files, mutations) \<Rightarrow>
               (let n1 = n\<lparr>lk_total_tool_calls := lk_total_tool_calls n + observed,
                    lk_total_successful_mutations := lk_total_successful_mutations n + mutations\<rparr> in
                stry (create_project_checkpoint E (lc_project k) AgentChangeVerification)
                (\<lambda>verified. case verified of
                   Inl e \<Rightarrow> fail_loop E k None e
                 | Inr verification \<Rightarrow>
                     if lk_total_tool_calls n1 > el_max_total_tool_calls (lc_policy k)
                     then finish_persisted_explicit_agent_loop_non_success E k (Some verification)
                            EL_ToolBudgetExhausted n1
                     else if cancelled 3
                     then finish_persisted_explicit_agent_loop_non_success E k (Some verification)
                            EL_Cancelled n1
                     else (case decision of
                             EL_Continue \<Rightarrow> continue_loop E k iteration verification mutations n1
                           | EL_Complete \<Rightarrow> complete_loop E k verification body n1)))))"

definition loop_iteration ::
    "'x core_env \<Rightarrow> uuid \<Rightarrow> (nat \<Rightarrow> bool) \<Rightarrow> loop_context \<Rightarrow> gateway_credential \<Rightarrow> route_policy_config
      \<Rightarrow> rstring \<Rightarrow> u8 \<Rightarrow> loop_counters \<Rightarrow> ('x core, loop_step) act" where
  "loop_iteration E fresh cancelled k credential route_policy prompt iteration n =
     (if cancelled 0
      then finish_persisted_explicit_agent_loop_non_success E k None EL_Cancelled n
      else case build_explicit_agent_loop_iteration_prompt prompt iteration
                  (el_max_turns (lc_policy k)) of
        Inl e \<Rightarrow> fail_loop E k None e
      | Inr iteration_prompt \<Rightarrow>
          stry (run_backend_task E fresh (lc_project k) (lc_session_id k) credential route_policy
                  iteration_prompt)
          (\<lambda>action. case action of
             Inl e \<Rightarrow>
               if e = Cancelled \<and> cancelled 1
               then finish_persisted_explicit_agent_loop_non_success E k None EL_Cancelled n
               else fail_loop E k None e
           | Inr (outcome, events) \<Rightarrow>
               judge_iteration E cancelled k iteration (to_turn outcome) events
                 (n\<lparr>lk_turns_completed := sat_succ (lk_turns_completed n)\<rparr>)))"

fun loop_iterations ::
    "'x core_env \<Rightarrow> (nat \<Rightarrow> uuid) \<Rightarrow> (nat \<Rightarrow> nat \<Rightarrow> bool) \<Rightarrow> loop_context \<Rightarrow> gateway_credential
      \<Rightarrow> route_policy_config \<Rightarrow> rstring \<Rightarrow> u8 list \<Rightarrow> loop_counters
      \<Rightarrow> ('x core, explicit_loop_outcome) act" where
  "loop_iterations E fresh cancelled k credential route_policy prompt [] n =
     sfail (Agent ''explicit_agent_loop_unreachable_terminal_state'')"
| "loop_iterations E fresh cancelled k credential route_policy prompt (i # iterations) n =
     sbind (loop_iteration E (fresh (unat i)) (cancelled (unat i)) k credential route_policy prompt i n)
     (\<lambda>step. case step of
        LoopDone outcome \<Rightarrow> sreturn outcome
      | LoopNext n' \<Rightarrow>
          loop_iterations E fresh cancelled k credential route_policy prompt iterations n')"

definition loop_range :: "u8 \<Rightarrow> u8 list" where
  "loop_range max_turns = map of_nat [1 ..< unat max_turns + 1]"

definition run_explicit_loop_body ::
    "'x core_env \<Rightarrow> (nat \<Rightarrow> uuid) \<Rightarrow> (nat \<Rightarrow> nat \<Rightarrow> bool) \<Rightarrow> explicit_loop_guard \<Rightarrow> gateway_credential
      \<Rightarrow> route_policy_config \<Rightarrow> rstring \<Rightarrow> ('x core, explicit_loop_outcome) act" where
  "run_explicit_loop_body E fresh cancelled guard credential route_policy prompt =
     (if cancelled 0 0 then sfail Cancelled
      else sbind (loop_preconditions E)
      (\<lambda>_. sbind (slift (conversation_store_of E))
      (\<lambda>_. sbind (open_action_turn E (eg_project_id guard) (eg_conversation_id guard) prompt)
      (\<lambda>(project, sid, c, baseline).
         loop_iterations E fresh cancelled
           \<lparr>lc_project = project, lc_session_id = sid, lc_conversation = c, lc_baseline = baseline,
            lc_policy = eg_policy guard\<rparr>
           credential route_policy prompt (loop_range (el_max_turns (eg_policy guard)))
           \<lparr>lk_previous_tree_sha256 = ck_tree_sha256 baseline,
            lk_workspace_occurrences = [ck_tree_sha256 baseline \<mapsto> 1], lk_turns_completed = 0,
            lk_total_tool_calls = 0, lk_total_successful_mutations = 0\<rparr>))))"

definition run_persisted_explicit_agent_loop ::
    "'x core_env \<Rightarrow> (nat \<Rightarrow> uuid) \<Rightarrow> (nat \<Rightarrow> nat \<Rightarrow> bool) \<Rightarrow> explicit_loop_guard \<Rightarrow> gateway_credential
      \<Rightarrow> route_policy_config \<Rightarrow> rstring \<Rightarrow> 'x core
      \<Rightarrow> (explicit_loop_outcome result \<times> explicit_loop_guard) \<times> 'x core" where
  "run_persisted_explicit_agent_loop E fresh cancelled guard credential route_policy prompt s =
     (case validate_conversation_model_prompt prompt of
        Inl e \<Rightarrow> ((Inl e, guard), s)
      | Inr _ \<Rightarrow>
          (case begin_once guard of
             (Inl e, g) \<Rightarrow> ((Inl e, g), s)
           | (Inr _, g) \<Rightarrow>
               (case run_explicit_loop_body E fresh cancelled g credential route_policy prompt s of
                  (r, t) \<Rightarrow> ((r, g), t))))"

definition request_explicit_agent_loop_cancel :: "explicit_loop_guard \<Rightarrow> ('x core, unit) act" where
  "request_explicit_agent_loop_cancel guard =
     sbind (invalidate (eg_project_id guard)) (\<lambda>_. sreturn ())"

definition cancel_active_explicit_agent_loop_turn ::
    "'x core_env \<Rightarrow> explicit_loop_guard \<Rightarrow> ('x core, unit) act" where
  "cancel_active_explicit_agent_loop_turn E guard =
     sbind (request_explicit_agent_loop_cancel guard)
     (\<lambda>_. sbind (on_world (ws_open_project E (eg_project_id guard)))
     (\<lambda>project. sbind (on_world (ws_verify_project E project))
     (\<lambda>_. sbind (slift (conversation_store_of E))
     (\<lambda>_. sbind (load_required_conversation (eg_project_id guard) (eg_conversation_id guard))
     (\<lambda>c. if \<not> cv_turn_pending c
          then sfail (InvalidRequest ''explicit_agent_loop_no_active_turn'')
          else sbind (slift (ok_or (cv_agent_session c)
                               (Persistence ''conversation_session_not_persisted'')))
     (\<lambda>session. if as_runtime_id session \<noteq> ag_runtime_id E
        then sfail (Persistence ''conversation_session_runtime_mismatch'')
        else sbind (on_world (ag_verify_session_project_binding E project (as_session_id session)))
     (\<lambda>_. on_world (ag_cancel E (as_session_id session)))))))))"

end
