(* ===== verification/Turn_Protocol.thy ===== *)
theory Turn_Protocol
  imports Core_Loop
begin

text \<open>
  The turn protocol of a persisted conversation. The durable conversation goes through four stages:
  as it was found, asked (the user's message is stored and the turn is marked pending), then
  withdrawn (the marker is cleared again) or answered (the assistant's message is stored and the
  marker is cleared). The theory shows that every kind of turn moves one conversation through these
  stages and touches nothing else that is stored, whatever agent, gateway, workspace, checkpoint
  store or disk do.
\<close>

section \<open>What a turn leaves alone\<close>

lemma keeps_bool [keeps_intros]: "keeps p m \<Longrightarrow> keeps p n \<Longrightarrow> keeps p (case b of True \<Rightarrow> m | False \<Rightarrow> n)"
  by (simp split: bool.split)

lemma keeps_backend_attempt [keeps_intros]:
  "keeps co_active (backend_attempt E pid sid prompt m cs seen)"
  "keeps durable (backend_attempt E pid sid prompt m cs seen)"
  unfolding backend_attempt_def run_inference_def by (intro keeps_intros)+

lemma backend_loop_keeps:
  assumes "\<And>E pid sid prompt m cs seen. keeps p (backend_attempt E pid sid prompt m cs seen)"
  shows "p (snd (backend_loop E pid sid prompt m cs seen s)) = p s"
proof (induction E pid sid prompt m cs seen s rule: backend_loop.induct)
  case (1 E pid sid prompt m cs seen s)
  obtain r t where a: "backend_attempt E pid sid prompt m cs seen s = (r, t)" by fastforce
  then have t: "p t = p s" by (rule keepsD [OF assms])
  show ?case
  proof (cases r)
    case (Inl e)
    then show ?thesis using a t by (simp add: backend_loop.simps)
  next
    case (Inr out)
    then show ?thesis using a t 1 [OF a [symmetric] Inr] by (cases out) (simp_all add: backend_loop.simps)
  qed
qed

lemma keeps_backend_loop [keeps_intros]:
  "keeps co_active (backend_loop E pid sid prompt m cs seen)"
  "keeps durable (backend_loop E pid sid prompt m cs seen)"
  unfolding keeps_def by (auto intro!: backend_loop_keeps keeps_backend_attempt)

lemma keeps_run_backend_task [keeps_intros]:
  "keeps co_active (run_backend_task E fresh project sid credential policy prompt)"
  "keeps durable (run_backend_task E fresh project sid credential policy prompt)"
  unfolding run_backend_task_def by (intro keeps_intros)+

lemma keeps_load_required [keeps_intros]: "keeps durable (load_required_conversation pid cid)"
  unfolding load_required_conversation_def by (intro keeps_intros)

lemma keeps_model_inference [keeps_intros]:
  "keeps durable (model_inference E cancelled credential requested max_output c)"
  unfolding model_inference_def unless_cancelled_def by (intro keeps_intros)

section \<open>Storage errors\<close>

definition storage_error :: "vibecoder_error \<Rightarrow> bool" where
  "storage_error e \<longleftrightarrow> (\<exists>code. e = Persistence code)"

lemma storage_error_simps [simp]:
  "storage_error (Persistence code)" "storage_error (persistence_error code)"
  "storage_error (file_error kind code)"
  by (simp_all add: storage_error_def persistence_error_def file_error_def)

lemma open_state_root_error: "open_state_root io = Inl e \<Longrightarrow> storage_error e"
  by (auto simp: open_state_root_def open_directory_path_nofollow_def open_directory_at_def
      split: if_splits)

lemma inspect_error:
  "inspect_state_for_read io dir name = Inl e \<Longrightarrow> storage_error e"
  "inspect_existing_state_target io dir name = Inl e \<Longrightarrow> storage_error e"
  by (auto simp: inspect_state_for_read_def inspect_existing_state_target_def
      fstatat_nofollow_optional_def verify_private_regular_stat_def rbind_def
      split: if_splits option.splits sum.splits)

lemma read_state_file_error: "read_state_file kind io dir name = Inl e \<Longrightarrow> storage_error e"
  by (auto simp: read_state_file_def rbind_def split: if_splits option.splits sum.split_asm
      dest: open_state_root_error inspect_error)

lemma write_state_file_error: "write_state_file kind U io dir name b = (Inl e, d) \<Longrightarrow> storage_error e"
  by (auto simp: write_state_file_def rbind_def Let_def split: if_splits sum.split_asm
      dest: open_state_root_error inspect_error)

lemma load_conversation_error:
  assumes "conversation_view d k = Some c" and "load_conversation d k = (Inl e, d')"
  shows "storage_error e"
proof (cases "lock_gate d")
  case (Inl e')
  then show ?thesis using assms(2) by (auto simp: load_conversation_def lock_gate_def split: if_splits)
next
  case (Inr u)
  let ?read = "read_state_file ConversationFile (now_io d) (ls_conversations d)
    (Utf8Path (conversation_file_name (ls_uuid d) (fst k) (snd k)))"
  show ?thesis
  proof (cases ?read)
    case (Inr found)
    with assms(1) have "found = Some b \<Longrightarrow> decode_conversation (ls_codec d) (fst k) (snd k) b = Inr c" for b
      using read_state_file_Inr [OF Inr]
      by (simp add: conversation_view_def conversations_in_def split: option.splits)
    then show ?thesis using assms(2) Inr \<open>lock_gate d = Inr u\<close>
      by (cases found) (auto simp: load_conversation_def load_conversation_file_def)
  qed (use assms(2) Inr read_state_file_error in
      \<open>auto simp: load_conversation_def load_conversation_file_def\<close>)
qed

lemma update_conversation_error:
  assumes "conversation_view d (cv_project_id c, cv_conversation_id c) = Some old" and "ok_conversation c"
    and "update_conversation d n c = (Inl e, d')"
  shows "storage_error e"
proof -
  have ok: "conversation_validate c = Inr ()" using assms(2) by (simp add: conversation_validate_Inr)
  have put: "storage_error e" if "put_conversation d1 v = (Inl e, d2)" for d1 v d2
    using that by (auto simp: put_conversation_def save_conversation_def
        split: option.splits prod.splits dest: write_state_file_error)
  obtain r d1 where load: "load_conversation d (cv_project_id c, cv_conversation_id c) = (r, d1)" by fastforce
  show ?thesis
  proof (cases "cv_revision c = n")
    case True
    show ?thesis
    proof (cases r)
      case (Inl e')
      then show ?thesis using assms(3) ok load True load_conversation_error [OF assms(1)]
        by (simp add: update_conversation_def)
    next
      case (Inr found)
      then show ?thesis using assms(3) ok load True put
        by (auto simp: update_conversation_def Let_def
            split: option.split_asm if_split_asm prod.split_asm sum.split_asm)
    qed
  qed (use assms(3) ok in \<open>auto simp: update_conversation_def\<close>)
qed

section \<open>Stages\<close>

definition asked :: "persisted_conversation \<Rightarrow> rstring \<Rightarrow> persisted_conversation" where
  "asked c prompt =
     c\<lparr>cv_messages := cv_messages c
         @ [\<lparr>pm_sequence = of_nat (length (cv_messages c)), pm_role = RoleUser, pm_text = prompt\<rparr>],
       cv_turn_pending := True, cv_revision := cv_revision c + 1\<rparr>"

definition withdrawn :: "persisted_conversation \<Rightarrow> rstring \<Rightarrow> persisted_conversation" where
  "withdrawn c prompt = (asked c prompt)\<lparr>cv_turn_pending := False, cv_revision := cv_revision c + 2\<rparr>"

definition answered :: "persisted_conversation \<Rightarrow> rstring \<Rightarrow> rstring \<Rightarrow> persisted_conversation" where
  "answered c prompt answer =
     (withdrawn c prompt)\<lparr>cv_messages := cv_messages (asked c prompt)
        @ [\<lparr>pm_sequence = of_nat (length (cv_messages (asked c prompt))), pm_role = RoleAssistant,
            pm_text = answer\<rparr>]\<rparr>"

text \<open>The store differs from what it was by one conversation.\<close>

definition stored_at ::
    "project_id \<times> conversation_id \<Rightarrow> persisted_conversation \<Rightarrow> 'x core \<Rightarrow> 'x core \<Rightarrow> bool" where
  "stored_at k c s t \<longleftrightarrow>
     durable t = (True, (conversation_view (co_store s))(k \<mapsto> c), project_view (co_store s))"

lemma stored_atD:
  assumes "stored_at k c s t"
  shows "store_inv (co_store t)" and "conversation_view (co_store t) k = Some c"
    and "project_view (co_store t) = project_view (co_store s)"
    and "k' \<noteq> k \<Longrightarrow> conversation_view (co_store t) k' = conversation_view (co_store s) k'"
  using assms by (auto simp: stored_at_def durable_def)

lemma stored_at_trans:
  "stored_at k c s t \<Longrightarrow> stored_at k c' t u \<Longrightarrow> stored_at k c' s u"
  by (simp add: stored_at_def durable_def)

lemma stored_at_frame [simp]:
  "stored_at k c (s\<lparr>co_active := a\<rparr>) t = stored_at k c s t"
  "stored_at k c s (drop_permit pid t) = stored_at k c s t"
  by (simp_all add: stored_at_def)

lemma checked_succ_add: "checked_succ w = Some m \<Longrightarrow> m = w + 1"
  by (simp add: checked_succ_def split: if_splits)

lemma ok_asked:
  assumes "ok_conversation c" and "\<not> cv_session_creation_pending c"
    and "append_message c RoleUser prompt = Inr c1"
  shows "ok_conversation (asked c prompt)"
proof -
  have "ok_messages (cv_messages c1)" using append_message_ok [OF assms(3)] assms(1)
    by (simp add: ok_conversation_def)
  then show ?thesis using assms
    by (auto simp: ok_conversation_def asked_def append_message_Inr last_role_def)
qed

lemma ok_withdrawn: "ok_conversation (asked c prompt) \<Longrightarrow> ok_conversation (withdrawn c prompt)"
  by (auto simp: ok_conversation_def withdrawn_def asked_def split: if_splits)

lemma ok_answered:
  assumes "ok_conversation (asked c prompt)"
    and "append_message ((asked c prompt)\<lparr>cv_turn_pending := False\<rparr>) RoleAssistant a = Inr c'"
  shows "ok_conversation (answered c prompt a)" and "c' = (answered c prompt a)\<lparr>cv_revision := cv_revision c + 1\<rparr>"
proof -
  show c': "c' = (answered c prompt a)\<lparr>cv_revision := cv_revision c + 1\<rparr>"
    using assms(2) by (simp add: append_message_Inr answered_def withdrawn_def asked_def)
  have "ok_messages (cv_messages c')" using append_message_ok [OF assms(2)] assms(1)
    by (simp add: ok_conversation_def)
  then show "ok_conversation (answered c prompt a)" using assms(1) unfolding c'
    by (auto simp: ok_conversation_def answered_def withdrawn_def asked_def split: if_splits)
qed

text \<open>One update of the conversation at its own place.\<close>

lemma wp_update:
  assumes "store_inv (co_store s)" and "conversation_view (co_store s) k = Some old"
    and "k = (cv_project_id c, cv_conversation_id c)" and "ok_conversation c"
  shows "wp (on_store (\<lambda>d. update_conversation d n c))
    (\<lambda>r t. (\<exists>e. r = Inl e \<and> storage_error e)
         \<and> (durable t = durable s \<or> stored_at k (c\<lparr>cv_revision := n + 1\<rparr>) s t)
       \<or> r = Inr (c\<lparr>cv_revision := n + 1\<rparr>) \<and> stored_at k (c\<lparr>cv_revision := n + 1\<rparr>) s t) s"
proof (rule wpI)
  fix r t
  assume u: "on_store (\<lambda>d. update_conversation d n c) s = (r, t)"
  have err: "storage_error e" if "r = Inl e" for e
    using u that update_conversation_error [OF _ assms(4)] assms(2,3)
    by (auto simp: on_store_def split: prod.splits)
  from update_conversation_step [OF u assms(1)]
  show "(\<exists>e. r = Inl e \<and> storage_error e)
         \<and> (durable t = durable s \<or> stored_at k (c\<lparr>cv_revision := n + 1\<rparr>) s t)
       \<or> r = Inr (c\<lparr>cv_revision := n + 1\<rparr>) \<and> stored_at k (c\<lparr>cv_revision := n + 1\<rparr>) s t"
  proof
    assume "\<exists>m old. ok_conversation c \<and> cv_revision c = n \<and> checked_succ n = Some m
      \<and> conversation_view (co_store s) (cv_project_id c, cv_conversation_id c) = Some old
      \<and> durable t = (True, (conversation_view (co_store s))
          ((cv_project_id c, cv_conversation_id c) \<mapsto> c\<lparr>cv_revision := m\<rparr>), project_view (co_store s))
      \<and> ((\<exists>e. r = Inl e) \<or> r = Inr (c\<lparr>cv_revision := m\<rparr>))"
    then show ?thesis using assms(3) checked_succ_add err by (auto simp: stored_at_def)
  qed (use err in blast)
qed

lemma wp_ask:
  assumes "store_inv (co_store s)" and "conversation_view (co_store s) k = Some c"
    and "\<not> cv_session_creation_pending c" and "append_message c RoleUser prompt = Inr c1"
  shows "wp (on_store (\<lambda>d. update_conversation d (cv_revision c1) (c1\<lparr>cv_turn_pending := True\<rparr>)))
    (\<lambda>r t. (\<exists>e. r = Inl e \<and> storage_error e)
         \<and> (durable t = durable s \<or> stored_at k (asked c prompt) s t)
       \<or> r = Inr (asked c prompt) \<and> stored_at k (asked c prompt) s t) s"
proof -
  have c1: "c1 = c\<lparr>cv_messages := cv_messages c
      @ [\<lparr>pm_sequence = of_nat (length (cv_messages c)), pm_role = RoleUser, pm_text = prompt\<rparr>]\<rparr>"
    using assms(4) by (simp add: append_message_Inr)
  have eq: "c1\<lparr>cv_turn_pending := True, cv_revision := cv_revision c1 + 1\<rparr> = asked c prompt"
    by (simp add: c1 asked_def)
  have k: "k = (cv_project_id (c1\<lparr>cv_turn_pending := True\<rparr>), cv_conversation_id (c1\<lparr>cv_turn_pending := True\<rparr>))"
    and "ok_conversation c" using view_valid_conversation [OF assms(2)] by (simp_all add: c1)
  then have "ok_conversation (asked c prompt)" using ok_asked assms(3,4) by blast
  then have "ok_conversation (c1\<lparr>cv_turn_pending := True\<rparr>)"
    unfolding eq [symmetric] by simp
  from wp_update [OF assms(1,2) k this, of "cv_revision c1"] show ?thesis by (simp add: eq)
qed

lemma wp_settle:
  assumes c: "conversation_view (co_store s) k = Some c" and u: "stored_at k v s u"
    and c': "c' = withdrawn c prompt \<or> c' = answered c prompt a" and ok: "ok_conversation c'"
  shows "wp (on_store (\<lambda>d. update_conversation d (cv_revision c + 1) (c'\<lparr>cv_revision := cv_revision c + 1\<rparr>)))
    (\<lambda>r t. (\<exists>e. r = Inl e \<and> storage_error e) \<and> (stored_at k v s t \<or> stored_at k c' s t)
       \<or> (\<exists>v. r = Inr v) \<and> stored_at k c' s t) u"
proof -
  let ?n = "cv_revision c + 1"
  let ?c = "c'\<lparr>cv_revision := ?n\<rparr>"
  note view = stored_atD(1,2) [OF u]
  have k: "k = (cv_project_id ?c, cv_conversation_id ?c)"
    using view_valid_conversation [OF c] c' by (auto simp: asked_def withdrawn_def answered_def)
  have "?c\<lparr>cv_revision := ?n + 1\<rparr> = c'" using c' by (auto simp: asked_def withdrawn_def answered_def)
  with wp_update [OF view k, of ?n] ok
  have "wp (on_store (\<lambda>d. update_conversation d ?n ?c))
    (\<lambda>r t. (\<exists>e. r = Inl e \<and> storage_error e) \<and> (durable t = durable u \<or> stored_at k c' u t)
       \<or> r = Inr c' \<and> stored_at k c' u t) u" by simp
  moreover have "stored_at k v s t" if "durable t = durable u" for t
    using u that by (simp add: stored_at_def)
  moreover have "stored_at k c' s t" if "stored_at k c' u t" for t using stored_at_trans [OF u that] .
  ultimately show ?thesis by (elim wp_mono) blast
qed

lemma wp_sum:
  "(\<And>e. r = Inl e \<Longrightarrow> wp (f e) Q s) \<Longrightarrow> (\<And>a. r = Inr a \<Longrightarrow> wp (g a) Q s)
     \<Longrightarrow> wp (case r of Inl e \<Rightarrow> f e | Inr a \<Rightarrow> g a) Q s"
  by (simp split: sum.split)

lemma wp_prod: "(\<And>a b. x = (a, b) \<Longrightarrow> wp (f a b) Q s) \<Longrightarrow> wp (case x of (a, b) \<Rightarrow> f a b) Q s"
  by (simp split: prod.split)

lemma wp_quiet_step:
  assumes "keeps durable m" and "\<And>e t. durable t = durable s \<Longrightarrow> Q (Inl e) t"
    and "\<And>a t. durable t = durable s \<Longrightarrow> wp (f a) Q t"
  shows "wp (sbind m f) Q s"
proof (rule wp_step)
  show "wp m (\<lambda>_ t. durable t = durable s) s" using assms(1) by (rule wp_quiet)
qed (use assms(2,3) in auto)

lemma wp_quiet_try:
  assumes "keeps durable m" and "\<And>r t. durable t = durable s \<Longrightarrow> wp (f r) Q t"
  shows "wp (stry m f) Q s"
proof (rule wp_try)
  show "wp m (\<lambda>_ t. durable t = durable s) s" using assms(1) by (rule wp_quiet)
qed (use assms(2) in auto)

lemma wp_pure_step:
  assumes "\<And>e. r = Inl e \<Longrightarrow> Q (Inl e) s" and "\<And>a. r = Inr a \<Longrightarrow> wp (f a) Q s"
  shows "wp (sbind (slift r) f) Q s"
  using assms by (cases r) (simp_all add: wp_simps)

lemma ready_session_Inr:
  "ready_session E c = Inr sid \<Longrightarrow> \<not> cv_turn_pending c \<and> \<not> cv_session_creation_pending c"
  by (simp add: ready_session_def split: if_splits)

section \<open>What a turn may leave behind\<close>

text \<open>The possible effects of a turn on the store, by what it returned. \<open>bad\<close> are the errors under which
  the marker may still be there.\<close>

definition turn_effect ::
    "(vibecoder_error \<Rightarrow> bool) \<Rightarrow> project_id \<times> conversation_id \<Rightarrow> rstring \<Rightarrow> 'x core
      \<Rightarrow> rstring option result \<Rightarrow> 'x core \<Rightarrow> bool" where
  "turn_effect bad k prompt s r t \<longleftrightarrow>
     (case r of
        Inr answer \<Rightarrow> \<exists>c. conversation_view (co_store s) k = Some c \<and> \<not> cv_turn_pending c
          \<and> (case answer of
               Some a \<Rightarrow> stored_at k (answered c prompt a) s t
             | None \<Rightarrow> stored_at k (withdrawn c prompt) s t)
      | Inl e \<Rightarrow> durable t = durable s
          \<or> (\<exists>c. conversation_view (co_store s) k = Some c \<and> \<not> cv_turn_pending c
               \<and> (stored_at k (asked c prompt) s t \<and> bad e \<or> stored_at k (withdrawn c prompt) s t
                  \<or> (\<exists>a. stored_at k (answered c prompt a) s t) \<and> bad e)))"

lemma turn_effect_untouched: "durable t = durable s \<Longrightarrow> turn_effect bad k prompt s (Inl e) t"
  by (simp add: turn_effect_def)

lemma turn_effect_frame [simp]:
  "turn_effect bad k prompt (s\<lparr>co_active := a\<rparr>) r t = turn_effect bad k prompt s r t"
  "turn_effect bad k prompt s r (drop_permit pid t) = turn_effect bad k prompt s r t"
  by (simp_all add: turn_effect_def cong: sum.case_cong option.case_cong)

lemma turn_effect_same:
  assumes "durable s' = durable s"
  shows "turn_effect bad k prompt s' r t = turn_effect bad k prompt s r t"
proof -
  have view: "conversation_view (co_store s') = conversation_view (co_store s)"
    "project_view (co_store s') = project_view (co_store s)"
    using assms unfolding durable_def by simp_all
  show ?thesis unfolding turn_effect_def stored_at_def view assms ..
qed

lemma turn_effect_base:
  assumes "durable s' = durable s" and "wp m (\<lambda>r t. turn_effect bad k prompt s' (f r) t) u"
  shows "wp m (\<lambda>r t. turn_effect bad k prompt s (f r) t) u"
  using assms(2) unfolding turn_effect_same [OF assms(1)] .

text \<open>After the message is stored, the rest of a turn starts in the stage asked.\<close>

lemma wp_open:
  fixes s :: "'x core"
  assumes "store_inv (co_store s)" and "conversation_view (co_store s) k = Some c"
    and "ready_session E c = Inr sid" and "append_message c RoleUser prompt = Inr c1"
    and "\<And>e t. storage_error e \<Longrightarrow> durable t = durable s \<or> stored_at k (asked c prompt) s t \<Longrightarrow> Q (Inl e) t"
    and "\<And>t. \<not> cv_turn_pending c \<Longrightarrow> stored_at k (asked c prompt) s t \<Longrightarrow> wp (f (asked c prompt)) Q t"
  shows "wp (sbind (on_store (\<lambda>d. update_conversation d (cv_revision c1) (c1\<lparr>cv_turn_pending := True\<rparr>))) f) Q s"
  using ready_session_Inr [OF assms(3)]
  by (intro wp_step [OF wp_ask [OF assms(1,2) _ assms(4)]]) (auto intro: assms(5,6))

lemma load_required_Inr:
  assumes "load_required_conversation pid cid s = (Inr c, t)"
  shows "conversation_view (co_store s) (pid, cid) = Some c" and "durable t = durable s"
proof -
  show "durable t = durable s" using keepsD [OF keeps_load_required assms] .
  from assms obtain found where "on_store (\<lambda>d. load_conversation d (pid, cid)) s = (Inr found, t)"
    and "ok_or found (Persistence ''conversation_not_found'') = Inr c"
    by (auto simp: load_required_conversation_def sbind_def slift_def split: prod.splits sum.splits)
  then show "conversation_view (co_store s) (pid, cid) = Some c"
    using load_conversation_step by (fastforce simp: ok_or_def split: option.splits)
qed

lemma wp_load_step:
  assumes "\<And>e t. durable t = durable s \<Longrightarrow> Q (Inl e) t"
    and "\<And>c t. durable t = durable s \<Longrightarrow> conversation_view (co_store t) (pid, cid) = Some c \<Longrightarrow> wp (f c) Q t"
  shows "wp (sbind (load_required_conversation pid cid) f) Q s"
proof (rule wp_step)
  let ?P = "\<lambda>r t. durable t = durable s
    \<and> (\<forall>c. r = Inr c \<longrightarrow> conversation_view (co_store t) (pid, cid) = Some c)"
  show "wp (load_required_conversation pid cid) ?P s"
  proof (rule wpI)
    fix r t
    assume l: "load_required_conversation pid cid s = (r, t)"
    have d: "durable t = durable s" using keepsD [OF keeps_load_required l] .
    then show "?P r t" using load_required_Inr(1) [of pid cid s _ t] l by (auto simp: durable_def)
  qed
qed (use assms in auto)

section \<open>The model turn\<close>

lemma wp_model_finish:
  fixes s u :: "'x core"
  assumes c: "conversation_view (co_store s) (pid, cid) = Some c" "\<not> cv_turn_pending c"
    and u: "stored_at (pid, cid) (asked c prompt) s u"
  shows "wp (stry (model_inference E cancelled credential requested_model_id max_output_tokens (asked c prompt))
     (\<lambda>inference.
        let cleared = (asked c prompt)\<lparr>cv_turn_pending := False\<rparr> in
        case (if cancelled 3 then Inl Cancelled else inference) of
          Inr (model, response, context_messages_sent, context_bytes_sent) \<Rightarrow>
            sbind (slift (append_message cleared RoleAssistant (cr_text response)))
            (\<lambda>c'. sbind (on_store (\<lambda>d. update_conversation d (cv_revision (asked c prompt)) c'))
            (\<lambda>_. sreturn \<lparr>mo_model = model, mo_observed_model_id = cr_observed_model_id response,
                   mo_finish_reason = cr_finish_reason response, mo_usage = cr_usage response,
                   mo_assistant_text = cr_text response,
                   mo_context_messages_sent = context_messages_sent,
                   mo_context_bytes_sent = context_bytes_sent\<rparr>))
        | Inl e \<Rightarrow>
            stry (on_store (\<lambda>d. update_conversation d (cv_revision (asked c prompt)) cleared))
              (\<lambda>stored. if is_ok stored then sfail e
                 else sfail (Persistence ''conversation_model_turn_failure_cleanup_failed''))))
    (\<lambda>r t. turn_effect storage_error (pid, cid) prompt s
       (map_sum id (\<lambda>out. Some (mo_assistant_text out)) r) t) u"
  (is "wp (stry ?infer ?rest) ?Q u")
proof (rule wp_quiet_try [OF keeps_model_inference])
  fix r and t :: "'x core"
  assume t: "durable t = durable u"
  have asked: "stored_at (pid, cid) (asked c prompt) s t" using u t by (simp add: stored_at_def)
  have ok: "ok_conversation (asked c prompt)" using view_valid_conversation stored_atD(2) [OF asked] by blast
  have cleared: "(asked c prompt)\<lparr>cv_turn_pending := False\<rparr> = (withdrawn c prompt)\<lparr>cv_revision := cv_revision c + 1\<rparr>"
    and n: "cv_revision (asked c prompt) = cv_revision c + 1"
    by (simp_all add: withdrawn_def asked_def)
  show "wp (?rest r) ?Q t"
  proof (cases "if cancelled 3 then Inl Cancelled else r")
    case (Inl e)
    show ?thesis unfolding Inl Let_def sum.case cleared n
      by (rule wp_try [OF wp_settle [OF c(1) asked, of "withdrawn c prompt" prompt]])
        (use ok_withdrawn [OF ok] c in \<open>auto simp: wp_simps turn_effect_def is_ok_def\<close>)
  next
    case (Inr x)
    obtain model response n_messages n_bytes where x: "x = (model, response, n_messages, n_bytes)"
      by (cases x) auto
    show ?thesis unfolding Inr x Let_def sum.case prod.case
    proof (rule wp_pure_step)
      fix e
      assume "append_message ((asked c prompt)\<lparr>cv_turn_pending := False\<rparr>) RoleAssistant (cr_text response) = Inl e"
      then have "storage_error e" by (auto simp: append_message_def split: if_splits)
      then show "?Q (Inl e) t" using asked c by (auto simp: turn_effect_def)
    next
      fix c'
      assume a: "append_message ((asked c prompt)\<lparr>cv_turn_pending := False\<rparr>) RoleAssistant (cr_text response) = Inr c'"
      show "wp (sbind (on_store (\<lambda>d. update_conversation d (cv_revision (asked c prompt)) c'))
            (\<lambda>_. sreturn \<lparr>mo_model = model, mo_observed_model_id = cr_observed_model_id response,
                   mo_finish_reason = cr_finish_reason response, mo_usage = cr_usage response,
                   mo_assistant_text = cr_text response, mo_context_messages_sent = n_messages,
                   mo_context_bytes_sent = n_bytes\<rparr>)) ?Q t"
        unfolding ok_answered(2) [OF ok a] n
        by (rule wp_step [OF wp_settle [OF c(1) asked, of "answered c prompt (cr_text response)" prompt]])
          (use ok_answered(1) [OF ok a] c in \<open>auto simp: wp_simps turn_effect_def\<close>)
    qed
  qed
qed

lemma wp_model_turn:
  fixes s :: "'x core"
  assumes "store_inv (co_store s)"
  shows "wp (model_turn_body E cancelled pid cid credential requested_model_id max_output_tokens prompt)
    (\<lambda>r t. turn_effect storage_error (pid, cid) prompt s
       (map_sum id (\<lambda>out. Some (mo_assistant_text out)) r) t) s"
  unfolding model_turn_body_def
  apply (rule wp_pure_step, simp add: turn_effect_untouched)
  apply (rule wp_quiet_step [OF keeps_on_world(4)], simp add: turn_effect_untouched)
  apply (rule wp_quiet_step [OF keeps_on_world(4)], simp add: turn_effect_untouched)
  apply (rule wp_load_step, simp add: turn_effect_untouched)
  apply (rule wp_pure_step, simp add: turn_effect_untouched)
  apply (rule wp_pure_step, simp add: turn_effect_untouched)
  apply (rule wp_pure_step, simp add: turn_effect_untouched)
  subgoal for _ project t1 _ t2 c t sid _ c1
    apply (rule turn_effect_base [of t], simp)
    apply (rule wp_open [where c = c], (use assms in \<open>simp add: durable_def\<close>), assumption+)
    using ready_session_Inr [of E c sid] 
     apply (auto simp: turn_effect_def) []
    apply (rule wp_model_finish) apply assumption+
    done
  done

section \<open>Opening a turn\<close>

text \<open>What the opening of an agent turn, an action turn or a loop leaves behind.\<close>

definition opened ::
    "project_id \<times> conversation_id \<Rightarrow> rstring \<Rightarrow> 'x core \<Rightarrow> persisted_conversation result \<Rightarrow> 'x core \<Rightarrow> bool" where
  "opened k prompt s r t \<longleftrightarrow>
     (case r of
        Inl e \<Rightarrow> durable t = durable s
          \<or> (\<exists>c. conversation_view (co_store s) k = Some c \<and> \<not> cv_turn_pending c
               \<and> stored_at k (asked c prompt) s t \<and> storage_error e)
      | Inr c' \<Rightarrow> \<exists>c. conversation_view (co_store s) k = Some c \<and> \<not> cv_turn_pending c
          \<and> c' = asked c prompt \<and> stored_at k c' s t)"

lemma opened_untouched: "durable t = durable s \<Longrightarrow> opened k prompt s (Inl e) t"
  by (simp add: opened_def)

lemma opened_frame [simp]:
  "opened k prompt (s\<lparr>co_active := a\<rparr>) r t = opened k prompt s r t"
  "opened k prompt s r (drop_permit pid t) = opened k prompt s r t"
  by (simp_all add: opened_def cong: sum.case_cong)

lemma opened_base:
  assumes "durable s' = durable s" and "wp m (\<lambda>r t. opened k prompt s' (f r) t) u"
  shows "wp m (\<lambda>r t. opened k prompt s (f r) t) u"
proof -
  have view: "conversation_view (co_store s') = conversation_view (co_store s)"
    "project_view (co_store s') = project_view (co_store s)"
    using assms(1) unfolding durable_def by simp_all
  have "opened k prompt s' r t = opened k prompt s r t" for r t
    unfolding opened_def stored_at_def view assms(1) ..
  with assms(2) show ?thesis by simp
qed

lemma wp_open_agent_turn:
  fixes s :: "'x core"
  assumes "store_inv (co_store s)"
  shows "wp (open_agent_turn E pid cid prompt)
    (\<lambda>r t. opened (pid, cid) prompt s (map_sum id (\<lambda>(project, sid, c). c) r) t) s"
  unfolding open_agent_turn_def
  apply (rule wp_permit, simp add: opened_untouched)
  apply (simp only: opened_frame)
  apply (rule wp_quiet_step [OF keeps_on_world(4)], simp add: opened_untouched)
  apply (rule wp_load_step, simp add: opened_untouched)
  apply (rule wp_pure_step, simp add: opened_untouched)
  apply (rule wp_quiet_step [OF keeps_on_world(4)], simp add: opened_untouched)
  apply (rule wp_pure_step, simp add: opened_untouched)
  subgoal for project t1 c t2 sid _ t c1
    apply (rule opened_base [of t], simp)
    apply (rule wp_open [where c = c and k = "(pid, cid)"])
         apply (use assms in \<open>simp add: durable_def\<close>)
        apply (simp add: durable_def)
       apply assumption+
    using ready_session_Inr [of E c sid]
     apply (auto simp: opened_def durable_def) []
    using ready_session_Inr [of E c sid]
    apply (auto simp: opened_def durable_def wp_simps) []
    done
  done

lemma wp_opened_any:
  fixes s :: "'x core"
  assumes "wp m (\<lambda>r t. opened k prompt s (map_sum id g r) t) s"
    and "\<And>e t. turn_effect storage_error k prompt s (Inl e) t \<Longrightarrow> Q (Inl e) t"
    and "\<And>x c t. conversation_view (co_store s) k = Some c \<Longrightarrow> \<not> cv_turn_pending c \<Longrightarrow> g x = asked c prompt
      \<Longrightarrow> stored_at k (asked c prompt) s t \<Longrightarrow> wp (f x) Q t"
  shows "wp (sbind m f) Q s"
proof (rule wp_step [OF assms(1)])
  fix e t
  assume "opened k prompt s (map_sum id g (Inl e)) t"
  then show "Q (Inl e) t" using assms(2) [of e t] by (auto simp: opened_def turn_effect_def)
next
  fix x t
  assume "opened k prompt s (map_sum id g (Inr x)) t"
  then show "wp (f x) Q t" using assms(3) by (auto simp: opened_def)
qed

lemma turn_effect_error:
  "turn_effect storage_error k prompt s (Inl e) t \<Longrightarrow> (storage_error e \<Longrightarrow> bad e)
     \<Longrightarrow> turn_effect bad k prompt s (Inl e) t"
  by (auto simp: turn_effect_def)

lemma wp_opened_step:
  fixes s :: "'x core"
  assumes "wp m (\<lambda>r t. opened k prompt s (map_sum id g r) t) s"
    and "\<And>e. storage_error e \<Longrightarrow> bad e"
    and "\<And>x c t. conversation_view (co_store s) k = Some c \<Longrightarrow> \<not> cv_turn_pending c \<Longrightarrow> g x = asked c prompt
      \<Longrightarrow> stored_at k (asked c prompt) s t
      \<Longrightarrow> wp (f x) (\<lambda>r t. turn_effect bad k prompt s (map_sum id h r) t) t"
  shows "wp (sbind m f) (\<lambda>r t. turn_effect bad k prompt s (map_sum id h r) t) s"
  by (rule wp_opened_any [OF assms(1)]) (simp_all add: turn_effect_error assms(2,3))

lemma asked_cleared:
  "(asked c prompt)\<lparr>cv_turn_pending := False\<rparr> = (withdrawn c prompt)\<lparr>cv_revision := cv_revision c + 1\<rparr>"
  "cv_revision (asked c prompt) = cv_revision c + 1"
  by (simp_all add: withdrawn_def asked_def)

text \<open>A failed turn withdraws its marker.\<close>

lemma wp_withdraw:
  assumes c: "conversation_view (co_store s) k = Some c" "\<not> cv_turn_pending c"
    and t: "stored_at k (asked c prompt) s t" and e': "storage_error e'" and bad: "\<And>e. storage_error e \<Longrightarrow> bad e"
  shows "wp (stry (on_store (\<lambda>d. update_conversation d (cv_revision (asked c prompt))
        ((asked c prompt)\<lparr>cv_turn_pending := False\<rparr>)))
      (\<lambda>stored. if is_ok stored then sfail e else sfail e'))
    (\<lambda>r t. turn_effect bad k prompt s (map_sum id h r) t) t"
proof -
  have "ok_conversation (withdrawn c prompt)"
    using ok_withdrawn view_valid_conversation stored_atD(2) [OF t] by blast
  then show ?thesis unfolding asked_cleared
    by (intro wp_try [OF wp_settle [OF c(1) t, of "withdrawn c prompt" prompt]])
      (use e' c bad [OF e'] in \<open>auto simp: wp_simps turn_effect_def is_ok_def\<close>)
qed

section \<open>The agent turn\<close>

definition spoken :: "task_outcome \<Rightarrow> rstring option" where
  "spoken outcome = (if tr_text (to_turn outcome) = [] then None else Some (tr_text (to_turn outcome)))"

lemma wp_agent_answer:
  assumes c: "conversation_view (co_store s) k = Some c" "\<not> cv_turn_pending c"
    and t: "stored_at k (asked c prompt) s t"
  shows "wp (sbind (slift (if tr_text (to_turn outcome) = [] then Inr ((asked c prompt)\<lparr>cv_turn_pending := False\<rparr>)
          else append_message ((asked c prompt)\<lparr>cv_turn_pending := False\<rparr>) RoleAssistant
            (tr_text (to_turn outcome))))
      (\<lambda>c'. sbind (on_store (\<lambda>d. update_conversation d (cv_revision (asked c prompt)) c'))
      (\<lambda>_. sreturn outcome)))
    (\<lambda>r t. turn_effect storage_error k prompt s (map_sum id spoken r) t) t"
proof (rule wp_pure_step)
  let ?text = "tr_text (to_turn outcome)"
  fix e
  assume "(if ?text = [] then Inr ((asked c prompt)\<lparr>cv_turn_pending := False\<rparr>)
    else append_message ((asked c prompt)\<lparr>cv_turn_pending := False\<rparr>) RoleAssistant ?text) = Inl e"
  then have "storage_error e" by (auto simp: append_message_def split: if_splits)
  then show "turn_effect storage_error k prompt s (map_sum id spoken (Inl e)) t"
    using t c by (auto simp: turn_effect_def)
next
  let ?text = "tr_text (to_turn outcome)"
  have ok: "ok_conversation (asked c prompt)" using view_valid_conversation stored_atD(2) [OF t] by blast
  fix c'
  assume a: "(if ?text = [] then Inr ((asked c prompt)\<lparr>cv_turn_pending := False\<rparr>)
    else append_message ((asked c prompt)\<lparr>cv_turn_pending := False\<rparr>) RoleAssistant ?text) = Inr c'"
  define v where "v = (if ?text = [] then withdrawn c prompt else answered c prompt ?text)"
  have v: "c' = v\<lparr>cv_revision := cv_revision c + 1\<rparr>" "ok_conversation v"
    using a ok_withdrawn [OF ok] ok_answered [OF ok, of ?text c'] asked_cleared(1) [of c prompt]
    by (simp_all add: v_def split: if_splits)
  show "wp (sbind (on_store (\<lambda>d. update_conversation d (cv_revision (asked c prompt)) c'))
      (\<lambda>_. sreturn outcome)) (\<lambda>r t. turn_effect storage_error k prompt s (map_sum id spoken r) t) t"
    unfolding v(1) asked_cleared(2)
    by (rule wp_step [OF wp_settle [OF c(1) t, of v prompt ?text]])
      (use v(2) c in \<open>auto simp: wp_simps turn_effect_def spoken_def v_def split: if_splits\<close>)
qed

lemma wp_agent_turn:
  fixes s :: "'x core"
  assumes "store_inv (co_store s)"
  shows "wp (run_persisted_conversation_turn E fresh pid cid credential policy prompt)
    (\<lambda>r t. turn_effect storage_error (pid, cid) prompt s (map_sum id spoken r) t) s"
proof (cases "trim prompt = []")
  case False
  have rest: "wp (stry (run_backend_task E fresh project sid credential policy prompt) f)
      (\<lambda>r t. turn_effect storage_error (pid, cid) prompt s (map_sum id spoken r) t) t"
    if "stored_at (pid, cid) (asked c prompt) s t"
      and "\<And>r u. stored_at (pid, cid) (asked c prompt) s u \<Longrightarrow>
        wp (f r) (\<lambda>r t. turn_effect storage_error (pid, cid) prompt s (map_sum id spoken r) t) u"
    for project sid c and t :: "'x core" and f
    using that by (intro wp_quiet_try [OF keeps_run_backend_task(2)]) (simp add: stored_at_def)
  show ?thesis unfolding run_persisted_conversation_turn_def if_not_P [OF False]
    apply (rule wp_pure_step, simp add: turn_effect_untouched)
    apply (rule wp_opened_step [OF wp_open_agent_turn [OF assms]], assumption)
    subgoal for _ x c t
      by (cases x, simp only: prod.case Let_def, rule rest [of c], assumption)
        (auto intro!: wp_sum wp_prod wp_withdraw wp_agent_answer split del: if_split)
    done
qed (simp add: run_persisted_conversation_turn_def wp_simps turn_effect_untouched)

section \<open>Recovery\<close>

definition recovery_error :: "vibecoder_error \<Rightarrow> bool" where
  "recovery_error e \<longleftrightarrow> storage_error e \<or> (\<exists>code. e = Checkpoint code)"

lemma recovery_error_simps [simp]: "recovery_error (Persistence code)" "recovery_error (Checkpoint code)"
  "storage_error e \<Longrightarrow> recovery_error e"
  by (simp_all add: recovery_error_def)

text \<open>A failed action restores the workspace, then clears the marker, then drops the checkpoints.\<close>

lemma wp_recovery:
  assumes c: "conversation_view (co_store s) k = Some c" "\<not> cv_turn_pending c"
    and ok: "ok_conversation (asked c prompt)" and u: "stored_at k v s u"
    and v: "v = asked c prompt \<or> v = answered c prompt a"
    and quiet: "keeps durable rollback" "keeps durable A" "keeps durable B"
    and errors: "recovery_error x" "recovery_error y"
  shows "wp (sbind (smap_err x rollback)
      (\<lambda>_. sbind (smap_err y (on_store (\<lambda>d. update_conversation d (cv_revision (asked c prompt))
          ((asked c prompt)\<lparr>cv_turn_pending := False\<rparr>))))
      (\<lambda>_. sbind A (\<lambda>_. B))))
    (\<lambda>r t. stored_at k (withdrawn c prompt) s t \<or> stored_at k v s t \<and> (\<exists>e. r = Inl e \<and> recovery_error e)) u"
    (is "wp _ ?Q u")
proof -
  have settled: "wp (sbind (smap_err y (on_store (\<lambda>d. update_conversation d (cv_revision c + 1)
        ((withdrawn c prompt)\<lparr>cv_revision := cv_revision c + 1\<rparr>)))) (\<lambda>_. sbind A (\<lambda>_. B))) ?Q t"
    if t: "stored_at k v s t" for t
  proof (rule wp_step)
    let ?P = "\<lambda>r t. stored_at k (withdrawn c prompt) s t \<or> stored_at k v s t \<and> r = Inl y"
    show "wp (smap_err y (on_store (\<lambda>d. update_conversation d (cv_revision c + 1)
        ((withdrawn c prompt)\<lparr>cv_revision := cv_revision c + 1\<rparr>)))) ?P t"
      unfolding wp_smap_err
      by (rule wp_mono [OF wp_settle [OF c(1) t, of "withdrawn c prompt" prompt]])
        (use ok_withdrawn [OF ok] in auto)
  next
    fix b t
    assume "stored_at k (withdrawn c prompt) s t \<or> stored_at k v s t \<and> Inr b = Inl y"
    then have "stored_at k (withdrawn c prompt) s t" by simp
    then show "wp (sbind A (\<lambda>_. B)) ?Q t"
      by (intro wp_quiet [OF keeps_sbind [OF quiet(2,3)]]) (simp add: stored_at_def)
  qed (use errors(2) in auto)
  have rb: "keeps durable (smap_err x rollback)" using quiet(1) by (rule keeps_smap_err)
  show ?thesis unfolding asked_cleared
  proof (rule wp_step)
    show "wp (smap_err x rollback) (\<lambda>r t. stored_at k v s t \<and> (\<forall>e. r = Inl e \<longrightarrow> e = x)) u"
    proof (rule wpI)
      fix r t
      assume m: "smap_err x rollback u = (r, t)"
      then show "stored_at k v s t \<and> (\<forall>e. r = Inl e \<longrightarrow> e = x)"
        using keepsD [OF rb m] u by (auto simp: stored_at_def smap_err_def split: prod.splits sum.splits)
    qed
  qed (use errors(1) settled in auto)
qed

lemma keeps_drop_checkpoints:
  "keeps durable (case post of None \<Rightarrow> sreturn ()
     | Some cp \<Rightarrow> stry (remove_project_checkpoint E pid cp) (\<lambda>_. sreturn ()))"
  "keeps durable (stry (remove_project_checkpoint E pid pre) (\<lambda>_. sreturn ()))"
  by (intro keeps_intros)+

lemma wp_fail_action:
  assumes c: "conversation_view (co_store s) k = Some c" "\<not> cv_turn_pending c"
    and ok: "ok_conversation (asked c prompt)"
    and u: "stored_at k (asked c prompt) s u \<or> stored_at k (answered c prompt a) s u"
  shows "wp (fail_action E project (asked c prompt) checkpoint post e)
    (\<lambda>r t. turn_effect recovery_error k prompt s (map_sum id h r) t) u"
proof -
  obtain v where v: "stored_at k v s u" "v = asked c prompt \<or> v = answered c prompt a" using u by blast
  show ?thesis
    unfolding fail_action_def recover_failed_persisted_agent_action_def
  proof (rule wp_step, rule wp_pure_step)
    fix x
    assume "ok_or (cv_agent_session (asked c prompt))
      (Persistence ''conversation_agent_action_recovery_session_missing'') = Inl x"
    then have "recovery_error x" by (auto simp: ok_or_def split: option.splits)
    then show "stored_at k (withdrawn c prompt) s u \<or> stored_at k v s u \<and> (\<exists>e. Inl x = Inl e \<and> recovery_error e)"
      using v by blast
  next
    fix session
    show "wp (sbind (smap_err (Checkpoint ''conversation_agent_action_rollback_failed_pending_preserved'')
          (rollback_project_checkpoint_for_pending_conversation E project (ck_checkpoint_id checkpoint)
             (cv_conversation_id (asked c prompt)) (as_session_id session)))
      (\<lambda>_. sbind (smap_err
          (Persistence ''conversation_agent_action_failure_cleanup_failed_pending_preserved'')
          (on_store (\<lambda>d. update_conversation d (cv_revision (asked c prompt))
            ((asked c prompt)\<lparr>cv_turn_pending := False\<rparr>))))
      (\<lambda>_. sbind (case map_option ck_checkpoint_id post of None \<Rightarrow> sreturn ()
          | Some cp \<Rightarrow> stry (remove_project_checkpoint E (pr_id project) cp) (\<lambda>_. sreturn ()))
      (\<lambda>_. stry (remove_project_checkpoint E (pr_id project) (ck_checkpoint_id checkpoint))
        (\<lambda>_. sreturn ())))))
      (\<lambda>r t. stored_at k (withdrawn c prompt) s t \<or> stored_at k v s t \<and> (\<exists>e. r = Inl e \<and> recovery_error e)) u"
      by (rule wp_recovery [OF c ok v keeps_rollbacks(4) keeps_drop_checkpoints]) simp_all
  qed (use c v in \<open>auto simp: wp_simps turn_effect_def\<close>)
qed

section \<open>The action turn\<close>

lemma wp_open_action_turn:
  fixes s :: "'x core"
  assumes "store_inv (co_store s)"
  shows "wp (open_action_turn E pid cid prompt)
    (\<lambda>r t. opened (pid, cid) prompt s (map_sum id (\<lambda>(project, sid, c, checkpoint). c) r) t) s"
  unfolding open_action_turn_def
  apply (rule wp_permit, simp add: opened_untouched)
  apply (simp only: opened_frame)
  apply (rule wp_quiet_step [OF keeps_on_world(4)], simp add: opened_untouched)
  apply (rule wp_quiet_step [OF keeps_on_world(4)], simp add: opened_untouched)
  apply (rule wp_load_step, simp add: opened_untouched)
  apply (rule wp_pure_step, simp add: opened_untouched)
  apply (rule wp_pure_step, simp add: opened_untouched)
  apply (rule wp_quiet_step [OF keeps_on_world(4)], simp add: opened_untouched)
  apply (rule wp_quiet_step [OF keeps_guards(2)], simp add: opened_untouched)
  apply (rule wp_quiet_step [OF keeps_on_world(4)], simp add: opened_untouched)
  apply (rule wp_pure_step, simp add: opened_untouched)
  apply (rule wp_quiet_step [OF keeps_on_world(4)], simp add: opened_untouched)
  apply (rule wp_pure_step, simp add: opened_untouched)
  subgoal premises p for project t1 _ t2 c t3 sid _ _ t4 _ t5 _ t6 store checkpoint t c1
  proof (rule opened_base [of t])
    have d: "durable t = durable s" using p by simp
    then show "durable t = durable s" .
    have inv: "store_inv (co_store t)" "conversation_view (co_store t) (pid, cid) = Some c"
      using p assms d by (simp_all add: durable_def)
    note ready = ready_session_Inr [OF p(6)]
    show "wp (stry (on_store (\<lambda>d. update_conversation d (cv_revision c1) (c1\<lparr>cv_turn_pending := True\<rparr>)))
        (\<lambda>stored. case stored of
           Inr c2 \<Rightarrow> sreturn (project, sid, c2, checkpoint)
         | Inl e \<Rightarrow>
             stry (on_world (ko_remove store (pr_id project) (ck_checkpoint_id checkpoint)))
               (\<lambda>_. sfail e)))
      (\<lambda>r u. opened (pid, cid) prompt t (map_sum id (\<lambda>(project, sid, c, checkpoint). c) r) u) t"
      by (rule wp_try [OF wp_ask [OF inv]])
        (use p ready inv in \<open>auto simp: wp_simps opened_def stored_at_def
          intro!: wp_quiet [OF keeps_on_world(4)]\<close>)
  qed
  done

lemma wp_commit_action:
  assumes c: "conversation_view (co_store s) k = Some c" "\<not> cv_turn_pending c"
    and ok: "ok_conversation (asked c prompt)" and u: "stored_at k (asked c prompt) s u"
  shows "wp (commit_action E project (asked c prompt) checkpoint post outcome counts)
    (\<lambda>r t. turn_effect recovery_error k prompt s
       (map_sum id (\<lambda>out. Some (tr_text (to_turn (at_backend out)))) r) t) u"
  unfolding commit_action_def wp_stry wp_slift
  apply (rule wp_sum)
  subgoal for e using wp_fail_action [OF c ok] u by blast
  subgoal premises a for c'
    unfolding ok_answered(2) [OF ok a] asked_cleared(2)
    by (rule wp_try [OF wp_settle [OF c(1) u, of "answered c prompt (tr_text (to_turn outcome))"
            prompt "tr_text (to_turn outcome)"]])
      (use ok_answered(1) [OF ok a] c in \<open>auto simp: wp_simps turn_effect_def stored_at_def
        intro!: wp_fail_action [OF c ok, of _ "tr_text (to_turn outcome)", unfolded stored_at_def]
          wp_quiet [OF keeps_checkpoint_ops(4)]\<close>)
  done

lemma keeps_preconditions [keeps_intros]:
  "keeps durable (action_preconditions E)" "keeps durable (loop_preconditions E)"
  unfolding action_preconditions_def loop_preconditions_def by (intro keeps_intros)+

lemma wp_action_turn:
  fixes s :: "'x core"
  assumes inv: "store_inv (co_store s)"
  shows "wp (run_persisted_agent_action_turn E fresh pid cid credential policy prompt)
    (\<lambda>r t. turn_effect recovery_error (pid, cid) prompt s
       (map_sum id (\<lambda>out. Some (tr_text (to_turn (at_backend out)))) r) t) s"
  unfolding run_persisted_agent_action_turn_def
  apply (rule wp_pure_step, simp add: turn_effect_untouched)
  apply (rule wp_quiet_step [OF keeps_preconditions(1)], simp add: turn_effect_untouched)
  apply (rule wp_pure_step, simp add: turn_effect_untouched)
  apply (rule turn_effect_base, assumption)
  apply (rule wp_opened_step [OF wp_open_action_turn], (use inv in \<open>simp add: durable_def\<close>), simp)
  subgoal premises p for _ _ s1 _ x c t
  proof -
    obtain project sid checkpoint where x: "x = (project, sid, asked c prompt, checkpoint)"
      using p(6) by (cases x) auto
    have ok: "ok_conversation (asked c prompt)" using view_valid_conversation stored_atD(2) [OF p(7)] by blast
    have at: "stored_at (pid, cid) (asked c prompt) s1 u" if "durable u = durable t" for u
      using p(7) that by (simp add: stored_at_def)
    note fail = wp_fail_action [OF p(4,5) ok, OF disjI1] and commit = wp_commit_action [OF p(4,5) ok]
    show ?thesis unfolding x prod.case
      by (auto intro!: wp_quiet_try [OF keeps_run_backend_task(2)] wp_quiet_try [OF keeps_checkpoint_ops(2)]
          wp_sum wp_prod fail commit at)
  qed
  done

section \<open>The explicit loop\<close>

text \<open>What one iteration leaves behind: the stage asked when the loop goes on, and the answer stored when
  it is done.\<close>

definition loop_effect ::
    "project_id \<times> conversation_id \<Rightarrow> rstring \<Rightarrow> persisted_conversation \<Rightarrow> 'x core
      \<Rightarrow> loop_step result \<Rightarrow> 'x core \<Rightarrow> bool" where
  "loop_effect k prompt c s r t \<longleftrightarrow>
     (case r of
        Inr (LoopNext n) \<Rightarrow> stored_at k (asked c prompt) s t
      | Inr (LoopDone out) \<Rightarrow> stored_at k (answered c prompt (lo_assistant_text out)) s t
      | Inl e \<Rightarrow> stored_at k (withdrawn c prompt) s t
          \<or> recovery_error e \<and> (stored_at k (asked c prompt) s t \<or> (\<exists>a. stored_at k (answered c prompt a) s t)))"

lemma wp_fail_loop:
  assumes c: "conversation_view (co_store s) k = Some c" "\<not> cv_turn_pending c"
    and ok: "ok_conversation (asked c prompt)" and ctx: "lc_conversation x = asked c prompt"
    and u: "stored_at k (asked c prompt) s u \<or> stored_at k (answered c prompt a) s u"
  shows "wp (fail_loop E x verification e) (loop_effect k prompt c s) u"
proof -
  obtain v where v: "stored_at k v s u" "v = asked c prompt \<or> v = answered c prompt a" using u by blast
  note recovery = wp_recovery [OF c ok v keeps_rollbacks(4) keeps_drop_checkpoints]
  show ?thesis
    unfolding fail_loop_def recover_failed_persisted_explicit_agent_loop_def Let_def ctx
    by (rule wp_step [OF recovery]) (use v in \<open>auto simp: wp_simps loop_effect_def\<close>)
qed

lemma append_message_error: "append_message c role t = Inl e \<Longrightarrow> storage_error e"
  by (auto simp: append_message_def split: if_splits)

lemma wp_finish_loop:
  assumes c: "conversation_view (co_store s) k = Some c" "\<not> cv_turn_pending c"
    and ok: "ok_conversation (asked c prompt)" and ctx: "lc_conversation x = asked c prompt"
    and u: "stored_at k (asked c prompt) s u" and reason: "reason \<noteq> EL_Completed"
  shows "wp (finish_persisted_explicit_agent_loop_non_success E x verification reason n)
    (loop_effect k prompt c s) u"
proof -
  let ?answer = "explicit_agent_loop_stop_message reason"
  have rb: "wp (smap_err e (rollback_project_checkpoint_for_pending_conversation E p b cid sid))
      (\<lambda>r t. stored_at k (asked c prompt) s t \<and> (\<forall>e'. r = Inl e' \<longrightarrow> e' = e)) u" for e p b cid sid
  proof (rule wpI)
    fix r t
    assume m: "smap_err e (rollback_project_checkpoint_for_pending_conversation E p b cid sid) u = (r, t)"
    then show "stored_at k (asked c prompt) s t \<and> (\<forall>e'. r = Inl e' \<longrightarrow> e' = e)"
      using keepsD [OF keeps_smap_err [OF keeps_rollbacks(4)] m] u
      by (auto simp: stored_at_def smap_err_def split: prod.splits sum.splits)
  qed
  show ?thesis
    unfolding finish_persisted_explicit_agent_loop_non_success_def Let_def ctx if_not_P [OF reason]
    apply (rule wp_step [OF rb], simp add: loop_effect_def)
    apply (rule wp_pure_step)
    subgoal for _ t e using append_message_error [of _ RoleAssistant ?answer e] by (simp add: loop_effect_def)
    subgoal premises p for _ t c'
    proof (unfold ok_answered(2) [OF ok p(2)] asked_cleared(2) wp_sbind wp_smap_err,
        rule wp_mono [OF wp_settle [OF c(1), where c' = "answered c prompt ?answer" and prompt = prompt
            and a = ?answer and v = "asked c prompt"]])
      show "stored_at k (asked c prompt) s t" using p(1) by simp
      show "ok_conversation (answered c prompt ?answer)" using ok_answered(1) [OF ok p(2)] .
    qed (auto simp: wp_simps loop_effect_def stored_at_def split: option.split
        intro!: wp_quiet [OF keeps_checkpoint_ops(4)])
    done
qed

lemma wp_complete_loop:
  assumes c: "conversation_view (co_store s) k = Some c" "\<not> cv_turn_pending c"
    and ok: "ok_conversation (asked c prompt)" and ctx: "lc_conversation x = asked c prompt"
    and u: "stored_at k (asked c prompt) s u"
  shows "wp (complete_loop E x verification body n) (loop_effect k prompt c s) u"
  unfolding complete_loop_def Let_def ctx wp_stry wp_slift
  apply (rule wp_sum)
  subgoal for e using wp_fail_loop [OF c ok ctx] u by blast
  subgoal premises a for c'
    unfolding ok_answered(2) [OF ok a] asked_cleared(2)
    by (rule wp_try [OF wp_settle [OF c(1) u, of "answered c prompt body" prompt body]])
      (use ok_answered(1) [OF ok a] in \<open>auto simp: wp_simps stored_at_def loop_effect_def
        intro!: wp_fail_loop [OF c ok ctx, of _ body, unfolded stored_at_def]
          wp_quiet [OF keeps_checkpoint_ops(4)]\<close>)
  done

lemma wp_continue_loop:
  assumes c: "conversation_view (co_store s) k = Some c" "\<not> cv_turn_pending c"
    and ok: "ok_conversation (asked c prompt)" and ctx: "lc_conversation x = asked c prompt"
    and u: "stored_at k (asked c prompt) s u"
  shows "wp (continue_loop E x i verification m n) (loop_effect k prompt c s) u"
proof -
  have at: "stored_at k (asked c prompt) s t" if "durable t = durable u" for t
    using u that by (simp add: stored_at_def)
  show ?thesis unfolding continue_loop_def Let_def
    by (auto intro!: wp_fail_loop [OF c ok ctx] wp_finish_loop [OF c ok ctx]
        wp_quiet [OF keeps_checkpoint_ops(4)] at u simp: wp_simps loop_effect_def)
qed

lemma wp_loop_iteration:
  assumes c: "conversation_view (co_store s) k = Some c" "\<not> cv_turn_pending c"
    and ok: "ok_conversation (asked c prompt)" and ctx: "lc_conversation x = asked c prompt"
    and u: "stored_at k (asked c prompt) s u"
  shows "wp (loop_iteration E fresh cancelled x credential policy body i n) (loop_effect k prompt c s) u"
proof -
  have at: "stored_at k (asked c prompt) s t" if "durable t = durable u" for t
    using u that by (simp add: stored_at_def)
  have at2: "stored_at k (asked c prompt) s t" if "durable t = durable v" "durable v = durable u" for t v
    using at that by simp
  note ends = wp_fail_loop [OF c ok ctx] wp_finish_loop [OF c ok ctx] wp_continue_loop [OF c ok ctx]
    wp_complete_loop [OF c ok ctx]
  show ?thesis unfolding loop_iteration_def judge_iteration_def Let_def
    by (auto intro!: wp_sum wp_prod wp_quiet_try [OF keeps_run_backend_task(2)]
        wp_quiet_try [OF keeps_checkpoint_ops(2)] ends at u dest: at2
        split: explicit_loop_decision.split)
qed

subsection \<open>Outcomes\<close>

text \<open>What a finished loop reports, and the counters it goes on with.\<close>

definition sound_outcome :: "explicit_loop_policy \<Rightarrow> checkpoint_metadata \<Rightarrow> explicit_loop_outcome \<Rightarrow> bool" where
  "sound_outcome p baseline out \<longleftrightarrow>
     lo_workspace_committed out = (lo_stop_reason out = EL_Completed)
     \<and> lo_rollback_performed out = (lo_stop_reason out \<noteq> EL_Completed)
     \<and> lo_baseline_tree_sha256 out = ck_tree_sha256 baseline
     \<and> (lo_stop_reason out \<noteq> EL_Completed \<longrightarrow>
          lo_final_tree_sha256 out = ck_tree_sha256 baseline
          \<and> lo_assistant_text out = explicit_agent_loop_stop_message (lo_stop_reason out))
     \<and> lo_turns_completed out \<le> el_max_turns p
     \<and> (lo_stop_reason out \<noteq> EL_ToolBudgetExhausted \<longrightarrow> lo_total_tool_calls out \<le> el_max_total_tool_calls p)"

definition sound_counters :: "explicit_loop_policy \<Rightarrow> u8 \<Rightarrow> loop_counters \<Rightarrow> bool" where
  "sound_counters p i n \<longleftrightarrow>
     unat (lk_turns_completed n) < unat i \<and> lk_total_tool_calls n \<le> el_max_total_tool_calls p"

definition sound_step :: "explicit_loop_policy \<Rightarrow> checkpoint_metadata \<Rightarrow> u8 \<Rightarrow> loop_step result \<Rightarrow> bool" where
  "sound_step p baseline i r \<longleftrightarrow>
     (case r of
        Inr (LoopDone out) \<Rightarrow> sound_outcome p baseline out
      | Inr (LoopNext n) \<Rightarrow> i \<noteq> el_max_turns p \<and> unat (lk_turns_completed n) \<le> unat i
          \<and> lk_total_tool_calls n \<le> el_max_total_tool_calls p
      | Inl e \<Rightarrow> True)"

lemma sound_step_simps [simp]:
  "sound_step p b i (Inl e)" "sound_step p b i (Inr (LoopDone out)) = sound_outcome p b out"
  "sound_step p b i (Inr (LoopNext n)) \<longleftrightarrow> i \<noteq> el_max_turns p \<and> unat (lk_turns_completed n) \<le> unat i
     \<and> lk_total_tool_calls n \<le> el_max_total_tool_calls p"
  by (simp_all add: sound_step_def)

lemma wp_any: "(\<And>r t. Q r t) \<Longrightarrow> wp m Q s"
  by (rule wpI)

lemma wp_any_step: "(\<And>e t. Q (Inl e) t) \<Longrightarrow> (\<And>a t. wp (f a) Q t) \<Longrightarrow> wp (sbind m f) Q s"
  by (rule wp_step [OF wp_any, of "\<lambda>_ _. True"]) simp_all

lemma wp_any_try: "(\<And>r t. wp (f r) Q t) \<Longrightarrow> wp (stry m f) Q s"
  by (rule wp_try [OF wp_any, of "\<lambda>_ _. True"]) simp_all

lemma sound_fail: "wp (fail_loop E x v e) (\<lambda>r t. sound_step p b i r) s"
  unfolding fail_loop_def by (intro wp_any_step) (simp_all add: wp_simps)

lemma sound_finish:
  assumes "reason \<noteq> EL_Completed" and "lk_turns_completed n \<le> el_max_turns p"
    and "reason \<noteq> EL_ToolBudgetExhausted \<Longrightarrow> lk_total_tool_calls n \<le> el_max_total_tool_calls p"
  shows "wp (finish_persisted_explicit_agent_loop_non_success E x v reason n)
    (\<lambda>r t. sound_step p (lc_baseline x) i r) s"
  using assms unfolding finish_persisted_explicit_agent_loop_non_success_def Let_def if_not_P [OF assms(1)]
  by (intro wp_any_step wp_any_try) (simp_all add: wp_simps sound_outcome_def)

lemma sound_complete:
  assumes "lk_turns_completed n \<le> el_max_turns p" and "lk_total_tool_calls n \<le> el_max_total_tool_calls p"
  shows "wp (complete_loop E x v body n) (\<lambda>r t. sound_step p (lc_baseline x) i r) s"
  using assms unfolding complete_loop_def Let_def
  by (intro wp_any_try wp_sum sound_fail) (simp_all add: wp_simps sound_outcome_def wp_any)

lemma sound_continue:
  assumes "lk_turns_completed n \<le> el_max_turns p" and "lk_total_tool_calls n \<le> el_max_total_tool_calls p"
    and "unat (lk_turns_completed n) \<le> unat i" and "p = lc_policy x"
  shows "wp (continue_loop E x i v m n) (\<lambda>r t. sound_step p (lc_baseline x) i r) s"
  using assms unfolding continue_loop_def Let_def
  by (auto intro!: wp_any_try sound_fail sound_finish simp del: wp_stry simp: wp_sreturn)

lemma sound_iteration:
  assumes "sound_counters p i n" and "i \<le> el_max_turns p" and p: "p = lc_policy x"
  shows "wp (loop_iteration E fresh cancelled x credential policy body i n)
    (\<lambda>r t. sound_step p (lc_baseline x) i r) s"
proof -
  have less: "unat (lk_turns_completed n) < unat i" "unat i \<le> unat (el_max_turns p)"
    using assms(1,2) by (simp_all add: sound_counters_def word_le_nat_alt)
  moreover have "unat (sat_succ (lk_turns_completed n)) \<le> unat (lk_turns_completed n) + 1"
    unfolding sat_succ_unat by simp
  ultimately have turns: "unat (sat_succ (lk_turns_completed n)) \<le> unat i"
    "sat_succ (lk_turns_completed n) \<le> el_max_turns p" "lk_turns_completed n \<le> el_max_turns p"
    by (simp_all add: word_le_nat_alt)
  have tools: "lk_total_tool_calls n \<le> el_max_total_tool_calls p"
    using assms(1) by (simp add: sound_counters_def)
  show ?thesis unfolding loop_iteration_def judge_iteration_def Let_def
    by (auto intro!: wp_any_try wp_sum wp_prod sound_fail sound_finish sound_continue sound_complete
        simp del: wp_stry simp: turns [unfolded p] tools [unfolded p] p split: explicit_loop_decision.split)
qed

text \<open>The iterations that are left run up to the last one, which never asks for another.\<close>

lemma wp_loop_iterations:
  assumes c: "conversation_view (co_store s) k = Some c" "\<not> cv_turn_pending c"
    and ok: "ok_conversation (asked c prompt)" and ctx: "lc_conversation x = asked c prompt"
    and u: "stored_at k (asked c prompt) s u"
    and i: "0 < i" "i \<le> unat (el_max_turns (lc_policy x))"
    and n: "unat (lk_turns_completed n) < i"
      "lk_total_tool_calls n \<le> el_max_total_tool_calls (lc_policy x)"
  shows "wp (loop_iterations E fresh cancelled x credential policy body
      (map of_nat [i ..< unat (el_max_turns (lc_policy x)) + 1]) n)
    (\<lambda>r t. turn_effect recovery_error k prompt s (map_sum id (\<lambda>out. Some (lo_assistant_text out)) r) t
       \<and> (\<forall>out. r = Inr out \<longrightarrow> sound_outcome (lc_policy x) (lc_baseline x) out)) u"
  using u i n
proof (induction "unat (el_max_turns (lc_policy x)) - i" arbitrary: i n u)
  case (0 i n u)
  let ?p = "lc_policy x"
  have i: "i = unat (el_max_turns ?p)" using 0 by simp
  have one: "map of_nat [i ..< unat (el_max_turns ?p) + 1] = [el_max_turns ?p]" by (simp add: i)
  have "wp (loop_iteration E (fresh (unat (el_max_turns ?p))) (cancelled (unat (el_max_turns ?p))) x credential policy body
      (el_max_turns ?p) n) (\<lambda>r t. loop_effect k prompt c s r t \<and> sound_step ?p (lc_baseline x) (el_max_turns ?p) r) u"
    using 0 by (intro wp_conj wp_loop_iteration [OF c ok ctx] sound_iteration) (simp_all add: sound_counters_def i)
  then show ?case unfolding one loop_iterations.simps
    by (rule wp_step) (use c in \<open>auto simp: wp_simps loop_effect_def turn_effect_def split: loop_step.split\<close>)
next
  case (Suc d i n u)
  let ?p = "lc_policy x"
  have i: "i < unat (el_max_turns ?p)" using Suc by simp
  have small: "unat (of_nat i :: u8) = i"
    using order_less_trans [OF i unsigned_less] by (simp add: unsigned_of_nat take_bit_nat_eq_self)
  then have le: "(of_nat i :: u8) \<le> el_max_turns ?p" using i by (simp add: word_le_nat_alt)
  have cons: "map of_nat [i ..< unat (el_max_turns ?p) + 1]
      = (of_nat i :: u8) # map of_nat [Suc i ..< unat (el_max_turns ?p) + 1]"
    using i by (simp add: upt_conv_Cons)
  have "wp (loop_iteration E (fresh (unat (of_nat i :: u8))) (cancelled (unat (of_nat i :: u8))) x credential policy body
      (of_nat i) n) (\<lambda>r t. loop_effect k prompt c s r t \<and> sound_step ?p (lc_baseline x) (of_nat i) r) u"
    using Suc.prems le
    by (intro wp_conj wp_loop_iteration [OF c ok ctx] sound_iteration) (simp_all add: sound_counters_def small)
  then show ?case unfolding cons loop_iterations.simps
  proof (rule wp_step)
    fix step t
    assume s: "loop_effect k prompt c s (Inr step) t \<and> sound_step ?p (lc_baseline x) (of_nat i) (Inr step)"
    show "wp (case step of LoopDone outcome \<Rightarrow> sreturn outcome
        | LoopNext n' \<Rightarrow> loop_iterations E fresh cancelled x credential policy body
            (map of_nat [Suc i ..< unat (el_max_turns ?p) + 1]) n')
      (\<lambda>r t. turn_effect recovery_error k prompt s (map_sum id (\<lambda>out. Some (lo_assistant_text out)) r) t
         \<and> (\<forall>out. r = Inr out \<longrightarrow> sound_outcome ?p (lc_baseline x) out)) t"
    proof (cases step)
      case (LoopNext n')
      with s show ?thesis using Suc.hyps i by (auto simp: loop_effect_def small intro!: Suc.hyps(1))
    qed (use s c in \<open>auto simp: wp_simps loop_effect_def turn_effect_def\<close>)
  qed (use c in \<open>auto simp: loop_effect_def turn_effect_def\<close>)
qed

lemma wp_explicit_loop:
  fixes s :: "'x core"
  assumes inv: "store_inv (co_store s)" and policy: "explicit_loop_policy_validate (eg_policy guard) = Inr p"
  shows "wp (run_explicit_loop_body E fresh cancelled guard credential policy prompt)
    (\<lambda>r t. turn_effect recovery_error (eg_project_id guard, eg_conversation_id guard) prompt s
         (map_sum id (\<lambda>out. Some (lo_assistant_text out)) r) t
       \<and> (\<forall>out. r = Inr out \<longrightarrow> (\<exists>baseline. sound_outcome p baseline out))) s"
proof -
  have p: "eg_policy guard = p" "el_max_turns p \<noteq> 0"
    using policy by (auto simp: explicit_loop_policy_validate_def split: if_splits)
  then have "0 < unat (el_max_turns p)" by (metis unat_0_iff gr0I)
  note p = p(1) this
  let ?k = "(eg_project_id guard, eg_conversation_id guard)"
  let ?Q = "\<lambda>s r t. turn_effect recovery_error ?k prompt s (map_sum id (\<lambda>out. Some (lo_assistant_text out)) r) t
    \<and> (\<forall>out. r = Inr out \<longrightarrow> (\<exists>baseline. sound_outcome p baseline out))"
  have base: "wp m (?Q s) u" if "durable s' = durable s" "wp m (?Q s') u" for m u and s' :: "'x core"
    using that(2) unfolding turn_effect_same [OF that(1)] .
  show ?thesis
  proof (cases "cancelled 0 0")
    case False
    show ?thesis unfolding run_explicit_loop_body_def if_not_P [OF False]
      apply (rule wp_quiet_step [OF keeps_preconditions(2)], simp add: turn_effect_untouched)
      apply (rule wp_pure_step, simp add: turn_effect_untouched)
      apply (rule base, assumption)
      apply (rule wp_opened_any [OF wp_open_action_turn], (use inv in \<open>simp add: durable_def\<close>))
       apply (simp add: turn_effect_error)
      subgoal premises q for _ s1 _ x c t
      proof -
        obtain project sid checkpoint where x: "x = (project, sid, asked c prompt, checkpoint)"
          using q(5) by (cases x) auto
        have ok: "ok_conversation (asked c prompt)"
          using view_valid_conversation stored_atD(2) [OF q(6)] by blast
        let ?x = "\<lparr>lc_project = project, lc_session_id = sid, lc_conversation = asked c prompt,
          lc_baseline = checkpoint, lc_policy = eg_policy guard\<rparr>"
        note loop = wp_loop_iterations [OF q(3,4) ok, where x = ?x and i = 1, unfolded loop_context.simps]
        show ?thesis unfolding x prod.case loop_range_def
          by (rule wp_mono, rule loop) (use q(6) p in auto)
      qed
      done
  qed (simp add: run_explicit_loop_body_def wp_simps turn_effect_untouched)
qed

end
