(* ===== verification/Core_Requests.thy ===== *)
theory Core_Requests
  imports Turn_Protocol
begin

text \<open>
  Every public operation of the backend core as one step of a transition system. Each step keeps the
  state well formed: the stores and the command engine keep their invariants, the command policy never
  changes, no project's authorization epoch goes back, and every lifecycle permit taken is given back.
  A separate section shows what a backend task does to authority given out before it.
\<close>

section \<open>What every operation guarantees\<close>

definition core_rel :: "'x core \<Rightarrow> 'x core \<Rightarrow> bool" where
  "core_rel s t \<longleftrightarrow>
     co_active t = co_active s \<and> co_gate_poisoned t = co_gate_poisoned s
     \<and> (store_inv (co_store s) \<longrightarrow> store_inv (co_store t))
     \<and> (engine_inv (co_commands s) \<longrightarrow> engine_inv (co_commands t))
     \<and> es_config (co_commands t) = es_config (co_commands s)
     \<and> (\<forall>p. unat (project_epoch (co_commands s) p) \<le> unat (project_epoch (co_commands t) p))"

definition guar :: "('x core, 'e, 'a) eff \<Rightarrow> bool" where
  "guar m \<longleftrightarrow> (\<forall>s. core_rel s (snd (m s)))"

named_theorems guar_intros \<open>operations that meet the guarantee of the core\<close>

lemma core_rel_refl [simp]: "core_rel s s"
  by (simp add: core_rel_def)

lemma core_rel_trans: "core_rel s t \<Longrightarrow> core_rel t u \<Longrightarrow> core_rel s u"
  unfolding core_rel_def by (elim conjE, intro conjI allI) (simp_all, meson order_trans)

lemma core_rel_world [simp]: "core_rel s (t\<lparr>co_world := x\<rparr>) = core_rel s t"
  by (simp add: core_rel_def)

lemma guarD: "guar m \<Longrightarrow> m s = (r, t) \<Longrightarrow> core_rel s t"
  by (metis guar_def snd_conv)

lemma guarI:
  assumes "\<And>s r t. m s = (r, t) \<Longrightarrow> core_rel s t"
  shows "guar m"
  unfolding guar_def
proof
  fix s
  show "core_rel s (snd (m s))" using assms [of s "fst (m s)" "snd (m s)"] by simp
qed

lemma guar_slift [guar_intros]: "guar (slift r)" "guar (sreturn a)" "guar (sfail e)"
  by (simp_all add: guar_def slift_def sreturn_def sfail_def)

lemma guar_sbind [guar_intros]:
  assumes "guar m" and "\<And>a. guar (f a)"
  shows "guar (sbind m f)"
proof (rule guarI)
  fix s r t
  assume b: "sbind m f s = (r, t)"
  obtain q u where m: "m s = (q, u)" by fastforce
  have su: "core_rel s u" using guarD [OF assms(1) m] .
  show "core_rel s t"
  proof (cases q)
    case (Inl e)
    then show ?thesis using b m su by (simp add: sbind_def)
  next
    case (Inr a)
    then have "f a u = (r, t)" using b m by (simp add: sbind_def)
    then show ?thesis using core_rel_trans [OF su] guarD [OF assms(2)] by blast
  qed
qed

lemma guar_stry [guar_intros]:
  assumes "guar m" and "\<And>r. guar (f r)"
  shows "guar (stry m f)"
proof (rule guarI)
  fix s r t
  assume b: "stry m f s = (r, t)"
  obtain q u where m: "m s = (q, u)" by fastforce
  then have "f q u = (r, t)" using b by (simp add: stry_def)
  then show "core_rel s t" using core_rel_trans [OF guarD [OF assms(1) m]] guarD [OF assms(2)] by blast
qed

lemma guar_smap_err [guar_intros]: "guar m \<Longrightarrow> guar (smap_err e m)"
  by (auto simp: guar_def smap_err_def split: prod.split sum.split) (metis snd_conv)+

lemma guar_seach [guar_intros]: "(\<And>x. guar (f x)) \<Longrightarrow> guar (seach f xs)"
  by (induction xs) (auto intro: guar_intros)

lemma guar_branches [guar_intros]:
  "guar m \<Longrightarrow> guar n \<Longrightarrow> guar (if b then m else n)"
  "(\<And>e. guar (f e)) \<Longrightarrow> (\<And>a. guar (g a)) \<Longrightarrow> guar (case r of Inl e \<Rightarrow> f e | Inr a \<Rightarrow> g a)"
  "guar m \<Longrightarrow> (\<And>a. guar (g a)) \<Longrightarrow> guar (case x of None \<Rightarrow> m | Some a \<Rightarrow> g a)"
  "(\<And>a b. guar (h a b)) \<Longrightarrow> guar (case y of (a, b) \<Rightarrow> h a b)"
  "guar m \<Longrightarrow> guar n \<Longrightarrow> guar (case c of True \<Rightarrow> m | False \<Rightarrow> n)"
  "(\<And>a. guar (g a)) \<Longrightarrow> guar (let a = z in g a)"
  by (simp_all split: sum.split option.split prod.split bool.split)

section \<open>Parts of the state\<close>

lemma guar_on_world [guar_intros]: "guar (on_world m)"
  by (simp add: guar_def on_world_def split: prod.split)

lemma guar_on_store:
  assumes "\<And>d. store_inv d \<Longrightarrow> store_inv (snd (m d))"
  shows "guar (on_store m)"
  using assms by (auto simp: guar_def on_store_def core_rel_def split: prod.split) (metis snd_conv)

lemma list_inv:
  "store_inv d \<Longrightarrow> store_inv (snd (list_conversation_ids d pid n))"
  "store_inv d \<Longrightarrow> store_inv (snd (list_project_ids d n))"
  by (auto simp: list_conversation_ids_def list_project_ids_def split: sum.split)

lemma remove_each_inv: "store_inv d \<Longrightarrow> store_inv (snd (remove_each_conversation pid d cids))"
proof (induction cids arbitrary: d)
  case (Cons cid cids)
  obtain r d1 where r: "remove_conversation d (pid, cid) = (r, d1)" by fastforce
  then have "store_inv d1" using conversations.remove_inv [OF Cons.prems, of "(pid, cid)"] by simp
  then show ?case using Cons.IH r by (cases r) simp_all
qed simp

lemma remove_conversations_inv: "store_inv d \<Longrightarrow> store_inv (snd (remove_project_conversations d pid))"
  using list_inv(1) [of d pid MAX_PERSISTED_CONVERSATIONS_PER_PROJECT]
  by (auto simp: remove_project_conversations_def split: prod.split sum.split intro: remove_each_inv)

lemma guar_stores [guar_intros]:
  "guar (on_store (\<lambda>d. create_project_state d v))" "guar (on_store (\<lambda>d. update_project_state d n v))"
  "guar (on_store (\<lambda>d. load_project_state d pid))" "guar (on_store (\<lambda>d. remove_project_state d pid))"
  "guar (on_store (\<lambda>d. create_conversation d c))" "guar (on_store (\<lambda>d. update_conversation d n c))"
  "guar (on_store (\<lambda>d. load_conversation d k))" "guar (on_store (\<lambda>d. remove_conversation d k))"
  "guar (on_store (\<lambda>d. remove_project_conversations d pid))"
  "guar (on_store (\<lambda>d. list_conversation_ids d pid l))" "guar (on_store (\<lambda>d. list_project_ids d l))"
  by (rule guar_on_store, simp add: projects.create_inv projects.update_inv projects.load_keeps
      projects.remove_inv conversations.create_inv conversations.update_inv conversations.load_keeps
      conversations.remove_inv remove_conversations_inv list_inv)+

lemma guar_on_commands:
  assumes "\<And>c. \<exists>call. snd (m c) = engine_call U c call"
  shows "guar (on_commands m)"
proof (rule guarI)
  fix s r t
  assume "on_commands m s = (r, t)"
  moreover obtain call where call: "snd (m (co_commands s)) = engine_call U (co_commands s) call"
    using assms by blast
  ultimately have t: "t = s\<lparr>co_commands := engine_call U (co_commands s) call\<rparr>"
    by (auto simp: on_commands_def split: prod.splits)
  have "engine_step U (co_commands s) (engine_call U (co_commands s) call)" by (auto simp: engine_step_def)
  then show "core_rel s t"
    using engine_call_inv engine_call_config epochs.epoch_mono by (simp add: core_rel_def t)
qed

lemma guar_commands [guar_intros]:
  "guar (on_commands (\<lambda>c. request_command U fresh c sid pid command))"
  "guar (on_commands (\<lambda>c. decide U c sid pid approval decision))"
  "guar (revoke_pending_project_commands sid)" "guar (invalidate pid)"
  unfolding revoke_pending_project_commands_def invalidate_def
  by (rule guar_on_commands [of _ U], metis engine_call.simps(1))
    (rule guar_on_commands [of _ U], metis engine_call.simps(2),
     rule guar_on_commands [of _ U], metis engine_call.simps(3),
     rule guar_on_commands [of _ U], metis engine_call.simps(4))

lemma guar_read_commands [guar_intros]: "guar (on_commands (\<lambda>c. (f c, c)))"
  by (simp add: guar_def on_commands_def)

lemma guar_agent_turn [guar_intros]: "guar (agent_turn E sid prompt model)"
proof (rule guarI)
  fix s r t
  assume "agent_turn E sid prompt model s = (r, t)"
  then obtain x calls where t: "t = s\<lparr>co_world := x, co_commands := engine_calls (ce_uuid E) (co_commands s) calls\<rparr>"
    by (auto simp: agent_turn_def split: prod.splits)
  show "core_rel s t"
    using engine_calls_inv engine_calls_config run_engine_calls [of "ce_uuid E" "co_commands s" calls]
      epochs.run_epoch_mono
    by (auto simp: core_rel_def t)
qed

lemma guar_with_permit [guar_intros]:
  assumes "guar body"
  shows "guar (with_permit pid body)"
proof (rule guarI)
  fix s r t
  assume "with_permit pid body s = (r, t)"
  then show "core_rel s t"
  proof (cases rule: with_permit_cases)
    case (2 u)
    then show ?thesis using guarD [OF assms 2(2)] by (auto simp: core_rel_def drop_permit_def)
  qed simp
qed

section \<open>The operations\<close>

lemma guar_inspect [guar_intros]: "guar (inspect_website_toolchain E project)"
  by (simp add: guar_def inspect_website_toolchain_def)

lemma guar_helpers [guar_intros]:
  "guar (ensure_no_active_project_process E pid)" "guar (load_required_project_state pid)"
  "guar (load_required_conversation pid cid)" "guar (rollback_project_session E pid)"
  "guar (refresh_sessions E project session sids)"
  "guar (start_authorized_project_command_with_lifecycle_held E project sid envelope options)"
  unfolding ensure_no_active_project_process_def load_required_project_state_def
    load_required_conversation_def rollback_project_session_def refresh_sessions_def
    start_authorized_project_command_with_lifecycle_held_def
  by (intro guar_intros)+

lemma guar_rollback_conversations [guar_intros]:
  "guar (rollback_conversations E pid permitted sessions seen cids)"
  by (induction cids arbitrary: sessions seen) (auto intro!: guar_intros)

lemma guar_rollback [guar_intros]:
  "guar (rollback_project_checkpoint_internal E project checkpoint permitted)"
  unfolding rollback_project_checkpoint_internal_def rollback_conversation_sessions_def
  by (intro guar_intros)

lemma guar_rollback_pending [guar_intros]:
  "guar (rollback_project_checkpoint_for_pending_conversation E project checkpoint cid sid)"
  unfolding rollback_project_checkpoint_for_pending_conversation_def by (intro guar_intros)

lemma guar_backend_attempt [guar_intros]: "guar (backend_attempt E pid sid prompt m cs seen)"
  unfolding backend_attempt_def run_inference_def by (intro guar_intros)

lemma guar_backend_loop [guar_intros]: "guar (backend_loop E pid sid prompt m cs seen)"
proof -
  have "core_rel s (snd (backend_loop E pid sid prompt m cs seen s))" for s
  proof (induction E pid sid prompt m cs seen s rule: backend_loop.induct)
    case (1 E pid sid prompt m cs seen s)
    obtain r t where a: "backend_attempt E pid sid prompt m cs seen s = (r, t)" by fastforce
    then have t: "core_rel s t" by (rule guarD [OF guar_backend_attempt])
    show ?case
    proof (cases r)
      case (Inl e)
      then show ?thesis using a t by (simp add: backend_loop.simps)
    next
      case (Inr out)
      then show ?thesis using a t core_rel_trans [OF t] 1 [OF a [symmetric] Inr]
        by (cases out) (simp_all add: backend_loop.simps)
    qed
  qed
  then show ?thesis by (simp add: guar_def)
qed

lemma guar_basic [guar_intros]:
  "guar (request_project_command E fresh project sid command)"
  "guar (start_authorized_project_command E project sid envelope options)"
  "guar (gateway_health_core E credential)"
  "guar (list_gateway_models E credential)"
  "guar (open_persisted_project E pid)"
  "guar (prepare_website_build_pipeline E fresh project build_policy)"
  unfolding request_project_command_def
    start_authorized_project_command_def
    gateway_health_core_def
    list_gateway_models_def
    open_persisted_project_def
    prepare_website_build_pipeline_def
  by (intro guar_intros)+

lemma guar_state [guar_intros]:
  "guar (decide_project_command E project sid approval decision)"
  "guar (prepare_build_job E fresh project target)"
  "guar (start_authorized_build_job E project sid descriptor envelope options)"
  "guar (cancel_project_process E process)"
  "guar (create_project_checkpoint E project reason)"
  "guar (list_project_checkpoints E pid limit)"
  "guar (remove_project_checkpoint E pid checkpoint)"
  "guar (rollback_project_checkpoint E project checkpoint)"
  "guar (gateway_execution_profile_core E credential)"
  "guar (resolve_model_route_policy E credential policy)"
  "guar (preflight E credential)"
  "guar (create_persisted_project E fresh)"
  "guar (list_persisted_project_ids E limit)"
  "guar (remove_persisted_project E project)"
  "guar (create_project E fresh)"
  "guar (open_project E pid)"
  "guar (remove_project E project)"
  "guar (resolve_project_path E project relative)"
  "guar (create_project_dir_all E project relative)"
  "guar (read_project_file E project relative limit)"
  "guar (atomic_write_project_file E project relative contents)"
  "guar (edit_project_text_file E project relative expected replacement)"
  "guar (apply_project_text_patch E project relative hunks)"
  "guar (list_project_files E project limit)"
  unfolding decide_project_command_def
    prepare_build_job_def
    start_authorized_build_job_def
    cancel_project_process_def
    create_project_checkpoint_def
    list_project_checkpoints_def
    remove_project_checkpoint_def
    rollback_project_checkpoint_def
    gateway_execution_profile_core_def
    resolve_model_route_policy_def
    preflight_def
    create_persisted_project_def
    list_persisted_project_ids_def
    remove_persisted_project_def
    create_project_def
    open_project_def
    remove_project_def
    resolve_project_path_def
    create_project_dir_all_def
    read_project_file_def
    atomic_write_project_file_def
    edit_project_text_file_def
    apply_project_text_patch_def
    list_project_files_def
  by (intro guar_intros)+

lemma guar_more [guar_intros]:
  "guar (search_project_text E project needle limit)"
  "guar (request_website_build_stage_command E fresh project sid pipeline)"
  "guar (start_authorized_website_build_stage E fresh project sid pipeline envelope options)"
  "guar (run_first_build_repair_turn E project sid failed model)"
  "guar (start_project_session E project)"
  "guar (resume_project_session E project sid)"
  "guar (list_session_models E sid)"
  "guar (set_session_model E sid active)"
  "guar (run_backend_task E fresh project sid credential policy prompt)"
  "guar (create_persisted_conversation E fresh project)"
  "guar (list_persisted_conversation_ids E pid limit)"
  "guar (load_persisted_conversation E pid cid)"
  "guar (resume_persisted_conversation E pid cid)"
  "guar (cancel_persisted_conversation_turn E pid cid)"
  "guar (start_persisted_project_session E project)"
  "guar (resume_persisted_project_session E pid)"
  "guar (set_persisted_session_model E pid active)"
  "guar (set_persisted_route_policy E pid stored_policy)"
  unfolding search_project_text_def
    request_website_build_stage_command_def
    start_authorized_website_build_stage_def
    run_first_build_repair_turn_def
    start_project_session_def
    resume_project_session_def
    list_session_models_def
    set_session_model_def
    run_backend_task_def
    create_persisted_conversation_def
    list_persisted_conversation_ids_def
    load_persisted_conversation_def
    resume_persisted_conversation_def
    cancel_persisted_conversation_turn_def
    start_persisted_project_session_def
    resume_persisted_project_session_def
    set_persisted_session_model_def
    set_persisted_route_policy_def
  by (intro guar_intros)+

lemma guar_turn_parts [guar_intros]:
  "guar (action_preconditions E)" "guar (loop_preconditions E)" "guar (open_agent_turn E pid cid prompt)"
  "guar (open_action_turn E pid cid prompt)" "guar (fail_action E project c checkpoint post e)"
  "guar (model_inference E cancelled credential requested max_tokens c)"
  "guar (fail_loop E x verification e)"
  "guar (finish_persisted_explicit_agent_loop_non_success E x verification reason n)"
  unfolding action_preconditions_def loop_preconditions_def open_agent_turn_def open_action_turn_def
    fail_action_def recover_failed_persisted_agent_action_def model_inference_def unless_cancelled_def
    fail_loop_def recover_failed_persisted_explicit_agent_loop_def
    finish_persisted_explicit_agent_loop_non_success_def
  by (intro guar_intros)+

lemma guar_turns [guar_intros]:
  "guar (run_persisted_conversation_turn E fresh pid cid credential policy prompt)"
  "guar (run_persisted_agent_action_turn E fresh pid cid credential policy prompt)"
  "guar (run_persisted_model_conversation_turn E pid cid credential requested max_tokens prompt)"
  "guar (run_persisted_model_conversation_turn_cancellable E cancelled pid cid credential requested max_tokens prompt)"
  "guar (request_explicit_agent_loop_cancel guard)"
  "guar (cancel_active_explicit_agent_loop_turn E guard)"
  unfolding run_persisted_conversation_turn_def run_persisted_agent_action_turn_def commit_action_def
    run_persisted_model_conversation_turn_def run_persisted_model_conversation_turn_cancellable_def
    run_persisted_model_conversation_turn_inner_def model_turn_body_def
    request_explicit_agent_loop_cancel_def cancel_active_explicit_agent_loop_turn_def
  by (intro guar_intros)+

lemma guar_loop_parts [guar_intros]:
  "guar (complete_loop E x verification body n)" "guar (continue_loop E x i verification m n)"
  unfolding complete_loop_def continue_loop_def by (intro guar_intros)+

lemma guar_decision [guar_intros]:
  "guar m \<Longrightarrow> guar n \<Longrightarrow> guar (case d of EL_Complete \<Rightarrow> m | EL_Continue \<Rightarrow> n)"
  by (simp split: explicit_loop_decision.split)

lemma guar_loop_step [guar_intros]:
  "(\<And>out. guar (f out)) \<Longrightarrow> (\<And>n. guar (g n)) \<Longrightarrow> guar (case step of LoopDone out \<Rightarrow> f out | LoopNext n \<Rightarrow> g n)"
  by (simp split: loop_step.split)

lemma guar_loop_iteration [guar_intros]:
  "guar (loop_iteration E fresh cancelled x credential policy prompt i n)"
  unfolding loop_iteration_def judge_iteration_def by (intro guar_intros)

lemma guar_loop_iterations [guar_intros]:
  "guar (loop_iterations E fresh cancelled x credential policy prompt is n)"
  by (induction "is" arbitrary: n) (auto intro!: guar_intros)

lemma guar_loop [guar_intros]: "guar (run_explicit_loop_body E fresh cancelled guard credential policy prompt)"
  unfolding run_explicit_loop_body_def by (intro guar_intros)

text \<open>The operations that also hand back the caller's guard.\<close>

lemma guarded_repair: "core_rel s (snd (run_guarded_build_repair_turn E loop project sid failed model s))"
proof -
  have "core_rel s t" if "run_first_build_repair_turn E project sid failed model s = (r, t)" for r t
    using that by (rule guarD [OF guar_more(4)])
  then show ?thesis
    by (auto simp: run_guarded_build_repair_turn_def Let_def
        split: sum.split prod.split repair_authorization.split)
qed

lemma guarded_rebuild: "core_rel s (snd (prepare_guarded_website_rebuild E fresh loop project build_policy s))"
proof -
  have "core_rel s t" if "prepare_website_build_pipeline E fresh project build_policy s = (r, t)" for r t
    using that by (rule guarD [OF guar_basic(6)])
  then show ?thesis
    by (auto simp: prepare_guarded_website_rebuild_def split: sum.split prod.split)
qed

lemma guarded_cancel: "core_rel s (snd (request_build_repair_loop_cancel loop s))"
  using guarD [OF guar_commands(4)]
  by (fastforce simp: request_build_repair_loop_cancel_def split: prod.split)

lemma guarded_cancels:
  fixes s :: "'x core"
  shows "core_rel s (snd (cancel_active_guarded_website_rebuild E loop running s))"
  "core_rel s (snd (cancel_active_build_repair_turn E loop project sid s))"
proof -
  obtain r g t where c: "request_build_repair_loop_cancel loop s = ((r, g), t)" by (metis prod.collapse)
  then have t: "core_rel s t" using guarded_cancel [of s loop] by simp
  have next_rel: "core_rel s u" if "m t = (q, u)" "guar m" for m :: "('x core, unit) act" and q u
    using core_rel_trans [OF t guarD [OF that(2,1)]] .
  have "guar (cancel_project_process E process)" for process
    unfolding cancel_project_process_def by (intro guar_intros)
  then show "core_rel s (snd (cancel_active_guarded_website_rebuild E loop running s))"
    using t next_rel by (auto simp: cancel_active_guarded_website_rebuild_def c split: sum.split prod.split)
  have "guar (sbind (on_world (ws_verify_project E project))
      (\<lambda>_. sbind (on_world (ag_verify_session_project_binding E project sid)) (\<lambda>_. on_world (ag_cancel E sid))))"
    by (intro guar_intros)
  then show "core_rel s (snd (cancel_active_build_repair_turn E loop project sid s))"
    using t next_rel by (auto simp: cancel_active_build_repair_turn_def c split: sum.split prod.split)
qed

lemma guarded_loop:
  "core_rel s (snd (run_persisted_explicit_agent_loop E freshes readings guard credential policy prompt s))"
  using guarD [OF guar_loop]
  by (auto simp: run_persisted_explicit_agent_loop_def split: sum.split prod.split)

section \<open>The transition system\<close>

text \<open>One rule for every public method of the core, with the arguments a caller may pass.\<close>

inductive core_step :: "'x core_env \<Rightarrow> 'x core \<Rightarrow> 'x core \<Rightarrow> bool" for E where
  "request_project_command E fresh project sid command s = (r, t) \<Longrightarrow> core_step E s t"
| "decide_project_command E project sid approval decision s = (r, t) \<Longrightarrow> core_step E s t"
| "revoke_pending_project_commands sid s = (r, t) \<Longrightarrow> core_step E s t"
| "start_authorized_project_command E project sid envelope options s = (r, t) \<Longrightarrow> core_step E s t"
| "prepare_build_job E fresh project target s = (r, t) \<Longrightarrow> core_step E s t"
| "start_authorized_build_job E project sid descriptor envelope options s = (r, t) \<Longrightarrow> core_step E s t"
| "cancel_project_process E process s = (r, t) \<Longrightarrow> core_step E s t"
| "create_project_checkpoint E project reason s = (r, t) \<Longrightarrow> core_step E s t"
| "list_project_checkpoints E pid limit s = (r, t) \<Longrightarrow> core_step E s t"
| "remove_project_checkpoint E pid checkpoint s = (r, t) \<Longrightarrow> core_step E s t"
| "rollback_project_checkpoint E project checkpoint s = (r, t) \<Longrightarrow> core_step E s t"
| "gateway_health_core E credential s = (r, t) \<Longrightarrow> core_step E s t"
| "list_gateway_models E credential s = (r, t) \<Longrightarrow> core_step E s t"
| "gateway_execution_profile_core E credential s = (r, t) \<Longrightarrow> core_step E s t"
| "resolve_model_route_policy E credential policy s = (r, t) \<Longrightarrow> core_step E s t"
| "preflight E credential s = (r, t) \<Longrightarrow> core_step E s t"
| "create_persisted_project E fresh s = (r, t) \<Longrightarrow> core_step E s t"
| "open_persisted_project E pid s = (r, t) \<Longrightarrow> core_step E s t"
| "list_persisted_project_ids E limit s = (r, t) \<Longrightarrow> core_step E s t"
| "remove_persisted_project E project s = (r, t) \<Longrightarrow> core_step E s t"
| "create_project E fresh s = (r, t) \<Longrightarrow> core_step E s t"
| "open_project E pid s = (r, t) \<Longrightarrow> core_step E s t"
| "remove_project E project s = (r, t) \<Longrightarrow> core_step E s t"
| "resolve_project_path E project relative s = (r, t) \<Longrightarrow> core_step E s t"
| "create_project_dir_all E project relative s = (r, t) \<Longrightarrow> core_step E s t"
| "read_project_file E project relative limit s = (r, t) \<Longrightarrow> core_step E s t"
| "atomic_write_project_file E project relative contents s = (r, t) \<Longrightarrow> core_step E s t"
| "edit_project_text_file E project relative expected replacement s = (r, t) \<Longrightarrow> core_step E s t"
| "apply_project_text_patch E project relative hunks s = (r, t) \<Longrightarrow> core_step E s t"
| "list_project_files E project limit s = (r, t) \<Longrightarrow> core_step E s t"
| "search_project_text E project needle limit s = (r, t) \<Longrightarrow> core_step E s t"
| "inspect_website_toolchain E project s = (r, t) \<Longrightarrow> core_step E s t"
| "prepare_website_build_pipeline E fresh project build_policy s = (r, t) \<Longrightarrow> core_step E s t"
| "request_website_build_stage_command E fresh project sid pipeline s = (r, t) \<Longrightarrow> core_step E s t"
| "start_authorized_website_build_stage E fresh project sid pipeline envelope options s = (r, t) \<Longrightarrow> core_step E s t"
| "run_first_build_repair_turn E project sid failed model s = (r, t) \<Longrightarrow> core_step E s t"
| "start_project_session E project s = (r, t) \<Longrightarrow> core_step E s t"
| "resume_project_session E project sid s = (r, t) \<Longrightarrow> core_step E s t"
| "list_session_models E sid s = (r, t) \<Longrightarrow> core_step E s t"
| "set_session_model E sid active s = (r, t) \<Longrightarrow> core_step E s t"
| "run_backend_task E fresh project sid credential policy prompt s = (r, t) \<Longrightarrow> core_step E s t"
| "create_persisted_conversation E fresh project s = (r, t) \<Longrightarrow> core_step E s t"
| "list_persisted_conversation_ids E pid limit s = (r, t) \<Longrightarrow> core_step E s t"
| "load_persisted_conversation E pid cid s = (r, t) \<Longrightarrow> core_step E s t"
| "resume_persisted_conversation E pid cid s = (r, t) \<Longrightarrow> core_step E s t"
| "run_persisted_conversation_turn E fresh pid cid credential policy prompt s = (r, t) \<Longrightarrow> core_step E s t"
| "run_persisted_agent_action_turn E fresh pid cid credential policy prompt s = (r, t) \<Longrightarrow> core_step E s t"
| "run_persisted_model_conversation_turn E pid cid credential requested max_tokens prompt s = (r, t) \<Longrightarrow> core_step E s t"
| "run_persisted_model_conversation_turn_cancellable E cancelled pid cid credential requested max_tokens prompt s = (r, t) \<Longrightarrow> core_step E s t"
| "cancel_persisted_conversation_turn E pid cid s = (r, t) \<Longrightarrow> core_step E s t"
| "start_persisted_project_session E project s = (r, t) \<Longrightarrow> core_step E s t"
| "resume_persisted_project_session E pid s = (r, t) \<Longrightarrow> core_step E s t"
| "set_persisted_session_model E pid active s = (r, t) \<Longrightarrow> core_step E s t"
| "set_persisted_route_policy E pid stored_policy s = (r, t) \<Longrightarrow> core_step E s t"
| "request_explicit_agent_loop_cancel guard s = (r, t) \<Longrightarrow> core_step E s t"
| "cancel_active_explicit_agent_loop_turn E guard s = (r, t) \<Longrightarrow> core_step E s t"
| "run_guarded_build_repair_turn E loop project sid failed model s = ((r, g), t) \<Longrightarrow> core_step E s t"
| "prepare_guarded_website_rebuild E fresh loop project build_policy s = ((r, g), t) \<Longrightarrow> core_step E s t"
| "request_build_repair_loop_cancel loop s = ((r, g), t) \<Longrightarrow> core_step E s t"
| "cancel_active_guarded_website_rebuild E loop running s = ((r, g), t) \<Longrightarrow> core_step E s t"
| "cancel_active_build_repair_turn E loop project sid s = ((r, g), t) \<Longrightarrow> core_step E s t"
| "run_persisted_explicit_agent_loop E freshes readings guard credential policy prompt s = ((r, g), t) \<Longrightarrow> core_step E s t"

lemma relD: "core_rel s (snd x) \<Longrightarrow> x = (q, t) \<Longrightarrow> core_rel s t"
  by simp

lemma core_step_rel: "core_step E s t \<Longrightarrow> core_rel s t"
  by (induction rule: core_step.induct)
    ((erule guarD [rotated], (intro guar_intros)[1])
     | erule relD [OF guarded_repair] relD [OF guarded_rebuild] relD [OF guarded_cancel]
         relD [OF guarded_cancels(1)] relD [OF guarded_cancels(2)] relD [OF guarded_loop])+

definition core_init :: "'x core \<Rightarrow> bool" where
  "core_init s \<longleftrightarrow> (\<exists>store x config. store_inv store \<and> s = core_new_with_command_policy store x config)"

definition core_inv :: "'x core \<Rightarrow> bool" where
  "core_inv s \<longleftrightarrow> co_active s = {} \<and> \<not> co_gate_poisoned s \<and> store_inv (co_store s) \<and> engine_inv (co_commands s)"

lemma core_inv_init: "core_init s \<Longrightarrow> core_inv s"
  by (auto simp: core_init_def core_inv_def core_new_with_command_policy_def engine_inv_new)

lemma core_inv_step: "core_inv s \<Longrightarrow> core_step E s t \<Longrightarrow> core_inv t"
  using core_step_rel [of E s t] by (simp add: core_rel_def core_inv_def)

interpretation core: invariant_system core_init "core_step E" core_inv for E
  by unfold_locales (erule core_inv_init, erule (1) core_inv_step)

end
