(* ===== verification/Core_Guarantees.thy ===== *)
theory Core_Guarantees
  imports Core_Requests
begin

text \<open>
  What the backend core promises to its callers, stated over the whole operations: the turn protocols,
  the explicit loop, the invariant of all reachable states, and the revocation of authority by a
  backend task. Each promise comes with an instance on which its hypotheses hold.
\<close>

section \<open>Authority around a backend task\<close>

definition nothing_pending :: "project_id \<Rightarrow> 'x core \<Rightarrow> bool" where
  "nothing_pending pid s \<longleftrightarrow> (\<forall>e \<in> set (es_pending (co_commands s)). pc_project_id (snd e) \<noteq> pid)"

definition epoch_of :: "project_id \<Rightarrow> 'x core \<Rightarrow> nat" where
  "epoch_of pid s = unat (project_epoch (co_commands s) pid)"

lemma core_rel_epoch: "core_rel s t \<Longrightarrow> epoch_of pid s \<le> epoch_of pid t"
  by (simp add: core_rel_def epoch_of_def)

lemma run_inference_done:
  assumes "run_inference E pid sid prompt model m cs observer seen s = (Inr (AttemptDone out events), t)"
  shows "nothing_pending pid t \<and> epoch_of pid s < epoch_of pid t"
proof -
  from assms obtain n a turn b n2 where
    first: "invalidate pid s = (Inr n, a)" and turn: "agent_turn E sid prompt (Some model) a = (Inr turn, b)"
    and second: "invalidate pid b = (Inr n2, t)"
    unfolding run_inference_def sbind_def
    by (auto simp: slift_def split: prod.split_asm sum.split_asm)
  have "epoch_of pid s < epoch_of pid a" using invalidate_revokes(2) [OF first] by (simp add: epoch_of_def)
  also have "\<dots> \<le> epoch_of pid b" using core_rel_epoch guarD [OF guar_agent_turn turn] by blast
  also have "\<dots> < epoch_of pid t" using invalidate_revokes(2) [OF second] by (simp add: epoch_of_def)
  finally show ?thesis using invalidate_revokes(1) [OF second] by (simp add: nothing_pending_def)
qed

lemma backend_attempt_done:
  assumes "backend_attempt E pid sid prompt m cs seen s = (Inr (AttemptDone out events), t)"
  shows "nothing_pending pid t \<and> epoch_of pid s < epoch_of pid t"
proof -
  have no: "after_failure m' cs' f ev e \<noteq> Inr (AttemptDone out events)" for m' cs' f ev e
    by (auto simp: after_failure_def split: prod.splits sum.splits failure_decision.splits)
  obtain u u' model m' cs' observer where u: "u = snd (on_world (ag_list_models E sid) s)"
    and u': "u' = snd (on_world (ag_corroborate_model_identity E sid (tm_selected_model m)) u)"
    and run: "run_inference E pid sid prompt model m' cs' observer seen u' = (Inr (AttemptDone out events), t)"
    using assms no unfolding backend_attempt_def sbind_def stry_def
    by (auto simp: slift_def sfail_def split: prod.split_asm sum.split_asm bool.split_asm)
  have "core_rel s u" "core_rel u u'" using guar_on_world by (auto simp: u u' guar_def)
  then have "epoch_of pid s \<le> epoch_of pid u'" using core_rel_trans core_rel_epoch by blast
  with run_inference_done [OF run] show ?thesis by simp
qed

lemma backend_loop_done:
  assumes "backend_loop E pid sid prompt m cs seen s = (Inr (out, events), t)"
  shows "nothing_pending pid t \<and> epoch_of pid s < epoch_of pid t"
  using assms
proof (induction E pid sid prompt m cs seen s rule: backend_loop.induct)
  case (1 E pid sid prompt m cs seen s)
  obtain r u where a: "backend_attempt E pid sid prompt m cs seen s = (r, u)" by fastforce
  then have su: "epoch_of pid s \<le> epoch_of pid u" using guarD [OF guar_backend_attempt] core_rel_epoch by blast
  show ?case
  proof (cases r)
    case (Inr res)
    show ?thesis
    proof (cases res)
      case (AttemptDone out' events')
      then have "u = t" using "1.prems" a Inr by (simp add: backend_loop.simps)
      then show ?thesis using backend_attempt_done a Inr AttemptDone by blast
    next
      case (AttemptRetry m' cs' seen')
      then show ?thesis using "1.IH" [OF a [symmetric] Inr] "1.prems" a Inr su
        by (auto simp: backend_loop.simps)
    qed
  qed (use "1.prems" a in \<open>simp add: backend_loop.simps\<close>)
qed

lemma sbind_Inr:
  "sbind m f s = (Inr a, t) \<longleftrightarrow> (\<exists>b u. m s = (Inr b, u) \<and> f b u = (Inr a, t))"
  by (auto simp: sbind_def split: prod.splits sum.splits)

lemma run_backend_task_done:
  assumes "run_backend_task E fresh project sid credential policy prompt s = (Inr (out, events), t)"
  shows "nothing_pending (pr_id project) t \<and> epoch_of (pr_id project) s < epoch_of (pr_id project) t"
  using assms unfolding run_backend_task_def
proof (cases rule: with_permit_cases)
  case (2 u)
  let ?s = "s\<lparr>co_active := insert (pr_id project) (co_active s)\<rparr>"
  have "\<exists>m v. core_rel ?s v \<and> backend_loop E (pr_id project) sid prompt m [] [] v = (Inr (out, events), u)"
    using 2(2) unfolding sbind_Inr
    by (auto simp: sbind_Inr slift_def sfail_def split: if_splits
        dest!: guarD [OF guar_on_world] guarD [OF guar_helpers(1)]) (meson core_rel_trans)
  then obtain m v where v: "core_rel ?s v"
    and loop: "backend_loop E (pr_id project) sid prompt m [] [] v = (Inr (out, events), u)" by blast
  have "epoch_of (pr_id project) s \<le> epoch_of (pr_id project) v"
    using core_rel_epoch [OF v, of "pr_id project"] by (simp add: epoch_of_def)
  then show ?thesis using backend_loop_done [OF loop] 2(3)
    by (simp add: nothing_pending_def epoch_of_def drop_permit_def)
qed simp

text \<open>A start with a stale envelope stops at the engine's check, before the process runtime.\<close>

lemma stale_start_refused:
  assumes "en_project_epoch envelope \<noteq> project_epoch (co_commands s) (en_project_id envelope)"
  shows "\<exists>e t. \<forall>f. start_authorized_project_command_with_lifecycle_held
      (E\<lparr>ce_process := map_option (po_start_update (\<lambda>_. f)) (ce_process E)\<rparr>) project sid envelope options s
      = (Inl e, t)"
proof (cases "en_project_id envelope \<noteq> pr_id project \<or> en_session_id envelope \<noteq> sid")
  case False
  obtain r1 t1 where 1: "on_world (ws_verify_project E project) s = (r1, t1)" by fastforce
  obtain r2 t2 where 2: "on_world (ag_verify_session_project_binding E project sid) t1 = (r2, t2)" by fastforce
  have "co_commands t1 = co_commands s" "co_commands t2 = co_commands t1"
    using keepsD [OF keeps_on_world(3) 1] keepsD [OF keeps_on_world(3) 2] by simp_all
  then have "\<exists>e. validate_execution_envelope (co_commands t2) envelope = Inl e"
    using assms by (auto simp: validate_execution_envelope_def lock_state_def)
  then obtain e where e: "validate_execution_envelope (co_commands t2) envelope = Inl e" ..
  show ?thesis
    by (cases r1; cases r2; cases "ce_process E")
      (use False in \<open>auto simp: start_authorized_project_command_with_lifecycle_held_def sbind_def 1 2 e
        slift_def process_runtime_def on_commands_def ok_or_def\<close>)
qed (simp add: start_authorized_project_command_with_lifecycle_held_def sfail_def)

section \<open>An instance that runs\<close>

definition task_model :: model_ref where
  "task_model = \<lparr>mr_id = lit ''m1'', mr_display_name = None, mr_provider = Some (lit ''p1'')\<rparr>"

definition task_policy :: route_policy_config where
  "task_policy = \<lparr>rp_primary = \<lparr>rt_model_id = lit ''m1'', rt_provider = Some (lit ''p1'')\<rparr>, rp_fallbacks = [],
     rp_fallback_on = [], rp_fallback_boundary = BeforeResponseOnly\<rparr>"

definition task_turn :: turn_result where
  "task_turn = \<lparr>tr_text = lit ''Done'', tr_cancelled = False, tr_tool_calls = [], tr_usage = None\<rparr>"

text \<open>Every call that leaves the core succeeds; the agent's turn answers at once.\<close>

definition online_env :: "unit core_env" where
  "online_env = offline_env
     \<lparr>ag_ensure_ready := sreturn \<lparr>rc_sessions = True, rc_streaming_events = True, rc_permissions = True,
        rc_model_selection = True, rc_file_tools = True, rc_command_tools = False\<rparr>,
      ag_verify_session_project_binding := (\<lambda>_ _. sreturn ()),
      ag_ensure_workspace_quiescent := (\<lambda>_. sreturn ()), ws_verify_project := (\<lambda>_. sreturn ()),
      ws_open_project := (\<lambda>_. sreturn sample_project), ag_resume_session := (\<lambda>_ _. sreturn ()),
      gw_execution_profile := (\<lambda>_. sreturn \<lparr>gp_gateway_id = [103], gp_upstream_version = [49],
        gp_profile_id = [112], gp_profile_sha256 = replicate 64 97, gp_exact_model_only = True,
        gp_hidden_model_reroutes_disabled = True\<rparr>),
      gw_list_models := (\<lambda>_. sreturn [task_model]), ag_list_models := (\<lambda>_. sreturn [task_model]),
      ag_corroborate_model_identity := (\<lambda>_ m. sreturn m),
      ag_run_turn := (\<lambda>_ _ _ x. ((Inr task_turn, [], []), x))\<rparr>"

definition blank_store :: local_store where
  "blank_store =
     \<lparr>ls_codec = \<lparr>sc_encode_project = (\<lambda>_. None), sc_decode_project = (\<lambda>_. None),
        sc_encode_conversation = (\<lambda>_. None), sc_decode_conversation = (\<lambda>_. None)\<rparr>,
      ls_uuid = \<lparr>ut_parse_str = (\<lambda>_. None), ut_hyphenated = (\<lambda>_. []), ut_simple = (\<lambda>_. [])\<rparr>,
      ls_poisoned = False, ls_projects = [], ls_conversations = [], ls_io = (\<lambda>_. demo_io), ls_tick = 0\<rparr>"

lemma online_task: "is_ok (fst (run_backend_task online_env 9 sample_project (SessionId [115]) Anonymous
    task_policy (lit ''go'') (core_new blank_store ())))"
  by code_simp

lemma model_turn_wp:
  assumes "store_inv (co_store s)"
  shows "wp (run_persisted_model_conversation_turn_inner E cancelled pid cid credential requested max_tokens prompt)
    (\<lambda>r t. turn_effect storage_error (pid, cid) prompt s (map_sum id (\<lambda>out. Some (mo_assistant_text out)) r) t) s"
  unfolding run_persisted_model_conversation_turn_inner_def
  apply (rule wp_pure_step, simp add: turn_effect_untouched)
  apply (rule wp_pure_step, simp add: turn_effect_untouched)
  apply (simp add: wp_simps turn_effect_untouched)
  apply (intro impI wp_permit, simp add: turn_effect_untouched)
  using wp_model_turn [of "s\<lparr>co_active := insert pid (co_active s)\<rparr>"] assms by simp

lemma guar_model_turn:
  "guar (run_persisted_model_conversation_turn_inner E cancelled pid cid credential requested max_tokens prompt)"
  unfolding run_persisted_model_conversation_turn_inner_def model_turn_body_def by (intro guar_intros)

section \<open>A marker that nothing clears\<close>

text \<open>The agent turn does not reserve room for the answer. When the task succeeds and its answer cannot be
  appended, the turn returns that error and the marker stays; every later turn and rollback of the
  project is then refused.\<close>

lemma agent_turn_strands_marker:
  assumes "trim prompt \<noteq> []" and "ce_has_conversation_store E"
    and "open_agent_turn E pid cid prompt s = (Inr (project, sid, c), u)"
    and "run_backend_task E fresh project sid credential policy prompt u = (Inr (outcome, events), t)"
    and "tr_text (to_turn outcome) \<noteq> []"
    and "append_message (c\<lparr>cv_turn_pending := False\<rparr>) RoleAssistant (tr_text (to_turn outcome)) = Inl e"
    and "store_inv (co_store s)"
  shows "run_persisted_conversation_turn E fresh pid cid credential policy prompt s = (Inl e, t)"
    and "\<exists>c. conversation_view (co_store t) (pid, cid) = Some c \<and> cv_turn_pending c"
proof -
  show "run_persisted_conversation_turn E fresh pid cid credential policy prompt s = (Inl e, t)"
    using assms by (simp add: run_persisted_conversation_turn_def sbind_def stry_def slift_def
        conversation_store_of_def ensure_def)
  have "opened (pid, cid) prompt s (Inr c) u"
    using wpD [OF wp_open_agent_turn [OF assms(7)] assms(3)] by simp
  then obtain c0 where "c = asked c0 prompt" "stored_at (pid, cid) c s u" by (auto simp: opened_def)
  moreover have "durable t = durable u" using keepsD [OF keeps_run_backend_task(2) assms(4)] .
  ultimately show "\<exists>c. conversation_view (co_store t) (pid, cid) = Some c \<and> cv_turn_pending c"
    by (auto simp: stored_at_def durable_def asked_def)
qed

section \<open>Properties\<close>

text \<open>C2: A model turn moves one conversation through its stages. Whatever the gateway, the workspace and
  the disk do, a turn that succeeds has stored exactly the prompt and the returned answer behind the
  messages that were there, with no turn pending and the revision raised by two. A turn that fails has
  stored nothing, or the prompt with the marker cleared again; the marker, or the answer, can only
  remain behind an error of the store itself. No other conversation and no project state changes, and
  the lifecycle permit is given back.\<close>

theorem model_turn_protocol:
  assumes "store_inv (co_store s)"
    and "run_persisted_model_conversation_turn_inner E cancelled pid cid credential requested max_tokens prompt s
      = (r, t)"
  shows "turn_effect storage_error (pid, cid) prompt s (map_sum id (\<lambda>out. Some (mo_assistant_text out)) r) t
    \<and> co_active t = co_active s"
  using wpD [OF model_turn_wp [OF assms(1)] assms(2)] guarD [OF guar_model_turn assms(2)]
  by (simp add: core_rel_def)

text \<open>C6: A turn through the agent keeps to the same protocol: success stores the prompt and, unless it is
  empty, the agent's text, with no turn pending. Failure stores nothing, or the prompt with the marker
  cleared again; behind a persistence error the prompt may also remain with its marker, or together with
  an answer whose turn is no longer pending. No other conversation and no project state changes, and the
  permit is given back.\<close>

theorem agent_turn_protocol:
  assumes "store_inv (co_store s)"
    and "run_persisted_conversation_turn E fresh pid cid credential policy prompt s = (r, t)"
  shows "turn_effect storage_error (pid, cid) prompt s
      (map_sum id (\<lambda>out. if tr_text (to_turn out) = [] then None else Some (tr_text (to_turn out))) r) t
    \<and> co_active t = co_active s"
  using wpD [OF wp_agent_turn [OF assms(1)] assms(2)] guarD [OF guar_turns(1) assms(2)]
  by (simp add: core_rel_def spoken_def [abs_def])

text \<open>C5: A verified coding action keeps to the same protocol. If it succeeds, the prompt and the agent's
  text are stored; if it fails after its message was stored, the marker is cleared again, or it stays
  behind an error of the rollback or of the store.\<close>

theorem action_turn_protocol:
  assumes "store_inv (co_store s)"
    and "run_persisted_agent_action_turn E fresh pid cid credential policy prompt s = (r, t)"
  shows "turn_effect recovery_error (pid, cid) prompt s
      (map_sum id (\<lambda>out. Some (tr_text (to_turn (at_backend out)))) r) t
    \<and> co_active t = co_active s"
  using wpD [OF wp_action_turn [OF assms(1)] assms(2)] guarD [OF guar_turns(2) assms(2)]
  by (simp add: core_rel_def)

text \<open>C4: An explicit loop ends within its budget. A loop with a valid guard returns after at most
  \<open>max_turns\<close> turns, never in its unreachable final branch: its outcome counts at most that many turns
  and, unless the tool budget stopped it, at most the allowed tool calls; it reports the workspace as
  committed exactly when it completed, and otherwise the baseline tree as the final one and the note
  of its stop reason as the answer. The conversation goes through the stages of the turn protocol
  with that answer.\<close>

theorem explicit_loop_protocol:
  assumes "store_inv (co_store s)" and "explicit_loop_guard_new pid cid policy = Inr guard"
    and "run_persisted_explicit_agent_loop E fresh cancelled guard credential routes prompt s = ((r, g), t)"
  shows "turn_effect recovery_error (pid, cid) prompt s (map_sum id (\<lambda>out. Some (lo_assistant_text out)) r) t
    \<and> (\<forall>out. r = Inr out \<longrightarrow> (\<exists>baseline. sound_outcome policy baseline out))
    \<and> co_active t = co_active s"
proof -
  have guard: "explicit_loop_policy_validate policy = Inr (eg_policy guard)"
    "eg_project_id guard = pid" "eg_conversation_id guard = cid" "\<not> eg_started guard"
    using assms(2) by (auto simp: explicit_loop_guard_new_def rbind_eq_Inr)
  then have policy: "eg_policy guard = policy"
    by (auto simp: explicit_loop_policy_validate_def split: if_splits)
  let ?g = "guard\<lparr>eg_started := True\<rparr>"
  have "explicit_loop_policy_validate (eg_policy ?g) = Inr policy" using guard(1) policy by simp
  note loop = wp_explicit_loop [OF assms(1) this, of E fresh cancelled credential routes prompt]
  have "co_active t = co_active s"
    using guarded_loop [of s E fresh cancelled guard credential routes prompt] assms(3) by (simp add: core_rel_def)
  moreover consider e where "r = Inl e" "t = s"
    | "run_explicit_loop_body E fresh cancelled ?g credential routes prompt s = (r, t)"
    using assms(3) guard(4) by (auto simp: run_persisted_explicit_agent_loop_def begin_once_def
        split: sum.split_asm prod.split_asm)
  then have "turn_effect recovery_error (pid, cid) prompt s (map_sum id (\<lambda>out. Some (lo_assistant_text out)) r) t
    \<and> (\<forall>out. r = Inr out \<longrightarrow> (\<exists>baseline. sound_outcome policy baseline out))"
  proof cases
    case 2
    show ?thesis using wpD [OF loop 2] guard(2,3) by simp
  qed (simp add: turn_effect_untouched)
  ultimately show ?thesis by blast
qed

text \<open>C1: Every reachable state of the core is well formed. Starting from a well-formed store, after any
  sequence of calls of its public operations, with any answers of agent, gateway, workspace and disk, no
  lifecycle permit is held, the lifecycle lock is not poisoned, and the stores and the command engine
  satisfy their invariants.\<close>

theorem core_stays_well_formed:
  assumes "reach core_init (core_step E) s"
  shows "co_active s = {} \<and> \<not> co_gate_poisoned s \<and> store_inv (co_store s) \<and> engine_inv (co_commands s)"
  using core.reach_inv [OF assms] by (simp add: core_inv_def)

text \<open>C3: A backend task ends all command authority of its project. After it succeeded, no command of the
  project waits for approval, and an authorization issued before the task starts no process at any
  later time: after any further operations the start is refused, for every process runtime.\<close>

theorem task_revokes_authority:
  assumes "run_backend_task E fresh project sid credential policy prompt s = (Inr out, t)"
    and "run (core_step E) t n u" and "en_project_id envelope = pr_id project"
    and "unat (en_project_epoch envelope) \<le> unat (project_epoch (co_commands s) (pr_id project))"
  shows "(\<forall>e \<in> set (es_pending (co_commands t)). pc_project_id (snd e) \<noteq> pr_id project)
    \<and> (\<exists>e v. \<forall>f. start_authorized_project_command_with_lifecycle_held
        (E\<lparr>ce_process := map_option (po_start_update (\<lambda>_. f)) (ce_process E)\<rparr>) project' sid' envelope options u
        = (Inl e, v))"
proof -
  have after: "nothing_pending (pr_id project) t" "epoch_of (pr_id project) s < epoch_of (pr_id project) t"
    using run_backend_task_done [of E fresh project sid credential policy prompt s "fst out" "snd out" t] assms(1)
    by simp_all
  have "epoch_of (pr_id project) t \<le> epoch_of (pr_id project) u" using assms(2)
  proof (induction rule: run.induct)
    case (run_step s m t u)
    then show ?case using core_rel_epoch [OF core_step_rel] order_trans by blast
  qed simp
  with after(2) assms(3,4)
  have "en_project_epoch envelope \<noteq> project_epoch (co_commands u) (en_project_id envelope)"
    by (auto simp: epoch_of_def)
  then show ?thesis using stale_start_refused after(1) unfolding nothing_pending_def by blast
qed

section \<open>Witnesses\<close>

theorem model_turn_protocol_witness:
  "turn_effect storage_error (ProjectId 1, ConversationId 2) (lit ''go'') (core_new demo_store ())
     (map_sum id (\<lambda>out. Some (mo_assistant_text out)) (fst (run_persisted_model_conversation_turn_inner online_env
       (\<lambda>_. False) (ProjectId 1) (ConversationId 2) Anonymous (lit ''m1'') 64 (lit ''go'') (core_new demo_store ()))))
     (snd (run_persisted_model_conversation_turn_inner online_env
       (\<lambda>_. False) (ProjectId 1) (ConversationId 2) Anonymous (lit ''m1'') 64 (lit ''go'') (core_new demo_store ())))"
  using model_turn_protocol [of "core_new demo_store ()", OF _ prod.collapse [symmetric]] demo_store_inv
  by (simp add: core_new_def core_new_with_command_policy_def)

theorem agent_turn_protocol_witness:
  "co_active (snd (run_persisted_conversation_turn online_env 9 (ProjectId 1) (ConversationId 2) Anonymous
     task_policy (lit ''go'') (core_new demo_store ()))) = {}"
  using agent_turn_protocol [of "core_new demo_store ()", OF _ prod.collapse [symmetric]] demo_store_inv
  by (simp add: core_new_def core_new_with_command_policy_def)

theorem action_turn_protocol_witness:
  "co_active (snd (run_persisted_agent_action_turn online_env 9 (ProjectId 1) (ConversationId 2) Anonymous
     task_policy (lit ''go'') (core_new demo_store ()))) = {}"
  using action_turn_protocol [of "core_new demo_store ()", OF _ prod.collapse [symmetric]] demo_store_inv
  by (simp add: core_new_def core_new_with_command_policy_def)

definition fresh_guard :: explicit_loop_guard where
  "fresh_guard = \<lparr>eg_project_id = ProjectId 1, eg_conversation_id = ConversationId 2,
     eg_policy = explicit_loop_policy_default, eg_started = False\<rparr>"

theorem explicit_loop_protocol_witness:
  "co_active (snd (run_persisted_explicit_agent_loop online_env (\<lambda>_. 9) (\<lambda>_ _. False) fresh_guard Anonymous
     task_policy (lit ''go'') (core_new demo_store ()))) = {}"
proof -
  let ?run = "run_persisted_explicit_agent_loop online_env (\<lambda>_. 9) (\<lambda>_ _. False) fresh_guard Anonymous
     task_policy (lit ''go'') (core_new demo_store ())"
  have guard: "explicit_loop_guard_new (ProjectId 1) (ConversationId 2) explicit_loop_policy_default = Inr fresh_guard"
    by code_simp
  have "?run = ((fst (fst ?run), snd (fst ?run)), snd ?run)" by simp
  from explicit_loop_protocol [OF _ guard this] demo_store_inv show ?thesis
    by (simp add: core_new_def core_new_with_command_policy_def)
qed

theorem core_stays_well_formed_witness:
  "core_step offline_env (core_new demo_store ()) (snd (create_persisted_project offline_env 5 (core_new demo_store ())))
   \<and> store_inv (co_store (snd (create_persisted_project offline_env 5 (core_new demo_store ()))))"
proof -
  let ?s = "core_new demo_store ()" and ?t = "snd (create_persisted_project offline_env 5 (core_new demo_store ()))"
  have "reach core_init (core_step offline_env) ?s"
    by (rule reach_init) (use demo_store_inv in \<open>auto simp: core_init_def core_new_def\<close>)
  moreover have step: "core_step offline_env ?s ?t"
    by (rule core_step.intros(17) [OF prod.collapse [symmetric]])
  ultimately have "reach core_init (core_step offline_env) ?t" by (rule reach_step)
  from core_stays_well_formed [OF this] step show ?thesis by blast
qed

definition old_envelope :: command_execution_envelope where
  "old_envelope = \<lparr>en_request_id = [5], en_session_id = SessionId [115], en_project_id = ProjectId 1,
     en_command = demo_command, en_environment_policy = RuntimeManagedClean, en_project_epoch = 0\<rparr>"

theorem task_revokes_authority_witness:
  "\<exists>out t e v. run_backend_task online_env 9 sample_project (SessionId [115]) Anonymous task_policy (lit ''go'')
      (core_new blank_store ()) = (Inr out, t)
    \<and> start_authorized_project_command_with_lifecycle_held (online_env\<lparr>ce_process := None\<rparr>) sample_project
        (SessionId [115]) old_envelope \<lparr>po_timeout_ms = 1000, po_max_stdout_bytes = 10, po_max_stderr_bytes = 10\<rparr> t
      = (Inl e, v)"
proof -
  obtain out t where task: "run_backend_task online_env 9 sample_project (SessionId [115]) Anonymous task_policy
      (lit ''go'') (core_new blank_store ()) = (Inr out, t)"
    using online_task by (metis is_ok_simps(1) old.sum.exhaust prod.collapse)
  have none: "ce_process online_env = None" by (simp add: online_env_def offline_env_def)
  from task_revokes_authority [OF task run_refl, of old_envelope] task show ?thesis
    by (fastforce simp: old_envelope_def sample_project_def none)
qed

end
