(* ===== verification/Tree_Digest.thy ===== *)
theory Tree_Digest
  imports Build_Repair "HOL-Library.List_Lexorder"
begin

text \<open>
  The digest format of \<open>vibecoder-checkpoint-local\<close>: a project tree is fed to SHA-256 as one record per
  directory and file, in the byte order of the names. A \<open>tree\<close> is what the format is meant to tell
  apart: names, nesting, contents and the owner's execute permission. The main lemma is that the format
  is unambiguous, so that equal digests mean equal trees unless SHA-256 collides on their records.
\<close>

section \<open>Trees and records\<close>

datatype tree = Leaf bool "byte list" | Branch "(rstring \<times> tree) list"

datatype tree_record = DirectoryRecord rstring | FileRecord rstring bool "byte list"

definition child_path :: "rstring \<Rightarrow> rstring \<Rightarrow> rstring" where
  "child_path dir name = (if dir = [] then name else dir @ [47] @ name)"

definition u64_to_be_bytes :: "u64 \<Rightarrow> byte list" where
  "u64_to_be_bytes w = map (\<lambda>i. ucast (drop_bit (8 * i) w)) [7, 6, 5, 4, 3, 2, 1, 0]"

definition path_record :: "rstring \<Rightarrow> byte list" where
  "path_record value = u64_to_be_bytes (of_nat (byte_len value)) @ as_bytes value"

fun record_bytes :: "tree_record \<Rightarrow> byte list" where
  "record_bytes (DirectoryRecord p) = 68 # path_record p"
| "record_bytes (FileRecord p x content) =
     70 # path_record p @ u64_to_be_bytes (of_nat (length content)) @ [if x then 1 else 0] @ content"

fun record_path :: "tree_record \<Rightarrow> rstring" where
  "record_path (DirectoryRecord p) = p"
| "record_path (FileRecord p x content) = p"

fun tree_records :: "rstring \<Rightarrow> tree \<Rightarrow> tree_record list" where
  "tree_records p (Leaf x content) = [FileRecord p x content]"
| "tree_records p (Branch es) =
     DirectoryRecord p # concat (map (\<lambda>(name, t). tree_records (child_path p name) t) es)"

definition entry_records :: "rstring \<Rightarrow> (rstring \<times> tree) list \<Rightarrow> tree_record list" where
  "entry_records p es = concat (map (\<lambda>(name, t). tree_records (child_path p name) t) es)"

text \<open>All that is hashed for the contents of a project directory.\<close>

definition tree_stream :: "(rstring \<times> tree) list \<Rightarrow> byte list" where
  "tree_stream es = concat (map record_bytes (entry_records [] es))"

text \<open>Names are distinct, neither empty nor longer than a file name may be, and hold no separator.\<close>

definition rust_text :: "rstring \<Rightarrow> bool" where
  "rust_text s \<longleftrightarrow> list_all (\<lambda>c. c < 1114112) s"

definition NAME_MAX :: nat where "NAME_MAX = 255"

definition entry_name_ok :: "rstring \<Rightarrow> bool" where
  "entry_name_ok name \<longleftrightarrow> name \<noteq> [] \<and> 47 \<notin> set name \<and> rust_text name \<and> byte_len name \<le> NAME_MAX"

fun tree_ok :: "nat \<Rightarrow> tree \<Rightarrow> bool" where
  "tree_ok h (Leaf x content) \<longleftrightarrow> length content < 2 ^ 64"
| "tree_ok h (Branch es) \<longleftrightarrow> h \<noteq> 0 \<and> distinct (map fst es)
     \<and> (\<forall>(name, t) \<in> set es. entry_name_ok name \<and> tree_ok (h - 1) t)"

definition entries_ok :: "nat \<Rightarrow> (rstring \<times> tree) list \<Rightarrow> bool" where
  "entries_ok h es \<longleftrightarrow> distinct (map fst es)
     \<and> (\<forall>(name, t) \<in> set es. entry_name_ok name \<and> tree_ok h t)"

section \<open>Lemmas\<close>

lemma tree_records_Branch [simp]: "tree_records p (Branch es) = DirectoryRecord p # entry_records p es"
  by (simp add: entry_records_def)

lemma tree_ok_Branch [simp]: "tree_ok h (Branch es) \<longleftrightarrow> h \<noteq> 0 \<and> entries_ok (h - 1) es"
  by (simp add: entries_ok_def)

declare tree_records.simps(2) [simp del] tree_ok.simps(2) [simp del]

lemma entry_records_simps [simp]:
  "entry_records p [] = []"
  "entry_records p ((name, t) # es) = tree_records (child_path p name) t @ entry_records p es"
  "entry_records p (es @ fs) = entry_records p es @ entry_records p fs"
  by (simp_all add: entry_records_def)

lemma entries_ok_simps [simp]:
  "entries_ok h []"
  "entries_ok h ((name, t) # es) \<longleftrightarrow>
     name \<notin> fst ` set es \<and> entry_name_ok name \<and> tree_ok h t \<and> entries_ok h es"
  by (auto simp: entries_ok_def)

subsection \<open>Texts\<close>

lemma div_mod_eqI: "c div k = d div k \<Longrightarrow> c mod k = d mod k \<Longrightarrow> c = d" for c d k :: nat
  by (metis div_mult_mod_eq)

definition encoded_length :: "nat \<Rightarrow> nat" where
  "encoded_length b = (if b < 128 then 1 else if b < 224 then 2 else if b < 240 then 3 else 4)"

lemma encode_char_length:
  assumes "c < 1114112"
  shows "encoded_length (hd (encode_char c)) = length (encode_char c)"
proof -
  have "c div 64 < 32" if "c < 2048" using that by simp
  moreover have "c div 4096 < 16" if "c < 65536" using that by simp
  ultimately show ?thesis using assms by (auto simp: encode_char_def encoded_length_def)
qed

lemma encode_char_inj:
  assumes "encode_char c = encode_char d"
  shows "c = d"
proof -
  have "c div 64 = d div 64" if "(c div 64) div 64 = (d div 64) div 64" "(c div 64) mod 64 = (d div 64) mod 64"
    using that by (rule div_mod_eqI)
  moreover have "c div 4096 = d div 4096"
    if "(c div 4096) div 64 = (d div 4096) div 64" "(c div 4096) mod 64 = (d div 4096) mod 64"
    using that by (rule div_mod_eqI)
  moreover have "c = d" if "c div 64 = d div 64" "c mod 64 = d mod 64" using that by (rule div_mod_eqI)
  ultimately show ?thesis
    using assms by (simp add: encode_char_def flip: div_mult2_eq split: if_split_asm)
qed

lemma encode_char_nonempty [simp]: "encode_char c \<noteq> []"
  by (simp add: encode_char_def)

lemma encode_char_prefix:
  assumes "encode_char c @ xs = encode_char d @ ys" and "c < 1114112" and "d < 1114112"
  shows "c = d \<and> xs = ys"
proof -
  have "hd (encode_char c) = hd (encode_char d)"
    using assms(1) encode_char_nonempty by (metis hd_append2)
  then have "length (encode_char c) = length (encode_char d)"
    using encode_char_length assms(2,3) by metis
  then show ?thesis using assms(1) encode_char_inj by simp
qed

lemma encode_char_bytes: "c < 1114112 \<Longrightarrow> b \<in> set (encode_char c) \<Longrightarrow> b < 256"
  by (auto simp: encode_char_def less_mult_imp_div_less split: if_splits)

lemma concat_encode_inj:
  "concat (map encode_char s) = concat (map encode_char t) \<Longrightarrow> rust_text s \<Longrightarrow> rust_text t \<Longrightarrow> s = t"
proof (induction s arbitrary: t)
  case Nil
  then show ?case by (cases t) auto
next
  case (Cons c s)
  then obtain d t' where t: "t = d # t'" by (cases t) auto
  then have "c < 1114112" "d < 1114112" using Cons.prems by (simp_all add: rust_text_def)
  with Cons.prems(1) t have "c = d \<and> concat (map encode_char s) = concat (map encode_char t')"
    by (intro encode_char_prefix) simp_all
  then show ?case using Cons t by (simp add: rust_text_def)
qed

lemma as_bytes_eq: "as_bytes s = map of_nat (concat (map encode_char s))"
  by (induction s) (simp_all add: as_bytes_def)

lemma as_bytes_inj:
  assumes "as_bytes s = as_bytes t" and "rust_text s" and "rust_text t"
  shows "s = t"
proof -
  have bytes: "set (concat (map encode_char s)) \<subseteq> {..<256}" if "rust_text s" for s
    using that encode_char_bytes by (auto simp: rust_text_def list_all_iff)
  have "inj_on (of_nat :: nat \<Rightarrow> byte) {..<256}"
    by (rule inj_onI) (simp add: word_of_nat_eq_iff take_bit_eq_mod)
  then have "inj_on (of_nat :: nat \<Rightarrow> byte)
      (set (concat (map encode_char s)) \<union> set (concat (map encode_char t)))"
    by (rule inj_on_subset) (use bytes assms(2,3) in blast)
  then have "concat (map encode_char s) = concat (map encode_char t)"
    by (rule map_inj_on [OF assms(1) [unfolded as_bytes_eq]])
  then show ?thesis using assms(2,3) by (rule concat_encode_inj)
qed

lemma length_as_bytes [simp]: "length (as_bytes s) = byte_len s"
proof -
  have "length (encode_char c) = char_len_utf8 c" for c by (simp add: encode_char_def char_len_utf8_def)
  then show ?thesis by (induction s) (simp_all add: as_bytes_def byte_len_def)
qed

subsection \<open>Records\<close>

lemma u64_to_be_bytes_inj:
  assumes "u64_to_be_bytes v = u64_to_be_bytes w"
  shows "v = w"
proof (rule bit_word_eqI)
  fix n
  assume n: "n < LENGTH(64)"
  define i where "i = n div 8"
  have "i \<in> set [7, 6, 5, 4, 3, 2, 1, 0]" using n by (simp add: i_def) arith
  then have "(ucast (drop_bit (8 * i) v) :: byte) = ucast (drop_bit (8 * i) w)"
    using assms unfolding u64_to_be_bytes_def map_eq_conv by blast
  then have "bit (ucast (drop_bit (8 * i) v) :: byte) (n mod 8) = bit (ucast (drop_bit (8 * i) w) :: byte) (n mod 8)"
    by simp
  then show "bit v n = bit w n" by (simp add: bit_simps i_def)
qed

lemma length_u64_to_be_bytes [simp]: "length (u64_to_be_bytes w) = 8"
  by (simp add: u64_to_be_bytes_def)

lemma be_bytes_prefix: "u64_to_be_bytes v @ xs = u64_to_be_bytes w @ ys \<longleftrightarrow> v = w \<and> xs = ys"
  using u64_to_be_bytes_inj by auto

lemma of_nat_u64_inj: "(of_nat m :: u64) = of_nat n \<Longrightarrow> m < 2 ^ 64 \<Longrightarrow> n < 2 ^ 64 \<Longrightarrow> m = n"
  by (simp add: word_of_nat_eq_iff take_bit_eq_mod)

definition path_fits :: "rstring \<Rightarrow> bool" where
  "path_fits p \<longleftrightarrow> rust_text p \<and> byte_len p < 2 ^ 64"

fun record_fits :: "tree_record \<Rightarrow> bool" where
  "record_fits (DirectoryRecord p) = path_fits p"
| "record_fits (FileRecord p x content) = (path_fits p \<and> length content < 2 ^ 64)"

lemma path_record_prefix:
  assumes "path_record p @ xs = path_record q @ ys" and "path_fits p" and "path_fits q"
  shows "p = q \<and> xs = ys"
proof -
  have "(of_nat (byte_len p) :: u64) = of_nat (byte_len q)" "as_bytes p @ xs = as_bytes q @ ys"
    using assms(1) by (simp_all add: path_record_def be_bytes_prefix)
  moreover from this(1) have "length (as_bytes p) = length (as_bytes q)"
    using assms(2,3) of_nat_u64_inj by (simp add: path_fits_def)
  ultimately show ?thesis using as_bytes_inj assms(2,3) by (simp add: path_fits_def)
qed

lemma record_prefix:
  assumes "record_bytes r @ xs = record_bytes q @ ys" and "record_fits r" and "record_fits q"
  shows "r = q \<and> xs = ys"
proof (cases r)
  case r: (DirectoryRecord p)
  show ?thesis
  proof (cases q)
    case (DirectoryRecord p')
    then show ?thesis using assms r path_record_prefix [of p xs p' ys] by simp
  qed (use assms(1) r in simp)
next
  case r: (FileRecord p x content)
  show ?thesis
  proof (cases q)
    case q: (FileRecord p' x' content')
    let ?rest = "\<lambda>x content zs. u64_to_be_bytes (of_nat (length content)) @ (if x then 1 else 0) # content @ zs"
    have "path_record p @ ?rest x content xs = path_record p' @ ?rest x' content' ys"
      using assms(1) r q by simp
    then have "p = p' \<and> ?rest x content xs = ?rest x' content' ys"
      by (rule path_record_prefix) (use assms r q in simp_all)
    moreover from this have "length content = length content'"
      using of_nat_u64_inj assms(2,3) r q by (simp add: be_bytes_prefix)
    ultimately show ?thesis using r q by (auto simp: be_bytes_prefix split: if_splits)
  qed (use assms(1) r in simp)
qed

lemma record_bytes_nonempty [simp]: "record_bytes r \<noteq> []"
  by (cases r) simp_all

lemma records_inj:
  "concat (map record_bytes rs) = concat (map record_bytes qs)
    \<Longrightarrow> list_all record_fits rs \<Longrightarrow> list_all record_fits qs \<Longrightarrow> rs = qs"
proof (induction rs arbitrary: qs)
  case Nil
  then show ?case by (cases qs) auto
next
  case (Cons r rs)
  then obtain q qs' where q: "qs = q # qs'" by (cases qs) auto
  then have "r = q \<and> concat (map record_bytes rs) = concat (map record_bytes qs')"
    using Cons.prems by (intro record_prefix) simp_all
  then show ?case using Cons q by simp
qed

subsection \<open>Trees\<close>

lemma child_path_inj:
  assumes "child_path p m @ [47] @ u = child_path p n @ [47] @ v" and "47 \<notin> set m" and "47 \<notin> set n"
  shows "m = n"
proof -
  have "m @ 47 # u = n @ 47 # v" using assms(1) by (auto simp: child_path_def split: if_splits)
  moreover have "takeWhile (\<lambda>c. c \<noteq> 47) (w @ 47 # z) = w" if "47 \<notin> set w" for w z :: rstring
    using that by (induction w) auto
  ultimately show ?thesis using assms(2,3) by metis
qed

lemma child_path_eq [simp]: "child_path p m = child_path p n \<longleftrightarrow> m = n"
  by (auto simp: child_path_def)

definition below :: "rstring \<Rightarrow> tree_record \<Rightarrow> bool" where
  "below p r \<longleftrightarrow> (\<exists>u. record_path r = p @ [47] @ u)"

lemma below_child:
  assumes "p \<noteq> []"
  shows "record_path r = child_path p n \<Longrightarrow> below p r" "below (child_path p n) r \<Longrightarrow> below p r"
  using assms by (auto simp: below_def child_path_def)

lemma entry_records_below:
  assumes "p \<noteq> []" and "r \<in> set (entry_records p es)"
  shows "below p r"
proof -
  have records: "record_path r = p \<or> below p r" if "r \<in> set (tree_records p t)" "p \<noteq> []" for p t
    using that
  proof (induction p t rule: tree_records.induct)
    case (2 p es)
    show ?case
    proof (cases "r = DirectoryRecord p")
      case False
      then obtain n t where n: "(n, t) \<in> set es" "r \<in> set (tree_records (child_path p n) t)"
        using 2(2) by (auto simp: entry_records_def)
      have "record_path r = child_path p n \<or> below (child_path p n) r"
        using 2(1) [OF n(1) refl n(2)] 2(3) by (simp add: child_path_def)
      then show ?thesis using 2(3) below_child by blast
    qed simp
  qed simp
  obtain n t where n: "r \<in> set (tree_records (child_path p n) t)"
    using assms(2) by (auto simp: entry_records_def)
  have "child_path p n \<noteq> []" using assms(1) by (simp add: child_path_def)
  from records [OF n this] show ?thesis using below_child [OF assms(1)] by blast
qed

lemma entry_records_elsewhere:
  assumes "r \<in> set (entry_records p es)" and "name \<notin> fst ` set es" and "entries_ok h es" and "47 \<notin> set name"
  shows "\<not> below (child_path p name) r"
proof
  assume "below (child_path p name) r"
  then obtain u where u: "record_path r = child_path p name @ [47] @ u" by (auto simp: below_def)
  obtain n t where n: "(n, t) \<in> set es" "r \<in> set (tree_records (child_path p n) t)"
    using assms(1) by (auto simp: entry_records_def)
  have ok: "entry_name_ok n" using assms(3) n(1) by (auto simp: entries_ok_def)
  have "n \<noteq> name" using assms(2) n(1) by (metis fst_conv image_eqI)
  with ok have slash: "47 \<notin> set n" "n \<noteq> name" "child_path p n \<noteq> []"
    by (simp_all add: entry_name_ok_def child_path_def)
  consider "record_path r = child_path p n" | v where "record_path r = child_path p n @ [47] @ v"
  proof (cases t)
    case (Branch fs)
    then have "r = DirectoryRecord (child_path p n) \<or> below (child_path p n) r"
      using n(2) entry_records_below slash(3) by auto
    then show thesis using that by (auto simp: below_def)
  qed (use n(2) that in simp)
  then show False
  proof cases
    case 1
    then have "n = name @ 47 # u" using u by (auto simp: child_path_def split: if_splits)
    then show False using slash(1) by simp
  next
    case 2
    then show False using child_path_inj u slash assms(4) by metis
  qed
qed

lemma takeWhile_split:
  "list_all P xs \<Longrightarrow> list_all (\<lambda>y. \<not> P y) ys \<Longrightarrow> takeWhile P (xs @ ys) = xs"
  by (induction xs) (cases ys; auto)+

lemma entry_records_inj:
  "entry_records p es = entry_records p fs \<Longrightarrow> entries_ok h es \<Longrightarrow> entries_ok h' fs \<Longrightarrow> es = fs"
proof (induction "size (Branch es)" arbitrary: p es fs h h' rule: less_induct)
  case less
  show ?case
  proof (cases es)
    case Nil
    then show ?thesis using less.prems by (cases fs) (auto elim: tree_records.elims)
  next
    case es: (Cons e es')
    obtain name t where e: "e = (name, t)" by (cases e)
    have "entry_records p es \<noteq> []" using es e by (cases t) auto
    then obtain f fs' where fs: "fs = f # fs'" using less.prems(1) by (cases fs) auto
    obtain name' t' where f: "f = (name', t')" by (cases f)
    have heads: "record_path (hd (entry_records p es)) = child_path p name"
      "record_path (hd (entry_records p fs)) = child_path p name'"
      using es e fs f by (cases t; cases t'; simp)+
    then have name: "name' = name" using less.prems(1) by simp
    show ?thesis
    proof (cases t)
      case t: (Leaf x content)
      then have "t' = t \<and> entry_records p es' = entry_records p fs'"
        using less.prems(1) es e fs f name by (cases t') auto
      moreover from this have "es' = fs'"
        using less.hyps [of es' p fs' h h'] less.prems(2,3) es e fs f by simp
      ultimately show ?thesis using es e fs f name by simp
    next
      case t: (Branch us)
      then obtain us' where t': "t' = Branch us'"
        using less.prems(1) es e fs f name by (cases t') auto
      let ?q = "child_path p name"
      have eq: "entry_records ?q us @ entry_records p es' = entry_records ?q us' @ entry_records p fs'"
        using less.prems(1) es e fs f name t t' by simp
      have oks: "entries_ok (h - 1) us" "entries_ok (h' - 1) us'" "entries_ok h es'" "entries_ok h' fs'"
        "name \<notin> fst ` set es'" "name \<notin> fst ` set fs'" "47 \<notin> set name" "?q \<noteq> []"
        using less.prems(2,3) es e fs f name t t' by (auto simp: entry_name_ok_def child_path_def)
      have "takeWhile (below ?q) (entry_records ?q ws @ entry_records p rs) = entry_records ?q ws"
        if "entries_ok k rs" "name \<notin> fst ` set rs" for ws rs k
        using that oks(7,8) entry_records_below entry_records_elsewhere
        by (intro takeWhile_split) (auto simp: list_all_iff)
      then have "entry_records ?q us = entry_records ?q us'" using eq oks by metis
      moreover from this have "entry_records p es' = entry_records p fs'" using eq by simp
      ultimately have "us = us'" "es' = fs'"
        using less.hyps [of us ?q us' "h - 1" "h' - 1"] less.hyps [of es' p fs' h h'] oks es e t by simp_all
      then show ?thesis using es e fs f name t t' by simp
    qed
  qed
qed

subsection \<open>Well-formed trees have short paths\<close>

lemma rust_text_child [simp]: "rust_text (child_path p n) \<longleftrightarrow> rust_text p \<and> rust_text n"
  by (auto simp: rust_text_def child_path_def)

lemma byte_len_child: "byte_len (child_path p n) \<le> byte_len p + byte_len n + 1"
  by (simp add: child_path_def char_len_utf8_def)

lemma tree_records_fit:
  assumes "tree_ok h t" and "rust_text p" and "byte_len p + 256 * h < 2 ^ 64" and "r \<in> set (tree_records p t)"
  shows "record_fits r"
  using assms
proof (induction p t arbitrary: h rule: tree_records.induct)
  case (1 p x content)
  then show ?case by (simp add: path_fits_def)
next
  case (2 p es)
  show ?case
  proof (cases "r = DirectoryRecord p")
    case True
    then show ?thesis using 2(3,4) by (simp add: path_fits_def)
  next
    case False
    then obtain n t where n: "(n, t) \<in> set es" "r \<in> set (tree_records (child_path p n) t)"
      using 2(5) by (auto simp: entry_records_def)
    have ok: "h \<noteq> 0" "entry_name_ok n" "tree_ok (h - 1) t" using 2(2) n(1) by (auto simp: entries_ok_def)
    have "byte_len (child_path p n) + 256 * (h - 1) < 2 ^ 64"
      using byte_len_child [of p n] ok(1,2) 2(4) by (cases h) (simp_all add: entry_name_ok_def NAME_MAX_def)
    then show ?thesis using 2(1) [OF n(1) refl ok(3) _ _ n(2)] ok(2) 2(3) by (simp add: entry_name_ok_def)
  qed
qed

lemma entry_records_fit:
  assumes "entries_ok h es" and "h \<le> 129"
  shows "list_all record_fits (entry_records [] es)"
proof -
  have "record_fits r" if "(n, t) \<in> set es" "r \<in> set (tree_records n t)" for n t r
  proof -
    have "tree_ok h t" "rust_text n" "byte_len n \<le> 255"
      using assms(1) that(1) by (auto simp: entries_ok_def entry_name_ok_def NAME_MAX_def)
    then show ?thesis using tree_records_fit [OF _ _ _ that(2)] assms(2) by simp
  qed
  then show ?thesis by (auto simp: list_all_iff entry_records_def child_path_def)
qed

theorem tree_stream_inj:
  assumes "tree_stream es = tree_stream fs" and "entries_ok h es" and "entries_ok k fs"
    and "h \<le> 129" and "k \<le> 129"
  shows "es = fs"
proof -
  have "entry_records [] es = entry_records [] fs"
    using assms entry_records_fit by (intro records_inj) (simp_all add: tree_stream_def)
  then show ?thesis using assms(2,3) by (rule entry_records_inj)
qed

end
