(* ===== verification/Inode_Store.thy ===== *)
theory Inode_Store
  imports Domain Effects
begin

text \<open>
  The operating system as the file operations of \<open>crates/vibecoder-workspace-local\<close> use it: an explicit
  store of inodes. A directory maps names to inodes, so that hard links, replaced files and open
  descriptors behave as they do on Unix: a descriptor is the inode it was opened on, and a rename
  changes a directory and leaves the bytes of every inode alone.

  Everything the program cannot know is an argument \<open>os\<close>, asked once per system call: what other
  processes have done to the store before the call, whether the call fails, the inode a creation gets,
  the order in which a directory is read, the bytes a read returns while others may be writing, and
  what a path outside the descriptors resolves to. The metadata of a file (\<open>file_status\<close>) is shared with
  the checkpoint store.
\<close>

section \<open>Metadata\<close>

datatype file_type = RegularFile | DirectoryFile | SymlinkFile | OtherFile

record file_status =
  fs_type :: file_type
  fs_dev :: u64
  fs_ino :: u64
  fs_nlink :: u64
  fs_mode :: u32
  fs_len :: u64

section \<open>Inodes\<close>

type_synonym inode_id = "u64 \<times> u64"

record regular =
  rg_mode :: u32
  rg_nlink :: u64
  rg_bytes :: "byte list"

datatype inode =
    RegularInode regular
  | DirectoryInode u32 "(path \<times> inode_id) list"
  | SymlinkInode
  | SpecialInode

type_synonym store = "inode_id \<rightharpoonup> inode"

definition dir_entries :: "store \<Rightarrow> inode_id \<Rightarrow> (path \<times> inode_id) list" where
  "dir_entries st d = (case st d of Some (DirectoryInode mode es) \<Rightarrow> es | _ \<Rightarrow> [])"

definition dir_entry :: "store \<Rightarrow> inode_id \<Rightarrow> rstring \<Rightarrow> inode_id option" where
  "dir_entry st d name = map_of (dir_entries st d) (Utf8Path name)"

definition is_directory :: "store \<Rightarrow> inode_id \<Rightarrow> bool" where
  "is_directory st d \<longleftrightarrow> (case st d of Some (DirectoryInode mode es) \<Rightarrow> True | _ \<Rightarrow> False)"

definition regular_at :: "store \<Rightarrow> inode_id \<Rightarrow> regular option" where
  "regular_at st i = (case st i of Some (RegularInode r) \<Rightarrow> Some r | _ \<Rightarrow> None)"

primrec inode_status :: "inode_id \<Rightarrow> inode \<Rightarrow> file_status" where
  "inode_status i (RegularInode r) =
     \<lparr>fs_type = RegularFile, fs_dev = fst i, fs_ino = snd i, fs_nlink = rg_nlink r,
      fs_mode = rg_mode r, fs_len = of_nat (length (rg_bytes r))\<rparr>"
| "inode_status i (DirectoryInode mode es) =
     \<lparr>fs_type = DirectoryFile, fs_dev = fst i, fs_ino = snd i, fs_nlink = 2, fs_mode = mode,
      fs_len = 0\<rparr>"
| "inode_status i SymlinkInode =
     \<lparr>fs_type = SymlinkFile, fs_dev = fst i, fs_ino = snd i, fs_nlink = 1, fs_mode = 0, fs_len = 0\<rparr>"
| "inode_status i SpecialInode =
     \<lparr>fs_type = OtherFile, fs_dev = fst i, fs_ino = snd i, fs_nlink = 1, fs_mode = 0, fs_len = 0\<rparr>"

definition link_count :: "(u64 \<Rightarrow> u64) \<Rightarrow> inode_id \<Rightarrow> store \<Rightarrow> store" where
  "link_count f i st =
     (case regular_at st i of None \<Rightarrow> st
      | Some r \<Rightarrow> st(i \<mapsto> RegularInode (r\<lparr>rg_nlink := f (rg_nlink r)\<rparr>)))"

definition change_entries ::
    "((path \<times> inode_id) list \<Rightarrow> (path \<times> inode_id) list) \<Rightarrow> inode_id \<Rightarrow> store \<Rightarrow> store" where
  "change_entries f d st =
     (case st d of Some (DirectoryInode mode es) \<Rightarrow> st(d \<mapsto> DirectoryInode mode (f es)) | _ \<Rightarrow> st)"

definition remove_entry :: "rstring \<Rightarrow> inode_id \<Rightarrow> store \<Rightarrow> store" where
  "remove_entry name = change_entries (filter (\<lambda>(p, i). p \<noteq> Utf8Path name))"

definition add_entry_at :: "rstring \<Rightarrow> inode_id \<Rightarrow> inode_id \<Rightarrow> store \<Rightarrow> store" where
  "add_entry_at name i = change_entries (\<lambda>es. (Utf8Path name, i) # es)"

section \<open>The system\<close>

datatype errno = NotFound | AlreadyExists | OtherError

record os =
  os_others :: "nat \<Rightarrow> store \<Rightarrow> store"
  os_error :: "nat \<Rightarrow> errno option"
  os_inode :: "nat \<Rightarrow> inode_id"
  os_order :: "nat \<Rightarrow> path list \<Rightarrow> path list"
  os_data :: "nat \<Rightarrow> byte list \<Rightarrow> byte list"
  os_written :: "nat \<Rightarrow> nat"
  os_partial :: "nat \<Rightarrow> store \<Rightarrow> store"
  os_resolve :: "nat \<Rightarrow> path \<Rightarrow> inode_id option"
  os_follow :: "nat \<Rightarrow> path \<Rightarrow> inode_id option"
  os_canonical :: "nat \<Rightarrow> path \<Rightarrow> path"
  os_uuid :: "nat \<Rightarrow> uuid"

record machine =
  mc_calls :: nat
  mc_store :: store

type_synonym 'a syscall = "(machine, errno, 'a) eff"
type_synonym 'a act = "(machine, vibecoder_error, 'a) eff"

definition syscall :: "os \<Rightarrow> (nat \<Rightarrow> store \<Rightarrow> (errno + 'a) \<times> store) \<Rightarrow> 'a syscall" where
  "syscall os f m =
     (let k = mc_calls m; st = os_others os k (mc_store m) in
      case (case os_error os k of Some e \<Rightarrow> (Inl e, st) | None \<Rightarrow> f k st) of
        (r, st') \<Rightarrow> (r, \<lparr>mc_calls = k + 1, mc_store = st'\<rparr>))"

subsection \<open>Calls relative to a directory\<close>

definition sys_stat_at :: "os \<Rightarrow> inode_id \<Rightarrow> rstring \<Rightarrow> file_status syscall" where
  "sys_stat_at os d name = syscall os (\<lambda>k st.
     (case dir_entry st d name of None \<Rightarrow> Inl NotFound
      | Some i \<Rightarrow> (case st i of None \<Rightarrow> Inl NotFound | Some n \<Rightarrow> Inr (inode_status i n)), st))"

text \<open>\<open>openat\<close> with \<open>O_DIRECTORY | O_NOFOLLOW\<close>, and with \<open>O_NOFOLLOW\<close> for reading.\<close>

definition sys_open_dir_at :: "os \<Rightarrow> inode_id \<Rightarrow> rstring \<Rightarrow> inode_id syscall" where
  "sys_open_dir_at os d name = syscall os (\<lambda>k st.
     (case dir_entry st d name of None \<Rightarrow> Inl NotFound
      | Some i \<Rightarrow> if is_directory st i then Inr i else Inl OtherError, st))"

definition sys_open_file_at :: "os \<Rightarrow> inode_id \<Rightarrow> rstring \<Rightarrow> inode_id syscall" where
  "sys_open_file_at os d name = syscall os (\<lambda>k st.
     (case dir_entry st d name of None \<Rightarrow> Inl NotFound
      | Some i \<Rightarrow> if st i = None \<or> st i = Some SymlinkInode then Inl OtherError else Inr i, st))"

text \<open>\<open>mkdirat\<close>, and \<open>openat\<close> with \<open>O_CREAT | O_EXCL\<close>: a name that exists is an error, and the new
  inode is one that was free.\<close>

definition create_entry :: "inode \<Rightarrow> inode_id \<Rightarrow> rstring \<Rightarrow> inode_id \<Rightarrow> store \<Rightarrow> (errno + inode_id) \<times> store" where
  "create_entry n d name i st =
     (if \<not> is_directory st d then (Inl NotFound, st)
      else if dir_entry st d name \<noteq> None then (Inl AlreadyExists, st)
      else if st i \<noteq> None then (Inl OtherError, st)
      else (Inr i, add_entry_at name i d (st(i \<mapsto> n))))"

definition sys_mkdir_at :: "os \<Rightarrow> inode_id \<Rightarrow> rstring \<Rightarrow> u32 \<Rightarrow> inode_id syscall" where
  "sys_mkdir_at os d name mode =
     syscall os (\<lambda>k st. create_entry (DirectoryInode mode []) d name (os_inode os k) st)"

definition sys_create_at :: "os \<Rightarrow> inode_id \<Rightarrow> rstring \<Rightarrow> u32 \<Rightarrow> inode_id syscall" where
  "sys_create_at os d name mode = syscall os (\<lambda>k st.
     create_entry (RegularInode \<lparr>rg_mode = mode, rg_nlink = 1, rg_bytes = []\<rparr>) d name (os_inode os k) st)"

definition sys_unlink_at :: "os \<Rightarrow> inode_id \<Rightarrow> rstring \<Rightarrow> unit syscall" where
  "sys_unlink_at os d name = syscall os (\<lambda>k st.
     case dir_entry st d name of None \<Rightarrow> (Inl NotFound, st)
     | Some i \<Rightarrow> if is_directory st i then (Inl OtherError, st)
         else (Inr (), link_count (\<lambda>l. l - 1) i (remove_entry name d st)))"

definition sys_rmdir_at :: "os \<Rightarrow> inode_id \<Rightarrow> rstring \<Rightarrow> unit syscall" where
  "sys_rmdir_at os d name = syscall os (\<lambda>k st.
     case dir_entry st d name of None \<Rightarrow> (Inl NotFound, st)
     | Some i \<Rightarrow> if is_directory st i \<and> dir_entries st i = [] then (Inr (), remove_entry name d st)
         else (Inl OtherError, st))"

text \<open>\<open>renameat\<close> of a file within one directory: the entry that was there is replaced, and its inode
  loses a link. Two names of one inode are left alone.\<close>

definition rename_entry ::
    "inode_id \<Rightarrow> rstring \<Rightarrow> rstring \<Rightarrow> store \<Rightarrow> (errno + unit) \<times> store" where
  "rename_entry d old new st =
     (case dir_entry st d old of None \<Rightarrow> (Inl NotFound, st)
      | Some i \<Rightarrow>
          (case dir_entry st d new of
             None \<Rightarrow> (Inr (), add_entry_at new i d (remove_entry old d st))
           | Some j \<Rightarrow>
               if i = j then (Inr (), st)
               else if is_directory st j then (Inl OtherError, st)
               else (Inr (), link_count (\<lambda>l. l - 1) j
                      (add_entry_at new i d (remove_entry new d (remove_entry old d st))))))"

definition sys_rename_at :: "os \<Rightarrow> inode_id \<Rightarrow> rstring \<Rightarrow> rstring \<Rightarrow> unit syscall" where
  "sys_rename_at os d old new = syscall os (\<lambda>k. rename_entry d old new)"

definition sys_names :: "os \<Rightarrow> inode_id \<Rightarrow> path list syscall" where
  "sys_names os d = syscall os (\<lambda>k st.
     (if is_directory st d then Inr (os_order os k (map fst (dir_entries st d))) else Inl OtherError, st))"

subsection \<open>Calls on a descriptor\<close>

definition sys_fstat :: "os \<Rightarrow> inode_id \<Rightarrow> file_status syscall" where
  "sys_fstat os i = syscall os (\<lambda>k st.
     (case st i of None \<Rightarrow> Inl OtherError | Some n \<Rightarrow> Inr (inode_status i n), st))"

text \<open>\<open>take(limit).read_to_end()\<close>: a sequence of reads up to the limit.\<close>

definition sys_read_to_end :: "os \<Rightarrow> inode_id \<Rightarrow> nat \<Rightarrow> byte list syscall" where
  "sys_read_to_end os i limit = syscall os (\<lambda>k st.
     (case regular_at st i of None \<Rightarrow> Inl OtherError
      | Some r \<Rightarrow> Inr (take limit (os_data os k (rg_bytes r))), st))"

definition sys_chmod :: "os \<Rightarrow> inode_id \<Rightarrow> u32 \<Rightarrow> unit syscall" where
  "sys_chmod os i mode = syscall os (\<lambda>k st.
     (Inr (), case st i of
        Some (RegularInode r) \<Rightarrow> st(i \<mapsto> RegularInode (r\<lparr>rg_mode := mode\<rparr>))
      | Some (DirectoryInode old es) \<Rightarrow> st(i \<mapsto> DirectoryInode mode es)
      | _ \<Rightarrow> st))"

definition append_to :: "inode_id \<Rightarrow> byte list \<Rightarrow> store \<Rightarrow> store" where
  "append_to i bytes st =
     (case regular_at st i of None \<Rightarrow> st
      | Some r \<Rightarrow> st(i \<mapsto> RegularInode (r\<lparr>rg_bytes := rg_bytes r @ bytes\<rparr>)))"

text \<open>\<open>write_all\<close> to a file just created; one that fails may have written a part.\<close>

definition sys_write_all :: "os \<Rightarrow> inode_id \<Rightarrow> byte list \<Rightarrow> unit syscall" where
  "sys_write_all os i bytes m =
     (let k = mc_calls m; st = os_others os k (mc_store m) in
      case os_error os k of
        None \<Rightarrow> (Inr (), \<lparr>mc_calls = k + 1, mc_store = append_to i bytes st\<rparr>)
      | Some e \<Rightarrow>
          (Inl e, \<lparr>mc_calls = k + 1, mc_store = append_to i (take (os_written os k) bytes) st\<rparr>))"

definition sys_sync :: "os \<Rightarrow> inode_id \<Rightarrow> unit syscall" where
  "sys_sync os i = syscall os (\<lambda>k st. (Inr (), st))"

subsection \<open>Calls on a path\<close>

text \<open>\<open>symlink_metadata\<close> and \<open>open\<close> with \<open>O_NOFOLLOW\<close> use what the path itself names (\<open>os_resolve\<close>),
  \<open>metadata\<close> what it leads to when it names a link (\<open>os_follow\<close>).\<close>

definition path_status :: "inode_id option \<Rightarrow> store \<Rightarrow> (errno + file_status) \<times> store" where
  "path_status found st =
     (case found of None \<Rightarrow> Inl NotFound
      | Some i \<Rightarrow> (case st i of None \<Rightarrow> Inl NotFound | Some n \<Rightarrow> Inr (inode_status i n)), st)"

definition sys_symlink_metadata :: "os \<Rightarrow> path \<Rightarrow> file_status syscall" where
  "sys_symlink_metadata os p = syscall os (\<lambda>k. path_status (os_resolve os k p))"

definition sys_metadata :: "os \<Rightarrow> path \<Rightarrow> file_status syscall" where
  "sys_metadata os p = syscall os (\<lambda>k. path_status (os_follow os k p))"

definition sys_open_path :: "os \<Rightarrow> path \<Rightarrow> inode_id syscall" where
  "sys_open_path os p = syscall os (\<lambda>k st.
     (case os_resolve os k p of None \<Rightarrow> Inl NotFound
      | Some i \<Rightarrow> if is_directory st i then Inr i else Inl OtherError, st))"

definition sys_canonicalize :: "os \<Rightarrow> path \<Rightarrow> path syscall" where
  "sys_canonicalize os p = syscall os (\<lambda>k st. (Inr (os_canonical os k p), st))"

definition sys_uuid :: "os \<Rightarrow> uuid act" where
  "sys_uuid os m = (Inr (os_uuid os (mc_calls m)), m)"

definition expect :: "string \<Rightarrow> 'a syscall \<Rightarrow> 'a act" where
  "expect code c = smap_err (Workspace code) c"

end
