(* ===== verification/Checkpoint_Walk.thy ===== *)
theory Checkpoint_Walk
  imports Tree_Digest Checkpoint_Contract Inode_Store "HOL-Library.Multiset"
begin

text \<open>
  The tree walks of \<open>crates/vibecoder-checkpoint-local\<close>: hashing a tree and copying it while hashing.

  A directory is the list of its entries; a file has its identity, link count, mode and bytes. The
  operating system is the oracle \<open>disk_io\<close>, asked once per system call: \<open>dk_fails n\<close> says whether the
  \<open>n\<close>-th call fails, and \<open>dk_stat\<close>, \<open>dk_names\<close> and \<open>dk_read\<close> turn the true answer of a reading call into
  the one the program receives. So other processes may change what is being read at any moment, which
  is what the checks of the code are there for; \<open>quiet_io\<close> says that nobody does. A copy is written into a
  private directory that nobody else touches.
\<close>

unbundle bit_operations_syntax

section \<open>Files\<close>

record file_data =
  fd_dev :: u64
  fd_ino :: u64
  fd_nlink :: u64
  fd_mode :: u32
  fd_bytes :: "byte list"

datatype node = FileNode file_data | DirNode "(path \<times> node) list" | SymlinkNode | OtherNode

type_synonym entries = "(path \<times> node) list"

primrec children :: "node \<Rightarrow> entries" where
  "children (FileNode f) = []" | "children (DirNode es) = es"
| "children SymlinkNode = []" | "children OtherNode = []"

primrec node_bytes :: "node \<Rightarrow> byte list" where
  "node_bytes (FileNode f) = fd_bytes f" | "node_bytes (DirNode es) = []"
| "node_bytes SymlinkNode = []" | "node_bytes OtherNode = []"

definition special_status :: "file_type \<Rightarrow> file_status" where
  "special_status ty =
     \<lparr>fs_type = ty, fs_dev = 0, fs_ino = 0, fs_nlink = 1, fs_mode = 0, fs_len = 0\<rparr>"

primrec status :: "node \<Rightarrow> file_status" where
  "status (FileNode f) =
     \<lparr>fs_type = RegularFile, fs_dev = fd_dev f, fs_ino = fd_ino f, fs_nlink = fd_nlink f,
      fs_mode = fd_mode f, fs_len = of_nat (length (fd_bytes f))\<rparr>"
| "status (DirNode es) = special_status DirectoryFile"
| "status SymlinkNode = special_status SymlinkFile"
| "status OtherNode = special_status OtherFile"

section \<open>System calls\<close>

record disk_io =
  dk_fails :: "nat \<Rightarrow> bool"
  dk_stat :: "nat \<Rightarrow> file_status \<Rightarrow> file_status"
  dk_names :: "nat \<Rightarrow> path list \<Rightarrow> path list"
  dk_read :: "nat \<Rightarrow> byte list \<Rightarrow> byte list"
  dk_written :: "nat \<Rightarrow> nat"
  dk_new :: "nat \<Rightarrow> u64 \<times> u64"
  dk_contents :: "nat \<Rightarrow> byte list \<Rightarrow> byte list"
  dk_canonical :: "nat \<Rightarrow> path \<Rightarrow> path"
  dk_left :: "nat \<Rightarrow> node \<Rightarrow> node"
  dk_uuid :: "nat \<Rightarrow> uuid"
  dk_clock :: "nat \<Rightarrow> nat option"

record system = sy_calls :: nat

type_synonym ('s, 'a) disk_act = "('s, vibecoder_error, 'a) eff"

definition sys_ask :: "(nat \<Rightarrow> 'a) \<Rightarrow> ('s system_scheme, 'a) disk_act" where
  "sys_ask f s = (Inr (f (sy_calls s)), s\<lparr>sy_calls := sy_calls s + 1\<rparr>)"

definition sys :: "disk_io \<Rightarrow> string \<Rightarrow> ('s system_scheme, unit) disk_act" where
  "sys io code = sbind (sys_ask (dk_fails io))
     (\<lambda>failed. if failed then sfail (checkpoint_error code) else sreturn ())"

text \<open>\<open>symlink_metadata\<close> of an entry, which may not be there, and \<open>metadata\<close> of an open file.\<close>

definition sys_status ::
    "disk_io \<Rightarrow> string \<Rightarrow> node option \<Rightarrow> ('s system_scheme, file_status) disk_act" where
  "sys_status io code entry =
     sbind (sys io code)
     (\<lambda>_. case entry of None \<Rightarrow> sfail (checkpoint_error code)
        | Some n \<Rightarrow> sys_ask (\<lambda>k. dk_stat io k (status n)))"

text \<open>Opening with \<open>O_NOFOLLOW\<close>, and one \<open>read\<close>; the answer never exceeds the buffer.\<close>

definition sys_open :: "disk_io \<Rightarrow> string \<Rightarrow> node \<Rightarrow> ('s system_scheme, unit) disk_act" where
  "sys_open io code n = (if n = SymlinkNode then sfail (checkpoint_error code) else sys io code)"

definition sys_read ::
    "disk_io \<Rightarrow> string \<Rightarrow> nat \<Rightarrow> nat \<Rightarrow> node \<Rightarrow> ('s system_scheme, byte list) disk_act" where
  "sys_read io code want offset n =
     sbind (sys io code)
     (\<lambda>_. case n of
        FileNode f \<Rightarrow> sys_ask (\<lambda>k. take want (dk_read io k (take want (drop offset (fd_bytes f)))))
      | _ \<Rightarrow> sfail (checkpoint_error code))"

section \<open>Digest state\<close>

record digest_state =
  dg_hashed :: "byte list"
  dg_file_count :: u64
  dg_total_bytes :: u64

record tree_digest =
  td_file_count :: u64
  td_total_bytes :: u64
  td_sha256 :: rstring

definition digest_state_new :: digest_state where
  "digest_state_new = \<lparr>dg_hashed = [], dg_file_count = 0, dg_total_bytes = 0\<rparr>"

definition hash_update :: "digest_state \<Rightarrow> byte list \<Rightarrow> digest_state" where
  "hash_update d bytes = d\<lparr>dg_hashed := dg_hashed d @ bytes\<rparr>"

definition record_dir :: "digest_state \<Rightarrow> rstring \<Rightarrow> digest_state" where
  "record_dir d relative = hash_update (hash_update d [68]) (path_record relative)"

definition u64_checked_add :: "u64 \<Rightarrow> u64 \<Rightarrow> u64 option" where
  "u64_checked_add a b = (if a + b < a then None else Some (a + b))"

definition begin_file :: "digest_state \<Rightarrow> rstring \<Rightarrow> u64 \<Rightarrow> bool \<Rightarrow> digest_state result" where
  "begin_file d relative len executable =
     rbind (ok_or (checked_succ (dg_file_count d)) (checkpoint_error ''checkpoint_file_count_overflow''))
     (\<lambda>count. if count > MAX_CHECKPOINT_FILES
        then Inl (checkpoint_error ''checkpoint_file_count_limit'')
        else rbind (ok_or (u64_checked_add (dg_total_bytes d) len)
               (checkpoint_error ''checkpoint_total_bytes_overflow''))
     (\<lambda>total. if total > MAX_CHECKPOINT_TOTAL_BYTES
        then Inl (checkpoint_error ''checkpoint_total_bytes_limit'')
        else Inr (hash_update (hash_update (hash_update (hash_update
               (d\<lparr>dg_file_count := count, dg_total_bytes := total\<rparr>) [70]) (path_record relative))
               (u64_to_be_bytes len)) [if executable then 1 else 0])))"

definition hex_lower :: "byte list \<Rightarrow> rstring" where
  "hex_lower bytes = concat (map hex_byte bytes)"

definition digest_finish :: "(byte list \<Rightarrow> byte list) \<Rightarrow> digest_state \<Rightarrow> tree_digest" where
  "digest_finish H d =
     \<lparr>td_file_count = dg_file_count d, td_total_bytes = dg_total_bytes d,
      td_sha256 = hex_lower (H (dg_hashed d))\<rparr>"

section \<open>Reading a directory\<close>

definition CHECKPOINT_TEMP_PREFIX :: rstring where
  "CHECKPOINT_TEMP_PREFIX = lit ''.vibecoder-checkpoint-tmp-''"
definition ROLLBACK_TEMP_PREFIX :: rstring where "ROLLBACK_TEMP_PREFIX = lit ''.vibecoder-rollback-''"
definition WORKSPACE_TEMP_PREFIX :: rstring where "WORKSPACE_TEMP_PREFIX = lit ''.vibecoder-tmp-''"

definition tree_entry_name :: "path \<Rightarrow> rstring result" where
  "tree_entry_name entry =
     rbind (ok_or (to_str entry) (checkpoint_error ''checkpoint_path_not_utf8''))
     (\<lambda>name. if name = [] \<or> list_ex is_control name \<or> 47 \<in> set name \<or> 92 \<in> set name
               \<or> starts_with name WORKSPACE_TEMP_PREFIX \<or> starts_with name ROLLBACK_TEMP_PREFIX
               \<or> starts_with name CHECKPOINT_TEMP_PREFIX
        then Inl (checkpoint_error ''checkpoint_path_component_invalid'') else Inr name)"

fun read_names :: "disk_io \<Rightarrow> path list \<Rightarrow> ('s system_scheme, rstring list) disk_act" where
  "read_names io [] = sbind (sys io ''checkpoint_tree_read_dir_failed'') (\<lambda>_. sreturn [])"
| "read_names io (entry # rest) =
     sbind (sys io ''checkpoint_tree_read_dir_failed'')
     (\<lambda>_. sbind (slift (tree_entry_name entry))
     (\<lambda>name. sbind (read_names io rest) (\<lambda>names. sreturn (name # names))))"

definition pin_directory :: "disk_io \<Rightarrow> node \<Rightarrow> ('s system_scheme, rstring list) disk_act" where
  "pin_directory io n =
     sbind (sys io ''checkpoint_tree_directory_open_failed'')
     (\<lambda>_. case n of
        DirNode es \<Rightarrow>
          sbind (sys_status io ''checkpoint_tree_directory_metadata_failed'' (Some n))
          (\<lambda>st. if fs_type st \<noteq> DirectoryFile
                then sfail (checkpoint_error ''checkpoint_tree_directory_invalid'')
                else sbind (sys io ''checkpoint_tree_read_dir_failed'')
          (\<lambda>_. sbind (sys_ask (\<lambda>k. dk_names io k (map fst es)))
          (\<lambda>listed. sbind (read_names io listed)
          (\<lambda>names. sreturn (sort_key as_bytes names)))))
      | _ \<Rightarrow> sfail (checkpoint_error ''checkpoint_tree_directory_open_failed''))"

section \<open>Hashing a tree\<close>

definition BUFFER_BYTES :: nat where "BUFFER_BYTES = 64 * 1024"

definition owner_executable :: "file_status \<Rightarrow> bool" where
  "owner_executable st \<longleftrightarrow> fs_mode st AND 0x40 \<noteq> 0"

definition same_file :: "file_status \<Rightarrow> file_status \<Rightarrow> bool" where
  "same_file a b \<longleftrightarrow> fs_dev a = fs_dev b \<and> fs_ino a = fs_ino b"

function hash_loop ::
    "disk_io \<Rightarrow> node \<Rightarrow> nat \<Rightarrow> nat \<Rightarrow> digest_state \<Rightarrow> ('s system_scheme, digest_state \<times> nat) disk_act" where
  "hash_loop io n offset remaining d =
     (if remaining = 0 then sreturn (d, offset)
      else sbind (sys_read io ''checkpoint_hash_file_read_failed'' (min BUFFER_BYTES remaining) offset n)
        (\<lambda>chunk. if chunk = [] then sfail (checkpoint_error ''checkpoint_hash_file_short_read'')
           else hash_loop io n (offset + length chunk) (remaining - length chunk) (hash_update d chunk)))"
  by pat_completeness auto
termination
  by (relation "measure (\<lambda>(io, n, offset, remaining, d). remaining)") auto

definition hash_file ::
    "disk_io \<Rightarrow> node \<Rightarrow> file_status \<Rightarrow> rstring \<Rightarrow> digest_state \<Rightarrow> ('s system_scheme, digest_state) disk_act" where
  "hash_file io n before relative d =
     (if fs_nlink before \<noteq> 1 then sfail (checkpoint_error ''checkpoint_hard_link_forbidden'')
      else sbind (slift (begin_file d relative (fs_len before) (owner_executable before)))
      (\<lambda>d. sbind (sys_open io ''checkpoint_hash_file_open_failed'' n)
      (\<lambda>_. sbind (sys_status io ''checkpoint_hash_file_stat_failed'' (Some n))
      (\<lambda>opened. if \<not> same_file opened before \<or> fs_nlink opened \<noteq> 1
         then sfail (checkpoint_error ''checkpoint_hash_file_changed_during_open'')
         else sbind (hash_loop io n 0 (unat (fs_len before)) d)
      (\<lambda>(d, offset). sbind (sys_read io ''checkpoint_hash_file_read_failed'' 1 offset n)
      (\<lambda>extra. if extra \<noteq> [] then sfail (checkpoint_error ''checkpoint_hash_file_grew'')
         else sbind (sys_status io ''checkpoint_hash_file_post_stat_failed'' (Some n))
      (\<lambda>after. if \<not> same_file after before \<or> fs_len after \<noteq> fs_len before \<or> fs_nlink after \<noteq> 1
         then sfail (checkpoint_error ''checkpoint_hash_file_changed'')
         else sreturn d)))))))"

lemma size_child: "map_of es name = Some n \<Longrightarrow> size n < size_list (size_prod (\<lambda>_. 0) size) es"
  by (induction es) (auto split: if_splits)

function hash_dir_recursive ::
    "disk_io \<Rightarrow> node \<Rightarrow> rstring \<Rightarrow> nat \<Rightarrow> digest_state \<Rightarrow> ('s system_scheme, digest_state) disk_act"
and hash_entries ::
    "disk_io \<Rightarrow> entries \<Rightarrow> rstring list \<Rightarrow> rstring \<Rightarrow> nat \<Rightarrow> digest_state
      \<Rightarrow> ('s system_scheme, digest_state) disk_act" where
  "hash_dir_recursive io n dir depth d =
     (if depth > MAX_CHECKPOINT_DEPTH then sfail (checkpoint_error ''checkpoint_depth_limit'')
      else sbind (pin_directory io n) (\<lambda>names. hash_entries io (children n) names dir depth d))"
| "hash_entries io es [] dir depth d = sreturn d"
| "hash_entries io es (name # names) dir depth d =
     (case map_of es (Utf8Path name) of
        None \<Rightarrow> sbind (sys io ''checkpoint_tree_entry_metadata_failed'')
                  (\<lambda>_. sfail (checkpoint_error ''checkpoint_tree_entry_metadata_failed''))
      | Some n \<Rightarrow>
          sbind (sys_status io ''checkpoint_tree_entry_metadata_failed'' (Some n))
          (\<lambda>before. sbind
             (case fs_type before of
                SymlinkFile \<Rightarrow> sfail (checkpoint_error ''checkpoint_symlink_forbidden'')
              | DirectoryFile \<Rightarrow>
                  hash_dir_recursive io n (child_path dir name) (depth + 1)
                    (record_dir d (child_path dir name))
              | RegularFile \<Rightarrow> hash_file io n before (child_path dir name) d
              | OtherFile \<Rightarrow> sfail (checkpoint_error ''checkpoint_special_file_forbidden''))
          (\<lambda>d. hash_entries io es names dir depth d)))"
  by pat_completeness auto
termination
proof (relation "measures
    [\<lambda>x. case x of Inl (io, n, dir, depth, d) \<Rightarrow> size n
       | Inr (io, es, names, dir, depth, d) \<Rightarrow> size_list (size_prod (\<lambda>_. 0) size) es,
     \<lambda>x. case x of Inl _ \<Rightarrow> 1 | Inr _ \<Rightarrow> 0,
     \<lambda>x. case x of Inl _ \<Rightarrow> 0 | Inr (io, es, names, dir, depth, d) \<Rightarrow> length names]", goal_cases)
  case (2 io n dir depth d names)
  then show ?case by (cases n) auto
qed (auto dest: size_child)

section \<open>Copying a tree\<close>

text \<open>The directory that is being filled, while its parents wait.\<close>

record copying = system +
  cp_entries :: entries

definition PRIVATE_FILE_MODE :: u32 where "PRIVATE_FILE_MODE = 0x180"

definition set_private_dir_mode :: "disk_io \<Rightarrow> ('s system_scheme, unit) disk_act" where
  "set_private_dir_mode io =
     sbind (sys io ''checkpoint_directory_mode_stat_failed'')
     (\<lambda>_. sys io ''checkpoint_directory_mode_failed'')"

definition sync_dir :: "disk_io \<Rightarrow> ('s system_scheme, unit) disk_act" where
  "sync_dir io =
     sbind (sys io ''checkpoint_directory_open_failed'')
     (\<lambda>_. sys io ''checkpoint_directory_sync_failed'')"

definition add_entry :: "string \<Rightarrow> rstring \<Rightarrow> node \<Rightarrow> (copying, unit) disk_act" where
  "add_entry code name n s =
     (if map_of (cp_entries s) (Utf8Path name) \<noteq> None then (Inl (checkpoint_error code), s)
      else (Inr (), s\<lparr>cp_entries := cp_entries s @ [(Utf8Path name, n)]\<rparr>))"

definition update_entry :: "rstring \<Rightarrow> (node \<Rightarrow> node) \<Rightarrow> entries \<Rightarrow> entries" where
  "update_entry name f es = map (\<lambda>(p, n). (p, if p = Utf8Path name then f n else n)) es"

definition copy_into :: "rstring \<Rightarrow> (copying, 'a) disk_act \<Rightarrow> (copying, 'a) disk_act" where
  "copy_into name m s =
     (case m (s\<lparr>cp_entries := []\<rparr>) of
        (r, t) \<Rightarrow>
          (r, t\<lparr>cp_entries := update_entry name (\<lambda>_. DirNode (cp_entries t)) (cp_entries s)\<rparr>))"

definition append_bytes :: "byte list \<Rightarrow> node \<Rightarrow> node" where
  "append_bytes bytes n =
     (case n of FileNode f \<Rightarrow> FileNode (f\<lparr>fd_bytes := fd_bytes f @ bytes\<rparr>) | _ \<Rightarrow> n)"

definition write_all :: "disk_io \<Rightarrow> rstring \<Rightarrow> byte list \<Rightarrow> (copying, unit) disk_act" where
  "write_all io name chunk s =
     (let failed = dk_fails io (sy_calls s);
          written = (if failed then take (dk_written io (sy_calls s)) chunk else chunk)
      in (if failed then Inl (checkpoint_error ''checkpoint_copy_file_write_failed'') else Inr (),
          s\<lparr>sy_calls := sy_calls s + 1,
            cp_entries := update_entry name (append_bytes written) (cp_entries s)\<rparr>))"

function copy_loop ::
    "disk_io \<Rightarrow> node \<Rightarrow> rstring \<Rightarrow> nat \<Rightarrow> nat \<Rightarrow> digest_state
      \<Rightarrow> (copying, digest_state \<times> nat) disk_act" where
  "copy_loop io n name offset remaining d =
     (if remaining = 0 then sreturn (d, offset)
      else sbind (sys_read io ''checkpoint_source_file_read_failed'' (min BUFFER_BYTES remaining) offset n)
        (\<lambda>chunk. if chunk = [] then sfail (checkpoint_error ''checkpoint_source_file_short_read'')
           else sbind (write_all io name chunk)
             (\<lambda>_. copy_loop io n name (offset + length chunk) (remaining - length chunk)
                    (hash_update d chunk))))"
  by pat_completeness auto
termination
  by (relation "measure (\<lambda>(io, n, name, offset, remaining, d). remaining)") auto

definition copy_file ::
    "disk_io \<Rightarrow> node \<Rightarrow> file_status \<Rightarrow> rstring \<Rightarrow> rstring \<Rightarrow> digest_state
      \<Rightarrow> (copying, digest_state) disk_act" where
  "copy_file io n before name relative d =
     (if fs_nlink before \<noteq> 1 then sfail (checkpoint_error ''checkpoint_hard_link_forbidden'')
      else let executable = owner_executable before in
      sbind (slift (begin_file d relative (fs_len before) executable))
      (\<lambda>d. sbind (sys_open io ''checkpoint_source_file_open_failed'' n)
      (\<lambda>_. sbind (sys_status io ''checkpoint_source_file_stat_failed'' (Some n))
      (\<lambda>opened. if fs_type opened \<noteq> RegularFile \<or> fs_nlink opened \<noteq> 1 \<or> \<not> same_file opened before
         then sfail (checkpoint_error ''checkpoint_source_changed_during_open'')
         else let mode = PRIVATE_FILE_MODE OR (if executable then 0x40 else 0) in
      sbind (sys io ''checkpoint_copy_file_create_failed'')
      (\<lambda>_. sbind (sys_ask (dk_new io))
      (\<lambda>(dev, ino). sbind (add_entry ''checkpoint_copy_file_create_failed'' name
         (FileNode \<lparr>fd_dev = dev, fd_ino = ino, fd_nlink = 1, fd_mode = mode, fd_bytes = []\<rparr>))
      (\<lambda>_. sbind (copy_loop io n name 0 (unat (fs_len before)) d)
      (\<lambda>(d, offset). sbind (sys_read io ''checkpoint_source_file_read_failed'' 1 offset n)
      (\<lambda>extra. if extra \<noteq> [] then sfail (checkpoint_error ''checkpoint_source_file_grew_during_copy'')
         else sbind (sys io ''checkpoint_copy_file_sync_failed'')
      (\<lambda>_. sbind (sys_status io ''checkpoint_source_file_post_stat_failed'' (Some n))
      (\<lambda>after. if \<not> same_file after before \<or> fs_len after \<noteq> fs_len before \<or> fs_nlink after \<noteq> 1
         then sfail (checkpoint_error ''checkpoint_source_changed_during_copy'')
         else sreturn d)))))))))))"

function copy_dir_recursive ::
    "disk_io \<Rightarrow> node \<Rightarrow> rstring \<Rightarrow> nat \<Rightarrow> digest_state \<Rightarrow> (copying, digest_state) disk_act"
and copy_entries ::
    "disk_io \<Rightarrow> entries \<Rightarrow> rstring list \<Rightarrow> rstring \<Rightarrow> nat \<Rightarrow> digest_state
      \<Rightarrow> (copying, digest_state) disk_act" where
  "copy_dir_recursive io n dir depth d =
     (if depth > MAX_CHECKPOINT_DEPTH then sfail (checkpoint_error ''checkpoint_depth_limit'')
      else sbind (pin_directory io n)
      (\<lambda>names. sbind (\<lambda>s. pin_directory io (DirNode (cp_entries s)) s)
      (\<lambda>_. copy_entries io (children n) names dir depth d)))"
| "copy_entries io es [] dir depth d = sreturn d"
| "copy_entries io es (name # names) dir depth d =
     (case map_of es (Utf8Path name) of
        None \<Rightarrow> sbind (sys io ''checkpoint_tree_entry_metadata_failed'')
                  (\<lambda>_. sfail (checkpoint_error ''checkpoint_tree_entry_metadata_failed''))
      | Some n \<Rightarrow>
          sbind (sys_status io ''checkpoint_tree_entry_metadata_failed'' (Some n))
          (\<lambda>before. sbind
             (case fs_type before of
                SymlinkFile \<Rightarrow> sfail (checkpoint_error ''checkpoint_symlink_forbidden'')
              | DirectoryFile \<Rightarrow>
                  sbind (sys io ''checkpoint_copy_dir_create_failed'')
                  (\<lambda>_. sbind (add_entry ''checkpoint_copy_dir_create_failed'' name (DirNode []))
                  (\<lambda>_. sbind (set_private_dir_mode io)
                  (\<lambda>_. sbind (copy_into name
                       (copy_dir_recursive io n (child_path dir name) (depth + 1)
                         (record_dir d (child_path dir name))))
                  (\<lambda>d. sbind (sync_dir io) (\<lambda>_. sreturn d)))))
              | RegularFile \<Rightarrow> copy_file io n before name (child_path dir name) d
              | OtherFile \<Rightarrow> sfail (checkpoint_error ''checkpoint_special_file_forbidden''))
          (\<lambda>d. copy_entries io es names dir depth d)))"
  by pat_completeness auto
termination
proof (relation "measures
    [\<lambda>x. case x of Inl (io, n, dir, depth, d) \<Rightarrow> size n
       | Inr (io, es, names, dir, depth, d) \<Rightarrow> size_list (size_prod (\<lambda>_. 0) size) es,
     \<lambda>x. case x of Inl _ \<Rightarrow> 1 | Inr _ \<Rightarrow> 0,
     \<lambda>x. case x of Inl _ \<Rightarrow> 0 | Inr (io, es, names, dir, depth, d) \<Rightarrow> length names]", goal_cases)
  case (2 io n dir depth d names)
  then show ?case by (cases n) auto
qed (auto dest: size_child)

declare hash_loop.simps [simp del] hash_dir_recursive.simps [simp del] hash_entries.simps [simp del]
  copy_loop.simps [simp del] copy_dir_recursive.simps [simp del] copy_entries.simps [simp del]

section \<open>Successful calls\<close>

named_theorems done_simps \<open>what a successful operation went through\<close>

lemma sbind_done [done_simps]:
  "sbind m f s = (Inr b, t) \<longleftrightarrow> (\<exists>a u. m s = (Inr a, u) \<and> f a u = (Inr b, t))"
  by (auto simp: sbind_def split: prod.split sum.split)

lemma slift_done [done_simps]: "slift r s = (Inr a, t) \<longleftrightarrow> r = Inr a \<and> t = s"
  by (auto simp: slift_def)

lemma sreturn_done [done_simps]: "sreturn a s = (Inr b, t) \<longleftrightarrow> a = b \<and> t = s"
  by (auto simp: sreturn_def)

lemma sfail_done [done_simps]: "sfail e s = (Inr b, t) \<longleftrightarrow> False"
  by (simp add: sfail_def)

lemma if_done [done_simps]:
  "(if c then m else n) s = (Inr b, t) \<longleftrightarrow> (c \<longrightarrow> m s = (Inr b, t)) \<and> (\<not> c \<longrightarrow> n s = (Inr b, t))"
  by simp

definition advanced :: "'s system_scheme \<Rightarrow> 's system_scheme \<Rightarrow> bool" where
  "advanced s t \<longleftrightarrow> (\<exists>k. t = s\<lparr>sy_calls := k\<rparr>)"

lemma advanced_refl [simp]: "advanced s s"
  unfolding advanced_def by (rule exI [of _ "sy_calls s"]) simp

lemma advanced_trans: "advanced s t \<Longrightarrow> advanced t u \<Longrightarrow> advanced s u"
  by (auto simp: advanced_def)

lemma advanced_entries: "advanced s t \<Longrightarrow> cp_entries t = cp_entries s"
  by (auto simp: advanced_def)

text \<open>Calls that only read leave nothing changed, whatever they return.\<close>

definition reads_only :: "('s system_scheme, 'a) disk_act \<Rightarrow> bool" where
  "reads_only m \<longleftrightarrow> (\<forall>s. advanced s (snd (m s)))"

named_theorems reads_only_intros \<open>operations that only read\<close>

lemma reads_onlyD: "reads_only m \<Longrightarrow> m s = (r, t) \<Longrightarrow> advanced s t"
  unfolding reads_only_def by (metis snd_conv)

lemma reads_only_basic [reads_only_intros]:
  "reads_only (slift r)" "reads_only (sreturn a)" "reads_only (sfail e)"
  by (simp_all add: reads_only_def slift_def sreturn_def sfail_def)

lemma reads_only_ask [reads_only_intros]: "reads_only (sys_ask f)"
  by (auto simp: reads_only_def sys_ask_def advanced_def)

lemma reads_only_sbind [reads_only_intros]:
  assumes "reads_only m" and "\<And>a. reads_only (f a)"
  shows "reads_only (sbind m f)"
  unfolding reads_only_def
proof
  fix s
  obtain r t where m: "m s = (r, t)" by (cases "m s")
  then have "advanced s t" by (rule reads_onlyD [OF assms(1)])
  moreover have "advanced t (snd (f a t))" for a using assms(2) by (simp add: reads_only_def)
  ultimately show "advanced s (snd (sbind m f s))"
    using m by (cases r) (auto simp: sbind_def intro: advanced_trans)
qed

lemma reads_only_if [reads_only_intros]:
  "(c \<Longrightarrow> reads_only m) \<Longrightarrow> (\<not> c \<Longrightarrow> reads_only n) \<Longrightarrow> reads_only (if c then m else n)"
  by simp

lemma reads_only_node [reads_only_intros]:
  "(\<And>f. reads_only (a f)) \<Longrightarrow> (\<And>es. reads_only (b es)) \<Longrightarrow> reads_only c \<Longrightarrow> reads_only d
    \<Longrightarrow> reads_only (case n of FileNode f \<Rightarrow> a f | DirNode es \<Rightarrow> b es | SymlinkNode \<Rightarrow> c | OtherNode \<Rightarrow> d)"
  by (cases n) simp_all

lemma reads_only_option [reads_only_intros]:
  "reads_only m \<Longrightarrow> (\<And>a. reads_only (f a)) \<Longrightarrow> reads_only (case x of None \<Rightarrow> m | Some a \<Rightarrow> f a)"
  by (cases x) simp_all

lemma reads_only_sys [reads_only_intros]: "reads_only (sys io code)"
  unfolding sys_def by (intro reads_only_intros)

lemma reads_only_calls [reads_only_intros]:
  "reads_only (sys_status io code entry)" "reads_only (sys_open io code n)"
  "reads_only (sys_read io code' want offset n)" "reads_only (set_private_dir_mode io)"
  "reads_only (sync_dir io)"
  unfolding sys_status_def sys_open_def sys_read_def set_private_dir_mode_def sync_dir_def
  by (intro reads_only_intros)+

lemma reads_only_names [reads_only_intros]: "reads_only (read_names io listed)"
  by (induction listed) (auto intro!: reads_only_intros)

lemma reads_only_pin [reads_only_intros]: "reads_only (pin_directory io n)"
  unfolding pin_directory_def by (intro reads_only_intros)

lemma reads_only_hash_loop [reads_only_intros]: "reads_only (hash_loop io n offset remaining d)"
proof (induction io n offset remaining d rule: hash_loop.induct)
  case (1 io n offset remaining d)
  then show ?case by (subst hash_loop.simps) (auto intro!: reads_only_intros)
qed

lemma reads_only_prod [reads_only_intros]:
  "(\<And>a b. reads_only (f a b)) \<Longrightarrow> reads_only (case r of (a, b) \<Rightarrow> f a b)"
  by (cases r) simp

lemma reads_only_hash_file [reads_only_intros]: "reads_only (hash_file io n before relative d)"
  unfolding hash_file_def by (intro reads_only_intros)

lemma reads_only_hash:
  "reads_only (hash_dir_recursive io n dir depth d :: ('s system_scheme, digest_state) disk_act)"
  "reads_only (hash_entries io es names dir depth d :: ('s system_scheme, digest_state) disk_act)"
proof (induction io n dir depth d and io es names dir depth d rule: hash_dir_recursive_hash_entries.induct)
  case (1 io n dir depth d)
  then show ?case by (subst hash_dir_recursive.simps) (auto intro!: reads_only_intros)
next
  case (3 io es name names dir depth d)
  then show ?case
    by (subst hash_entries.simps) (auto intro!: reads_only_intros split: file_type.split option.split)
qed (simp add: hash_entries.simps reads_only_intros)

declare reads_only_hash [reads_only_intros]

section \<open>What a copy is\<close>

definition path_name :: "path \<Rightarrow> rstring" where
  "path_name p = (case p of Utf8Path name \<Rightarrow> name | RawPath _ \<Rightarrow> [])"

text \<open>The tree a node holds, with its entries in the order of the digest.\<close>

definition name_key :: "rstring \<times> 'a \<Rightarrow> byte list" where "name_key e = as_bytes (fst e)"

fun tree_of :: "node \<Rightarrow> tree" where
  "tree_of (FileNode f) = Leaf (fd_mode f AND 0x40 \<noteq> 0) (fd_bytes f)"
| "tree_of (DirNode es) = Branch (sort_key name_key (map (\<lambda>(p, n). (path_name p, tree_of n)) es))"
| "tree_of SymlinkNode = Leaf False []"
| "tree_of OtherNode = Leaf False []"

definition tree_entry :: "path \<times> node \<Rightarrow> rstring \<times> tree" where
  "tree_entry = (\<lambda>(p, n). (path_name p, tree_of n))"

definition tree_entries :: "node \<Rightarrow> (rstring \<times> tree) list" where
  "tree_entries n = sort_key name_key (map tree_entry (children n))"

lemma tree_of_DirNode [simp]: "tree_of (DirNode es) = Branch (tree_entries (DirNode es))"
  by (simp add: tree_entries_def tree_entry_def)

declare tree_of.simps(2) [simp del]

fun add_record :: "digest_state \<Rightarrow> tree_record \<Rightarrow> digest_state" where
  "add_record d (DirectoryRecord p) = hash_update d (record_bytes (DirectoryRecord p))"
| "add_record d (FileRecord p x content) =
     (hash_update d (record_bytes (FileRecord p x content)))
       \<lparr>dg_file_count := dg_file_count d + 1, dg_total_bytes := dg_total_bytes d + of_nat (length content)\<rparr>"

definition entries_digest :: "(byte list \<Rightarrow> byte list) \<Rightarrow> (rstring \<times> tree) list \<Rightarrow> tree_digest" where
  "entries_digest H es = digest_finish H (foldl add_record digest_state_new (entry_records [] es))"

definition path_ok :: "path \<Rightarrow> bool" where
  "path_ok p \<longleftrightarrow> (\<exists>name. p = Utf8Path name \<and> entry_name_ok name)"

fun node_ok :: "nat \<Rightarrow> node \<Rightarrow> bool" where
  "node_ok h (FileNode f) \<longleftrightarrow> length (fd_bytes f) < 2 ^ 64"
| "node_ok h (DirNode es) \<longleftrightarrow> h \<noteq> 0 \<and> distinct (map fst es)
     \<and> (\<forall>(p, n) \<in> set es. path_ok p \<and> node_ok (h - 1) n)"
| "node_ok h SymlinkNode \<longleftrightarrow> False"
| "node_ok h OtherNode \<longleftrightarrow> False"

definition dir_ok :: "nat \<Rightarrow> entries \<Rightarrow> bool" where
  "dir_ok h es \<longleftrightarrow> distinct (map fst es) \<and> (\<forall>(p, n) \<in> set es. path_ok p \<and> node_ok h n)"

lemma node_ok_DirNode [simp]: "node_ok h (DirNode es) \<longleftrightarrow> h \<noteq> 0 \<and> dir_ok (h - 1) es"
  by (simp add: dir_ok_def)

declare node_ok.simps(2) [simp del]

lemma path_name_Utf8 [simp]: "path_name (Utf8Path name) = name"
  by (simp add: path_name_def)

text \<open>The operating system delivers file names that are texts or raw bytes and at most \<open>NAME_MAX\<close> long.
  It is quiet when nobody else changes what is read.\<close>

definition os_name :: "path \<Rightarrow> bool" where
  "os_name p = (case p of Utf8Path name \<Rightarrow> rust_text name \<and> byte_len name \<le> NAME_MAX | RawPath _ \<Rightarrow> True)"

definition names_io :: "disk_io \<Rightarrow> bool" where
  "names_io io \<longleftrightarrow> (\<forall>k ps. list_all os_name (dk_names io k ps))"

definition quiet_io :: "disk_io \<Rightarrow> bool" where
  "quiet_io io \<longleftrightarrow> (\<forall>k. (\<forall>st. dk_stat io k st = st)
     \<and> (\<forall>ps. list_all os_name ps \<longrightarrow> mset (dk_names io k ps) = mset ps)
     \<and> (\<forall>bs. prefix (dk_read io k bs) bs \<and> (bs \<noteq> [] \<longrightarrow> dk_read io k bs \<noteq> []))
     \<and> (\<forall>bs. dk_contents io k bs = bs))"

text \<open>What a file system holds: no directory has two entries of the same name.\<close>

fun on_disk :: "node \<Rightarrow> bool" where
  "on_disk (DirNode es) \<longleftrightarrow>
     distinct (map fst es) \<and> (\<forall>(p, n) \<in> set es. os_name p \<and> on_disk n)"
| "on_disk _ \<longleftrightarrow> True"

subsection \<open>Trees of nodes\<close>

lemma distinct_fst_sort: "distinct (map fst (sort_key k xs)) = distinct (map fst xs)"
  by (rule mset_eq_imp_distinct_iff) simp

lemma path_name_inj: "path_ok p \<Longrightarrow> path_ok q \<Longrightarrow> path_name p = path_name q \<Longrightarrow> p = q"
  by (auto simp: path_ok_def)

lemma node_ok_on_disk: "node_ok h n \<Longrightarrow> on_disk n"
proof (induction h n rule: node_ok.induct)
  case (2 h es)
  have "os_name p \<and> on_disk n" if "(p, n) \<in> set es" for p n
    using 2 that by (fastforce simp: dir_ok_def path_ok_def os_name_def entry_name_ok_def)
  then show ?case using 2(2) by (auto simp: dir_ok_def)
qed simp_all

lemma node_ok_tree: "node_ok h n \<Longrightarrow> tree_ok h (tree_of n)"
proof (induction h n rule: node_ok.induct)
  case (2 h es)
  have each: "entry_name_ok (path_name p) \<and> tree_ok (h - 1) (tree_of n) \<and> path_ok p" if "(p, n) \<in> set es" for p n
    using 2 that by (fastforce simp: dir_ok_def path_ok_def)
  have "inj_on path_name (fst ` set es)"
    using each path_name_inj by (auto intro!: inj_onI)
  then have "distinct (map path_name (map fst es))"
    using 2(2) by (simp add: dir_ok_def distinct_map del: map_map)
  moreover have "map fst (map tree_entry es) = map path_name (map fst es)"
    by (simp add: tree_entry_def split_def)
  ultimately have "entries_ok (h - 1) (sort_key name_key (map tree_entry es))"
    using each by (auto simp: entries_ok_def tree_entry_def distinct_fst_sort simp del: map_map)
  then show ?case using 2(2) by (simp add: tree_entries_def)
qed simp_all

section \<open>Copies are exact\<close>

lemma sys_done: "sys io code s = (Inr u, t) \<Longrightarrow> advanced s t"
  by (rule reads_onlyD [OF reads_only_sys])

lemma sys_ask_done: "sys_ask f s = (Inr a, t) \<Longrightarrow> a = f (sy_calls s) \<and> advanced s t"
  by (auto simp: sys_ask_def advanced_def)

lemma sys_read_done:
  assumes "sys_read io code want offset n s = (Inr chunk, t)"
  shows "advanced s t \<and> length chunk \<le> want
    \<and> (quiet_io io \<longrightarrow> prefix chunk (drop offset (node_bytes n))
         \<and> (chunk = [] \<longrightarrow> want = 0 \<or> drop offset (node_bytes n) = []))"
proof -
  obtain f k u where n: "n = FileNode f" and u: "advanced s u"
    and chunk: "chunk = take want (dk_read io k (take want (drop offset (fd_bytes f))))" "advanced u t"
    using assms by (auto simp: sys_read_def done_simps dest!: sys_done sys_ask_done split: node.splits)
  have "prefix chunk (drop offset (fd_bytes f)) \<and> (chunk = [] \<longrightarrow> want = 0 \<or> drop offset (fd_bytes f) = [])"
    if q: "quiet_io io"
  proof -
    let ?truth = "take want (drop offset (fd_bytes f))"
    have p: "prefix (dk_read io k ?truth) ?truth" "?truth \<noteq> [] \<Longrightarrow> dk_read io k ?truth \<noteq> []"
      using q by (simp_all add: quiet_io_def)
    then have "chunk = dk_read io k ?truth"
      using chunk(1) prefix_length_le by fastforce
    then show ?thesis using p take_is_prefix prefix_order.trans by (metis take_eq_Nil)
  qed
  then show ?thesis using n u chunk advanced_trans by auto
qed

lemma write_all_done:
  assumes "write_all io name chunk s = (Inr u, t)"
  shows "cp_entries t = update_entry name (append_bytes chunk) (cp_entries s)"
  using assms by (auto simp: write_all_def Let_def split: if_splits)

lemma update_last:
  assumes "Utf8Path name \<notin> fst ` set es"
  shows "update_entry name f (es @ [(Utf8Path name, n)]) = es @ [(Utf8Path name, f n)]"
proof -
  have "update_entry name f es = es" using assms by (induction es) (auto simp: update_entry_def)
  then show ?thesis by (simp add: update_entry_def)
qed

lemma hash_update_simps [simp]:
  "hash_update d [] = d" "hash_update (hash_update d a) b = hash_update d (a @ b)"
  by (simp_all add: hash_update_def)

lemma prefix_split: "prefix a xs \<Longrightarrow> xs = a @ drop (length a) xs"
  by (auto simp: prefix_def)

lemma copy_loop_done:
  assumes "copy_loop io n name offset remaining d s = (Inr (d', offset'), t)"
    and "cp_entries s = es @ [(Utf8Path name, FileNode f)]" and "Utf8Path name \<notin> fst ` set es"
  shows "\<exists>bytes. length bytes = remaining \<and> offset' = offset + remaining \<and> d' = hash_update d bytes
    \<and> cp_entries t = es @ [(Utf8Path name, FileNode (f\<lparr>fd_bytes := fd_bytes f @ bytes\<rparr>))]
    \<and> (quiet_io io \<longrightarrow> prefix bytes (drop offset (node_bytes n)))"
  using assms
proof (induction io n name offset remaining d arbitrary: s f rule: copy_loop.induct)
  case (1 io n name offset remaining d)
  show ?case
  proof (cases "remaining = 0")
    case True
    have "(copy_loop io n name offset remaining d :: (copying, digest_state \<times> nat) disk_act) = sreturn (d, offset)"
      using True by (subst copy_loop.simps) simp
    then show ?thesis using True 1(2,3) by (auto simp: done_simps)
  next
    case False
    obtain chunk u v w where read: "sys_read io ''checkpoint_source_file_read_failed'' (min BUFFER_BYTES remaining) offset n s
        = (Inr chunk, u)"
      and chunk: "chunk \<noteq> []" and written: "write_all io name chunk u = (Inr v, w)"
      and rest: "copy_loop io n name (offset + length chunk) (remaining - length chunk) (hash_update d chunk) w
        = (Inr (d', offset'), t)"
      using 1(2) False by (subst (asm) copy_loop.simps) (auto simp: done_simps split: if_splits)
    note read = sys_read_done [OF read]
    let ?f = "f\<lparr>fd_bytes := fd_bytes f @ chunk\<rparr>"
    have w: "cp_entries w = es @ [(Utf8Path name, FileNode ?f)]"
      using write_all_done [OF written] read advanced_entries [of s u] 1(3) update_last [OF 1(4)]
      by (simp add: append_bytes_def)
    from 1(1) [OF False chunk rest w 1(4)] obtain bytes where bytes:
      "length bytes = remaining - length chunk" "offset' = offset + length chunk + (remaining - length chunk)"
      "d' = hash_update (hash_update d chunk) bytes"
      "cp_entries t = es @ [(Utf8Path name, FileNode (?f\<lparr>fd_bytes := fd_bytes ?f @ bytes\<rparr>))]"
      "quiet_io io \<Longrightarrow> prefix bytes (drop (offset + length chunk) (node_bytes n))" by blast
    have "length chunk \<le> remaining" using read by simp
    moreover have "prefix (chunk @ bytes) (drop offset (node_bytes n))" if "quiet_io io"
    proof -
      have "drop offset (node_bytes n) = chunk @ drop (length chunk) (drop offset (node_bytes n))"
        using that read by (intro prefix_split) simp
      moreover have "drop (length chunk) (drop offset (node_bytes n)) = drop (offset + length chunk) (node_bytes n)"
        by (simp add: add.commute)
      ultimately show ?thesis using bytes(5) [OF that] by (metis same_prefix_prefix)
    qed
    ultimately show ?thesis using bytes by (intro exI [of _ "chunk @ bytes"]) simp
  qed
qed

lemma begin_file_done:
  assumes "begin_file d relative len executable = Inr d'"
  shows "d' = (hash_update d (70 # path_record relative @ u64_to_be_bytes len @ [if executable then 1 else 0]))
    \<lparr>dg_file_count := dg_file_count d + 1, dg_total_bytes := dg_total_bytes d + len\<rparr>"
  using assms by (auto simp: begin_file_def rbind_eq_Inr ok_or_eq_Inr u64_checked_add_def checked_succ_def
      hash_update_def split: if_splits)

lemma mode_executable: "(PRIVATE_FILE_MODE OR (if x then 0x40 else 0)) AND 0x40 \<noteq> 0 \<longleftrightarrow> x"
  by (simp add: PRIVATE_FILE_MODE_def)

lemma add_entry_done:
  assumes "add_entry code name n s = (Inr u, t)"
  shows "Utf8Path name \<notin> fst ` set (cp_entries s) \<and> cp_entries t = cp_entries s @ [(Utf8Path name, n)]"
  using assms by (auto simp: add_entry_def map_of_eq_None_iff split: if_splits)

lemma copy_file_done:
  assumes "copy_file io n before name relative d s = (Inr d', t)"
  shows "\<exists>f. cp_entries t = cp_entries s @ [(Utf8Path name, FileNode f)]
    \<and> Utf8Path name \<notin> fst ` set (cp_entries s) \<and> length (fd_bytes f) < 2 ^ 64
    \<and> d' = foldl add_record d (tree_records relative (tree_of (FileNode f)))
    \<and> (quiet_io io \<longrightarrow> before = status n \<longrightarrow> tree_of (FileNode f) = tree_of n)"
proof -
  let ?x = "owner_executable before"
  obtain d0 u1 u2 u3 u4 u5 offset u6 u7 u8 dev ino st where begun: "begin_file d relative (fs_len before) ?x = Inr d0"
    and a: "sys_open io ''checkpoint_source_file_open_failed'' n s = (Inr (), u1)"
    "sys_status io ''checkpoint_source_file_stat_failed'' (Some n) u1 = (Inr st, u2)"
    "sys io ''checkpoint_copy_file_create_failed'' u2 = (Inr (), u3)"
    "sys_ask (dk_new io) u3 = (Inr (dev, ino), u4)"
    and created: "add_entry ''checkpoint_copy_file_create_failed'' name
      (FileNode \<lparr>fd_dev = dev, fd_ino = ino, fd_nlink = 1,
        fd_mode = PRIVATE_FILE_MODE OR (if ?x then 0x40 else 0), fd_bytes = []\<rparr>) u4 = (Inr (), u5)"
    and loop: "copy_loop io n name 0 (unat (fs_len before)) d0 u5 = (Inr (d', offset), u6)"
    and extra: "sys_read io ''checkpoint_source_file_read_failed'' 1 offset n u6 = (Inr [], u7)"
    and b: "sys io ''checkpoint_copy_file_sync_failed'' u7 = (Inr (), u8)"
    "\<exists>after. sys_status io ''checkpoint_source_file_post_stat_failed'' (Some n) u8 = (Inr after, t)"
    using assms by (auto simp: copy_file_def Let_def done_simps split: if_splits)
  have "advanced s u1" "advanced u1 u2" "advanced u2 u3" "advanced u3 u4"
    using a by (auto intro: reads_onlyD reads_only_intros)
  then have u4: "cp_entries u4 = cp_entries s" using advanced_entries by metis
  have t: "cp_entries t = cp_entries u6"
    using sys_read_done [OF extra] sys_done [OF b(1)] b(2) reads_onlyD [OF reads_only_calls(1)] advanced_entries
    by metis
  let ?f = "\<lparr>fd_dev = dev, fd_ino = ino, fd_nlink = 1,
        fd_mode = PRIVATE_FILE_MODE OR (if ?x then 0x40 else 0), fd_bytes = []\<rparr>"
  have fresh: "Utf8Path name \<notin> fst ` set (cp_entries s)" "cp_entries u5 = cp_entries s @ [(Utf8Path name, FileNode ?f)]"
    using add_entry_done [OF created] u4 by simp_all
  from copy_loop_done [OF loop fresh(2,1)] obtain bytes where bytes: "length bytes = unat (fs_len before)"
    "offset = unat (fs_len before)" "d' = hash_update d0 bytes"
    "cp_entries u6 = cp_entries s @ [(Utf8Path name, FileNode (?f\<lparr>fd_bytes := bytes\<rparr>))]"
    "quiet_io io \<Longrightarrow> prefix bytes (node_bytes n)" by auto
  have len: "length bytes < 2 ^ 64" "of_nat (length bytes) = fs_len before"
    using bytes(1) unsigned_less [of "fs_len before"] by simp_all
  have "d' = foldl add_record d (tree_records relative (tree_of (FileNode (?f\<lparr>fd_bytes := bytes\<rparr>))))"
    using begin_file_done [OF begun] bytes(3) len(2) by (simp add: mode_executable hash_update_def)
  moreover have "tree_of (FileNode (?f\<lparr>fd_bytes := bytes\<rparr>)) = tree_of n" if "quiet_io io" "before = status n"
  proof -
    obtain g where n: "n = FileNode g"
      using extra by (auto simp: sys_read_def done_simps split: node.splits)
    have "drop (length bytes) (fd_bytes g) = []"
      using sys_read_done [OF extra] that(1) bytes(1,2) n by simp
    then have "bytes = fd_bytes g" using prefix_split [of bytes "fd_bytes g"] bytes(5) [OF that(1)] n by simp
    then show ?thesis using that(2) n by (simp add: mode_executable owner_executable_def)
  qed
  ultimately show ?thesis using t bytes(4) fresh(1) len(1) by auto
qed

lemma tree_entry_name_done:
  assumes "tree_entry_name p = Inr name"
  shows "p = Utf8Path name \<and> name \<noteq> [] \<and> 47 \<notin> set name"
  using assms by (cases p) (auto simp: tree_entry_name_def to_str_def ok_or_def rbind_eq_Inr split: if_splits)

lemma read_names_done: "read_names io listed s = (Inr names, t) \<Longrightarrow> listed = map Utf8Path names
    \<and> (\<forall>name \<in> set names. name \<noteq> [] \<and> 47 \<notin> set name)"
proof (induction listed arbitrary: names s)
  case (Cons entry rest)
  then obtain name names' u where "tree_entry_name entry = Inr name" "names = name # names'"
    "read_names io rest u = (Inr names', t)" by (auto simp: done_simps)
  then show ?case using Cons.IH tree_entry_name_done by fastforce
qed (auto simp: done_simps)

lemma pin_directory_done:
  assumes "pin_directory io n s = (Inr names, t)" and "names_io io"
  shows "\<exists>es. n = DirNode es \<and> advanced s t \<and> (\<forall>name \<in> set names. entry_name_ok name)
    \<and> sorted (map as_bytes names)
    \<and> (quiet_io io \<longrightarrow> list_all os_name (map fst es) \<longrightarrow> mset (map Utf8Path names) = mset (map fst es))"
proof -
  obtain es k read u where n: "n = DirNode es" and read: "read_names io (dk_names io k (map fst es)) u = (Inr read, t)"
    and names: "names = sort_key as_bytes read"
    using assms(1) by (auto simp: pin_directory_def done_simps dest!: sys_ask_done split: node.splits if_splits)
  note listed = read_names_done [OF read]
  have "entry_name_ok name" if "name \<in> set names" for name
  proof -
    have "Utf8Path name \<in> set (dk_names io k (map fst es))" using listed that names by simp
    then have "os_name (Utf8Path name)" using assms(2) unfolding names_io_def list_all_iff by blast
    then have "rust_text name \<and> byte_len name \<le> NAME_MAX" by (simp add: os_name_def)
    then show ?thesis using listed that names by (simp add: entry_name_ok_def)
  qed
  moreover have "mset (map Utf8Path names) = mset (map fst es)" if "quiet_io io" "list_all os_name (map fst es)"
  proof -
    have "mset (map Utf8Path names) = mset (dk_names io k (map fst es))" using listed names by simp
    then show ?thesis using that by (simp add: quiet_io_def)
  qed
  ultimately show ?thesis
    using n names reads_onlyD [OF reads_only_pin assms(1)] by (intro exI [of _ es]) simp
qed

text \<open>What a walk over some names adds to a directory.\<close>

definition copy_state :: "disk_io \<Rightarrow> entries \<Rightarrow> nat \<Rightarrow> rstring \<Rightarrow> digest_state \<Rightarrow> digest_state \<Rightarrow> entries \<Rightarrow> bool" where
  "copy_state io es h dir d d' new \<longleftrightarrow>
     (\<forall>(p, m) \<in> set new. path_ok p \<and> node_ok h m)
     \<and> d' = foldl add_record d (entry_records dir (map tree_entry new))
     \<and> (quiet_io io \<longrightarrow> (\<forall>(p, m) \<in> set new. \<exists>n. map_of es p = Some n \<and> (on_disk n \<longrightarrow> tree_of m = tree_of n)))"

lemma copy_state_Nil [simp]: "copy_state io es h dir d d' [] \<longleftrightarrow> d' = d"
  by (auto simp: copy_state_def)

lemma copy_state_Cons:
  "copy_state io es h dir d d' ((Utf8Path name, m) # new) \<longleftrightarrow>
     entry_name_ok name \<and> node_ok h m
     \<and> (quiet_io io \<longrightarrow> (\<exists>n. map_of es (Utf8Path name) = Some n \<and> (on_disk n \<longrightarrow> tree_of m = tree_of n)))
     \<and> copy_state io es h dir (foldl add_record d (tree_records (child_path dir name) (tree_of m))) d' new"
  by (auto simp: copy_state_def tree_entry_def path_ok_def)

text \<open>A directory filled in digest order holds the tree it was filled from.\<close>

lemma sorted_entries:
  assumes "sorted (map as_bytes names)" and "map fst new = map Utf8Path names"
  shows "tree_entries (DirNode new) = map tree_entry new"
proof -
  have "map name_key (map tree_entry new) = map as_bytes (map path_name (map fst new))"
    by (simp add: name_key_def tree_entry_def split_def)
  also have "\<dots> = map as_bytes names" unfolding assms(2) by (simp add: comp_def)
  finally show ?thesis
    using assms(1) by (simp add: tree_entries_def sort_key_id_if_sorted)
qed

lemma tree_entries_cong:
  assumes "distinct (map fst es)" and "mset (map fst new) = mset (map fst es)"
    and "\<And>p m. (p, m) \<in> set new \<Longrightarrow> path_ok p \<and> tree_of m = tree_of (the (map_of es p))"
  shows "tree_entries (DirNode new) = tree_entries (DirNode es)"
proof -
  define entry where "entry = (\<lambda>p. (path_name p, tree_of (the (map_of es p))))"
  have es: "map tree_entry es = map entry (map fst es)"
    using assms(1) by (auto simp: entry_def tree_entry_def map_of_is_SomeI)
  have new: "map tree_entry new = map entry (map fst new)"
    using assms(3) by (fastforce simp: entry_def tree_entry_def)
  have "mset (map tree_entry new) = mset (map tree_entry es)"
    unfolding es new using assms(2) by (simp only: mset_map)
  moreover have "inj_on name_key (set (map tree_entry new))"
  proof (rule inj_onI)
    fix a b
    assume ab: "a \<in> set (map tree_entry new)" "b \<in> set (map tree_entry new)" "name_key a = name_key b"
    then obtain p q where pq: "p \<in> fst ` set new" "a = entry p" "q \<in> fst ` set new" "b = entry q"
      unfolding new by auto
    then have ok: "path_ok p" "path_ok q" using assms(3) by auto
    have "as_bytes (path_name p) = as_bytes (path_name q)" using ab(3) pq by (simp add: name_key_def entry_def)
    then have "path_name p = path_name q"
      by (rule as_bytes_inj) (use ok in \<open>auto simp: path_ok_def entry_name_ok_def\<close>)
    then show "a = b" using ok path_name_inj pq(2,4) by blast
  qed
  ultimately show ?thesis
    unfolding tree_entries_def children.simps by (intro sort_key_inj_key_eq) simp_all
qed

lemma copy_state_quiet:
  assumes "copy_state io es h dir d d' new" and "quiet_io io" and "distinct (map fst new)"
    and "mset (map fst new) = mset (map fst es)" and "on_disk (DirNode es)"
  shows "tree_entries (DirNode new) = tree_entries (DirNode es)"
proof (rule tree_entries_cong [OF _ assms(4)])
  show "distinct (map fst es)" using assms(3,4) mset_eq_imp_distinct_iff by blast
  fix p m
  assume "(p, m) \<in> set new"
  then show "path_ok p \<and> tree_of m = tree_of (the (map_of es p))"
    using assms(1,2,5) map_of_SomeD by (fastforce simp: copy_state_def)
qed

lemma update_entries_last:
  assumes "cp_entries u = es @ [(Utf8Path name, n)]" and "Utf8Path name \<notin> fst ` set es"
    and "copy_into name m u = (Inr a, t)"
  shows "\<exists>v. m (u\<lparr>cp_entries := []\<rparr>) = (Inr a, v)
    \<and> cp_entries t = es @ [(Utf8Path name, DirNode (cp_entries v))]"
  using assms(3) update_last [OF assms(2)] assms(1) by (auto simp: copy_into_def split: prod.splits)

lemma record_dir_add: "record_dir d p = add_record d (DirectoryRecord p)"
  by (simp add: record_dir_def)

text \<open>A directory entry that is itself a directory.\<close>

lemma copy_child_done:
  assumes "sys io c1 s = (Inr x1, s1)" and "add_entry c2 name (DirNode []) s1 = (Inr x2, s2)"
    and "set_private_dir_mode io s2 = (Inr x3, s3)"
    and "copy_into name m s3 = (Inr d', s4)" and "sync_dir io s4 = (Inr x4, t)"
  shows "\<exists>u v. cp_entries u = [] \<and> m u = (Inr d', v) \<and> Utf8Path name \<notin> fst ` set (cp_entries s)
    \<and> cp_entries t = cp_entries s @ [(Utf8Path name, DirNode (cp_entries v))]"
proof -
  have s1: "cp_entries s1 = cp_entries s" using sys_done [OF assms(1)] advanced_entries by blast
  note added = add_entry_done [OF assms(2)]
  have "cp_entries s3 = cp_entries s2" "cp_entries t = cp_entries s4"
    using assms(3,5) advanced_entries reads_onlyD reads_only_calls by metis+
  then show ?thesis using update_entries_last [OF _ _ assms(4)] added s1
    by (metis copying.select_convs(1) copying.surjective copying.update_convs(1))
qed

lemma copy_done:
  "copy_dir_recursive io n dir depth d s = (Inr d', t) \<Longrightarrow> names_io io \<Longrightarrow> cp_entries s = []
    \<Longrightarrow> copy_state io (children n) (MAX_CHECKPOINT_DEPTH - depth) dir d d' (cp_entries t)
      \<and> distinct (map fst (cp_entries t)) \<and> depth \<le> MAX_CHECKPOINT_DEPTH
      \<and> tree_entries (DirNode (cp_entries t)) = map tree_entry (cp_entries t)
      \<and> (\<exists>es. n = DirNode es)
      \<and> (quiet_io io \<longrightarrow> on_disk n \<longrightarrow> tree_entries (DirNode (cp_entries t)) = tree_entries n)"
  "copy_entries io es names dir depth d s = (Inr d', t) \<Longrightarrow> names_io io
    \<Longrightarrow> \<forall>name \<in> set names. entry_name_ok name \<Longrightarrow> depth \<le> MAX_CHECKPOINT_DEPTH
    \<Longrightarrow> \<exists>new. cp_entries t = cp_entries s @ new \<and> map fst new = map Utf8Path names
      \<and> (distinct (map fst (cp_entries s)) \<longrightarrow> distinct (map fst (cp_entries t)))
      \<and> copy_state io es (MAX_CHECKPOINT_DEPTH - depth) dir d d' new"
proof (induction io n dir depth d and io es names dir depth d arbitrary: s d' t and s d' t
    rule: copy_dir_recursive_copy_entries.induct)
  case (1 io n dir depth d)
  obtain names pinned u v where depth: "depth \<le> MAX_CHECKPOINT_DEPTH"
    and pin: "pin_directory io n s = (Inr names, u)" "pin_directory io (DirNode (cp_entries u)) u = (Inr pinned, v)"
    and copy: "copy_entries io (children n) names dir depth d v = (Inr d', t)"
    using 1(2) by (subst (asm) copy_dir_recursive.simps) (auto simp: done_simps split: if_splits)
  from pin_directory_done [OF pin(1) 1(3)] obtain es where es: "n = DirNode es" "advanced s u"
    "\<forall>name \<in> set names. entry_name_ok name" "sorted (map as_bytes names)"
    "quiet_io io \<longrightarrow> list_all os_name (map fst es) \<longrightarrow> mset (map Utf8Path names) = mset (map fst es)" by blast
  have v: "cp_entries v = []"
    using 1(4) es(2) reads_onlyD [OF reads_only_pin pin(2)] advanced_entries by metis
  from 1(1) [OF _ copy 1(3) es(3) depth] depth v obtain new where new: "cp_entries t = new"
    "map fst new = map Utf8Path names" "distinct (map fst (cp_entries t))"
    "copy_state io (children n) (MAX_CHECKPOINT_DEPTH - depth) dir d d' new" by auto
  have sorted: "tree_entries (DirNode (cp_entries t)) = map tree_entry (cp_entries t)"
    using sorted_entries [OF es(4) new(2)] new(1) by simp
  have "tree_entries (DirNode (cp_entries t)) = tree_entries n" if "quiet_io io" "on_disk n"
  proof -
    have "list_all os_name (map fst es)" using that(2) es(1) by (auto simp: list_all_iff)
    then show ?thesis using copy_state_quiet [OF new(4) that(1)] new(1-3) es(1,5) that by simp
  qed
  then show ?case using new sorted es(1) depth by simp
next
  case (2 io es dir depth d)
  then show ?case by (simp add: copy_entries.simps done_simps)
next
  case (3 io es name names dir depth d)
  let ?p = "child_path dir name" and ?h = "MAX_CHECKPOINT_DEPTH - depth"
  obtain n where n: "map_of es (Utf8Path name) = Some n"
    using 3(3) by (subst (asm) copy_entries.simps) (auto simp: done_simps split: option.splits)
  let ?step = "\<lambda>before. case fs_type before of
      SymlinkFile \<Rightarrow> sfail (checkpoint_error ''checkpoint_symlink_forbidden'')
    | DirectoryFile \<Rightarrow>
        sbind (sys io ''checkpoint_copy_dir_create_failed'')
        (\<lambda>_. sbind (add_entry ''checkpoint_copy_dir_create_failed'' name (DirNode []))
        (\<lambda>_. sbind (set_private_dir_mode io)
        (\<lambda>_. sbind (copy_into name (copy_dir_recursive io n ?p (depth + 1) (record_dir d ?p)))
        (\<lambda>d. sbind (sync_dir io) (\<lambda>_. sreturn d)))))
    | RegularFile \<Rightarrow> copy_file io n before name ?p d
    | OtherFile \<Rightarrow> sfail (checkpoint_error ''checkpoint_special_file_forbidden'')"
  obtain before u v d1 where stat: "sys_status io ''checkpoint_tree_entry_metadata_failed'' (Some n) s = (Inr before, u)"
    and step: "?step before u = (Inr d1, v)" and rest: "copy_entries io es names dir depth d1 v = (Inr d', t)"
    using 3(3) n by (subst (asm) copy_entries.simps) (auto simp: done_simps)
  have u: "cp_entries u = cp_entries s" using reads_onlyD [OF reads_only_calls(1) stat] advanced_entries by blast
  have before: "before = status n" if "quiet_io io"
    using stat that by (auto simp: sys_status_def done_simps quiet_io_def dest!: sys_ask_done)
  have "\<exists>m. cp_entries v = cp_entries s @ [(Utf8Path name, m)] \<and> Utf8Path name \<notin> fst ` set (cp_entries s)
      \<and> node_ok ?h m \<and> d1 = foldl add_record d (tree_records ?p (tree_of m))
      \<and> (quiet_io io \<longrightarrow> on_disk n \<longrightarrow> tree_of m = tree_of n)"
  proof (cases "fs_type before")
    case RegularFile
    then have "copy_file io n before name ?p d u = (Inr d1, v)" using step by simp
    from copy_file_done [OF this] obtain f where f: "cp_entries v = cp_entries s @ [(Utf8Path name, FileNode f)]"
      "Utf8Path name \<notin> fst ` set (cp_entries s)" "length (fd_bytes f) < 2 ^ 64"
      "d1 = foldl add_record d (tree_records ?p (tree_of (FileNode f)))"
      "quiet_io io \<longrightarrow> before = status n \<longrightarrow> tree_of (FileNode f) = tree_of n" unfolding u by blast
    have "node_ok ?h (FileNode f)" using f(3) by simp
    then show ?thesis using f(1,2,4,5) before by blast
  next
    case DirectoryFile
    then obtain x1 s1 x2 s2 x3 s3 s4 x4 where "sys io ''checkpoint_copy_dir_create_failed'' u = (Inr x1, s1)"
      "add_entry ''checkpoint_copy_dir_create_failed'' name (DirNode []) s1 = (Inr x2, s2)"
      "set_private_dir_mode io s2 = (Inr x3, s3)"
      "copy_into name (copy_dir_recursive io n ?p (depth + 1) (record_dir d ?p)) s3 = (Inr d1, s4)"
      "sync_dir io s4 = (Inr x4, v)" using step by (auto simp: done_simps)
    from copy_child_done [OF this] u obtain a b where sub: "cp_entries a = []"
      "copy_dir_recursive io n ?p (depth + 1) (record_dir d ?p) a = (Inr d1, b)"
      "Utf8Path name \<notin> fst ` set (cp_entries s)"
      "cp_entries v = cp_entries s @ [(Utf8Path name, DirNode (cp_entries b))]" by auto
    from 3(1) [OF n DirectoryFile sub(2) 3(4) sub(1)]
    have b: "copy_state io (children n) (MAX_CHECKPOINT_DEPTH - (depth + 1)) ?p (record_dir d ?p) d1 (cp_entries b)"
      "distinct (map fst (cp_entries b))" "depth + 1 \<le> MAX_CHECKPOINT_DEPTH"
      "tree_entries (DirNode (cp_entries b)) = map tree_entry (cp_entries b)" "\<exists>es. n = DirNode es"
      "quiet_io io \<longrightarrow> on_disk n \<longrightarrow> tree_entries (DirNode (cp_entries b)) = tree_entries n" by blast+
    have "node_ok ?h (DirNode (cp_entries b))" using b(1-3) by (auto simp: dir_ok_def copy_state_def)
    moreover have "d1 = foldl add_record d (tree_records ?p (tree_of (DirNode (cp_entries b))))"
      using b(1,4) by (simp add: copy_state_def record_dir_add)
    moreover have "tree_of (DirNode (cp_entries b)) = tree_of n" if "quiet_io io" "on_disk n"
      using b(5,6) that by auto
    ultimately show ?thesis using sub(3,4) by blast
  qed (use step in \<open>simp_all add: done_simps\<close>)
  then obtain m where m: "cp_entries v = cp_entries s @ [(Utf8Path name, m)]"
    "Utf8Path name \<notin> fst ` set (cp_entries s)" "node_ok ?h m"
    "d1 = foldl add_record d (tree_records ?p (tree_of m))" "quiet_io io \<longrightarrow> on_disk n \<longrightarrow> tree_of m = tree_of n" by blast
  from 3(2) [OF n rest 3(4) _ 3(6)] 3(5) obtain new where new: "cp_entries t = cp_entries v @ new"
    "map fst new = map Utf8Path names" "distinct (map fst (cp_entries v)) \<longrightarrow> distinct (map fst (cp_entries t))"
    "copy_state io es ?h dir d1 d' new" by auto
  have "copy_state io es ?h dir d d' ((Utf8Path name, m) # new)"
    using new(4) m(3-5) n 3(5) by (simp add: copy_state_Cons)
  then show ?case using new(1-3) m(1,2) by (intro exI [of _ "(Utf8Path name, m) # new"]) simp
qed

section \<open>Digests are exact\<close>

lemma hash_loop_done:
  assumes "hash_loop io n offset remaining d s = (Inr (d', offset'), t)"
  shows "\<exists>bytes. length bytes = remaining \<and> offset' = offset + remaining \<and> d' = hash_update d bytes
    \<and> (quiet_io io \<longrightarrow> prefix bytes (drop offset (node_bytes n)))"
  using assms
proof (induction io n offset remaining d arbitrary: s rule: hash_loop.induct)
  case (1 io n offset remaining d)
  show ?case
  proof (cases "remaining = 0")
    case True
    then show ?thesis using 1(2) by (subst (asm) hash_loop.simps) (auto simp: done_simps)
  next
    case False
    obtain chunk u where read: "sys_read io ''checkpoint_hash_file_read_failed'' (min BUFFER_BYTES remaining) offset n s
        = (Inr chunk, u)"
      and chunk: "chunk \<noteq> []"
      and rest: "hash_loop io n (offset + length chunk) (remaining - length chunk) (hash_update d chunk) u
        = (Inr (d', offset'), t)"
      using 1(2) False by (subst (asm) hash_loop.simps) (auto simp: done_simps split: if_splits)
    note read = sys_read_done [OF read]
    from 1(1) [OF False chunk rest] obtain bytes where bytes:
      "length bytes = remaining - length chunk" "offset' = offset + length chunk + (remaining - length chunk)"
      "d' = hash_update (hash_update d chunk) bytes"
      "quiet_io io \<Longrightarrow> prefix bytes (drop (offset + length chunk) (node_bytes n))" by blast
    have "length chunk \<le> remaining" using read by simp
    moreover have "prefix (chunk @ bytes) (drop offset (node_bytes n))" if "quiet_io io"
    proof -
      have "drop offset (node_bytes n) = chunk @ drop (length chunk) (drop offset (node_bytes n))"
        using that read by (intro prefix_split) simp
      moreover have "drop (length chunk) (drop offset (node_bytes n)) = drop (offset + length chunk) (node_bytes n)"
        by (simp add: add.commute)
      ultimately show ?thesis using bytes(4) [OF that] by (metis same_prefix_prefix)
    qed
    ultimately show ?thesis using bytes by (intro exI [of _ "chunk @ bytes"]) simp
  qed
qed

lemma hash_file_done:
  fixes s :: "'s system_scheme"
  assumes "hash_file io n (status n) relative d s = (Inr d', t)" and "quiet_io io"
  shows "node_ok h n \<and> d' = foldl add_record d (tree_records relative (tree_of n))"
proof -
  let ?before = "status n"
  obtain d0 offset and u2 u3 u4 :: "'s system_scheme" where begun: "begin_file d relative (fs_len ?before) (owner_executable ?before) = Inr d0"
    and loop: "hash_loop io n 0 (unat (fs_len ?before)) d0 u2 = (Inr (d', offset), u3)"
    and extra: "sys_read io ''checkpoint_hash_file_read_failed'' 1 offset n u3 = (Inr [], u4)"
    using assms(1) by (auto simp: hash_file_def done_simps simp del: One_nat_def split: if_splits)
  obtain g where n: "n = FileNode g"
    using extra by (auto simp: sys_read_def done_simps split: node.splits)
  from hash_loop_done [OF loop] obtain bytes where bytes: "length bytes = unat (fs_len ?before)"
    "offset = unat (fs_len ?before)" "d' = hash_update d0 bytes" "prefix bytes (fd_bytes g)"
    using assms(2) n by auto
  have "drop (length bytes) (fd_bytes g) = []"
    using sys_read_done [OF extra] assms(2) bytes(1,2) n by simp
  then have b: "bytes = fd_bytes g" using prefix_split [OF bytes(4)] by simp
  have "length (fd_bytes g) < 2 ^ 64"
    using bytes(1) unsigned_less [of "fs_len ?before"] b by simp
  then show ?thesis
    using begin_file_done [OF begun] bytes(3) b n by (simp add: owner_executable_def hash_update_def)
qed

lemma sorted_tree_entries:
  assumes "distinct (map fst es)" and "\<forall>name \<in> set names. entry_name_ok name"
    and "sorted (map as_bytes names)" and "mset (map Utf8Path names) = mset (map fst es)"
  shows "tree_entries (DirNode es) = map (\<lambda>name. (name, tree_of (the (map_of es (Utf8Path name))))) names"
proof -
  define pick where "pick = map (\<lambda>name. (Utf8Path name, the (map_of es (Utf8Path name)))) names"
  have names: "map fst pick = map Utf8Path names" by (simp add: pick_def)
  have "tree_entries (DirNode pick) = tree_entries (DirNode es)"
  proof (rule tree_entries_cong [OF assms(1)])
    show "mset (map fst pick) = mset (map fst es)" using assms(4) unfolding names .
  qed (use assms(2) in \<open>auto simp: pick_def path_ok_def\<close>)
  moreover have "tree_entries (DirNode pick) = map tree_entry pick"
    by (rule sorted_entries [OF assms(3) names])
  ultimately show ?thesis by (simp add: pick_def tree_entry_def comp_def)
qed

definition hash_state :: "entries \<Rightarrow> nat \<Rightarrow> rstring \<Rightarrow> digest_state \<Rightarrow> digest_state \<Rightarrow> rstring list \<Rightarrow> bool" where
  "hash_state es h dir d d' names \<longleftrightarrow>
     (\<forall>name \<in> set names. \<exists>n. map_of es (Utf8Path name) = Some n \<and> node_ok h n)
     \<and> d' = foldl add_record d
         (entry_records dir (map (\<lambda>name. (name, tree_of (the (map_of es (Utf8Path name))))) names))"

lemma hash_done:
  fixes s s' :: "'s system_scheme"
  shows
  "hash_dir_recursive io n dir depth d s = (Inr d', t) \<Longrightarrow> names_io io \<Longrightarrow> quiet_io io \<Longrightarrow> on_disk n
    \<Longrightarrow> \<exists>es. n = DirNode es \<and> depth \<le> MAX_CHECKPOINT_DEPTH \<and> dir_ok (MAX_CHECKPOINT_DEPTH - depth) es
      \<and> d' = foldl add_record d (entry_records dir (tree_entries n))"
  "hash_entries io es names dir depth d s' = (Inr d'', t') \<Longrightarrow> names_io io \<Longrightarrow> quiet_io io
    \<Longrightarrow> \<forall>(p, n) \<in> set es. on_disk n \<Longrightarrow> depth \<le> MAX_CHECKPOINT_DEPTH
    \<Longrightarrow> hash_state es (MAX_CHECKPOINT_DEPTH - depth) dir d d'' names"
proof (induction io n dir depth d and io es names dir depth d arbitrary: s d' t and s' d'' t'
    rule: hash_dir_recursive_hash_entries.induct)
  case (1 io n dir depth d)
  obtain names u where depth: "depth \<le> MAX_CHECKPOINT_DEPTH" and pin: "pin_directory io n s = (Inr names, u)"
    and hash: "hash_entries io (children n) names dir depth d u = (Inr d', t)"
    using 1(2) by (subst (asm) hash_dir_recursive.simps) (auto simp: done_simps split: if_splits)
  from pin_directory_done [OF pin 1(3)] 1(4) obtain es where es: "n = DirNode es"
    "\<forall>name \<in> set names. entry_name_ok name" "sorted (map as_bytes names)"
    "list_all os_name (map fst es) \<longrightarrow> mset (map Utf8Path names) = mset (map fst es)" by blast
  have unique: "distinct (map fst es)" "\<forall>(p, n) \<in> set es. on_disk n" using 1(5) es(1) by auto
  have "list_all os_name (map fst es)" using 1(5) es(1) by (auto simp: list_all_iff)
  with es have es: "n = DirNode es" "\<forall>name \<in> set names. entry_name_ok name" "sorted (map as_bytes names)"
    "mset (map Utf8Path names) = mset (map fst es)" by simp_all
  have state: "hash_state es (MAX_CHECKPOINT_DEPTH - depth) dir d d' names"
    using 1(1) [OF _ hash 1(3,4) _ depth] depth unique(2) es(1) by simp
  have "Utf8Path ` set names = fst ` set es" using es(4) by (metis set_map set_mset_mset)
  then have each: "\<exists>name \<in> set names. p = Utf8Path name" if "(p, m) \<in> set es" for p m
    using that by (metis fst_conv imageE image_eqI)
  have "path_ok p \<and> node_ok (MAX_CHECKPOINT_DEPTH - depth) m" if pm: "(p, m) \<in> set es" for p m
  proof -
    obtain name where name: "name \<in> set names" "p = Utf8Path name" using each [OF pm] by blast
    then obtain k where "map_of es p = Some k" "node_ok (MAX_CHECKPOINT_DEPTH - depth) k"
      using state by (auto simp: hash_state_def simp del: map_of_eq_Some_iff)
    moreover have "map_of es p = Some m" using unique(1) pm by simp
    ultimately show ?thesis using name es(2) by (auto simp: path_ok_def)
  qed
  then have "dir_ok (MAX_CHECKPOINT_DEPTH - depth) es" using unique(1) by (auto simp: dir_ok_def)
  then show ?case
    using state es(1) depth sorted_tree_entries [OF unique(1) es(2-4)] by (simp add: hash_state_def)
next
  case (2 io es dir depth d)
  then show ?case by (simp add: hash_entries.simps done_simps hash_state_def)
next
  case (3 io es name names dir depth d)
  let ?p = "child_path dir name" and ?h = "MAX_CHECKPOINT_DEPTH - depth"
  obtain n where n: "map_of es (Utf8Path name) = Some n"
    using 3(3) by (subst (asm) hash_entries.simps) (auto simp: done_simps split: option.splits)
  obtain before u v d1 where stat: "sys_status io ''checkpoint_tree_entry_metadata_failed'' (Some n) s' = (Inr before, u)"
    and step: "(case fs_type before of
                SymlinkFile \<Rightarrow> sfail (checkpoint_error ''checkpoint_symlink_forbidden'')
              | DirectoryFile \<Rightarrow> hash_dir_recursive io n ?p (depth + 1) (record_dir d ?p)
              | RegularFile \<Rightarrow> hash_file io n before ?p d
              | OtherFile \<Rightarrow> sfail (checkpoint_error ''checkpoint_special_file_forbidden'')) u = (Inr d1, v)"
    and rest: "hash_entries io es names dir depth d1 v = (Inr d'', t')"
    using 3(3) n by (subst (asm) hash_entries.simps) (auto simp: done_simps)
  have before: "before = status n"
    using stat 3(5) by (auto simp: sys_status_def done_simps quiet_io_def dest!: sys_ask_done)
  have unique: "on_disk n" using 3(6) map_of_SomeD [OF n] by auto
  have "node_ok ?h n \<and> d1 = foldl add_record d (tree_records ?p (tree_of n))"
  proof (cases "fs_type before")
    case RegularFile
    then show ?thesis using hash_file_done step before 3(5) by simp
  next
    case DirectoryFile
    then have "hash_dir_recursive io n ?p (depth + 1) (record_dir d ?p) u = (Inr d1, v)" using step by simp
    from 3(1) [OF n DirectoryFile this 3(4,5) unique] show ?thesis
      by (auto simp: record_dir_add)
  qed (use step in \<open>simp_all add: done_simps\<close>)
  then show ?case
    using 3(2) [OF n rest 3(4-7)] n by (auto simp: hash_state_def)
qed

end
