(* ===== verification/Checkpoint_Local.thy ===== *)
theory Checkpoint_Local
  imports Checkpoint_Walk Command_Policy "HOL-Library.Product_Lexorder"
begin

text \<open>
  The checkpoint store of \<open>crates/vibecoder-checkpoint-local\<close>: creation, rollback, listing, removal and
  the cleanup of abandoned temporary directories, over two directory trees, the projects and the
  checkpoints. The random ids, the clock, SHA-256, the coding of the metadata file and the text form of
  a \<open>Uuid\<close> are parameters. The private-directory setup of \<open>initialize\<close> is not modelled.
\<close>

section \<open>Model\<close>

record local_checkpoints =
  lc_uuid :: uuid_text
  lc_hash :: "byte list \<Rightarrow> byte list"
  lc_encode :: "checkpoint_metadata \<Rightarrow> byte list option"
  lc_decode :: "byte list \<Rightarrow> checkpoint_metadata option"
  lc_projects_root :: rstring
  lc_checkpoints_root :: rstring

record disk = system +
  kd_projects :: entries
  kd_checkpoints :: entries
  kd_gate_poisoned :: bool

definition SNAPSHOT_TREE_NAME :: rstring where "SNAPSHOT_TREE_NAME = lit ''tree''"
definition METADATA_NAME :: rstring where "METADATA_NAME = lit ''metadata.json''"
definition MAX_METADATA_BYTES :: nat where "MAX_METADATA_BYTES = 64 * 1024"

subsection \<open>Directories\<close>

datatype directory = ProjectsRoot | CheckpointsRoot | Child directory rstring

definition find_entry :: "rstring \<Rightarrow> entries \<Rightarrow> node option" where
  "find_entry name es = map_of es (Utf8Path name)"

definition put_entry :: "rstring \<Rightarrow> node \<Rightarrow> entries \<Rightarrow> entries" where
  "put_entry name n es =
     (if find_entry name es = None then es @ [(Utf8Path name, n)] else update_entry name (\<lambda>_. n) es)"

definition drop_entry :: "rstring \<Rightarrow> entries \<Rightarrow> entries" where
  "drop_entry name es = filter (\<lambda>e. fst e \<noteq> Utf8Path name) es"

primrec entries_at :: "directory \<Rightarrow> disk \<Rightarrow> entries" where
  "entries_at ProjectsRoot s = kd_projects s"
| "entries_at CheckpointsRoot s = kd_checkpoints s"
| "entries_at (Child dir name) s =
     (case find_entry name (entries_at dir s) of None \<Rightarrow> [] | Some n \<Rightarrow> children n)"

primrec set_entries :: "directory \<Rightarrow> entries \<Rightarrow> disk \<Rightarrow> disk" where
  "set_entries ProjectsRoot es s = s\<lparr>kd_projects := es\<rparr>"
| "set_entries CheckpointsRoot es s = s\<lparr>kd_checkpoints := es\<rparr>"
| "set_entries (Child dir name) es s =
     set_entries dir (put_entry name (DirNode es) (entries_at dir s)) s"

definition node_at :: "directory \<Rightarrow> rstring \<Rightarrow> disk \<Rightarrow> node option" where
  "node_at dir name s = find_entry name (entries_at dir s)"

primrec directory_path :: "local_checkpoints \<Rightarrow> directory \<Rightarrow> rstring" where
  "directory_path C ProjectsRoot = lc_projects_root C"
| "directory_path C CheckpointsRoot = lc_checkpoints_root C"
| "directory_path C (Child dir name) = directory_path C dir @ [47] @ name"

definition create_dir :: "disk_io \<Rightarrow> string \<Rightarrow> directory \<Rightarrow> rstring \<Rightarrow> (disk, unit) disk_act" where
  "create_dir io code dir name =
     sbind (sys io code)
     (\<lambda>_ s. if node_at dir name s \<noteq> None then (Inl (checkpoint_error code), s)
            else (Inr (), set_entries dir (put_entry name (DirNode []) (entries_at dir s)) s))"

text \<open>A removal that fails leaves some part of the tree behind.\<close>

definition remove_dir_all :: "disk_io \<Rightarrow> string \<Rightarrow> directory \<Rightarrow> rstring \<Rightarrow> (disk, unit) disk_act" where
  "remove_dir_all io code dir name s =
     (let failed = dk_fails io (sy_calls s); t = s\<lparr>sy_calls := sy_calls s + 1\<rparr> in
      case node_at dir name s of
        None \<Rightarrow> (Inl (checkpoint_error code), t)
      | Some n \<Rightarrow>
          if failed
          then (Inl (checkpoint_error code),
                set_entries dir (put_entry name (dk_left io (sy_calls s) n) (entries_at dir s)) t)
          else (Inr (), set_entries dir (drop_entry name (entries_at dir s)) t))"

text \<open>\<open>rename\<close> of a directory: it replaces nothing but an empty directory.\<close>

definition rename :: "disk_io \<Rightarrow> string \<Rightarrow> directory \<Rightarrow> rstring \<Rightarrow> rstring \<Rightarrow> (disk, unit) disk_act" where
  "rename io code dir from to =
     sbind (sys io code)
     (\<lambda>_ s. case node_at dir from s of
        None \<Rightarrow> (Inl (checkpoint_error code), s)
      | Some n \<Rightarrow>
          if node_at dir to s \<noteq> None \<and> node_at dir to s \<noteq> Some (DirNode [])
          then (Inl (checkpoint_error code), s)
          else (Inr (), set_entries dir (put_entry to n (drop_entry from (entries_at dir s))) s))"

definition exchange_children :: "disk_io \<Rightarrow> directory \<Rightarrow> rstring \<Rightarrow> rstring \<Rightarrow> (disk, unit) disk_act" where
  "exchange_children io dir left right =
     sbind (sys io ''checkpoint_exchange_parent_open_failed'')
     (\<lambda>_. if 0 \<in> set left \<or> 0 \<in> set right
        then sfail (checkpoint_error ''checkpoint_exchange_name_invalid'')
        else sbind (sys io ''checkpoint_atomic_exchange_failed'')
     (\<lambda>_ s. case (node_at dir left s, node_at dir right s) of
        (Some a, Some b) \<Rightarrow>
          (Inr (), set_entries dir (put_entry left b (put_entry right a (entries_at dir s))) s)
      | _ \<Rightarrow> (Inl (checkpoint_error ''checkpoint_atomic_exchange_failed''), s)))"

definition path_exists :: "disk_io \<Rightarrow> directory \<Rightarrow> rstring \<Rightarrow> (disk, bool) disk_act" where
  "path_exists io dir name s =
     (Inr (node_at dir name s \<noteq> None \<and> \<not> dk_fails io (sy_calls s)), s\<lparr>sy_calls := sy_calls s + 1\<rparr>)"

definition node_status ::
    "disk_io \<Rightarrow> string \<Rightarrow> directory \<Rightarrow> rstring \<Rightarrow> (disk, file_status) disk_act" where
  "node_status io code dir name s = sys_status io code (node_at dir name s) s"

definition canonicalize :: "disk_io \<Rightarrow> string \<Rightarrow> path \<Rightarrow> (disk, path) disk_act" where
  "canonicalize io code p = sbind (sys io code) (\<lambda>_. sys_ask (\<lambda>k. dk_canonical io k p))"

subsection \<open>Whole trees\<close>

definition digest_tree ::
    "disk_io \<Rightarrow> (byte list \<Rightarrow> byte list) \<Rightarrow> directory \<Rightarrow> rstring \<Rightarrow> (disk, tree_digest) disk_act" where
  "digest_tree io H dir name s =
     (case node_at dir name s of
        None \<Rightarrow> sbind (sys io ''checkpoint_tree_directory_open_failed'')
                 (\<lambda>_. sfail (checkpoint_error ''checkpoint_tree_directory_open_failed'')) s
      | Some n \<Rightarrow> sbind (hash_dir_recursive io n [] 0 digest_state_new) (\<lambda>d. sreturn (digest_finish H d)) s)"

definition copy_tree_and_digest ::
    "disk_io \<Rightarrow> (byte list \<Rightarrow> byte list) \<Rightarrow> directory \<Rightarrow> rstring \<Rightarrow> directory \<Rightarrow> (disk, tree_digest) disk_act" where
  "copy_tree_and_digest io H dir name destination s =
     (case node_at dir name s of
        None \<Rightarrow> sbind (sys io ''checkpoint_tree_directory_open_failed'')
                 (\<lambda>_. sfail (checkpoint_error ''checkpoint_tree_directory_open_failed'')) s
      | Some n \<Rightarrow>
          (case copy_dir_recursive io n [] 0 digest_state_new
                  \<lparr>sy_calls = sy_calls s, cp_entries = entries_at destination s\<rparr> of
             (r, t) \<Rightarrow> (map_sum id (digest_finish H) r,
                       set_entries destination (cp_entries t) (s\<lparr>sy_calls := sy_calls t\<rparr>))))"

subsection \<open>Projects and metadata\<close>

definition lock_gate :: "(disk, unit) disk_act" where
  "lock_gate s =
     (if kd_gate_poisoned s then (Inl (checkpoint_error ''checkpoint_gate_poisoned''), s) else (Inr (), s))"

definition project_name :: "local_checkpoints \<Rightarrow> project_id \<Rightarrow> rstring" where
  "project_name C pid = ut_hyphenated (lc_uuid C) (case pid of ProjectId u \<Rightarrow> u)"

definition checkpoint_name :: "local_checkpoints \<Rightarrow> checkpoint_id \<Rightarrow> rstring" where
  "checkpoint_name C cid = ut_hyphenated (lc_uuid C) (case cid of CheckpointId u \<Rightarrow> u)"

definition expected_project_root :: "local_checkpoints \<Rightarrow> project_id \<Rightarrow> path" where
  "expected_project_root C pid = Utf8Path (directory_path C (Child ProjectsRoot (project_name C pid)))"

definition project_checkpoint_dir :: "local_checkpoints \<Rightarrow> project_id \<Rightarrow> directory" where
  "project_checkpoint_dir C pid = Child CheckpointsRoot (project_name C pid)"

definition verify_project :: "local_checkpoints \<Rightarrow> disk_io \<Rightarrow> project_ref \<Rightarrow> (disk, unit) disk_act" where
  "verify_project C io project =
     (let expected = expected_project_root C (pr_id project) in
      if \<not> path_eq (pr_root project) expected \<or> \<not> is_absolute (pr_root project)
      then sfail (checkpoint_error ''checkpoint_project_root_mismatch'')
      else sbind (node_status io ''checkpoint_project_root_unavailable'' ProjectsRoot
                    (project_name C (pr_id project)))
      (\<lambda>st. if fs_type st \<noteq> DirectoryFile
         then sfail (checkpoint_error ''checkpoint_project_root_invalid'')
         else sbind (canonicalize io ''checkpoint_project_root_unavailable'' (pr_root project))
      (\<lambda>canonical. if \<not> path_eq canonical expected
              \<or> \<not> prefix (components (Utf8Path (lc_projects_root C))) (components canonical)
         then sfail (checkpoint_error ''checkpoint_project_root_not_contained'')
         else sreturn ())))"

definition read_metadata ::
    "local_checkpoints \<Rightarrow> disk_io \<Rightarrow> project_id \<Rightarrow> checkpoint_id \<Rightarrow> node
      \<Rightarrow> (disk, checkpoint_metadata option) disk_act" where
  "read_metadata C io pid cid dir =
     (case find_entry METADATA_NAME (children dir) of
        None \<Rightarrow> sbind (sys io ''checkpoint_metadata_open_failed'')
                 (\<lambda>_. sfail (checkpoint_error ''checkpoint_metadata_open_failed''))
      | Some f \<Rightarrow>
          sbind (sys_open io ''checkpoint_metadata_open_failed'' f)
          (\<lambda>_. sbind (sys_status io ''checkpoint_metadata_stat_failed'' (Some f))
          (\<lambda>opened. if fs_type opened \<noteq> RegularFile \<or> fs_nlink opened \<noteq> 1
                  \<or> fs_len opened > of_nat MAX_METADATA_BYTES
             then sfail (checkpoint_error ''checkpoint_metadata_invalid'')
             else sbind (sys io ''checkpoint_metadata_read_failed'')
          (\<lambda>_. sbind (sys_ask (\<lambda>k. take (MAX_METADATA_BYTES + 1) (dk_contents io k (node_bytes f))))
          (\<lambda>bytes. if length bytes > MAX_METADATA_BYTES
             then sfail (checkpoint_error ''checkpoint_metadata_too_large'')
             else sbind (slift (ok_or (lc_decode C bytes)
                           (checkpoint_error ''checkpoint_metadata_json_invalid'')))
          (\<lambda>parsed. sbind (slift (checkpoint_metadata_validate parsed))
          (\<lambda>_. if ck_project_id parsed \<noteq> pid \<or> ck_checkpoint_id parsed \<noteq> cid
             then sfail (checkpoint_error ''checkpoint_metadata_identity_mismatch'')
             else sreturn (Some parsed))))))))"

definition load_metadata_sync ::
    "local_checkpoints \<Rightarrow> disk_io \<Rightarrow> project_id \<Rightarrow> checkpoint_id
      \<Rightarrow> (disk, checkpoint_metadata option) disk_act" where
  "load_metadata_sync C io pid cid =
     sbind (sys io ''checkpoint_directory_metadata_failed'')
     (\<lambda>_ s. (case node_at (project_checkpoint_dir C pid) (checkpoint_name C cid) s of
        None \<Rightarrow> sreturn None
      | Some dir \<Rightarrow>
          sbind (sys_ask (\<lambda>k. dk_stat io k (status dir)))
          (\<lambda>st. if fs_type st \<noteq> DirectoryFile
             then sfail (checkpoint_error ''checkpoint_directory_invalid'')
             else read_metadata C io pid cid dir)) s)"

subsection \<open>Checkpoint directories\<close>

definition reject_symlink :: "disk_io \<Rightarrow> string \<Rightarrow> directory \<Rightarrow> rstring \<Rightarrow> (disk, unit) disk_act" where
  "reject_symlink io code dir name =
     sbind (sys io ''checkpoint_path_metadata_failed'')
     (\<lambda>_ s. (case node_at dir name s of
        None \<Rightarrow> sreturn ()
      | Some n \<Rightarrow>
          sbind (sys_ask (\<lambda>k. dk_stat io k (status n)))
          (\<lambda>st. if fs_type st = SymlinkFile then sfail (checkpoint_error code) else sreturn ())) s)"

definition create_dir_if_missing :: "disk_io \<Rightarrow> string \<Rightarrow> directory \<Rightarrow> rstring \<Rightarrow> (disk, unit) disk_act" where
  "create_dir_if_missing io code dir name =
     sbind (sys io code)
     (\<lambda>_ s. if node_at dir name s \<noteq> None then (Inr (), s)
            else (Inr (), set_entries dir (put_entry name (DirNode []) (entries_at dir s)) s))"

definition create_or_verify_private_child ::
    "local_checkpoints \<Rightarrow> disk_io \<Rightarrow> directory \<Rightarrow> rstring \<Rightarrow> (disk, unit) disk_act" where
  "create_or_verify_private_child C io parent name =
     (if name = [] \<or> 47 \<in> set name \<or> 92 \<in> set name \<or> list_ex is_control name
      then sfail (checkpoint_error ''checkpoint_fixed_child_name_invalid'')
      else let child = Utf8Path (directory_path C (Child parent name)) in
      sbind (reject_symlink io ''checkpoint_fixed_child_is_symlink'' parent name)
      (\<lambda>_. sbind (create_dir_if_missing io ''checkpoint_fixed_child_create_failed'' parent name)
      (\<lambda>_. sbind (reject_symlink io ''checkpoint_fixed_child_is_symlink'' parent name)
      (\<lambda>_. sbind (canonicalize io ''checkpoint_fixed_child_unavailable'' child)
      (\<lambda>canonical. if \<not> path_eq canonical child
            \<or> butlast (components canonical) \<noteq> components (Utf8Path (directory_path C parent))
         then sfail (checkpoint_error ''checkpoint_fixed_child_containment_failed'')
         else set_private_dir_mode io)))))"

fun scan_checkpoint_ids ::
    "local_checkpoints \<Rightarrow> disk_io \<Rightarrow> directory \<Rightarrow> checkpoint_id list \<Rightarrow> path list
      \<Rightarrow> (disk, checkpoint_id list) disk_act" where
  "scan_checkpoint_ids C io parent ids [] =
     sbind (sys io ''checkpoint_list_failed'') (\<lambda>_. sreturn ids)"
| "scan_checkpoint_ids C io parent ids (entry # rest) =
     sbind (sys io ''checkpoint_list_failed'')
     (\<lambda>_. sbind (slift (ok_or (to_str entry) (checkpoint_error ''checkpoint_directory_name_invalid'')))
     (\<lambda>name. if starts_with name CHECKPOINT_TEMP_PREFIX then scan_checkpoint_ids C io parent ids rest
        else sbind (slift (ok_or (ut_parse_str (lc_uuid C) name)
                      (checkpoint_error ''checkpoint_directory_name_invalid'')))
     (\<lambda>uuid. if ut_hyphenated (lc_uuid C) uuid \<noteq> name
        then sfail (checkpoint_error ''checkpoint_directory_name_noncanonical'')
        else sbind (node_status io ''checkpoint_directory_metadata_failed'' parent name)
     (\<lambda>st. if fs_type st \<noteq> DirectoryFile
        then sfail (checkpoint_error ''checkpoint_directory_invalid'')
        else if length (ids @ [CheckpointId uuid]) > MAX_CHECKPOINTS_PER_PROJECT
        then sfail (checkpoint_error ''checkpoint_project_limit_exceeded'')
        else scan_checkpoint_ids C io parent (ids @ [CheckpointId uuid]) rest))))"

definition checkpoint_uuid :: "checkpoint_id \<Rightarrow> uuid" where
  "checkpoint_uuid cid = (case cid of CheckpointId u \<Rightarrow> u)"

definition list_checkpoint_ids ::
    "local_checkpoints \<Rightarrow> disk_io \<Rightarrow> project_id \<Rightarrow> (disk, checkpoint_id list) disk_act" where
  "list_checkpoint_ids C io pid =
     (let parent = project_checkpoint_dir C pid in
      sbind (node_status io ''checkpoint_project_directory_unavailable'' CheckpointsRoot (project_name C pid))
      (\<lambda>st. if fs_type st \<noteq> DirectoryFile
         then sfail (checkpoint_error ''checkpoint_project_directory_invalid'')
         else sbind (sys io ''checkpoint_list_failed'')
      (\<lambda>_ s. sbind (sys_ask (\<lambda>k. dk_names io k (map fst (entries_at parent s))))
      (\<lambda>names. sbind (scan_checkpoint_ids C io parent [] names)
      (\<lambda>ids. sreturn (sort_key checkpoint_uuid ids))) s)))"

fun fresh_checkpoint_id ::
    "local_checkpoints \<Rightarrow> disk_io \<Rightarrow> directory \<Rightarrow> nat \<Rightarrow> (disk, checkpoint_id) disk_act" where
  "fresh_checkpoint_id C io parent attempts =
     (if attempts = 0 then sfail (checkpoint_error ''checkpoint_id_collision'')
      else sbind (sys_ask (dk_uuid io))
      (\<lambda>u. sbind (path_exists io parent (ut_hyphenated (lc_uuid C) u))
      (\<lambda>taken. if taken then fresh_checkpoint_id C io parent (attempts - 1)
         else sbind (path_exists io parent (CHECKPOINT_TEMP_PREFIX @ ut_hyphenated (lc_uuid C) u))
      (\<lambda>staged. if staged then fresh_checkpoint_id C io parent (attempts - 1)
         else sreturn (CheckpointId u)))))"

subsection \<open>Creating a checkpoint\<close>

definition system_time :: "disk_io \<Rightarrow> ('s system_scheme, u64) disk_act" where
  "system_time io =
     sbind (sys_ask (dk_clock io))
     (\<lambda>now. case now of
        None \<Rightarrow> sfail (checkpoint_error ''checkpoint_clock_invalid'')
      | Some ms \<Rightarrow>
          if ms \<ge> 2 ^ 64 then sfail (checkpoint_error ''checkpoint_clock_overflow'')
          else sreturn (of_nat ms))"

definition write_new_metadata ::
    "disk_io \<Rightarrow> directory \<Rightarrow> byte list \<Rightarrow> u64 \<times> u64 \<Rightarrow> (disk, unit) disk_act" where
  "write_new_metadata io dir bytes identity s =
     (if node_at dir METADATA_NAME s \<noteq> None
      then (Inl (checkpoint_error ''checkpoint_metadata_create_failed''), s)
      else
        let failed = dk_fails io (sy_calls s);
            written = (if failed then take (dk_written io (sy_calls s)) bytes else bytes);
            file = FileNode \<lparr>fd_dev = fst identity, fd_ino = snd identity, fd_nlink = 1,
                     fd_mode = PRIVATE_FILE_MODE, fd_bytes = written\<rparr>
        in (if failed then Inl (checkpoint_error ''checkpoint_metadata_write_failed'') else Inr (),
            set_entries dir (put_entry METADATA_NAME file (entries_at dir s))
              (s\<lparr>sy_calls := sy_calls s + 1\<rparr>)))"

definition write_metadata ::
    "local_checkpoints \<Rightarrow> disk_io \<Rightarrow> directory \<Rightarrow> checkpoint_metadata \<Rightarrow> (disk, unit) disk_act" where
  "write_metadata C io dir m =
     (case lc_encode C m of
        None \<Rightarrow> sfail (checkpoint_error ''checkpoint_metadata_serialize_failed'')
      | Some bytes \<Rightarrow>
          if length bytes > MAX_METADATA_BYTES
          then sfail (checkpoint_error ''checkpoint_metadata_too_large'')
          else sbind (sys io ''checkpoint_metadata_create_failed'')
          (\<lambda>_. sbind (sys_ask (dk_new io))
          (\<lambda>identity. sbind (write_new_metadata io dir bytes identity)
          (\<lambda>_. sys io ''checkpoint_metadata_sync_failed''))))"

definition checkpoint_metadata_of ::
    "checkpoint_id \<Rightarrow> project_id \<Rightarrow> u64 \<Rightarrow> checkpoint_reason \<Rightarrow> tree_digest \<Rightarrow> checkpoint_metadata" where
  "checkpoint_metadata_of cid pid created reason copied =
     \<lparr>ck_schema = CHECKPOINT_SCHEMA_V1, ck_checkpoint_id = cid, ck_project_id = pid,
      ck_created_unix_ms = created, ck_reason = reason, ck_file_count = td_file_count copied,
      ck_total_bytes = td_total_bytes copied, ck_tree_sha256 = td_sha256 copied\<rparr>"

text \<open>The closure of \<open>create_checkpoint_sync\<close>: it fills the temporary directory, then publishes it.\<close>

definition fill_snapshot ::
    "local_checkpoints \<Rightarrow> disk_io \<Rightarrow> project_id \<Rightarrow> checkpoint_reason \<Rightarrow> checkpoint_id \<Rightarrow> directory
      \<Rightarrow> (disk, checkpoint_metadata) disk_act" where
  "fill_snapshot C io pid reason cid temp_dir =
     (let H = lc_hash C; source = digest_tree io H ProjectsRoot (project_name C pid) in
      sbind (create_dir io ''checkpoint_tree_create_failed'' temp_dir SNAPSHOT_TREE_NAME)
      (\<lambda>_. sbind (set_private_dir_mode io)
      (\<lambda>_. sbind source
      (\<lambda>source_before. sbind (copy_tree_and_digest io H ProjectsRoot (project_name C pid)
                                (Child temp_dir SNAPSHOT_TREE_NAME))
      (\<lambda>copied. sbind (digest_tree io H temp_dir SNAPSHOT_TREE_NAME)
      (\<lambda>copied_verify. if copied \<noteq> copied_verify
         then sfail (checkpoint_error ''checkpoint_copy_integrity_mismatch'')
         else sbind source
      (\<lambda>source_after. if source_before \<noteq> copied \<or> copied \<noteq> source_after
         then sfail (checkpoint_error ''checkpoint_source_changed_during_snapshot'')
         else sbind (system_time io)
      (\<lambda>created. let m = checkpoint_metadata_of cid pid created reason copied in
         sbind (slift (checkpoint_metadata_validate m))
      (\<lambda>_. sbind (write_metadata C io temp_dir m)
      (\<lambda>_. sbind (sync_dir io)
      (\<lambda>_. sbind (sync_dir io) (\<lambda>_. sreturn m))))))))))))"

definition publish_snapshot ::
    "local_checkpoints \<Rightarrow> disk_io \<Rightarrow> project_id \<Rightarrow> checkpoint_reason \<Rightarrow> checkpoint_id
      \<Rightarrow> (disk, checkpoint_metadata) disk_act" where
  "publish_snapshot C io pid reason cid =
     (let parent = project_checkpoint_dir C pid; final_name = checkpoint_name C cid;
          temp_name = CHECKPOINT_TEMP_PREFIX @ final_name in
      sbind (fill_snapshot C io pid reason cid (Child parent temp_name))
      (\<lambda>m. sbind (rename io ''checkpoint_publish_rename_failed'' parent temp_name final_name)
      (\<lambda>_. sbind (sync_dir io) (\<lambda>_. sreturn m))))"

definition create_checkpoint_sync ::
    "local_checkpoints \<Rightarrow> disk_io \<Rightarrow> project_ref \<Rightarrow> checkpoint_reason
      \<Rightarrow> (disk, checkpoint_metadata) disk_act" where
  "create_checkpoint_sync C io project reason =
     (let pid = pr_id project; parent = project_checkpoint_dir C pid in
      sbind (verify_project C io project)
      (\<lambda>_. sbind lock_gate
      (\<lambda>_. sbind (create_or_verify_private_child C io CheckpointsRoot (project_name C pid))
      (\<lambda>_. sbind (list_checkpoint_ids C io pid)
      (\<lambda>existing. if length existing \<ge> MAX_CHECKPOINTS_PER_PROJECT
         then sfail (checkpoint_error ''checkpoint_project_limit_reached'')
         else sbind (fresh_checkpoint_id C io parent 8)
      (\<lambda>cid. let temp_name = CHECKPOINT_TEMP_PREFIX @ checkpoint_name C cid in
         sbind (create_dir io ''checkpoint_temp_create_failed'' parent temp_name)
      (\<lambda>_. sbind (set_private_dir_mode io)
      (\<lambda>_. stry (publish_snapshot C io pid reason cid)
      (\<lambda>outcome. if is_ok outcome then slift outcome
         else sbind (path_exists io parent temp_name)
      (\<lambda>left. if \<not> left then slift outcome
         else stry (remove_dir_all io ''checkpoint_temp_cleanup_failed'' parent temp_name)
                (\<lambda>_. slift outcome)))))))))))"

subsection \<open>Rolling back\<close>

definition digest_matches :: "tree_digest \<Rightarrow> checkpoint_metadata \<Rightarrow> bool" where
  "digest_matches d m \<longleftrightarrow> td_sha256 d = ck_tree_sha256 m \<and> td_file_count d = ck_file_count m
     \<and> td_total_bytes d = ck_total_bytes m"

text \<open>After a failure behind the exchange: exchange back, then report \<open>code\<close>.\<close>

definition undo_exchange ::
    "disk_io \<Rightarrow> rstring \<Rightarrow> rstring \<Rightarrow> string \<Rightarrow> (disk, 'a) disk_act" where
  "undo_exchange io live staging code =
     stry (sbind (exchange_children io ProjectsRoot live staging) (\<lambda>_. sync_dir io))
     (\<lambda>recovery. if \<not> is_ok recovery
        then sfail (checkpoint_error ''checkpoint_rollback_recovery_failed'')
        else stry (remove_dir_all io ''checkpoint_rollback_cleanup_failed'' ProjectsRoot staging)
               (\<lambda>_. sfail (checkpoint_error code)))"

definition discard_staging :: "disk_io \<Rightarrow> rstring \<Rightarrow> vibecoder_error \<Rightarrow> (disk, 'a) disk_act" where
  "discard_staging io staging e =
     stry (remove_dir_all io ''checkpoint_rollback_cleanup_failed'' ProjectsRoot staging) (\<lambda>_. sfail e)"

definition stage_integrity_failed :: vibecoder_error where
  "stage_integrity_failed = checkpoint_error ''checkpoint_rollback_stage_integrity_failed''"

definition stage_snapshot ::
    "local_checkpoints \<Rightarrow> disk_io \<Rightarrow> directory \<Rightarrow> tree_digest \<Rightarrow> rstring \<Rightarrow> (disk, unit) disk_act" where
  "stage_snapshot C io snapshot snapshot_digest staging =
     (let H = lc_hash C in
      sbind (create_dir io ''checkpoint_rollback_stage_create_failed'' ProjectsRoot staging)
      (\<lambda>_. sbind (set_private_dir_mode io)
      (\<lambda>_. stry (copy_tree_and_digest io H snapshot SNAPSHOT_TREE_NAME (Child ProjectsRoot staging))
      (\<lambda>copy. case copy of
         Inl e \<Rightarrow> discard_staging io staging e
       | Inr staged \<Rightarrow>
           if staged \<noteq> snapshot_digest then discard_staging io staging stage_integrity_failed
           else sbind (digest_tree io H ProjectsRoot staging)
           (\<lambda>checked. if checked \<noteq> snapshot_digest then discard_staging io staging stage_integrity_failed
              else sreturn ())))))"

definition exchange_live ::
    "local_checkpoints \<Rightarrow> disk_io \<Rightarrow> rstring \<Rightarrow> rstring \<Rightarrow> tree_digest \<Rightarrow> (disk, unit) disk_act" where
  "exchange_live C io live staging snapshot_digest =
     sbind (exchange_children io ProjectsRoot live staging)
     (\<lambda>_. stry (sync_dir io)
     (\<lambda>synced. if \<not> is_ok synced
        then undo_exchange io live staging ''checkpoint_rollback_exchange_sync_failed''
        else stry (digest_tree io (lc_hash C) ProjectsRoot live)
     (\<lambda>restored. if restored \<noteq> Inr snapshot_digest
        then undo_exchange io live staging ''checkpoint_rollback_post_exchange_verify_failed''
        else stry (remove_dir_all io ''checkpoint_rollback_cleanup_failed'' ProjectsRoot staging)
     (\<lambda>removed. if is_ok removed then stry (sync_dir io) (\<lambda>_. sreturn ()) else sreturn ()))))"

definition rollback_result_of :: "checkpoint_metadata \<Rightarrow> rollback_result" where
  "rollback_result_of m =
     \<lparr>rr_project_id = ck_project_id m, rr_checkpoint_id = ck_checkpoint_id m,
      rr_restored_file_count = ck_file_count m, rr_restored_total_bytes = ck_total_bytes m,
      rr_tree_sha256 = ck_tree_sha256 m\<rparr>"

definition rollback_sync ::
    "local_checkpoints \<Rightarrow> disk_io \<Rightarrow> project_ref \<Rightarrow> checkpoint_id \<Rightarrow> (disk, rollback_result) disk_act" where
  "rollback_sync C io project cid =
     (let pid = pr_id project;
          snapshot = Child (project_checkpoint_dir C pid) (checkpoint_name C cid) in
      sbind (verify_project C io project)
      (\<lambda>_. sbind lock_gate
      (\<lambda>_. sbind (load_metadata_sync C io pid cid)
      (\<lambda>found. sbind (slift (ok_or found (checkpoint_error ''checkpoint_not_found'')))
      (\<lambda>m. sbind (digest_tree io (lc_hash C) snapshot SNAPSHOT_TREE_NAME)
      (\<lambda>snapshot_digest. if \<not> digest_matches snapshot_digest m
         then sfail (checkpoint_error ''checkpoint_integrity_verification_failed'')
         else sbind (sys_ask (dk_uuid io))
      (\<lambda>u. let staging = ROLLBACK_TEMP_PREFIX @ ut_hyphenated (lc_uuid C) u in
         sbind (stage_snapshot C io snapshot snapshot_digest staging)
      (\<lambda>_. sbind (exchange_live C io (project_name C pid) staging snapshot_digest)
      (\<lambda>_. sreturn (rollback_result_of m))))))))))"

subsection \<open>Listing, loading, removing\<close>

fun load_each ::
    "local_checkpoints \<Rightarrow> disk_io \<Rightarrow> project_id \<Rightarrow> checkpoint_id list
      \<Rightarrow> (disk, checkpoint_metadata list) disk_act" where
  "load_each C io pid [] = sreturn []"
| "load_each C io pid (cid # cids) =
     sbind (load_metadata_sync C io pid cid)
     (\<lambda>found. sbind (load_each C io pid cids)
     (\<lambda>rest. sreturn (case found of None \<Rightarrow> rest | Some m \<Rightarrow> m # rest)))"

definition newest_first :: "checkpoint_metadata \<Rightarrow> u64 \<times> uuid" where
  "newest_first m = (NOT (ck_created_unix_ms m), NOT (checkpoint_uuid (ck_checkpoint_id m)))"

definition list_checkpoints ::
    "local_checkpoints \<Rightarrow> disk_io \<Rightarrow> project_id \<Rightarrow> nat \<Rightarrow> (disk, checkpoint_metadata list) disk_act" where
  "list_checkpoints C io pid max_results =
     (if max_results = 0 \<or> max_results > MAX_CHECKPOINTS_PER_PROJECT
      then sfail (checkpoint_error ''checkpoint_list_limit_invalid'')
      else sbind lock_gate
      (\<lambda>_. sbind (path_exists io CheckpointsRoot (project_name C pid))
      (\<lambda>present. if \<not> present then sreturn []
         else sbind (list_checkpoint_ids C io pid)
      (\<lambda>ids. sbind (load_each C io pid ids)
      (\<lambda>out. sreturn (take max_results (sort_key newest_first out)))))))"

definition load_checkpoint ::
    "local_checkpoints \<Rightarrow> disk_io \<Rightarrow> project_id \<Rightarrow> checkpoint_id
      \<Rightarrow> (disk, checkpoint_metadata option) disk_act" where
  "load_checkpoint C io pid cid = sbind lock_gate (\<lambda>_. load_metadata_sync C io pid cid)"

definition remove_checkpoint ::
    "local_checkpoints \<Rightarrow> disk_io \<Rightarrow> project_id \<Rightarrow> checkpoint_id \<Rightarrow> (disk, unit) disk_act" where
  "remove_checkpoint C io pid cid =
     (let parent = project_checkpoint_dir C pid; name = checkpoint_name C cid in
      sbind lock_gate
      (\<lambda>_. sbind (node_status io ''checkpoint_not_found'' parent name)
      (\<lambda>st. if fs_type st \<noteq> DirectoryFile
         then sfail (checkpoint_error ''checkpoint_directory_invalid'')
         else sbind (remove_dir_all io ''checkpoint_remove_failed'' parent name)
      (\<lambda>_. sync_dir io))))"

subsection \<open>Cleaning up after a crash\<close>

text \<open>One entry of a cleanup loop: only a canonical temporary name is touched.\<close>

definition temp_uuid :: "local_checkpoints \<Rightarrow> rstring \<Rightarrow> path \<Rightarrow> rstring option" where
  "temp_uuid C pre entry =
     (case to_str entry of
        None \<Rightarrow> None
      | Some name \<Rightarrow>
          if \<not> starts_with name pre then None
          else case ut_parse_str (lc_uuid C) (drop (length pre) name) of
            None \<Rightarrow> None
          | Some u \<Rightarrow>
              if ut_hyphenated (lc_uuid C) u \<noteq> drop (length pre) name then None else Some name)"

definition remove_link :: "disk_io \<Rightarrow> string \<Rightarrow> directory \<Rightarrow> rstring \<Rightarrow> (disk, unit) disk_act" where
  "remove_link io code dir name =
     sbind (sys io code)
     (\<lambda>_ s. (Inr (), set_entries dir (drop_entry name (entries_at dir s)) s))"

fun cleanup_entries ::
    "local_checkpoints \<Rightarrow> disk_io \<Rightarrow> rstring \<Rightarrow> string \<Rightarrow> string \<Rightarrow> string \<Rightarrow> string \<Rightarrow> directory \<Rightarrow> path list
      \<Rightarrow> (disk, unit) disk_act" where
  "cleanup_entries C io pre list_code status_code remove_code kind_code dir [] =
     sys io list_code"
| "cleanup_entries C io pre list_code status_code remove_code kind_code dir (entry # rest) =
     sbind (sys io list_code)
     (\<lambda>_. sbind
        (case temp_uuid C pre entry of
           None \<Rightarrow> sreturn ()
         | Some name \<Rightarrow>
             sbind (node_status io status_code dir name)
             (\<lambda>st. case fs_type st of
                SymlinkFile \<Rightarrow> remove_link io remove_code dir name
              | DirectoryFile \<Rightarrow> remove_dir_all io remove_code dir name
              | RegularFile \<Rightarrow> sfail (checkpoint_error kind_code)
              | OtherFile \<Rightarrow> sfail (checkpoint_error kind_code)))
     (\<lambda>_. cleanup_entries C io pre list_code status_code remove_code kind_code dir rest))"

definition cleanup_rollback_staging :: "local_checkpoints \<Rightarrow> disk_io \<Rightarrow> (disk, unit) disk_act" where
  "cleanup_rollback_staging C io =
     sbind (sys io ''checkpoint_projects_list_failed'')
     (\<lambda>_ s. sbind (sys_ask (\<lambda>k. dk_names io k (map fst (kd_projects s))))
        (cleanup_entries C io ROLLBACK_TEMP_PREFIX ''checkpoint_projects_list_failed''
           ''checkpoint_rollback_cleanup_metadata_failed'' ''checkpoint_rollback_cleanup_failed''
           ''checkpoint_rollback_staging_invalid'' ProjectsRoot) s)"

definition cleanup_project_temps ::
    "local_checkpoints \<Rightarrow> disk_io \<Rightarrow> path \<Rightarrow> (disk, unit) disk_act" where
  "cleanup_project_temps C io project_entry =
     sbind (\<lambda>s. sys_status io ''checkpoint_cleanup_metadata_failed'' (map_of (kd_checkpoints s) project_entry) s)
     (\<lambda>st. if fs_type st \<noteq> DirectoryFile
        then sfail (checkpoint_error ''checkpoint_project_directory_invalid'')
        else sbind (sys io ''checkpoint_cleanup_list_failed'')
     (\<lambda>_ s. case project_entry of
        RawPath _ \<Rightarrow> (Inr (), s)
      | Utf8Path project \<Rightarrow>
          sbind (sys_ask (\<lambda>k. dk_names io k (map fst (entries_at (Child CheckpointsRoot project) s))))
          (cleanup_entries C io CHECKPOINT_TEMP_PREFIX ''checkpoint_cleanup_list_failed''
             ''checkpoint_cleanup_metadata_failed'' ''checkpoint_temp_cleanup_failed''
             ''checkpoint_temp_staging_invalid'' (Child CheckpointsRoot project)) s))"

definition cleanup_checkpoint_temps :: "local_checkpoints \<Rightarrow> disk_io \<Rightarrow> (disk, unit) disk_act" where
  "cleanup_checkpoint_temps C io =
     sbind (sys io ''checkpoint_cleanup_list_failed'')
     (\<lambda>_ s. sbind (sys_ask (\<lambda>k. dk_names io k (map fst (kd_checkpoints s))))
        (seach (\<lambda>project_entry. sbind (sys io ''checkpoint_cleanup_list_failed'')
           (\<lambda>_. cleanup_project_temps C io project_entry))) s)"

section \<open>Directories as maps\<close>

lemma find_put [simp]:
  "find_entry a (put_entry b n es) = (if a = b then Some n else find_entry a es)"
proof -
  have upd: "map_of (update_entry b f es) p = (if p = Utf8Path b then map_option f (map_of es p) else map_of es p)"
    for f p by (induction es) (auto simp: update_entry_def)
  show ?thesis
    by (auto simp: put_entry_def find_entry_def upd map_add_def split: option.splits)
qed

lemma find_drop [simp]: "find_entry a (drop_entry b es) = (if a = b then None else find_entry a es)"
  by (induction es) (auto simp: drop_entry_def find_entry_def)

lemma find_Nil [simp]: "find_entry a [] = None"
  by (simp add: find_entry_def)

lemma set_entries_simps [simp]:
  "sy_calls (set_entries dir es s) = sy_calls s" "kd_gate_poisoned (set_entries dir es s) = kd_gate_poisoned s"
  by (induction dir arbitrary: es) simp_all

primrec root_of :: "directory \<Rightarrow> directory" where
  "root_of ProjectsRoot = ProjectsRoot" | "root_of CheckpointsRoot = CheckpointsRoot"
| "root_of (Child dir name) = root_of dir"

lemma root_cases: "root_of dir = ProjectsRoot \<or> root_of dir = CheckpointsRoot"
  by (induction dir) simp_all

lemma set_entries_root [simp]:
  "root_of dir = ProjectsRoot \<Longrightarrow> kd_checkpoints (set_entries dir es s) = kd_checkpoints s"
  "root_of dir = CheckpointsRoot \<Longrightarrow> kd_projects (set_entries dir es s) = kd_projects s"
  by (induction dir arbitrary: es) simp_all

lemma entries_at_set [simp]: "entries_at dir (set_entries dir es s) = es"
  by (induction dir arbitrary: es) simp_all

lemma node_at_set [simp]: "node_at dir name (set_entries dir es s) = find_entry name es"
  by (simp add: node_at_def)

lemma entries_at_Child: "entries_at (Child dir name) s = (case node_at dir name s of None \<Rightarrow> [] | Some n \<Rightarrow> children n)"
  by (simp add: node_at_def)

lemma node_at_set_Child [simp]:
  "node_at dir other (set_entries (Child dir name) es s)
     = (if other = name then Some (DirNode es) else node_at dir other s)"
  by (simp add: node_at_def)

lemma entries_at_calls [simp]:
  "entries_at dir (s\<lparr>sy_calls := k\<rparr>) = entries_at dir s" "node_at dir name (s\<lparr>sy_calls := k\<rparr>) = node_at dir name s"
proof -
  show "entries_at dir (s\<lparr>sy_calls := k\<rparr>) = entries_at dir s" for dir by (induction dir) simp_all
  then show "node_at dir name (s\<lparr>sy_calls := k\<rparr>) = node_at dir name s" by (simp add: node_at_def)
qed

lemma advanced_disk:
  assumes "advanced s t"
  shows "entries_at dir t = entries_at dir s" "node_at dir name t = node_at dir name s"
    "kd_projects t = kd_projects s" "kd_checkpoints t = kd_checkpoints s"
    "kd_gate_poisoned t = kd_gate_poisoned s"
  using assms by (auto simp: advanced_def)

section \<open>What an operation may change\<close>

lemma within_reads: "reads_only m \<Longrightarrow> (\<And>s t. advanced s t \<Longrightarrow> R s t) \<Longrightarrow> within R m"
  by (simp add: within_def reads_only_def)

text \<open>A change confined to the entries \<open>names\<close> of one root.\<close>

definition project_changes :: "rstring set \<Rightarrow> disk \<Rightarrow> disk \<Rightarrow> bool" where
  "project_changes names s t \<longleftrightarrow> kd_checkpoints t = kd_checkpoints s
     \<and> kd_gate_poisoned t = kd_gate_poisoned s
     \<and> (\<forall>name. name \<notin> names \<longrightarrow> node_at ProjectsRoot name t = node_at ProjectsRoot name s)"

lemma transp_project_changes: "transp (project_changes names)"
  by (auto simp: transp_def project_changes_def)

lemma project_changes_advanced: "advanced s t \<Longrightarrow> project_changes names s t"
  by (simp add: project_changes_def advanced_disk)

lemma project_changes_mono: "project_changes names s t \<Longrightarrow> names \<subseteq> names' \<Longrightarrow> project_changes names' s t"
  by (auto simp: project_changes_def)

section \<open>The single operations\<close>

lemma reads_only_disk [reads_only_intros]:
  "reads_only (digest_tree io H dir name)" "reads_only (path_exists io dir name)"
  "reads_only (node_status io code dir name)" "reads_only (canonicalize io code p)"
  "reads_only lock_gate"
proof -
  have "advanced s (snd (digest_tree io H dir name s))" for s
  proof (cases "node_at dir name s")
    case None
    have "reads_only (sbind (sys io c) (\<lambda>_. sfail e) :: (disk, tree_digest) disk_act)" for c e
      by (intro reads_only_intros)
    then show ?thesis using None by (simp add: digest_tree_def reads_only_def)
  next
    case (Some n)
    have "reads_only (sbind (hash_dir_recursive io n [] 0 digest_state_new)
        (\<lambda>d. sreturn (digest_finish H d)) :: (disk, tree_digest) disk_act)"
      by (intro reads_only_intros)
    then show ?thesis using Some by (simp add: digest_tree_def reads_only_def)
  qed
  then show "reads_only (digest_tree io H dir name)" by (simp add: reads_only_def)
  show "reads_only (path_exists io dir name)"
    by (auto simp: reads_only_def path_exists_def advanced_def)
  have "reads_only (sys_status io code entry :: (disk, file_status) disk_act)" for entry
    by (rule reads_only_calls)
  then show "reads_only (node_status io code dir name)" unfolding reads_only_def node_status_def by blast
  show "reads_only (canonicalize io code p)" unfolding canonicalize_def by (intro reads_only_intros)
  show "reads_only lock_gate" by (simp add: reads_only_def lock_gate_def)
qed

lemma wp_reads: "reads_only m \<Longrightarrow> wp m (\<lambda>r t. advanced s t) s"
  by (rule wpI) (rule reads_onlyD)

abbreviation project_act :: "rstring set \<Rightarrow> (disk, 'a) disk_act \<Rightarrow> bool" where
  "project_act names \<equiv> within (project_changes names)"

named_theorems project_acts \<open>operations confined to some entries of the projects root\<close>

lemma project_act_reads [project_acts]: "reads_only m \<Longrightarrow> project_act names m"
  by (rule within_reads) (auto intro: project_changes_advanced)

lemma project_act_sbind [project_acts]:
  "project_act names m \<Longrightarrow> (\<And>a. project_act names (f a)) \<Longrightarrow> project_act names (sbind m f)"
  "project_act names m \<Longrightarrow> (\<And>r. project_act names (g r)) \<Longrightarrow> project_act names (stry m g)"
  by (rule within_sbind within_stry; simp add: transp_project_changes)+

lemmas project_act_rules [project_acts] = within_rules

lemma project_act_create [project_acts]:
  "project_act {name} (create_dir io code ProjectsRoot name)"
  unfolding create_dir_def
  by (rule project_act_sbind(1) [OF project_act_reads [OF reads_only_sys]])
    (auto simp: within_def project_changes_def node_at_def)

lemma project_act_remove [project_acts]:
  "project_act {name} (remove_dir_all io code ProjectsRoot name)"
  by (auto simp: within_def project_changes_def remove_dir_all_def Let_def node_at_def
      split: option.splits)

lemma project_act_exchange [project_acts]:
  "project_act {left, right} (exchange_children io ProjectsRoot left right)"
  unfolding exchange_children_def
  by (intro project_act_sbind(1) [OF project_act_reads [OF reads_only_sys]] within_if
      project_act_reads [OF reads_only_basic(3)])
    (auto simp: within_def project_changes_def node_at_def split: option.splits)

lemma advanced_copying: "advanced s t \<Longrightarrow> cp_entries t = cp_entries s" for s :: copying
  by (rule advanced_entries)

lemma project_act_copy [project_acts]:
  "project_act {name} (copy_tree_and_digest io H dir source (Child ProjectsRoot name))"
proof -
  have "project_changes {name} s (snd (copy_tree_and_digest io H dir source (Child ProjectsRoot name) s))" for s
  proof (cases "node_at dir source s")
    case None
    have "reads_only (sbind (sys io c) (\<lambda>_. sfail e) :: (disk, tree_digest) disk_act)" for c e
      by (intro reads_only_intros)
    then show ?thesis using None
      by (auto simp: copy_tree_and_digest_def reads_only_def intro: project_changes_advanced)
  qed (auto simp: copy_tree_and_digest_def project_changes_def node_at_def split: prod.split)
  then show ?thesis by (simp add: within_def)
qed

lemma project_act_mono: "project_act names m \<Longrightarrow> names \<subseteq> names' \<Longrightarrow> project_act names' m"
  unfolding within_def by (auto intro: project_changes_mono)

lemma copy_tree_done:
  assumes "copy_tree_and_digest io H dir source destination s = (Inr d, t)" and "names_io io"
    and "entries_at destination s = []"
  shows "\<exists>n es k. node_at dir source s = Some n \<and> t = set_entries destination es (s\<lparr>sy_calls := k\<rparr>)
    \<and> dir_ok MAX_CHECKPOINT_DEPTH es \<and> d = entries_digest H (tree_entries (DirNode es))
    \<and> (quiet_io io \<longrightarrow> on_disk n \<longrightarrow> tree_entries (DirNode es) = tree_entries n)"
proof (cases "node_at dir source s")
  case None
  then show ?thesis using assms(1) by (auto simp: copy_tree_and_digest_def done_simps)
next
  case (Some n)
  let ?c = "\<lparr>sy_calls = sy_calls s, cp_entries = entries_at destination s\<rparr>"
  obtain d' c where copy: "copy_dir_recursive io n [] 0 digest_state_new ?c = (Inr d', c)"
    and d: "d = digest_finish H d'" "t = set_entries destination (cp_entries c) (s\<lparr>sy_calls := sy_calls c\<rparr>)"
    using assms(1) Some by (auto simp: copy_tree_and_digest_def map_sum_def split: prod.splits sum.splits)
  note copied = copy_done(1) [OF copy assms(2)]
  have "cp_entries ?c = []" using assms(3) by simp
  from copied [OF this] show ?thesis using Some d
    by (auto simp: copy_state_def dir_ok_def entries_digest_def)
qed

lemma wp_exchange:
  assumes "left \<noteq> right"
  shows "wp (exchange_children io ProjectsRoot left right) (\<lambda>r t. case r of
      Inl e \<Rightarrow> advanced s t
    | Inr _ \<Rightarrow> node_at ProjectsRoot left t = node_at ProjectsRoot right s \<and> node_at ProjectsRoot left s \<noteq> None
        \<and> node_at ProjectsRoot right t = node_at ProjectsRoot left s \<and> node_at ProjectsRoot right s \<noteq> None) s"
    (is "wp _ ?Q s")
proof -
  have swap: "wp (\<lambda>s. case (node_at ProjectsRoot left s, node_at ProjectsRoot right s) of
        (Some a, Some b) \<Rightarrow>
          (Inr (), set_entries ProjectsRoot (put_entry left b (put_entry right a (entries_at ProjectsRoot s))) s)
      | _ \<Rightarrow> (Inl e, s)) ?Q u" if "advanced s u" for u e
    using that assms by (auto simp: wp_def node_at_def advanced_disk(3) split: option.splits)
  show ?thesis
    unfolding exchange_children_def
  proof (rule wp_step [OF wp_reads [OF reads_only_sys]])
    fix a u
    assume u: "advanced s u"
    show "wp (if 0 \<in> set left \<or> 0 \<in> set right
        then sfail (checkpoint_error ''checkpoint_exchange_name_invalid'')
        else sbind (sys io ''checkpoint_atomic_exchange_failed'')
     (\<lambda>_ s. case (node_at ProjectsRoot left s, node_at ProjectsRoot right s) of
        (Some a, Some b) \<Rightarrow>
          (Inr (), set_entries ProjectsRoot (put_entry left b (put_entry right a (entries_at ProjectsRoot s))) s)
      | _ \<Rightarrow> (Inl (checkpoint_error ''checkpoint_atomic_exchange_failed''), s))) ?Q u"
    proof (cases "0 \<in> set left \<or> 0 \<in> set right")
      case False
      have "wp (sbind (sys io ''checkpoint_atomic_exchange_failed'')
         (\<lambda>_ s. case (node_at ProjectsRoot left s, node_at ProjectsRoot right s) of
            (Some a, Some b) \<Rightarrow>
              (Inr (), set_entries ProjectsRoot (put_entry left b (put_entry right a (entries_at ProjectsRoot s))) s)
          | _ \<Rightarrow> (Inl (checkpoint_error ''checkpoint_atomic_exchange_failed''), s))) ?Q u"
        by (rule wp_step [OF wp_reads [OF reads_only_sys]],
            simp, rule advanced_trans [OF u], assumption, rule swap [OF advanced_trans [OF u]])
      then show ?thesis using False by simp
    qed (use u in \<open>simp add: wp_simps\<close>)
  qed simp
qed

section \<open>Rolling back\<close>

definition recovery_failed :: vibecoder_error where
  "recovery_failed = checkpoint_error ''checkpoint_rollback_recovery_failed''"

lemma stry_done [done_simps]:
  "stry m f s = (Inr b, t) \<longleftrightarrow> (\<exists>r u. m s = (r, u) \<and> f r u = (Inr b, t))"
  by (auto simp: stry_def split: prod.split)

lemma create_dir_done:
  "create_dir io code dir name s = (Inr x, t) \<Longrightarrow>
     \<exists>k. node_at dir name s = None
       \<and> t = set_entries dir (put_entry name (DirNode []) (entries_at dir s)) (s\<lparr>sy_calls := k\<rparr>)"
  by (auto simp: create_dir_def done_simps advanced_def dest!: sys_done split: if_splits) blast

lemma discard_fails: "discard_staging io staging e s = (Inr x, t) \<longleftrightarrow> False"
  by (simp add: discard_staging_def done_simps)

lemma project_act_discard [project_acts]: "project_act {staging} (discard_staging io staging e)"
  unfolding discard_staging_def by (intro project_acts reads_only_intros)

lemma project_act_stage: "project_act {staging} (stage_snapshot C io snapshot d staging)"
  unfolding stage_snapshot_def by (intro project_acts reads_only_intros)

lemma project_act_undo [project_acts]: "project_act {live, staging} (undo_exchange io live staging code)"
  unfolding undo_exchange_def
  by (intro project_acts reads_only_intros project_act_mono [OF project_act_remove]) simp

lemma project_act_live: "project_act {live, staging} (exchange_live C io live staging d)"
  unfolding exchange_live_def
  by (intro project_acts reads_only_intros project_act_mono [OF project_act_remove]) simp

lemma checkpoints_node:
  "root_of dir = CheckpointsRoot \<Longrightarrow> kd_checkpoints t = kd_checkpoints s \<Longrightarrow> node_at dir name t = node_at dir name s"
proof -
  assume "root_of dir = CheckpointsRoot" and eq: "kd_checkpoints t = kd_checkpoints s"
  then have "entries_at dir t = entries_at dir s" by (induction dir) (simp_all add: eq)
  then show ?thesis by (simp add: node_at_def)
qed

lemma stage_done:
  assumes "stage_snapshot C io snapshot d staging s = (Inr x, t)" and "names_io io"
    and "root_of snapshot = CheckpointsRoot"
  shows "\<exists>es. node_at ProjectsRoot staging t = Some (DirNode es) \<and> dir_ok MAX_CHECKPOINT_DEPTH es
    \<and> d = entries_digest (lc_hash C) (tree_entries (DirNode es))
    \<and> (quiet_io io \<longrightarrow> (\<exists>n. node_at snapshot SNAPSHOT_TREE_NAME s = Some n
          \<and> (on_disk n \<longrightarrow> tree_entries (DirNode es) = tree_entries n)))"
proof -
  let ?into = "Child ProjectsRoot staging"
  obtain x1 s1 x2 s2 copy s3 where create: "create_dir io ''checkpoint_rollback_stage_create_failed'' ProjectsRoot staging s = (Inr x1, s1)"
    and mode: "set_private_dir_mode io s1 = (Inr x2, s2)"
    and copied: "copy_tree_and_digest io (lc_hash C) snapshot SNAPSHOT_TREE_NAME ?into s2 = (copy, s3)"
    and rest: "(case copy of
         Inl e \<Rightarrow> discard_staging io staging e
       | Inr staged \<Rightarrow>
           if staged \<noteq> d then discard_staging io staging stage_integrity_failed
           else sbind (digest_tree io (lc_hash C) ProjectsRoot staging)
           (\<lambda>checked. if checked \<noteq> d then discard_staging io staging stage_integrity_failed
              else sreturn ())) s3 = (Inr x, t)"
    using assms(1) unfolding stage_snapshot_def Let_def sbind_done stry_done by blast
  from rest obtain checked where copy: "copy = Inr d"
    and check: "digest_tree io (lc_hash C) ProjectsRoot staging s3 = (Inr checked, t)"
    by (cases copy) (auto simp: done_simps discard_fails split: if_splits)
  note copy = copied [unfolded copy]
  obtain k where s1: "s1 = set_entries ProjectsRoot (put_entry staging (DirNode []) (kd_projects s)) (s\<lparr>sy_calls := k\<rparr>)"
    using create_dir_done [OF create] by auto
  have s2: "advanced s1 s2" using reads_onlyD [OF reads_only_calls(4) mode] .
  have "entries_at ?into s2 = []"
    using advanced_disk(1) [OF s2, of ?into] s1 by simp
  from copy_tree_done [OF copy assms(2) this] obtain n es k' where n: "node_at snapshot SNAPSHOT_TREE_NAME s2 = Some n"
    and s3: "s3 = set_entries ?into es (s2\<lparr>sy_calls := k'\<rparr>)" and es: "dir_ok MAX_CHECKPOINT_DEPTH es"
    "d = entries_digest (lc_hash C) (tree_entries (DirNode es))"
    "quiet_io io \<longrightarrow> on_disk n \<longrightarrow> tree_entries (DirNode es) = tree_entries n" by blast
  have "node_at ProjectsRoot staging t = Some (DirNode es)"
    using advanced_disk(3) [OF reads_onlyD [OF reads_only_disk(1) check]] s3 by (simp add: node_at_def)
  moreover have "node_at snapshot SNAPSHOT_TREE_NAME s2 = node_at snapshot SNAPSHOT_TREE_NAME s"
    using advanced_disk(4) [OF s2] s1 by (intro checkpoints_node [OF assms(3)]) simp
  ultimately show ?thesis using es n by metis
qed

lemma wp_project_act:
  assumes "project_act names m" and "live \<notin> names"
  shows "wp m (\<lambda>r t. node_at ProjectsRoot live t = node_at ProjectsRoot live s) s"
  using withinD [OF assms(1)] assms(2) by (auto intro: wpI simp: project_changes_def)

lemma wp_undo:
  assumes "live \<noteq> staging"
  shows "wp (undo_exchange io live staging code) (\<lambda>r t. \<exists>e. r = Inl e
    \<and> (node_at ProjectsRoot live t = node_at ProjectsRoot staging s
       \<or> node_at ProjectsRoot live t = node_at ProjectsRoot live s \<and> e = recovery_failed)) s"
proof -
  let ?P = "\<lambda>r t. node_at ProjectsRoot live t = node_at ProjectsRoot staging s
    \<or> node_at ProjectsRoot live t = node_at ProjectsRoot live s \<and> \<not> is_ok r"
  have "wp (sbind (exchange_children io ProjectsRoot live staging) (\<lambda>_. sync_dir io)) ?P s"
  proof (rule wp_step [OF wp_exchange [OF assms]])
    fix e :: vibecoder_error and t :: disk
    assume "case Inl e of Inl e \<Rightarrow> advanced s t
      | Inr _ \<Rightarrow> node_at ProjectsRoot live t = node_at ProjectsRoot staging s \<and> node_at ProjectsRoot live s \<noteq> None
        \<and> node_at ProjectsRoot staging t = node_at ProjectsRoot live s \<and> node_at ProjectsRoot staging s \<noteq> None"
    then show "?P (Inl e) t" using advanced_disk(2) by simp
  next
    fix a :: unit and t :: disk
    assume "case Inr a of Inl e \<Rightarrow> advanced s t
      | Inr _ \<Rightarrow> node_at ProjectsRoot live t = node_at ProjectsRoot staging s \<and> node_at ProjectsRoot live s \<noteq> None
        \<and> node_at ProjectsRoot staging t = node_at ProjectsRoot live s \<and> node_at ProjectsRoot staging s \<noteq> None"
    then have "node_at ProjectsRoot live t = node_at ProjectsRoot staging s" by simp
    then show "wp (sync_dir io) ?P t"
      by (intro wp_mono [OF wp_reads [OF reads_only_calls(5)]]) (simp add: advanced_disk(2))
  qed
  then show ?thesis
    unfolding undo_exchange_def
  proof (rule wp_try)
    fix r t
    assume r: "?P r t"
    show "wp (if \<not> is_ok r then sfail (checkpoint_error ''checkpoint_rollback_recovery_failed'')
        else stry (remove_dir_all io ''checkpoint_rollback_cleanup_failed'' ProjectsRoot staging)
               (\<lambda>_. sfail (checkpoint_error code))) (\<lambda>r t. \<exists>e. r = Inl e
      \<and> (node_at ProjectsRoot live t = node_at ProjectsRoot staging s
         \<or> node_at ProjectsRoot live t = node_at ProjectsRoot live s \<and> e = recovery_failed)) t"
    proof (cases "is_ok r")
      case True
      have "wp (remove_dir_all io ''checkpoint_rollback_cleanup_failed'' ProjectsRoot staging)
          (\<lambda>r u. node_at ProjectsRoot live u = node_at ProjectsRoot live t) t"
        by (rule wp_project_act [OF project_act_remove]) (use assms in simp)
      then show ?thesis using True r by (auto simp: wp_simps elim!: wp_mono)
    qed (use r in \<open>auto simp: wp_simps recovery_failed_def\<close>)
  qed
qed

lemma wp_exchange_live:
  assumes "live \<noteq> staging"
  shows "wp (exchange_live C io live staging d) (\<lambda>r t. case r of
      Inr _ \<Rightarrow> node_at ProjectsRoot live t = node_at ProjectsRoot staging s
    | Inl e \<Rightarrow> node_at ProjectsRoot live t = node_at ProjectsRoot live s
        \<or> node_at ProjectsRoot live t = node_at ProjectsRoot staging s \<and> e = recovery_failed) s"
    (is "wp _ ?Q s")
proof -
  define new where "new = node_at ProjectsRoot staging s"
  define old where "old = node_at ProjectsRoot live s"
  have undo: "wp (undo_exchange io live staging code) ?Q u"
    if "node_at ProjectsRoot live u = new" "node_at ProjectsRoot staging u = old" for u code
    using that by (auto simp: new_def old_def intro!: wp_mono [OF wp_undo [OF assms]])
  have removed: "wp (stry (remove_dir_all io ''checkpoint_rollback_cleanup_failed'' ProjectsRoot staging)
     (\<lambda>removed. if is_ok removed then stry (sync_dir io) (\<lambda>_. sreturn ()) else sreturn ())) ?Q u"
    if "node_at ProjectsRoot live u = new" for u
  proof -
    define m :: "(disk, unit) disk_act" where
      "m = stry (remove_dir_all io ''checkpoint_rollback_cleanup_failed'' ProjectsRoot staging)
         (\<lambda>removed. if is_ok removed then stry (sync_dir io) (\<lambda>_. sreturn ()) else sreturn ())"
    have "project_act {staging} m" unfolding m_def by (intro project_acts reads_only_intros)
    then have "wp m (\<lambda>r t. node_at ProjectsRoot live t = node_at ProjectsRoot live u) u"
      by (rule wp_project_act) (use assms in simp)
    moreover have "wp m (\<lambda>r t. r = Inr ()) u"
      by (auto simp: m_def wp_def stry_def sreturn_def split: prod.split)
    ultimately have "wp m (\<lambda>r t. node_at ProjectsRoot live t = node_at ProjectsRoot live u \<and> r = Inr ()) u"
      by (rule wp_conj)
    then have "wp m ?Q u" by (rule wp_mono) (use that new_def in simp)
    then show ?thesis by (simp only: m_def)
  qed
  show ?thesis
    unfolding exchange_live_def
  proof (rule wp_step [OF wp_exchange [OF assms]], goal_cases)
    case (1 e t)
    then show ?case using advanced_disk(2) by simp
  next
    case (2 a t)
    then have t: "node_at ProjectsRoot live t = new" "node_at ProjectsRoot staging t = old"
      by (simp_all add: new_def old_def)
    show ?case
    proof (rule wp_try [OF wp_reads [OF reads_only_calls(5)]], goal_cases)
      case (1 synced u)
      then have u: "node_at ProjectsRoot live u = new" "node_at ProjectsRoot staging u = old"
        using t advanced_disk(2) by simp_all
      show ?case
      proof (cases "is_ok synced")
        case True
        have "wp (stry (digest_tree io (lc_hash C) ProjectsRoot live)
           (\<lambda>restored. if restored \<noteq> Inr d
              then undo_exchange io live staging ''checkpoint_rollback_post_exchange_verify_failed''
              else stry (remove_dir_all io ''checkpoint_rollback_cleanup_failed'' ProjectsRoot staging)
           (\<lambda>removed. if is_ok removed then stry (sync_dir io) (\<lambda>_. sreturn ()) else sreturn ()))) ?Q u"
        proof (rule wp_try [OF wp_reads [OF reads_only_disk(1)]], goal_cases)
          case (1 restored v)
          then have v: "node_at ProjectsRoot live v = new" "node_at ProjectsRoot staging v = old"
            using u advanced_disk(2) by simp_all
          show ?case
          proof (cases "restored = Inr d")
            case True
            then show ?thesis using removed [OF v(1)] by simp
          next
            case False
            then show ?thesis using undo [OF v] by simp
          qed
        qed
        then show ?thesis using True by simp
      next
        case False
        then show ?thesis using undo [OF u] by simp
      qed
    qed
  qed
qed

lemma reads_only_state: "(\<And>x. reads_only (f x)) \<Longrightarrow> reads_only (\<lambda>s. f (g s) s)"
  by (simp add: reads_only_def)

lemma reads_only_load [reads_only_intros]: "reads_only (load_metadata_sync C io pid cid)"
  unfolding load_metadata_sync_def read_metadata_def
  by (rule reads_only_sbind [OF reads_only_sys], rule reads_only_state) (intro reads_only_intros)

lemma read_metadata_done:
  assumes "read_metadata C io pid cid dir s = (Inr found, t)"
  shows "\<exists>m f k. found = Some m \<and> find_entry METADATA_NAME (children dir) = Some f
    \<and> lc_decode C (dk_contents io k (node_bytes f)) = Some m
    \<and> checkpoint_metadata_validate m = Inr () \<and> ck_project_id m = pid \<and> ck_checkpoint_id m = cid"
proof (cases "find_entry METADATA_NAME (children dir)")
  case None
  then show ?thesis using assms by (auto simp: read_metadata_def done_simps)
next
  case (Some f)
  then show ?thesis using assms
    by (auto simp: read_metadata_def done_simps ok_or_eq_Inr simp del: One_nat_def
        dest!: sys_ask_done split: if_split_asm)
qed

text \<open>The metadata \<open>m\<close> were decoded from what reading the metadata file of the checkpoint returned, which is
  the stored file unless another process rewrote it meanwhile.\<close>

definition recorded ::
    "local_checkpoints \<Rightarrow> disk_io \<Rightarrow> project_id \<Rightarrow> checkpoint_id \<Rightarrow> disk \<Rightarrow> checkpoint_metadata \<Rightarrow> bool" where
  "recorded C io pid cid s m \<longleftrightarrow>
     (\<exists>dir f k. node_at (project_checkpoint_dir C pid) (checkpoint_name C cid) s = Some dir
        \<and> find_entry METADATA_NAME (children dir) = Some f
        \<and> lc_decode C (dk_contents io k (node_bytes f)) = Some m)"

lemma recorded_quiet:
  assumes "recorded C io pid cid s m" and "quiet_io io"
  shows "\<exists>n f. node_at (project_checkpoint_dir C pid) (checkpoint_name C cid) s = Some n
    \<and> find_entry METADATA_NAME (children n) = Some f \<and> lc_decode C (node_bytes f) = Some m"
  using assms by (auto simp: recorded_def quiet_io_def)

lemma recorded_advanced: "advanced s t \<Longrightarrow> recorded C io pid cid t m = recorded C io pid cid s m"
  by (simp add: recorded_def advanced_disk)

lemma load_metadata_done:
  assumes "load_metadata_sync C io pid cid s = (Inr (Some m), t)"
  shows "checkpoint_metadata_validate m = Inr () \<and> ck_project_id m = pid \<and> ck_checkpoint_id m = cid \<and> recorded C io pid cid s m"
proof -
  obtain x u where u: "sys io ''checkpoint_directory_metadata_failed'' s = (Inr x, u)"
    and rest: "(case node_at (project_checkpoint_dir C pid) (checkpoint_name C cid) u of
        None \<Rightarrow> sreturn None
      | Some dir \<Rightarrow>
          sbind (sys_ask (\<lambda>k. dk_stat io k (status dir)))
          (\<lambda>st. if fs_type st \<noteq> DirectoryFile
             then sfail (checkpoint_error ''checkpoint_directory_invalid'')
             else read_metadata C io pid cid dir)) u = (Inr (Some m), t)"
    using assms unfolding load_metadata_sync_def sbind_done by blast
  then obtain n v where n: "node_at (project_checkpoint_dir C pid) (checkpoint_name C cid) u = Some n"
    and v: "read_metadata C io pid cid n v = (Inr (Some m), t)"
    by (cases "node_at (project_checkpoint_dir C pid) (checkpoint_name C cid) u")
      (auto simp: done_simps split: if_split_asm)
  from read_metadata_done [OF v] obtain f k where "find_entry METADATA_NAME (children n) = Some f"
    "lc_decode C (dk_contents io k (node_bytes f)) = Some m" "checkpoint_metadata_validate m = Inr ()"
    "ck_project_id m = pid" "ck_checkpoint_id m = cid" by auto
  then show ?thesis using n advanced_disk(2) [OF sys_done [OF u]] by (auto simp: recorded_def)
qed

text \<open>The live tree of a project is the one the metadata \<open>m\<close> of a checkpoint describes.\<close>

definition restored :: "local_checkpoints \<Rightarrow> project_id \<Rightarrow> checkpoint_id \<Rightarrow> checkpoint_metadata \<Rightarrow> disk \<Rightarrow> bool" where
  "restored C pid cid m t \<longleftrightarrow>
     checkpoint_metadata_validate m = Inr () \<and> ck_project_id m = pid \<and> ck_checkpoint_id m = cid
     \<and> (\<exists>es. node_at ProjectsRoot (project_name C pid) t = Some (DirNode es)
          \<and> dir_ok MAX_CHECKPOINT_DEPTH es
          \<and> digest_matches (entries_digest (lc_hash C) (tree_entries (DirNode es))) m)"

text \<open>The text of a \<open>Uuid\<close> never begins with a dot, as the temporary names do.\<close>

definition uuid_plain :: "uuid_text \<Rightarrow> bool" where
  "uuid_plain U \<longleftrightarrow> (\<forall>u. \<not> starts_with (ut_hyphenated U u) [46])"

definition rolled_back ::
    "local_checkpoints \<Rightarrow> disk_io \<Rightarrow> project_id \<Rightarrow> checkpoint_id \<Rightarrow> disk \<Rightarrow> rollback_result result \<Rightarrow> disk
      \<Rightarrow> bool" where
  "rolled_back C io pid cid s r t \<longleftrightarrow>
     kd_checkpoints t = kd_checkpoints s
     \<and> (\<forall>name. name \<noteq> project_name C pid \<longrightarrow> \<not> starts_with name ROLLBACK_TEMP_PREFIX
          \<longrightarrow> node_at ProjectsRoot name t = node_at ProjectsRoot name s)
     \<and> (case r of
          Inr res \<Rightarrow> \<exists>m. res = rollback_result_of m \<and> recorded C io pid cid s m \<and> restored C pid cid m t
        | Inl e \<Rightarrow> node_at ProjectsRoot (project_name C pid) t = node_at ProjectsRoot (project_name C pid) s
            \<or> e = recovery_failed \<and> (\<exists>m. recorded C io pid cid s m \<and> restored C pid cid m t))"

lemma starts_with_append [simp]: "starts_with (p @ x) p"
  by (induction p) auto

lemma rolled_back_advanced: "advanced s t \<Longrightarrow> rolled_back C io pid cid s (Inl e) t"
  by (simp add: rolled_back_def advanced_disk)

lemma wp_stage:
  assumes "names_io io" and "root_of snapshot = CheckpointsRoot"
  shows "wp (stage_snapshot C io snapshot d staging) (\<lambda>r t. project_changes {staging} s t
    \<and> (r = Inr () \<longrightarrow> (\<exists>es. node_at ProjectsRoot staging t = Some (DirNode es) \<and> dir_ok MAX_CHECKPOINT_DEPTH es
      \<and> d = entries_digest (lc_hash C) (tree_entries (DirNode es))
      \<and> (quiet_io io \<longrightarrow> (\<exists>n. node_at snapshot SNAPSHOT_TREE_NAME s = Some n
            \<and> (on_disk n \<longrightarrow> tree_entries (DirNode es) = tree_entries n)))))) s"
  using withinD [OF project_act_stage] stage_done [OF _ assms] by (auto intro!: wpI)

lemma rollback_finish:
  assumes "names_io io" and "uuid_plain (lc_uuid C)"
    and "checkpoint_metadata_validate m = Inr ()" "ck_project_id m = pid" "ck_checkpoint_id m = cid"
    and "digest_matches d m" and "root_of snapshot = CheckpointsRoot" and "recorded C io pid cid s m"
  shows "wp (sbind (stage_snapshot C io snapshot d (ROLLBACK_TEMP_PREFIX @ ut_hyphenated (lc_uuid C) u))
      (\<lambda>_. sbind (exchange_live C io (project_name C pid) (ROLLBACK_TEMP_PREFIX @ ut_hyphenated (lc_uuid C) u) d)
      (\<lambda>_. sreturn (rollback_result_of m))))
    (\<lambda>r t. rolled_back C io pid cid s r t \<and> (is_ok r \<longrightarrow> quiet_io io \<longrightarrow> r = Inr (rollback_result_of m) \<and>
       (\<exists>n es. node_at snapshot SNAPSHOT_TREE_NAME s = Some n \<and> node_at ProjectsRoot (project_name C pid) t = Some (DirNode es)
          \<and> (on_disk n \<longrightarrow> tree_entries (DirNode es) = tree_entries n)))) s"
    (is "wp (sbind _ (\<lambda>_. ?rest)) ?Q s")
proof -
  define live where "live = project_name C pid"
  define staging where "staging = ROLLBACK_TEMP_PREFIX @ ut_hyphenated (lc_uuid C) u"
  have "starts_with staging [46]" by (simp add: staging_def ROLLBACK_TEMP_PREFIX_def lit_def)
  then have apart: "live \<noteq> staging"
    using assms(2) by (auto simp: live_def project_name_def uuid_plain_def)
  have staged_name: "starts_with staging ROLLBACK_TEMP_PREFIX" by (simp add: staging_def)
  show ?thesis
    unfolding live_def [symmetric] staging_def [symmetric]
  proof (rule wp_step [OF wp_stage [OF assms(1,7)]], goal_cases)
    case (1 e t)
    then show ?case using apart staged_name
      by (auto simp: rolled_back_def project_changes_def live_def)
  next
    case (2 a t)
    then obtain es where t: "project_changes {staging} s t" "node_at ProjectsRoot staging t = Some (DirNode es)"
      "dir_ok MAX_CHECKPOINT_DEPTH es" "d = entries_digest (lc_hash C) (tree_entries (DirNode es))"
      "quiet_io io \<longrightarrow> (\<exists>n. node_at snapshot SNAPSHOT_TREE_NAME s = Some n
            \<and> (on_disk n \<longrightarrow> tree_entries (DirNode es) = tree_entries n))" by auto
    have same: "node_at ProjectsRoot live t = node_at ProjectsRoot live s"
      using t(1) apart by (simp add: project_changes_def)
    have ok: "restored C pid cid m v" if "node_at ProjectsRoot live v = node_at ProjectsRoot staging t" for v
      using that t(2-4) assms(3-6) by (auto simp: restored_def live_def)
    have "wp (exchange_live C io live staging d) (\<lambda>r v. project_changes {live, staging} t v \<and> (case r of
        Inr _ \<Rightarrow> node_at ProjectsRoot live v = node_at ProjectsRoot staging t
      | Inl e \<Rightarrow> node_at ProjectsRoot live v = node_at ProjectsRoot live t
          \<or> node_at ProjectsRoot live v = node_at ProjectsRoot staging t \<and> e = recovery_failed)) t"
      by (rule wp_conj [OF wpI [OF withinD [OF project_act_live]] wp_exchange_live [OF apart]])
    then show ?case
    proof (rule wp_step, goal_cases)
      case (1 e v)
      then show ?case using t(1) same ok staged_name assms(8)
        by (auto simp: rolled_back_def project_changes_def live_def)
    next
      case (2 b v)
      then have "restored C pid cid m v" "node_at ProjectsRoot live v = Some (DirNode es)"
        "project_changes {live, staging} t v" using ok t(2) by auto
      then show ?case using t(1,5) staged_name assms(8)
        by (auto simp: wp_simps rolled_back_def project_changes_def live_def)
    qed
  qed
qed

lemma rolled_back_from: "advanced s u \<Longrightarrow> rolled_back C io pid cid u r t \<Longrightarrow> rolled_back C io pid cid s r t"
  by (cases r) (simp_all add: rolled_back_def advanced_disk recorded_advanced)

lemma wp_read_step:
  assumes "reads_only m" and "advanced s0 s" and "\<And>e t. advanced s0 t \<Longrightarrow> Q (Inl e) t"
    and "\<And>a t. advanced s0 t \<Longrightarrow> wp (f a) Q t"
  shows "wp (sbind m f) Q s"
  by (rule wp_step [OF wp_reads [OF assms(1)]]) (blast intro: assms advanced_trans)+

lemma wp_load_metadata:
  "wp (load_metadata_sync C io pid cid) (\<lambda>r t. advanced s t \<and> (\<forall>m. r = Inr (Some m) \<longrightarrow>
     checkpoint_metadata_validate m = Inr () \<and> ck_project_id m = pid \<and> ck_checkpoint_id m = cid
     \<and> recorded C io pid cid s m)) s"
  using reads_onlyD [OF reads_only_load] load_metadata_done by (auto intro!: wpI)

lemma verify_project_reads [reads_only_intros]: "reads_only (verify_project C io project)"
  unfolding verify_project_def Let_def by (intro reads_only_intros)

text \<open>What a successful rollback has read when nobody else changed anything.\<close>

definition read_snapshot ::
    "local_checkpoints \<Rightarrow> project_id \<Rightarrow> checkpoint_id \<Rightarrow> disk \<Rightarrow> checkpoint_metadata \<Rightarrow> node \<Rightarrow> bool" where
  "read_snapshot C pid cid s m n \<longleftrightarrow>
     (\<exists>dir f. node_at (project_checkpoint_dir C pid) (checkpoint_name C cid) s = Some dir
        \<and> find_entry METADATA_NAME (children dir) = Some f \<and> lc_decode C (node_bytes f) = Some m
        \<and> find_entry SNAPSHOT_TREE_NAME (children dir) = Some n)"

lemma wp_rollback:
  assumes "names_io io" and "uuid_plain (lc_uuid C)"
  shows "wp (rollback_sync C io project cid) (\<lambda>r t. rolled_back C io (pr_id project) cid s r t
    \<and> (quiet_io io \<longrightarrow> (\<forall>res. r = Inr res \<longrightarrow> (\<exists>m n es. res = rollback_result_of m
         \<and> read_snapshot C (pr_id project) cid s m n
         \<and> node_at ProjectsRoot (project_name C (pr_id project)) t = Some (DirNode es)
         \<and> (on_disk n \<longrightarrow> tree_entries (DirNode es) = tree_entries n))))) s"
    (is "wp _ ?Q s")
proof -
  let ?pid = "pr_id project"
  let ?snapshot = "Child (project_checkpoint_dir C ?pid) (checkpoint_name C cid)"
  have root: "root_of ?snapshot = CheckpointsRoot" by (simp add: project_checkpoint_dir_def)
  have failed: "?Q (Inl e) t" if "advanced s t" for e t
    using rolled_back_advanced [OF that] by simp
  have finish: "wp (sbind (digest_tree io (lc_hash C) ?snapshot SNAPSHOT_TREE_NAME)
      (\<lambda>snapshot_digest. if \<not> digest_matches snapshot_digest m
         then sfail (checkpoint_error ''checkpoint_integrity_verification_failed'')
         else sbind (sys_ask (dk_uuid io))
      (\<lambda>u. sbind (stage_snapshot C io ?snapshot snapshot_digest
                     (ROLLBACK_TEMP_PREFIX @ ut_hyphenated (lc_uuid C) u))
      (\<lambda>_. sbind (exchange_live C io (project_name C ?pid)
                     (ROLLBACK_TEMP_PREFIX @ ut_hyphenated (lc_uuid C) u) snapshot_digest)
      (\<lambda>_. sreturn (rollback_result_of m)))))) ?Q v"
    if v: "advanced s v" and m: "checkpoint_metadata_validate m = Inr ()" "ck_project_id m = ?pid"
      "ck_checkpoint_id m = cid" "recorded C io ?pid cid s m" for m v
  proof (rule wp_read_step [OF reads_only_disk(1) v], rule failed, assumption)
    fix d w
    assume w: "advanced s w"
    show "wp (if \<not> digest_matches d m
         then sfail (checkpoint_error ''checkpoint_integrity_verification_failed'')
         else sbind (sys_ask (dk_uuid io))
      (\<lambda>u. sbind (stage_snapshot C io ?snapshot d (ROLLBACK_TEMP_PREFIX @ ut_hyphenated (lc_uuid C) u))
      (\<lambda>_. sbind (exchange_live C io (project_name C ?pid)
                     (ROLLBACK_TEMP_PREFIX @ ut_hyphenated (lc_uuid C) u) d)
      (\<lambda>_. sreturn (rollback_result_of m))))) ?Q w"
    proof (cases "digest_matches d m")
      case True
      have "wp (sbind (sys_ask (dk_uuid io))
        (\<lambda>u. sbind (stage_snapshot C io ?snapshot d (ROLLBACK_TEMP_PREFIX @ ut_hyphenated (lc_uuid C) u))
        (\<lambda>_. sbind (exchange_live C io (project_name C ?pid)
                       (ROLLBACK_TEMP_PREFIX @ ut_hyphenated (lc_uuid C) u) d)
        (\<lambda>_. sreturn (rollback_result_of m))))) ?Q w"
      proof (rule wp_read_step [OF reads_only_ask w], rule failed, assumption,
          rule wp_mono [OF rollback_finish [OF assms m(1-3) True root]], goal_cases)
        case (1 uuid x)
        then show ?case using m(4) by (simp add: recorded_advanced)
      next
        case (2 uuid x r y)
        note x = 2(1)
        have "\<exists>m n es. res = rollback_result_of m \<and> read_snapshot C ?pid cid s m n
           \<and> node_at ProjectsRoot (project_name C ?pid) y = Some (DirNode es)
           \<and> (on_disk n \<longrightarrow> tree_entries (DirNode es) = tree_entries n)" if q: "quiet_io io" and r: "r = Inr res" for res
        proof -
          from recorded_quiet [OF m(4) q] obtain dir f where dir: "node_at (project_checkpoint_dir C ?pid) (checkpoint_name C cid) s = Some dir"
            "find_entry METADATA_NAME (children dir) = Some f" "lc_decode C (node_bytes f) = Some m" by auto
          from 2(2) q r obtain n es where n: "node_at ?snapshot SNAPSHOT_TREE_NAME x = Some n"
            "node_at ProjectsRoot (project_name C ?pid) y = Some (DirNode es)"
            "on_disk n \<longrightarrow> tree_entries (DirNode es) = tree_entries n" "res = rollback_result_of m" by (auto simp: is_ok_def)
          have "find_entry SNAPSHOT_TREE_NAME (children dir) = Some n"
            using n(1) dir(1) advanced_disk(2) [OF x] by (simp add: node_at_def)
          then show ?thesis using dir n(2-4) by (auto simp: read_snapshot_def)
        qed
        then show ?case using 2(2) rolled_back_from [OF x] by blast
      qed
      then show ?thesis using True by simp
    qed (use failed [OF w] in \<open>simp add: wp_simps\<close>)
  qed
  show ?thesis
    unfolding rollback_sync_def Let_def
  proof (rule wp_read_step [OF verify_project_reads advanced_refl], rule failed, assumption,
      rule wp_read_step [OF reads_only_disk(5)], assumption, rule failed, assumption,
      rule wp_step [OF wp_load_metadata], goal_cases)
    case (1 a t b u e v)
    then show ?case using failed advanced_trans by blast
  next
    case (2 a t b u found v)
    then have v: "advanced s v" using advanced_trans by blast
    show ?case
    proof (cases found)
      case None
      then show ?thesis using failed [OF v] by (simp add: wp_simps ok_or_def)
    next
      case (Some m)
      then show ?thesis using finish [OF v, of m] 2(3) recorded_advanced [OF 2(2)]
        by (simp add: wp_simps ok_or_def)
    qed
  qed
qed

section \<open>Creating\<close>

definition checkpoint_changes :: "directory \<Rightarrow> rstring \<Rightarrow> rstring set \<Rightarrow> disk \<Rightarrow> disk \<Rightarrow> bool" where
  "checkpoint_changes root project names s t \<longleftrightarrow> kd_projects t = kd_projects s
     \<and> kd_gate_poisoned t = kd_gate_poisoned s
     \<and> (\<forall>other. other \<noteq> project \<longrightarrow> node_at root other t = node_at root other s)
     \<and> (\<forall>name. name \<notin> names \<longrightarrow> node_at (Child root project) name t = node_at (Child root project) name s)"

abbreviation checkpoint_act :: "rstring \<Rightarrow> rstring set \<Rightarrow> (disk, 'a) disk_act \<Rightarrow> bool" where
  "checkpoint_act project names \<equiv> within (checkpoint_changes CheckpointsRoot project names)"

named_theorems checkpoint_acts \<open>operations confined to some entries of a project's checkpoints\<close>

lemma transp_checkpoint_changes: "transp (checkpoint_changes root project names)"
  by (auto simp: transp_def checkpoint_changes_def)

lemma checkpoint_changes_advanced: "advanced s t \<Longrightarrow> checkpoint_changes root project names s t"
  by (simp add: checkpoint_changes_def advanced_disk)

lemma checkpoint_act_reads [checkpoint_acts]: "reads_only m \<Longrightarrow> checkpoint_act project names m"
  by (rule within_reads) (auto intro: checkpoint_changes_advanced)

lemma checkpoint_act_sbind [checkpoint_acts]:
  "checkpoint_act project names m \<Longrightarrow> (\<And>a. checkpoint_act project names (f a))
    \<Longrightarrow> checkpoint_act project names (sbind m f)"
  "checkpoint_act project names m \<Longrightarrow> (\<And>r. checkpoint_act project names (g r))
    \<Longrightarrow> checkpoint_act project names (stry m g)"
  by (rule within_sbind within_stry; simp add: transp_checkpoint_changes)+

lemmas checkpoint_act_rules [checkpoint_acts] = within_rules

text \<open>The directories inside one checkpoint directory.\<close>

fun inside :: "rstring \<Rightarrow> rstring \<Rightarrow> directory \<Rightarrow> bool" where
  "inside project name (Child dir inner) \<longleftrightarrow>
     (dir = Child CheckpointsRoot project \<and> inner = name) \<or> inside project name dir"
| "inside project name ProjectsRoot \<longleftrightarrow> False"
| "inside project name CheckpointsRoot \<longleftrightarrow> False"

lemma set_inside:
  "inside project name dir \<Longrightarrow> checkpoint_changes CheckpointsRoot project {name} s (set_entries dir es s)"
proof (induction dir arbitrary: es)
  case (Child dir inner)
  show ?case
  proof (cases "dir = Child CheckpointsRoot project \<and> inner = name")
    case True
    then show ?thesis by (auto simp: checkpoint_changes_def node_at_def)
  next
    case False
    then have "inside project name dir" using Child.prems by auto
    then show ?thesis using Child.IH by simp
  qed
qed simp_all

lemma checkpoint_changes_calls:
  "checkpoint_changes root project names s (t\<lparr>sy_calls := k\<rparr>) = checkpoint_changes root project names s t"
  "checkpoint_changes root project names (s\<lparr>sy_calls := k\<rparr>) t = checkpoint_changes root project names s t"
  by (simp_all add: checkpoint_changes_def)

lemma checkpoint_changes_refl: "checkpoint_changes root project names s s"
  by (simp add: checkpoint_changes_def)

lemma checkpoint_act_create [checkpoint_acts]:
  assumes "inside project name dir"
  shows "checkpoint_act project {name} (create_dir io code dir inner)"
  unfolding create_dir_def
  by (rule checkpoint_act_sbind(1) [OF checkpoint_act_reads [OF reads_only_sys]])
    (auto simp: within_def checkpoint_changes_refl intro: set_inside [OF assms])

lemma checkpoint_act_copy [checkpoint_acts]:
  assumes "inside project name dir"
  shows "checkpoint_act project {name} (copy_tree_and_digest io H source_dir source dir)"
proof -
  have "checkpoint_changes CheckpointsRoot project {name} s (snd (copy_tree_and_digest io H source_dir source dir s))" for s
  proof (cases "node_at source_dir source s")
    case None
    have "reads_only (sbind (sys io c) (\<lambda>_. sfail e) :: (disk, tree_digest) disk_act)" for c e
      by (intro reads_only_intros)
    then show ?thesis using None
      by (auto simp: copy_tree_and_digest_def reads_only_def intro: checkpoint_changes_advanced)
  next
    case (Some n)
    have "checkpoint_changes CheckpointsRoot project {name} s (set_entries dir es (s\<lparr>sy_calls := k\<rparr>))" for es k
      using set_inside [OF assms, of "s\<lparr>sy_calls := k\<rparr>" es] by (simp add: checkpoint_changes_calls)
    then show ?thesis using Some by (simp add: copy_tree_and_digest_def split: prod.split)
  qed
  then show ?thesis by (simp add: within_def)
qed

lemma checkpoint_act_metadata [checkpoint_acts]:
  assumes "inside project name dir"
  shows "checkpoint_act project {name} (write_metadata C io dir m)"
proof -
  have changes: "checkpoint_changes CheckpointsRoot project {name} s (set_entries dir es (s\<lparr>sy_calls := k\<rparr>))" for s es k
    using set_inside [OF assms, of "s\<lparr>sy_calls := k\<rparr>" es] by (simp add: checkpoint_changes_calls)
  have "checkpoint_act project {name} (write_new_metadata io dir bytes identity)" for bytes identity
    by (simp add: within_def write_new_metadata_def Let_def checkpoint_changes_refl changes)
  note new = this
  show ?thesis
    unfolding write_metadata_def by (intro new checkpoint_acts reads_only_intros)
qed

lemma reads_only_clock [reads_only_intros]: "reads_only (system_time io)"
  unfolding system_time_def by (intro reads_only_intros)

lemma checkpoint_act_fill:
  "checkpoint_act (project_name C pid) {temp}
     (fill_snapshot C io pid reason cid (Child (project_checkpoint_dir C pid) temp))"
  unfolding fill_snapshot_def Let_def
  by (intro checkpoint_acts reads_only_intros) (simp_all add: project_checkpoint_dir_def)

text \<open>A checkpoint that can be rolled back to: its tree is complete and its metadata describes it.\<close>

definition complete_snapshot ::
    "local_checkpoints \<Rightarrow> project_id \<Rightarrow> checkpoint_metadata \<Rightarrow> entries \<Rightarrow> entries \<Rightarrow> bool" where
  "complete_snapshot C pid m es dir \<longleftrightarrow>
     find_entry SNAPSHOT_TREE_NAME dir = Some (DirNode es)
     \<and> (\<exists>f. find_entry METADATA_NAME dir = Some (FileNode f) \<and> lc_encode C m = Some (fd_bytes f))
     \<and> checkpoint_metadata_validate m = Inr () \<and> ck_project_id m = pid \<and> dir_ok MAX_CHECKPOINT_DEPTH es
     \<and> digest_matches (entries_digest (lc_hash C) (tree_entries (DirNode es))) m"

definition published ::
    "local_checkpoints \<Rightarrow> project_id \<Rightarrow> checkpoint_metadata \<Rightarrow> entries \<Rightarrow> disk \<Rightarrow> bool" where
  "published C pid m es t \<longleftrightarrow>
     (\<exists>n. node_at (project_checkpoint_dir C pid) (checkpoint_name C (ck_checkpoint_id m)) t = Some n
        \<and> complete_snapshot C pid m es (children n))"

lemma tree_not_metadata [simp]: "SNAPSHOT_TREE_NAME \<noteq> METADATA_NAME"
  by (simp add: SNAPSHOT_TREE_NAME_def METADATA_NAME_def lit_def)

lemma write_metadata_done:
  assumes "write_metadata C io dir m s = (Inr x, t)"
  shows "\<exists>f. node_at dir METADATA_NAME t = Some (FileNode f) \<and> lc_encode C m = Some (fd_bytes f)
    \<and> (\<forall>name. name \<noteq> METADATA_NAME \<longrightarrow> node_at dir name t = node_at dir name s)"
proof -
  obtain bytes x1 u identity v x2 w where bytes: "lc_encode C m = Some bytes"
    and u: "sys io ''checkpoint_metadata_create_failed'' s = (Inr x1, u)" "sys_ask (dk_new io) u = (Inr identity, v)"
    and w: "write_new_metadata io dir bytes identity v = (Inr x2, w)"
    and t: "sys io ''checkpoint_metadata_sync_failed'' w = (Inr x, t)"
    using assms by (cases "lc_encode C m") (auto simp: write_metadata_def done_simps split: if_split_asm)
  have v: "advanced s v" using sys_done [OF u(1)] sys_ask_done [OF u(2)] advanced_trans by blast
  have "w = set_entries dir (put_entry METADATA_NAME (FileNode \<lparr>fd_dev = fst identity, fd_ino = snd identity,
      fd_nlink = 1, fd_mode = PRIVATE_FILE_MODE, fd_bytes = bytes\<rparr>) (entries_at dir v)) (v\<lparr>sy_calls := sy_calls v + 1\<rparr>)"
    using w by (auto simp: write_new_metadata_def Let_def split: if_split_asm)
  then show ?thesis
    using bytes advanced_disk(2) [OF sys_done [OF t]] advanced_disk(1) [OF v] by (auto simp: node_at_def)
qed

lemma fill_done:
  fixes C io pid temp
  defines "T \<equiv> Child (project_checkpoint_dir C pid) temp"
  assumes "fill_snapshot C io pid reason cid T s = (Inr m, t)" and "names_io io"
  shows "\<exists>es. complete_snapshot C pid m es (entries_at T t) \<and> ck_checkpoint_id m = cid \<and> ck_reason m = reason
    \<and> (quiet_io io \<longrightarrow> (\<exists>n. node_at ProjectsRoot (project_name C pid) s = Some n
         \<and> (on_disk n \<longrightarrow> tree_entries (DirNode es) = tree_entries n)))"
proof -
  let ?H = "lc_hash C" and ?source = "digest_tree io (lc_hash C) ProjectsRoot (project_name C pid)"
  obtain x1 s1 x2 s2 b s3 d s4 v s5 a s6 now s7 x3 s8 x4 s9 x5 where
    create: "create_dir io ''checkpoint_tree_create_failed'' T SNAPSHOT_TREE_NAME s = (Inr x1, s1)"
    and s2: "set_private_dir_mode io s1 = (Inr x2, s2)" "?source s2 = (Inr b, s3)"
    and copy: "copy_tree_and_digest io ?H ProjectsRoot (project_name C pid) (Child T SNAPSHOT_TREE_NAME) s3 = (Inr d, s4)"
    and s5: "digest_tree io ?H T SNAPSHOT_TREE_NAME s4 = (Inr v, s5)" "?source s5 = (Inr a, s6)"
    "system_time io s6 = (Inr now, s7)"
    and m: "m = checkpoint_metadata_of cid pid now reason d" "checkpoint_metadata_validate m = Inr ()"
    and metadata: "write_metadata C io T m s7 = (Inr x3, s8)"
    and s9: "sync_dir io s8 = (Inr x4, s9)" "sync_dir io s9 = (Inr x5, t)"
    using assms(2) by (auto simp: fill_snapshot_def Let_def done_simps split: if_split_asm)
  from create_dir_done [OF create] obtain k where
    s1: "s1 = set_entries T (put_entry SNAPSHOT_TREE_NAME (DirNode []) (entries_at T s)) (s\<lparr>sy_calls := k\<rparr>)" by auto
  have "advanced s1 s3"
    using reads_onlyD [OF reads_only_calls(4) s2(1)] reads_onlyD [OF reads_only_disk(1) s2(2)] advanced_trans by blast
  note s3 = advanced_disk [OF this]
  have "entries_at (Child T SNAPSHOT_TREE_NAME) s3 = []"
    unfolding s3(1) s1 by (simp add: entries_at_Child)
  from copy_tree_done [OF copy assms(3) this] obtain n es k' where n: "node_at ProjectsRoot (project_name C pid) s3 = Some n"
    and s4: "s4 = set_entries (Child T SNAPSHOT_TREE_NAME) es (s3\<lparr>sy_calls := k'\<rparr>)"
    and es: "dir_ok MAX_CHECKPOINT_DEPTH es" "d = entries_digest ?H (tree_entries (DirNode es))"
    "quiet_io io \<longrightarrow> on_disk n \<longrightarrow> tree_entries (DirNode es) = tree_entries n" by blast
  have "node_at ProjectsRoot (project_name C pid) s = Some n"
    using n s1 by (simp add: s3(3) node_at_def T_def project_checkpoint_dir_def)
  moreover have "advanced s4 s7"
    using reads_onlyD [OF reads_only_disk(1) s5(1)] reads_onlyD [OF reads_only_disk(1) s5(2)]
      reads_onlyD [OF reads_only_clock s5(3)] advanced_trans by blast
  then have "node_at T SNAPSHOT_TREE_NAME s7 = Some (DirNode es)"
    using s4 by (simp add: advanced_disk(2))
  moreover have "advanced s8 t"
    using reads_onlyD [OF reads_only_calls(5) s9(1)] reads_onlyD [OF reads_only_calls(5) s9(2)] advanced_trans by blast
  ultimately have "complete_snapshot C pid m es (entries_at T t)"
    using write_metadata_done [OF metadata] es(1,2) m advanced_disk(1) [of s8 t]
    by (auto simp: complete_snapshot_def node_at_def digest_matches_def checkpoint_metadata_of_def)
  then show ?thesis
    using m(1) es(3) \<open>node_at ProjectsRoot (project_name C pid) s = Some n\<close>
    by (auto simp: checkpoint_metadata_of_def)
qed

lemma wp_rename:
  assumes "from \<noteq> to"
  shows "wp (rename io code (Child CheckpointsRoot project) from to) (\<lambda>r t.
      checkpoint_changes CheckpointsRoot project {from, to} s t \<and> (case r of
        Inl e \<Rightarrow> advanced s t
      | Inr _ \<Rightarrow> node_at (Child CheckpointsRoot project) from s \<noteq> None
          \<and> node_at (Child CheckpointsRoot project) to t = node_at (Child CheckpointsRoot project) from s)) s"
  unfolding rename_def
proof (rule wp_step [OF wp_reads [OF reads_only_sys]], goal_cases)
  case (1 e t)
  then show ?case by (simp add: checkpoint_changes_advanced)
next
  case (2 a t)
  then show ?case using assms
    by (auto simp: wp_def checkpoint_changes_def advanced_disk node_at_def split: option.splits)
qed

lemma wp_fill:
  assumes "names_io io"
  shows "wp (fill_snapshot C io pid reason cid (Child (project_checkpoint_dir C pid) temp)) (\<lambda>r t.
      checkpoint_changes CheckpointsRoot (project_name C pid) {temp} s t
      \<and> (\<forall>m. r = Inr m \<longrightarrow> (\<exists>es. complete_snapshot C pid m es (entries_at (Child (project_checkpoint_dir C pid) temp) t)
          \<and> ck_checkpoint_id m = cid \<and> ck_reason m = reason
          \<and> (quiet_io io \<longrightarrow> (\<exists>n. node_at ProjectsRoot (project_name C pid) s = Some n
               \<and> (on_disk n \<longrightarrow> tree_entries (DirNode es) = tree_entries n)))))) s"
proof (rule wpI, intro conjI allI impI)
  fix r t m
  assume fill: "fill_snapshot C io pid reason cid (Child (project_checkpoint_dir C pid) temp) s = (r, t)"
  then show "checkpoint_changes CheckpointsRoot (project_name C pid) {temp} s t"
    by (rule withinD [OF checkpoint_act_fill])
  assume "r = Inr m"
  with fill show "\<exists>es. complete_snapshot C pid m es (entries_at (Child (project_checkpoint_dir C pid) temp) t)
          \<and> ck_checkpoint_id m = cid \<and> ck_reason m = reason
          \<and> (quiet_io io \<longrightarrow> (\<exists>n. node_at ProjectsRoot (project_name C pid) s = Some n
               \<and> (on_disk n \<longrightarrow> tree_entries (DirNode es) = tree_entries n)))"
    by (intro fill_done [OF _ assms]) simp
qed

text \<open>What a creation may do to the visible entries: at most one new, complete checkpoint appears.\<close>

definition created ::
    "local_checkpoints \<Rightarrow> disk_io \<Rightarrow> project_id \<Rightarrow> checkpoint_reason \<Rightarrow> disk
      \<Rightarrow> checkpoint_metadata result \<Rightarrow> disk \<Rightarrow> bool" where
  "created C io pid reason s r t \<longleftrightarrow>
     kd_projects t = kd_projects s
     \<and> (\<forall>other. other \<noteq> project_name C pid \<longrightarrow> node_at CheckpointsRoot other t = node_at CheckpointsRoot other s)
     \<and> (\<forall>name. \<not> starts_with name CHECKPOINT_TEMP_PREFIX
          \<longrightarrow> node_at (project_checkpoint_dir C pid) name t = node_at (project_checkpoint_dir C pid) name s
            \<or> (\<exists>m es. name = checkpoint_name C (ck_checkpoint_id m) \<and> published C pid m es t))
     \<and> (\<forall>m. r = Inr m \<longrightarrow> (\<exists>es. published C pid m es t \<and> ck_reason m = reason
          \<and> (quiet_io io \<longrightarrow> (\<exists>n. node_at ProjectsRoot (project_name C pid) s = Some n
               \<and> (on_disk n \<longrightarrow> tree_entries (DirNode es) = tree_entries n)))))"

lemma wp_publish:
  assumes "names_io io" and "uuid_plain (lc_uuid C)"
  shows "wp (publish_snapshot C io pid reason cid) (created C io pid reason s) s"
proof -
  let ?P = "project_name C pid" and ?parent = "project_checkpoint_dir C pid" and ?final = "checkpoint_name C cid"
  let ?temp = "CHECKPOINT_TEMP_PREFIX @ ?final"
  have parent: "?parent = Child CheckpointsRoot ?P" by (simp add: project_checkpoint_dir_def)
  have visible: "name \<noteq> ?temp" if "\<not> starts_with name CHECKPOINT_TEMP_PREFIX" for name
    using that by auto
  have "starts_with ?temp [46]" by (simp add: CHECKPOINT_TEMP_PREFIX_def lit_def)
  then have apart: "?temp \<noteq> ?final"
    using assms(2) unfolding uuid_plain_def checkpoint_name_def by metis
  have temp_only: "created C io pid reason s (Inl e) t" if "checkpoint_changes CheckpointsRoot ?P {?temp} s t" for e t
    using that visible by (auto simp: created_def checkpoint_changes_def parent)
  show ?thesis
    unfolding publish_snapshot_def Let_def
  proof (rule wp_step [OF wp_fill [OF assms(1)]], rule temp_only, blast, goal_cases)
    case (1 m u)
    then obtain es where u: "checkpoint_changes CheckpointsRoot ?P {?temp} s u"
      and es: "complete_snapshot C pid m es (entries_at (Child ?parent ?temp) u)" "ck_checkpoint_id m = cid"
      "ck_reason m = reason" "quiet_io io \<longrightarrow> (\<exists>n. node_at ProjectsRoot ?P s = Some n
           \<and> (on_disk n \<longrightarrow> tree_entries (DirNode es) = tree_entries n))" by blast
    show ?case
      unfolding parent
    proof (rule wp_step [OF wp_rename [OF apart]], goal_cases)
      case (1 e v)
      then have "checkpoint_changes CheckpointsRoot ?P {?temp} s v"
        using u checkpoint_changes_advanced transpD [OF transp_checkpoint_changes] by auto
      then show ?case by (rule temp_only)
    next
      case (2 a v)
      then obtain n where n: "node_at ?parent ?temp u = Some n" "node_at ?parent ?final v = Some n"
        and v: "checkpoint_changes CheckpointsRoot ?P {?temp, ?final} u v" by (auto simp: parent)
      have final: "published C pid m es w" "checkpoint_changes CheckpointsRoot ?P {?temp, ?final} s w" if "advanced v w" for w
      proof -
        show "published C pid m es w"
          using n es(1,2) that by (auto simp: published_def entries_at_Child advanced_disk(2) simp del: entries_at.simps)
        show "checkpoint_changes CheckpointsRoot ?P {?temp, ?final} s w"
          using u v checkpoint_changes_advanced [OF that, of CheckpointsRoot ?P "{}"] by (auto simp: checkpoint_changes_def)
      qed
      then have "created C io pid reason s r w" if "advanced v w" "r = Inr m \<or> (\<exists>e. r = Inl e)" for r w
        using that es(2-4) visible by (fastforce simp: created_def checkpoint_changes_def parent)
      then show ?case
        by (intro wp_step [OF wp_reads [OF reads_only_calls(5)]]) (simp_all add: wp_simps)
    qed
  qed
qed

text \<open>Temporary names may come and go.\<close>

definition temp_names :: "rstring set" where
  "temp_names = {name. starts_with name CHECKPOINT_TEMP_PREFIX}"

lemma checkpoint_act_mono: "checkpoint_act project names m \<Longrightarrow> names \<subseteq> names' \<Longrightarrow> checkpoint_act project names' m"
  unfolding within_def checkpoint_changes_def by blast

lemma checkpoint_act_create_temp [checkpoint_acts]:
  "checkpoint_act project {name} (create_dir io code (Child CheckpointsRoot project) name)"
  unfolding create_dir_def
  by (rule checkpoint_act_sbind(1) [OF checkpoint_act_reads [OF reads_only_sys]])
    (auto simp: within_def checkpoint_changes_def node_at_def)

lemma checkpoint_act_remove [checkpoint_acts]:
  "checkpoint_act project {name} (remove_dir_all io code (Child CheckpointsRoot project) name)"
  by (auto simp: within_def checkpoint_changes_def remove_dir_all_def Let_def node_at_def split: option.splits)

lemma reads_only_reject [reads_only_intros]: "reads_only (reject_symlink io code dir name)"
  unfolding reject_symlink_def
  by (rule reads_only_sbind [OF reads_only_sys], rule reads_only_state) (intro reads_only_intros)

lemma checkpoint_act_child [checkpoint_acts]:
  "checkpoint_act project names (create_or_verify_private_child C io CheckpointsRoot project)"
proof -
  have "checkpoint_act project names (create_dir_if_missing io code CheckpointsRoot project)" for code
    unfolding create_dir_if_missing_def
    by (rule checkpoint_act_sbind(1) [OF checkpoint_act_reads [OF reads_only_sys]])
      (auto simp: within_def checkpoint_changes_def node_at_def)
  note missing = this
  show ?thesis
    unfolding create_or_verify_private_child_def Let_def
    by (intro missing checkpoint_acts reads_only_intros)
qed

lemma reads_only_scan [reads_only_intros]: "reads_only (scan_checkpoint_ids C io parent ids names)"
  by (induction names arbitrary: ids) (auto intro!: reads_only_intros)

lemma reads_only_list [reads_only_intros]: "reads_only (list_checkpoint_ids C io pid)"
proof -
  have "reads_only (\<lambda>s. sbind (sys_ask (\<lambda>k. dk_names io k (map fst (entries_at parent s))))
      (\<lambda>names. sbind (scan_checkpoint_ids C io parent [] names)
      (\<lambda>ids. sreturn (sort_key checkpoint_uuid ids))) s)" for parent
    by (rule reads_only_state [where g = "entries_at parent"]) (intro reads_only_intros)
  then show ?thesis
    unfolding list_checkpoint_ids_def Let_def by (intro reads_only_intros) simp
qed

lemma reads_only_fresh [reads_only_intros]: "reads_only (fresh_checkpoint_id C io parent attempts)"
proof (induction C io parent attempts rule: fresh_checkpoint_id.induct)
  case (1 C io parent attempts)
  then show ?case by (subst fresh_checkpoint_id.simps) (intro reads_only_intros; blast)
qed

lemma created_before:
  assumes "checkpoint_changes CheckpointsRoot (project_name C pid) temp_names s u" and "created C io pid reason u r t"
  shows "created C io pid reason s r t"
  using assms by (fastforce simp: created_def checkpoint_changes_def temp_names_def project_checkpoint_dir_def node_at_def
      simp del: entries_at.simps(3) set_entries.simps(3))

lemma created_after:
  assumes "created C io pid reason s r u" and "checkpoint_changes CheckpointsRoot (project_name C pid) temp_names u t"
    and "uuid_plain (lc_uuid C)"
  shows "created C io pid reason s r t"
proof -
  have "checkpoint_name C cid \<notin> temp_names" for cid
  proof
    assume "checkpoint_name C cid \<in> temp_names"
    then have "starts_with (checkpoint_name C cid) [46]"
      by (cases "checkpoint_name C cid") (auto simp: temp_names_def CHECKPOINT_TEMP_PREFIX_def lit_def)
    then show False using assms(3) by (simp add: uuid_plain_def checkpoint_name_def)
  qed
  then have keep: "published C pid m es t" if "published C pid m es u" for m es
    using that assms(2) by (simp add: published_def checkpoint_changes_def project_checkpoint_dir_def)
  have "node_at (project_checkpoint_dir C pid) name t = node_at (project_checkpoint_dir C pid) name u"
    if "\<not> starts_with name CHECKPOINT_TEMP_PREFIX" for name
    using that assms(2) by (simp add: checkpoint_changes_def temp_names_def project_checkpoint_dir_def)
  then show ?thesis
    using assms(1,2) keep unfolding created_def checkpoint_changes_def by metis
qed

lemma wp_create:
  assumes "names_io io" and "uuid_plain (lc_uuid C)"
  shows "wp (create_checkpoint_sync C io project reason) (created C io (pr_id project) reason s) s"
proof -
  let ?pid = "pr_id project"
  let ?P = "project_name C ?pid" and ?Q = "created C io ?pid reason s"
  let ?changes = "checkpoint_changes CheckpointsRoot ?P temp_names"
  have parent: "project_checkpoint_dir C ?pid = Child CheckpointsRoot ?P" by (simp add: project_checkpoint_dir_def)
  have failed: "?Q (Inl e) t" if "?changes s t" for e t
    by (rule created_before [OF that]) (simp add: created_def)
  have step: "wp (sbind m f) ?Q u"
    if "checkpoint_act ?P temp_names m" "?changes s u" "\<And>a t. ?changes s t \<Longrightarrow> wp (f a) ?Q t" for m f u
    using that failed transpD [OF transp_checkpoint_changes]
    by (intro wp_step [OF wpI [OF withinD [OF that(1)]]]) blast+
  have finish: "wp (stry (publish_snapshot C io ?pid reason cid)
      (\<lambda>outcome. if is_ok outcome then slift outcome
         else sbind (path_exists io (project_checkpoint_dir C ?pid) temp)
      (\<lambda>left. if \<not> left then slift outcome
         else stry (remove_dir_all io ''checkpoint_temp_cleanup_failed'' (project_checkpoint_dir C ?pid) temp)
                (\<lambda>_. slift outcome)))) ?Q u" if u: "?changes s u" and temp: "temp \<in> temp_names" for cid temp u
  proof (rule wp_try [OF wp_publish [OF assms]])
    fix r t
    assume "created C io ?pid reason u r t"
    then have t: "?Q r t" by (rule created_before [OF u])
    have "checkpoint_act ?P temp_names (if is_ok r then slift r
         else sbind (path_exists io (project_checkpoint_dir C ?pid) temp)
      (\<lambda>left. if \<not> left then slift r
         else stry (remove_dir_all io ''checkpoint_temp_cleanup_failed'' (project_checkpoint_dir C ?pid) temp)
                (\<lambda>_. slift r)))"
      unfolding parent
      by (intro checkpoint_acts reads_only_intros checkpoint_act_mono [OF checkpoint_act_remove]) (use temp in simp)
    moreover have "wp (if is_ok r then slift r
         else sbind (path_exists io (project_checkpoint_dir C ?pid) temp)
      (\<lambda>left. if \<not> left then slift r
         else stry (remove_dir_all io ''checkpoint_temp_cleanup_failed'' (project_checkpoint_dir C ?pid) temp)
                (\<lambda>_. slift r))) (\<lambda>q v. q = r) t"
      by (auto simp: wp_def sbind_def stry_def slift_def path_exists_def split: prod.split)
    ultimately show "wp (if is_ok r then slift r
         else sbind (path_exists io (project_checkpoint_dir C ?pid) temp)
      (\<lambda>left. if \<not> left then slift r
         else stry (remove_dir_all io ''checkpoint_temp_cleanup_failed'' (project_checkpoint_dir C ?pid) temp)
                (\<lambda>_. slift r))) ?Q t"
      using created_after [OF t _ assms(2)] by (auto simp: wp_def dest: withinD split: prod.splits)
  qed
  have temp: "CHECKPOINT_TEMP_PREFIX @ name \<in> temp_names" for name by (simp add: temp_names_def)
  show ?thesis
    unfolding create_checkpoint_sync_def Let_def
  proof (rule step [OF checkpoint_act_reads [OF verify_project_reads] checkpoint_changes_refl],
      rule step [OF checkpoint_act_reads [OF reads_only_disk(5)]], assumption,
      rule step [OF checkpoint_act_child], assumption,
      rule step [OF checkpoint_act_reads [OF reads_only_list]], assumption, goal_cases)
    case (1 _ _ _ _ _ _ existing u)
    show ?case
    proof (cases "length existing \<ge> MAX_CHECKPOINTS_PER_PROJECT")
      case False
      have "wp (sbind (fresh_checkpoint_id C io (project_checkpoint_dir C ?pid) 8)
        (\<lambda>cid. sbind (create_dir io ''checkpoint_temp_create_failed'' (project_checkpoint_dir C ?pid)
                  (CHECKPOINT_TEMP_PREFIX @ checkpoint_name C cid))
        (\<lambda>_. sbind (set_private_dir_mode io)
        (\<lambda>_. stry (publish_snapshot C io ?pid reason cid)
        (\<lambda>outcome. if is_ok outcome then slift outcome
           else sbind (path_exists io (project_checkpoint_dir C ?pid) (CHECKPOINT_TEMP_PREFIX @ checkpoint_name C cid))
        (\<lambda>left. if \<not> left then slift outcome
           else stry (remove_dir_all io ''checkpoint_temp_cleanup_failed'' (project_checkpoint_dir C ?pid)
                        (CHECKPOINT_TEMP_PREFIX @ checkpoint_name C cid))
                  (\<lambda>_. slift outcome))))))) ?Q u"
        by (rule step [OF checkpoint_act_reads [OF reads_only_fresh]], rule 1,
            rule step, unfold parent, rule checkpoint_act_mono [OF checkpoint_act_create_temp], simp add: temp,
            assumption, rule step [OF checkpoint_act_reads [OF reads_only_calls(4)]], assumption,
            rule finish [unfolded parent], assumption, rule temp)
      then show ?thesis using False by simp
    qed (use failed 1 in \<open>simp add: wp_simps\<close>)
  qed
qed

section \<open>What a digest tells\<close>

lemma foldl_add_record:
  "dg_hashed (foldl add_record d rs) = dg_hashed d @ concat (map record_bytes rs)"
proof (induction rs arbitrary: d)
  case (Cons r rs)
  then show ?case by (cases r) (simp_all add: hash_update_def)
qed simp

lemma entries_digest_sha256: "td_sha256 (entries_digest H es) = hex_lower (H (tree_stream es))"
  by (simp add: entries_digest_def digest_finish_def foldl_add_record digest_state_new_def tree_stream_def)

lemma hex_digit_inj: "hex_digit m = hex_digit n \<Longrightarrow> m < 16 \<Longrightarrow> n < 16 \<Longrightarrow> m = n"
  by (auto simp: hex_digit_def split: if_splits)

lemma hex_lower_inj:
  assumes "hex_lower xs = hex_lower ys"
  shows "xs = ys"
  using assms
proof (induction xs arbitrary: ys)
  case Nil
  then show ?case by (cases ys) (simp_all add: hex_lower_def hex_byte_def)
next
  case (Cons x xs)
  then obtain y ys' where ys: "ys = y # ys'" by (cases ys) (simp_all add: hex_lower_def hex_byte_def)
  have digits: "unat w div 16 < 16" "unat w mod 16 < 16" for w :: byte
    using unsigned_less [of w, where 'a = nat] by simp_all
  have "unat x div 16 = unat y div 16" "unat x mod 16 = unat y mod 16" "hex_lower xs = hex_lower ys'"
    using Cons.prems hex_digit_inj digits unfolding ys by (simp_all add: hex_lower_def hex_byte_def)
  then have "unat x = unat y" "xs = ys'" using Cons.IH div_mod_eqI by blast+
  then show ?case using ys by (simp add: word_unat_eq_iff)
qed

lemma dir_ok_entries: "dir_ok h es \<Longrightarrow> entries_ok h (tree_entries (DirNode es))"
  using node_ok_tree [of "Suc h" "DirNode es"] by simp

text \<open>Equal digests of two well-formed trees: the trees are equal or their streams collide.\<close>

lemma entries_digest_determines:
  assumes "dir_ok MAX_CHECKPOINT_DEPTH es" and "dir_ok MAX_CHECKPOINT_DEPTH fs"
    and "entries_digest H (tree_entries (DirNode es)) = entries_digest H (tree_entries (DirNode fs))"
  shows "tree_entries (DirNode es) = tree_entries (DirNode fs)
    \<or> (tree_stream (tree_entries (DirNode es)) \<noteq> tree_stream (tree_entries (DirNode fs))
       \<and> H (tree_stream (tree_entries (DirNode es))) = H (tree_stream (tree_entries (DirNode fs))))"
proof (cases "tree_stream (tree_entries (DirNode es)) = tree_stream (tree_entries (DirNode fs))")
  case True
  then have "tree_entries (DirNode es) = tree_entries (DirNode fs)"
    by (rule tree_stream_inj [OF _ dir_ok_entries [OF assms(1)] dir_ok_entries [OF assms(2)]])
      (simp_all add: MAX_CHECKPOINT_DEPTH_def)
  then show ?thesis by simp
next
  case False
  have "H (tree_stream (tree_entries (DirNode es))) = H (tree_stream (tree_entries (DirNode fs)))"
    using assms(3) hex_lower_inj by (metis entries_digest_sha256)
  then show ?thesis using False by simp
qed

text \<open>Hashing a project that nobody changes computes the specified digest. When \<open>digest_tree\<close> succeeds,
  the tree consists of directories and regular files within the depth limit, and the result is the
  digest of exactly that tree: each directory and file once, in the byte order of the names, whatever
  the order of the directory listings and however the reads were split.\<close>

lemma digest_tree_exact:
  assumes "digest_tree io H dir name s = (Inr d, t)" and "quiet_io io" and "names_io io"
    and "\<And>n. node_at dir name s = Some n \<Longrightarrow> on_disk n"
  shows "\<exists>es. node_at dir name s = Some (DirNode es) \<and> dir_ok MAX_CHECKPOINT_DEPTH es
    \<and> d = entries_digest H (tree_entries (DirNode es))"
proof (cases "node_at dir name s")
  case None
  then show ?thesis using assms(1) by (auto simp: digest_tree_def done_simps)
next
  case (Some n)
  obtain d' u where hash: "hash_dir_recursive io n [] 0 digest_state_new s = (Inr d', u)" "d = digest_finish H d'"
    using assms(1) Some by (auto simp: digest_tree_def done_simps)
  show ?thesis
    using hash_done(1) [OF hash(1) assms(3,2) assms(4) [OF Some]] Some hash(2)
    by (auto simp: entries_digest_def)
qed

section \<open>Properties\<close>

text \<open>C13: A digest tells project trees apart. If two successful runs of \<open>digest_tree\<close>, each over a directory
  that nobody changes meanwhile, return the same digest, then both directories hold the same tree: the
  same names at every level, contents and execute permissions, whatever the order of the directory
  listings and however the reads were split. The only exception is a collision of SHA-256 on the byte
  streams of the two trees.\<close>

theorem digest_determines_tree:
  assumes "digest_tree io H dir name s = (Inr d, s')" and "digest_tree io' H dir' name' t = (Inr d, t')"
    and "quiet_io io" and "names_io io" and "quiet_io io'" and "names_io io'"
    and "\<And>n. node_at dir name s = Some n \<Longrightarrow> on_disk n" and "\<And>n. node_at dir' name' t = Some n \<Longrightarrow> on_disk n"
  shows "\<exists>es fs. node_at dir name s = Some (DirNode es) \<and> node_at dir' name' t = Some (DirNode fs)
    \<and> (tree_entries (DirNode es) = tree_entries (DirNode fs)
       \<or> tree_stream (tree_entries (DirNode es)) \<noteq> tree_stream (tree_entries (DirNode fs))
         \<and> H (tree_stream (tree_entries (DirNode es))) = H (tree_stream (tree_entries (DirNode fs))))"
proof -
  obtain es where es: "node_at dir name s = Some (DirNode es)" "dir_ok MAX_CHECKPOINT_DEPTH es"
    "d = entries_digest H (tree_entries (DirNode es))"
    using digest_tree_exact [OF assms(1,3,4,7)] by blast
  obtain fs where fs: "node_at dir' name' t = Some (DirNode fs)" "dir_ok MAX_CHECKPOINT_DEPTH fs"
    "d = entries_digest H (tree_entries (DirNode fs))"
    using digest_tree_exact [OF assms(2,5,6,8)] by blast
  show ?thesis using entries_digest_determines [OF es(2) fs(2)] es fs by metis
qed

text \<open>C10: A rollback is all or nothing, whatever system calls fail and whatever other processes do to the
  files being read. If it succeeds, the live tree of the project has the digest, file count and size that
  the metadata of this checkpoint record: the metadata decoded from what reading the checkpoint's own
  metadata file returned. If it fails, the live tree is the one from before, or, only when the exchange
  could not be taken back and the error says so, it is the recorded tree too. Checkpoints and other
  projects stay as they were.\<close>

theorem rollback_atomic:
  assumes "names_io io" and "uuid_plain (lc_uuid C)" and "rollback_sync C io project cid s = (r, t)"
  shows "kd_checkpoints t = kd_checkpoints s
    \<and> (\<forall>name. name \<noteq> project_name C (pr_id project) \<longrightarrow> \<not> starts_with name ROLLBACK_TEMP_PREFIX
         \<longrightarrow> node_at ProjectsRoot name t = node_at ProjectsRoot name s)
    \<and> (case r of
         Inr res \<Rightarrow> \<exists>m. res = rollback_result_of m \<and> recorded C io (pr_id project) cid s m
           \<and> restored C (pr_id project) cid m t
       | Inl e \<Rightarrow> node_at ProjectsRoot (project_name C (pr_id project)) t
             = node_at ProjectsRoot (project_name C (pr_id project)) s
           \<or> e = recovery_failed \<and> (\<exists>m. recorded C io (pr_id project) cid s m \<and> restored C (pr_id project) cid m t))"
  using wpD [OF wp_rollback [OF assms(1,2)] assms(3)] by (simp add: rolled_back_def)

text \<open>C12: Only complete checkpoints become visible. Whatever fails while a checkpoint is created, projects
  and the checkpoints of other projects do not change, and every entry of the project's directory with
  a name that is not temporary is the one from before or a complete checkpoint: valid metadata beside a
  tree that has the recorded digest. A successful creation has published such a checkpoint, and if
  nobody changed the project meanwhile its tree is the project's.\<close>

theorem checkpoint_publication:
  assumes "names_io io" and "uuid_plain (lc_uuid C)"
    and "create_checkpoint_sync C io project reason s = (r, t)"
  shows "kd_projects t = kd_projects s
    \<and> (\<forall>other. other \<noteq> project_name C (pr_id project)
         \<longrightarrow> node_at CheckpointsRoot other t = node_at CheckpointsRoot other s)
    \<and> (\<forall>name. \<not> starts_with name CHECKPOINT_TEMP_PREFIX
         \<longrightarrow> node_at (project_checkpoint_dir C (pr_id project)) name t
               = node_at (project_checkpoint_dir C (pr_id project)) name s
           \<or> (\<exists>m es. name = checkpoint_name C (ck_checkpoint_id m) \<and> published C (pr_id project) m es t))
    \<and> (\<forall>m. r = Inr m \<longrightarrow> (\<exists>es. published C (pr_id project) m es t \<and> ck_reason m = reason
         \<and> (quiet_io io \<longrightarrow> (\<exists>n. node_at ProjectsRoot (project_name C (pr_id project)) s = Some n
              \<and> (on_disk n \<longrightarrow> tree_entries (DirNode es) = tree_entries n)))))"
  using wpD [OF wp_create [OF assms(1,2)] assms(3)] by (simp add: created_def)

text \<open>C11: A rollback restores what was saved. If a checkpoint was created while the project was quiet, and
  a later rollback to it succeeds, then the project has again the tree it had at the creation, whatever
  was done to the project in between, provided the checkpoint itself was not touched.\<close>

theorem checkpoint_roundtrip:
  assumes "names_io io" "quiet_io io" "names_io io'" "quiet_io io'" "uuid_plain (lc_uuid C)"
    and "\<And>m b. lc_encode C m = Some b \<Longrightarrow> lc_decode C b = Some m"
    and "create_checkpoint_sync C io project reason s = (Inr m, t)"
    and "node_at (project_checkpoint_dir C (pr_id project)) (checkpoint_name C (ck_checkpoint_id m)) u
      = node_at (project_checkpoint_dir C (pr_id project)) (checkpoint_name C (ck_checkpoint_id m)) t"
    and "rollback_sync C io' project (ck_checkpoint_id m) u = (Inr res, v)"
    and "\<And>n. node_at ProjectsRoot (project_name C (pr_id project)) s = Some n \<Longrightarrow> on_disk n"
  shows "\<exists>n es. node_at ProjectsRoot (project_name C (pr_id project)) s = Some n
    \<and> node_at ProjectsRoot (project_name C (pr_id project)) v = Some (DirNode es)
    \<and> tree_entries (DirNode es) = tree_entries n \<and> res = rollback_result_of m"
proof -
  from wpD [OF wp_create [OF assms(1,5)] assms(7)] assms(2) obtain saved n where
    saved: "published C (pr_id project) m saved t"
    and n: "node_at ProjectsRoot (project_name C (pr_id project)) s = Some n"
      "tree_entries (DirNode saved) = tree_entries n" using assms(10) by (fastforce simp: created_def)
  from wpD [OF wp_rollback [OF assms(3,5)] assms(9)] assms(4) obtain m' k es where
    read: "read_snapshot C (pr_id project) (ck_checkpoint_id m) u m' k" "res = rollback_result_of m'"
    and live: "node_at ProjectsRoot (project_name C (pr_id project)) v = Some (DirNode es)"
      "on_disk k \<longrightarrow> tree_entries (DirNode es) = tree_entries k" by blast
  obtain d f where d: "node_at (project_checkpoint_dir C (pr_id project)) (checkpoint_name C (ck_checkpoint_id m)) t = Some d"
    "find_entry SNAPSHOT_TREE_NAME (children d) = Some (DirNode saved)"
    "find_entry METADATA_NAME (children d) = Some (FileNode f)" "lc_encode C m = Some (fd_bytes f)"
    "dir_ok MAX_CHECKPOINT_DEPTH saved"
    using saved by (auto simp: published_def complete_snapshot_def)
  then have "k = DirNode saved" "m' = m"
    using read(1) assms(6) [OF d(4)] assms(8) by (auto simp: read_snapshot_def)
  moreover have "on_disk (DirNode saved)"
    using d(5) node_ok_on_disk [of "Suc MAX_CHECKPOINT_DEPTH" "DirNode saved"] by simp
  ultimately show ?thesis using n live read(2) by auto
qed

section \<open>Concrete instances\<close>

text \<open>A file system where nothing fails, listings come backwards and a \<open>read\<close> returns at most two bytes.\<close>

definition calm_io :: disk_io where
  "calm_io = \<lparr>dk_fails = (\<lambda>_. False), dk_stat = (\<lambda>_ st. st), dk_names = (\<lambda>_ ps. rev (filter os_name ps)),
     dk_read = (\<lambda>_ bs. take 2 bs), dk_written = (\<lambda>_. 0), dk_new = (\<lambda>_. (1, 9)),
     dk_contents = (\<lambda>_ bs. bs), dk_canonical = (\<lambda>_ p. p), dk_left = (\<lambda>_ n. n),
     dk_uuid = (\<lambda>_. 5), dk_clock = (\<lambda>_. Some 7)\<rparr>"

definition plain_uuid_text :: uuid_text where
  "plain_uuid_text = \<lparr>ut_parse_str = (\<lambda>s. case s of [c] \<Rightarrow> Some (of_nat (c - 97)) | _ \<Rightarrow> None),
     ut_hyphenated = (\<lambda>u. [97 + unat u])\<rparr>"

definition saved_metadata :: checkpoint_metadata where
  "saved_metadata = \<lparr>ck_schema = 1, ck_checkpoint_id = CheckpointId 5, ck_project_id = ProjectId 1,
     ck_created_unix_ms = 7, ck_reason = Manual, ck_file_count = 1, ck_total_bytes = 3,
     ck_tree_sha256 = replicate 64 48\<rparr>"

definition small_checkpoints :: local_checkpoints where
  "small_checkpoints = \<lparr>lc_uuid = plain_uuid_text, lc_hash = (\<lambda>_. replicate 32 0),
     lc_encode = (\<lambda>m. if m = saved_metadata then Some [123] else None),
     lc_decode = (\<lambda>b. if b = [123] then Some saved_metadata else None),
     lc_projects_root = lit ''/p'', lc_checkpoints_root = lit ''/c''\<rparr>"

definition small_project :: project_ref where
  "small_project = \<lparr>pr_id = ProjectId 1, pr_root = Utf8Path (lit ''/p/b'')\<rparr>"

definition small_file :: "byte list \<Rightarrow> node" where
  "small_file bytes = FileNode \<lparr>fd_dev = 1, fd_ino = 9, fd_nlink = 1, fd_mode = 0x180, fd_bytes = bytes\<rparr>"

definition small_disk :: disk where
  "small_disk = \<lparr>sy_calls = 0,
     kd_projects = [(Utf8Path (lit ''b''), DirNode [(Utf8Path (lit ''a''), small_file [1, 2, 3])])],
     kd_checkpoints = [], kd_gate_poisoned = False\<rparr>"

text \<open>The disk after a checkpoint was created and the project was damaged.\<close>

definition damaged_disk :: disk where
  "damaged_disk = \<lparr>sy_calls = 0,
     kd_projects = [(Utf8Path (lit ''b''), DirNode [(Utf8Path (lit ''x''), small_file [6])])],
     kd_checkpoints = [(Utf8Path (lit ''b''), DirNode [(Utf8Path (lit ''f''), DirNode
       [(Utf8Path SNAPSHOT_TREE_NAME, DirNode [(Utf8Path (lit ''a''), small_file [1, 2, 3])]),
        (Utf8Path METADATA_NAME, small_file [123])])])],
     kd_gate_poisoned = False\<rparr>"

lemma calm: "names_io calm_io" "quiet_io calm_io"
proof -
  have "filter os_name ps = ps" if "list_all os_name ps" for ps using that by (simp add: list_all_iff)
  then show "quiet_io calm_io" by (simp add: quiet_io_def calm_io_def take_is_prefix)
  show "names_io calm_io" by (simp add: names_io_def calm_io_def list_all_iff)
qed

lemma small_uuid: "uuid_plain (lc_uuid small_checkpoints)"
  by (simp add: uuid_plain_def small_checkpoints_def plain_uuid_text_def)

abbreviation small_creation :: "checkpoint_metadata result \<times> disk" where
  "small_creation \<equiv> create_checkpoint_sync small_checkpoints calm_io small_project Manual small_disk"

abbreviation small_rollback :: "rollback_result result \<times> disk" where
  "small_rollback \<equiv> rollback_sync small_checkpoints calm_io small_project (CheckpointId 5) damaged_disk"

lemma small_created_once:
  "case small_creation of (r, t) \<Rightarrow> r = Inr saved_metadata
   \<and> node_at (Child CheckpointsRoot (lit ''b'')) (lit ''f'') t
     = node_at (Child CheckpointsRoot (lit ''b'')) (lit ''f'') damaged_disk"
  by code_simp

lemma small_created:
  "fst small_creation = Inr saved_metadata
   \<and> node_at (Child CheckpointsRoot (lit ''b'')) (lit ''f'') (snd small_creation)
     = node_at (Child CheckpointsRoot (lit ''b'')) (lit ''f'') damaged_disk"
  using small_created_once by (simp add: case_prod_beta)

lemma small_create: "small_creation = (Inr saved_metadata, snd small_creation)"
  using small_created by (metis prod.collapse)

lemma small_rolled_back: "fst small_rollback = Inr (rollback_result_of saved_metadata)"
  by code_simp

lemma small_run: "small_rollback = (Inr (rollback_result_of saved_metadata), snd small_rollback)"
  using small_rolled_back by (metis prod.collapse)

lemma small_names:
  "project_name small_checkpoints (pr_id small_project) = lit ''b''"
  "checkpoint_name small_checkpoints (ck_checkpoint_id saved_metadata) = lit ''f''"
  by code_simp+

lemma small_node:
  "node_at ProjectsRoot (lit ''b'') small_disk = Some (DirNode [(Utf8Path (lit ''a''), small_file [1, 2, 3])])"
  "node_at ProjectsRoot (lit ''b'') small_disk = Some n \<Longrightarrow> on_disk n"
  by (auto simp: node_at_def find_entry_def small_disk_def os_name_def rust_text_def lit_def small_file_def
      NAME_MAX_def char_len_utf8_def)

text \<open>Every read returns one byte.\<close>

definition slow_io :: disk_io where
  "slow_io = calm_io\<lparr>dk_read := \<lambda>_ bs. take 1 bs\<rparr>"

lemma slow: "names_io slow_io" "quiet_io slow_io"
  using calm by (auto simp: slow_io_def names_io_def quiet_io_def take_is_prefix)

theorem digest_determines_tree_witness:
  "\<exists>d es fs. fst (digest_tree calm_io (\<lambda>bs. bs) ProjectsRoot (lit ''b'') small_disk) = Inr d
    \<and> fst (digest_tree slow_io (\<lambda>bs. bs) ProjectsRoot (lit ''b'') small_disk) = Inr d
    \<and> node_at ProjectsRoot (lit ''b'') small_disk = Some (DirNode es)
    \<and> node_at ProjectsRoot (lit ''b'') small_disk = Some (DirNode fs)
    \<and> tree_entries (DirNode es) = tree_entries (DirNode fs)"
proof -
  let ?run = "\<lambda>io. digest_tree io (\<lambda>bs. bs) ProjectsRoot (lit ''b'') small_disk"
  have "is_ok (fst (?run calm_io))" by code_simp
  moreover have "fst (?run slow_io) = fst (?run calm_io)" by code_simp
  ultimately obtain d u v where runs: "?run calm_io = (Inr d, u)" "?run slow_io = (Inr d, v)"
    by (cases "?run calm_io"; cases "?run slow_io"; cases "fst (?run calm_io)") (auto simp: is_ok_def)
  from digest_determines_tree [OF runs calm(2,1) slow(2,1) small_node(2) small_node(2)] runs
  show ?thesis by auto
qed

theorem rollback_atomic_witness:
  "\<exists>m. rollback_result_of saved_metadata = rollback_result_of m
    \<and> recorded small_checkpoints calm_io (ProjectId 1) (CheckpointId 5) damaged_disk m
    \<and> restored small_checkpoints (ProjectId 1) (CheckpointId 5) m (snd small_rollback)"
  using rollback_atomic [OF calm(1) small_uuid small_run] by (simp add: small_project_def)

theorem checkpoint_publication_witness:
  "\<exists>es. published small_checkpoints (ProjectId 1) saved_metadata es (snd small_creation)"
  using checkpoint_publication [OF calm(1) small_uuid small_create] by (auto simp: small_project_def)

theorem checkpoint_roundtrip_witness:
  "\<exists>es. node_at ProjectsRoot (lit ''b'') (snd small_rollback) = Some (DirNode es)
    \<and> tree_entries (DirNode es) = tree_entries (DirNode [(Utf8Path (lit ''a''), small_file [1, 2, 3])])"
proof -
  have codec: "lc_decode small_checkpoints b = Some m" if "lc_encode small_checkpoints m = Some b" for m b
    using that by (auto simp: small_checkpoints_def split: if_splits)
  have same: "node_at (project_checkpoint_dir small_checkpoints (pr_id small_project))
      (checkpoint_name small_checkpoints (ck_checkpoint_id saved_metadata)) damaged_disk
    = node_at (project_checkpoint_dir small_checkpoints (pr_id small_project))
      (checkpoint_name small_checkpoints (ck_checkpoint_id saved_metadata)) (snd small_creation)"
    using small_created by (simp add: project_checkpoint_dir_def small_names)
  have run: "rollback_sync small_checkpoints calm_io small_project (ck_checkpoint_id saved_metadata) damaged_disk
      = (Inr (rollback_result_of saved_metadata), snd small_rollback)"
    using small_run by (simp add: saved_metadata_def)
  from checkpoint_roundtrip [OF calm calm small_uuid codec small_create same run] show ?thesis
    by (auto simp: small_names small_node)
qed

end
