(* ===== verification/Text_Edit.thy ===== *)
theory Text_Edit
  imports Workspace_Contract
begin

text \<open>
  The text algorithms of \<open>crates/vibecoder-workspace-local/src/unix_io.rs\<close>: the bounds on a patch, the
  unique match of a hunk, the patched text, and the position of a search match. A byte index at a
  character boundary is kept as the number of characters before it.
\<close>

section \<open>Model\<close>

definition MAX_FILE_WRITE_BYTES :: nat where "MAX_FILE_WRITE_BYTES = 16 * 1024 * 1024"
definition MAX_TEXT_EDIT_EXPECTED_BYTES :: nat where "MAX_TEXT_EDIT_EXPECTED_BYTES = 1024 * 1024"
definition MAX_TEXT_PATCH_HUNKS :: nat where "MAX_TEXT_PATCH_HUNKS = 64"
definition MAX_TEXT_PATCH_INPUT_BYTES :: nat where "MAX_TEXT_PATCH_INPUT_BYTES = 16 * 1024 * 1024"

definition workspace_error :: "string \<Rightarrow> vibecoder_error" where
  "workspace_error code = Workspace code"

type_synonym hunk = "rstring \<times> rstring"

fun find_str :: "rstring \<Rightarrow> rstring \<Rightarrow> nat option" where
  "find_str [] p = (if p = [] then Some 0 else None)"
| "find_str (c # s) p = (if starts_with (c # s) p then Some 0 else map_option Suc (find_str s p))"

definition find_unique_text_match :: "rstring \<Rightarrow> rstring \<Rightarrow> nat result" where
  "find_unique_text_match s expected =
     rbind (ok_or (find_str s expected) (workspace_error ''text_edit_expected_not_found''))
     (\<lambda>first. case drop first s of
        [] \<Rightarrow> Inl (workspace_error ''text_edit_expected_not_found'')
      | c # rest \<Rightarrow>
          if contains_str rest expected then Inl (workspace_error ''text_edit_expected_ambiguous'')
          else Inr first)"

fun check_hunks :: "nat \<Rightarrow> hunk list \<Rightarrow> unit result" where
  "check_hunks acc [] = Inr ()"
| "check_hunks acc ((expected, replacement) # hunks) =
     (if expected = [] then Inl (workspace_error ''text_edit_expected_empty'')
      else if byte_len expected > MAX_TEXT_EDIT_EXPECTED_BYTES
      then Inl (workspace_error ''text_edit_expected_too_large'')
      else if byte_len replacement > MAX_FILE_WRITE_BYTES
      then Inl (workspace_error ''text_patch_replacement_too_large'')
      else if acc + byte_len expected + byte_len replacement > MAX_TEXT_PATCH_INPUT_BYTES
      then Inl (workspace_error ''text_patch_input_too_large'')
      else check_hunks (acc + byte_len expected + byte_len replacement) hunks)"

definition validate_hunks :: "hunk list \<Rightarrow> unit result" where
  "validate_hunks hunks =
     (if hunks = [] \<or> length hunks > MAX_TEXT_PATCH_HUNKS
      then Inl (workspace_error ''text_patch_hunk_count_invalid'') else check_hunks 0 hunks)"

definition replace_range :: "rstring \<Rightarrow> nat \<Rightarrow> nat \<Rightarrow> rstring \<Rightarrow> rstring" where
  "replace_range s i n r = take i s @ r @ drop (i + n) s"

fun apply_hunks :: "hunk list \<Rightarrow> rstring \<Rightarrow> rstring result" where
  "apply_hunks [] updated = Inr updated"
| "apply_hunks ((expected, replacement) # hunks) updated =
     rbind (find_unique_text_match updated expected)
     (\<lambda>i. if byte_len updated < byte_len expected
             \<or> byte_len updated - byte_len expected + byte_len replacement > MAX_FILE_WRITE_BYTES
          then Inl (workspace_error ''text_edit_result_too_large'')
          else apply_hunks hunks (replace_range updated i (length expected) replacement))"

text \<open>\<open>str::match_indices\<close> from left to right without overlaps, for the non-empty needle of a search.\<close>

function match_indices :: "nat \<Rightarrow> rstring \<Rightarrow> rstring \<Rightarrow> nat list" where
  "match_indices i s p =
     (case s of
        [] \<Rightarrow> []
      | c # s' \<Rightarrow>
          if p \<noteq> [] \<and> starts_with s p then i # match_indices (i + length p) (drop (length p) s) p
          else match_indices (i + 1) s' p)"
  by pat_completeness auto
termination
  by (relation "measure (\<lambda>(i, s, p). length s)") auto

definition MAX_PREVIEW_CHARS :: nat where "MAX_PREVIEW_CHARS = 240"

definition u32_capped :: "nat \<Rightarrow> u32" where
  "u32_capped n = of_nat (min n (2 ^ 32 - 1))"

definition line_before :: "rstring \<Rightarrow> rstring" where
  "line_before s = rev (takeWhile (\<lambda>c. c \<noteq> 10) (rev s))"

definition locate_text_match :: "rstring \<Rightarrow> nat \<Rightarrow> u32 \<times> u32 \<times> rstring" where
  "locate_text_match s i =
     (let before = take i s;
          line_start = line_before before;
          line = length (filter (\<lambda>c. c = 10) before) + 1;
          column = length line_start + 1;
          raw_preview = line_start @ takeWhile (\<lambda>c. c \<noteq> 10) (drop i s);
          preview = map (\<lambda>ch. if is_control ch then 32 else ch) (take MAX_PREVIEW_CHARS raw_preview)
      in (u32_capped line, u32_capped column, preview))"

section \<open>The unique match\<close>

definition occurrences :: "rstring \<Rightarrow> rstring \<Rightarrow> nat set" where
  "occurrences p s = {i. i \<le> length s \<and> starts_with (drop i s) p}"

lemma occurrences_Cons:
  "occurrences p (c # s) = (if starts_with (c # s) p then {0} else {}) \<union> Suc ` occurrences p s"
proof (rule set_eqI)
  fix i
  show "i \<in> occurrences p (c # s) \<longleftrightarrow>
      i \<in> (if starts_with (c # s) p then {0} else {}) \<union> Suc ` occurrences p s"
    by (cases i) (auto simp: occurrences_def)
qed

lemma occurrences_empty: "contains_str s p \<longleftrightarrow> occurrences p s \<noteq> {}"
proof (induction s)
  case Nil
  then show ?case by (cases p) (auto simp: occurrences_def)
next
  case (Cons c s)
  then show ?case by (simp add: occurrences_Cons)
qed

lemma find_str_None: "find_str s p = None \<longleftrightarrow> occurrences p s = {}"
proof (induction s)
  case Nil
  then show ?case by (cases p) (auto simp: occurrences_def)
next
  case (Cons c s)
  then show ?case by (simp add: occurrences_Cons)
qed

lemma find_str_Some:
  "find_str s p = Some i \<longleftrightarrow> i \<in> occurrences p s \<and> (\<forall>j \<in> occurrences p s. i \<le> j)"
proof (induction s arbitrary: i)
  case Nil
  then show ?case by (cases p) (auto simp: occurrences_def)
next
  case (Cons c s)
  then show ?case by (cases i) (auto simp: occurrences_Cons)
qed

lemma occurrences_drop:
  assumes "i < length s"
  shows "occurrences p (drop (Suc i) s) = {j. Suc i + j \<in> occurrences p s}"
  using assms by (auto simp: occurrences_def add.commute)

lemma find_unique_text_match_Inr:
  assumes "p \<noteq> []"
  shows "find_unique_text_match s p = Inr i \<longleftrightarrow> occurrences p s = {i}"
proof -
  have inside: "j < length s" if "j \<in> occurrences p s" for j
    using that assms by (cases "j = length s") (auto simp: occurrences_def neq_Nil_conv)
  have least: "find_unique_text_match s p = Inr j \<longleftrightarrow> occurrences p (drop (Suc j) s) = {}"
    if "find_str s p = Some j" for j
  proof -
    have "j < length s" using that inside by (simp add: find_str_Some)
    then have "drop j s = s ! j # drop (Suc j) s" by (simp add: Cons_nth_drop_Suc)
    then show ?thesis using that by (simp add: find_unique_text_match_def occurrences_empty)
  qed
  show ?thesis
  proof
    assume found: "find_unique_text_match s p = Inr i"
    then obtain j where j: "find_str s p = Some j"
      by (cases "find_str s p") (auto simp: find_unique_text_match_def)
    then have first: "find_str s p = Some i"
      using found by (auto simp: find_unique_text_match_def split: list.splits if_splits)
    have "occurrences p (drop (Suc i) s) = {}" using found least [OF first] by simp
    then have "Suc i + j \<notin> occurrences p s" for j
      using first inside by (auto simp: find_str_Some occurrences_drop)
    then have "j \<le> i" if "j \<in> occurrences p s" for j
      using that by (metis le_add_diff_inverse not_less_eq_eq)
    then show "occurrences p s = {i}" using first by (auto simp: find_str_Some intro: le_antisym)
  next
    assume one: "occurrences p s = {i}"
    then have first: "find_str s p = Some i" by (simp add: find_str_Some)
    have "occurrences p (drop (Suc i) s) = {}" using one inside by (auto simp: occurrences_drop)
    then show "find_unique_text_match s p = Inr i" using least [OF first] by simp
  qed
qed

lemma occurs_at: "i \<in> occurrences p s \<longleftrightarrow> i \<le> length s \<and> s = take i s @ p @ drop (i + length p) s"
proof -
  have "starts_with (drop i s) p \<longleftrightarrow> s = take i s @ p @ drop (i + length p) s" if "i \<le> length s"
  proof
    assume "starts_with (drop i s) p"
    then obtain t where t: "drop i s = p @ t" by (auto simp: starts_with_iff)
    then have "t = drop (length p) (drop i s)" by simp
    then show "s = take i s @ p @ drop (i + length p) s"
      using t by (metis add.commute append_take_drop_id drop_drop)
  next
    assume s: "s = take i s @ p @ drop (i + length p) s"
    have "drop i s = p @ drop (i + length p) s"
      using that by (subst s) simp
    then show "starts_with (drop i s) p" by (auto simp: starts_with_iff)
  qed
  then show ?thesis by (auto simp: occurrences_def)
qed

section \<open>Patches\<close>

text \<open>What a patch means: each hunk replaces the only occurrence of its expected text in the text the
  hunks before it have left.\<close>

inductive patched :: "rstring \<Rightarrow> hunk list \<Rightarrow> rstring \<Rightarrow> bool" where
  unchanged: "patched s [] s"
| replaced: "occurrences expected (u @ expected @ v) = {length u} \<Longrightarrow>
    byte_len (u @ replacement @ v) \<le> MAX_FILE_WRITE_BYTES \<Longrightarrow>
    patched (u @ replacement @ v) hunks s \<Longrightarrow>
    patched (u @ expected @ v) ((expected, replacement) # hunks) s"

inductive_cases patched_elims: "patched s [] t" "patched s ((e, r) # hunks) t"

lemma patched_Nil: "patched s [] t \<longleftrightarrow> t = s"
  by (auto elim: patched_elims intro: patched.intros)

lemma patched_Cons:
  "patched s ((e, r) # hunks) t \<longleftrightarrow>
     (\<exists>u v. s = u @ e @ v \<and> occurrences e s = {length u}
        \<and> byte_len (u @ r @ v) \<le> MAX_FILE_WRITE_BYTES \<and> patched (u @ r @ v) hunks t)"
  by (auto elim!: patched_elims intro: patched.intros)

lemma apply_hunks_patched:
  assumes "\<forall>h \<in> set hunks. fst h \<noteq> []"
  shows "apply_hunks hunks s = Inr t \<longleftrightarrow> patched s hunks t"
  using assms
proof (induction hunks arbitrary: s)
  case Nil
  then show ?case by (auto simp: patched_Nil)
next
  case (Cons h hunks)
  obtain e r where h: "h = (e, r)" by (cases h)
  have e: "e \<noteq> []" using Cons.prems h by simp
  have IH: "apply_hunks hunks s' = Inr t \<longleftrightarrow> patched s' hunks t" for s'
    using Cons.IH Cons.prems by simp
  show ?case
  proof
    assume "apply_hunks (h # hunks) s = Inr t"
    then obtain i where i: "occurrences e s = {i}"
        and size: "byte_len s - byte_len e + byte_len r \<le> MAX_FILE_WRITE_BYTES"
        and rest: "patched (take i s @ r @ drop (i + length e) s) hunks t"
      by (auto simp: h rbind_eq_Inr find_unique_text_match_Inr [OF e] IH replace_range_def
          split: if_splits)
    have at: "i \<le> length s \<and> s = take i s @ e @ drop (i + length e) s"
      using i occurs_at [of i e s] by simp
    then have "byte_len s = byte_len (take i s) + (byte_len e + byte_len (drop (i + length e) s))"
      by (metis byte_len_simps(3))
    then show "patched s (h # hunks) t"
      unfolding h patched_Cons using at i size rest
      by (intro exI [of _ "take i s"] exI [of _ "drop (i + length e) s"]) auto
  next
    assume "patched s (h # hunks) t"
    then obtain u v where uv: "s = u @ e @ v" "occurrences e s = {length u}"
        "byte_len (u @ r @ v) \<le> MAX_FILE_WRITE_BYTES" "patched (u @ r @ v) hunks t"
      by (auto simp: h patched_Cons)
    then show "apply_hunks (h # hunks) s = Inr t"
      using find_unique_text_match_Inr [OF e, of s "length u"]
      by (simp add: h IH replace_range_def)
  qed
qed

lemma check_hunks_nonempty: "check_hunks acc hunks = Inr () \<Longrightarrow> \<forall>h \<in> set hunks. fst h \<noteq> []"
  by (induction acc hunks rule: check_hunks.induct) (auto split: if_splits)

lemma patched_size: "patched s hunks t \<Longrightarrow> hunks \<noteq> [] \<Longrightarrow> byte_len t \<le> MAX_FILE_WRITE_BYTES"
proof (induction rule: patched.induct)
  case (replaced expected u v replacement hunks s)
  then show ?case by (cases hunks) (auto simp: patched_Nil)
qed simp

section \<open>Search matches\<close>

declare match_indices.simps [simp del]

lemma match_indices_simps [simp]:
  "match_indices i [] p = []"
  "match_indices i (c # s) p =
     (if p \<noteq> [] \<and> starts_with (c # s) p then i # match_indices (i + length p) (drop (length p) (c # s)) p
      else match_indices (i + 1) s p)"
  by (simp_all add: match_indices.simps)

lemma match_indices_occur:
  "k \<in> set (match_indices i s p) \<Longrightarrow> \<exists>j. k = i + j \<and> j < length s \<and> starts_with (drop j s) p"
proof (induction i s p rule: match_indices.induct)
  case (1 i s p)
  show ?case
  proof (cases s)
    case Nil
    then show ?thesis using "1.prems" by simp
  next
    case (Cons c s')
    show ?thesis
    proof (cases "p \<noteq> [] \<and> starts_with s p")
      case True
      then consider "k = i" | "k \<in> set (match_indices (i + length p) (drop (length p) s) p)"
        using "1.prems" Cons by auto
      then show ?thesis
      proof cases
        case 1
        then show ?thesis using True Cons by auto
      next
        case 2
        obtain j where "k = i + length p + j" "j < length (drop (length p) s)"
            "starts_with (drop j (drop (length p) s)) p"
          using "1.IH"(1) [OF Cons True 2] by blast
        then show ?thesis by (intro exI [of _ "length p + j"]) (auto simp: add.commute)
      qed
    next
      case False
      then have "k \<in> set (match_indices (i + 1) s' p)" using "1.prems" Cons by auto
      then obtain j where "k = i + 1 + j" "j < length s'" "starts_with (drop j s') p"
        using "1.IH"(2) [OF Cons False] by blast
      then show ?thesis using Cons by (intro exI [of _ "Suc j"]) auto
    qed
  qed
qed

end
