(* ===== verification/Workspace_Local.thy ===== *)
theory Workspace_Local
  imports Text_Edit Inode_Store Web_Toolchain Command_Policy
begin

text \<open>
  The project workspace of \<open>crates/vibecoder-workspace-local\<close> (\<open>lib.rs\<close> and \<open>unix_io.rs\<close>): managed
  project roots, path validation, and the file operations that start at the verified project directory
  and go down descriptor by descriptor. Every operation is a sequence of system calls on the inode store
  with an arbitrary answer for each. A component that contains a NUL is a control character, which the
  validation has rejected before \<open>component_cstring\<close> could. Sizes are never negative.
\<close>

unbundle bit_operations_syntax

section \<open>Paths\<close>

definition LOCAL_MAX_RELATIVE_PATH_BYTES :: nat where "LOCAL_MAX_RELATIVE_PATH_BYTES = 4096"
definition LOCAL_MAX_COMPONENT_BYTES :: nat where "LOCAL_MAX_COMPONENT_BYTES = 255"
definition LOCAL_TEMP_PREFIX :: rstring where "LOCAL_TEMP_PREFIX = lit ''.vibecoder-tmp-''"
definition PRODUCT_ROOT_NAME :: rstring where "PRODUCT_ROOT_NAME = lit ''vibecoder''"
definition PROJECTS_ROOT_NAME :: rstring where "PROJECTS_ROOT_NAME = lit ''projects''"
definition MAX_FILE_READ_BYTES :: nat where "MAX_FILE_READ_BYTES = 16 * 1024 * 1024"

definition wfail :: "string \<Rightarrow> 'a act" where
  "wfail code = sfail (workspace_error code)"

text \<open>\<open>Path::join\<close> with one plain component, \<open>Path::starts_with\<close> and \<open>Path::parent\<close>.\<close>

definition path_join :: "path \<Rightarrow> rstring \<Rightarrow> path" where
  "path_join p name =
     (case p of Utf8Path s \<Rightarrow> Utf8Path (if s = [] \<or> last s = 47 then s @ name else s @ [47] @ name)
      | RawPath bs \<Rightarrow> RawPath (if bs = [] \<or> last bs = 47 then bs @ as_bytes name else bs @ [47] @ as_bytes name))"

definition path_starts_with :: "path \<Rightarrow> path \<Rightarrow> bool" where
  "path_starts_with p q \<longleftrightarrow> take (length (components q)) (components p) = components q"

definition path_has_parent :: "path \<Rightarrow> path \<Rightarrow> bool" where
  "path_has_parent p parent \<longleftrightarrow> components p \<noteq> [] \<and> components parent = butlast (components p)"

fun local_components :: "component list \<Rightarrow> rstring list result" where
  "local_components [] = Inr []"
| "local_components (CurDir # cs) = local_components cs"
| "local_components (Normal value # cs) =
     (if value = [] \<or> byte_len value > LOCAL_MAX_COMPONENT_BYTES
      then Inl (workspace_error ''project_path_component_invalid'')
      else if starts_with value LOCAL_TEMP_PREFIX
      then Inl (workspace_error ''project_path_reserved_internal_name'')
      else rbind (local_components cs) (\<lambda>vs. Inr (value # vs)))"
| "local_components (ParentDir # cs) = Inl (workspace_error ''project_path_parent_forbidden'')"
| "local_components (RootDir # cs) = Inl (workspace_error ''project_path_must_be_relative'')"

definition validate_relative_path :: "path \<Rightarrow> rstring list result" where
  "validate_relative_path relative =
     (if is_absolute relative then Inl (workspace_error ''project_path_must_be_relative'')
      else rbind (ok_or (to_str relative) (workspace_error ''project_path_must_be_utf8''))
      (\<lambda>text. if byte_len text > LOCAL_MAX_RELATIVE_PATH_BYTES
         then Inl (workspace_error ''project_path_too_long'')
         else if list_ex is_control text \<or> 92 \<in> set text
         then Inl (workspace_error ''project_path_contains_forbidden_character'')
         else local_components (components relative)))"

section \<open>Project roots\<close>

record local_runtime =
  lr_app_private_root :: path
  lr_projects_root :: path

definition reject_symlink_if_present :: "os \<Rightarrow> path \<Rightarrow> string \<Rightarrow> unit act" where
  "reject_symlink_if_present os p code =
     stry (sys_symlink_metadata os p)
     (\<lambda>r. case r of
        Inr st \<Rightarrow> if fs_type st = SymlinkFile then wfail code else sreturn ()
      | Inl e \<Rightarrow> if e = NotFound then sreturn () else wfail code)"

definition canonical_existing_dir :: "os \<Rightarrow> path \<Rightarrow> string \<Rightarrow> path act" where
  "canonical_existing_dir os p code =
     sbind (expect code (sys_metadata os p))
     (\<lambda>st. if fs_type st \<noteq> DirectoryFile then wfail code
           else expect code (sys_canonicalize os p))"

text \<open>\<open>fs::create_dir\<close>, \<open>fs::remove_dir\<close> and \<open>fs::remove_dir_all\<close> of \<open>parent.join(name)\<close>. A removal that
  fails may have removed a part of the tree.\<close>

definition in_parent ::
    "os \<Rightarrow> path \<Rightarrow> (nat \<Rightarrow> inode_id \<Rightarrow> store \<Rightarrow> (errno + 'a) \<times> store) \<Rightarrow> 'a syscall" where
  "in_parent os parent f = syscall os (\<lambda>k st.
     case os_follow os k parent of None \<Rightarrow> (Inl NotFound, st) | Some d \<Rightarrow> f k d st)"

definition sys_create_dir :: "os \<Rightarrow> path \<Rightarrow> rstring \<Rightarrow> inode_id syscall" where
  "sys_create_dir os parent name = in_parent os parent (\<lambda>k d st.
     create_entry (DirectoryInode 0x1FF []) d name (os_inode os k) st)"

definition sys_remove_dir :: "os \<Rightarrow> path \<Rightarrow> rstring \<Rightarrow> unit syscall" where
  "sys_remove_dir os parent name = in_parent os parent (\<lambda>k d st.
     case dir_entry st d name of None \<Rightarrow> (Inl NotFound, st)
     | Some i \<Rightarrow> if is_directory st i \<and> dir_entries st i = [] then (Inr (), remove_entry name d st)
         else (Inl OtherError, st))"

definition sys_remove_dir_all :: "os \<Rightarrow> path \<Rightarrow> rstring \<Rightarrow> unit syscall" where
  "sys_remove_dir_all os parent name m =
     (let k = mc_calls m; st = os_others os k (mc_store m) in
      case os_error os k of
        Some e \<Rightarrow> (Inl e, \<lparr>mc_calls = k + 1, mc_store = os_partial os k st\<rparr>)
      | None \<Rightarrow>
          (case os_follow os k parent of
             None \<Rightarrow> (Inl NotFound, \<lparr>mc_calls = k + 1, mc_store = st\<rparr>)
           | Some d \<Rightarrow>
               if dir_entry st d name = None then (Inl NotFound, \<lparr>mc_calls = k + 1, mc_store = st\<rparr>)
               else (Inr (), \<lparr>mc_calls = k + 1, mc_store = remove_entry name d st\<rparr>)))"

definition path_exists_now :: "os \<Rightarrow> path \<Rightarrow> bool act" where
  "path_exists_now os p = stry (sys_metadata os p) (\<lambda>r. sreturn (is_ok r))"

definition create_or_verify_fixed_child :: "os \<Rightarrow> path \<Rightarrow> rstring \<Rightarrow> string \<Rightarrow> path act" where
  "create_or_verify_fixed_child os parent name code =
     (let child = path_join parent name in
      sbind (stry (sys_symlink_metadata os child)
        (\<lambda>r. case r of
           Inr st \<Rightarrow>
             if fs_type st = SymlinkFile \<or> fs_type st \<noteq> DirectoryFile then wfail code else sreturn ()
         | Inl e \<Rightarrow>
             if e \<noteq> NotFound then wfail code
             else stry (sys_create_dir os parent name)
               (\<lambda>made. case made of
                  Inr i \<Rightarrow> sreturn ()
                | Inl e' \<Rightarrow> if e' = AlreadyExists then sreturn () else wfail code)))
      (\<lambda>_. sbind (reject_symlink_if_present os child code)
      (\<lambda>_. sbind (canonical_existing_dir os child code)
      (\<lambda>canonical. if \<not> path_has_parent canonical parent then wfail code else sreturn canonical))))"

definition workspace_initialize :: "os \<Rightarrow> path \<Rightarrow> local_runtime act" where
  "workspace_initialize os app_private_dir =
     (if \<not> is_absolute app_private_dir then wfail ''app_private_root_not_absolute''
      else sbind (reject_symlink_if_present os app_private_dir ''app_private_root_is_symlink'')
      (\<lambda>_. sbind (canonical_existing_dir os app_private_dir ''app_private_root_unavailable'')
      (\<lambda>app. sbind (create_or_verify_fixed_child os app PRODUCT_ROOT_NAME ''product_root_invalid'')
      (\<lambda>product. sbind (create_or_verify_fixed_child os product PROJECTS_ROOT_NAME ''projects_root_invalid'')
      (\<lambda>projects. if \<not> path_starts_with projects app
         then wfail ''projects_root_escaped_app_private_root''
         else sreturn \<lparr>lr_app_private_root = app, lr_projects_root = projects\<rparr>)))))"

definition project_dir_name :: "uuid_text \<Rightarrow> project_id \<Rightarrow> rstring" where
  "project_dir_name U pid = ut_hyphenated U (case pid of ProjectId u \<Rightarrow> u)"

definition workspace_project_root :: "uuid_text \<Rightarrow> local_runtime \<Rightarrow> project_id \<Rightarrow> path" where
  "workspace_project_root U R pid = path_join (lr_projects_root R) (project_dir_name U pid)"

definition workspace_verify :: "uuid_text \<Rightarrow> os \<Rightarrow> local_runtime \<Rightarrow> project_ref \<Rightarrow> path act" where
  "workspace_verify U os R project =
     (if \<not> is_absolute (pr_root project) then wfail ''project_root_not_absolute''
      else let expected = workspace_project_root U R (pr_id project) in
      if \<not> path_eq (pr_root project) expected then wfail ''project_root_does_not_match_project_id''
      else sbind (reject_symlink_if_present os expected ''project_root_is_symlink'')
      (\<lambda>_. sbind (canonical_existing_dir os expected ''project_root_unavailable'')
      (\<lambda>canonical. if \<not> path_eq canonical expected \<or> \<not> path_starts_with canonical (lr_projects_root R)
         then wfail ''project_root_failed_canonical_containment'' else sreturn canonical)))"

definition workspace_create_project :: "uuid_text \<Rightarrow> os \<Rightarrow> local_runtime \<Rightarrow> project_id \<Rightarrow> project_ref act" where
  "workspace_create_project U os R pid =
     (let name = project_dir_name U pid;
          project = \<lparr>pr_id = pid, pr_root = workspace_project_root U R pid\<rparr> in
      sbind (stry (sys_create_dir os (lr_projects_root R) name)
        (\<lambda>r. case r of Inr i \<Rightarrow> sreturn ()
         | Inl e \<Rightarrow> if e = AlreadyExists then wfail ''project_already_exists''
             else wfail ''project_create_failed''))
      (\<lambda>_. stry (workspace_verify U os R project)
      (\<lambda>r. case r of
         Inl e \<Rightarrow> stry (sys_remove_dir os (lr_projects_root R) name) (\<lambda>_. sfail e)
       | Inr p \<Rightarrow> sreturn project)))"

definition workspace_open_project :: "uuid_text \<Rightarrow> os \<Rightarrow> local_runtime \<Rightarrow> project_id \<Rightarrow> project_ref act" where
  "workspace_open_project U os R pid =
     (let project = \<lparr>pr_id = pid, pr_root = workspace_project_root U R pid\<rparr> in
      sbind (workspace_verify U os R project) (\<lambda>_. sreturn project))"

definition workspace_remove_project :: "uuid_text \<Rightarrow> os \<Rightarrow> local_runtime \<Rightarrow> project_ref \<Rightarrow> unit act" where
  "workspace_remove_project U os R project =
     sbind (workspace_verify U os R project)
     (\<lambda>verified. if path_eq verified (lr_projects_root R) \<or> path_eq verified (lr_app_private_root R)
        then wfail ''refusing_to_remove_workspace_root''
        else sbind (expect ''project_remove_failed''
               (sys_remove_dir_all os (lr_projects_root R) (project_dir_name U (pr_id project))))
        (\<lambda>_. sbind (path_exists_now os verified)
        (\<lambda>still. if still then wfail ''project_remove_incomplete'' else sreturn ())))"

fun resolve_components :: "os \<Rightarrow> path \<Rightarrow> path \<Rightarrow> bool \<Rightarrow> rstring list \<Rightarrow> path act" where
  "resolve_components os root candidate missing [] =
     (if \<not> path_starts_with candidate root then wfail ''project_path_escaped_project_root''
      else sreturn candidate)"
| "resolve_components os root candidate missing (name # names) =
     (let candidate' = path_join candidate name in
      if missing then resolve_components os root candidate' missing names
      else stry (sys_symlink_metadata os candidate')
      (\<lambda>r. case r of
         Inr st \<Rightarrow>
           if fs_type st = SymlinkFile then wfail ''project_path_symlink_forbidden''
           else if names \<noteq> [] \<and> fs_type st \<noteq> DirectoryFile then wfail ''project_path_parent_not_directory''
           else sbind (expect ''project_path_canonicalize_failed'' (sys_canonicalize os candidate'))
             (\<lambda>canonical. if \<not> path_starts_with canonical root
                then wfail ''project_path_escaped_project_root''
                else resolve_components os root candidate' False names)
       | Inl e \<Rightarrow>
           if e = NotFound then resolve_components os root candidate' True names
           else wfail ''project_path_metadata_failed''))"

definition workspace_resolve_path ::
    "uuid_text \<Rightarrow> os \<Rightarrow> local_runtime \<Rightarrow> project_ref \<Rightarrow> path \<Rightarrow> path act" where
  "workspace_resolve_path U os R project relative =
     sbind (workspace_verify U os R project)
     (\<lambda>root. sbind (slift (validate_relative_path relative))
     (\<lambda>names. resolve_components os root root False names))"

section \<open>Descending to a file\<close>

definition PRIVATE_DIR_MODE :: u32 where "PRIVATE_DIR_MODE = 0x1C0"
definition PRIVATE_MODE :: u32 where "PRIVATE_MODE = 0x180"

definition open_existing_dir_at :: "os \<Rightarrow> inode_id \<Rightarrow> rstring \<Rightarrow> inode_id act" where
  "open_existing_dir_at os d name =
     expect ''project_path_parent_not_directory_or_symlink'' (sys_open_dir_at os d name)"

definition open_project_root ::
    "uuid_text \<Rightarrow> os \<Rightarrow> local_runtime \<Rightarrow> project_ref \<Rightarrow> inode_id act" where
  "open_project_root U os R project =
     sbind (workspace_verify U os R project)
     (\<lambda>_. if 0 \<in> set (path_units (lr_app_private_root R)) then wfail ''project_root_contains_nul''
      else sbind (expect ''app_private_root_open_failed'' (sys_open_path os (lr_app_private_root R)))
     (\<lambda>app. sbind (open_existing_dir_at os app PRODUCT_ROOT_NAME)
     (\<lambda>product. sbind (open_existing_dir_at os product PROJECTS_ROOT_NAME)
     (\<lambda>projects. sbind (open_existing_dir_at os projects (project_dir_name U (pr_id project)))
     (\<lambda>fd. sbind (expect ''project_root_metadata_failed'' (sys_symlink_metadata os (pr_root project)))
     (\<lambda>metadata. if fs_type metadata = SymlinkFile \<or> fs_type metadata \<noteq> DirectoryFile
        then wfail ''project_root_invalid_during_file_io''
        else sbind (expect ''project_root_fstat_failed'' (sys_fstat os fd))
     (\<lambda>stat. if fs_dev stat \<noteq> fs_dev metadata \<or> fs_ino stat \<noteq> fs_ino metadata
        then wfail ''project_root_changed_during_open''
        else if fs_type stat \<noteq> DirectoryFile then wfail ''project_root_not_directory_during_open''
        else sreturn fd)))))))"

fun open_dirs :: "os \<Rightarrow> inode_id \<Rightarrow> rstring list \<Rightarrow> inode_id act" where
  "open_dirs os d [] = sreturn d"
| "open_dirs os d (name # names) =
     sbind (open_existing_dir_at os d name) (\<lambda>child. open_dirs os child names)"

definition open_parent ::
    "uuid_text \<Rightarrow> os \<Rightarrow> local_runtime \<Rightarrow> project_ref \<Rightarrow> rstring list \<Rightarrow> (inode_id \<times> rstring) act" where
  "open_parent U os R project names =
     (if names = [] then wfail ''file_path_empty''
      else sbind (open_project_root U os R project)
      (\<lambda>root. sbind (open_dirs os root (butlast names))
      (\<lambda>d. sreturn (d, last names))))"

definition open_or_create_private_dir_at :: "os \<Rightarrow> inode_id \<Rightarrow> rstring \<Rightarrow> inode_id act" where
  "open_or_create_private_dir_at os d name =
     stry (sys_open_dir_at os d name)
     (\<lambda>r. case r of
        Inr fd \<Rightarrow> sreturn fd
      | Inl e \<Rightarrow>
          if e \<noteq> NotFound then wfail ''project_path_parent_not_directory_or_symlink''
          else stry (sys_mkdir_at os d name PRIVATE_DIR_MODE)
          (\<lambda>made.
             if (case made of Inl e' \<Rightarrow> e' \<noteq> AlreadyExists | Inr i \<Rightarrow> False)
             then wfail ''project_directory_create_failed''
             else sbind (expect ''project_directory_verify_failed'' (sys_open_dir_at os d name))
             (\<lambda>fd. if is_ok made
                then stry (sys_chmod os fd PRIVATE_DIR_MODE)
                  (\<lambda>changed. case changed of
                     Inr u \<Rightarrow> sreturn fd
                   | Inl e' \<Rightarrow> stry (sys_rmdir_at os d name) (\<lambda>_. wfail ''project_directory_mode_failed''))
                else sreturn fd)))"

fun create_dirs :: "os \<Rightarrow> inode_id \<Rightarrow> rstring list \<Rightarrow> unit act" where
  "create_dirs os d [] = sreturn ()"
| "create_dirs os d (name # names) =
     sbind (open_or_create_private_dir_at os d name) (\<lambda>child. create_dirs os child names)"

definition workspace_create_dir_all ::
    "uuid_text \<Rightarrow> os \<Rightarrow> local_runtime \<Rightarrow> project_ref \<Rightarrow> path \<Rightarrow> unit act" where
  "workspace_create_dir_all U os R project relative =
     sbind (slift (validate_relative_path relative))
     (\<lambda>names. sbind (open_project_root U os R project)
     (\<lambda>root. create_dirs os root names))"

end
