(* ===== verification/Workspace_Files.thy ===== *)
theory Workspace_Files
  imports Workspace_Local
begin

text \<open>
  Reading, atomic writing and exact-match patching of project files in
  \<open>crates/vibecoder-workspace-local/src/unix_io.rs\<close>. The main result is that a write or a patch leaves
  either the old or the new file behind, whichever system call fails, and never writes into an inode
  that was there before.
\<close>

unbundle bit_operations_syntax

section \<open>Targets\<close>

definition require_single_link_regular :: "file_status \<Rightarrow> string \<Rightarrow> string \<Rightarrow> unit result" where
  "require_single_link_regular st invalid hard_link =
     (if fs_type st \<noteq> RegularFile then Inl (workspace_error invalid)
      else if fs_nlink st \<noteq> 1 then Inl (workspace_error hard_link) else Inr ())"

definition inspect_optional_read_target :: "os \<Rightarrow> inode_id \<Rightarrow> rstring \<Rightarrow> file_status option act" where
  "inspect_optional_read_target os d name =
     stry (sys_stat_at os d name)
     (\<lambda>r. case r of
        Inl e \<Rightarrow> if e = NotFound then sreturn None else wfail ''file_read_target_metadata_failed''
      | Inr st \<Rightarrow>
          if fs_type st = SymlinkFile then wfail ''file_symlink_forbidden''
          else sbind (slift (require_single_link_regular st ''file_read_target_invalid''
                 ''file_hard_link_forbidden''))
            (\<lambda>_. sreturn (Some st)))"

definition inspect_existing_read_target :: "os \<Rightarrow> inode_id \<Rightarrow> rstring \<Rightarrow> file_status act" where
  "inspect_existing_read_target os d name =
     sbind (inspect_optional_read_target os d name)
     (\<lambda>found. slift (ok_or found (workspace_error ''file_read_target_metadata_failed'')))"

definition inspect_existing_write_target :: "os \<Rightarrow> inode_id \<Rightarrow> rstring \<Rightarrow> u32 option act" where
  "inspect_existing_write_target os d name =
     stry (sys_stat_at os d name)
     (\<lambda>r. case r of
        Inl e \<Rightarrow> if e = NotFound then sreturn None else wfail ''file_write_target_metadata_failed''
      | Inr st \<Rightarrow>
          if fs_type st = SymlinkFile then wfail ''file_symlink_forbidden''
          else sbind (slift (require_single_link_regular st ''file_write_target_invalid''
                 ''file_hard_link_forbidden''))
            (\<lambda>_. let owner_mode = fs_mode st AND 0x1C0 in
               if owner_mode AND 0x80 = 0 then wfail ''file_write_target_read_only''
               else sreturn (Some owner_mode)))"

definition same_inode :: "file_status \<Rightarrow> file_status \<Rightarrow> bool" where
  "same_inode a b \<longleftrightarrow> fs_dev a = fs_dev b \<and> fs_ino a = fs_ino b"

text \<open>Opening the file that was inspected and reading it within a limit; \<open>changed\<close> is the error when
  another inode has taken its place.\<close>

definition read_verified_regular_at ::
    "os \<Rightarrow> inode_id \<Rightarrow> rstring \<Rightarrow> file_status \<Rightarrow> nat \<Rightarrow> string \<Rightarrow> byte list act" where
  "read_verified_regular_at os d name expected max_bytes changed =
     sbind (expect ''file_read_open_failed'' (sys_open_file_at os d name))
     (\<lambda>fd. sbind (expect ''file_read_stat_failed'' (sys_fstat os fd))
     (\<lambda>st. sbind (slift (require_single_link_regular st ''file_read_target_invalid''
             ''file_hard_link_forbidden''))
     (\<lambda>_. if \<not> same_inode st expected then wfail changed
      else if unat (fs_len st) > max_bytes then wfail ''file_read_too_large''
      else sbind (expect ''file_read_failed'' (sys_read_to_end os fd (max_bytes + 1)))
     (\<lambda>output. if length output > max_bytes then wfail ''file_read_too_large''
      else sreturn output))))"

section \<open>Operations\<close>

definition workspace_read_file ::
    "uuid_text \<Rightarrow> os \<Rightarrow> local_runtime \<Rightarrow> project_ref \<Rightarrow> path \<Rightarrow> nat \<Rightarrow> byte list act" where
  "workspace_read_file U os R project relative max_bytes =
     (if max_bytes = 0 \<or> max_bytes > MAX_FILE_READ_BYTES then wfail ''file_read_limit_invalid''
      else sbind (slift (validate_relative_path relative))
      (\<lambda>names. sbind (open_parent U os R project names)
      (\<lambda>(d, name). sbind (inspect_existing_read_target os d name)
      (\<lambda>expected. if unat (fs_len expected) > max_bytes then wfail ''file_read_too_large''
         else read_verified_regular_at os d name expected max_bytes ''file_changed_during_open''))))"

definition workspace_regular_file_exists ::
    "uuid_text \<Rightarrow> os \<Rightarrow> local_runtime \<Rightarrow> project_ref \<Rightarrow> path \<Rightarrow> bool act" where
  "workspace_regular_file_exists U os R project relative =
     sbind (slift (validate_relative_path relative))
     (\<lambda>names. sbind (open_parent U os R project names)
     (\<lambda>(d, name). sbind (inspect_optional_read_target os d name)
     (\<lambda>found. sreturn (found \<noteq> None))))"

definition temp_file_name :: "uuid_text \<Rightarrow> uuid \<Rightarrow> rstring" where
  "temp_file_name U u = LOCAL_TEMP_PREFIX @ filter (\<lambda>c. c \<noteq> 45) (ut_hyphenated U u)"

text \<open>\<open>TempCleanup\<close>: what runs while the guard is armed; its temporary file goes when that fails.\<close>

definition with_temp_cleanup :: "os \<Rightarrow> inode_id \<Rightarrow> rstring \<Rightarrow> 'a act \<Rightarrow> 'a act" where
  "with_temp_cleanup os d temp m =
     stry m (\<lambda>r. case r of
        Inl e \<Rightarrow> stry (sys_unlink_at os d temp) (\<lambda>_. sfail e)
      | Inr a \<Rightarrow> sreturn a)"

record replace_codes =
  pc_mode :: string
  pc_stat :: string
  pc_invalid :: string
  pc_hard_linked :: string
  pc_data :: string
  pc_sync :: string
  pc_rename :: string
  pc_parent :: string

definition atomic_write_codes :: replace_codes where
  "atomic_write_codes =
     \<lparr>pc_mode = ''atomic_write_temp_mode_failed'', pc_stat = ''atomic_write_temp_stat_failed'',
      pc_invalid = ''atomic_write_temp_invalid'', pc_hard_linked = ''atomic_write_temp_hard_linked'',
      pc_data = ''atomic_write_data_failed'', pc_sync = ''atomic_write_file_sync_failed'',
      pc_rename = ''atomic_write_rename_failed'', pc_parent = ''atomic_write_parent_sync_failed''\<rparr>"

definition text_edit_codes :: replace_codes where
  "text_edit_codes =
     \<lparr>pc_mode = ''text_edit_temp_mode_failed'', pc_stat = ''text_edit_temp_stat_failed'',
      pc_invalid = ''text_edit_temp_invalid'', pc_hard_linked = ''text_edit_temp_hard_linked'',
      pc_data = ''text_edit_data_failed'', pc_sync = ''text_edit_file_sync_failed'',
      pc_rename = ''text_edit_rename_failed'', pc_parent = ''text_edit_parent_sync_failed''\<rparr>"

text \<open>The steps \<open>atomic_write_file\<close> and \<open>apply_text_patch_pairs\<close> have in common, from the creation of the
  temporary file to the synchronization of the directory; \<open>recheck\<close> runs before the rename.\<close>

definition replace_file ::
    "uuid_text \<Rightarrow> os \<Rightarrow> replace_codes \<Rightarrow> inode_id \<Rightarrow> rstring \<Rightarrow> u32 \<Rightarrow> byte list \<Rightarrow> unit act \<Rightarrow> unit act" where
  "replace_file U os codes d target mode contents recheck =
     sbind (sys_uuid os)
     (\<lambda>u. let temp = temp_file_name U u in
      sbind (expect ''atomic_write_temp_create_failed'' (sys_create_at os d temp mode))
     (\<lambda>fd. sbind (with_temp_cleanup os d temp
        (sbind (expect (pc_mode codes) (sys_chmod os fd mode))
        (\<lambda>_. sbind (expect (pc_stat codes) (sys_fstat os fd))
        (\<lambda>st. sbind (slift (require_single_link_regular st (pc_invalid codes) (pc_hard_linked codes)))
        (\<lambda>_. sbind (expect (pc_data codes) (sys_write_all os fd contents))
        (\<lambda>_. sbind (expect (pc_sync codes) (sys_sync os fd))
        (\<lambda>_. sbind recheck
        (\<lambda>_. expect (pc_rename codes) (sys_rename_at os d temp target)))))))))
     (\<lambda>_. expect (pc_parent codes) (sys_sync os d))))"

definition workspace_atomic_write_file ::
    "uuid_text \<Rightarrow> os \<Rightarrow> local_runtime \<Rightarrow> project_ref \<Rightarrow> path \<Rightarrow> byte list \<Rightarrow> unit act" where
  "workspace_atomic_write_file U os R project relative contents =
     (if length contents > MAX_FILE_WRITE_BYTES then wfail ''file_write_too_large''
      else sbind (slift (validate_relative_path relative))
      (\<lambda>names. sbind (open_parent U os R project names)
      (\<lambda>(d, name). sbind (inspect_existing_write_target os d name)
      (\<lambda>found. replace_file U os atomic_write_codes d name
         (case found of None \<Rightarrow> PRIVATE_MODE | Some mode \<Rightarrow> mode) contents (sreturn ())))))"

definition recheck_target ::
    "os \<Rightarrow> inode_id \<Rightarrow> rstring \<Rightarrow> file_status \<Rightarrow> u32 \<Rightarrow> byte list \<Rightarrow> unit act" where
  "recheck_target os d name initial owner_mode original =
     sbind (inspect_existing_read_target os d name)
     (\<lambda>st. if \<not> same_inode st initial \<or> fs_mode st AND 0x1C0 \<noteq> owner_mode
        then wfail ''text_edit_target_changed''
        else sbind (read_verified_regular_at os d name st MAX_FILE_WRITE_BYTES ''text_edit_target_changed'')
     (\<lambda>current. if current \<noteq> original then wfail ''text_edit_target_changed'' else sreturn ()))"

definition apply_text_patch_pairs ::
    "uuid_text \<Rightarrow> os \<Rightarrow> local_runtime \<Rightarrow> project_ref \<Rightarrow> path \<Rightarrow> hunk list \<Rightarrow> text_patch_result act" where
  "apply_text_patch_pairs U os R project relative hunks =
     sbind (slift (validate_hunks hunks))
     (\<lambda>_. sbind (slift (validate_relative_path relative))
     (\<lambda>names. sbind (open_parent U os R project names)
     (\<lambda>(d, name). sbind (inspect_existing_read_target os d name)
     (\<lambda>initial. let owner_mode = fs_mode initial AND 0x1C0 in
      if owner_mode AND 0x80 = 0 then wfail ''file_write_target_read_only''
      else if unat (fs_len initial) > MAX_FILE_WRITE_BYTES then wfail ''text_edit_file_too_large''
      else sbind (read_verified_regular_at os d name initial MAX_FILE_WRITE_BYTES ''text_edit_target_changed'')
     (\<lambda>original. sbind (slift (ok_or (from_utf8 original) (workspace_error ''text_edit_file_not_utf8'')))
     (\<lambda>text. sbind (slift (apply_hunks hunks text))
     (\<lambda>updated.
      let result = \<lparr>tp_hunks_applied = of_nat (length hunks), tp_bytes_before = of_nat (length original),
            tp_bytes_after = of_nat (byte_len updated)\<rparr> in
      if as_bytes updated = original then sreturn result
      else sbind (replace_file U os text_edit_codes d name owner_mode (as_bytes updated)
             (recheck_target os d name initial owner_mode original))
     (\<lambda>_. sreturn result))))))))"

definition workspace_apply_text_patch ::
    "uuid_text \<Rightarrow> os \<Rightarrow> local_runtime \<Rightarrow> project_ref \<Rightarrow> path \<Rightarrow> text_patch_hunk list \<Rightarrow> text_patch_result act" where
  "workspace_apply_text_patch U os R project relative hunks =
     (if hunks = [] \<or> length hunks > MAX_TEXT_PATCH_HUNKS then wfail ''text_patch_hunk_count_invalid''
      else apply_text_patch_pairs U os R project relative
        (map (\<lambda>h. (th_expected h, th_replacement h)) hunks))"

definition workspace_edit_text_file ::
    "uuid_text \<Rightarrow> os \<Rightarrow> local_runtime \<Rightarrow> project_ref \<Rightarrow> path \<Rightarrow> rstring \<Rightarrow> rstring \<Rightarrow> text_edit_result act" where
  "workspace_edit_text_file U os R project relative expected replacement =
     sbind (apply_text_patch_pairs U os R project relative [(expected, replacement)])
     (\<lambda>result. sreturn \<lparr>te_replacements = tp_hunks_applied result,
        te_bytes_before = tp_bytes_before result, te_bytes_after = tp_bytes_after result\<rparr>)"

section \<open>A store that nobody else changes\<close>

definition quiet_os :: "os \<Rightarrow> bool" where
  "quiet_os os \<longleftrightarrow> (\<forall>k st. os_others os k st = st) \<and> (\<forall>k bytes. os_data os k bytes = bytes)"

text \<open>What holds of the result and the store after an operation, whichever calls fail.\<close>

definition swp :: "(machine, 'e, 'a) eff \<Rightarrow> ('e + 'a \<Rightarrow> store \<Rightarrow> bool) \<Rightarrow> store \<Rightarrow> bool" where
  "swp m P st \<longleftrightarrow> (\<forall>k. wp m (\<lambda>r t. P r (mc_store t)) \<lparr>mc_calls = k, mc_store = st\<rparr>)"

named_theorems swp_intros \<open>rules for what an operation does to a store that nobody else changes\<close>

lemma swpD: "swp m P (mc_store s) \<Longrightarrow> m s = (r, t) \<Longrightarrow> P r (mc_store t)"
  unfolding swp_def by (cases s) (auto dest: wpD)

lemma swpI: "(\<And>k. wp m (\<lambda>r t. P r (mc_store t)) \<lparr>mc_calls = k, mc_store = st\<rparr>) \<Longrightarrow> swp m P st"
  by (simp add: swp_def)

lemma swp_wp: "swp m P (mc_store t) \<Longrightarrow> wp m (\<lambda>r t. P r (mc_store t)) t"
  unfolding swp_def by (cases t) simp

lemma swp_mono: "swp m P st \<Longrightarrow> (\<And>r s. P r s \<Longrightarrow> Q r s) \<Longrightarrow> swp m Q st"
  unfolding swp_def by (blast intro: wp_mono)

lemma swp_slift [simp]: "swp (slift r) P st \<longleftrightarrow> P r st"
  by (simp add: swp_def wp_simps)

lemma swp_sreturn [simp]: "swp (sreturn a) P st \<longleftrightarrow> P (Inr a) st"
  by (simp add: swp_def wp_simps)

lemma swp_sfail [simp]: "swp (sfail e) P st \<longleftrightarrow> P (Inl e) st"
  by (simp add: swp_def wp_simps)

lemma swp_wfail [simp]: "swp (wfail code) P st \<longleftrightarrow> P (Inl (workspace_error code)) st"
  by (simp add: wfail_def)

lemma swp_bind:
  assumes "swp m P st" and "\<And>e s. P (Inl e) s \<Longrightarrow> Q (Inl e) s" and "\<And>a s. P (Inr a) s \<Longrightarrow> swp (f a) Q s"
  shows "swp (sbind m f) Q st"
proof (rule swpI)
  fix k
  show "wp (sbind m f) (\<lambda>r t. Q r (mc_store t)) \<lparr>mc_calls = k, mc_store = st\<rparr>"
    by (rule wp_step [where P = "\<lambda>r t. P r (mc_store t)"])
      (use assms in \<open>auto simp: swp_def [of m] intro: swp_wp\<close>)
qed

lemma swp_try:
  assumes "swp m P st" and "\<And>r s. P r s \<Longrightarrow> swp (f r) Q s"
  shows "swp (stry m f) Q st"
proof (rule swpI)
  fix k
  have "wp m (\<lambda>r t. P r (mc_store t)) \<lparr>mc_calls = k, mc_store = st\<rparr>"
    using assms(1) by (simp add: swp_def)
  then show "wp (stry m f) (\<lambda>r t. Q r (mc_store t)) \<lparr>mc_calls = k, mc_store = st\<rparr>"
    unfolding wp_stry by (rule wp_mono) (rule swp_wp [OF assms(2)])
qed

lemma swp_expect:
  assumes "swp c P st" and "\<And>e s. P (Inl e) s \<Longrightarrow> Q (Inl (Workspace code)) s"
    and "\<And>a s. P (Inr a) s \<Longrightarrow> Q (Inr a) s"
  shows "swp (expect code c) Q st"
proof (rule swpI)
  fix k
  have "wp c (\<lambda>r t. P r (mc_store t)) \<lparr>mc_calls = k, mc_store = st\<rparr>"
    using assms(1) by (simp add: swp_def)
  then show "wp (expect code c) (\<lambda>r t. Q r (mc_store t)) \<lparr>mc_calls = k, mc_store = st\<rparr>"
    unfolding expect_def wp_smap_err
    by (rule wp_mono) (auto split: sum.split intro: assms(2,3))
qed

lemma swp_syscall:
  assumes "quiet_os os" and "\<And>e. P (Inl e) st" and "\<And>k. case f k st of (r, s) \<Rightarrow> P r s"
  shows "swp (syscall os f) P st"
proof (rule swpI)
  fix k
  show "wp (syscall os f) (\<lambda>r t. P r (mc_store t)) \<lparr>mc_calls = k, mc_store = st\<rparr>"
    using assms(1) assms(2) assms(3) [of k]
    by (auto simp: wp_def syscall_def quiet_os_def Let_def split: option.split prod.splits)
qed

subsection \<open>Reading\<close>

text \<open>An operation that reads: the store stays, and a result satisfies \<open>R\<close>.\<close>

definition reading :: "(machine, 'e, 'a) eff \<Rightarrow> store \<Rightarrow> ('a \<Rightarrow> bool) \<Rightarrow> bool" where
  "reading m st R \<longleftrightarrow> swp m (\<lambda>r s. s = st \<and> (\<forall>a. r = Inr a \<longrightarrow> R a)) st"

lemma reading_bind:
  assumes "reading m st R" and "\<And>a. R a \<Longrightarrow> reading (f a) st Q"
  shows "reading (sbind m f) st Q"
  using assms(1) unfolding reading_def
  by (rule swp_bind) (use assms(2) in \<open>auto simp: reading_def\<close>)

lemma reading_mono: "reading m st R \<Longrightarrow> (\<And>a. R a \<Longrightarrow> Q a) \<Longrightarrow> reading m st Q"
  unfolding reading_def by (erule swp_mono) blast

lemma reading_simps [simp]:
  "reading (sreturn a) st R \<longleftrightarrow> R a" "reading (sfail e) st R" "reading (wfail code) st R"
  "reading (slift r) st R \<longleftrightarrow> (\<forall>a. r = Inr a \<longrightarrow> R a)"
  by (auto simp: reading_def)

lemma reading_expect: "reading c st R \<Longrightarrow> reading (expect code c) st R"
  unfolding reading_def by (erule swp_expect) auto

lemma reading_try:
  fixes c :: "(machine, 'e, 'a) eff"
  assumes "reading c st R" and "\<And>e. reading (f (Inl e)) st Q" and "\<And>a. R a \<Longrightarrow> reading (f (Inr a)) st Q"
  shows "reading (stry c f) st Q"
  using assms(1) unfolding reading_def
proof (rule swp_try)
  fix r :: "'e + 'a" and s
  assume "s = st \<and> (\<forall>a. r = Inr a \<longrightarrow> R a)"
  then show "swp (f r) (\<lambda>r s. s = st \<and> (\<forall>a. r = Inr a \<longrightarrow> Q a)) s"
    using assms(2,3) by (cases r) (auto simp: reading_def)
qed

lemma reading_sys_stat_at:
  "quiet_os os \<Longrightarrow> reading (sys_stat_at os d name) st
     (\<lambda>x. \<exists>i n. dir_entry st d name = Some i \<and> st i = Some n \<and> x = inode_status i n)"
  unfolding sys_stat_at_def reading_def by (rule swp_syscall) (auto split: option.splits)

lemma reading_sys_open_dir_at:
  "quiet_os os \<Longrightarrow> reading (sys_open_dir_at os d name) st
     (\<lambda>i. dir_entry st d name = Some i \<and> is_directory st i)"
  unfolding sys_open_dir_at_def reading_def by (rule swp_syscall) (auto split: option.splits if_splits)

lemma reading_sys_open_file_at:
  "quiet_os os \<Longrightarrow> reading (sys_open_file_at os d name) st (\<lambda>i. dir_entry st d name = Some i)"
  unfolding sys_open_file_at_def reading_def by (rule swp_syscall) (auto split: option.splits if_splits)

lemma reading_sys_fstat:
  "quiet_os os \<Longrightarrow> reading (sys_fstat os i) st (\<lambda>x. \<exists>n. st i = Some n \<and> x = inode_status i n)"
  unfolding sys_fstat_def reading_def by (rule swp_syscall) (auto split: option.splits)

lemma reading_sys_read_to_end:
  "quiet_os os \<Longrightarrow> reading (sys_read_to_end os i limit) st
     (\<lambda>bytes. \<exists>r. st i = Some (RegularInode r) \<and> bytes = take limit (rg_bytes r))"
  unfolding sys_read_to_end_def reading_def
  by (rule swp_syscall) (auto simp: quiet_os_def regular_at_def split: option.splits inode.splits)

lemma reading_sys_sync: "quiet_os os \<Longrightarrow> reading (sys_sync os i) st (\<lambda>_. True)"
  unfolding sys_sync_def reading_def by (rule swp_syscall) auto

lemma reading_sys_path:
  "quiet_os os \<Longrightarrow> reading (sys_symlink_metadata os p) st (\<lambda>_. True)"
  "quiet_os os \<Longrightarrow> reading (sys_metadata os p) st (\<lambda>_. True)"
  "quiet_os os \<Longrightarrow> reading (sys_canonicalize os p) st (\<lambda>_. True)"
  unfolding sys_symlink_metadata_def sys_metadata_def sys_canonicalize_def path_status_def reading_def
  by (rule swp_syscall; simp)+

lemma reading_sys_open_path:
  "quiet_os os \<Longrightarrow> reading (sys_open_path os p) st (\<lambda>i. is_directory st i \<and> (\<exists>k. os_resolve os k p = Some i))"
  unfolding sys_open_path_def reading_def by (rule swp_syscall) (auto split: option.splits if_splits)

lemma reading_sys_uuid: "reading (sys_uuid os) st (\<lambda>_. True)"
  by (simp add: reading_def swp_def wp_def sys_uuid_def)

subsection \<open>Paths down to a directory\<close>

fun follow :: "store \<Rightarrow> inode_id \<Rightarrow> rstring list \<Rightarrow> inode_id option" where
  "follow st d [] = Some d"
| "follow st d (name # names) =
     (case dir_entry st d name of None \<Rightarrow> None
      | Some i \<Rightarrow> if is_directory st i then follow st i names else None)"

definition managed_path :: "uuid_text \<Rightarrow> project_ref \<Rightarrow> rstring list" where
  "managed_path U project = [PRODUCT_ROOT_NAME, PROJECTS_ROOT_NAME, project_dir_name U (pr_id project)]"

text \<open>The directory a project is kept in, and the directory and name a relative path leads to from it.\<close>

definition managed_root :: "uuid_text \<Rightarrow> os \<Rightarrow> local_runtime \<Rightarrow> project_ref \<Rightarrow> store \<Rightarrow> inode_id \<Rightarrow> bool" where
  "managed_root U os R project st root \<longleftrightarrow>
     (\<exists>k app. os_resolve os k (lr_app_private_root R) = Some app
        \<and> follow st app (managed_path U project) = Some root)"

definition target_of ::
    "uuid_text \<Rightarrow> os \<Rightarrow> local_runtime \<Rightarrow> project_ref \<Rightarrow> path \<Rightarrow> store \<Rightarrow> inode_id \<Rightarrow> rstring \<Rightarrow> bool" where
  "target_of U os R project relative st d name \<longleftrightarrow>
     (\<exists>root names. validate_relative_path relative = Inr (names @ [name])
        \<and> managed_root U os R project st root \<and> follow st root names = Some d)"

lemma reading_verify:
  "quiet_os os \<Longrightarrow> reading (workspace_verify U os R project) st (\<lambda>_. True)"
  unfolding workspace_verify_def Let_def reject_symlink_if_present_def canonical_existing_dir_def
  by (auto intro!: reading_bind [where R = "\<lambda>_. True"] reading_try [where R = "\<lambda>_. True"]
      reading_expect reading_sys_path)

lemma reading_open_existing_dir_at:
  "quiet_os os \<Longrightarrow> reading (open_existing_dir_at os d name) st
     (\<lambda>i. dir_entry st d name = Some i \<and> is_directory st i)"
  unfolding open_existing_dir_at_def by (intro reading_expect reading_sys_open_dir_at)

lemma managed_rootI:
  assumes "os_resolve os k (lr_app_private_root R) = Some app"
    and "dir_entry st app PRODUCT_ROOT_NAME = Some a" and "is_directory st a"
    and "dir_entry st a PROJECTS_ROOT_NAME = Some b" and "is_directory st b"
    and "dir_entry st b (project_dir_name U (pr_id project)) = Some root" and "is_directory st root"
  shows "managed_root U os R project st root"
  unfolding managed_root_def managed_path_def using assms
  by (intro exI [of _ k] exI [of _ app]) simp

lemma reading_open_project_root:
  assumes "quiet_os os"
  shows "reading (open_project_root U os R project) st
    (\<lambda>root. managed_root U os R project st root \<and> is_directory st root)"
  unfolding open_project_root_def
  apply (rule reading_bind [OF reading_verify [OF assms]])
  apply (simp, intro impI conjI)
  apply (rule reading_bind [OF reading_expect [OF reading_sys_open_path [OF assms]]])
  apply (rule reading_bind [OF reading_open_existing_dir_at [OF assms]])+
  apply (rule reading_bind [OF reading_expect [OF reading_sys_path(1) [OF assms]]])
  apply (auto intro!: reading_bind [OF reading_expect [OF reading_sys_fstat [OF assms]]]
      intro: managed_rootI simp del: split_paired_All split_paired_Ex)
  done

lemma reading_open_dirs:
  assumes "quiet_os os"
  shows "is_directory st d \<Longrightarrow> reading (open_dirs os d names) st (\<lambda>i. follow st d names = Some i \<and> is_directory st i)"
proof (induction names arbitrary: d)
  case (Cons name names)
  show ?case unfolding open_dirs.simps
    by (rule reading_bind [OF reading_open_existing_dir_at [OF assms]])
      (auto intro: reading_mono [OF Cons.IH])
qed simp

lemma reading_open_parent:
  assumes "quiet_os os" and "validate_relative_path relative = Inr names"
  shows "reading (open_parent U os R project names) st
    (\<lambda>(d, name). target_of U os R project relative st d name \<and> is_directory st d)"
proof (cases "names = []")
  case False
  then show ?thesis unfolding open_parent_def using assms(2)
    by (auto intro!: reading_bind [OF reading_open_project_root [OF assms(1)]]
        reading_bind [OF reading_open_dirs [OF assms(1)]] simp: target_of_def)
      (metis append_butlast_last_id)
qed (simp add: open_parent_def)

section \<open>Replacing a file\<close>

text \<open>Every entry leads to an inode.\<close>

definition closed_store :: "store \<Rightarrow> bool" where
  "closed_store st \<longleftrightarrow> (\<forall>d name i. dir_entry st d name = Some i \<longrightarrow> st i \<noteq> None)"

definition is_temp_name :: "rstring \<Rightarrow> bool" where
  "is_temp_name n \<longleftrightarrow> starts_with n LOCAL_TEMP_PREFIX"

text \<open>Nothing but a temporary file has come or gone in the directory, and every old inode is as it was.\<close>

definition old_kept :: "store \<Rightarrow> inode_id \<Rightarrow> store \<Rightarrow> bool" where
  "old_kept st d st' \<longleftrightarrow> (\<forall>i. i \<noteq> d \<longrightarrow> st i \<noteq> None \<longrightarrow> st' i = st i)
     \<and> (\<forall>n. \<not> is_temp_name n \<longrightarrow> dir_entry st' d n = dir_entry st d n)"

text \<open>The name leads to a new inode with the new bytes; the inode it led to has lost that link and
  nothing else.\<close>

definition drop_link :: "inode \<Rightarrow> inode" where
  "drop_link n = (case n of RegularInode r \<Rightarrow> RegularInode (r\<lparr>rg_nlink := rg_nlink r - 1\<rparr>) | _ \<Rightarrow> n)"

definition installed :: "store \<Rightarrow> inode_id \<Rightarrow> rstring \<Rightarrow> byte list \<Rightarrow> store \<Rightarrow> bool" where
  "installed st d name bytes st' \<longleftrightarrow>
     (\<exists>i mode. st i = None \<and> st' i = Some (RegularInode \<lparr>rg_mode = mode, rg_nlink = 1, rg_bytes = bytes\<rparr>)
        \<and> (\<forall>n. \<not> is_temp_name n \<longrightarrow> dir_entry st' d n = (if n = name then Some i else dir_entry st d n))
        \<and> (\<forall>j. j \<noteq> d \<longrightarrow> st j \<noteq> None \<longrightarrow>
             st' j = (if dir_entry st d name = Some j then map_option drop_link (st j) else st j)))"

lemma is_directory_iff: "is_directory st d \<longleftrightarrow> (\<exists>mode es. st d = Some (DirectoryInode mode es))"
  by (auto simp: is_directory_def split: option.splits inode.splits)

lemma is_directory_upd: "is_directory (st(i \<mapsto> n)) d \<longleftrightarrow>
    (if d = i then (\<exists>mode es. n = DirectoryInode mode es) else is_directory st d)"
  by (auto simp: is_directory_iff)

lemma dir_entry_upd:
  "dir_entry (st(d \<mapsto> DirectoryInode mode es)) d n = map_of es (Utf8Path n)"
  "i \<noteq> d \<Longrightarrow> dir_entry (st(i \<mapsto> x)) d n = dir_entry st d n"
  by (simp_all add: dir_entry_def dir_entries_def)

lemma dir_entry_dir: "st d = Some (DirectoryInode mode es) \<Longrightarrow> dir_entry st d n = map_of es (Utf8Path n)"
  by (simp add: dir_entry_def dir_entries_def)

lemma filter_absent: "map_of es p = None \<Longrightarrow> filter (\<lambda>(q, i). q \<noteq> p) es = es"
  by (induction es) (auto split: if_splits)

lemma map_of_filter_ne: "q \<noteq> p \<Longrightarrow> map_of (filter (\<lambda>(x, i). x \<noteq> p) es) q = map_of es q"
  by (induction es) (auto split: if_splits)

text \<open>The store while the temporary file \<open>temp\<close> is being filled.\<close>

definition staged :: "store \<Rightarrow> inode_id \<Rightarrow> u32 \<Rightarrow> (path \<times> inode_id) list \<Rightarrow> rstring \<Rightarrow> inode_id \<Rightarrow> regular \<Rightarrow> store" where
  "staged st d dm es temp i r = st(i \<mapsto> RegularInode r, d \<mapsto> DirectoryInode dm ((Utf8Path temp, i) # es))"

definition staging :: "os \<Rightarrow> store \<Rightarrow> inode_id \<Rightarrow> u32 \<Rightarrow> (path \<times> inode_id) list \<Rightarrow> rstring \<Rightarrow> inode_id \<Rightarrow> bool" where
  "staging os st d dm es temp i \<longleftrightarrow> quiet_os os \<and> closed_store st \<and> st d = Some (DirectoryInode dm es)
     \<and> st i = None \<and> dir_entry st d temp = None \<and> is_temp_name temp"

lemma stagingD:
  assumes "staging os st d dm es temp i"
  shows "quiet_os os" "closed_store st" "st d = Some (DirectoryInode dm es)" "st i = None"
    "dir_entry st d temp = None" "is_temp_name temp" "i \<noteq> d" "d \<noteq> i"
    "dir_entry st d n = map_of es (Utf8Path n)"
  using assms by (auto simp: staging_def intro: dir_entry_dir)

lemma staged_at:
  assumes "staging os st d dm es temp i"
  shows "staged st d dm es temp i r i = Some (RegularInode r)"
    "staged st d dm es temp i r d = Some (DirectoryInode dm ((Utf8Path temp, i) # es))"
    "j \<noteq> i \<Longrightarrow> j \<noteq> d \<Longrightarrow> staged st d dm es temp i r j = st j"
  using stagingD [OF assms] by (simp_all add: staged_def)

lemma staged_entry:
  assumes "staging os st d dm es temp i"
  shows "dir_entry (staged st d dm es temp i r) d n = (if n = temp then Some i else dir_entry st d n)"
  using stagingD [OF assms] by (simp add: dir_entry_def dir_entries_def staged_at [OF assms])

lemma staged_filter:
  assumes "staging os st d dm es temp i"
  shows "filter (\<lambda>(p, i). p \<noteq> Utf8Path temp) es = es"
  using stagingD [OF assms] by (metis filter_absent)

lemma chmod_staged:
  assumes ok: "staging os st d dm es temp i"
  shows "swp (sys_chmod os i mode)
    (\<lambda>res s. \<exists>m. s = staged st d dm es temp i (r\<lparr>rg_mode := m\<rparr>)) (staged st d dm es temp i r)"
  unfolding sys_chmod_def
proof (rule swp_syscall [OF stagingD(1) [OF ok]])
  show "\<exists>m. staged st d dm es temp i r = staged st d dm es temp i (r\<lparr>rg_mode := m\<rparr>)"
    by (rule exI [of _ "rg_mode r"]) simp
qed (use stagingD [OF ok] in \<open>auto simp: staged_at [OF ok]; auto simp: staged_def fun_upd_twist\<close>)

lemma write_staged:
  assumes ok: "staging os st d dm es temp i"
  shows "swp (sys_write_all os i bytes)
     (\<lambda>res s. \<exists>b. s = staged st d dm es temp i (r\<lparr>rg_bytes := b\<rparr>) \<and> (res = Inr () \<longrightarrow> b = rg_bytes r @ bytes))
     (staged st d dm es temp i r)"
proof (rule swpI)
  fix k
  let ?s = "staged st d dm es temp i"
  have "append_to i b (?s r) = ?s (r\<lparr>rg_bytes := rg_bytes r @ b\<rparr>)" for b
    using stagingD [OF ok]
    by (simp add: append_to_def regular_at_def staged_at [OF ok]) (simp add: staged_def fun_upd_twist)
  moreover have "os_others os k (?s r) = ?s r" using stagingD(1) [OF ok] by (simp add: quiet_os_def)
  ultimately show "wp (sys_write_all os i bytes)
      (\<lambda>res t. \<exists>b. mc_store t = ?s (r\<lparr>rg_bytes := b\<rparr>) \<and> (res = Inr () \<longrightarrow> b = rg_bytes r @ bytes))
      \<lparr>mc_calls = k, mc_store = ?s r\<rparr>"
    by (auto simp: wp_def sys_write_all_def Let_def split: option.split)
qed

lemma staged_kept:
  assumes ok: "staging os st d dm es temp i"
  shows "old_kept st d (staged st d dm es temp i r)"
proof -
  have "dir_entry (staged st d dm es temp i r) d n = dir_entry st d n" if "\<not> is_temp_name n" for n
    using that stagingD(6) [OF ok] by (auto simp: staged_entry [OF ok])
  moreover have "staged st d dm es temp i r j = st j" if "j \<noteq> d" "st j \<noteq> None" for j
    using that stagingD(4) [OF ok] staged_at(3) [OF ok, of j r] by metis
  ultimately show ?thesis by (simp add: old_kept_def)
qed

lemma unlink_staged:
  assumes ok: "staging os st d dm es temp i"
  shows "swp (sys_unlink_at os d temp) (\<lambda>res s. old_kept st d s) (staged st d dm es temp i r)"
  unfolding sys_unlink_at_def
proof (rule swp_syscall [OF stagingD(1) [OF ok]])
  let ?s = "staged st d dm es temp i r"
  show "old_kept st d ?s" by (rule staged_kept [OF ok])
  fix k
  note facts = stagingD [OF ok]
  have "remove_entry temp d ?s = st(i \<mapsto> RegularInode r)"
    using facts by (auto simp: remove_entry_def change_entries_def staged_filter [OF ok] staged_def fun_upd_twist)
  then have "old_kept st d (link_count (\<lambda>l. l - 1) i (remove_entry temp d ?s))"
    using facts(4,7) by (auto simp: link_count_def regular_at_def old_kept_def dir_entry_upd)
  then show "case (case dir_entry ?s d temp of None \<Rightarrow> (Inl NotFound, ?s)
      | Some i \<Rightarrow> if is_directory ?s i then (Inl OtherError, ?s)
          else (Inr (), link_count (\<lambda>l. l - 1) i (remove_entry temp d ?s))) of (r, s) \<Rightarrow> old_kept st d s"
    by (simp add: staged_entry [OF ok] is_directory_def staged_at [OF ok])
qed

lemma rename_staged:
  assumes ok: "staging os st d dm es temp i" and name: "\<not> is_temp_name name" and one: "rg_nlink r = 1"
  defines "s0 \<equiv> staged st d dm es temp i r"
  shows "case rename_entry d temp name s0 of (res, s) \<Rightarrow>
      res \<noteq> Inr () \<and> s = s0 \<or> res = Inr () \<and> installed st d name (rg_bytes r) s"
proof -
  note facts = stagingD [OF ok] and stg = staged_entry [OF ok, of r, folded s0_def]
  have ne: "name \<noteq> temp" using name facts(6) by auto
  let ?new = "st(i \<mapsto> RegularInode r, d \<mapsto> DirectoryInode dm ((Utf8Path name, i)
      # filter (\<lambda>(p, i). p \<noteq> Utf8Path name) es))"
  have new_entry: "dir_entry ?new d n = (if n = name then Some i else dir_entry st d n)" for n
    using facts(9) by (simp add: dir_entry_upd map_of_filter_ne)
  have r: "r = \<lparr>rg_mode = rg_mode r, rg_nlink = 1, rg_bytes = rg_bytes r\<rparr>" using one by simp
  have removed: "remove_entry temp d s0 = st(i \<mapsto> RegularInode r)"
    using facts by (auto simp: s0_def remove_entry_def change_entries_def staged_filter [OF ok]
        staged_def fun_upd_twist)
  have new: "add_entry_at name i d (remove_entry name d (st(i \<mapsto> RegularInode r))) = ?new"
    using facts by (simp add: add_entry_at_def remove_entry_def change_entries_def)
  show ?thesis
  proof (cases "dir_entry st d name")
    case None
    then have "filter (\<lambda>(p, i). p \<noteq> Utf8Path name) es = es"
      using facts(9) by (metis filter_absent)
    then have "rename_entry d temp name s0 = (Inr (), ?new)"
      using None ne facts by (simp add: rename_entry_def stg removed add_entry_at_def change_entries_def)
    moreover have "installed st d name (rg_bytes r) ?new"
      unfolding installed_def using facts r None
      by (intro exI [of _ i] exI [of _ "rg_mode r"]) (auto simp: new_entry)
    ultimately show ?thesis by simp
  next
    case (Some j)
    then have j: "st j \<noteq> None" "j \<noteq> i" using facts(2,4) unfolding closed_store_def by (metis, metis)
    show ?thesis
    proof (cases "is_directory s0 j")
      case True
      then show ?thesis using Some j ne by (simp add: rename_entry_def stg)
    next
      case False
      then have jd: "j \<noteq> d" using staged_at(2) [OF ok] by (auto simp: is_directory_iff s0_def)
      have "rename_entry d temp name s0 = (Inr (), link_count (\<lambda>l. l - 1) j ?new)"
        using Some ne j False by (simp add: rename_entry_def stg removed new)
      moreover have "link_count (\<lambda>l. l - 1) j ?new = ?new(j := map_option drop_link (st j))"
        using j jd by (auto simp: link_count_def regular_at_def drop_link_def split: inode.splits option.splits)
      moreover have "dir_entry (?new(j := x)) d n = dir_entry ?new d n" for x n
        using jd by (simp add: dir_entry_def dir_entries_def)
      then have "installed st d name (rg_bytes r) (?new(j := map_option drop_link (st j)))"
        unfolding installed_def using facts r Some j jd
        by (intro exI [of _ i] exI [of _ "rg_mode r"]) (auto simp: new_entry)
      ultimately show ?thesis by simp
    qed
  qed
qed

lemma create_staged:
  assumes "quiet_os os" and "closed_store st" and "st d = Some (DirectoryInode dm es)" and "is_temp_name temp"
  shows "swp (sys_create_at os d temp mode)
    (\<lambda>r s. case r of Inl e \<Rightarrow> s = st
       | Inr i \<Rightarrow> staging os st d dm es temp i
           \<and> s = staged st d dm es temp i \<lparr>rg_mode = mode, rg_nlink = 1, rg_bytes = []\<rparr>) st"
  unfolding sys_create_at_def
  by (rule swp_syscall [OF assms(1)])
    (use assms in \<open>auto simp: create_entry_def staging_def staged_def add_entry_at_def
      change_entries_def simp del: not_None_eq\<close>)

lemma cleanup_staged:
  assumes ok: "staging os st d dm es temp i"
    and m: "swp m (\<lambda>r s. case r of Inl e \<Rightarrow> \<exists>r'. s = staged st d dm es temp i r' | Inr a \<Rightarrow> P s) s0"
  shows "swp (with_temp_cleanup os d temp m) (\<lambda>r s. case r of Inl e \<Rightarrow> old_kept st d s | Inr a \<Rightarrow> P s) s0"
  unfolding with_temp_cleanup_def
proof (rule swp_try [OF m])
  fix r s
  assume r: "case r of Inl e \<Rightarrow> \<exists>r'. s = staged st d dm es temp i r' | Inr a \<Rightarrow> P s"
  show "swp (case r of Inl e \<Rightarrow> stry (sys_unlink_at os d temp) (\<lambda>_. sfail e) | Inr a \<Rightarrow> sreturn a)
      (\<lambda>r s. case r of Inl e \<Rightarrow> old_kept st d s | Inr a \<Rightarrow> P s) s"
    using r by (cases r) (auto intro: swp_try [OF unlink_staged [OF ok]])
qed

text \<open>A reading step in the middle of a sequence.\<close>

lemma swp_read:
  assumes "reading m st R" and "\<And>e. Q (Inl e) st" and "\<And>a. R a \<Longrightarrow> swp (f a) Q st"
  shows "swp (sbind m f) Q st"
  using assms(1) unfolding reading_def by (rule swp_bind) (use assms(2,3) in auto)

lemma temp_file_is_temp: "is_temp_name (temp_file_name U u)"
  by (simp add: is_temp_name_def temp_file_name_def starts_with_iff)

lemma replace_file_swp:
  assumes quiet: "quiet_os os" and closed: "closed_store st" and dir: "is_directory st d"
    and name: "\<not> is_temp_name name" and recheck: "\<And>s. reading recheck s (\<lambda>_. True)"
  shows "swp (replace_file U os codes d name mode contents recheck)
    (\<lambda>r s. r \<noteq> Inr () \<and> old_kept st d s \<or> installed st d name contents s) st"
proof -
  obtain dm es where d: "st d = Some (DirectoryInode dm es)" using dir by (auto simp: is_directory_iff)
  have fill: "swp (sbind (expect (pc_mode codes) (sys_chmod os fd mode))
        (\<lambda>_. sbind (expect (pc_stat codes) (sys_fstat os fd))
        (\<lambda>st. sbind (slift (require_single_link_regular st (pc_invalid codes) (pc_hard_linked codes)))
        (\<lambda>_. sbind (expect (pc_data codes) (sys_write_all os fd contents))
        (\<lambda>_. sbind (expect (pc_sync codes) (sys_sync os fd))
        (\<lambda>_. sbind recheck
        (\<lambda>_. expect (pc_rename codes) (sys_rename_at os d temp name))))))))
      (\<lambda>r s. case r of Inl e \<Rightarrow> \<exists>r'. s = staged st d dm es temp fd r' | Inr a \<Rightarrow> installed st d name contents s)
      (staged st d dm es temp fd \<lparr>rg_mode = mode, rg_nlink = 1, rg_bytes = []\<rparr>)"
    if ok: "staging os st d dm es temp fd" for temp fd
  proof -
    let ?Q = "\<lambda>r s. case r of Inl e \<Rightarrow> \<exists>r'. s = staged st d dm es temp fd r'
        | Inr a \<Rightarrow> installed st d name contents s"
    let ?S = "\<lambda>m b. staged st d dm es temp fd \<lparr>rg_mode = m, rg_nlink = 1, rg_bytes = b\<rparr>"
    have rename: "swp (expect (pc_rename codes) (sys_rename_at os d temp name)) ?Q (?S m contents)" for m
    proof -
      have "swp (sys_rename_at os d temp name) ?Q (?S m contents)"
        unfolding sys_rename_at_def
        by (rule swp_syscall [OF quiet])
          (use rename_staged [OF ok name, of "\<lparr>rg_mode = m, rg_nlink = 1, rg_bytes = contents\<rparr>"] in
            \<open>auto split: sum.splits prod.splits\<close>)
      then show ?thesis by (rule swp_expect) auto
    qed
    have chmod: "swp (expect (pc_mode codes) (sys_chmod os fd mode)) (\<lambda>r s. \<exists>m. s = ?S m []) (?S mode [])"
      by (rule swp_expect [OF chmod_staged [OF ok]]) auto
    have written: "swp (expect (pc_data codes) (sys_write_all os fd contents))
        (\<lambda>r s. \<exists>b. s = ?S m b \<and> (r = Inr () \<longrightarrow> b = contents)) (?S m [])" for m
      by (rule swp_expect [OF write_staged [OF ok]]) auto
    show ?thesis
      apply (rule swp_bind [OF chmod], fastforce, clarify)
      apply (rule swp_read [OF reading_expect [OF reading_sys_fstat [OF quiet]]], fastforce)
      apply (rule swp_read [where R = "\<lambda>_. True"], simp, fastforce)
      apply (rule swp_bind [OF written], fastforce, clarsimp)
      apply (rule swp_read [OF reading_expect [OF reading_sys_sync [OF quiet]]], fastforce)
      apply (rule swp_read [OF recheck], fastforce)
      apply (rule rename)
      done
  qed
  show ?thesis
    unfolding replace_file_def Let_def
    apply (rule swp_read [OF reading_sys_uuid], simp add: old_kept_def)
    apply (rule swp_bind [OF swp_expect [OF create_staged [OF quiet closed d temp_file_is_temp]], where
          P = "\<lambda>r s. case r of Inl e \<Rightarrow> s = st | Inr i \<Rightarrow> staging os st d dm es (temp_file_name U u) i
           \<and> s = staged st d dm es (temp_file_name U u) i \<lparr>rg_mode = mode, rg_nlink = 1, rg_bytes = []\<rparr>" for u])
       apply (simp_all add: old_kept_def)[3]
    apply clarsimp
    apply (rule swp_bind [OF cleanup_staged [OF _ fill]], assumption, assumption)
     apply simp
    apply (rule swp_expect [OF reading_sys_sync [OF quiet, unfolded reading_def]]; simp)
    done
qed

section \<open>The operations\<close>

lemma local_components_plain:
  "local_components cs = Inr vs \<Longrightarrow> v \<in> set vs \<Longrightarrow> \<not> is_temp_name v"
  by (induction cs arbitrary: vs rule: local_components.induct)
    (auto simp: is_temp_name_def rbind_eq_Inr split: if_splits)

lemma target_plain: "target_of U os R project relative st d name \<Longrightarrow> \<not> is_temp_name name"
  using local_components_plain [of "components relative" _ name]
  by (fastforce simp: target_of_def validate_relative_path_def rbind_eq_Inr split: if_splits)

lemma reading_inspect_write:
  "quiet_os os \<Longrightarrow> reading (inspect_existing_write_target os d name) st (\<lambda>_. True)"
  unfolding inspect_existing_write_target_def
  by (rule reading_try [OF reading_sys_stat_at])
    (auto simp: Let_def intro!: reading_bind [where R = "\<lambda>_. True"])

lemma require_single_link:
  "require_single_link_regular (inode_status i n) a b = Inr u \<longleftrightarrow>
     (\<exists>reg. n = RegularInode reg \<and> rg_nlink reg = 1)"
  by (cases n) (auto simp: require_single_link_regular_def)

lemma reading_inspect_optional:
  "quiet_os os \<Longrightarrow> reading (inspect_optional_read_target os d name) st
     (\<lambda>x. \<forall>a. x = Some a \<longrightarrow> (\<exists>i reg. dir_entry st d name = Some i \<and> st i = Some (RegularInode reg)
        \<and> rg_nlink reg = 1 \<and> a = inode_status i (RegularInode reg)))"
  unfolding inspect_optional_read_target_def
proof (rule reading_try [OF reading_sys_stat_at], assumption, goal_cases)
  case (2 a)
  then obtain i n where "dir_entry st d name = Some i" "st i = Some n" "a = inode_status i n" by blast
  then show ?case
    by (auto intro!: reading_bind [where R = "\<lambda>_. \<exists>reg. n = RegularInode reg \<and> rg_nlink reg = 1"]
        simp: require_single_link)
qed simp

lemma reading_inspect_existing:
  assumes "quiet_os os"
  shows "reading (inspect_existing_read_target os d name) st
     (\<lambda>a. \<exists>i reg. dir_entry st d name = Some i \<and> st i = Some (RegularInode reg)
        \<and> rg_nlink reg = 1 \<and> a = inode_status i (RegularInode reg))"
  unfolding inspect_existing_read_target_def
  by (rule reading_bind [OF reading_inspect_optional [OF assms]]) auto

lemma reading_read_verified:
  assumes "quiet_os os"
  shows "reading (read_verified_regular_at os d name expected max_bytes changed) st
     (\<lambda>bytes. \<exists>i reg. dir_entry st d name = Some i \<and> st i = Some (RegularInode reg)
        \<and> rg_nlink reg = 1 \<and> bytes = rg_bytes reg \<and> length bytes \<le> max_bytes)"
  unfolding read_verified_regular_at_def
  apply (rule reading_bind [OF reading_expect [OF reading_sys_open_file_at [OF assms]]])
  apply (rule reading_bind [OF reading_expect [OF reading_sys_fstat [OF assms]]], elim exE conjE)
  subgoal for i x n
    by (auto intro!: reading_bind [where R = "\<lambda>_. \<exists>reg. n = RegularInode reg \<and> rg_nlink reg = 1"]
        reading_bind [OF reading_expect [OF reading_sys_read_to_end [OF assms]]]
        simp: require_single_link)
  done

lemma reading_recheck:
  assumes "quiet_os os"
  shows "reading (recheck_target os d name initial owner_mode original) st (\<lambda>_. True)"
  unfolding recheck_target_def
  by (rule reading_bind [OF reading_inspect_existing [OF assms]])
    (auto intro!: reading_bind [OF reading_read_verified [OF assms]])

text \<open>What a patch may leave behind: the old file, or a new one whose text is the patched text.\<close>

definition patch_result :: "hunk list \<Rightarrow> byte list \<Rightarrow> rstring \<Rightarrow> text_patch_result" where
  "patch_result hunks original updated =
     \<lparr>tp_hunks_applied = of_nat (length hunks), tp_bytes_before = of_nat (length original),
      tp_bytes_after = of_nat (byte_len updated)\<rparr>"

definition patch_outcome ::
    "hunk list \<Rightarrow> store \<Rightarrow> inode_id \<Rightarrow> rstring \<Rightarrow> vibecoder_error + text_patch_result \<Rightarrow> store \<Rightarrow> bool" where
  "patch_outcome hunks st d name r st' \<longleftrightarrow>
     (\<exists>i reg text updated. dir_entry st d name = Some i \<and> st i = Some (RegularInode reg)
        \<and> rg_nlink reg = 1 \<and> from_utf8 (rg_bytes reg) = Some text \<and> patched text hunks updated
        \<and> (r = Inr (patch_result hunks (rg_bytes reg) updated)
             \<and> (if as_bytes updated = rg_bytes reg then st' = st else installed st d name (as_bytes updated) st')
           \<or> r \<notin> range Inr \<and> (old_kept st d st' \<or> installed st d name (as_bytes updated) st')))"

lemma validate_hunks_nonempty: "validate_hunks hunks = Inr () \<Longrightarrow> \<forall>h \<in> set hunks. fst h \<noteq> []"
  by (auto simp: validate_hunks_def split: if_splits dest: check_hunks_nonempty)

lemma patch_body:
  fixes U os reg owner_mode hunks d name recheck
  defines "finish \<equiv> \<lambda>updated. let result = patch_result hunks (rg_bytes reg) updated in
      if as_bytes updated = rg_bytes reg then sreturn result
      else sbind (replace_file U os text_edit_codes d name owner_mode (as_bytes updated) recheck)
        (\<lambda>_. sreturn result)"
  assumes quiet: "quiet_os os" and closed: "closed_store st" and dir: "is_directory st d"
    and name: "\<not> is_temp_name name" and recheck: "\<And>s. reading recheck s (\<lambda>_. True)"
    and hunks: "validate_hunks hunks = Inr ()"
    and old: "dir_entry st d name = Some i" "st i = Some (RegularInode reg)" "rg_nlink reg = 1"
  shows "swp (sbind (slift (ok_or (from_utf8 (rg_bytes reg)) e))
      (\<lambda>text. sbind (slift (apply_hunks hunks text)) finish))
    (\<lambda>r s. r \<notin> range Inr \<and> s = st \<or> patch_outcome hunks st d name r s) st"
proof (cases "from_utf8 (rg_bytes reg)")
  case None
  then show ?thesis by (auto intro!: swp_read [where R = "\<lambda>_. False"])
next
  case (Some old_text)
  have outcome: "swp (finish updated) (\<lambda>r s. r \<notin> range Inr \<and> s = st \<or> patch_outcome hunks st d name r s) st"
    if "apply_hunks hunks old_text = Inr updated" for updated
  proof -
    have p: "patched old_text hunks updated"
      using that validate_hunks_nonempty [OF hunks] by (simp add: apply_hunks_patched)
    show ?thesis
    proof (cases "as_bytes updated = rg_bytes reg")
      case True
      then show ?thesis using p Some old by (auto simp: finish_def Let_def patch_outcome_def)
    next
      case False
      have "swp (sbind (replace_file U os text_edit_codes d name owner_mode (as_bytes updated) recheck)
          (\<lambda>_. sreturn (patch_result hunks (rg_bytes reg) updated))) (patch_outcome hunks st d name) st"
        by (rule swp_bind [OF replace_file_swp [OF quiet closed dir name recheck]])
          (use p Some old False in \<open>auto simp: patch_outcome_def simp del: split_paired_Ex\<close>)
      then show ?thesis using False by (auto simp: finish_def Let_def elim: swp_mono)
    qed
  qed
  show ?thesis
    by (rule swp_read [where R = "\<lambda>x. x = old_text"], use Some in simp, force)
      (auto intro!: swp_read [where R = "\<lambda>x. apply_hunks hunks old_text = Inr x"] outcome)
qed

lemma patch_swp:
  assumes quiet: "quiet_os os" and closed: "closed_store st"
  shows "swp (apply_text_patch_pairs U os R project relative hunks)
    (\<lambda>r s. r \<notin> range Inr \<and> s = st \<or>
      (\<exists>d name. target_of U os R project relative st d name \<and> patch_outcome hunks st d name r s)) st"
  unfolding apply_text_patch_pairs_def
proof (rule swp_read [where R = "\<lambda>_. validate_hunks hunks = Inr ()"], goal_cases)
  case (3 u)
  show ?case
  proof (rule swp_read [where R = "\<lambda>names. validate_relative_path relative = Inr names"], goal_cases)
    case (3 names)
    show ?case
    proof (rule swp_read [OF reading_open_parent [OF quiet 3]], goal_cases)
      case (2 parent)
      obtain d name where parent: "parent = (d, name)" by (cases parent)
      have target: "target_of U os R project relative st d name" "is_directory st d"
        using 2 by (simp_all add: parent)
      have body: "swp (sbind (slift (ok_or (from_utf8 (rg_bytes reg)) e))
          (\<lambda>text. sbind (slift (apply_hunks hunks text))
          (\<lambda>updated. let result = patch_result hunks (rg_bytes reg) updated in
            if as_bytes updated = rg_bytes reg then sreturn result
            else sbind (replace_file U os text_edit_codes d name mode (as_bytes updated)
                   (recheck_target os d name initial mode (rg_bytes reg)))
              (\<lambda>_. sreturn result))))
        (\<lambda>r s. r \<notin> range Inr \<and> s = st \<or>
          (\<exists>d name. target_of U os R project relative st d name \<and> patch_outcome hunks st d name r s)) st"
        if "dir_entry st d name = Some i" "st i = Some (RegularInode reg)" "rg_nlink reg = 1"
        for i reg mode initial e
        by (rule swp_mono [OF patch_body [OF quiet closed target(2) target_plain [OF target(1)]
              reading_recheck [OF quiet] \<open>validate_hunks hunks = Inr ()\<close> that]])
          (use target in \<open>auto simp del: split_paired_Ex\<close>)
      show ?case
        unfolding parent split
      proof (rule swp_read [OF reading_inspect_existing [OF quiet]], goal_cases)
        case (2 initial)
        let ?body = "sbind (read_verified_regular_at os d name initial MAX_FILE_WRITE_BYTES ''text_edit_target_changed'')
          (\<lambda>original. sbind (slift (ok_or (from_utf8 original) (workspace_error ''text_edit_file_not_utf8'')))
          (\<lambda>text. sbind (slift (apply_hunks hunks text))
          (\<lambda>updated. let result = patch_result hunks original updated in
            if as_bytes updated = original then sreturn result
            else sbind (replace_file U os text_edit_codes d name (fs_mode initial AND 0x1C0) (as_bytes updated)
                   (recheck_target os d name initial (fs_mode initial AND 0x1C0) original))
              (\<lambda>_. sreturn result))))"
        have "swp ?body (\<lambda>r s. r \<notin> range Inr \<and> s = st \<or>
            (\<exists>d name. target_of U os R project relative st d name \<and> patch_outcome hunks st d name r s)) st"
        proof (rule swp_read [OF reading_read_verified [OF quiet]], goal_cases)
          case (2 original)
          then obtain i reg where reg: "dir_entry st d name = Some i" "st i = Some (RegularInode reg)"
              "rg_nlink reg = 1" and original: "original = rg_bytes reg" by blast
          show ?case unfolding original by (rule body [OF reg])
        qed force
        then show ?case
          unfolding Let_def patch_result_def by (simp add: image_iff del: split_paired_Ex)
      qed force
    qed force
  qed (simp, force)
qed (simp, force)

end
