(* ===== verification/Workspace_Search.thy ===== *)
theory Workspace_Search
  imports Workspace_Files Tree_Digest
begin

text \<open>
  Listing and searching the files of a project in \<open>crates/vibecoder-workspace-local/src/unix_io.rs\<close>: a
  bounded walk in the order of the names that follows no link, and a literal search of the files found.
\<close>

unbundle bit_operations_syntax

section \<open>Listing\<close>

definition MAX_PROJECT_LIST_ENTRIES :: nat where "MAX_PROJECT_LIST_ENTRIES = 4096"
definition MAX_PROJECT_SEARCH_MATCHES :: nat where "MAX_PROJECT_SEARCH_MATCHES = 512"
definition MAX_PROJECT_SEARCH_FILE_BYTES :: nat where "MAX_PROJECT_SEARCH_FILE_BYTES = 2 * 1024 * 1024"
definition MAX_PROJECT_SEARCH_TOTAL_BYTES :: nat where "MAX_PROJECT_SEARCH_TOTAL_BYTES = 64 * 1024 * 1024"
definition MAX_PROJECT_SEARCH_FILES :: nat where "MAX_PROJECT_SEARCH_FILES = 4096"
definition MAX_PROJECT_SEARCH_DEPTH :: nat where "MAX_PROJECT_SEARCH_DEPTH = 64"
definition MAX_PROJECT_WALK_ENTRIES :: nat where "MAX_PROJECT_WALK_ENTRIES = 16384"

definition visible_name :: "path \<Rightarrow> rstring option" where
  "visible_name p =
     (case to_str p of None \<Rightarrow> None
      | Some name \<Rightarrow>
          if name = [] \<or> byte_len name > LOCAL_MAX_COMPONENT_BYTES \<or> list_ex is_control name \<or> 92 \<in> set name
          then None else Some name)"

text \<open>The descriptor is duplicated and turned into a stream, which is read to its end.\<close>

definition read_dir_names :: "os \<Rightarrow> inode_id \<Rightarrow> (rstring list \<times> u32) act" where
  "read_dir_names os d =
     sbind (expect ''project_list_dir_dup_failed'' (sys_sync os d))
     (\<lambda>_. sbind (expect ''project_list_fdopendir_failed'' (sys_sync os d))
     (\<lambda>_. sbind (expect ''project_list_readdir_failed'' (sys_names os d))
     (\<lambda>listed. let names = List.map_filter visible_name listed in
        sreturn (sort_key as_bytes names, u32_capped (length listed - length names)))))"

record walk_state =
  ws_files :: "project_file_entry list"
  ws_skipped :: u32
  ws_entries_seen :: nat
  ws_truncated :: bool
  ws_max_files :: nat

definition skip_entries :: "u32 \<Rightarrow> walk_state \<Rightarrow> walk_state" where
  "skip_entries n w = w\<lparr>ws_skipped := u32_capped (unat (ws_skipped w) + unat n)\<rparr>"

definition truncate_walk :: "walk_state \<Rightarrow> walk_state" where
  "truncate_walk w = w\<lparr>ws_truncated := True\<rparr>"

definition relative_name :: "rstring \<Rightarrow> rstring \<Rightarrow> rstring" where
  "relative_name parent name = (if parent = [] then name else parent @ [47] @ name)"

function walk_project_dir :: "os \<Rightarrow> inode_id \<Rightarrow> rstring \<Rightarrow> nat \<Rightarrow> walk_state \<Rightarrow> walk_state act"
and walk_entries :: "os \<Rightarrow> inode_id \<Rightarrow> rstring \<Rightarrow> nat \<Rightarrow> rstring list \<Rightarrow> walk_state \<Rightarrow> walk_state act" where
  "walk_project_dir os d parent depth w =
     (if ws_truncated w then sreturn w
      else if depth > MAX_PROJECT_SEARCH_DEPTH then sreturn (truncate_walk w)
      else sbind (read_dir_names os d)
        (\<lambda>(names, skipped). walk_entries os d parent depth names (skip_entries skipped w)))"
| "walk_entries os d parent depth [] w = sreturn w"
| "walk_entries os d parent depth (name # names) w =
     (if ws_entries_seen w \<ge> MAX_PROJECT_WALK_ENTRIES then sreturn (truncate_walk w)
      else let w = w\<lparr>ws_entries_seen := ws_entries_seen w + 1\<rparr> in
      if starts_with name LOCAL_TEMP_PREFIX
      then walk_entries os d parent depth names (skip_entries 1 w)
      else stry (sys_stat_at os d name)
      (\<lambda>r. case r of
         Inl e \<Rightarrow> walk_entries os d parent depth names (skip_entries 1 w)
       | Inr st \<Rightarrow>
           let relative = relative_name parent name in
           if byte_len relative > LOCAL_MAX_RELATIVE_PATH_BYTES
           then walk_entries os d parent depth names
             ((if fs_type st = DirectoryFile then truncate_walk else id) (skip_entries 1 w))
           else if fs_type st = DirectoryFile then
             (if depth \<ge> MAX_PROJECT_SEARCH_DEPTH
              then walk_entries os d parent depth names (truncate_walk w)
              else stry (sys_open_dir_at os d name)
              (\<lambda>opened. case opened of
                 Inl e \<Rightarrow> walk_entries os d parent depth names (truncate_walk (skip_entries 1 w))
               | Inr child \<Rightarrow>
                   sbind (walk_project_dir os child relative (depth + 1) w)
                   (\<lambda>w. if ws_truncated w then sreturn w else walk_entries os d parent depth names w)))
           else if fs_type st = RegularFile then
             (if fs_nlink st \<noteq> 1 then walk_entries os d parent depth names (skip_entries 1 w)
              else if length (ws_files w) \<ge> ws_max_files w then sreturn (truncate_walk w)
              else walk_entries os d parent depth names
                (w\<lparr>ws_files := ws_files w @ [\<lparr>pf_relative_path = relative, pf_size_bytes = fs_len st,
                   pf_owner_executable = (fs_mode st AND 0x40 \<noteq> 0)\<rparr>]\<rparr>))
           else walk_entries os d parent depth names (skip_entries 1 w)))"
  by pat_completeness auto
termination
  by (relation "measures
    [\<lambda>x. case x of Inl (os, d, parent, depth, w) \<Rightarrow> MAX_PROJECT_SEARCH_DEPTH + 1 - depth
       | Inr (os, d, parent, depth, names, w) \<Rightarrow> MAX_PROJECT_SEARCH_DEPTH + 1 - depth,
     \<lambda>x. case x of Inl _ \<Rightarrow> 1 | Inr _ \<Rightarrow> 0,
     \<lambda>x. case x of Inl _ \<Rightarrow> 0 | Inr (os, d, parent, depth, names, w) \<Rightarrow> length names]") auto

definition workspace_list_project_files ::
    "uuid_text \<Rightarrow> os \<Rightarrow> local_runtime \<Rightarrow> project_ref \<Rightarrow> nat \<Rightarrow> project_file_list act" where
  "workspace_list_project_files U os R project max_entries =
     (if max_entries = 0 \<or> max_entries > MAX_PROJECT_LIST_ENTRIES then wfail ''project_list_limit_invalid''
      else sbind (open_project_root U os R project)
      (\<lambda>root. sbind (walk_project_dir os root [] 0
         \<lparr>ws_files = [], ws_skipped = 0, ws_entries_seen = 0, ws_truncated = False,
          ws_max_files = max_entries\<rparr>)
      (\<lambda>w. sreturn \<lparr>fl_files = sort_key (\<lambda>e. as_bytes (pf_relative_path e)) (ws_files w),
         fl_skipped_entries = ws_skipped w, fl_truncated = ws_truncated w\<rparr>)))"

section \<open>What a listing says\<close>

inductive file_below :: "store \<Rightarrow> inode_id \<Rightarrow> rstring list \<Rightarrow> regular \<Rightarrow> bool" for st where
  here: "dir_entry st d name = Some i \<Longrightarrow> st i = Some (RegularInode reg) \<Longrightarrow> file_below st d [name] reg"
| deeper: "dir_entry st d name = Some i \<Longrightarrow> is_directory st i \<Longrightarrow> file_below st i names reg \<Longrightarrow>
    file_below st d (name # names) reg"

inductive_cases file_below_elims: "file_below st d [] reg" "file_below st d (name # names) reg"

definition file_entry :: "rstring \<Rightarrow> regular \<Rightarrow> project_file_entry" where
  "file_entry relative reg =
     \<lparr>pf_relative_path = relative, pf_size_bytes = of_nat (length (rg_bytes reg)),
      pf_owner_executable = (rg_mode reg AND 0x40 \<noteq> 0)\<rparr>"

text \<open>What a walk of the entries of \<open>d\<close> whose names satisfy \<open>sel\<close> has done: all that was added is a
  file below, and when nothing was skipped and nothing cut off, every file below was added.\<close>

definition walked :: "store \<Rightarrow> inode_id \<Rightarrow> rstring \<Rightarrow> (rstring \<Rightarrow> bool) \<Rightarrow> walk_state \<Rightarrow> walk_state \<Rightarrow> bool" where
  "walked st d parent sel w w' \<longleftrightarrow>
     ws_skipped w \<le> ws_skipped w' \<and> (ws_truncated w \<longrightarrow> ws_truncated w') \<and> ws_max_files w' = ws_max_files w
     \<and> set (ws_files w) \<subseteq> set (ws_files w')
     \<and> (length (ws_files w) \<le> ws_max_files w \<longrightarrow> length (ws_files w') \<le> ws_max_files w)
     \<and> (\<forall>e \<in> set (ws_files w') - set (ws_files w). \<exists>names reg. sel (hd names) \<and> file_below st d names reg
          \<and> rg_nlink reg = 1 \<and> e = file_entry (foldl relative_name parent names) reg)
     \<and> (\<not> ws_truncated w' \<longrightarrow> ws_skipped w' = 0 \<longrightarrow>
          (\<forall>names reg. sel (hd names) \<longrightarrow> file_below st d names reg \<longrightarrow>
             rg_nlink reg = 1 \<and> file_entry (foldl relative_name parent names) reg \<in> set (ws_files w')))"

lemma walked_keeps:
  assumes "walked st d parent sel w w'"
  shows "ws_skipped w \<le> ws_skipped w'" "ws_truncated w \<Longrightarrow> ws_truncated w'" "ws_max_files w' = ws_max_files w"
    "set (ws_files w) \<subseteq> set (ws_files w')"
    "length (ws_files w) \<le> ws_max_files w \<Longrightarrow> length (ws_files w') \<le> ws_max_files w"
  using assms by (simp_all add: walked_def)

lemma walked_new:
  assumes "walked st d parent sel w w'" and "e \<in> set (ws_files w')" and "e \<notin> set (ws_files w)"
  obtains names reg where "sel (hd names)" "file_below st d names reg" "rg_nlink reg = 1"
    "e = file_entry (foldl relative_name parent names) reg"
  using assms unfolding walked_def by blast

lemma walked_all:
  assumes "walked st d parent sel w w'" and "\<not> ws_truncated w'" and "ws_skipped w' = 0"
    and "sel (hd names)" and "file_below st d names reg"
  shows "rg_nlink reg = 1 \<and> file_entry (foldl relative_name parent names) reg \<in> set (ws_files w')"
  using assms unfolding walked_def by blast

lemma walkedI:
  assumes "ws_skipped w \<le> ws_skipped w'" and "ws_truncated w \<Longrightarrow> ws_truncated w'"
    and "ws_max_files w' = ws_max_files w" and "set (ws_files w) \<subseteq> set (ws_files w')"
    and "length (ws_files w) \<le> ws_max_files w \<Longrightarrow> length (ws_files w') \<le> ws_max_files w"
    and "\<And>e. e \<in> set (ws_files w') \<Longrightarrow> e \<notin> set (ws_files w) \<Longrightarrow> \<exists>names reg. sel (hd names)
      \<and> file_below st d names reg \<and> rg_nlink reg = 1 \<and> e = file_entry (foldl relative_name parent names) reg"
    and "\<And>names reg. \<not> ws_truncated w' \<Longrightarrow> ws_skipped w' = 0 \<Longrightarrow> sel (hd names) \<Longrightarrow> file_below st d names reg
      \<Longrightarrow> rg_nlink reg = 1 \<and> file_entry (foldl relative_name parent names) reg \<in> set (ws_files w')"
  shows "walked st d parent sel w w'"
  using assms unfolding walked_def by blast

lemma u32_capped_unat: "unat (u32_capped n) = min n (2 ^ 32 - 1)"
  by (simp add: u32_capped_def unsigned_of_nat take_bit_nat_eq_self)

lemma skip_entries_ge: "ws_skipped w \<le> ws_skipped (skip_entries n w)"
proof -
  have "unat (ws_skipped w) < 2 ^ LENGTH(32)" by (rule unsigned_less)
  then show ?thesis by (simp add: skip_entries_def word_le_nat_alt u32_capped_unat)
qed

lemma skip_one: "1 \<le> ws_skipped (skip_entries 1 w)"
  by (simp add: skip_entries_def word_le_nat_alt u32_capped_unat)

lemma walk_state_simps [simp]:
  "ws_files (skip_entries n w) = ws_files w" "ws_truncated (skip_entries n w) = ws_truncated w"
  "ws_max_files (skip_entries n w) = ws_max_files w"
  "ws_files (truncate_walk w) = ws_files w" "ws_truncated (truncate_walk w)"
  "ws_skipped (truncate_walk w) = ws_skipped w" "ws_max_files (truncate_walk w) = ws_max_files w"
  by (simp_all add: skip_entries_def truncate_walk_def)

text \<open>A state in which something was skipped or cut off promises nothing about completeness.\<close>

definition spoiled :: "walk_state \<Rightarrow> bool" where
  "spoiled w \<longleftrightarrow> ws_truncated w \<or> ws_skipped w \<noteq> 0"

lemma walked_stop: "spoiled w' \<Longrightarrow> ws_files w' = ws_files w \<Longrightarrow> ws_skipped w \<le> ws_skipped w' \<Longrightarrow>
    (ws_truncated w \<longrightarrow> ws_truncated w') \<Longrightarrow> ws_max_files w' = ws_max_files w \<Longrightarrow> walked st d parent sel w w'"
  by (auto simp: walked_def spoiled_def)

lemma walked_from_spoiled:
  assumes "walked st d parent (\<lambda>n. n \<in> set names) v w'" and "spoiled v" and "ws_files v = ws_files w"
    and "ws_skipped w \<le> ws_skipped v" and "ws_truncated w \<longrightarrow> ws_truncated v" and "ws_max_files v = ws_max_files w"
  shows "walked st d parent (\<lambda>n. n \<in> set (name # names)) w w'"
proof -
  note keep = walked_keeps [OF assms(1)]
  have "ws_truncated w' \<or> ws_skipped w' \<noteq> 0"
    using keep(1,2) assms(2) by (auto simp: spoiled_def)
  show ?thesis
  proof (rule walkedI)
    fix e
    assume "e \<in> set (ws_files w')" "e \<notin> set (ws_files w)"
    with walked_new [OF assms(1), of e] assms(3)
    show "\<exists>ns reg. hd ns \<in> set (name # names) \<and> file_below st d ns reg \<and> rg_nlink reg = 1
        \<and> e = file_entry (foldl relative_name parent ns) reg"
      by (metis list.set_intros(2))
  qed (use keep assms \<open>ws_truncated w' \<or> ws_skipped w' \<noteq> 0\<close> in auto)
qed

lemma walked_seen:
  "walked st d parent sel (w\<lparr>ws_entries_seen := n\<rparr>) w' \<longleftrightarrow> walked st d parent sel w w'"
  by (simp add: walked_def)

lemma walked_file:
  assumes "walked st d parent (\<lambda>n. n \<in> set names)
      (w\<lparr>ws_files := ws_files w @ [file_entry (relative_name parent name) reg]\<rparr>) w'"
    and i: "dir_entry st d name = Some i" "st i = Some (RegularInode reg)" "rg_nlink reg = 1"
    and room: "length (ws_files w) < ws_max_files w"
  shows "walked st d parent (\<lambda>n. n \<in> set (name # names)) w w'"
proof -
  have this_file: "file_below st d [name] reg" using i by (auto intro: file_below.here)
  have only: "ns = [name] \<and> reg' = reg" if "file_below st d ns reg'" "hd ns = name" for ns reg'
    using that i by (cases ns) (auto elim!: file_below_elims simp: is_directory_iff)
  show ?thesis
  proof (rule walkedI)
    fix e
    assume e: "e \<in> set (ws_files w')" "e \<notin> set (ws_files w)"
    show "\<exists>ns reg'. hd ns \<in> set (name # names) \<and> file_below st d ns reg' \<and> rg_nlink reg' = 1
        \<and> e = file_entry (foldl relative_name parent ns) reg'"
    proof (cases "e = file_entry (relative_name parent name) reg")
      case True
      then show ?thesis using this_file i(3) by (intro exI [of _ "[name]"] exI [of _ reg]) simp
    next
      case False
      then have "e \<notin> set (ws_files (w\<lparr>ws_files := ws_files w @ [file_entry (relative_name parent name) reg]\<rparr>))"
        using e by simp
      from walked_new [OF assms(1) e(1) this] show ?thesis by (metis list.set_intros(2))
    qed
  next
    fix ns reg'
    assume clean: "\<not> ws_truncated w'" "ws_skipped w' = 0" and ns: "hd ns \<in> set (name # names)" "file_below st d ns reg'"
    show "rg_nlink reg' = 1 \<and> file_entry (foldl relative_name parent ns) reg' \<in> set (ws_files w')"
    proof (cases "hd ns = name")
      case True
      then show ?thesis using only [OF ns(2)] walked_keeps(4) [OF assms(1)] i(3) by auto
    next
      case False
      then show ?thesis using ns by (intro walked_all [OF assms(1) clean]) auto
    qed
  qed (use walked_keeps [OF assms(1)] room in auto)
qed

lemma walked_dir:
  assumes "walked st child (relative_name parent name) (\<lambda>_. True) w v"
    and "walked st d parent (\<lambda>n. n \<in> set names) v w'"
    and i: "dir_entry st d name = Some child" "is_directory st child"
  shows "walked st d parent (\<lambda>n. n \<in> set (name # names)) w w'"
proof -
  have down: "file_below st d (name # ns) reg" if "file_below st child ns reg" for ns reg
    using that i by (auto intro: file_below.deeper)
  have only: "\<exists>ms. ns = name # ms \<and> file_below st child ms reg" if "file_below st d ns reg" "hd ns = name" for ns reg
    using that i by (cases ns) (auto elim!: file_below_elims simp: is_directory_iff)
  note keep = walked_keeps(1) [OF assms(1)] walked_keeps(1) [OF assms(2)]
    walked_keeps(4) [OF assms(1)] walked_keeps(4) [OF assms(2)]
  have new: "\<exists>ns reg. hd ns \<in> set (name # names) \<and> file_below st d ns reg \<and> rg_nlink reg = 1
      \<and> e = file_entry (foldl relative_name parent ns) reg"
    if e: "e \<in> set (ws_files w')" "e \<notin> set (ws_files w)" for e
  proof (cases "e \<in> set (ws_files v)")
    case True
    then obtain ns reg where "file_below st child ns reg" "rg_nlink reg = 1"
        "e = file_entry (foldl relative_name (relative_name parent name) ns) reg"
      using walked_new [OF assms(1) True e(2)] by metis
    then show ?thesis using down by (intro exI [of _ "name # ns"]) auto
  next
    case False
    from walked_new [OF assms(2) e(1) this] show ?thesis by (metis list.set_intros(2))
  qed
  have all: "rg_nlink reg = 1 \<and> file_entry (foldl relative_name parent ns) reg \<in> set (ws_files w')"
    if clean: "\<not> ws_truncated w'" "ws_skipped w' = 0" and ns: "hd ns \<in> set (name # names)" "file_below st d ns reg"
    for ns reg
  proof (cases "hd ns = name")
    case True
    then obtain ms where ms: "ns = name # ms" "file_below st child ms reg" using only ns(2) by blast
    have "\<not> ws_truncated v" "ws_skipped v = 0"
      using clean walked_keeps(2) [OF assms(2)] keep(2) by auto
    then show ?thesis using walked_all [OF assms(1) _ _ _ ms(2)] ms(1) keep(4) by auto
  next
    case False
    then show ?thesis using ns by (intro walked_all [OF assms(2) clean]) auto
  qed
  show ?thesis
    by (rule walkedI) (use walked_keeps [OF assms(1)] walked_keeps [OF assms(2)] new all in auto)
qed

declare walk_project_dir.simps [simp del] walk_entries.simps [simp del]

lemma reading_entries:
  assumes quiet: "quiet_os os"
    and sub: "\<And>child relative w. depth < MAX_PROJECT_SEARCH_DEPTH \<Longrightarrow>
      reading (walk_project_dir os child relative (depth + 1) w) st (walked st child relative (\<lambda>_. True) w)"
  shows "reading (walk_entries os d parent depth names w) st (walked st d parent (\<lambda>n. n \<in> set names) w)"
proof (induction names arbitrary: w)
  case Nil
  then show ?case by (simp add: walk_entries.simps walked_def)
next
  case (Cons name names)
  let ?goal = "walked st d parent (\<lambda>n. n \<in> set (name # names))"
  define v where "v = w\<lparr>ws_entries_seen := ws_entries_seen w + 1\<rparr>"
  have v: "?goal v w' \<longleftrightarrow> ?goal w w'" for w' unfolding v_def by (rule walked_seen)
  have spoil: "reading (walk_entries os d parent depth names u) st (?goal w)"
    if "spoiled u" "ws_files u = ws_files v" "ws_skipped v \<le> ws_skipped u"
      "ws_truncated v \<longrightarrow> ws_truncated u" "ws_max_files u = ws_max_files v" for u
  proof (rule reading_mono [OF Cons.IH])
    fix w'
    assume "walked st d parent (\<lambda>n. n \<in> set names) u w'"
    then have "?goal v w'" using that by (rule walked_from_spoiled)
    then show "?goal w w'" by (simp only: v)
  qed
  have one: "ws_skipped (skip_entries 1 v) \<noteq> 0" using skip_one [of v] by auto
  have skip: "reading (walk_entries os d parent depth names (f (skip_entries 1 v))) st (?goal w)"
    if "f = id \<or> f = truncate_walk" for f
    by (rule spoil) (use that one skip_entries_ge [of v 1] in \<open>auto simp: spoiled_def\<close>)
  have cut: "reading (walk_entries os d parent depth names (truncate_walk v)) st (?goal w)"
    by (rule spoil) (simp_all add: spoiled_def)
  have stop: "?goal w (truncate_walk v)" "?goal w (truncate_walk w)"
    by (auto simp: spoiled_def v_def intro!: walked_stop)
  show ?case
  proof (cases "ws_entries_seen w \<ge> MAX_PROJECT_WALK_ENTRIES \<or> starts_with name LOCAL_TEMP_PREFIX")
    case True
    then show ?thesis
      using skip [of id] stop(2) by (auto simp: walk_entries.simps Let_def v_def)
  next
    case False
    have "reading (stry (sys_stat_at os d name)
      (\<lambda>r. case r of
         Inl e \<Rightarrow> walk_entries os d parent depth names (skip_entries 1 v)
       | Inr st \<Rightarrow>
           let relative = relative_name parent name in
           if byte_len relative > LOCAL_MAX_RELATIVE_PATH_BYTES
           then walk_entries os d parent depth names
             ((if fs_type st = DirectoryFile then truncate_walk else id) (skip_entries 1 v))
           else if fs_type st = DirectoryFile then
             (if depth \<ge> MAX_PROJECT_SEARCH_DEPTH
              then walk_entries os d parent depth names (truncate_walk v)
              else stry (sys_open_dir_at os d name)
              (\<lambda>opened. case opened of
                 Inl e \<Rightarrow> walk_entries os d parent depth names (truncate_walk (skip_entries 1 v))
               | Inr child \<Rightarrow>
                   sbind (walk_project_dir os child relative (depth + 1) v)
                   (\<lambda>w. if ws_truncated w then sreturn w else walk_entries os d parent depth names w)))
           else if fs_type st = RegularFile then
             (if fs_nlink st \<noteq> 1 then walk_entries os d parent depth names (skip_entries 1 v)
              else if length (ws_files v) \<ge> ws_max_files v then sreturn (truncate_walk v)
              else walk_entries os d parent depth names
                (v\<lparr>ws_files := ws_files v @ [\<lparr>pf_relative_path = relative, pf_size_bytes = fs_len st,
                   pf_owner_executable = (fs_mode st AND 0x40 \<noteq> 0)\<rparr>]\<rparr>))
           else walk_entries os d parent depth names (skip_entries 1 v))) st (?goal w)"
    proof (rule reading_try [OF reading_sys_stat_at [OF quiet]], goal_cases)
      case 1
      then show ?case using skip [of id] by simp
    next
      case (2 stat)
      then obtain i n where i: "dir_entry st d name = Some i" "st i = Some n" and stat: "stat = inode_status i n"
        by blast
      let ?relative = "relative_name parent name"
      have dir: "reading (stry (sys_open_dir_at os d name)
          (\<lambda>opened. case opened of
             Inl e \<Rightarrow> walk_entries os d parent depth names (truncate_walk (skip_entries 1 v))
           | Inr child \<Rightarrow>
               sbind (walk_project_dir os child ?relative (depth + 1) v)
               (\<lambda>w. if ws_truncated w then sreturn w else walk_entries os d parent depth names w))) st (?goal w)"
        if "depth < MAX_PROJECT_SEARCH_DEPTH"
      proof (rule reading_try [OF reading_sys_open_dir_at [OF quiet]], goal_cases)
        case 1
        then show ?case using skip [of truncate_walk] by simp
      next
        case (2 child)
        show ?case
          unfolding sum.case
        proof (rule reading_bind [OF sub [OF that]])
          fix u
          assume u: "walked st child ?relative (\<lambda>_. True) v u"
          have "?goal w w'" if "walked st d parent (\<lambda>n. n \<in> set names) u w'" for w'
            using walked_dir [OF u that] 2 v by blast
          moreover have "walked st d parent (\<lambda>n. n \<in> set names) u u" if "ws_truncated u"
            using that by (intro walked_stop) (auto simp: spoiled_def)
          ultimately show "reading (if ws_truncated u then sreturn u
              else walk_entries os d parent depth names u) st (?goal w)"
            by (auto intro: reading_mono [OF Cons.IH])
        qed
      qed
      have "reading (walk_entries os d parent depth names
          (v\<lparr>ws_files := ws_files v @ [file_entry ?relative reg]\<rparr>)) st (?goal w)"
        if "n = RegularInode reg" "rg_nlink reg = 1" "length (ws_files v) < ws_max_files v" for reg
      proof (rule reading_mono [OF Cons.IH])
        fix w'
        assume "walked st d parent (\<lambda>n. n \<in> set names)
          (v\<lparr>ws_files := ws_files v @ [file_entry ?relative reg]\<rparr>) w'"
        then have "?goal v w'" using i that by (auto intro!: walked_file simp del: set_simps)
        then show "?goal w w'" by (simp only: v)
      qed
      then show ?case
        using skip [of id] skip [of truncate_walk] cut stop(1) dir
        by (cases n) (auto simp: Let_def stat file_entry_def)
    qed
    then show ?thesis
      using False by (simp only: walk_entries.simps Let_def v_def if_False simp_thms de_Morgan_disj)
  qed
qed

text \<open>A directory is read completely, in some order.\<close>

definition full_listing :: "os \<Rightarrow> bool" where
  "full_listing os \<longleftrightarrow> (\<forall>k ps. set (os_order os k ps) = set ps)"

lemma dir_entry_listed: "dir_entry st d n \<noteq> None \<longleftrightarrow> Utf8Path n \<in> set (map fst (dir_entries st d))"
  by (simp add: dir_entry_def map_of_eq_None_iff)

lemma map_filter_all:
  "length (List.map_filter f xs) \<le> length xs"
  "length (List.map_filter f xs) = length xs \<Longrightarrow> x \<in> set xs \<Longrightarrow> f x \<noteq> None"
proof (induction xs)
  case (Cons y ys)
  { case 1 show ?case using Cons.IH(1) by (auto simp: List.map_filter_simps split: option.split) next
    case 2 then show ?case using Cons.IH by (auto simp: List.map_filter_simps split: option.splits) }
qed simp_all

lemma reading_read_dir_names:
  assumes quiet: "quiet_os os" and full: "full_listing os"
  shows "reading (read_dir_names os d) st
    (\<lambda>(names, skipped). skipped = 0 \<longrightarrow> (\<forall>n. dir_entry st d n \<noteq> None \<longrightarrow> n \<in> set names))"
proof -
  have listed: "reading (sys_names os d) st (\<lambda>ps. set ps = set (map fst (dir_entries st d)))"
    unfolding sys_names_def reading_def
    by (rule swp_syscall [OF quiet]) (use full in \<open>auto simp: full_listing_def\<close>)
  have all: "n \<in> set (List.map_filter visible_name ps)"
    if "u32_capped (length ps - length (List.map_filter visible_name ps)) = 0"
      "set ps = set (map fst (dir_entries st d))" "dir_entry st d n \<noteq> None" for ps n
  proof -
    have "unat (u32_capped (length ps - length (List.map_filter visible_name ps))) = 0"
      using that(1) by simp
    then have "length (List.map_filter visible_name ps) = length ps"
      using map_filter_all(1) [of visible_name ps] by (simp add: u32_capped_unat)
    moreover have "Utf8Path n \<in> set ps" using that(2,3) by (simp only: dir_entry_listed)
    ultimately have "visible_name (Utf8Path n) \<noteq> None" by (rule map_filter_all(2))
    then have "visible_name (Utf8Path n) = Some n" by (auto simp: visible_name_def to_str_def split: if_splits)
    then show ?thesis using \<open>Utf8Path n \<in> set ps\<close> by (force simp: List.map_filter_def)
  qed
  show ?thesis
    unfolding read_dir_names_def Let_def
    by (rule reading_bind [OF reading_expect [OF reading_sys_sync [OF quiet]]])+
      (rule reading_bind [OF reading_expect [OF listed]], use all in auto)
qed

lemma reading_walk:
  assumes quiet: "quiet_os os" and full: "full_listing os"
  shows "reading (walk_project_dir os d parent depth w) st (walked st d parent (\<lambda>_. True) w)"
proof (induction "MAX_PROJECT_SEARCH_DEPTH + 1 - depth" arbitrary: d parent depth w rule: less_induct)
  case less
  show ?case
  proof (cases "ws_truncated w \<or> depth > MAX_PROJECT_SEARCH_DEPTH")
    case True
    then show ?thesis
      by (auto simp: walk_project_dir.simps spoiled_def intro!: walked_stop)
  next
    case False
    have entries: "reading (walk_entries os d parent depth names v) st (walked st d parent (\<lambda>n. n \<in> set names) v)"
      for names v
      by (rule reading_entries [OF quiet]) (use less in auto)
    have all: "walked st d parent (\<lambda>_. True) w w'"
      if names: "skipped = 0 \<longrightarrow> (\<forall>n. dir_entry st d n \<noteq> None \<longrightarrow> n \<in> set names)"
        and w': "walked st d parent (\<lambda>n. n \<in> set names) (skip_entries skipped w) w'"
      for names skipped w'
    proof (rule walkedI)
      fix e
      assume "e \<in> set (ws_files w')" "e \<notin> set (ws_files w)"
      then show "\<exists>ns reg. True \<and> file_below st d ns reg \<and> rg_nlink reg = 1
          \<and> e = file_entry (foldl relative_name parent ns) reg"
        using walked_new [OF w', of e] by (metis walk_state_simps(1))
    next
      fix ns reg
      assume clean: "\<not> ws_truncated w'" "ws_skipped w' = 0" and ns: "file_below st d ns reg"
      have "ws_skipped (skip_entries skipped w) = 0" using walked_keeps(1) [OF w'] clean(2) by simp
      then have "unat (ws_skipped w) + unat skipped = 0"
        using u32_capped_unat [of "unat (ws_skipped w) + unat skipped"] by (simp add: skip_entries_def min_def split: if_splits)
      then have "skipped = 0" by (simp add: unsigned_eq_0_iff)
      moreover have "dir_entry st d (hd ns) \<noteq> None" using ns by cases auto
      ultimately have "hd ns \<in> set names" using names by blast
      then show "rg_nlink reg = 1 \<and> file_entry (foldl relative_name parent ns) reg \<in> set (ws_files w')"
        by (intro walked_all [OF w' clean] ns)
    qed (use walked_keeps [OF w'] skip_entries_ge [of w skipped] in auto)
    show ?thesis
      using False
      by (auto simp: walk_project_dir.simps intro!: reading_bind [OF reading_read_dir_names [OF quiet full]]
          reading_mono [OF entries] all)
  qed
qed

section \<open>Searching\<close>

definition u64_sat_add :: "u64 \<Rightarrow> u64 \<Rightarrow> u64" where
  "u64_sat_add a b = of_nat (min (unat a + unat b) (2 ^ 64 - 1))"

definition skip_file :: "project_text_search_result \<Rightarrow> project_text_search_result" where
  "skip_file r = r\<lparr>tsr_files_skipped := sat_succ (tsr_files_skipped r)\<rparr>"

fun add_matches ::
    "rstring \<Rightarrow> rstring \<Rightarrow> nat \<Rightarrow> nat list \<Rightarrow> project_text_search_result
      \<Rightarrow> bool \<times> project_text_search_result" where
  "add_matches path text max_matches [] r = (False, r)"
| "add_matches path text max_matches (i # is) r =
     (if length (tsr_matches r) \<ge> max_matches then (True, r\<lparr>tsr_truncated := True\<rparr>)
      else case locate_text_match text i of (line, column, preview) \<Rightarrow>
        add_matches path text max_matches is
          (r\<lparr>tsr_matches := tsr_matches r @ [\<lparr>ptm_relative_path = path, ptm_line = line,
             ptm_column = column, ptm_preview = preview\<rparr>]\<rparr>))"

definition over_search_limit :: "u64 \<Rightarrow> bool" where
  "over_search_limit n \<longleftrightarrow> unat n > MAX_PROJECT_SEARCH_TOTAL_BYTES"

fun search_files ::
    "uuid_text \<Rightarrow> os \<Rightarrow> local_runtime \<Rightarrow> project_ref \<Rightarrow> rstring \<Rightarrow> nat \<Rightarrow> project_file_entry list
      \<Rightarrow> project_text_search_result \<Rightarrow> project_text_search_result act" where
  "search_files U os R project needle max_matches [] r = sreturn r"
| "search_files U os R project needle max_matches (e # es) r =
     (if unat (pf_size_bytes e) > MAX_PROJECT_SEARCH_FILE_BYTES
      then search_files U os R project needle max_matches es (skip_file r)
      else if over_search_limit (u64_sat_add (tsr_bytes_scanned r) (pf_size_bytes e))
      then sreturn (r\<lparr>tsr_truncated := True\<rparr>)
      else stry (workspace_read_file U os R project (Utf8Path (pf_relative_path e))
             MAX_PROJECT_SEARCH_FILE_BYTES)
      (\<lambda>got. case got of
         Inl err \<Rightarrow> search_files U os R project needle max_matches es (skip_file r)
       | Inr bytes \<Rightarrow>
           let scanned = u64_sat_add (tsr_bytes_scanned r) (of_nat (length bytes)) in
           if over_search_limit scanned then sreturn (r\<lparr>tsr_truncated := True\<rparr>)
           else let r = r\<lparr>tsr_bytes_scanned := scanned\<rparr> in
           (case from_utf8 bytes of
              None \<Rightarrow> search_files U os R project needle max_matches es (skip_file r)
            | Some text \<Rightarrow>
                (case add_matches (pf_relative_path e) text max_matches (match_indices 0 text needle)
                    (r\<lparr>tsr_files_scanned := sat_succ (tsr_files_scanned r)\<rparr>) of
                   (full, r) \<Rightarrow>
                     if full then sreturn r
                     else search_files U os R project needle max_matches es r))))"

definition workspace_search_project_text ::
    "uuid_text \<Rightarrow> os \<Rightarrow> local_runtime \<Rightarrow> project_ref \<Rightarrow> rstring \<Rightarrow> nat \<Rightarrow> project_text_search_result act" where
  "workspace_search_project_text U os R project needle max_matches =
     (if needle = [] then wfail ''project_search_needle_empty''
      else if byte_len needle > 4096 \<or> 0 \<in> set needle then wfail ''project_search_needle_invalid''
      else if max_matches = 0 \<or> max_matches > MAX_PROJECT_SEARCH_MATCHES
      then wfail ''project_search_match_limit_invalid''
      else sbind (workspace_list_project_files U os R project MAX_PROJECT_SEARCH_FILES)
      (\<lambda>listing. search_files U os R project needle max_matches (fl_files listing)
         \<lparr>tsr_matches = [], tsr_files_scanned = 0, tsr_files_skipped = fl_skipped_entries listing,
          tsr_bytes_scanned = 0, tsr_truncated = fl_truncated listing\<rparr>))"

section \<open>What a match says\<close>

definition preview_char :: "rchar \<Rightarrow> rchar" where
  "preview_char ch = (if is_control ch then 32 else ch)"

text \<open>The needle stands in the text at the one-based line and column, and the preview is the start of
  that line.\<close>

definition match_at :: "rstring \<Rightarrow> rstring \<Rightarrow> project_text_match \<Rightarrow> bool" where
  "match_at content needle m \<longleftrightarrow>
     (\<exists>k line column. starts_with (drop k content) needle \<and> line < length (split_on 10 content)
        \<and> column \<le> length (split_on 10 content ! line)
        \<and> take k content = join [10] (take line (split_on 10 content) @ [take column (split_on 10 content ! line)])
        \<and> unat (ptm_line m) = line + 1 \<and> unat (ptm_column m) = column + 1
        \<and> ptm_preview m = map preview_char (take MAX_PREVIEW_CHARS (split_on 10 content ! line)))"

lemma split_on_append:
  "split_on d (u @ v) = butlast (split_on d u) @ (last (split_on d u) @ hd (split_on d v)) # tl (split_on d v)"
proof (induction u)
  case (Cons c u)
  then show ?case by (cases "split_on d u") (auto split: list.split)
qed simp

lemma split_on_parts:
  "length (split_on d u) = Suc (length (filter (\<lambda>c. c = d) u))"
  "hd (split_on d u) = takeWhile (\<lambda>c. c \<noteq> d) u"
  by (induction u) (auto split: list.splits)

lemma last_split_on: "last (split_on d u) = rev (takeWhile (\<lambda>c. c \<noteq> d) (rev u))"
proof (induction u)
  case (Cons c u)
  have "takeWhile (\<lambda>c. c \<noteq> d) (rev u @ [c]) =
      (if d \<in> set u then takeWhile (\<lambda>c. c \<noteq> d) (rev u) else if c = d then rev u else rev u @ [c])"
    by (auto simp: takeWhile_append)
  moreover have "split_on d u = [u]" if "d \<notin> set u" using that by (rule split_on_plain)
  moreover have "tl (split_on d u) \<noteq> []" if "d \<in> set u"
  proof -
    have "0 < length (filter (\<lambda>c. c = d) u)" using that by (simp add: filter_empty_conv)
    then show ?thesis using split_on_parts(1) [of d u] by (cases "split_on d u") auto
  qed
  ultimately show ?case using Cons.IH
    by (cases "d \<in> set u") (auto split: list.split)
qed simp

lemma locate_match:
  assumes "starts_with (drop k content) needle" and "k \<le> length content" and "length content < 2 ^ 31"
    and "locate_text_match content k = (line, column, preview)"
  shows "match_at content needle
    \<lparr>ptm_relative_path = path, ptm_line = line, ptm_column = column, ptm_preview = preview\<rparr>"
proof -
  let ?u = "take k content" and ?v = "drop k content"
  let ?ls = "split_on 10 content" and ?l = "length (filter (\<lambda>c. c = 10) ?u)"
  let ?c = "length (line_before ?u)"
  have split: "?ls = butlast (split_on 10 ?u) @ (line_before ?u @ takeWhile (\<lambda>c. c \<noteq> 10) ?v) # tl (split_on 10 ?v)"
    using split_on_append [of 10 ?u ?v] by (simp add: split_on_parts(2) last_split_on line_before_def)
  have l: "length (butlast (split_on 10 ?u)) = ?l" by (simp add: split_on_parts(1))
  have lt: "?l < length ?ls" by (subst split) (simp add: split_on_parts(1))
  have nth: "?ls ! ?l = line_before ?u @ takeWhile (\<lambda>c. c \<noteq> 10) ?v"
    by (subst split) (simp add: nth_append split_on_parts(1))
  have taken: "take ?l ?ls = butlast (split_on 10 ?u)" by (subst split) (simp add: split_on_parts(1))
  have "join [10] (take ?l ?ls @ [take ?c (?ls ! ?l)]) = join [10] (split_on 10 ?u)"
    unfolding taken nth using append_butlast_last_id [OF split_on_ne, of 10 ?u]
    by (simp add: last_split_on line_before_def)
  then have position: "?u = join [10] (take ?l ?ls @ [take ?c (?ls ! ?l)])" by (simp add: join_split_on)
  have "?l \<le> length ?u" by (rule length_filter_le)
  moreover have "?c \<le> length ?u" using length_takeWhile_le [of _ "rev ?u"] by (simp add: line_before_def)
  ultimately have small: "?l + 1 < 2 ^ 32 - 1" "?c + 1 < 2 ^ 32 - 1" using assms(3) by simp_all
  have out: "line = u32_capped (?l + 1)" "column = u32_capped (?c + 1)"
    "preview = map preview_char (take MAX_PREVIEW_CHARS (?ls ! ?l))"
    using assms(4) by (auto simp: locate_text_match_def Let_def nth preview_char_def [abs_def])
  show ?thesis
    unfolding match_at_def using assms(1) lt position small
    by (intro exI [of _ k] exI [of _ ?l] exI [of _ ?c]) (simp add: out u32_capped_unat nth)
qed

lemma utf8_strict_length: "utf8_strict bs = Some s \<Longrightarrow> length s \<le> length bs"
proof (induction bs arbitrary: s rule: utf8_strict.induct)
  case (1 bs)
  show ?case
  proof (cases bs)
    case Nil
    then show ?thesis using "1.prems" by (simp add: utf8_strict.simps)
  next
    case (Cons b bs')
    then obtain rs c rest s' where *: "utf8_tail b = Some rs" "utf8_take (lead_bits b) rs bs' = (Some c, rest)"
        "utf8_strict rest = Some s'" "s = c # s'"
      using "1.prems" by (subst (asm) utf8_strict.simps) (auto split: option.splits prod.splits)
    then have "length s' \<le> length rest" using "1.IH" Cons by metis
    then show ?thesis using * Cons utf8_take_length [of "lead_bits b" rs bs'] by simp
  qed
qed

lemma from_utf8_length: "from_utf8 bs = Some s \<Longrightarrow> length s \<le> length bs"
  unfolding from_utf8_def by (drule utf8_strict_length) simp

text \<open>What the matches of one file add to a result.\<close>

definition added :: "(project_text_match \<Rightarrow> bool) \<Rightarrow> nat \<Rightarrow> project_text_search_result \<Rightarrow> project_text_search_result \<Rightarrow> bool" where
  "added good max_matches r r' \<longleftrightarrow>
     (\<forall>m \<in> set (tsr_matches r'). m \<in> set (tsr_matches r) \<or> good m)
     \<and> (length (tsr_matches r) \<le> max_matches \<longrightarrow> length (tsr_matches r') \<le> max_matches)
     \<and> tsr_bytes_scanned r' = tsr_bytes_scanned r \<and> tsr_files_scanned r' = tsr_files_scanned r"

lemma add_matches_added:
  "add_matches path content n ks r = (full, r') \<Longrightarrow>
     (\<And>k line column preview. k \<in> set ks \<Longrightarrow> locate_text_match content k = (line, column, preview) \<Longrightarrow>
        good \<lparr>ptm_relative_path = path, ptm_line = line, ptm_column = column, ptm_preview = preview\<rparr>) \<Longrightarrow>
     added good n r r'"
proof (induction path content n ks r rule: add_matches.induct)
  case (2 path content n k ks r)
  show ?case
  proof (cases "length (tsr_matches r) \<ge> n")
    case True
    then show ?thesis using "2.prems" by (auto simp: added_def)
  next
    case False
    obtain line column preview where loc: "locate_text_match content k = (line, column, preview)"
      by (cases "locate_text_match content k")
    let ?m = "\<lparr>ptm_relative_path = path, ptm_line = line, ptm_column = column, ptm_preview = preview\<rparr>"
    have "added good n (r\<lparr>tsr_matches := tsr_matches r @ [?m]\<rparr>) r'"
      by (rule "2.IH") (use False "2.prems" loc in auto)
    moreover have "good ?m" by (rule "2.prems"(2) [OF _ loc]) simp
    ultimately show ?thesis using False by (auto simp: added_def)
  qed
qed (simp add: added_def)

text \<open>What a search does: it scans some files, each given by its path and bytes. Every new match is in one of
  them, and the counters of the result are the total of their bytes and the number of those that are text.\<close>

type_synonym scan = "rstring \<times> byte list"

definition scanned_bytes :: "scan list \<Rightarrow> nat" where
  "scanned_bytes scans = sum_list (map (\<lambda>x. length (snd x)) scans)"

definition scanned_texts :: "scan list \<Rightarrow> nat" where
  "scanned_texts scans = length (filter (\<lambda>x. from_utf8 (snd x) \<noteq> None) scans)"

definition searched ::
    "(scan \<Rightarrow> bool) \<Rightarrow> (project_text_match \<Rightarrow> bool) \<Rightarrow> nat \<Rightarrow> project_file_entry list
      \<Rightarrow> project_text_search_result \<Rightarrow> project_text_search_result \<Rightarrow> bool" where
  "searched real good max_matches es r r' \<longleftrightarrow> (\<exists>scans.
     list_all real scans \<and> subseq (map fst scans) (map pf_relative_path es)
     \<and> (\<forall>m \<in> set (tsr_matches r'). m \<in> set (tsr_matches r)
          \<or> good m \<and> ptm_relative_path m \<in> fst ` set scans)
     \<and> (length (tsr_matches r) \<le> max_matches \<longrightarrow> length (tsr_matches r') \<le> max_matches)
     \<and> unat (tsr_bytes_scanned r') = unat (tsr_bytes_scanned r) + scanned_bytes scans
     \<and> tsr_files_scanned r' = u32_capped (unat (tsr_files_scanned r) + scanned_texts scans)
     \<and> (\<not> over_search_limit (tsr_bytes_scanned r) \<longrightarrow> \<not> over_search_limit (tsr_bytes_scanned r')))"

lemma scanned_append:
  "scanned_bytes (xs @ ys) = scanned_bytes xs + scanned_bytes ys"
  "scanned_texts (xs @ ys) = scanned_texts xs + scanned_texts ys"
  by (simp_all add: scanned_bytes_def scanned_texts_def)

lemma u32_capped_self: "u32_capped (unat w) = w"
proof -
  have "unat w \<le> 2 ^ 32 - 1" using unsigned_less [of w, where 'a = nat] by simp
  then show ?thesis by (simp add: u32_capped_def)
qed

lemma searched_refl:
  assumes "tsr_matches r' = tsr_matches r" "tsr_bytes_scanned r' = tsr_bytes_scanned r"
    "tsr_files_scanned r' = tsr_files_scanned r"
  shows "searched real good n es r r'"
  unfolding searched_def
  by (rule exI [of _ "[]"]) (simp add: assms scanned_bytes_def scanned_texts_def u32_capped_self)

lemma searched_trans:
  assumes "searched real good n es r s" and "searched real good n fs s t"
  shows "searched real good n (es @ fs) r t"
proof -
  obtain xs where xs: "list_all real xs" "subseq (map fst xs) (map pf_relative_path es)"
    "\<And>m. m \<in> set (tsr_matches s) \<Longrightarrow> m \<in> set (tsr_matches r) \<or> good m \<and> ptm_relative_path m \<in> fst ` set xs"
    "length (tsr_matches r) \<le> n \<longrightarrow> length (tsr_matches s) \<le> n"
    "unat (tsr_bytes_scanned s) = unat (tsr_bytes_scanned r) + scanned_bytes xs"
    "tsr_files_scanned s = u32_capped (unat (tsr_files_scanned r) + scanned_texts xs)"
    "\<not> over_search_limit (tsr_bytes_scanned r) \<longrightarrow> \<not> over_search_limit (tsr_bytes_scanned s)"
    using assms(1) unfolding searched_def by auto
  obtain ys where ys: "list_all real ys" "subseq (map fst ys) (map pf_relative_path fs)"
    "\<And>m. m \<in> set (tsr_matches t) \<Longrightarrow> m \<in> set (tsr_matches s) \<or> good m \<and> ptm_relative_path m \<in> fst ` set ys"
    "length (tsr_matches s) \<le> n \<longrightarrow> length (tsr_matches t) \<le> n"
    "unat (tsr_bytes_scanned t) = unat (tsr_bytes_scanned s) + scanned_bytes ys"
    "tsr_files_scanned t = u32_capped (unat (tsr_files_scanned s) + scanned_texts ys)"
    "\<not> over_search_limit (tsr_bytes_scanned s) \<longrightarrow> \<not> over_search_limit (tsr_bytes_scanned t)"
    using assms(2) unfolding searched_def by auto
  have "u32_capped (min a (2 ^ 32 - 1) + b) = u32_capped (a + b)" for a b
    by (simp add: u32_capped_def min_def)
  then have "tsr_files_scanned t = u32_capped (unat (tsr_files_scanned r) + scanned_texts (xs @ ys))"
    using ys(6) xs(6) by (simp add: u32_capped_unat scanned_append add.assoc)
  moreover have "subseq (map fst (xs @ ys)) (map pf_relative_path (es @ fs))"
    using xs(2) ys(2) by (simp add: list_emb_append_mono)
  moreover have "m \<in> set (tsr_matches r) \<or> good m \<and> ptm_relative_path m \<in> fst ` set (xs @ ys)"
    if "m \<in> set (tsr_matches t)" for m using xs(3) [of m] ys(3) [OF that] by auto
  ultimately show ?thesis unfolding searched_def
    using xs(1,4,5,7) ys(1,4,5,7) by (intro exI [of _ "xs @ ys"]) (simp add: scanned_append)
qed

lemma reading_read_file:
  assumes quiet: "quiet_os os"
  shows "reading (workspace_read_file U os R project relative max_bytes) st
    (\<lambda>bytes. length bytes \<le> max_bytes \<and> (\<exists>d name i reg. target_of U os R project relative st d name
       \<and> dir_entry st d name = Some i \<and> st i = Some (RegularInode reg) \<and> bytes = rg_bytes reg))"
proof (cases "max_bytes = 0 \<or> max_bytes > MAX_FILE_READ_BYTES")
  case False
  have inner: "reading (case p of (d, name) \<Rightarrow> sbind (inspect_existing_read_target os d name)
      (\<lambda>expected. if unat (fs_len expected) > max_bytes then wfail ''file_read_too_large''
         else read_verified_regular_at os d name expected max_bytes ''file_changed_during_open'')) st
    (\<lambda>bytes. length bytes \<le> max_bytes \<and> (\<exists>d name i reg. target_of U os R project relative st d name
       \<and> dir_entry st d name = Some i \<and> st i = Some (RegularInode reg) \<and> bytes = rg_bytes reg))"
    if "case p of (d, name) \<Rightarrow> target_of U os R project relative st d name \<and> is_directory st d" for p
  proof (cases p)
    case (Pair d name)
    have "reading (read_verified_regular_at os d name expected max_bytes ''file_changed_during_open'') st
      (\<lambda>bytes. length bytes \<le> max_bytes \<and> (\<exists>d name i reg. target_of U os R project relative st d name
         \<and> dir_entry st d name = Some i \<and> st i = Some (RegularInode reg) \<and> bytes = rg_bytes reg))" for expected
      by (rule reading_mono [OF reading_read_verified [OF quiet]]) (use that Pair in blast)
    then show ?thesis
      unfolding Pair split by (intro reading_bind [OF reading_inspect_existing [OF quiet]]) simp
  qed
  show ?thesis
    unfolding workspace_read_file_def if_not_P [OF False]
    by (rule reading_bind [where R = "\<lambda>names. validate_relative_path relative = Inr names"], simp)
      (rule reading_bind [OF reading_open_parent [OF quiet]], assumption, rule inner)
qed (simp add: workspace_read_file_def)

text \<open>The match is in a file of the project, as the store has it.\<close>

definition true_match :: "uuid_text \<Rightarrow> os \<Rightarrow> local_runtime \<Rightarrow> project_ref \<Rightarrow> rstring \<Rightarrow> store \<Rightarrow> project_text_match \<Rightarrow> bool" where
  "true_match U os R project needle st m \<longleftrightarrow>
     (\<exists>d name i reg content. target_of U os R project (Utf8Path (ptm_relative_path m)) st d name
        \<and> dir_entry st d name = Some i \<and> st i = Some (RegularInode reg)
        \<and> from_utf8 (rg_bytes reg) = Some content \<and> match_at content needle m)"

definition project_file :: "uuid_text \<Rightarrow> os \<Rightarrow> local_runtime \<Rightarrow> project_ref \<Rightarrow> store \<Rightarrow> scan \<Rightarrow> bool" where
  "project_file U os R project st x \<longleftrightarrow>
     (\<exists>d name i reg. target_of U os R project (Utf8Path (fst x)) st d name
        \<and> dir_entry st d name = Some i \<and> st i = Some (RegularInode reg) \<and> snd x = rg_bytes reg)"

lemma u64_sat_add_exact:
  assumes "\<not> over_search_limit (u64_sat_add a b)"
  shows "unat (u64_sat_add a b) = unat a + unat b"
proof -
  have "unat (u64_sat_add a b) = min (unat a + unat b) (2 ^ 64 - 1)"
    by (simp add: u64_sat_add_def unsigned_of_nat take_bit_nat_eq_self)
  then show ?thesis using assms by (simp add: over_search_limit_def MAX_PROJECT_SEARCH_TOTAL_BYTES_def min_def split: if_splits)
qed

lemma sat_succ_capped: "sat_succ w = u32_capped (unat w + 1)"
proof -
  have top: "unat (- 1 :: u32) = 2 ^ 32 - 1" by (simp add: unsigned_minus_1_eq_mask mask_eq_exp_minus_1)
  show ?thesis
  proof (cases "w = - 1")
    case True
    then show ?thesis using u32_capped_self [of "- 1"] top by (simp add: sat_succ_def u32_capped_def)
  next
    case False
    then have "unat w < 2 ^ 32 - 1"
      using unsigned_less [of w, where 'a = nat] word_unat_eq_iff [of w "- 1"] top by simp
    then show ?thesis using False by (simp add: sat_succ_def u32_capped_def)
  qed
qed

text \<open>One scanned file.\<close>

lemma searched_file:
  assumes real: "real (path, bytes)" and path: "pf_relative_path e = path" and small: "length bytes < 2 ^ 64"
    and room: "\<not> over_search_limit (u64_sat_add (tsr_bytes_scanned r) (of_nat (length bytes)))"
    and matches: "\<forall>m \<in> set (tsr_matches r'). m \<in> set (tsr_matches r) \<or> good m \<and> ptm_relative_path m = path"
    and len: "length (tsr_matches r) \<le> n \<longrightarrow> length (tsr_matches r') \<le> n"
    and counted: "tsr_bytes_scanned r' = u64_sat_add (tsr_bytes_scanned r) (of_nat (length bytes))"
      "tsr_files_scanned r' = (if from_utf8 bytes = None then tsr_files_scanned r else sat_succ (tsr_files_scanned r))"
  shows "searched real good n [e] r r'"
proof -
  have "unat (of_nat (length bytes) :: u64) = length bytes" using small by (simp add: unsigned_of_nat take_bit_nat_eq_self)
  then have "unat (tsr_bytes_scanned r') = unat (tsr_bytes_scanned r) + length bytes"
    using u64_sat_add_exact [OF room] counted(1) by simp
  then show ?thesis
    unfolding searched_def
    using real path matches len counted(2) room counted(1)
    by (intro exI [of _ "[(path, bytes)]"])
       (auto simp: scanned_bytes_def scanned_texts_def sat_succ_capped u32_capped_self)
qed

lemma reading_search_files:
  assumes quiet: "quiet_os os"
  shows "reading (search_files U os R project needle n es r) st
    (searched (project_file U os R project st) (true_match U os R project needle st) n es r)"
proof (induction es arbitrary: r)
  case Nil
  then show ?case by (simp add: searched_refl)
next
  case (Cons e es)
  let ?good = "true_match U os R project needle st" and ?real = "project_file U os R project st"
  have rest: "reading (search_files U os R project needle n es s) st (searched ?real ?good n (e # es) r)"
    if "searched ?real ?good n [e] r s" for s
    by (rule reading_mono [OF Cons.IH]) (use searched_trans [OF that] in force)
  have stop: "searched ?real ?good n (e # es) r s" if "searched ?real ?good n [e] r s" for s
    using searched_trans [OF that searched_refl [of s s _ _ _ es]] by simp
  have skip: "searched ?real ?good n [e] r (skip_file r)"
    and cut: "searched ?real ?good n (e # es) r (r\<lparr>tsr_truncated := True\<rparr>)"
    by (simp_all add: searched_refl skip_file_def)
  have found: "reading (let scanned = u64_sat_add (tsr_bytes_scanned r) (of_nat (length bytes)) in
           if over_search_limit scanned then sreturn (r\<lparr>tsr_truncated := True\<rparr>)
           else let r = r\<lparr>tsr_bytes_scanned := scanned\<rparr> in
           (case from_utf8 bytes of
              None \<Rightarrow> search_files U os R project needle n es (skip_file r)
            | Some text \<Rightarrow>
                (case add_matches (pf_relative_path e) text n (match_indices 0 text needle)
                    (r\<lparr>tsr_files_scanned := sat_succ (tsr_files_scanned r)\<rparr>) of
                   (full, r) \<Rightarrow>
                     if full then sreturn r
                     else search_files U os R project needle n es r))) st (searched ?real ?good n (e # es) r)"
    if bytes: "length bytes \<le> MAX_PROJECT_SEARCH_FILE_BYTES"
      and reg: "target_of U os R project (Utf8Path (pf_relative_path e)) st d name"
        "dir_entry st d name = Some i" "st i = Some (RegularInode reg)" "bytes = rg_bytes reg"
    for bytes d name i reg
  proof (cases "over_search_limit (u64_sat_add (tsr_bytes_scanned r) (of_nat (length bytes)))")
    case True
    then show ?thesis using cut by simp
  next
    case False
    let ?r = "r\<lparr>tsr_bytes_scanned := u64_sat_add (tsr_bytes_scanned r) (of_nat (length bytes))\<rparr>"
    have real: "?real (pf_relative_path e, bytes)" using reg unfolding project_file_def fst_conv snd_conv by blast
    have small: "length bytes < 2 ^ 64" using bytes by (simp add: MAX_PROJECT_SEARCH_FILE_BYTES_def)
    note scan = searched_file [where real = ?real and good = ?good and n = n, OF real refl small False]
    have "searched ?real ?good n [e] r (skip_file ?r)" if "from_utf8 bytes = None"
      by (rule scan) (simp_all add: skip_file_def that)
    moreover have "searched ?real ?good n [e] r r'"
      if content: "from_utf8 bytes = Some content"
        and added: "add_matches (pf_relative_path e) content n (match_indices 0 content needle)
          (?r\<lparr>tsr_files_scanned := sat_succ (tsr_files_scanned ?r)\<rparr>) = (full, r')" for content full r'
    proof -
      have "length content < 2 ^ 31"
        using from_utf8_length [OF content] bytes by (simp add: MAX_PROJECT_SEARCH_FILE_BYTES_def)
      then have "?good \<lparr>ptm_relative_path = pf_relative_path e, ptm_line = line, ptm_column = column,
            ptm_preview = preview\<rparr>"
        if "k \<in> set (match_indices 0 content needle)" "locate_text_match content k = (line, column, preview)"
        for k line column preview
      proof -
        have "starts_with (drop k content) needle" "k \<le> length content"
          using match_indices_occur [OF that(1)] by auto
        from locate_match [OF this \<open>length content < 2 ^ 31\<close> that(2)]
        have "match_at content needle \<lparr>ptm_relative_path = pf_relative_path e, ptm_line = line,
            ptm_column = column, ptm_preview = preview\<rparr>" .
        then show ?thesis unfolding true_match_def using reg content
          by (intro exI [of _ d] exI [of _ name] exI [of _ i] exI [of _ reg] exI [of _ content]) simp
      qed
      then have "added (\<lambda>m. ?good m \<and> ptm_relative_path m = pf_relative_path e) n
          (?r\<lparr>tsr_files_scanned := sat_succ (tsr_files_scanned ?r)\<rparr>) r'"
        by (intro add_matches_added [OF added]) simp
      then show ?thesis by (intro scan) (auto simp: added_def content)
    qed
    ultimately show ?thesis
      using False rest stop by (auto simp: Let_def split: option.split prod.split)
  qed
  have tried: "reading (stry (workspace_read_file U os R project (Utf8Path (pf_relative_path e))
             MAX_PROJECT_SEARCH_FILE_BYTES)
      (\<lambda>got. case got of
         Inl err \<Rightarrow> search_files U os R project needle n es (skip_file r)
       | Inr bytes \<Rightarrow>
           let scanned = u64_sat_add (tsr_bytes_scanned r) (of_nat (length bytes)) in
           if over_search_limit scanned then sreturn (r\<lparr>tsr_truncated := True\<rparr>)
           else let r = r\<lparr>tsr_bytes_scanned := scanned\<rparr> in
           (case from_utf8 bytes of
              None \<Rightarrow> search_files U os R project needle n es (skip_file r)
            | Some text \<Rightarrow>
                (case add_matches (pf_relative_path e) text n (match_indices 0 text needle)
                    (r\<lparr>tsr_files_scanned := sat_succ (tsr_files_scanned r)\<rparr>) of
                   (full, r) \<Rightarrow>
                     if full then sreturn r
                     else search_files U os R project needle n es r)))) st (searched ?real ?good n (e # es) r)"
  proof (rule reading_try [OF reading_read_file [OF quiet]], goal_cases)
    case 1
    then show ?case using rest [OF skip] by simp
  next
    case (2 bytes)
    then show ?case unfolding sum.case using found by blast
  qed
  show ?case
    using tried rest [OF skip] cut
    by (cases "unat (pf_size_bytes e) > MAX_PROJECT_SEARCH_FILE_BYTES";
        cases "over_search_limit (u64_sat_add (tsr_bytes_scanned r) (pf_size_bytes e))") simp_all
qed

end
