(* ===== verification/Workspace_Guarantees.thy ===== *)
theory Workspace_Guarantees
  imports Workspace_Search
begin

text \<open>
  What the local workspace promises: a write or a patch is all or nothing whichever system call fails, a
  listing is exact when it says that nothing was left out, and every search match is where it says. Each
  promise comes with an instance on a concrete store.
\<close>

section \<open>Properties\<close>

text \<open>C14: Atomic writes are all or nothing. As long as nobody else changes the store, and whichever system
  call fails, \<open>atomic_write_file\<close> leaves the store as it was, or leaves the target's directory with at
  most a temporary file more and every old inode untouched, or the name leads to a new inode with
  exactly the given bytes, every other entry as before and the bytes of the replaced inode untouched. A
  success is always the last, an error is never reported for a file that is half written, and the
  directory is the one the managed project root and the validated path lead to without a link.\<close>

theorem atomic_write_all_or_nothing:
  assumes "quiet_os os" and "closed_store (mc_store m)"
    and "workspace_atomic_write_file U os R project relative contents m = (r, t)"
  shows "r \<noteq> Inr () \<and> mc_store t = mc_store m \<or>
    (\<exists>d name. target_of U os R project relative (mc_store m) d name
       \<and> (r \<noteq> Inr () \<and> old_kept (mc_store m) d (mc_store t)
          \<or> installed (mc_store m) d name contents (mc_store t)))"
proof -
  let ?st = "mc_store m"
  let ?P = "\<lambda>r s. r \<noteq> Inr () \<and> s = ?st \<or> (\<exists>d name. target_of U os R project relative ?st d name
      \<and> (r \<noteq> Inr () \<and> old_kept ?st d s \<or> installed ?st d name contents s))"
  have "swp (workspace_atomic_write_file U os R project relative contents) ?P ?st"
  proof (cases "length contents > MAX_FILE_WRITE_BYTES")
    case False
    show ?thesis
      unfolding workspace_atomic_write_file_def if_not_P [OF False]
    proof (rule swp_read [where R = "\<lambda>names. validate_relative_path relative = Inr names"], goal_cases)
      case (3 names)
      show ?case
      proof (rule swp_read [OF reading_open_parent [OF assms(1) 3]], goal_cases)
        case (2 parent)
        obtain d name where parent: "parent = (d, name)" by (cases parent)
        then have target: "target_of U os R project relative ?st d name" "is_directory ?st d"
          using 2 by simp_all
        have "swp (replace_file U os atomic_write_codes d name mode contents (sreturn ())) ?P ?st" for mode
          by (rule swp_mono [OF replace_file_swp [OF assms(1,2) target(2) target_plain [OF target(1)]]])
            (use target(1) in \<open>auto simp del: split_paired_Ex\<close>)
        then show ?case
          unfolding parent split by (intro swp_read [OF reading_inspect_write [OF assms(1)]]) auto
      qed simp
    qed simp_all
  qed (simp add: workspace_atomic_write_file_def)
  from swpD [OF this assms(3)] show ?thesis .
qed

text \<open>C15: A patch is exact and all or nothing. A success means that the target was a single-link UTF-8 file,
  that every hunk replaced the only occurrence of its expected text in the text left by the hunks
  before it, that the reported sizes are those of the two texts, and that the file now holds exactly
  the patched text; an error leaves the old file, or, after the new one is in place, the complete new
  one.\<close>

theorem patch_all_or_nothing:
  assumes "quiet_os os" and "closed_store (mc_store m)"
    and "workspace_apply_text_patch U os R project relative hunks m = (r, t)"
  shows "r \<notin> range Inr \<and> mc_store t = mc_store m \<or>
    (\<exists>d name. target_of U os R project relative (mc_store m) d name
       \<and> patch_outcome (map (\<lambda>h. (th_expected h, th_replacement h)) hunks) (mc_store m) d name r (mc_store t))"
proof (cases "hunks = [] \<or> length hunks > MAX_TEXT_PATCH_HUNKS")
  case True
  then show ?thesis
    using assms(3) by (auto simp: workspace_apply_text_patch_def wfail_def sfail_def)
next
  case False
  from swpD [OF patch_swp [OF assms(1,2)] assms(3) [unfolded workspace_apply_text_patch_def if_not_P [OF False]]]
  show ?thesis .
qed

text \<open>The files below a directory with a single link, as a listing describes them, and what a walk from the
  project root has collected of them.\<close>

definition listable :: "store \<Rightarrow> inode_id \<Rightarrow> project_file_entry set" where
  "listable st root = {file_entry (foldl relative_name [] names) reg | names reg.
     file_below st root names reg \<and> rg_nlink reg = 1}"

lemma walked_listing:
  assumes "walked st root [] (\<lambda>_. True) \<lparr>ws_files = [], ws_skipped = 0, ws_entries_seen = 0,
    ws_truncated = False, ws_max_files = n\<rparr> w"
  shows "length (ws_files w) \<le> n" and "set (ws_files w) \<subseteq> listable st root"
    and "\<not> ws_truncated w \<and> ws_skipped w = 0 \<longrightarrow> set (ws_files w) = listable st root
      \<and> (\<forall>names reg. file_below st root names reg \<longrightarrow> rg_nlink reg = 1)"
proof -
  show "length (ws_files w) \<le> n" using walked_keeps(5) [OF assms] by simp
  show sound: "set (ws_files w) \<subseteq> listable st root"
  proof
    fix e
    assume "e \<in> set (ws_files w)"
    from walked_new [OF assms this] show "e \<in> listable st root" unfolding listable_def by fastforce
  qed
  show "\<not> ws_truncated w \<and> ws_skipped w = 0 \<longrightarrow> set (ws_files w) = listable st root
      \<and> (\<forall>names reg. file_below st root names reg \<longrightarrow> rg_nlink reg = 1)"
  proof (intro impI, elim conjE)
    assume "\<not> ws_truncated w" "ws_skipped w = 0"
    note all = walked_all [OF assms this]
    have "listable st root \<subseteq> set (ws_files w)" using all unfolding listable_def by blast
    with sound all show "set (ws_files w) = listable st root
      \<and> (\<forall>names reg. file_below st root names reg \<longrightarrow> rg_nlink reg = 1)" by blast
  qed
qed

text \<open>C16: A complete listing is exact. Listing changes nothing; it returns at most the asked number of
  entries, in the byte order of their paths; every entry is a regular file with a single link, reached
  from the managed project root through directories only, with its size and execute bit; and when nothing
  was skipped and nothing cut off, every file below the root has a single link and is in the list,
  whichever calls failed.\<close>

theorem listing_exact:
  assumes "quiet_os os" and "full_listing os"
    and "workspace_list_project_files U os R project max_entries m = (Inr l, t)"
  shows "mc_store t = mc_store m \<and> length (fl_files l) \<le> max_entries
    \<and> sorted (map (\<lambda>e. as_bytes (pf_relative_path e)) (fl_files l))
    \<and> (\<exists>root. managed_root U os R project (mc_store m) root
       \<and> set (fl_files l) \<subseteq> listable (mc_store m) root
       \<and> (\<not> fl_truncated l \<and> fl_skipped_entries l = 0 \<longrightarrow> set (fl_files l) = listable (mc_store m) root
            \<and> (\<forall>names reg. file_below (mc_store m) root names reg \<longrightarrow> rg_nlink reg = 1)))"
    (is "_ \<and> ?R l")
proof -
  have limit: "\<not> (max_entries = 0 \<or> max_entries > MAX_PROJECT_LIST_ENTRIES)"
    using assms(3) by (auto simp: workspace_list_project_files_def wfail_def sfail_def split: if_splits)
  have listed: "?R \<lparr>fl_files = sort_key (\<lambda>e. as_bytes (pf_relative_path e)) (ws_files w),
      fl_skipped_entries = ws_skipped w, fl_truncated = ws_truncated w\<rparr>"
    if "managed_root U os R project (mc_store m) root"
      and "walked (mc_store m) root [] (\<lambda>_. True) \<lparr>ws_files = [], ws_skipped = 0, ws_entries_seen = 0,
        ws_truncated = False, ws_max_files = max_entries\<rparr> w" for root w
    using that(1) walked_listing [OF that(2)] by (auto intro!: exI [of _ root] simp del: split_paired_Ex)
  have "reading (workspace_list_project_files U os R project max_entries) (mc_store m) ?R"
    unfolding workspace_list_project_files_def if_not_P [OF limit]
    by (rule reading_bind [OF reading_open_project_root [OF assms(1)]],
        rule reading_bind [OF reading_walk [OF assms(1,2)]], unfold reading_simps, rule listed) blast+
  from swpD [OF this [unfolded reading_def] assms(3)] show ?thesis by simp
qed

text \<open>C17: Search matches are where they say, and what is scanned is bounded. Searching changes nothing and
  returns at most the asked number of matches. The reported counters are those of the files scanned: files
  of the project, reached from the managed root without following a link, whose bytes add up to exactly
  the reported total, never more than the limit, and whose number, of those that are UTF-8 text, is the
  reported one. Every match is in a scanned file, where the needle stands at the reported one-based line
  and column; the preview is the bounded start of that line without control characters.\<close>

theorem search_matches_true:
  assumes "quiet_os os" and "full_listing os"
    and "workspace_search_project_text U os R project needle max_matches m = (Inr res, t)"
  shows "mc_store t = mc_store m \<and> length (tsr_matches res) \<le> max_matches
    \<and> (\<exists>scans. list_all (project_file U os R project (mc_store m)) scans
         \<and> unat (tsr_bytes_scanned res) = scanned_bytes scans \<and> scanned_bytes scans \<le> MAX_PROJECT_SEARCH_TOTAL_BYTES
         \<and> tsr_files_scanned res = u32_capped (scanned_texts scans)
         \<and> (\<forall>x \<in> set (tsr_matches res). true_match U os R project needle (mc_store m) x
              \<and> ptm_relative_path x \<in> fst ` set scans))"
proof -
  let ?st = "mc_store m"
  let ?R = "\<lambda>res. length (tsr_matches res) \<le> max_matches \<and> \<not> over_search_limit (tsr_bytes_scanned res)
    \<and> (\<exists>scans. list_all (project_file U os R project ?st) scans
         \<and> unat (tsr_bytes_scanned res) = scanned_bytes scans
         \<and> tsr_files_scanned res = u32_capped (scanned_texts scans)
         \<and> (\<forall>x \<in> set (tsr_matches res). true_match U os R project needle ?st x
              \<and> ptm_relative_path x \<in> fst ` set scans))"
  have start: "?R res" if "searched (project_file U os R project ?st) (true_match U os R project needle ?st)
      max_matches es \<lparr>tsr_matches = [], tsr_files_scanned = 0, tsr_files_skipped = k, tsr_bytes_scanned = 0,
        tsr_truncated = b\<rparr> res" for es k b res
    using that unfolding searched_def by (auto simp: over_search_limit_def)
  have "reading (workspace_list_project_files U os R project MAX_PROJECT_SEARCH_FILES) ?st (\<lambda>_. True)"
    unfolding workspace_list_project_files_def
    by (auto intro!: reading_bind [OF reading_open_project_root [OF assms(1)]]
        reading_bind [OF reading_walk [OF assms(1,2)]])
  then have "reading (workspace_search_project_text U os R project needle max_matches) ?st ?R"
    unfolding workspace_search_project_text_def
    by (auto intro!: reading_bind [where R = "\<lambda>_. True"] reading_mono [OF reading_search_files [OF assms(1)]]
        start simp del: split_paired_Ex)
  from swpD [OF this [unfolded reading_def] assms(3)] show ?thesis
    by (auto simp: over_search_limit_def)
qed

section \<open>Concrete instances\<close>

definition demo_store :: store where
  "demo_store = map_of
     [((1, 1), DirectoryInode 0x1C0 [(Utf8Path PRODUCT_ROOT_NAME, (1, 2))]),
      ((1, 2), DirectoryInode 0x1C0 [(Utf8Path PROJECTS_ROOT_NAME, (1, 3))]),
      ((1, 3), DirectoryInode 0x1C0 [(Utf8Path [7], (1, 4))]),
      ((1, 4), DirectoryInode 0x1C0 [(Utf8Path (lit ''src''), (1, 5))]),
      ((1, 5), DirectoryInode 0x1C0 [(Utf8Path (lit ''a.txt''), (1, 6))]),
      ((1, 6), RegularInode \<lparr>rg_mode = 0x1A4, rg_nlink = 1, rg_bytes = as_bytes (lit ''one two'')\<rparr>)]"

definition demo_runtime :: local_runtime where
  "demo_runtime =
     \<lparr>lr_app_private_root = Utf8Path (lit ''/app''),
      lr_projects_root = Utf8Path (lit ''/app/vibecoder/projects'')\<rparr>"

definition demo_workspace_project :: project_ref where
  "demo_workspace_project =
     \<lparr>pr_id = demo_project, pr_root = Utf8Path (lit ''/app/vibecoder/projects/'' @ [7])\<rparr>"

definition demo_resolve :: "nat \<Rightarrow> path \<Rightarrow> inode_id option" where
  "demo_resolve k p =
     (if p = lr_app_private_root demo_runtime then Some (1, 1)
      else if p = pr_root demo_workspace_project then Some (1, 4) else None)"

definition demo_os :: os where
  "demo_os =
     \<lparr>os_others = \<lambda>k st. st, os_error = \<lambda>k. None, os_inode = \<lambda>k. (1, 100), os_order = \<lambda>k ps. ps,
      os_data = \<lambda>k bytes. bytes, os_written = \<lambda>k. 0, os_partial = \<lambda>k st. st, os_resolve = demo_resolve,
      os_follow = demo_resolve, os_canonical = \<lambda>k p. p, os_uuid = \<lambda>k. 9\<rparr>"

definition demo_machine :: machine where
  "demo_machine = \<lparr>mc_calls = 0, mc_store = demo_store\<rparr>"

definition demo_path :: path where "demo_path = Utf8Path (lit ''src/a.txt'')"

definition demo_patch :: "text_patch_hunk list" where
  "demo_patch =
     [\<lparr>th_expected = lit ''one'', th_replacement = lit ''two''\<rparr>,
      \<lparr>th_expected = lit ''two two'', th_replacement = lit ''2''\<rparr>]"

lemma demo_quiet: "quiet_os demo_os" "full_listing demo_os"
  by (simp_all add: quiet_os_def full_listing_def demo_os_def)

lemma demo_closed: "closed_store (mc_store demo_machine)"
  unfolding closed_store_def demo_machine_def demo_store_def dir_entry_def dir_entries_def
  by (auto split: if_splits)

lemma demo_write: "fst (workspace_atomic_write_file demo_uuid_text demo_os demo_runtime
    demo_workspace_project demo_path [65, 66] demo_machine) = Inr ()"
  by code_simp

lemma demo_patched: "fst (workspace_apply_text_patch demo_uuid_text demo_os demo_runtime
    demo_workspace_project demo_path demo_patch demo_machine)
  = Inr \<lparr>tp_hunks_applied = 2, tp_bytes_before = 7, tp_bytes_after = 1\<rparr>"
  by code_simp

lemma demo_listed: "fst (workspace_list_project_files demo_uuid_text demo_os demo_runtime
    demo_workspace_project 8 demo_machine)
  = Inr \<lparr>fl_files = [\<lparr>pf_relative_path = lit ''src/a.txt'', pf_size_bytes = 7, pf_owner_executable = False\<rparr>],
         fl_skipped_entries = 0, fl_truncated = False\<rparr>"
  by code_simp

lemma demo_found: "fst (workspace_search_project_text demo_uuid_text demo_os demo_runtime
    demo_workspace_project (lit ''two'') 8 demo_machine)
  = Inr \<lparr>tsr_matches = [\<lparr>ptm_relative_path = lit ''src/a.txt'', ptm_line = 1, ptm_column = 5,
            ptm_preview = lit ''one two''\<rparr>],
         tsr_files_scanned = 1, tsr_files_skipped = 0, tsr_bytes_scanned = 7, tsr_truncated = False\<rparr>"
  by code_simp

theorem atomic_write_all_or_nothing_witness:
  "\<exists>t d name. workspace_atomic_write_file demo_uuid_text demo_os demo_runtime demo_workspace_project demo_path
      [65, 66] demo_machine = (Inr (), t)
    \<and> target_of demo_uuid_text demo_os demo_runtime demo_workspace_project demo_path demo_store d name
    \<and> installed demo_store d name [65, 66] (mc_store t)"
proof -
  obtain t where run: "workspace_atomic_write_file demo_uuid_text demo_os demo_runtime demo_workspace_project
      demo_path [65, 66] demo_machine = (Inr (), t)"
    using demo_write by (metis prod.collapse)
  from atomic_write_all_or_nothing [OF demo_quiet(1) demo_closed run] run
  show ?thesis by (auto simp: demo_machine_def simp del: split_paired_Ex)
qed

theorem patch_all_or_nothing_witness:
  "\<exists>t d name. workspace_apply_text_patch demo_uuid_text demo_os demo_runtime demo_workspace_project demo_path
      demo_patch demo_machine = (Inr \<lparr>tp_hunks_applied = 2, tp_bytes_before = 7, tp_bytes_after = 1\<rparr>, t)
    \<and> patch_outcome (map (\<lambda>h. (th_expected h, th_replacement h)) demo_patch) demo_store d name
        (Inr \<lparr>tp_hunks_applied = 2, tp_bytes_before = 7, tp_bytes_after = 1\<rparr>) (mc_store t)"
proof -
  obtain t where run: "workspace_apply_text_patch demo_uuid_text demo_os demo_runtime demo_workspace_project
      demo_path demo_patch demo_machine
      = (Inr \<lparr>tp_hunks_applied = 2, tp_bytes_before = 7, tp_bytes_after = 1\<rparr>, t)"
    using demo_patched by (metis prod.collapse)
  from patch_all_or_nothing [OF demo_quiet(1) demo_closed run] run
  show ?thesis by (auto simp: demo_machine_def simp del: split_paired_Ex)
qed

theorem listing_exact_witness:
  "\<exists>t root. workspace_list_project_files demo_uuid_text demo_os demo_runtime demo_workspace_project 8 demo_machine
      = (Inr \<lparr>fl_files = [\<lparr>pf_relative_path = lit ''src/a.txt'', pf_size_bytes = 7, pf_owner_executable = False\<rparr>],
           fl_skipped_entries = 0, fl_truncated = False\<rparr>, t)
    \<and> listable demo_store root = {\<lparr>pf_relative_path = lit ''src/a.txt'', pf_size_bytes = 7, pf_owner_executable = False\<rparr>}"
proof -
  obtain t where run: "workspace_list_project_files demo_uuid_text demo_os demo_runtime demo_workspace_project
      8 demo_machine
      = (Inr \<lparr>fl_files = [\<lparr>pf_relative_path = lit ''src/a.txt'', pf_size_bytes = 7, pf_owner_executable = False\<rparr>],
           fl_skipped_entries = 0, fl_truncated = False\<rparr>, t)"
    using demo_listed by (metis prod.collapse)
  from listing_exact [OF demo_quiet run] run
  show ?thesis by (auto simp: demo_machine_def Let_def simp del: split_paired_Ex)
qed

theorem search_matches_true_witness:
  "\<exists>res t. workspace_search_project_text demo_uuid_text demo_os demo_runtime demo_workspace_project (lit ''two'') 8
      demo_machine = (Inr res, t)
    \<and> true_match demo_uuid_text demo_os demo_runtime demo_workspace_project (lit ''two'') demo_store
        \<lparr>ptm_relative_path = lit ''src/a.txt'', ptm_line = 1, ptm_column = 5, ptm_preview = lit ''one two''\<rparr>"
proof -
  obtain res t where run: "workspace_search_project_text demo_uuid_text demo_os demo_runtime
      demo_workspace_project (lit ''two'') 8 demo_machine = (Inr res, t)"
    and res: "tsr_matches res = [\<lparr>ptm_relative_path = lit ''src/a.txt'', ptm_line = 1, ptm_column = 5,
            ptm_preview = lit ''one two''\<rparr>]"
    using demo_found
    by (cases "workspace_search_project_text demo_uuid_text demo_os demo_runtime
      demo_workspace_project (lit ''two'') 8 demo_machine") auto
  from search_matches_true [OF demo_quiet run] res
  have "true_match demo_uuid_text demo_os demo_runtime demo_workspace_project (lit ''two'') demo_store
      \<lparr>ptm_relative_path = lit ''src/a.txt'', ptm_line = 1, ptm_column = 5, ptm_preview = lit ''one two''\<rparr>"
    by (auto simp: demo_machine_def)
  with run show ?thesis by blast
qed

end
