(* ===== verification/Jcode_Config.thy ===== *)
theory Jcode_Config
  imports Domain
begin

text \<open>
  Connection options and failures of the Jcode adapter: \<open>config.rs\<close> and \<open>error.rs\<close> of
  \<open>crates/vibecoder-agent-jcode\<close>. An error of the SDK is its kind together with the code the SDK prints
  for it; no other text of the SDK reaches the application.
\<close>

section \<open>Configuration\<close>

definition VIBECODER_OMNIROUTE_JCODE_API_BASE :: rstring where
  "VIBECODER_OMNIROUTE_JCODE_API_BASE = lit ''http://127.0.0.1:20128/v1''"
definition VIBECODER_OMNIROUTE_JCODE_GATEWAY_ID :: rstring where
  "VIBECODER_OMNIROUTE_JCODE_GATEWAY_ID = lit ''omniroute''"
definition VIBECODER_OMNIROUTE_JCODE_TRANSPORT_PROVIDER :: rstring where
  "VIBECODER_OMNIROUTE_JCODE_TRANSPORT_PROVIDER = lit ''OpenAI-compatible''"
definition VIBECODER_BRIDGED_MAX_TOOL_CALLS_PER_TURN :: u32 where
  "VIBECODER_BRIDGED_MAX_TOOL_CALLS_PER_TURN = 32"
definition VIBECODER_BRIDGED_FILE_TOOLS :: "rstring list" where
  "VIBECODER_BRIDGED_FILE_TOOLS =
     map lit [''read'', ''write'', ''edit'', ''multiedit'', ''apply_patch'', ''patch'', ''agentgrep'', ''ls'']"
definition DEFAULT_REQUEST_TIMEOUT_MS :: u64 where "DEFAULT_REQUEST_TIMEOUT_MS = 30000"
definition DEFAULT_STARTUP_TIMEOUT_MS :: u64 where "DEFAULT_STARTUP_TIMEOUT_MS = 30000"
definition DEFAULT_CLEANUP_TIMEOUT_MS :: u64 where "DEFAULT_CLEANUP_TIMEOUT_MS = 30000"
definition JCODE_MAX_TIMEOUT_MS :: u64 where "JCODE_MAX_TIMEOUT_MS = 10 * 60 * 1000"

datatype jcode_connection_mode =
    SharedRuntime "path option" bool
  | PrivateRuntime "path option" "path option" bool u64 u64

definition jcode_connection_mode_default :: jcode_connection_mode where
  "jcode_connection_mode_default =
     PrivateRuntime None None False DEFAULT_STARTUP_TIMEOUT_MS DEFAULT_CLEANUP_TIMEOUT_MS"

datatype jcode_model_gateway_bridge = VibeCoderOmniRouteLoopbackV1

primrec bridge_gateway_id :: "jcode_model_gateway_bridge \<Rightarrow> rstring" where
  "bridge_gateway_id VibeCoderOmniRouteLoopbackV1 = VIBECODER_OMNIROUTE_JCODE_GATEWAY_ID"
primrec bridge_api_base :: "jcode_model_gateway_bridge \<Rightarrow> rstring" where
  "bridge_api_base VibeCoderOmniRouteLoopbackV1 = VIBECODER_OMNIROUTE_JCODE_API_BASE"
primrec bridge_transport_provider :: "jcode_model_gateway_bridge \<Rightarrow> rstring" where
  "bridge_transport_provider VibeCoderOmniRouteLoopbackV1 = VIBECODER_OMNIROUTE_JCODE_TRANSPORT_PROVIDER"

record jcode_connection_config =
  jn_client_name :: rstring
  jn_request_timeout_ms :: u64
  jn_connection :: jcode_connection_mode
  jn_model_gateway_bridge :: "jcode_model_gateway_bridge option"

definition path_is_empty :: "path \<Rightarrow> bool" where
  "path_is_empty p \<longleftrightarrow> path_units p = []"

definition validate_timeout :: "string \<Rightarrow> u64 \<Rightarrow> unit result" where
  "validate_timeout name value =
     (if value = 0 then Inl (InvalidRequest (name @ '' must be greater than zero''))
      else if value > JCODE_MAX_TIMEOUT_MS then Inl (InvalidRequest (name @ '' cannot exceed 600000 ms''))
      else Inr ())"

definition validate_connection_mode :: "jcode_connection_mode \<Rightarrow> unit result" where
  "validate_connection_mode mode =
     (case mode of
        SharedRuntime socket_path ensure_runtime \<Rightarrow>
          (case socket_path of
             None \<Rightarrow> Inr ()
           | Some p \<Rightarrow>
               if path_is_empty p then Inl (InvalidRequest ''Jcode socket_path cannot be empty'')
               else if ensure_runtime
               then Inl (InvalidRequest ''custom Jcode socket_path requires ensure_runtime=false'')
               else Inr ())
      | PrivateRuntime jcode_home binary inherit_logins startup_timeout_ms cleanup_timeout_ms \<Rightarrow>
          if (case jcode_home of None \<Rightarrow> False | Some p \<Rightarrow> path_is_empty p)
          then Inl (InvalidRequest ''Jcode jcode_home cannot be empty'')
          else if (case binary of None \<Rightarrow> False | Some p \<Rightarrow> path_is_empty p)
          then Inl (InvalidRequest ''Jcode binary path cannot be empty'')
          else rbind (validate_timeout ''startup_timeout_ms'' startup_timeout_ms)
            (\<lambda>_. validate_timeout ''cleanup_timeout_ms'' cleanup_timeout_ms))"

definition is_private_runtime :: "jcode_connection_mode \<Rightarrow> bool" where
  "is_private_runtime mode \<longleftrightarrow>
     (case mode of SharedRuntime socket_path ensure_runtime \<Rightarrow> False
      | PrivateRuntime jcode_home binary inherit_logins startup_timeout_ms cleanup_timeout_ms \<Rightarrow> True)"

definition jcode_connection_config_validate :: "jcode_connection_config \<Rightarrow> unit result" where
  "jcode_connection_config_validate c =
     (if trim (jn_client_name c) = [] then Inl (InvalidRequest ''Jcode client_name cannot be empty'')
      else if byte_len (trim (jn_client_name c)) > 128
      then Inl (InvalidRequest ''Jcode client_name cannot exceed 128 bytes'')
      else rbind (validate_timeout ''request_timeout_ms'' (jn_request_timeout_ms c))
      (\<lambda>_. if jn_model_gateway_bridge c \<noteq> None \<and> \<not> is_private_runtime (jn_connection c)
         then Inl (InvalidRequest ''Jcode model gateway bridge requires a private runtime'')
         else validate_connection_mode (jn_connection c)))"

definition model_gateway_transport_provider :: "jcode_connection_config \<Rightarrow> rstring option" where
  "model_gateway_transport_provider c = map_option bridge_transport_provider (jn_model_gateway_bridge c)"

text \<open>The environment a private runtime is launched with; later entries of the same name win.\<close>

definition model_gateway_bridge_launch_env :: "jcode_connection_config \<Rightarrow> (rstring \<times> rstring) list" where
  "model_gateway_bridge_launch_env c =
     (case jn_model_gateway_bridge c of
        None \<Rightarrow> []
      | Some bridge \<Rightarrow>
          (lit ''JCODE_OPENAI_COMPAT_API_BASE'', bridge_api_base bridge)
          # map (\<lambda>(k, v). (lit k, lit v))
            [(''JCODE_OPENAI_COMPAT_LOCAL_ENABLED'', ''1''), (''JCODE_OPENROUTER_ALLOW_NO_AUTH'', ''1''),
             (''JCODE_RUNTIME_PROVIDER'', ''openai-compatible''), (''JCODE_INITIAL_PROVIDER_EXPLICIT'', ''1''),
             (''JCODE_OPENROUTER_NO_FALLBACK'', ''1''), (''JCODE_AUTO_POKE'', ''off''),
             (''JCODE_RUN_AUTO_POKE'', ''0''), (''JCODE_AUTOREVIEW_ENABLED'', ''false''),
             (''JCODE_AUTOJUDGE_ENABLED'', ''false''), (''JCODE_TOOL_PROFILE'', ''minimal''),
             (''JCODE_DISABLED_TOOLS'', ''bash''), (''JCODE_NO_TELEMETRY'', ''1''),
             (''NO_PROXY'', ''127.0.0.1,localhost''), (''no_proxy'', ''127.0.0.1,localhost'')])"

section \<open>Failures\<close>

datatype harness_code = UnsupportedVersion | UnknownSession | HarnessInvalidRequest | OtherHarnessCode

datatype sdk_error_kind =
    ConnectFailed | HandshakeFailed | RequestTimeout | SdkDisconnected | UnexpectedReply | TransportFailed
  | LaunchFailed | JcodeNotFound | StartupFailed | StartupTimeout | InvalidInstanceHome | InvalidOption
  | UnsupportedTransport | EventBufferOverflow | Harness harness_code

record sdk_error =
  se_kind :: sdk_error_kind
  se_code :: string

datatype jcode_failure_class =
    RetryableTransport | RuntimeUnavailable | ProtocolMismatch | InvalidConfiguration | RemoteFailure
  | FatalTransport

record jcode_connection_failure =
  jf_code :: string
  jf_message :: string
  jf_class :: jcode_failure_class
  jf_retryable :: bool

definition classify :: "sdk_error_kind \<Rightarrow> jcode_failure_class" where
  "classify kind =
     (if kind \<in> {ConnectFailed, RequestTimeout, SdkDisconnected, TransportFailed} then RetryableTransport
      else if kind \<in> {LaunchFailed, JcodeNotFound, StartupFailed, StartupTimeout} then RuntimeUnavailable
      else if kind \<in> {HandshakeFailed, Harness UnsupportedVersion} then ProtocolMismatch
      else if kind \<in> {InvalidInstanceHome, InvalidOption} then InvalidConfiguration
      else if kind \<in> {UnsupportedTransport, EventBufferOverflow} then FatalTransport
      else RemoteFailure)"

definition is_retryable :: "sdk_error_kind \<Rightarrow> bool" where
  "is_retryable kind \<longleftrightarrow>
     kind \<in> {ConnectFailed, RequestTimeout, SdkDisconnected, TransportFailed, LaunchFailed, StartupFailed,
       StartupTimeout}"

primrec safe_message :: "sdk_error_kind \<Rightarrow> string" where
  "safe_message ConnectFailed = ''Could not connect to the Jcode harness''"
| "safe_message HandshakeFailed = ''Jcode harness handshake failed''"
| "safe_message RequestTimeout = ''Jcode harness request timed out''"
| "safe_message SdkDisconnected = ''Jcode harness connection closed''"
| "safe_message UnexpectedReply = ''Jcode harness returned an unexpected reply''"
| "safe_message TransportFailed = ''Jcode harness transport failed''"
| "safe_message LaunchFailed = ''Jcode runtime could not be launched''"
| "safe_message JcodeNotFound = ''Jcode runtime executable is unavailable''"
| "safe_message StartupFailed = ''Jcode runtime exited during startup''"
| "safe_message StartupTimeout = ''Jcode runtime did not become ready in time''"
| "safe_message InvalidInstanceHome = ''Jcode runtime state directory is invalid''"
| "safe_message InvalidOption = ''Jcode runtime configuration is invalid''"
| "safe_message UnsupportedTransport = ''Jcode transport does not support this operation''"
| "safe_message EventBufferOverflow = ''Jcode event consumer exceeded its buffer''"
| "safe_message (Harness c) =
     (if c = UnsupportedVersion then ''Jcode harness protocol version is incompatible''
      else ''Jcode harness rejected the operation'')"

definition from_sdk :: "sdk_error \<Rightarrow> jcode_connection_failure" where
  "from_sdk e =
     \<lparr>jf_code = se_code e, jf_message = safe_message (se_kind e), jf_class = classify (se_kind e),
      jf_retryable = is_retryable (se_kind e)\<rparr>"

definition into_domain_error :: "jcode_connection_failure \<Rightarrow> vibecoder_error" where
  "into_domain_error f = Agent (jf_code f @ '': '' @ jf_message f)"

definition map_operation_error :: "string \<Rightarrow> sdk_error \<Rightarrow> vibecoder_error" where
  "map_operation_error operation e =
     (if se_kind e = Harness UnknownSession
      then InvalidRequest (operation @ '': Jcode session does not exist ('' @ se_code e @ '')'')
      else if se_kind e \<in> {Harness HarnessInvalidRequest, InvalidOption}
      then InvalidRequest (operation @ '': Jcode rejected the request ('' @ se_code e @ '')'')
      else Agent (operation @ '': '' @ safe_message (se_kind e) @ '' ('' @ se_code e @ '')''))"

end
