(* ===== verification/Agent_Permission.thy ===== *)
theory Agent_Permission
  imports Domain
begin

text \<open>
  The permission broker of \<open>crates/vibecoder-agent-jcode/src/permission.rs\<close>: prompts the running agent
  raises, the user's answers, and the grants an \<open>AllowSession\<close> answer leaves behind.

  The mutex-protected \<open>PermissionState\<close> is a record threaded through the operations. The \<open>HashMap\<close> of
  pending prompts is an association list with distinct keys and the two \<open>HashSet\<close>s are lists without
  duplicates, so that their \<open>len()\<close> is the length of the list. \<open>ps_poisoned\<close> is the poison flag of the
  mutex; \<open>abort_response\<close> and \<open>finish_turn\<close> do nothing on a poisoned lock.

  A driver may call the operations in any order (\<open>perm_call\<close>, \<open>perm_calls\<close>): the theorems speak about
  every sequence of calls from the empty broker.
\<close>

section \<open>Model\<close>

definition MAX_REQUEST_ID_BYTES :: nat where "MAX_REQUEST_ID_BYTES = 256"
definition MAX_ACTION_BYTES :: nat where "MAX_ACTION_BYTES = 256"
definition MAX_DESCRIPTION_BYTES :: nat where "MAX_DESCRIPTION_BYTES = 16 * 1024"
definition MAX_PERMISSION_REQUESTS_PER_TURN :: nat where "MAX_PERMISSION_REQUESTS_PER_TURN = 256"

record permission_identity =
  pi_session_id :: rstring
  pi_request_id :: rstring
  pi_connection_generation :: u64

record session_grant_key =
  gk_session_id :: rstring
  gk_action :: rstring
  gk_description :: rstring

record pending_permission =
  pp_request :: permission_request
  pp_connection_generation :: u64
  pp_scope_key :: session_grant_key
  pp_responding :: bool

definition sid_text :: "session_id \<Rightarrow> rstring" where
  "sid_text sid = (case sid of SessionId value \<Rightarrow> value)"

definition identity :: "pending_permission \<Rightarrow> permission_identity" where
  "identity p =
     \<lparr>pi_session_id = sid_text (pq_session_id (pp_request p)),
      pi_request_id = pq_request_id (pp_request p),
      pi_connection_generation = pp_connection_generation p\<rparr>"

datatype permission_observation = Prompt permission_request | AutoApprove pending_permission

record permission_state =
  ps_pending :: "(rstring \<times> pending_permission) list"
  ps_resolved_this_turn :: "permission_identity list"
  ps_session_grants :: "session_grant_key list"
  ps_poisoned :: bool

definition permission_registry_new :: permission_state where
  "permission_registry_new =
     \<lparr>ps_pending = [], ps_resolved_this_turn = [], ps_session_grants = [], ps_poisoned = False\<rparr>"

definition permission_lock :: "permission_state \<Rightarrow> unit result" where
  "permission_lock s =
     (if ps_poisoned s then Inl (Agent ''Jcode permission broker lock poisoned'') else Inr ())"

definition request_id_is_safe_for_response :: "rstring \<Rightarrow> bool" where
  "request_id_is_safe_for_response value \<longleftrightarrow>
     trim value \<noteq> [] \<and> byte_len value \<le> MAX_REQUEST_ID_BYTES \<and> \<not> list_ex is_control value"

definition validate_permission_request_id :: "rstring \<Rightarrow> unit result" where
  "validate_permission_request_id value =
     (if \<not> request_id_is_safe_for_response value
      then Inl (InvalidRequest ''permission request id has an invalid format'') else Inr ())"

definition validate_action :: "rstring \<Rightarrow> unit result" where
  "validate_action value =
     (if trim value = [] \<or> byte_len value > MAX_ACTION_BYTES \<or> list_ex is_control value
      then Inl (Agent ''Jcode permission request reported an invalid action'') else Inr ())"

definition validate_description :: "rstring \<Rightarrow> unit result" where
  "validate_description value =
     (if byte_len value > MAX_DESCRIPTION_BYTES
         \<or> list_ex (\<lambda>ch. is_control ch \<and> ch \<notin> {10, 13, 9}) value
      then Inl (Agent ''Jcode permission request description is invalid or too large'')
      else Inr ())"

definition validate_observed :: "rstring \<Rightarrow> rstring \<Rightarrow> rstring \<Rightarrow> unit result" where
  "validate_observed request_id action description =
     rbind (validate_permission_request_id request_id)
       (\<lambda>_. rbind (validate_action action) (\<lambda>_. validate_description description))"

definition scope_key_of :: "session_id \<Rightarrow> rstring \<Rightarrow> rstring \<Rightarrow> session_grant_key" where
  "scope_key_of sid action description =
     \<lparr>gk_session_id = sid_text sid, gk_action = action, gk_description = description\<rparr>"

definition observed_request ::
    "session_id \<Rightarrow> rstring \<Rightarrow> rstring \<Rightarrow> rstring \<Rightarrow> permission_request" where
  "observed_request sid request_id action description =
     \<lparr>pq_request_id = request_id, pq_session_id = sid, pq_action = action,
      pq_reason = (if trim description \<noteq> [] then Some description else None)\<rparr>"

definition observe_request ::
    "permission_state \<Rightarrow> session_id \<Rightarrow> u64 \<Rightarrow> rstring \<Rightarrow> rstring \<Rightarrow> rstring
      \<Rightarrow> permission_observation result \<times> permission_state" where
  "observe_request s sid generation request_id action description =
     (case rbind (validate_observed request_id action description) (\<lambda>_. permission_lock s) of
        Inl e \<Rightarrow> (Inl e, s)
      | Inr _ \<Rightarrow>
        (let request = observed_request sid request_id action description;
             key = scope_key_of sid action description;
             ident = \<lparr>pi_session_id = sid_text sid, pi_request_id = request_id,
                      pi_connection_generation = generation\<rparr>
         in if map_of (ps_pending s) request_id \<noteq> None \<or> ident \<in> set (ps_resolved_this_turn s)
            then (Inl (Agent ''Jcode repeated a permission request id within the active turn''), s)
            else if length (ps_pending s) + length (ps_resolved_this_turn s)
                      \<ge> MAX_PERMISSION_REQUESTS_PER_TURN
            then (Inl (Agent ''Jcode exceeded the permission-request budget for one turn''), s)
            else if key \<in> set (ps_session_grants s)
            then (let pending = \<lparr>pp_request = request, pp_connection_generation = generation,
                                 pp_scope_key = key, pp_responding = True\<rparr>
                  in (Inr (AutoApprove pending),
                      s\<lparr>ps_pending := (request_id, pending) # ps_pending s\<rparr>))
            else (let pending = \<lparr>pp_request = request, pp_connection_generation = generation,
                                 pp_scope_key = key, pp_responding = False\<rparr>
                  in (Inr (Prompt request),
                      s\<lparr>ps_pending := (request_id, pending) # ps_pending s\<rparr>))))"

definition set_responding ::
    "rstring \<Rightarrow> bool \<Rightarrow> (rstring \<times> pending_permission) list \<Rightarrow> (rstring \<times> pending_permission) list" where
  "set_responding rid b ps =
     map (\<lambda>(k, p). (k, if k = rid then p\<lparr>pp_responding := b\<rparr> else p)) ps"

definition begin_response ::
    "permission_state \<Rightarrow> session_id \<Rightarrow> rstring \<Rightarrow> u64
      \<Rightarrow> pending_permission result \<times> permission_state" where
  "begin_response s sid request_id generation =
     (case rbind (validate_permission_request_id request_id) (\<lambda>_. permission_lock s) of
        Inl e \<Rightarrow> (Inl e, s)
      | Inr _ \<Rightarrow>
        (case map_of (ps_pending s) request_id of
           None \<Rightarrow> (Inl (InvalidRequest
             ''permission request is unknown, already resolved, or no longer active''), s)
         | Some pending \<Rightarrow>
             if pq_session_id (pp_request pending) \<noteq> sid
                \<or> pp_connection_generation pending \<noteq> generation
             then (Inl (InvalidRequest
               ''permission request does not belong to this active session/connection''), s)
             else if pp_responding pending
             then (Inl (InvalidRequest
               ''permission request already has a response in progress''), s)
             else (Inr (pending\<lparr>pp_responding := True\<rparr>),
                   s\<lparr>ps_pending := set_responding request_id True (ps_pending s)\<rparr>)))"

definition complete_response ::
    "permission_state \<Rightarrow> pending_permission \<Rightarrow> permission_decision
      \<Rightarrow> unit result \<times> permission_state" where
  "complete_response s pending decision =
     (let rid = pq_request_id (pp_request pending)
      in case permission_lock s of
        Inl e \<Rightarrow> (Inl e, s)
      | Inr _ \<Rightarrow>
        (case map_of (ps_pending s) rid of
           None \<Rightarrow> (Inl (Agent
             ''permission response acknowledgement lost its pending request''), s)
         | Some current \<Rightarrow>
             if identity current \<noteq> identity pending \<or> \<not> pp_responding current
             then (Inl (Agent
               ''permission response acknowledgement no longer matches the active request''), s)
             else (Inr (),
               s\<lparr>ps_pending := filter (\<lambda>e. fst e \<noteq> rid) (ps_pending s),
                 ps_resolved_this_turn := List.insert (identity current) (ps_resolved_this_turn s),
                 ps_session_grants :=
                   (if decision = AllowSession
                    then List.insert (pp_scope_key current) (ps_session_grants s)
                    else ps_session_grants s)\<rparr>)))"

definition abort_response :: "permission_state \<Rightarrow> pending_permission \<Rightarrow> permission_state" where
  "abort_response s pending =
     (let rid = pq_request_id (pp_request pending)
      in if ps_poisoned s then s
         else case map_of (ps_pending s) rid of
           None \<Rightarrow> s
         | Some current \<Rightarrow>
             if identity current = identity pending
             then s\<lparr>ps_pending := set_responding rid False (ps_pending s)\<rparr> else s)"

definition finish_turn :: "permission_state \<Rightarrow> session_id \<Rightarrow> u64 \<Rightarrow> permission_state" where
  "finish_turn s sid generation =
     (if ps_poisoned s then s
      else s\<lparr>ps_pending := filter (\<lambda>e. pq_session_id (pp_request (snd e)) \<noteq> sid
                               \<or> pp_connection_generation (snd e) \<noteq> generation) (ps_pending s),
             ps_resolved_this_turn := filter (\<lambda>i. pi_session_id i \<noteq> sid_text sid
                               \<or> pi_connection_generation i \<noteq> generation)
                             (ps_resolved_this_turn s)\<rparr>)"

section \<open>Executions\<close>

datatype perm_request =
    CallObserveRequest session_id u64 rstring rstring rstring
  | CallBeginResponse session_id rstring u64
  | CallCompleteResponse pending_permission permission_decision
  | CallAbortResponse pending_permission
  | CallFinishTurn session_id u64

fun perm_call :: "permission_state \<Rightarrow> perm_request \<Rightarrow> permission_state" where
  "perm_call s (CallObserveRequest sid g rid a d) = snd (observe_request s sid g rid a d)"
| "perm_call s (CallBeginResponse sid rid g) = snd (begin_response s sid rid g)"
| "perm_call s (CallCompleteResponse p d) = snd (complete_response s p d)"
| "perm_call s (CallAbortResponse p) = abort_response s p"
| "perm_call s (CallFinishTurn sid g) = finish_turn s sid g"

definition perm_calls :: "permission_state \<Rightarrow> perm_request list \<Rightarrow> permission_state" where
  "perm_calls s cs = foldl perm_call s cs"

definition perm_init :: "permission_state \<Rightarrow> bool" where
  "perm_init s \<longleftrightarrow> s = permission_registry_new"

definition perm_step :: "permission_state \<Rightarrow> permission_state \<Rightarrow> bool" where
  "perm_step s t \<longleftrightarrow> (\<exists>c. t = perm_call s c)"

text \<open>A pending prompt is well formed and filed under its own id; its grant key carries its own
  session and action, and the shown reason is the key's description.\<close>

definition ok_pending :: "rstring \<Rightarrow> pending_permission \<Rightarrow> bool" where
  "ok_pending k p \<longleftrightarrow>
     pq_request_id (pp_request p) = k \<and> request_id_is_safe_for_response k
     \<and> validate_observed k (pq_action (pp_request p)) (gk_description (pp_scope_key p)) = Inr ()
     \<and> pp_request p = observed_request (pq_session_id (pp_request p)) k
         (gk_action (pp_scope_key p)) (gk_description (pp_scope_key p))
     \<and> gk_session_id (pp_scope_key p) = sid_text (pq_session_id (pp_request p))"

definition perm_inv :: "permission_state \<Rightarrow> bool" where
  "perm_inv s \<longleftrightarrow>
     distinct (map fst (ps_pending s)) \<and> distinct (ps_resolved_this_turn s)
     \<and> distinct (ps_session_grants s)
     \<and> (\<forall>e \<in> set (ps_pending s). ok_pending (fst e) (snd e)
          \<and> identity (snd e) \<notin> set (ps_resolved_this_turn s))
     \<and> length (ps_pending s) + length (ps_resolved_this_turn s) \<le> MAX_PERMISSION_REQUESTS_PER_TURN
     \<and> \<not> ps_poisoned s"

section \<open>Single operations\<close>

lemma sid_text_eq [simp]: "sid_text a = sid_text b \<longleftrightarrow> a = b"
  by (cases a; cases b) (simp add: sid_text_def)

lemma permission_lock_Inr [simp]: "permission_lock s = Inr u \<longleftrightarrow> \<not> ps_poisoned s"
  by (simp add: permission_lock_def)

lemma set_responding_keys [simp]: "map fst (set_responding rid b ps) = map fst ps"
  by (induction ps) (auto simp: set_responding_def)

lemma set_responding_length [simp]: "length (set_responding rid b ps) = length ps"
  by (simp add: set_responding_def)

lemma set_responding_set:
  "(k, p) \<in> set (set_responding rid b ps) \<longleftrightarrow>
     (\<exists>q. (k, q) \<in> set ps \<and> p = (if k = rid then q\<lparr>pp_responding := b\<rparr> else q))"
  by (force simp: set_responding_def)

lemma identity_responding [simp]: "identity (p\<lparr>pp_responding := b\<rparr>) = identity p"
  by (simp add: identity_def)

lemma ok_pending_responding [simp]: "ok_pending k (p\<lparr>pp_responding := b\<rparr>) = ok_pending k p"
  by (simp add: ok_pending_def)

lemma identity_eq:
  "identity p = identity q \<longleftrightarrow>
     pq_session_id (pp_request p) = pq_session_id (pp_request q)
     \<and> pq_request_id (pp_request p) = pq_request_id (pp_request q)
     \<and> pp_connection_generation p = pp_connection_generation q"
  by (simp add: identity_def)

text \<open>What a successful call did; everything else leaves the broker as it was.\<close>

definition filed ::
    "permission_state \<Rightarrow> session_id \<Rightarrow> u64 \<Rightarrow> rstring \<Rightarrow> rstring \<Rightarrow> rstring \<Rightarrow> pending_permission" where
  "filed s sid g rid a d =
     \<lparr>pp_request = observed_request sid rid a d, pp_connection_generation = g,
      pp_scope_key = scope_key_of sid a d,
      pp_responding = (scope_key_of sid a d \<in> set (ps_session_grants s))\<rparr>"

lemma observe_request_effect:
  "(\<exists>e. observe_request s sid g rid a d = (Inl e, s)) \<or>
   (map_of (ps_pending s) rid = None \<and> identity (filed s sid g rid a d) \<notin> set (ps_resolved_this_turn s)
      \<and> length (ps_pending s) + length (ps_resolved_this_turn s) < MAX_PERMISSION_REQUESTS_PER_TURN
      \<and> validate_observed rid a d = Inr ()
      \<and> observe_request s sid g rid a d
          = (Inr (if scope_key_of sid a d \<in> set (ps_session_grants s)
                  then AutoApprove (filed s sid g rid a d)
                  else Prompt (observed_request sid rid a d)),
             s\<lparr>ps_pending := (rid, filed s sid g rid a d) # ps_pending s\<rparr>))"
  by (auto simp: observe_request_def rbind_eq_Inr Let_def identity_def filed_def
      observed_request_def split: sum.splits)

lemma begin_response_effect:
  "(\<exists>e. begin_response s sid rid g = (Inl e, s)) \<or>
   (\<exists>p. map_of (ps_pending s) rid = Some p \<and> pq_session_id (pp_request p) = sid
      \<and> pp_connection_generation p = g \<and> \<not> pp_responding p
      \<and> begin_response s sid rid g
          = (Inr (p\<lparr>pp_responding := True\<rparr>),
             s\<lparr>ps_pending := set_responding rid True (ps_pending s)\<rparr>))"
  by (auto simp: begin_response_def split: sum.splits option.splits)

lemma complete_response_effect:
  "(\<exists>e. complete_response s p d = (Inl e, s)) \<or>
   (\<exists>c. map_of (ps_pending s) (pq_request_id (pp_request p)) = Some c \<and> identity c = identity p
      \<and> pp_responding c \<and> \<not> ps_poisoned s
      \<and> complete_response s p d = (Inr (),
          s\<lparr>ps_pending := filter (\<lambda>e. fst e \<noteq> pq_request_id (pp_request p)) (ps_pending s),
            ps_resolved_this_turn := List.insert (identity c) (ps_resolved_this_turn s),
            ps_session_grants := (if d = AllowSession
              then List.insert (pp_scope_key c) (ps_session_grants s)
              else ps_session_grants s)\<rparr>))"
  by (auto simp: complete_response_def Let_def split: sum.splits option.splits)

lemma abort_response_effect:
  "abort_response s p = s \<or>
   (\<exists>c. map_of (ps_pending s) (pq_request_id (pp_request p)) = Some c \<and> identity c = identity p
      \<and> abort_response s p
          = s\<lparr>ps_pending := set_responding (pq_request_id (pp_request p)) False (ps_pending s)\<rparr>)"
  by (auto simp: abort_response_def Let_def split: option.splits)

section \<open>Invariant\<close>

lemma filed_simps [simp]:
  "pp_request (filed s sid g rid a d) = observed_request sid rid a d"
  "pp_connection_generation (filed s sid g rid a d) = g"
  "pp_scope_key (filed s sid g rid a d) = scope_key_of sid a d"
  "pp_responding (filed s sid g rid a d) \<longleftrightarrow> scope_key_of sid a d \<in> set (ps_session_grants s)"
  by (simp_all add: filed_def)

lemma observed_request_simps [simp]:
  "pq_request_id (observed_request sid rid a d) = rid"
  "pq_session_id (observed_request sid rid a d) = sid"
  "pq_action (observed_request sid rid a d) = a"
  by (simp_all add: observed_request_def)

lemma scope_key_of_simps [simp]:
  "gk_session_id (scope_key_of sid a d) = sid_text sid" "gk_action (scope_key_of sid a d) = a"
  "gk_description (scope_key_of sid a d) = d"
  by (simp_all add: scope_key_of_def)

lemma validate_observed_Inr [simp]:
  "validate_observed rid a d = Inr u \<longleftrightarrow>
     request_id_is_safe_for_response rid \<and> validate_action a = Inr () \<and> validate_description d = Inr ()"
  by (auto simp: validate_observed_def validate_permission_request_id_def rbind_eq_Inr)

lemma ok_pending_filed: "validate_observed rid a d = Inr () \<Longrightarrow> ok_pending rid (filed s sid g rid a d)"
  by (simp add: ok_pending_def)

lemma perm_inv_observe:
  assumes "perm_inv s"
  shows "perm_inv (snd (observe_request s sid g rid a d))"
  using observe_request_effect [of s sid g rid a d]
proof (elim disjE exE conjE)
  assume "map_of (ps_pending s) rid = None" "validate_observed rid a d = Inr ()"
    "identity (filed s sid g rid a d) \<notin> set (ps_resolved_this_turn s)"
    "length (ps_pending s) + length (ps_resolved_this_turn s) < MAX_PERMISSION_REQUESTS_PER_TURN"
    and eq: "observe_request s sid g rid a d
       = (Inr (if scope_key_of sid a d \<in> set (ps_session_grants s)
               then AutoApprove (filed s sid g rid a d) else Prompt (observed_request sid rid a d)),
          s\<lparr>ps_pending := (rid, filed s sid g rid a d) # ps_pending s\<rparr>)"
  with assms show ?thesis
    by (simp add: perm_inv_def ok_pending_filed map_of_eq_None_iff del: validate_observed_Inr)
qed (use assms in simp)

lemma perm_inv_set_responding:
  assumes "perm_inv s"
  shows "perm_inv (s\<lparr>ps_pending := set_responding rid b (ps_pending s)\<rparr>)"
proof -
  have "ok_pending (fst e) (snd e) \<and> identity (snd e) \<notin> set (ps_resolved_this_turn s)"
    if mem: "e \<in> set (set_responding rid b (ps_pending s))" for e
  proof -
    obtain q where "(fst e, q) \<in> set (ps_pending s)"
        "snd e = (if fst e = rid then q\<lparr>pp_responding := b\<rparr> else q)"
      using mem set_responding_set [of "fst e" "snd e" rid b "ps_pending s"] by auto
    with assms show ?thesis by (auto simp: perm_inv_def dest!: bspec)
  qed
  then show ?thesis using assms by (simp add: perm_inv_def)
qed

lemma perm_inv_begin: "perm_inv s \<Longrightarrow> perm_inv (snd (begin_response s sid rid g))"
  using begin_response_effect [of s sid rid g] by (auto simp: perm_inv_set_responding)

lemma perm_inv_abort: "perm_inv s \<Longrightarrow> perm_inv (abort_response s p)"
  using abort_response_effect [of s p] by (auto simp: perm_inv_set_responding)

lemma length_filter_key:
  assumes "distinct (map fst xs)" and "map_of xs k = Some v"
  shows "Suc (length (filter (\<lambda>e. fst e \<noteq> k) xs)) = length xs"
  using assms
proof (induction xs)
  case (Cons x xs)
  show ?case
  proof (cases "fst x = k")
    case True
    with Cons.prems have "\<forall>e \<in> set xs. fst e \<noteq> k" by (auto simp: image_iff)
    with True show ?thesis by (simp cong: filter_cong)
  next
    case False
    with Cons show ?thesis by (cases x) auto
  qed
qed simp

lemma perm_inv_complete:
  assumes inv: "perm_inv s"
  shows "perm_inv (snd (complete_response s p d))"
proof -
  let ?rid = "pq_request_id (pp_request p)"
  from complete_response_effect [of s p d] show ?thesis
  proof (elim disjE exE conjE)
    fix c assume c: "map_of (ps_pending s) ?rid = Some c" "identity c = identity p"
      and eq: "complete_response s p d = (Inr (),
          s\<lparr>ps_pending := filter (\<lambda>e. fst e \<noteq> ?rid) (ps_pending s),
            ps_resolved_this_turn := List.insert (identity c) (ps_resolved_this_turn s),
            ps_session_grants := (if d = AllowSession
              then List.insert (pp_scope_key c) (ps_session_grants s) else ps_session_grants s)\<rparr>)"
    have fresh: "identity c \<notin> set (ps_resolved_this_turn s)"
      using inv map_of_SomeD [OF c(1)] by (fastforce simp: perm_inv_def)
    have len: "Suc (length (filter (\<lambda>e. fst e \<noteq> ?rid) (ps_pending s))) = length (ps_pending s)"
      using inv by (intro length_filter_key [OF _ c(1)]) (simp add: perm_inv_def)
    have other: "identity q \<noteq> identity c" if "(k, q) \<in> set (ps_pending s)" "k \<noteq> ?rid" for k q
      using that inv c(2) by (fastforce simp: perm_inv_def ok_pending_def identity_eq)
    show ?thesis
      using inv fresh len other
      by (fastforce simp: eq perm_inv_def distinct_map_filter)
  qed (use inv in simp)
qed

lemma perm_inv_finish: "perm_inv s \<Longrightarrow> perm_inv (finish_turn s sid g)"
  by (auto simp: perm_inv_def finish_turn_def distinct_map_filter
      intro: order_trans [OF add_mono [OF length_filter_le length_filter_le]])

lemma perm_inv_call: "perm_inv s \<Longrightarrow> perm_inv (perm_call s c)"
  by (cases c) (simp_all add: perm_inv_observe perm_inv_begin perm_inv_complete perm_inv_abort
      perm_inv_finish)

lemma perm_inv_new: "perm_inv permission_registry_new"
  by (simp add: perm_inv_def permission_registry_new_def)

interpretation broker: invariant_system perm_init perm_step perm_inv
  by unfold_locales (auto simp: perm_init_def perm_step_def perm_inv_new intro: perm_inv_call)

lemma perm_calls_snoc [simp]:
  "perm_calls s [] = s" "perm_calls s (cs @ [c]) = perm_call (perm_calls s cs) c"
  by (simp_all add: perm_calls_def)

lemma perm_calls_Cons: "perm_calls s (c # cs) = perm_calls (perm_call s c) cs"
  by (simp add: perm_calls_def)

lemma perm_calls_append: "perm_calls s (cs @ ds) = perm_calls (perm_calls s cs) ds"
  by (simp add: perm_calls_def)

lemma perm_calls_reach: "reach perm_init perm_step (perm_calls permission_registry_new cs)"
  by (induction cs rule: rev_induct)
     (auto simp: perm_init_def perm_step_def intro: reach.intros)

lemmas perm_calls_inv = broker.reach_inv [OF perm_calls_reach]

section \<open>Histories\<close>

lemma scope_key_of_eq [simp]:
  "scope_key_of sid a d = scope_key_of sid' a' d' \<longleftrightarrow> sid = sid' \<and> a = a' \<and> d = d'"
  by (simp add: scope_key_of_def)

text \<open>Answering the prompt \<open>rid\<close> was begun, with success, by one of the calls \<open>zs\<close> made after \<open>before\<close>.\<close>

definition begun :: "perm_request list \<Rightarrow> perm_request list \<Rightarrow> session_id \<Rightarrow> rstring \<Rightarrow> u64 \<Rightarrow> bool" where
  "begun before zs sid rid g \<longleftrightarrow>
     (\<exists>us vs. zs = us @ CallBeginResponse sid rid g # vs
        \<and> is_ok (fst (begin_response (perm_calls permission_registry_new (before @ us)) sid rid g)))"

lemma begun_append: "begun before zs sid rid g \<Longrightarrow> begun before (zs @ ys) sid rid g"
  unfolding begun_def by force

text \<open>The pending prompt \<open>p\<close> was filed by an observation for its session, connection and key; its turn was not
  finished since, and it is being answered only if the answer was begun for it, or because its key had
  been granted.\<close>

definition filed_in :: "perm_request list \<Rightarrow> rstring \<Rightarrow> pending_permission \<Rightarrow> bool" where
  "filed_in cs k p \<longleftrightarrow> (\<exists>ws a d zs. let sid = pq_session_id (pp_request p); g = pp_connection_generation p;
        granted = scope_key_of sid a d \<in> set (ps_session_grants (perm_calls permission_registry_new ws)) in
     cs = ws @ CallObserveRequest sid g k a d # zs \<and> pp_scope_key p = scope_key_of sid a d
     \<and> CallFinishTurn sid g \<notin> set zs
     \<and> (pp_responding p \<longrightarrow> begun (ws @ [CallObserveRequest sid g k a d]) zs sid k g \<or> granted)
     \<and> (fst (observe_request (perm_calls permission_registry_new ws) sid g k a d)
          = Inr (Prompt (observed_request sid k a d)) \<or> granted))"

lemma filed_in_snoc:
  assumes "filed_in cs k q" and "pp_request p = pp_request q" "pp_scope_key p = pp_scope_key q"
    "pp_connection_generation p = pp_connection_generation q"
    and "c \<noteq> CallFinishTurn (pq_session_id (pp_request q)) (pp_connection_generation q)"
    and "pp_responding p \<longrightarrow> pp_responding q \<or>
      c = CallBeginResponse (pq_session_id (pp_request q)) k (pp_connection_generation q)
      \<and> is_ok (fst (begin_response (perm_calls permission_registry_new cs)
          (pq_session_id (pp_request q)) k (pp_connection_generation q)))"
  shows "filed_in (cs @ [c]) k p"
proof -
  let ?sid = "pq_session_id (pp_request q)" and ?g = "pp_connection_generation q"
  from assms(1) obtain ws a d zs where o: "cs = ws @ CallObserveRequest ?sid ?g k a d # zs"
    "pp_scope_key q = scope_key_of ?sid a d" "CallFinishTurn ?sid ?g \<notin> set zs"
    "pp_responding q \<longrightarrow> begun (ws @ [CallObserveRequest ?sid ?g k a d]) zs ?sid k ?g
       \<or> scope_key_of ?sid a d \<in> set (ps_session_grants (perm_calls permission_registry_new ws))"
    "fst (observe_request (perm_calls permission_registry_new ws) ?sid ?g k a d)
       = Inr (Prompt (observed_request ?sid k a d))
     \<or> scope_key_of ?sid a d \<in> set (ps_session_grants (perm_calls permission_registry_new ws))"
    unfolding filed_in_def Let_def by blast
  have "begun (ws @ [CallObserveRequest ?sid ?g k a d]) (zs @ [c]) ?sid k ?g"
    if "c = CallBeginResponse ?sid k ?g"
      "is_ok (fst (begin_response (perm_calls permission_registry_new cs) ?sid k ?g))"
    unfolding begun_def using that by (intro exI [of _ zs] exI [of _ "[]"]) (simp add: o(1))
  then have "pp_responding p \<longrightarrow> begun (ws @ [CallObserveRequest ?sid ?g k a d]) (zs @ [c]) ?sid k ?g
       \<or> scope_key_of ?sid a d \<in> set (ps_session_grants (perm_calls permission_registry_new ws))"
    using o(4) assms(6) begun_append by blast
  then show ?thesis
    unfolding filed_in_def Let_def assms(2-4) using o(2,3,5) assms(5)
    by (intro exI [of _ ws] exI [of _ a] exI [of _ d] exI [of _ "zs @ [c]"]) (simp add: o(1))
qed

lemma pending_origin:
  assumes "(k, p) \<in> set (ps_pending (perm_calls permission_registry_new cs))"
  shows "filed_in cs k p"
  using assms
proof (induction cs arbitrary: p rule: rev_induct)
  case Nil
  then show ?case by (simp add: permission_registry_new_def)
next
  case (snoc c cs)
  let ?s = "perm_calls permission_registry_new cs"
  have stays: "filed_in (cs @ [c]) k p" if "(k, p) \<in> set (ps_pending ?s)"
    "c \<noteq> CallFinishTurn (pq_session_id (pp_request p)) (pp_connection_generation p)"
    by (rule filed_in_snoc [OF snoc.IH [OF that(1)]]) (use that(2) in simp_all)
  show ?case
  proof (cases c)
    case (CallObserveRequest sid g rid a d)
    show ?thesis
    proof (cases "(k, p) \<in> set (ps_pending ?s)")
      case False
      with snoc.prems CallObserveRequest observe_request_effect [of ?s sid g rid a d]
      have "k = rid" "p = filed ?s sid g rid a d"
        "scope_key_of sid a d \<in> set (ps_session_grants ?s)
         \<or> fst (observe_request ?s sid g rid a d) = Inr (Prompt (observed_request sid rid a d))"
        by (auto split: if_splits)
      then show ?thesis
        unfolding filed_in_def Let_def CallObserveRequest
        by (intro exI [of _ cs] exI [of _ a] exI [of _ d] exI [of _ "[]"]) (auto simp: observed_request_def)
    qed (use stays CallObserveRequest in simp)
  next
    case (CallBeginResponse sid rid g)
    show ?thesis
    proof (cases "(k, p) \<in> set (ps_pending ?s)")
      case False
      with snoc.prems CallBeginResponse begin_response_effect [of ?s sid rid g]
      obtain m where m: "map_of (ps_pending ?s) rid = Some m" "pq_session_id (pp_request m) = sid"
        "pp_connection_generation m = g" "is_ok (fst (begin_response ?s sid rid g))"
        "(k, p) \<in> set (set_responding rid True (ps_pending ?s))" by (auto simp: is_ok_def)
      then obtain q where q: "(k, q) \<in> set (ps_pending ?s)" "p = (if k = rid then q\<lparr>pp_responding := True\<rparr> else q)"
        by (auto simp: set_responding_set)
      with False have k: "k = rid" "p = q\<lparr>pp_responding := True\<rparr>" by (auto split: if_splits)
      have "distinct (map fst (ps_pending ?s))" using perm_calls_inv [of cs] by (simp add: perm_inv_def)
      with m(1) q(1) k(1) have "q = m" by (metis map_of_is_SomeI option.inject)
      with m k show ?thesis
        unfolding CallBeginResponse by (intro filed_in_snoc [OF snoc.IH [OF q(1)]]) simp_all
    qed (use stays CallBeginResponse in simp)
  next
    case (CallCompleteResponse q d)
    with snoc.prems complete_response_effect [of ?s q d] have "(k, p) \<in> set (ps_pending ?s)"
      by auto
    then show ?thesis using stays CallCompleteResponse by simp
  next
    case (CallAbortResponse q)
    show ?thesis
    proof (cases "(k, p) \<in> set (ps_pending ?s)")
      case False
      with snoc.prems CallAbortResponse abort_response_effect [of ?s q]
      obtain r where r: "(k, r) \<in> set (ps_pending ?s)" "p = r\<lparr>pp_responding := False\<rparr>"
        by (auto simp: set_responding_set split: if_splits)
      then show ?thesis
        unfolding CallAbortResponse by (intro filed_in_snoc [OF snoc.IH [OF r(1)]]) simp_all
    qed (use stays CallAbortResponse in simp)
  next
    case (CallFinishTurn sid g)
    have "\<not> ps_poisoned ?s" using perm_calls_inv [of cs] by (simp add: perm_inv_def)
    with snoc.prems CallFinishTurn have "(k, p) \<in> set (ps_pending ?s)"
      "pq_session_id (pp_request p) \<noteq> sid \<or> pp_connection_generation p \<noteq> g"
      by (auto simp: finish_turn_def)
    then show ?thesis using stays CallFinishTurn by auto
  qed
qed

text \<open>A prompt for the key was shown; its answering was begun for that session, request and connection and,
  while the turn that raised it was still running, completed with \<open>AllowSession\<close> for the same prompt.\<close>

definition granted_in :: "perm_request list \<Rightarrow> session_id \<Rightarrow> rstring \<Rightarrow> rstring \<Rightarrow> bool" where
  "granted_in cs sid a d \<longleftrightarrow>
     (\<exists>ws g rid xs q ys.
        cs = ws @ CallObserveRequest sid g rid a d # xs @ CallCompleteResponse q AllowSession # ys
      \<and> fst (observe_request (perm_calls permission_registry_new ws) sid g rid a d)
          = Inr (Prompt (observed_request sid rid a d))
      \<and> begun (ws @ [CallObserveRequest sid g rid a d]) xs sid rid g \<and> CallFinishTurn sid g \<notin> set xs
      \<and> pq_session_id (pp_request q) = sid \<and> pq_request_id (pp_request q) = rid
      \<and> pp_connection_generation q = g
      \<and> fst (complete_response (perm_calls permission_registry_new
            (ws @ CallObserveRequest sid g rid a d # xs)) q AllowSession) = Inr ())"

lemma granted_in_append: "granted_in cs sid a d \<Longrightarrow> granted_in (cs @ ds) sid a d"
  unfolding granted_in_def by (metis append.assoc append_Cons)

lemma grants_call:
  "key \<in> set (ps_session_grants (perm_call s c)) \<longleftrightarrow> key \<in> set (ps_session_grants s) \<or>
     (\<exists>q r. c = CallCompleteResponse q AllowSession
        \<and> fst (complete_response s q AllowSession) = Inr ()
        \<and> map_of (ps_pending s) (pq_request_id (pp_request q)) = Some r \<and> pp_scope_key r = key
        \<and> identity r = identity q \<and> pp_responding r)"
proof (cases c)
  case (CallObserveRequest sid g rid a d)
  then show ?thesis using observe_request_effect [of s sid g rid a d] by auto
next
  case (CallBeginResponse sid rid g)
  then show ?thesis using begin_response_effect [of s sid rid g] by auto
next
  case (CallCompleteResponse q d)
  then show ?thesis using complete_response_effect [of s q d]
    by (cases "d = AllowSession") auto
next
  case (CallAbortResponse q)
  then show ?thesis using abort_response_effect [of s q] by auto
next
  case (CallFinishTurn sid g)
  then show ?thesis by (simp add: finish_turn_def)
qed

lemma grants_origin:
  "scope_key_of sid a d \<in> set (ps_session_grants (perm_calls permission_registry_new cs))
     \<Longrightarrow> granted_in cs sid a d"
proof (induction cs rule: length_induct)
  case (1 cs)
  show ?case
  proof (cases cs rule: rev_cases)
    case Nil
    with 1(2) show ?thesis by (simp add: permission_registry_new_def)
  next
    case (snoc xs c)
    let ?s = "perm_calls permission_registry_new xs"
    consider "scope_key_of sid a d \<in> set (ps_session_grants ?s)"
      | q r where "c = CallCompleteResponse q AllowSession"
          "fst (complete_response ?s q AllowSession) = Inr ()"
          "(pq_request_id (pp_request q), r) \<in> set (ps_pending ?s)" "pp_scope_key r = scope_key_of sid a d"
          "identity r = identity q" "pp_responding r"
      using 1(2) snoc by (auto simp: grants_call dest: map_of_SomeD)
    then show ?thesis
    proof cases
      case 1
      then have "granted_in xs sid a d" using "1.IH" snoc by simp
      then show ?thesis by (simp add: snoc granted_in_append)
    next
      case 2
      let ?rid = "pq_request_id (pp_request q)" and ?g = "pp_connection_generation q"
      have r: "pq_session_id (pp_request r) = pq_session_id (pp_request q)" "pp_connection_generation r = ?g"
        using 2(5) by (simp_all add: identity_eq)
      from pending_origin [OF 2(3)] 2(4,6) obtain ws zs
        where o: "xs = ws @ CallObserveRequest sid ?g ?rid a d # zs" "pq_session_id (pp_request q) = sid"
          "CallFinishTurn sid ?g \<notin> set zs"
          "begun (ws @ [CallObserveRequest sid ?g ?rid a d]) zs sid ?rid ?g
             \<and> fst (observe_request (perm_calls permission_registry_new ws) sid ?g ?rid a d)
                 = Inr (Prompt (observed_request sid ?rid a d))
           \<or> scope_key_of sid a d \<in> set (ps_session_grants (perm_calls permission_registry_new ws))"
        unfolding filed_in_def Let_def r by auto
      from o(4) show ?thesis
      proof
        assume "begun (ws @ [CallObserveRequest sid ?g ?rid a d]) zs sid ?rid ?g
             \<and> fst (observe_request (perm_calls permission_registry_new ws) sid ?g ?rid a d)
                 = Inr (Prompt (observed_request sid ?rid a d))"
        with o(1-3) 2(1,2) show ?thesis unfolding granted_in_def snoc
          by (intro exI [of _ ws] exI [of _ ?g] exI [of _ ?rid] exI [of _ zs] exI [of _ q] exI [of _ "[]"]) simp
      next
        assume "scope_key_of sid a d \<in> set (ps_session_grants (perm_calls permission_registry_new ws))"
        with "1.IH" have "granted_in ws sid a d" by (simp add: snoc o(1))
        then show ?thesis using granted_in_append by (simp add: snoc o(1))
      qed
    qed
  qed
qed

lemma resolved_call:
  assumes "i \<in> set (ps_resolved_this_turn s)"
    and "c \<noteq> CallFinishTurn (SessionId (pi_session_id i)) (pi_connection_generation i)"
  shows "i \<in> set (ps_resolved_this_turn (perm_call s c))"
proof (cases c)
  case (CallObserveRequest sid g rid a d)
  then show ?thesis using assms(1) observe_request_effect [of s sid g rid a d] by auto
next
  case (CallBeginResponse sid rid g)
  then show ?thesis using assms(1) begin_response_effect [of s sid rid g] by auto
next
  case (CallCompleteResponse q d)
  then show ?thesis using assms(1) complete_response_effect [of s q d] by auto
next
  case (CallAbortResponse q)
  then show ?thesis using assms(1) abort_response_effect [of s q] by auto
next
  case (CallFinishTurn sid g)
  then show ?thesis using assms by (cases sid) (auto simp: finish_turn_def sid_text_def)
qed

lemma resolved_calls:
  assumes "i \<in> set (ps_resolved_this_turn s)"
    and "CallFinishTurn (SessionId (pi_session_id i)) (pi_connection_generation i) \<notin> set cs"
  shows "i \<in> set (ps_resolved_this_turn (perm_calls s cs))"
  using assms(2)
proof (induction cs rule: rev_induct)
  case (snoc c cs)
  then have "i \<in> set (ps_resolved_this_turn (perm_calls s cs))"
    "c \<noteq> CallFinishTurn (SessionId (pi_session_id i)) (pi_connection_generation i)" by auto
  then show ?case by (simp add: resolved_call)
qed (use assms(1) in simp)

lemma sid_text_SessionId [simp]: "SessionId (sid_text sid) = sid"
  by (cases sid) (simp add: sid_text_def)

lemma resolved_not_pending:
  assumes "perm_inv s" and "identity p \<in> set (ps_resolved_this_turn s)"
    and "map_of (ps_pending s) k = Some c"
  shows "identity c \<noteq> identity p"
  using assms map_of_SomeD [OF assms(3)] by (fastforce simp: perm_inv_def)

section \<open>Properties\<close>

text \<open>The permission broker is well formed after every sequence of calls. Prompts are filed under
  their own ids without duplicates, each is well formed and carries the grant key of exactly what was
  shown, an answered prompt is never also pending, and at most 256 prompts are pending or answered in
  a turn.\<close>

theorem broker_well_formed: "perm_inv (perm_calls permission_registry_new cs)"
  by (rule perm_calls_inv)

text \<open>C40: Nothing is approved without the user. Whatever was called before, a request is approved
  automatically only if a prompt for exactly the same session, action and description was shown earlier
  and that very prompt was answered with \<open>AllowSession\<close>: the answer was begun for its session, request id
  and connection, and completed for the same three before the turn that raised it was finished.\<close>

theorem auto_approval_was_granted:
  assumes "observe_request (perm_calls permission_registry_new cs) sid g rid a d
    = (Inr (AutoApprove p), s')"
  shows "granted_in cs sid a d"
proof -
  have "scope_key_of sid a d \<in> set (ps_session_grants (perm_calls permission_registry_new cs))"
    using assms observe_request_effect [of "perm_calls permission_registry_new cs" sid g rid a d]
    by (auto split: if_splits)
  then show ?thesis by (rule grants_origin)
qed

text \<open>An answer is used once. After a response to a prompt was completed, and until the turn of its
  session and connection is finished, the same prompt can be neither answered, nor completed, nor
  raised again, whatever else is called in between.\<close>

theorem response_single_use:
  assumes "fst (complete_response (perm_calls permission_registry_new xs) p d) = Inr ()"
    and "CallFinishTurn (pq_session_id (pp_request p)) (pp_connection_generation p) \<notin> set ys"
    and "s = perm_calls permission_registry_new (xs @ CallCompleteResponse p d # ys)"
  shows "\<not> is_ok (fst (begin_response s (pq_session_id (pp_request p)) (pq_request_id (pp_request p))
             (pp_connection_generation p)))
    \<and> (\<forall>q d'. identity q = identity p \<longrightarrow> \<not> is_ok (fst (complete_response s q d')))
    \<and> (\<forall>a e. \<not> is_ok (fst (observe_request s (pq_session_id (pp_request p))
             (pp_connection_generation p) (pq_request_id (pp_request p)) a e)))"
proof (intro conjI allI impI)
  let ?s0 = "perm_calls permission_registry_new (xs @ [CallCompleteResponse p d])"
  have inv: "perm_inv s" unfolding assms(3) by (rule perm_calls_inv)
  have "identity p \<in> set (ps_resolved_this_turn ?s0)"
    using assms(1) complete_response_effect [of "perm_calls permission_registry_new xs" p d]
    by auto
  moreover have "SessionId (pi_session_id (identity p)) = pq_session_id (pp_request p)"
    "pi_connection_generation (identity p) = pp_connection_generation p"
    by (simp_all add: identity_def)
  ultimately have res: "identity p \<in> set (ps_resolved_this_turn s)"
    using assms(2) resolved_calls [of "identity p" ?s0 ys]
    by (simp add: assms(3) perm_calls_append perm_calls_Cons)
  note no = resolved_not_pending [OF inv res]
  show "\<not> is_ok (fst (begin_response s (pq_session_id (pp_request p)) (pq_request_id (pp_request p))
             (pp_connection_generation p)))"
    using begin_response_effect [of s "pq_session_id (pp_request p)" "pq_request_id (pp_request p)"
        "pp_connection_generation p"] no inv
    by (fastforce simp: identity_eq perm_inv_def ok_pending_def dest!: map_of_SomeD)
  show "\<not> is_ok (fst (complete_response s q d'))" if "identity q = identity p" for q d'
    using complete_response_effect [of s q d'] no that by auto
  show "\<not> is_ok (fst (observe_request s (pq_session_id (pp_request p)) (pp_connection_generation p)
             (pq_request_id (pp_request p)) a e))" for a e
    using observe_request_effect [of s "pq_session_id (pp_request p)" "pp_connection_generation p"
        "pq_request_id (pp_request p)" a e] res
    by (auto simp: identity_def)
qed

section \<open>Concrete instances\<close>

definition demo_broker_session :: session_id where
  "demo_broker_session = SessionId (lit ''session_1'')"

definition demo_broker_pending :: pending_permission where
  "demo_broker_pending =
     \<lparr>pp_request = observed_request demo_broker_session (lit ''req-1'') (lit ''bash'') (lit ''npm test''),
      pp_connection_generation = 7,
      pp_scope_key = scope_key_of demo_broker_session (lit ''bash'') (lit ''npm test''),
      pp_responding = True\<rparr>"

definition demo_broker_calls :: "perm_request list" where
  "demo_broker_calls =
     [CallObserveRequest demo_broker_session 7 (lit ''req-1'') (lit ''bash'') (lit ''npm test''),
      CallBeginResponse demo_broker_session (lit ''req-1'') 7]"

theorem auto_approval_was_granted_witness:
  "granted_in (demo_broker_calls @ [CallCompleteResponse demo_broker_pending AllowSession])
     demo_broker_session (lit ''bash'') (lit ''npm test'')"
proof -
  let ?o = "observe_request (perm_calls permission_registry_new
      (demo_broker_calls @ [CallCompleteResponse demo_broker_pending AllowSession]))
      demo_broker_session 7 (lit ''req-2'') (lit ''bash'') (lit ''npm test'')"
  have "(case fst ?o of Inr (AutoApprove p) \<Rightarrow> True | _ \<Rightarrow> False)" by code_simp
  then obtain p where "fst ?o = Inr (AutoApprove p)"
    by (auto split: sum.splits permission_observation.splits)
  then have "?o = (Inr (AutoApprove p), snd ?o)" by (simp add: prod_eq_iff)
  then show ?thesis by (rule auto_approval_was_granted)
qed

theorem response_single_use_witness:
  "\<not> is_ok (fst (begin_response
      (perm_calls permission_registry_new
         (demo_broker_calls @ [CallCompleteResponse demo_broker_pending AllowOnce]))
      demo_broker_session (lit ''req-1'') 7))"
proof -
  have ok: "fst (complete_response (perm_calls permission_registry_new demo_broker_calls)
      demo_broker_pending AllowOnce) = Inr ()"
    by code_simp
  have "pq_session_id (pp_request demo_broker_pending) = demo_broker_session"
    "pq_request_id (pp_request demo_broker_pending) = lit ''req-1''"
    "pp_connection_generation demo_broker_pending = 7"
    by (simp_all add: demo_broker_pending_def)
  with response_single_use [OF ok _ refl, of "[]"] show ?thesis by simp
qed

end
