(* ===== verification/Jcode_Session.thy ===== *)
theory Jcode_Session
  imports Jcode_Config Agent_Permission Effects "HOL-Library.List_Lexorder"
begin

text \<open>
  The connection, the session registry and the model checks of the Jcode adapter: \<open>lifecycle.rs\<close>,
  \<open>session.rs\<close> and \<open>model.rs\<close> of \<open>crates/vibecoder-agent-jcode\<close>.

  The SDK is the record \<open>jcode_sdk\<close>: one arbitrary operation per call, on a state \<open>'w\<close> of its own that
  holds the daemon, the sockets and the file system, so that a call may fail, answer anything or find
  the socket closed. A client is a handle number; a clone shares it. What the adapter keeps itself (the
  manager, the two registries, the broker and the verified generation, which Rust holds behind separate
  locks) is the record \<open>jcode_runtime\<close>. A call that holds the session gate is one step.
\<close>

section \<open>The SDK\<close>

type_synonym jcode_client = nat

record connect_options =
  no_socket_path :: "path option"
  no_client_name :: rstring
  no_request_timeout_ms :: u64
  no_ensure_runtime :: bool

record launch_options =
  lo_jcode_home :: "path option"
  lo_inherit_logins :: bool
  lo_binary :: "path option"
  lo_env :: "(rstring \<times> rstring) list"
  lo_startup_timeout_ms :: u64
  lo_cleanup_timeout_ms :: u64
  lo_client_name :: rstring
  lo_request_timeout_ms :: u64

record session_info =
  si_session_id :: rstring
  si_working_dir :: "rstring option"

record model_route_info =
  mi_model :: rstring
  mi_provider :: rstring
  mi_available :: bool

record runtime_info =
  ri_session_id :: rstring
  ri_provider :: "rstring option"
  ri_model :: "rstring option"
  ri_routes :: "model_route_info list"

text \<open>The events of the stream; \<open>EvOther\<close> stands for the replies and for events added later.\<close>

datatype api_event =
    EvTextDelta rstring rstring
  | EvReasoningDelta rstring rstring
  | EvReasoningDone rstring
  | EvToolStart rstring rstring rstring
  | EvToolInputDelta rstring rstring rstring
  | EvToolExec rstring rstring rstring
  | EvToolDone rstring rstring rstring rstring "rstring option"
  | EvTokenUsage rstring u64 u64 "u64 option"
  | EvTurnDone rstring
  | EvBackgroundProgress rstring rstring rstring "f32 option" rstring bool
  | EvMessageAccepted rstring
  | EvPermissionRequest rstring rstring rstring rstring
  | EvSessionStatus rstring rstring
  | EvModelInfo rstring "rstring option" "rstring option"
  | EvOther

text \<open>What one turn of the model-probe loop sees: the time left and what the stream then delivered.\<close>

type_synonym probe_reading = "u64 \<times> api_event option"

record 'w jcode_sdk =
  jk_package_version :: rstring
  jk_api_version_major :: u32
  jk_connect :: "connect_options \<Rightarrow> ('w, sdk_error, jcode_client) eff"
  jk_launch :: "launch_options \<Rightarrow> ('w, sdk_error, jcode_client) eff"
  jk_drop :: "jcode_client \<Rightarrow> 'w \<Rightarrow> 'w"
  jk_is_closed :: "jcode_client \<Rightarrow> 'w \<Rightarrow> bool \<times> 'w"
  jk_server :: "jcode_client \<Rightarrow> rstring"
  jk_capabilities :: "jcode_client \<Rightarrow> rstring list"
  jk_socket_path :: "jcode_client \<Rightarrow> path"
  jk_attach_session :: "jcode_client \<Rightarrow> rstring \<Rightarrow> ('w, sdk_error, session_info) eff"
  jk_create_session :: "jcode_client \<Rightarrow> rstring option \<Rightarrow> ('w, sdk_error, session_info) eff"
  jk_list_sessions :: "jcode_client \<Rightarrow> ('w, sdk_error, session_info list) eff"
  jk_list_models :: "jcode_client \<Rightarrow> rstring \<Rightarrow> ('w, sdk_error, rstring list \<times> rstring option) eff"
  jk_get_runtime_info :: "jcode_client \<Rightarrow> rstring \<Rightarrow> ('w, sdk_error, runtime_info) eff"
  jk_set_model :: "jcode_client \<Rightarrow> rstring \<Rightarrow> rstring \<Rightarrow> ('w, sdk_error, unit) eff"
  jk_cancel :: "jcode_client \<Rightarrow> rstring \<Rightarrow> ('w, sdk_error, unit) eff"
  jk_respond :: "jcode_client \<Rightarrow> rstring \<Rightarrow> rstring \<Rightarrow> bool \<Rightarrow> ('w, sdk_error, unit) eff"
  jk_subscribe :: "jcode_client \<Rightarrow> rstring \<Rightarrow> 'w \<Rightarrow> 'w"
  jk_readings :: "jcode_client \<Rightarrow> rstring \<Rightarrow> u64 \<Rightarrow> 'w \<Rightarrow> probe_reading list \<times> 'w"
  jk_canonicalize :: "path \<Rightarrow> ('w, unit, path) eff"
  jk_is_dir :: "path \<Rightarrow> 'w \<Rightarrow> bool \<times> 'w"

text \<open>A call to the SDK with its error mapped for the application, and a call that cannot fail.\<close>

definition sdk_op :: "string \<Rightarrow> ('w, sdk_error, 'a) eff \<Rightarrow> ('w, vibecoder_error, 'a) eff" where
  "sdk_op name m w =
     (case m w of (Inl e, w') \<Rightarrow> (Inl (map_operation_error name e), w') | (Inr a, w') \<Rightarrow> (Inr a, w'))"

definition ask :: "('w \<Rightarrow> 'a \<times> 'w) \<Rightarrow> ('w, 'e, 'a) eff" where
  "ask m w = (case m w of (a, w') \<Rightarrow> (Inr a, w'))"

definition tell :: "('w \<Rightarrow> 'w) \<Rightarrow> ('w, 'e, unit) eff" where
  "tell f w = (Inr (), f w)"

section \<open>The state of the adapter\<close>

record jcode_server_identity =
  js_server :: rstring
  js_protocol_major :: u32
  js_capabilities :: "rstring list"

datatype jcode_connection_state =
  Disconnected | Connecting | Connected jcode_server_identity | Faulted jcode_connection_failure

record jcode_connection_snapshot =
  cs_generation :: u64
  cs_state :: jcode_connection_state

record session_binding =
  sb_project_id :: project_id
  sb_project_root :: path
  sb_connection_generation :: u64

record active_turn =
  at_session_id :: session_id
  at_connection_generation :: u64
  at_cancel_requested :: bool
  at_worker_finished :: bool

record 'w jcode_runtime =
  jr_config :: jcode_connection_config
  jr_client :: "jcode_client option"
  jr_generation :: u64
  jr_state :: jcode_connection_state
  jr_bindings :: "rstring \<rightharpoonup> session_binding"
  jr_attached_session :: "rstring option"
  jr_active :: "active_turn option"
  jr_permissions :: permission_state
  jr_verified_generation :: "u64 option"
  jr_world :: 'w

type_synonym ('w, 'a) jcode_op = "('w jcode_runtime, vibecoder_error, 'a) eff"

definition jcode_runtime_new :: "jcode_connection_config \<Rightarrow> 'w \<Rightarrow> 'w jcode_runtime result" where
  "jcode_runtime_new config w =
     rbind (jcode_connection_config_validate config) (\<lambda>_.
       Inr \<lparr>jr_config = config, jr_client = None, jr_generation = 0, jr_state = Disconnected,
         jr_bindings = (\<lambda>_. None), jr_attached_session = None, jr_active = None,
         jr_permissions = permission_registry_new, jr_verified_generation = None, jr_world = w\<rparr>)"

definition on_sdk :: "('w, 'e, 'a) eff \<Rightarrow> ('w jcode_runtime, 'e, 'a) eff" where
  "on_sdk m s = (case m (jr_world s) of (r, w) \<Rightarrow> (r, s\<lparr>jr_world := w\<rparr>))"

definition jget :: "('w jcode_runtime \<Rightarrow> 'a) \<Rightarrow> ('w jcode_runtime, 'e, 'a) eff" where
  "jget f s = (Inr (f s), s)"

section \<open>Connection lifecycle\<close>

definition snapshot_of :: "'w jcode_runtime \<Rightarrow> jcode_connection_snapshot" where
  "snapshot_of s = \<lparr>cs_generation = jr_generation s, cs_state = jr_state s\<rparr>"

definition set_state ::
    "jcode_connection_state \<Rightarrow> bool \<Rightarrow> ('w, jcode_connection_snapshot) jcode_op" where
  "set_state state increment_generation s =
     (let s' = s\<lparr>jr_generation := (if increment_generation then sat_succ (jr_generation s) else jr_generation s),
                jr_state := state\<rparr>
      in (Inr (snapshot_of s'), s'))"

definition take_client :: "'w jcode_sdk \<Rightarrow> ('w, unit) jcode_op" where
  "take_client K s =
     (case jr_client s of
        None \<Rightarrow> (Inr (), s)
      | Some c \<Rightarrow> (Inr (), s\<lparr>jr_client := None, jr_world := jk_drop K c (jr_world s)\<rparr>))"

definition replace_client :: "'w jcode_sdk \<Rightarrow> jcode_client \<Rightarrow> ('w, unit) jcode_op" where
  "replace_client K c = sbind (take_client K) (\<lambda>_. tell (\<lambda>s. s\<lparr>jr_client := Some c\<rparr>))"

definition closed_failure :: jcode_connection_failure where
  "closed_failure =
     \<lparr>jf_code = ''disconnected'', jf_message = ''Jcode harness transport closed'',
      jf_class = RetryableTransport, jf_retryable = True\<rparr>"

definition refresh_closed_connection_locked :: "'w jcode_sdk \<Rightarrow> ('w, unit) jcode_op" where
  "refresh_closed_connection_locked K =
     sbind (jget jr_client) (\<lambda>client. case client of
        None \<Rightarrow> sreturn ()
      | Some c \<Rightarrow> sbind (on_sdk (ask (jk_is_closed K c))) (\<lambda>closed.
          if \<not> closed then sreturn ()
          else sbind (take_client K)
            (\<lambda>_. sbind (set_state (Faulted closed_failure) False) (\<lambda>_. sreturn ()))))"

definition open_client :: "'w jcode_sdk \<Rightarrow> jcode_connection_config \<Rightarrow> ('w, sdk_error, jcode_client) eff" where
  "open_client K c =
     (case jn_connection c of
        SharedRuntime socket_path ensure_runtime \<Rightarrow>
          jk_connect K \<lparr>no_socket_path = socket_path, no_client_name = jn_client_name c,
            no_request_timeout_ms = jn_request_timeout_ms c, no_ensure_runtime = ensure_runtime\<rparr>
      | PrivateRuntime jcode_home binary inherit_logins startup_timeout_ms cleanup_timeout_ms \<Rightarrow>
          jk_launch K \<lparr>lo_jcode_home = jcode_home, lo_inherit_logins = inherit_logins, lo_binary = binary,
            lo_env = model_gateway_bridge_launch_env c, lo_startup_timeout_ms = startup_timeout_ms,
            lo_cleanup_timeout_ms = cleanup_timeout_ms, lo_client_name = jn_client_name c,
            lo_request_timeout_ms = jn_request_timeout_ms c\<rparr>)"

definition identity_from :: "'w jcode_sdk \<Rightarrow> jcode_client \<Rightarrow> jcode_server_identity" where
  "identity_from K c =
     \<lparr>js_server = jk_server K c, js_protocol_major = jk_api_version_major K,
      js_capabilities = remdups_adj (sort (jk_capabilities K c))\<rparr>"

definition connect_locked :: "'w jcode_sdk \<Rightarrow> ('w, jcode_connection_snapshot) jcode_op" where
  "connect_locked K =
     sbind (refresh_closed_connection_locked K) (\<lambda>_. sbind (jget (\<lambda>s. (jr_state s, snapshot_of s, jr_config s)))
       (\<lambda>(state, snap, config). case state of
          Connected i \<Rightarrow> sreturn snap
        | Connecting \<Rightarrow> sfail (Agent ''Jcode connection attempt is already in progress'')
        | _ \<Rightarrow> sbind (set_state Connecting False)
            (\<lambda>_. stry (on_sdk (open_client K config)) (\<lambda>opened. case opened of
               Inr c \<Rightarrow> sbind (replace_client K c) (\<lambda>_. set_state (Connected (identity_from K c)) True)
             | Inl e \<Rightarrow> sbind (set_state (Faulted (from_sdk e)) False)
                 (\<lambda>_. sfail (into_domain_error (from_sdk e)))))))"

definition disconnect_locked :: "'w jcode_sdk \<Rightarrow> ('w, jcode_connection_snapshot) jcode_op" where
  "disconnect_locked K = sbind (take_client K) (\<lambda>_. set_state Disconnected False)"

definition manager_reconnect :: "'w jcode_sdk \<Rightarrow> ('w, jcode_connection_snapshot) jcode_op" where
  "manager_reconnect K = sbind (disconnect_locked K) (\<lambda>_. connect_locked K)"

definition connection_status :: "'w jcode_sdk \<Rightarrow> ('w, jcode_connection_snapshot) jcode_op" where
  "connection_status K = sbind (refresh_closed_connection_locked K) (\<lambda>_. jget snapshot_of)"

definition active_client :: "'w jcode_sdk \<Rightarrow> string \<Rightarrow> ('w, jcode_client) jcode_op" where
  "active_client K missing =
     sbind (refresh_closed_connection_locked K) (\<lambda>_. sbind (jget jr_client)
       (\<lambda>client. case client of None \<Rightarrow> sfail (Agent missing) | Some c \<Rightarrow> sreturn c))"

definition with_client :: "'w jcode_sdk \<Rightarrow> (jcode_client \<Rightarrow> ('w, vibecoder_error, 'a) eff) \<Rightarrow> ('w, 'a) jcode_op" where
  "with_client K operation =
     sbind (active_client K ''Jcode operation requires an active connection'') (\<lambda>c. on_sdk (operation c))"

definition clone_client_for_inflight :: "'w jcode_sdk \<Rightarrow> ('w, jcode_client) jcode_op" where
  "clone_client_for_inflight K = active_client K ''Jcode operation requires an active connection''"

definition open_clean_model_client :: "'w jcode_sdk \<Rightarrow> ('w, jcode_client) jcode_op" where
  "open_clean_model_client K =
     sbind (active_client K ''Jcode model probe requires an active connection'') (\<lambda>c.
       sbind (jget jr_config) (\<lambda>config.
       stry (on_sdk (jk_connect K
               \<lparr>no_socket_path = Some (jk_socket_path K c),
                no_client_name = lit ''vibecoder-model-sidecar/'' @ jk_package_version K,
                no_request_timeout_ms = jn_request_timeout_ms config, no_ensure_runtime = False\<rparr>))
         (\<lambda>opened. case opened of
            Inr m \<Rightarrow> sreturn m
          | Inl e \<Rightarrow> sfail (into_domain_error (from_sdk e)))))"

section \<open>The session registry\<close>

definition session_binding_of :: "session_id \<Rightarrow> ('w, session_binding option) jcode_op" where
  "session_binding_of sid = jget (\<lambda>s. jr_bindings s (sid_text sid))"

definition is_attached_on_generation :: "session_id \<Rightarrow> u64 \<Rightarrow> ('w, bool) jcode_op" where
  "is_attached_on_generation sid generation =
     jget (\<lambda>s. jr_attached_session s = Some (sid_text sid)
       \<and> (case jr_bindings s (sid_text sid) of
            None \<Rightarrow> False | Some b \<Rightarrow> sb_connection_generation b = generation))"

definition mark_attached :: "session_id \<Rightarrow> project_id \<Rightarrow> path \<Rightarrow> u64 \<Rightarrow> ('w, unit) jcode_op" where
  "mark_attached sid pid root generation s =
     (if (case jr_bindings s (sid_text sid) of
            None \<Rightarrow> False
          | Some b \<Rightarrow> sb_project_id b \<noteq> pid \<or> \<not> path_eq (sb_project_root b) root)
      then (Inl (InvalidRequest ''session id is already bound to a different project''), s)
      else (Inr (), s\<lparr>jr_bindings := (jr_bindings s)(sid_text sid \<mapsto>
                \<lparr>sb_project_id = pid, sb_project_root = root, sb_connection_generation = generation\<rparr>),
              jr_attached_session := Some (sid_text sid)\<rparr>))"

definition clear_attachment :: "('w, unit) jcode_op" where
  "clear_attachment = tell (\<lambda>s. s\<lparr>jr_attached_session := None\<rparr>)"

definition canonical_project_root :: "'w jcode_sdk \<Rightarrow> project_ref \<Rightarrow> ('w, vibecoder_error, path) eff" where
  "canonical_project_root K project =
     (if \<not> is_absolute (pr_root project)
      then sfail (InvalidRequest ''project root must be an absolute path before creating an agent session'')
      else sbind (smap_err (InvalidRequest
          ''project root must exist and be accessible before creating an agent session'')
          (jk_canonicalize K (pr_root project)))
      (\<lambda>canonical. sbind (ask (jk_is_dir K canonical)) (\<lambda>dir.
         if \<not> dir then sfail (InvalidRequest ''project root must point to a directory'')
         else if to_str canonical = None
         then sfail (InvalidRequest ''project root must be valid UTF-8 for the Jcode harness'')
         else sreturn canonical)))"

definition jcode_session_char :: "rchar \<Rightarrow> bool" where
  "jcode_session_char ch \<longleftrightarrow> is_ascii_alphanumeric ch \<or> ch = 95 \<or> ch = 45"

definition validate_jcode_session_id :: "session_id \<Rightarrow> unit result" where
  "validate_jcode_session_id sid =
     (if sid_text sid = [] \<or> byte_len (sid_text sid) > 128 \<or> \<not> list_all jcode_session_char (sid_text sid)
      then Inl (InvalidRequest ''Jcode session id has an invalid format'') else Inr ())"

definition verify_attached_session_id :: "session_info \<Rightarrow> session_id option \<Rightarrow> session_id result" where
  "verify_attached_session_id attached expected =
     (case session_id_parse (si_session_id attached) of
        Inl _ \<Rightarrow> Inl (Agent ''Jcode returned an invalid session identifier'')
      | Inr actual \<Rightarrow>
          (case validate_jcode_session_id actual of
             Inl _ \<Rightarrow> Inl (Agent ''Jcode returned a malformed session identifier'')
           | Inr _ \<Rightarrow>
               if (case expected of None \<Rightarrow> False | Some e \<Rightarrow> actual \<noteq> e)
               then Inl (Agent ''Jcode attached a different session than requested'')
               else Inr actual))"

definition session_metadata :: "session_info list \<Rightarrow> session_id \<Rightarrow> session_info result" where
  "session_metadata sessions sid =
     (case filter (\<lambda>i. si_session_id i = sid_text sid) sessions of
        [] \<Rightarrow> Inl (Agent
          ''Jcode session metadata is unavailable, so project identity cannot be verified'')
      | [i] \<Rightarrow> Inr i
      | _ \<Rightarrow> Inl (Agent ''Jcode returned duplicate metadata for one session''))"

definition verify_session_project ::
    "'w jcode_sdk \<Rightarrow> session_info \<Rightarrow> path \<Rightarrow> ('w, vibecoder_error, unit) eff" where
  "verify_session_project K metadata expected_root =
     (case si_working_dir metadata of
        None \<Rightarrow> sfail (Agent ''Jcode session did not report a working directory'')
      | Some dir \<Rightarrow>
          if trim dir = [] then sfail (Agent ''Jcode session reported an empty working directory'')
          else if \<not> is_absolute (Utf8Path dir)
          then sfail (Agent
            ''Jcode session reported a relative working directory; project identity is ambiguous'')
          else sbind (smap_err (Agent ''Jcode session working directory could not be verified'')
                 (jk_canonicalize K (Utf8Path dir)))
            (\<lambda>actual_root. if \<not> path_eq actual_root expected_root
               then sfail (Agent
                 ''Jcode session working directory does not match the expected project'')
               else sreturn ()))"

definition corroborate_new_session_project ::
    "'w jcode_sdk \<Rightarrow> session_info list \<Rightarrow> session_id \<Rightarrow> path \<Rightarrow> ('w, vibecoder_error, unit) eff" where
  "corroborate_new_session_project K sessions sid expected_root =
     (case filter (\<lambda>i. si_session_id i = sid_text sid) sessions of
        [] \<Rightarrow> sreturn ()
      | [metadata] \<Rightarrow>
          if si_working_dir metadata = None then sreturn ()
          else verify_session_project K metadata expected_root
      | _ \<Rightarrow> sfail (Agent ''Jcode returned duplicate metadata for one session''))"

section \<open>Models\<close>

definition JCODE_MAX_MODEL_ID_BYTES :: nat where "JCODE_MAX_MODEL_ID_BYTES = 512"
definition JCODE_MAX_PROVIDER_BYTES :: nat where "JCODE_MAX_PROVIDER_BYTES = 128"

definition is_verified :: "u64 \<Rightarrow> 'w jcode_runtime \<Rightarrow> bool" where
  "is_verified generation s \<longleftrightarrow> jr_verified_generation s = Some generation"

definition mark_verified :: "u64 \<Rightarrow> ('w, unit) jcode_op" where
  "mark_verified generation = tell (\<lambda>s. s\<lparr>jr_verified_generation := Some generation\<rparr>)"

fun wait_for_fresh_model_probe :: "probe_reading list \<Rightarrow> session_id \<Rightarrow> unit result" where
  "wait_for_fresh_model_probe [] sid =
     Inl (Agent ''Jcode model metadata stream ended or timed out after session attachment'')"
| "wait_for_fresh_model_probe ((remaining, event) # readings) sid =
     (if remaining = 0
      then Inl (Agent ''Jcode did not publish fresh model metadata after session attachment'')
      else (case event of
        Some (EvModelInfo observed provider model) \<Rightarrow>
          if observed = sid_text sid then Inr () else wait_for_fresh_model_probe readings sid
      | Some _ \<Rightarrow> wait_for_fresh_model_probe readings sid
      | None \<Rightarrow>
          Inl (Agent ''Jcode model metadata stream ended or timed out after session attachment'')))"

definition validate_model_component :: "string \<Rightarrow> rstring \<Rightarrow> nat \<Rightarrow> unit result" where
  "validate_model_component label value max_bytes =
     (if value = [] \<or> trim value \<noteq> value \<or> byte_len value > max_bytes
      then Inl (InvalidRequest (label @ '' is empty, padded, or too long''))
      else if list_ex is_control value
      then Inl (InvalidRequest (label @ '' contains control characters'')) else Inr ())"

definition validate_model_ref :: "model_ref \<Rightarrow> unit result" where
  "validate_model_ref m =
     rbind (validate_model_component ''model id'' (mr_id m) JCODE_MAX_MODEL_ID_BYTES) (\<lambda>_.
       case mr_provider m of
         None \<Rightarrow> Inr ()
       | Some p \<Rightarrow> validate_model_component ''model provider'' p JCODE_MAX_PROVIDER_BYTES)"

text \<open>The providers of every model with an available route, each provider once.\<close>

fun providers_from ::
    "(rstring \<rightharpoonup> rstring list) \<Rightarrow> model_route_info list \<Rightarrow> (rstring \<rightharpoonup> rstring list) result" where
  "providers_from by_model [] = Inr by_model"
| "providers_from by_model (route # routes) =
     (if \<not> mi_available route then providers_from by_model routes
      else case validate_model_ref \<lparr>mr_id = mi_model route, mr_display_name = None,
                  mr_provider = Some (mi_provider route)\<rparr> of
          Inl _ \<Rightarrow> Inl (Agent ''Jcode returned malformed model-route metadata'')
        | Inr _ \<Rightarrow> providers_from (by_model(mi_model route \<mapsto>
              List.insert (mi_provider route)
                (case by_model (mi_model route) of None \<Rightarrow> [] | Some ps \<Rightarrow> ps))) routes)"

definition providers_by_model :: "model_route_info list \<Rightarrow> (rstring \<rightharpoonup> rstring list) result" where
  "providers_by_model routes = providers_from (\<lambda>_. None) routes"

definition sole_provider :: "(rstring \<rightharpoonup> rstring list) \<Rightarrow> rstring \<Rightarrow> rstring option" where
  "sole_provider providers model =
     (case providers model of Some [p] \<Rightarrow> Some p | _ \<Rightarrow> None)"

fun model_catalog_of ::
    "(rstring \<rightharpoonup> rstring list) \<Rightarrow> rstring list \<Rightarrow> rstring list \<Rightarrow> model_ref list result" where
  "model_catalog_of providers seen [] = Inr []"
| "model_catalog_of providers seen (i # ids) =
     (case validate_model_ref \<lparr>mr_id = i, mr_display_name = None, mr_provider = None\<rparr> of
        Inl _ \<Rightarrow> Inl (Agent ''Jcode returned a malformed model identifier'')
      | Inr _ \<Rightarrow>
          if i \<in> set seen then Inl (Agent ''Jcode returned duplicate model identifiers'')
          else rbind (model_catalog_of providers (i # seen) ids) (\<lambda>rest.
            Inr (\<lparr>mr_id = i, mr_display_name = None, mr_provider = sole_provider providers i\<rparr> # rest)))"

definition discover_models ::
    "'w jcode_sdk \<Rightarrow> session_id \<Rightarrow> jcode_client \<Rightarrow> ('w, vibecoder_error, model_ref list) eff" where
  "discover_models K sid c =
     sbind (sdk_op ''list_models'' (jk_list_models K c (sid_text sid))) (\<lambda>(models, current).
     sbind (sdk_op ''model_runtime_info'' (jk_get_runtime_info K c (sid_text sid))) (\<lambda>runtime.
     if ri_session_id runtime \<noteq> sid_text sid
     then sfail (Agent ''Jcode returned model metadata for a different session'')
     else slift (rbind (providers_by_model (ri_routes runtime)) (\<lambda>providers.
       model_catalog_of providers [] models))))"

definition check_catalog_provider ::
    "model_ref \<Rightarrow> model_ref \<Rightarrow> rstring option \<Rightarrow> unit result" where
  "check_catalog_provider requested available transport_provider =
     (case transport_provider of
        Some transport \<Rightarrow>
          if mr_provider available \<noteq> Some transport
          then Inl (InvalidRequest
            ''Jcode bridged model route does not report the expected transport provider'')
          else Inr ()
      | None \<Rightarrow>
          (case mr_provider requested of
             None \<Rightarrow> Inr ()
           | Some expected \<Rightarrow>
               (case mr_provider available of
                  Some actual \<Rightarrow>
                    if actual = expected then Inr ()
                    else Inl (InvalidRequest
                      ''requested model provider does not match Jcode runtime metadata'')
                | None \<Rightarrow> Inl (InvalidRequest
                    ''requested model provider cannot be unambiguously verified from Jcode routes''))))"

definition select_model_from_catalog ::
    "'w jcode_sdk \<Rightarrow> session_id \<Rightarrow> model_ref \<Rightarrow> model_ref list \<Rightarrow> rstring option \<Rightarrow> jcode_client
      \<Rightarrow> ('w, vibecoder_error, unit) eff" where
  "select_model_from_catalog K sid requested catalog transport_provider c =
     sbind (slift (validate_model_ref requested)) (\<lambda>_.
       case find (\<lambda>m. mr_id m = mr_id requested) catalog of
         None \<Rightarrow> sfail (InvalidRequest ''requested model is not in this session's current Jcode catalog'')
       | Some available \<Rightarrow>
           sbind (slift (check_catalog_provider requested available transport_provider))
             (\<lambda>_. sdk_op ''set_model'' (jk_set_model K c (sid_text sid) (mr_id requested))))"

definition check_active_model ::
    "session_id \<Rightarrow> model_ref \<Rightarrow> rstring option \<Rightarrow> runtime_info \<Rightarrow> model_ref result" where
  "check_active_model sid requested transport_provider runtime =
     (if ri_session_id runtime \<noteq> sid_text sid
      then Inl (Agent ''Jcode verified a model change against a different session'')
      else (case ri_model runtime of
        None \<Rightarrow> Inl (Agent ''Jcode fresh active-model probe did not report a model identity'')
      | Some active_model \<Rightarrow>
          if active_model \<noteq> mr_id requested
          then Inl (Agent ''Jcode acknowledged a model change but a fresh probe did not report the requested model active'')
          else (case ri_provider runtime of
            None \<Rightarrow> Inl (Agent ''Jcode fresh active-provider probe did not report a provider identity'')
          | Some active_provider \<Rightarrow>
              (case transport_provider of
                 Some transport \<Rightarrow>
                   if active_provider \<noteq> transport
                   then Inl (Agent ''Jcode fresh active-provider probe does not match the attested gateway transport provider'')
                   else Inr \<lparr>mr_id = active_model, mr_display_name = mr_display_name requested,
                              mr_provider = mr_provider requested\<rparr>
               | None \<Rightarrow>
                   if mr_provider requested \<noteq> Some active_provider
                   then Inl (Agent ''Jcode fresh active-provider probe does not match the requested model provider'')
                   else Inr \<lparr>mr_id = active_model, mr_display_name = None,
                              mr_provider = Some active_provider\<rparr>))))"

definition verify_active_model ::
    "'w jcode_sdk \<Rightarrow> session_id \<Rightarrow> model_ref \<Rightarrow> rstring option \<Rightarrow> jcode_client
      \<Rightarrow> ('w, vibecoder_error, model_ref) eff" where
  "verify_active_model K sid requested transport_provider c =
     sbind (slift (validate_model_ref requested)) (\<lambda>_.
     sbind (sdk_op ''set_model_verify'' (jk_get_runtime_info K c (sid_text sid))) (\<lambda>runtime.
       slift (check_active_model sid requested transport_provider runtime)))"

end
