(* ===== verification/Jcode_Turn.thy ===== *)
theory Jcode_Turn
  imports Jcode_Session
begin

text \<open>
  One turn of the Jcode adapter: \<open>turn.rs\<close> of \<open>crates/vibecoder-agent-jcode\<close>. The registry admits one
  turn per connection, the lease of a turn is completed or dropped, and the callback \<open>on_turn_event\<close>
  handles every event of the stream while the turn runs: it answers permission requests through the
  broker, enforces the tool policy and the tool budget, and forwards what the application may see.

  The event handler of the application is a function on a state \<open>'h\<close> of its own; \<open>None\<close> is a panic,
  after which the callback no longer calls it. The two locks of the registry are not part of the state:
  a lease is completed, dropped or cancelled as one step.
\<close>

section \<open>The turn registry\<close>

definition turn_begin :: "session_id \<Rightarrow> u64 \<Rightarrow> ('w, unit) jcode_op" where
  "turn_begin sid generation s =
     (case jr_active s of
        Some t \<Rightarrow> (Inl (InvalidRequest ''a Jcode turn is already running for session''), s)
      | None \<Rightarrow> (Inr (), s\<lparr>jr_active := Some \<lparr>at_session_id = sid, at_connection_generation = generation,
                  at_cancel_requested = False, at_worker_finished = False\<rparr>\<rparr>))"

definition has_active :: "('w, bool) jcode_op" where
  "has_active = jget (\<lambda>s. jr_active s \<noteq> None)"

definition active_generation :: "session_id \<Rightarrow> ('w, u64 option) jcode_op" where
  "active_generation sid =
     jget (\<lambda>s. case jr_active s of
        None \<Rightarrow> None
      | Some t \<Rightarrow> if at_session_id t = sid \<and> \<not> at_worker_finished t
                 then Some (at_connection_generation t) else None)"

definition is_turn :: "session_id \<Rightarrow> u64 \<Rightarrow> active_turn \<Rightarrow> bool" where
  "is_turn sid generation t \<longleftrightarrow> at_session_id t = sid \<and> at_connection_generation t = generation"

definition mark_worker_finished :: "session_id \<Rightarrow> u64 \<Rightarrow> ('w, unit) jcode_op" where
  "mark_worker_finished sid generation s =
     (case jr_active s of
        None \<Rightarrow> (Inr (), s)
      | Some t \<Rightarrow>
          if \<not> is_turn sid generation t
          then (Inl (Agent ''Jcode worker completion did not match the active turn''), s)
          else (Inr (), s\<lparr>jr_active := Some (t\<lparr>at_worker_finished := True\<rparr>)\<rparr>))"

definition mark_cancel_acknowledged :: "session_id \<Rightarrow> ('w, bool) jcode_op" where
  "mark_cancel_acknowledged sid s =
     (case jr_active s of
        None \<Rightarrow> (Inr False, s)
      | Some t \<Rightarrow>
          if at_session_id t \<noteq> sid
          then (Inl (InvalidRequest ''the requested session does not own the active Jcode turn''), s)
          else (Inr True, s\<lparr>jr_active := Some (t\<lparr>at_cancel_requested := True\<rparr>)\<rparr>))"

definition turn_finish :: "session_id \<Rightarrow> u64 \<Rightarrow> ('w, bool) jcode_op" where
  "turn_finish sid generation s =
     (case jr_active s of
        None \<Rightarrow> (Inl (Agent ''Jcode active-turn state disappeared before completion''), s)
      | Some t \<Rightarrow>
          if \<not> is_turn sid generation t
          then (Inl (Agent ''Jcode active-turn identity changed before completion''), s)
          else (Inr (at_cancel_requested t), s\<lparr>jr_active := None\<rparr>))"

definition should_cancel_abandoned :: "session_id \<Rightarrow> u64 \<Rightarrow> 'w jcode_runtime \<Rightarrow> bool" where
  "should_cancel_abandoned sid generation s \<longleftrightarrow>
     (case jr_active s of None \<Rightarrow> False | Some t \<Rightarrow> is_turn sid generation t \<and> \<not> at_worker_finished t)"

definition force_clear :: "session_id \<Rightarrow> u64 \<Rightarrow> ('w, unit) jcode_op" where
  "force_clear sid generation = tell (\<lambda>s.
     if (case jr_active s of None \<Rightarrow> False | Some t \<Rightarrow> is_turn sid generation t)
     then s\<lparr>jr_active := None\<rparr> else s)"

definition permissions_finish_turn :: "session_id \<Rightarrow> u64 \<Rightarrow> ('w, unit) jcode_op" where
  "permissions_finish_turn sid generation =
     tell (\<lambda>s. s\<lparr>jr_permissions := finish_turn (jr_permissions s) sid generation\<rparr>)"

text \<open>The lease of a turn: dropped when the caller goes away, completed when the worker returned.\<close>

definition lease_drop :: "'w jcode_sdk \<Rightarrow> session_id \<Rightarrow> u64 \<Rightarrow> jcode_client \<Rightarrow> ('w, unit) jcode_op" where
  "lease_drop K sid generation cancel_client =
     sbind (jget (should_cancel_abandoned sid generation)) (\<lambda>running.
     sbind (if running
            then stry (on_sdk (jk_cancel K cancel_client (sid_text sid))) (\<lambda>_. sreturn ())
            else sreturn ()) (\<lambda>_.
     sbind (force_clear sid generation) (\<lambda>_. permissions_finish_turn sid generation)))"

definition lease_complete :: "'w jcode_sdk \<Rightarrow> session_id \<Rightarrow> u64 \<Rightarrow> jcode_client \<Rightarrow> ('w, bool) jcode_op" where
  "lease_complete K sid generation cancel_client =
     stry (turn_finish sid generation) (\<lambda>finished. case finished of
        Inr cancelled \<Rightarrow> sbind (permissions_finish_turn sid generation) (\<lambda>_. sreturn cancelled)
      | Inl e \<Rightarrow> sbind (lease_drop K sid generation cancel_client) (\<lambda>_. sfail e))"

section \<open>Events of a running turn\<close>

text \<open>What the callback captured when the turn started.\<close>

record turn_options =
  to_session :: session_id
  to_client :: jcode_client
  to_permissions_supported :: bool
  to_generation :: u64
  to_max_tool_calls :: "u32 option"
  to_allowed_tools :: "rstring list option"

text \<open>What the callback may change besides the broker: the handler slot, the safety flags and the
  counter of tool calls.\<close>

record 'h turn_callback =
  tb_handler :: "'h option"
  tb_permission_protocol_failure :: bool
  tb_tool_limit_exceeded :: bool
  tb_tool_policy_failure :: bool
  tb_tool_calls_seen :: u32

definition turn_callback_new :: "'h option \<Rightarrow> 'h turn_callback" where
  "turn_callback_new handler =
     \<lparr>tb_handler = handler, tb_permission_protocol_failure = False, tb_tool_limit_exceeded = False,
      tb_tool_policy_failure = False, tb_tool_calls_seen = 0\<rparr>"

type_synonym 'h event_handler = "agent_event \<Rightarrow> 'h \<Rightarrow> 'h option"

definition dispatch_event ::
    "'h event_handler \<Rightarrow> agent_event \<Rightarrow> 'h turn_callback \<Rightarrow> bool \<times> 'h turn_callback" where
  "dispatch_event call event tb =
     (case tb_handler tb of
        None \<Rightarrow> (False, tb)
      | Some h \<Rightarrow>
          (case call event h of
             None \<Rightarrow> (False, tb\<lparr>tb_handler := None\<rparr>)
           | Some h' \<Rightarrow> (True, tb\<lparr>tb_handler := Some h'\<rparr>)))"

text \<open>Only application-safe events are forwarded, and only those of the expected session.\<close>

definition map_stream_event :: "session_id \<Rightarrow> api_event \<Rightarrow> agent_event option" where
  "map_stream_event expected event =
     (case event of
        EvTextDelta sid txt \<Rightarrow> if sid = sid_text expected then Some (TextDelta txt) else None
      | EvMessageAccepted sid \<Rightarrow> if sid = sid_text expected then Some MessageAccepted else None
      | EvToolStart sid call_id name \<Rightarrow>
          if sid = sid_text expected then Some (ToolStarted name call_id) else None
      | EvToolDone sid call_id name output error \<Rightarrow>
          if sid = sid_text expected
          then Some (ToolFinished name call_id (error = None) output error) else None
      | EvBackgroundProgress sid task_id label percent summary finished \<Rightarrow>
          if sid = sid_text expected
          then Some (BackgroundProgress task_id label percent summary finished) else None
      | EvSessionStatus sid status \<Rightarrow>
          if sid = sid_text expected then Some (SessionStatus status) else None
      | EvTokenUsage sid inp out cache \<Rightarrow>
          if sid = sid_text expected
          then Some (TokenUsage \<lparr>tu_input = inp, tu_output = out, tu_cache_read_input = cache\<rparr>)
          else None
      | EvTurnDone sid \<Rightarrow> if sid = sid_text expected then Some TurnCompleted else None
      | _ \<Rightarrow> None)"

text \<open>The callback works on its own state, the broker and the SDK.\<close>

record ('h, 'w) turn_context =
  tx_callback :: "'h turn_callback"
  tx_permissions :: permission_state
  tx_world :: 'w

definition sdk_try :: "('w, sdk_error, unit) eff \<Rightarrow> ('h, 'w) turn_context \<Rightarrow> bool \<times> ('h, 'w) turn_context" where
  "sdk_try m x = (case m (tx_world x) of (r, w) \<Rightarrow> (is_ok r, x\<lparr>tx_world := w\<rparr>))"

definition fail_permission_protocol ::
    "'w jcode_sdk \<Rightarrow> turn_options \<Rightarrow> rstring \<Rightarrow> ('h, 'w) turn_context \<Rightarrow> ('h, 'w) turn_context" where
  "fail_permission_protocol K opts request_id x =
     (let x1 = x\<lparr>tx_callback := (tx_callback x)\<lparr>tb_permission_protocol_failure := True\<rparr>\<rparr>;
          x2 = (if request_id_is_safe_for_response request_id
                then snd (sdk_try (jk_respond K (to_client opts) (sid_text (to_session opts)) request_id False) x1)
                else x1)
      in snd (sdk_try (jk_cancel K (to_client opts) (sid_text (to_session opts))) x2))"

definition on_permission_request ::
    "'w jcode_sdk \<Rightarrow> 'h event_handler \<Rightarrow> turn_options \<Rightarrow> rstring \<Rightarrow> rstring \<Rightarrow> rstring
      \<Rightarrow> ('h, 'w) turn_context \<Rightarrow> ('h, 'w) turn_context" where
  "on_permission_request K call opts request_id tool_name description x =
     (if \<not> to_permissions_supported opts then fail_permission_protocol K opts request_id x
      else case observe_request (tx_permissions x) (to_session opts) (to_generation opts) request_id
             tool_name description of (observed, ps) \<Rightarrow>
        (let x1 = x\<lparr>tx_permissions := ps\<rparr>
         in case observed of
            Inl e \<Rightarrow> fail_permission_protocol K opts request_id x1
          | Inr (Prompt request) \<Rightarrow>
              (case dispatch_event call (PermissionRequired request) (tx_callback x1) of (shown, tb) \<Rightarrow>
                (let x2 = x1\<lparr>tx_callback := tb\<rparr>
                 in if shown then x2 else fail_permission_protocol K opts request_id x2))
          | Inr (AutoApprove pending) \<Rightarrow>
              (case sdk_try (jk_respond K (to_client opts) (sid_text (to_session opts)) request_id True) x1 of
                 (delivered, x2) \<Rightarrow>
                   if delivered
                   then (case complete_response (tx_permissions x2) pending AllowOnce of (r, ps2) \<Rightarrow>
                      (let x3 = x2\<lparr>tx_permissions := ps2\<rparr>
                       in if is_ok r then x3 else fail_permission_protocol K opts request_id x3))
                   else fail_permission_protocol K opts request_id
                      (x2\<lparr>tx_permissions := abort_response (tx_permissions x2) pending\<rparr>))))"

definition stop_turn ::
    "'w jcode_sdk \<Rightarrow> turn_options \<Rightarrow> ('h turn_callback \<Rightarrow> 'h turn_callback)
      \<Rightarrow> ('h, 'w) turn_context \<Rightarrow> ('h, 'w) turn_context" where
  "stop_turn K opts flag x =
     snd (sdk_try (jk_cancel K (to_client opts) (sid_text (to_session opts)))
       (x\<lparr>tx_callback := flag (tx_callback x)\<rparr>))"

definition forward_event ::
    "'h event_handler \<Rightarrow> turn_options \<Rightarrow> api_event \<Rightarrow> ('h, 'w) turn_context \<Rightarrow> ('h, 'w) turn_context" where
  "forward_event call opts event x =
     (case map_stream_event (to_session opts) event of
        None \<Rightarrow> x
      | Some e \<Rightarrow> x\<lparr>tx_callback := snd (dispatch_event call e (tx_callback x))\<rparr>)"

definition on_turn_event ::
    "'w jcode_sdk \<Rightarrow> 'h event_handler \<Rightarrow> turn_options \<Rightarrow> api_event
      \<Rightarrow> ('h, 'w) turn_context \<Rightarrow> ('h, 'w) turn_context" where
  "on_turn_event K call opts event x =
     (case event of
        EvPermissionRequest sid request_id tool_name description \<Rightarrow>
          if sid \<noteq> sid_text (to_session opts) then x
          else on_permission_request K call opts request_id tool_name description x
      | EvToolStart sid call_id name \<Rightarrow>
          if sid \<noteq> sid_text (to_session opts) then forward_event call opts event x
          else if (case to_allowed_tools opts of None \<Rightarrow> False | Some allowed \<Rightarrow> name \<notin> set allowed)
          then stop_turn K opts (\<lambda>tb. tb\<lparr>tb_tool_policy_failure := True\<rparr>) x
          else (case to_max_tool_calls opts of
             None \<Rightarrow> forward_event call opts event x
           | Some limit \<Rightarrow>
               (let x1 = x\<lparr>tx_callback := (tx_callback x)
                        \<lparr>tb_tool_calls_seen := tb_tool_calls_seen (tx_callback x) + 1\<rparr>\<rparr>
                in if tb_tool_calls_seen (tx_callback x1) > limit
                   then stop_turn K opts (\<lambda>tb. tb\<lparr>tb_tool_limit_exceeded := True\<rparr>) x1
                   else forward_event call opts event x1))
      | _ \<Rightarrow> forward_event call opts event x)"

definition on_turn_events ::
    "'w jcode_sdk \<Rightarrow> 'h event_handler \<Rightarrow> turn_options \<Rightarrow> api_event list
      \<Rightarrow> ('h, 'w) turn_context \<Rightarrow> ('h, 'w) turn_context" where
  "on_turn_events K call opts events x = fold (on_turn_event K call opts) events x"

section \<open>The result of a turn\<close>

record sdk_tool_call =
  sk_call_id :: rstring
  sk_name :: rstring
  sk_output :: rstring
  sk_error :: "rstring option"

record sdk_usage =
  su_input :: u64
  su_output :: u64
  su_cache_read_input :: "u64 option"

record sdk_turn_result =
  sr_text :: rstring
  sr_tool_calls :: "sdk_tool_call list"
  sr_usage :: "sdk_usage option"

definition map_turn_result :: "sdk_turn_result \<Rightarrow> bool \<Rightarrow> turn_result" where
  "map_turn_result turn cancelled =
     \<lparr>tr_text = sr_text turn, tr_cancelled = cancelled,
      tr_tool_calls = map (\<lambda>c. \<lparr>tc_call_id = sk_call_id c, tc_tool = sk_name c, tc_output = sk_output c,
        tc_error = sk_error c\<rparr>) (sr_tool_calls turn),
      tr_usage = map_option (\<lambda>u. \<lparr>tu_input = su_input u, tu_output = su_output u,
        tu_cache_read_input = su_cache_read_input u\<rparr>) (sr_usage turn)\<rparr>"

definition turn_outcome ::
    "'h turn_callback \<Rightarrow> bool \<Rightarrow> sdk_error + sdk_turn_result \<Rightarrow> turn_result result" where
  "turn_outcome tb cancelled sdk_result =
     (if tb_permission_protocol_failure tb
      then Inl (Agent ''Jcode permission protocol failed closed for this turn'')
      else if tb_tool_limit_exceeded tb
      then Inl (Agent ''Jcode bridged tool-call limit exceeded for this turn'')
      else if tb_tool_policy_failure tb
      then Inl (Agent ''Jcode bridged tool policy failed closed for this turn'')
      else case sdk_result of
        Inr turn \<Rightarrow> Inr (map_turn_result turn cancelled)
      | Inl e \<Rightarrow> if cancelled then Inl vibecoder_error.Cancelled else Inl (map_operation_error ''run_turn'' e))"

end
