(* ===== verification/Jcode_Runtime.thy ===== *)
theory Jcode_Runtime
  imports Jcode_Turn
begin

text \<open>
  The agent runtime of the Jcode adapter: \<open>runtime.rs\<close> of \<open>crates/vibecoder-agent-jcode\<close>. Every call of
  the trait that holds the session gate is one operation. A turn is several: its start under the gate, the
  events of its worker, the return of the worker, and the completion or the drop of its lease; a
  permission answer is reserved under the gate and acknowledged after the network call. \<open>jcode_step\<close> is
  any of these operations, in any order; between two steps the SDK and the disk may change at will.
\<close>

section \<open>Connection calls\<close>

text \<open>Calls that are refused while a turn is active.\<close>

definition when_idle :: "string \<Rightarrow> ('w, 'a) jcode_op \<Rightarrow> ('w, 'a) jcode_op" where
  "when_idle busy m = sbind has_active (\<lambda>active. if active then sfail (InvalidRequest busy) else m)"

definition jcode_connect :: "'w jcode_sdk \<Rightarrow> ('w, jcode_connection_snapshot) jcode_op" where
  "jcode_connect K =
     when_idle ''cannot connect/recover Jcode while a turn is active; cancel the turn first'' (connect_locked K)"

definition jcode_disconnect :: "'w jcode_sdk \<Rightarrow> ('w, jcode_connection_snapshot) jcode_op" where
  "jcode_disconnect K =
     when_idle ''cannot disconnect Jcode while a turn is active; cancel the turn first''
       (sbind (disconnect_locked K) (\<lambda>snap. sbind clear_attachment (\<lambda>_. sreturn snap)))"

definition jcode_reconnect :: "'w jcode_sdk \<Rightarrow> ('w, jcode_connection_snapshot) jcode_op" where
  "jcode_reconnect K =
     when_idle ''cannot reconnect Jcode while a turn is active; cancel the turn first''
       (sbind (manager_reconnect K) (\<lambda>snap. sbind clear_attachment (\<lambda>_. sreturn snap)))"

definition capabilities_from_snapshot ::
    "'w jcode_runtime \<Rightarrow> jcode_connection_snapshot \<Rightarrow> runtime_capabilities" where
  "capabilities_from_snapshot s snap =
     (case cs_state snap of
        Connected i \<Rightarrow>
          \<lparr>rc_sessions = lit ''sessions'' \<in> set (js_capabilities i),
           rc_streaming_events = lit ''streaming'' \<in> set (js_capabilities i),
           rc_permissions = lit ''permissions'' \<in> set (js_capabilities i),
           rc_model_selection = is_verified (cs_generation snap) s,
           rc_file_tools = (jn_model_gateway_bridge (jr_config s) \<noteq> None
             \<and> lit ''session_files'' \<in> set (js_capabilities i)),
           rc_command_tools = False\<rparr>
      | _ \<Rightarrow> runtime_capabilities_none)"

definition jcode_capabilities :: "'w jcode_sdk \<Rightarrow> ('w, runtime_capabilities) jcode_op" where
  "jcode_capabilities K =
     sbind (connection_status K) (\<lambda>snap. jget (\<lambda>s. capabilities_from_snapshot s snap))"

definition jcode_ensure_ready :: "'w jcode_sdk \<Rightarrow> ('w, runtime_capabilities) jcode_op" where
  "jcode_ensure_ready K =
     sbind (jcode_connect K) (\<lambda>snap. sbind (jget (\<lambda>s. capabilities_from_snapshot s snap)) (\<lambda>caps.
       if \<not> rc_sessions caps then sfail (MissingCapability ''Jcode harness'' ''sessions'')
       else sreturn caps))"

definition ensure_session_transport :: "'w jcode_sdk \<Rightarrow> ('w, u64) jcode_op" where
  "ensure_session_transport K =
     sbind (connect_locked K) (\<lambda>snap. case cs_state snap of
        Connected i \<Rightarrow>
          if lit ''sessions'' \<notin> set (js_capabilities i)
          then sfail (MissingCapability ''Jcode harness'' ''sessions'') else sreturn (cs_generation snap)
      | _ \<Rightarrow> sfail (Agent ''Jcode session operation requires a healthy connected harness''))"

definition reset_unverified_attachment :: "'w jcode_sdk \<Rightarrow> ('w, unit) jcode_op" where
  "reset_unverified_attachment K =
     stry (disconnect_locked K) (\<lambda>_. stry clear_attachment (\<lambda>_. sreturn ()))"

section \<open>Verified attachment\<close>

definition attach_and_verify ::
    "'w jcode_sdk \<Rightarrow> string \<Rightarrow> string \<Rightarrow> session_id \<Rightarrow> path \<Rightarrow> jcode_client
      \<Rightarrow> ('w, vibecoder_error, session_id) eff" where
  "attach_and_verify K attach_op metadata_op sid root c =
     sbind (sdk_op attach_op (jk_attach_session K c (sid_text sid))) (\<lambda>attached.
     sbind (slift (verify_attached_session_id attached (Some sid))) (\<lambda>actual.
     sbind (sdk_op metadata_op (jk_list_sessions K c)) (\<lambda>sessions.
     sbind (slift (session_metadata sessions actual)) (\<lambda>metadata.
     sbind (verify_session_project K metadata root) (\<lambda>_. sreturn actual)))))"

definition bind_verified ::
    "'w jcode_sdk \<Rightarrow> ('w, session_id) jcode_op \<Rightarrow> project_id \<Rightarrow> path \<Rightarrow> u64 \<Rightarrow> ('w, session_id) jcode_op" where
  "bind_verified K verification pid root generation =
     stry verification (\<lambda>r. case r of
        Inr actual \<Rightarrow> sbind (mark_attached actual pid root generation) (\<lambda>_. sreturn actual)
      | Inl e \<Rightarrow> sbind (reset_unverified_attachment K) (\<lambda>_. sfail e))"

definition attach_verified ::
    "'w jcode_sdk \<Rightarrow> project_ref \<Rightarrow> session_id \<Rightarrow> path \<Rightarrow> u64 \<Rightarrow> ('w, unit) jcode_op" where
  "attach_verified K project sid expected_root generation =
     sbind (bind_verified K
         (with_client K (attach_and_verify K ''resume_session'' ''resume_session_metadata'' sid expected_root))
         (pr_id project) expected_root generation) (\<lambda>_. sreturn ())"

definition check_bound_root :: "'w jcode_sdk \<Rightarrow> session_binding \<Rightarrow> ('w, vibecoder_error, unit) eff" where
  "check_bound_root K binding =
     sbind (smap_err (InvalidRequest
          ''bound project root is no longer accessible; resume the session explicitly'')
          (jk_canonicalize K (sb_project_root binding)))
       (\<lambda>root. if \<not> path_eq root (sb_project_root binding)
          then sfail (InvalidRequest ''bound project root identity changed; resume the session explicitly'')
          else sreturn ())"

definition ensure_bound_session_attached ::
    "'w jcode_sdk \<Rightarrow> session_id \<Rightarrow> session_binding \<Rightarrow> u64 \<Rightarrow> ('w, unit) jcode_op" where
  "ensure_bound_session_attached K sid binding generation =
     sbind (is_attached_on_generation sid generation) (\<lambda>attached.
       if attached then sreturn ()
       else sbind (on_sdk (check_bound_root K binding)) (\<lambda>_.
         sbind (bind_verified K
           (with_client K (attach_and_verify K ''session_reattach'' ''session_reattach_metadata'' sid
             (sb_project_root binding)))
           (sb_project_id binding) (sb_project_root binding) generation) (\<lambda>_. sreturn ())))"

text \<open>A sidecar client is dropped on every way out of the scope that opened it.\<close>

definition dropping :: "'w jcode_sdk \<Rightarrow> jcode_client \<Rightarrow> ('w, 'a) jcode_op \<Rightarrow> ('w, 'a) jcode_op" where
  "dropping K c m = stry m (\<lambda>r. sbind (on_sdk (tell (jk_drop K c))) (\<lambda>_. slift r))"

definition probe_session ::
    "'w jcode_sdk \<Rightarrow> session_id \<Rightarrow> session_binding \<Rightarrow> u64 \<Rightarrow> jcode_client
      \<Rightarrow> ('w, vibecoder_error, unit) eff" where
  "probe_session K sid binding timeout c =
     sbind (tell (jk_subscribe K c (sid_text sid))) (\<lambda>_.
     sbind (attach_and_verify K ''model_session_refresh'' ''model_session_refresh_metadata'' sid
         (sb_project_root binding) c) (\<lambda>actual.
     sbind (ask (jk_readings K c (sid_text sid) timeout)) (\<lambda>readings.
       slift (wait_for_fresh_model_probe readings actual))))"

definition open_fresh_model_client ::
    "'w jcode_sdk \<Rightarrow> session_id \<Rightarrow> session_binding \<Rightarrow> ('w, jcode_client) jcode_op" where
  "open_fresh_model_client K sid binding =
     sbind (on_sdk (check_bound_root K binding)) (\<lambda>_.
     sbind (jget (\<lambda>s. jn_request_timeout_ms (jr_config s))) (\<lambda>timeout.
     sbind (open_clean_model_client K) (\<lambda>c.
     stry (on_sdk (probe_session K sid binding timeout c)) (\<lambda>r. case r of
        Inr _ \<Rightarrow> sreturn c
      | Inl e \<Rightarrow> sbind (on_sdk (tell (jk_drop K c))) (\<lambda>_. sfail e)))))"

definition verify_transport_generation :: "'w jcode_sdk \<Rightarrow> u64 \<Rightarrow> ('w, unit) jcode_op" where
  "verify_transport_generation K expected =
     sbind (connection_status K) (\<lambda>snap.
       if (case cs_state snap of Connected i \<Rightarrow> cs_generation snap = expected | _ \<Rightarrow> False) then sreturn ()
       else sfail (Agent ''Jcode owner transport changed during model discovery''))"

section \<open>Sessions\<close>

definition create_and_verify ::
    "'w jcode_sdk \<Rightarrow> rstring \<Rightarrow> path \<Rightarrow> jcode_client \<Rightarrow> ('w, vibecoder_error, session_id) eff" where
  "create_and_verify K working_dir root c =
     sbind (sdk_op ''create_session'' (jk_create_session K c (Some working_dir))) (\<lambda>attached.
     sbind (slift (verify_attached_session_id attached None)) (\<lambda>sid.
     sbind (sdk_op ''create_session_metadata'' (jk_list_sessions K c)) (\<lambda>sessions.
     sbind (corroborate_new_session_project K sessions sid root) (\<lambda>_. sreturn sid))))"

definition jcode_create_session ::
    "'w jcode_sdk \<Rightarrow> project_ref \<Rightarrow> model_ref option \<Rightarrow> ('w, session_id) jcode_op" where
  "jcode_create_session K project model =
     (if model \<noteq> None
      then sfail (InvalidRequest ''Jcode model selection is session-scoped and not atomic with session creation; create the session, then select its model'')
      else when_idle ''cannot create a Jcode session while a turn is active''
        (sbind (on_sdk (canonical_project_root K project)) (\<lambda>expected_root.
         sbind (ensure_session_transport K) (\<lambda>generation. case to_str expected_root of
            None \<Rightarrow> sfail (InvalidRequest ''project root must be valid UTF-8 for the Jcode harness'')
          | Some working_dir \<Rightarrow>
              bind_verified K (with_client K (create_and_verify K working_dir expected_root))
                (pr_id project) expected_root generation))))"

definition bound_elsewhere :: "session_binding \<Rightarrow> project_ref \<Rightarrow> path \<Rightarrow> bool" where
  "bound_elsewhere b project root \<longleftrightarrow>
     sb_project_id b \<noteq> pr_id project \<or> \<not> path_eq (sb_project_root b) root"

definition jcode_resume_session ::
    "'w jcode_sdk \<Rightarrow> project_ref \<Rightarrow> session_id \<Rightarrow> ('w, unit) jcode_op" where
  "jcode_resume_session K project sid =
     sbind (slift (validate_jcode_session_id sid)) (\<lambda>_.
     when_idle ''cannot resume a Jcode session while a turn is active''
       (sbind (on_sdk (canonical_project_root K project)) (\<lambda>expected_root.
        sbind (ensure_session_transport K) (\<lambda>generation.
        sbind (session_binding_of sid) (\<lambda>binding. case binding of
           Some b \<Rightarrow>
             if bound_elsewhere b project expected_root
             then sfail (InvalidRequest ''session is already bound to a different project'')
             else sbind (is_attached_on_generation sid generation) (\<lambda>attached.
               if attached then sreturn () else attach_verified K project sid expected_root generation)
         | None \<Rightarrow> attach_verified K project sid expected_root generation)))))"

definition jcode_verify_session_project_binding ::
    "'w jcode_sdk \<Rightarrow> project_ref \<Rightarrow> session_id \<Rightarrow> ('w, unit) jcode_op" where
  "jcode_verify_session_project_binding K project sid =
     sbind (slift (validate_jcode_session_id sid)) (\<lambda>_.
     sbind (on_sdk (canonical_project_root K project)) (\<lambda>expected_root.
     sbind (session_binding_of sid) (\<lambda>binding. case binding of
        None \<Rightarrow> sfail (InvalidRequest
          ''Jcode session has no verified project binding in this app process'')
      | Some b \<Rightarrow>
          if bound_elsewhere b project expected_root
          then sfail (InvalidRequest ''Jcode session is bound to a different project'')
          else sbind (connection_status K) (\<lambda>snap. case cs_state snap of
             Connected i \<Rightarrow>
               sbind (is_attached_on_generation sid (cs_generation snap)) (\<lambda>attached.
                 if sb_connection_generation b \<noteq> cs_generation snap \<or> \<not> attached
                 then sfail (Agent
                   ''Jcode session project binding is stale on the current connection generation'')
                 else sreturn ())
           | _ \<Rightarrow> sfail (Agent
               ''Jcode session project binding cannot be authorized without an active connection'')))))"

definition jcode_ensure_workspace_quiescent :: "'w jcode_sdk \<Rightarrow> project_ref \<Rightarrow> ('w, unit) jcode_op" where
  "jcode_ensure_workspace_quiescent K project =
     when_idle ''workspace checkpoint/rollback requires Jcode to have no active turn''
       (sbind (on_sdk (canonical_project_root K project)) (\<lambda>_. sreturn ()))"

definition jcode_refresh_session ::
    "'w jcode_sdk \<Rightarrow> project_ref \<Rightarrow> session_id \<Rightarrow> ('w, unit) jcode_op" where
  "jcode_refresh_session K project sid =
     sbind (slift (validate_jcode_session_id sid)) (\<lambda>_.
     sbind (on_sdk (canonical_project_root K project)) (\<lambda>expected_root.
     when_idle ''cannot refresh Jcode workspace identity while a turn is active''
       (sbind (ensure_session_transport K) (\<lambda>generation.
        sbind clear_attachment (\<lambda>_. attach_verified K project sid expected_root generation)))))"

section \<open>Models\<close>

definition fresh_model_catalog ::
    "'w jcode_sdk \<Rightarrow> session_id \<Rightarrow> session_binding \<Rightarrow> u64 \<Rightarrow> ('w, model_ref list) jcode_op" where
  "fresh_model_catalog K sid binding generation =
     sbind (open_fresh_model_client K sid binding) (\<lambda>c. dropping K c
       (sbind (on_sdk (discover_models K sid c)) (\<lambda>catalog.
        sbind (verify_transport_generation K generation) (\<lambda>_.
        sbind (mark_verified generation) (\<lambda>_. sreturn catalog)))))"

definition gateway_provider :: "'w jcode_runtime \<Rightarrow> rstring option" where
  "gateway_provider s = model_gateway_transport_provider (jr_config s)"

definition select_and_corroborate ::
    "'w jcode_sdk \<Rightarrow> session_id \<Rightarrow> session_binding \<Rightarrow> u64 \<Rightarrow> model_ref \<Rightarrow> model_ref list
      \<Rightarrow> ('w, model_ref) jcode_op" where
  "select_and_corroborate K sid binding generation model catalog =
     sbind (jget gateway_provider) (\<lambda>transport.
     sbind (with_client K (select_model_from_catalog K sid model catalog transport)) (\<lambda>_.
     sbind (open_fresh_model_client K sid binding) (\<lambda>c. dropping K c
       (sbind (on_sdk (verify_active_model K sid model transport c)) (\<lambda>active.
        sbind (verify_transport_generation K generation) (\<lambda>_. sreturn active))))))"

definition require_binding :: "string \<Rightarrow> session_id \<Rightarrow> ('w, session_binding) jcode_op" where
  "require_binding missing sid =
     sbind (session_binding_of sid) (\<lambda>binding. case binding of
       None \<Rightarrow> sfail (InvalidRequest missing) | Some b \<Rightarrow> sreturn b)"

definition jcode_list_models :: "'w jcode_sdk \<Rightarrow> session_id \<Rightarrow> ('w, model_ref list) jcode_op" where
  "jcode_list_models K sid =
     sbind (slift (validate_jcode_session_id sid)) (\<lambda>_.
     when_idle ''cannot inspect the Jcode model catalog while a turn is active''
       (sbind (ensure_session_transport K) (\<lambda>generation.
        sbind (require_binding ''session must be created or resumed before discovering its models'' sid)
          (\<lambda>binding. fresh_model_catalog K sid binding generation))))"

definition jcode_corroborate_model_identity ::
    "'w jcode_sdk \<Rightarrow> session_id \<Rightarrow> model_ref \<Rightarrow> ('w, model_ref) jcode_op" where
  "jcode_corroborate_model_identity K sid model =
     sbind (slift (validate_jcode_session_id sid)) (\<lambda>_.
     sbind (slift (validate_model_ref model)) (\<lambda>_.
     when_idle ''cannot change the Jcode model while a turn is active''
       (sbind (ensure_session_transport K) (\<lambda>generation.
        sbind (require_binding ''session must be created or resumed before selecting its model'' sid)
          (\<lambda>binding. sbind (fresh_model_catalog K sid binding generation) (\<lambda>catalog.
           sbind (ensure_bound_session_attached K sid binding generation) (\<lambda>_.
           select_and_corroborate K sid binding generation model catalog)))))))"

definition jcode_set_model :: "'w jcode_sdk \<Rightarrow> session_id \<Rightarrow> model_ref \<Rightarrow> ('w, unit) jcode_op" where
  "jcode_set_model K sid model = sbind (jcode_corroborate_model_identity K sid model) (\<lambda>_. sreturn ())"

section \<open>Turns\<close>

text \<open>The part of \<open>run_turn\<close> between the checks and the registration of the turn.\<close>

definition prepare_turn ::
    "'w jcode_sdk \<Rightarrow> session_id \<Rightarrow> session_binding \<Rightarrow> u64 \<Rightarrow> model_ref option \<Rightarrow> ('w, jcode_client) jcode_op" where
  "prepare_turn K sid binding generation model =
     sbind (case model of
         None \<Rightarrow> sreturn None
       | Some m \<Rightarrow> sbind (fresh_model_catalog K sid binding generation) (\<lambda>catalog. sreturn (Some (m, catalog))))
       (\<lambda>choice.
     sbind (ensure_bound_session_attached K sid binding generation) (\<lambda>_.
     sbind (case choice of
         None \<Rightarrow> sreturn ()
       | Some (m, catalog) \<Rightarrow>
           sbind (select_and_corroborate K sid binding generation m catalog) (\<lambda>_. sreturn ()))
       (\<lambda>_. clone_client_for_inflight K)))"

definition turn_options_of ::
    "'w jcode_runtime \<Rightarrow> session_id \<Rightarrow> jcode_client \<Rightarrow> bool \<Rightarrow> u64 \<Rightarrow> turn_options" where
  "turn_options_of s sid c permissions_supported generation =
     \<lparr>to_session = sid, to_client = c, to_permissions_supported = permissions_supported,
      to_generation = generation,
      to_max_tool_calls =
        map_option (\<lambda>_. VIBECODER_BRIDGED_MAX_TOOL_CALLS_PER_TURN) (jn_model_gateway_bridge (jr_config s)),
      to_allowed_tools = map_option (\<lambda>_. VIBECODER_BRIDGED_FILE_TOOLS) (jn_model_gateway_bridge (jr_config s))\<rparr>"

definition jcode_start_turn ::
    "'w jcode_sdk \<Rightarrow> session_id \<Rightarrow> rstring \<Rightarrow> model_ref option \<Rightarrow> ('w, turn_options) jcode_op" where
  "jcode_start_turn K sid prompt model =
     sbind (slift (validate_jcode_session_id sid)) (\<lambda>_.
     if trim prompt = [] then sfail (InvalidRequest ''agent turn prompt cannot be empty'')
     else sbind (slift (case model of None \<Rightarrow> Inr () | Some m \<Rightarrow> validate_model_ref m)) (\<lambda>_.
     when_idle ''a Jcode turn is already active on this connection''
       (sbind (ensure_session_transport K) (\<lambda>generation.
        sbind (connection_status K) (\<lambda>snap.
          case (if cs_generation snap = generation
                then (case cs_state snap of Connected i \<Rightarrow> Some i | _ \<Rightarrow> None) else None) of
            None \<Rightarrow> sfail (Agent ''Jcode transport changed while preparing the turn'')
          | Some i \<Rightarrow>
              if lit ''streaming'' \<notin> set (js_capabilities i)
              then sfail (MissingCapability ''Jcode harness'' ''streaming'')
              else sbind (require_binding ''session must be created or resumed before running a turn'' sid)
                (\<lambda>binding. sbind (prepare_turn K sid binding generation model) (\<lambda>c.
                  sbind (turn_begin sid generation) (\<lambda>_.
                    jget (\<lambda>s. turn_options_of s sid c (lit ''permissions'' \<in> set (js_capabilities i))
                      generation)))))))))"

text \<open>One event of a worker's stream; the worker of an abandoned turn may still deliver some.\<close>

definition jcode_turn_event ::
    "'w jcode_sdk \<Rightarrow> 'h event_handler \<Rightarrow> turn_options \<Rightarrow> api_event \<Rightarrow> 'h turn_callback
      \<Rightarrow> ('w, 'h turn_callback) jcode_op" where
  "jcode_turn_event K call opts event tb s =
     (let x = on_turn_event K call opts event
            \<lparr>tx_callback = tb, tx_permissions = jr_permissions s, tx_world = jr_world s\<rparr>
      in (Inr (tx_callback x), s\<lparr>jr_permissions := tx_permissions x, jr_world := tx_world x\<rparr>))"

text \<open>The end of \<open>run_turn\<close>: what the worker sent, if anything, and whether its completion matched.\<close>

definition jcode_await_turn ::
    "'w jcode_sdk \<Rightarrow> turn_options \<Rightarrow> 'h turn_callback
      \<Rightarrow> ((sdk_error + sdk_turn_result) \<times> unit result) option \<Rightarrow> ('w, turn_result) jcode_op" where
  "jcode_await_turn K opts tb received =
     (let abandon = lease_drop K (to_session opts) (to_generation opts) (to_client opts)
      in case received of
        None \<Rightarrow> sbind abandon (\<lambda>_. sfail (Agent ''Jcode turn worker exited without returning a result''))
      | Some (result, Inl e) \<Rightarrow> sbind abandon (\<lambda>_. sfail e)
      | Some (result, Inr _) \<Rightarrow>
          sbind (lease_complete K (to_session opts) (to_generation opts) (to_client opts))
            (\<lambda>cancelled. slift (turn_outcome tb cancelled result)))"

definition jcode_cancel :: "'w jcode_sdk \<Rightarrow> session_id \<Rightarrow> ('w, unit) jcode_op" where
  "jcode_cancel K sid =
     sbind (slift (validate_jcode_session_id sid)) (\<lambda>_.
     sbind (active_generation sid) (\<lambda>active. case active of
        None \<Rightarrow> sfail (InvalidRequest ''there is no active turn for this session to cancel'')
      | Some generation \<Rightarrow>
          sbind (connection_status K) (\<lambda>snap.
          if \<not> (case cs_state snap of Connected i \<Rightarrow> True | _ \<Rightarrow> False) \<or> cs_generation snap \<noteq> generation
          then sfail (Agent ''active Jcode turn transport is no longer the original connection'')
          else sbind (require_binding ''active turn lost its session/project binding'' sid) (\<lambda>_.
          sbind (is_attached_on_generation sid generation) (\<lambda>attached.
          if \<not> attached then sfail (Agent ''active Jcode turn lost its verified session attachment'')
          else sbind (with_client K (\<lambda>c. sdk_op ''cancel'' (jk_cancel K c (sid_text sid)))) (\<lambda>_.
               sbind (mark_cancel_acknowledged sid) (\<lambda>_. sreturn ())))))))"

definition on_permissions :: "(permission_state \<Rightarrow> 'a result \<times> permission_state) \<Rightarrow> ('w, 'a) jcode_op" where
  "on_permissions f s = (case f (jr_permissions s) of (r, ps) \<Rightarrow> (r, s\<lparr>jr_permissions := ps\<rparr>))"

definition respond_reserve ::
    "'w jcode_sdk \<Rightarrow> session_id \<Rightarrow> rstring \<Rightarrow> ('w, jcode_client \<times> pending_permission) jcode_op" where
  "respond_reserve K sid request_id =
     sbind (slift (validate_jcode_session_id sid)) (\<lambda>_.
     sbind (active_generation sid) (\<lambda>active. case active of
        None \<Rightarrow> sfail (InvalidRequest ''permission response requires an active turn for this session'')
      | Some generation \<Rightarrow>
          sbind (connection_status K) (\<lambda>snap.
          case (if cs_generation snap = generation
                then (case cs_state snap of Connected i \<Rightarrow> Some i | _ \<Rightarrow> None) else None) of
            None \<Rightarrow> sfail (Agent
              ''permission request transport is no longer the connection that emitted it'')
          | Some i \<Rightarrow>
              if lit ''permissions'' \<notin> set (js_capabilities i)
              then sfail (MissingCapability ''Jcode harness'' ''permissions'')
              else sbind (jget (\<lambda>s. jr_bindings s (sid_text sid) = None)) (\<lambda>unbound.
                sbind (is_attached_on_generation sid generation) (\<lambda>attached.
                if unbound \<or> \<not> attached
                then sfail (InvalidRequest
                  ''permission request lost its verified session/project binding'')
                else sbind (clone_client_for_inflight K) (\<lambda>c.
                  sbind (on_permissions (\<lambda>ps. begin_response ps sid request_id generation))
                    (\<lambda>pending. sreturn (c, pending))))))))"

definition upstream_allows :: "permission_decision \<Rightarrow> bool" where
  "upstream_allows decision = (case decision of AllowOnce \<Rightarrow> True | AllowSession \<Rightarrow> True | Deny \<Rightarrow> False)"

definition respond_deliver ::
    "'w jcode_sdk \<Rightarrow> session_id \<Rightarrow> rstring \<Rightarrow> permission_decision \<Rightarrow> jcode_client \<Rightarrow> pending_permission
      \<Rightarrow> ('w, unit) jcode_op" where
  "respond_deliver K sid request_id decision c pending =
     stry (on_sdk (sdk_op ''respond_to_permission''
         (jk_respond K c (sid_text sid) request_id (upstream_allows decision))))
       (\<lambda>r. case r of
          Inr _ \<Rightarrow> on_permissions (\<lambda>ps. complete_response ps pending decision)
        | Inl e \<Rightarrow> sbind (tell (\<lambda>s. s\<lparr>jr_permissions := abort_response (jr_permissions s) pending\<rparr>))
            (\<lambda>_. sfail e))"

section \<open>Every interleaving\<close>

inductive jcode_step ::
    "'w jcode_sdk \<Rightarrow> 'h event_handler \<Rightarrow> 'w jcode_runtime \<Rightarrow> 'w jcode_runtime \<Rightarrow> bool" for K call where
  step_world: "jcode_step K call s (s\<lparr>jr_world := w\<rparr>)"
| step_connect: "jcode_connect K s = (r, t) \<Longrightarrow> jcode_step K call s t"
| step_disconnect: "jcode_disconnect K s = (r, t) \<Longrightarrow> jcode_step K call s t"
| step_reconnect: "jcode_reconnect K s = (r, t) \<Longrightarrow> jcode_step K call s t"
| step_status: "connection_status K s = (r, t) \<Longrightarrow> jcode_step K call s t"
| step_capabilities: "jcode_capabilities K s = (r2, t) \<Longrightarrow> jcode_step K call s t"
| step_ready: "jcode_ensure_ready K s = (r2, t) \<Longrightarrow> jcode_step K call s t"
| step_create: "jcode_create_session K project model s = (r3, t) \<Longrightarrow> jcode_step K call s t"
| step_resume: "jcode_resume_session K project sid s = (r4, t) \<Longrightarrow> jcode_step K call s t"
| step_verify: "jcode_verify_session_project_binding K project sid s = (r4, t) \<Longrightarrow> jcode_step K call s t"
| step_quiescent: "jcode_ensure_workspace_quiescent K project s = (r4, t) \<Longrightarrow> jcode_step K call s t"
| step_refresh: "jcode_refresh_session K project sid s = (r4, t) \<Longrightarrow> jcode_step K call s t"
| step_models: "jcode_list_models K sid s = (r5, t) \<Longrightarrow> jcode_step K call s t"
| step_corroborate: "jcode_corroborate_model_identity K sid m s = (r6, t) \<Longrightarrow> jcode_step K call s t"
| step_set_model: "jcode_set_model K sid m s = (r4, t) \<Longrightarrow> jcode_step K call s t"
| step_start: "jcode_start_turn K sid prompt model s = (r7, t) \<Longrightarrow> jcode_step K call s t"
| step_event: "jcode_turn_event K call opts event tb s = (r8, t) \<Longrightarrow> jcode_step K call s t"
| step_worker_done: "mark_worker_finished sid g s = (r4, t) \<Longrightarrow> jcode_step K call s t"
| step_await: "jcode_await_turn K opts (tb :: 'h turn_callback) received s = (r9, t) \<Longrightarrow> jcode_step K call s t"
| step_abandon: "lease_drop K sid g c s = (r4, t) \<Longrightarrow> jcode_step K call s t"
| step_cancel: "jcode_cancel K sid s = (r4, t) \<Longrightarrow> jcode_step K call s t"
| step_reserve: "respond_reserve K sid request_id s = (r10, t) \<Longrightarrow> jcode_step K call s t"
| step_deliver: "respond_deliver K sid request_id d c p s = (r4, t) \<Longrightarrow> jcode_step K call s t"

end
