(* ===== verification/Jcode_Invariant.thy ===== *)
theory Jcode_Invariant
  imports Jcode_Runtime
begin

text \<open>
  The invariant of the Jcode adapter and the lemmas behind its guarantees. \<open>jcode_ok\<close> holds in every
  reachable state of \<open>jcode_step\<close>, whatever the SDK answers, and every step leads \<open>later\<close>: bindings keep
  their project and the connection generation only grows. The lemmas are stated for \<open>idle_at g\<close>
  (operations that run only while no turn is active, and know that the connection has reached generation
  \<open>g\<close>) and \<open>steady\<close> (operations that may run at any time). Interpretation \<open>jcode\<close> of \<open>invariant_system\<close>.
\<close>

section \<open>The invariant\<close>

definition is_connected :: "jcode_connection_state \<Rightarrow> bool" where
  "is_connected st \<longleftrightarrow> (\<exists>i. st = Connected i)"

definition holds_session :: "session_id \<Rightarrow> u64 \<Rightarrow> 'w jcode_runtime \<Rightarrow> bool" where
  "holds_session sid g s \<longleftrightarrow>
     jr_generation s = g \<and> jr_attached_session s = Some (sid_text sid)
     \<and> (\<exists>b. jr_bindings s (sid_text sid) = Some b \<and> sb_connection_generation b = g)"

definition link_ok :: "'w jcode_runtime \<Rightarrow> bool" where
  "link_ok s \<longleftrightarrow> (jr_client s \<noteq> None \<longleftrightarrow> is_connected (jr_state s)) \<and> jr_state s \<noteq> Connecting"

definition registry_ok :: "'w jcode_runtime \<Rightarrow> bool" where
  "registry_ok s \<longleftrightarrow>
     (\<forall>k b. jr_bindings s k = Some b \<longrightarrow> sb_connection_generation b \<le> jr_generation s)
     \<and> (\<forall>k. jr_attached_session s = Some k \<longrightarrow> jr_bindings s k \<noteq> None)"

definition turn_ok :: "'w jcode_runtime \<Rightarrow> bool" where
  "turn_ok s \<longleftrightarrow>
     (\<forall>t. jr_active s = Some t \<longrightarrow> holds_session (at_session_id t) (at_connection_generation t) s)"

definition jcode_ok :: "'w jcode_runtime \<Rightarrow> bool" where
  "jcode_ok s \<longleftrightarrow> link_ok s \<and> registry_ok s \<and> turn_ok s \<and> perm_inv (jr_permissions s)"

definition same_project :: "session_binding \<Rightarrow> session_binding \<Rightarrow> bool" where
  "same_project b b' \<longleftrightarrow>
     sb_project_id b = sb_project_id b' \<and> path_eq (sb_project_root b) (sb_project_root b')"

definition later :: "'w jcode_runtime \<Rightarrow> 'w jcode_runtime \<Rightarrow> bool" where
  "later s t \<longleftrightarrow>
     jr_config t = jr_config s \<and> jr_generation s \<le> jr_generation t
     \<and> (\<forall>k b. jr_bindings s k = Some b \<longrightarrow> (\<exists>b'. jr_bindings t k = Some b' \<and> same_project b b'))"

lemma later_refl [simp]: "later s s"
  by (simp add: later_def same_project_def path_eq_def)

lemma same_project_trans: "same_project a b \<Longrightarrow> same_project b c \<Longrightarrow> same_project a c"
  by (simp add: same_project_def path_eq_def)

lemma later_trans:
  assumes "later s t" and "later t u"
  shows "later s u"
proof -
  have "\<exists>b''. jr_bindings u k = Some b'' \<and> same_project b b''" if "jr_bindings s k = Some b" for k b
  proof -
    from assms(1) that obtain b' where "jr_bindings t k = Some b'" "same_project b b'"
      unfolding later_def by blast
    with assms(2) show ?thesis unfolding later_def by (blast intro: same_project_trans)
  qed
  with assms show ?thesis by (auto simp: later_def)
qed

lemma le_sat_succ: "g \<le> sat_succ (g :: 'a::len word)"
proof -
  have "unat g < 2 ^ LENGTH('a)" by simp
  then have "unat g \<le> min (unat g + 1) (2 ^ LENGTH('a) - 1)" by linarith
  then show ?thesis by (simp add: word_le_nat_alt sat_succ_unat)
qed

lemma later_gen: "later s t \<Longrightarrow> g \<le> jr_generation s \<Longrightarrow> g \<le> jr_generation t"
  by (auto simp: later_def intro: order_trans)

lemma later_same:
  assumes "jr_config t = jr_config s" "jr_generation t = jr_generation s" "jr_bindings t = jr_bindings s"
  shows "later s t"
  using assms by (simp add: later_def same_project_def path_eq_def)

section \<open>Composition\<close>

definition idle_at :: "u64 \<Rightarrow> ('w jcode_runtime, 'e, 'a) eff \<Rightarrow> bool" where
  "idle_at g m \<longleftrightarrow> (\<forall>s. jcode_ok s \<and> jr_active s = None \<and> g \<le> jr_generation s \<longrightarrow>
     wp m (\<lambda>r t. jcode_ok t \<and> jr_active t = None \<and> later s t) s)"

definition steady :: "('w jcode_runtime, 'e, 'a) eff \<Rightarrow> bool" where
  "steady m \<longleftrightarrow> (\<forall>s. jcode_ok s \<longrightarrow> wp m (\<lambda>r t. jcode_ok t \<and> later s t) s)"

named_theorems idle_rules \<open>operations that run while no turn is active\<close>
named_theorems steady_rules \<open>operations that may run at any time\<close>

lemma idle_atD: "idle_at g m \<Longrightarrow> jcode_ok s \<Longrightarrow> jr_active s = None \<Longrightarrow> g \<le> jr_generation s \<Longrightarrow>
    wp m (\<lambda>r t. jcode_ok t \<and> jr_active t = None \<and> later s t) s"
  by (simp add: idle_at_def)

lemma steadyD: "steady m \<Longrightarrow> jcode_ok s \<Longrightarrow> wp m (\<lambda>r t. jcode_ok t \<and> later s t) s"
  by (simp add: steady_def)

lemma idle_carries:
  "jcode_ok t \<and> jr_active t = None \<and> later s t \<Longrightarrow> g \<le> jr_generation s \<Longrightarrow> idle_at g m \<Longrightarrow>
    wp m (\<lambda>r u. jcode_ok u \<and> jr_active u = None \<and> later s u) t"
  by (rule wp_mono [OF idle_atD]) (auto intro: later_trans later_gen)

lemma idle_sbind [idle_rules]:
  assumes "idle_at g m" and "\<And>a. idle_at g (f a)"
  shows "idle_at g (sbind m f)"
  unfolding idle_at_def
proof (intro allI impI, elim conjE)
  fix s :: "'a jcode_runtime"
  assume s: "jcode_ok s" "jr_active s = None" "g \<le> jr_generation s"
  show "wp (sbind m f) (\<lambda>r t. jcode_ok t \<and> jr_active t = None \<and> later s t) s"
    by (rule wp_step [OF idle_atD [OF assms(1) s]]) (assumption | rule idle_carries [OF _ s(3) assms(2)])+
qed

lemma idle_stry [idle_rules]:
  assumes "idle_at g m" and "\<And>r. idle_at g (f r)"
  shows "idle_at g (stry m f)"
  unfolding idle_at_def
proof (intro allI impI, elim conjE)
  fix s :: "'a jcode_runtime"
  assume s: "jcode_ok s" "jr_active s = None" "g \<le> jr_generation s"
  show "wp (stry m f) (\<lambda>r t. jcode_ok t \<and> jr_active t = None \<and> later s t) s"
    by (rule wp_try [OF idle_atD [OF assms(1) s]]) (rule idle_carries [OF _ s(3) assms(2)])
qed

lemma steady_carries:
  "jcode_ok t \<and> later s t \<Longrightarrow> steady m \<Longrightarrow> wp m (\<lambda>r u. jcode_ok u \<and> later s u) t"
  by (rule wp_mono [OF steadyD]) (auto intro: later_trans)

lemma steady_sbind [steady_rules]:
  assumes "steady m" and "\<And>a. steady (f a)"
  shows "steady (sbind m f)"
  unfolding steady_def
proof (intro allI impI)
  fix s :: "'a jcode_runtime"
  assume s: "jcode_ok s"
  show "wp (sbind m f) (\<lambda>r t. jcode_ok t \<and> later s t) s"
    by (rule wp_step [OF steadyD [OF assms(1) s]]) (assumption | rule steady_carries [OF _ assms(2)])+
qed

lemma steady_stry [steady_rules]:
  assumes "steady m" and "\<And>r. steady (f r)"
  shows "steady (stry m f)"
  unfolding steady_def
proof (intro allI impI)
  fix s :: "'a jcode_runtime"
  assume s: "jcode_ok s"
  show "wp (stry m f) (\<lambda>r t. jcode_ok t \<and> later s t) s"
    by (rule wp_try [OF steadyD [OF assms(1) s]]) (rule steady_carries [OF _ assms(2)])
qed

lemma idle_steady: "steady m \<Longrightarrow> keeps jr_active m \<Longrightarrow> idle_at g m"
  unfolding idle_at_def by (auto dest: wp_keeps [OF _ steadyD] elim!: wp_mono)

lemma steady_basic [steady_rules]:
  "steady (slift r)" "steady (sreturn a)" "steady (sfail e)" "steady (jget f)"
  by (simp_all add: steady_def wp_def slift_def sreturn_def sfail_def jget_def)

lemma steady_cases [steady_rules]:
  "steady m \<Longrightarrow> steady n \<Longrightarrow> steady (if b then m else n)"
  "(\<And>e. steady (f e)) \<Longrightarrow> (\<And>a. steady (g a)) \<Longrightarrow> steady (case r of Inl e \<Rightarrow> f e | Inr a \<Rightarrow> g a)"
  "steady m \<Longrightarrow> (\<And>a. steady (h a)) \<Longrightarrow> steady (case p of None \<Rightarrow> m | Some a \<Rightarrow> h a)"
  "(\<And>a b. steady (k a b)) \<Longrightarrow> steady (case q of (a, b) \<Rightarrow> k a b)"
  "steady d \<Longrightarrow> steady c \<Longrightarrow> (\<And>i. steady (l i)) \<Longrightarrow> (\<And>e. steady (u e)) \<Longrightarrow>
    steady (case st of Disconnected \<Rightarrow> d | Connecting \<Rightarrow> c | Connected i \<Rightarrow> l i | Faulted e \<Rightarrow> u e)"
  by (simp_all split: sum.split option.split prod.split jcode_connection_state.split)

lemma idle_basic [idle_rules]:
  "idle_at g (slift r)" "idle_at g (sreturn a)" "idle_at g (sfail e)" "idle_at g (jget f)"
  by (simp_all add: idle_at_def wp_def slift_def sreturn_def sfail_def jget_def)

lemma idle_cases [idle_rules]:
  "idle_at w m \<Longrightarrow> idle_at w n \<Longrightarrow> idle_at w (if b then m else n)"
  "(\<And>e. idle_at w (f e)) \<Longrightarrow> (\<And>a. idle_at w (g a)) \<Longrightarrow> idle_at w (case r of Inl e \<Rightarrow> f e | Inr a \<Rightarrow> g a)"
  "idle_at w m \<Longrightarrow> (\<And>a. idle_at w (h a)) \<Longrightarrow> idle_at w (case p of None \<Rightarrow> m | Some a \<Rightarrow> h a)"
  "(\<And>a b. idle_at w (k a b)) \<Longrightarrow> idle_at w (case q of (a, b) \<Rightarrow> k a b)"
  "idle_at w d \<Longrightarrow> idle_at w c \<Longrightarrow> (\<And>i. idle_at w (l i)) \<Longrightarrow> (\<And>e. idle_at w (u e)) \<Longrightarrow>
    idle_at w (case st of Disconnected \<Rightarrow> d | Connecting \<Rightarrow> c | Connected i \<Rightarrow> l i | Faulted e \<Rightarrow> u e)"
  by (simp_all split: sum.split option.split prod.split jcode_connection_state.split)

section \<open>Operations that leave the registries alone\<close>

definition registry :: "'w jcode_runtime \<Rightarrow> active_turn option \<times> u64 \<times> (rstring \<rightharpoonup> session_binding) \<times> rstring option" where
  "registry s = (jr_active s, jr_generation s, jr_bindings s, jr_attached_session s)"

lemma registry_eq: "registry t = registry s \<longleftrightarrow>
    jr_active t = jr_active s \<and> jr_generation t = jr_generation s \<and> jr_bindings t = jr_bindings s
    \<and> jr_attached_session t = jr_attached_session s"
  by (simp add: registry_def)

lemma registries_unchanged [simp]:
  "registry_ok (s\<lparr>jr_world := w\<rparr>) = registry_ok s"
  "registry_ok (s\<lparr>jr_client := c\<rparr>) = registry_ok s"
  "registry_ok (s\<lparr>jr_state := st\<rparr>) = registry_ok s"
  "registry_ok (s\<lparr>jr_verified_generation := v\<rparr>) = registry_ok s"
  "registry_ok (s\<lparr>jr_permissions := ps\<rparr>) = registry_ok s"
  "turn_ok (s\<lparr>jr_world := w\<rparr>) = turn_ok s"
  "turn_ok (s\<lparr>jr_client := c\<rparr>) = turn_ok s"
  "turn_ok (s\<lparr>jr_state := st\<rparr>) = turn_ok s"
  "turn_ok (s\<lparr>jr_verified_generation := v\<rparr>) = turn_ok s"
  "turn_ok (s\<lparr>jr_permissions := ps\<rparr>) = turn_ok s"
  by (simp_all add: registry_ok_def turn_ok_def holds_session_def)

lemma link_unchanged [simp]:
  "link_ok (s\<lparr>jr_world := w\<rparr>) = link_ok s" "link_ok (s\<lparr>jr_verified_generation := v\<rparr>) = link_ok s"
  "link_ok (s\<lparr>jr_permissions := ps\<rparr>) = link_ok s"
  "link_ok (s\<lparr>jr_bindings := bs\<rparr>) = link_ok s" "link_ok (s\<lparr>jr_attached_session := a\<rparr>) = link_ok s"
  "link_ok (s\<lparr>jr_active := at\<rparr>) = link_ok s"
  by (simp_all add: link_ok_def)

lemma steady_on_sdk [steady_rules]: "steady (on_sdk m)"
  unfolding steady_def wp_def on_sdk_def
  by (auto split: prod.split intro!: later_same simp: jcode_ok_def)

lemma keeps_on_sdk [keeps_intros]: "keeps registry (on_sdk m)" "keeps jr_permissions (on_sdk m)"
  by (auto simp: keeps_def on_sdk_def registry_def split: prod.split)

lemma keeps_jget [keeps_intros]: "keeps p (jget f)"
  by (simp add: keeps_def jget_def)

lemma keeps_connection [keeps_intros]:
  "keeps registry (set_state st False)"
  "keeps registry (take_client K)" "keeps registry (mark_verified g)"
  by (auto simp: keeps_def set_state_def take_client_def mark_verified_def tell_def registry_def
      Let_def split: option.split)

lemma keeps_active_registry: "keeps registry m \<Longrightarrow> keeps jr_active m"
  by (simp add: keeps_def registry_eq)

lemma connection_cases [keeps_intros]:
  "keeps p d \<Longrightarrow> keeps p c \<Longrightarrow> (\<And>i. keeps p (l i)) \<Longrightarrow> (\<And>e. keeps p (u e)) \<Longrightarrow>
    keeps p (case st of Disconnected \<Rightarrow> d | Connecting \<Rightarrow> c | Connected i \<Rightarrow> l i | Faulted e \<Rightarrow> u e)"
  by (simp split: jcode_connection_state.split)

lemma steady_refresh [steady_rules]: "steady (refresh_closed_connection_locked K)"
  unfolding steady_def wp_def refresh_closed_connection_locked_def sbind_def jget_def on_sdk_def ask_def
    take_client_def set_state_def sreturn_def
  by (auto split: prod.split option.split intro!: later_same simp: Let_def jcode_ok_def)
    (auto simp: link_ok_def is_connected_def)

lemma keeps_refresh [keeps_intros]: "keeps registry (refresh_closed_connection_locked K)"
  unfolding refresh_closed_connection_locked_def by (intro keeps_intros)

lemma steady_mark_verified [steady_rules]: "steady (mark_verified g)"
  unfolding steady_def wp_def mark_verified_def tell_def
  by (auto intro!: later_same simp: jcode_ok_def)

lemma steady_aside [steady_rules]:
  "steady (connection_status K)" "steady (active_client K msg)" "steady (with_client K f)"
  "steady (clone_client_for_inflight K)" "steady (open_clean_model_client K)"
  "steady (session_binding_of sid)" "steady (is_attached_on_generation sid g)"
  "steady (require_binding msg sid)" "steady has_active" "steady (active_generation sid)"
  unfolding connection_status_def active_client_def with_client_def clone_client_for_inflight_def
    open_clean_model_client_def session_binding_of_def is_attached_on_generation_def require_binding_def
    has_active_def active_generation_def
  by (intro steady_rules)+

lemma keeps_aside [keeps_intros]:
  "keeps registry (connection_status K)" "keeps registry (active_client K msg)"
  "keeps registry (with_client K f)" "keeps registry (clone_client_for_inflight K)"
  "keeps registry (open_clean_model_client K)" "keeps registry (session_binding_of sid)"
  "keeps registry (is_attached_on_generation sid g)" "keeps registry (require_binding msg sid)"
  "keeps registry has_active" "keeps registry (active_generation sid)"
  unfolding connection_status_def active_client_def with_client_def clone_client_for_inflight_def
    open_clean_model_client_def session_binding_of_def is_attached_on_generation_def require_binding_def
    has_active_def active_generation_def
  by (intro keeps_intros)+

lemma steady_probes [steady_rules]:
  "steady (open_fresh_model_client K sid b)" "steady (verify_transport_generation K g)"
  "steady (fresh_model_catalog K sid b g)" "steady (select_and_corroborate K sid b g m catalog)"
  unfolding open_fresh_model_client_def verify_transport_generation_def fresh_model_catalog_def
    select_and_corroborate_def dropping_def
  by (intro steady_rules)+

lemma keeps_probes [keeps_intros]:
  "keeps registry (open_fresh_model_client K sid b)" "keeps registry (verify_transport_generation K g)"
  "keeps registry (fresh_model_catalog K sid b g)" "keeps registry (select_and_corroborate K sid b g m catalog)"
  unfolding open_fresh_model_client_def verify_transport_generation_def fresh_model_catalog_def
    select_and_corroborate_def dropping_def
  by (intro keeps_intros)+

lemma idle_aside: "steady m \<Longrightarrow> keeps registry m \<Longrightarrow> idle_at g m"
  by (intro idle_steady keeps_active_registry)

section \<open>Connecting and attaching\<close>

lemma registry_ok_advance:
  "registry_ok s \<Longrightarrow> jr_generation s \<le> g \<Longrightarrow> registry_ok (s\<lparr>jr_generation := g\<rparr>)"
  by (auto simp: registry_ok_def intro: order_trans)

lemma turn_ok_idle [simp]: "jr_active s = None \<Longrightarrow> turn_ok s"
  by (simp add: turn_ok_def)

lemma later_advance:
  assumes "jr_config t = jr_config s" "jr_generation s \<le> jr_generation t" "jr_bindings t = jr_bindings s"
  shows "later s t"
  using assms by (simp add: later_def same_project_def path_eq_def)

lemma wp_refresh:
  assumes "jcode_ok s" and "jr_active s = None"
  shows "wp (refresh_closed_connection_locked K)
    (\<lambda>r t. jcode_ok t \<and> jr_active t = None \<and> later s t) s"
  by (rule idle_atD [OF idle_aside [OF steady_refresh keeps_refresh] assms order_refl])

text \<open>The snapshot returned is that of the state left behind.\<close>

lemma wp_connect:
  assumes "jcode_ok s" and "jr_active s = None"
  shows "wp (connect_locked K) (\<lambda>r t. jcode_ok t \<and> jr_active t = None \<and> later s t
    \<and> (\<forall>snap. r = Inr snap \<longrightarrow> snap = snapshot_of t)) s"
  unfolding connect_locked_def
proof (rule wp_step [OF wp_refresh [OF assms]], goal_cases)
  case (1 e t)
  then show ?case by simp
next
  case (2 a t)
  have "wp (sbind (jget (\<lambda>s. (jr_state s, snapshot_of s, jr_config s))) (\<lambda>(state, snap, config). case state of
          Connected i \<Rightarrow> sreturn snap
        | Connecting \<Rightarrow> sfail (Agent ''Jcode connection attempt is already in progress'')
        | _ \<Rightarrow> sbind (set_state Connecting False)
            (\<lambda>_. stry (on_sdk (open_client K config)) (\<lambda>opened. case opened of
               Inr c \<Rightarrow> sbind (replace_client K c) (\<lambda>_. set_state (Connected (identity_from K c)) True)
             | Inl e \<Rightarrow> sbind (set_state (Faulted (from_sdk e)) False)
                 (\<lambda>_. sfail (into_domain_error (from_sdk e)))))))
      (\<lambda>r u. jcode_ok u \<and> jr_active u = None \<and> later t u \<and> (\<forall>snap. r = Inr snap \<longrightarrow> snap = snapshot_of u)) t"
    using 2
    by (auto simp: wp_def sbind_def stry_def jget_def on_sdk_def set_state_def replace_client_def
        take_client_def tell_def sreturn_def sfail_def Let_def jcode_ok_def link_ok_def is_connected_def
        registry_ok_advance le_sat_succ intro!: later_advance split: jcode_connection_state.split sum.split prod.split)
  then show ?case by (rule wp_mono) (use 2 in \<open>auto intro: later_trans\<close>)
qed

lemma idle_connect [idle_rules]: "idle_at g (connect_locked K)"
  unfolding idle_at_def by (auto intro: wp_mono [OF wp_connect])

lemma wp_transport:
  assumes "jcode_ok s" and "jr_active s = None"
  shows "wp (ensure_session_transport K) (\<lambda>r t. jcode_ok t \<and> jr_active t = None \<and> later s t
    \<and> (\<forall>g. r = Inr g \<longrightarrow> g = jr_generation t)) s"
  unfolding ensure_session_transport_def
  by (rule wp_step [OF wp_connect [OF assms]])
    (auto simp: wp_simps snapshot_of_def split: jcode_connection_state.split)

text \<open>After the transport is up, its generation bounds the connection's from below.\<close>

lemma idle_transport [idle_rules]:
  assumes "\<And>g. idle_at g (f g)"
  shows "idle_at h (sbind (ensure_session_transport K) f)"
  unfolding idle_at_def
proof (intro allI impI, elim conjE)
  fix s :: "'a jcode_runtime"
  assume s: "jcode_ok s" "jr_active s = None" "h \<le> jr_generation s"
  show "wp (sbind (ensure_session_transport K) f) (\<lambda>r t. jcode_ok t \<and> jr_active t = None \<and> later s t) s"
  proof (rule wp_step [OF wp_transport [OF s(1,2)]], goal_cases)
    case (2 a t)
    then have "wp (f a) (\<lambda>r u. jcode_ok u \<and> jr_active u = None \<and> later t u) t"
      by (intro idle_atD [OF assms]) simp_all
    then show ?case by (rule wp_mono) (use 2 in \<open>auto intro: later_trans\<close>)
  qed simp
qed

lemma idle_disconnect [idle_rules]: "idle_at g (disconnect_locked K)"
  unfolding idle_at_def wp_def disconnect_locked_def sbind_def take_client_def set_state_def
  by (auto split: prod.split option.split intro!: later_advance
      simp: Let_def jcode_ok_def link_ok_def is_connected_def)

lemma registry_ok_detach [simp]: "registry_ok s \<Longrightarrow> registry_ok (s\<lparr>jr_attached_session := None\<rparr>)"
  by (simp add: registry_ok_def)

lemma idle_clear_attachment [idle_rules]: "idle_at g clear_attachment"
  unfolding idle_at_def wp_def clear_attachment_def tell_def
  by (auto intro!: later_advance simp: jcode_ok_def)

lemma idle_reset [idle_rules]: "idle_at g (reset_unverified_attachment K)"
  unfolding reset_unverified_attachment_def by (intro idle_rules)

lemma idle_on_sdk [idle_rules]: "idle_at g (on_sdk m)"
  by (intro idle_aside steady_rules keeps_intros)

lemma idle_mark_attached [idle_rules]: "idle_at g (mark_attached sid pid root g)"
  unfolding idle_at_def wp_def mark_attached_def
  by (auto simp: jcode_ok_def registry_ok_def later_def same_project_def path_eq_def split: option.split)

lemma idle_when_idle: "(\<And>g. idle_at g m) \<Longrightarrow> steady (when_idle busy m)"
  unfolding steady_def when_idle_def has_active_def
proof (intro allI impI)
  fix s :: "'a jcode_runtime"
  assume m: "\<And>g. idle_at g m" and s: "jcode_ok s"
  show "wp (sbind (jget (\<lambda>s. jr_active s \<noteq> None)) (\<lambda>active. if active then sfail (InvalidRequest busy) else m))
      (\<lambda>r t. jcode_ok t \<and> later s t) s"
  proof (cases "jr_active s = None")
    case True
    then show ?thesis using wp_mono [OF idle_atD [OF m s True order_refl]]
      by (simp add: wp_sbind) (simp add: wp_def jget_def)
  next
    case False
    then show ?thesis using s by (simp add: wp_def sbind_def jget_def sfail_def)
  qed
qed

lemma idle_bind_verified [idle_rules]: "idle_at g m \<Longrightarrow> idle_at g (bind_verified K m pid root g)"
  unfolding bind_verified_def by (intro idle_rules)

lemma idle_with_client [idle_rules]: "idle_at g (with_client K f)"
  by (intro idle_aside steady_rules keeps_intros)

lemma idle_attach [idle_rules]:
  "idle_at g (attach_verified K project sid root g)"
  "idle_at g (ensure_bound_session_attached K sid b g)"
  unfolding attach_verified_def ensure_bound_session_attached_def
  by (intro idle_rules idle_aside [OF steady_aside(7) keeps_aside(7)])+

lemma idle_asides [idle_rules]:
  "idle_at g (connection_status K)" "idle_at g (session_binding_of sid)"
  "idle_at g (is_attached_on_generation sid g')" "idle_at g (require_binding msg sid)"
  "idle_at g (open_fresh_model_client K sid b)" "idle_at g (verify_transport_generation K g')"
  "idle_at g (fresh_model_catalog K sid b g')" "idle_at g (select_and_corroborate K sid b g' m catalog)"
  "idle_at g (clone_client_for_inflight K)"
  by (intro idle_aside steady_rules keeps_intros)+

section \<open>The calls of the runtime\<close>

lemma steady_idle_calls [steady_rules]:
  "steady (jcode_connect K)" "steady (jcode_disconnect K)" "steady (jcode_ensure_workspace_quiescent K project)"
  unfolding jcode_connect_def jcode_disconnect_def jcode_ensure_workspace_quiescent_def
  by (intro steady_rules idle_when_idle idle_rules)+

lemma steady_reconnect [steady_rules]: "steady (jcode_reconnect K)"
  unfolding jcode_reconnect_def manager_reconnect_def
  by (intro steady_rules idle_when_idle idle_rules)+

lemma steady_capabilities [steady_rules]: "steady (jcode_capabilities K)" "steady (jcode_ensure_ready K)"
  unfolding jcode_capabilities_def jcode_ensure_ready_def by (intro steady_rules)+

lemma steady_create [steady_rules]: "steady (jcode_create_session K project model)"
  unfolding jcode_create_session_def
  by (intro steady_rules idle_when_idle idle_sbind [OF idle_on_sdk] idle_transport idle_cases idle_basic
      idle_bind_verified idle_with_client)

lemma steady_resume [steady_rules]: "steady (jcode_resume_session K project sid)"
  unfolding jcode_resume_session_def
  by (intro steady_rules idle_when_idle idle_sbind [OF idle_on_sdk] idle_transport
      idle_sbind [OF idle_asides(2)] idle_sbind [OF idle_asides(3)] idle_cases idle_basic idle_attach)

lemma steady_verify [steady_rules]: "steady (jcode_verify_session_project_binding K project sid)"
  unfolding jcode_verify_session_project_binding_def by (intro steady_rules)

lemma steady_refresh_session [steady_rules]: "steady (jcode_refresh_session K project sid)"
  unfolding jcode_refresh_session_def
  by (intro steady_rules idle_when_idle idle_transport idle_sbind [OF idle_clear_attachment] idle_attach)

lemma steady_models [steady_rules]:
  "steady (jcode_list_models K sid)" "steady (jcode_corroborate_model_identity K sid m)"
  "steady (jcode_set_model K sid m)"
  unfolding jcode_list_models_def jcode_corroborate_model_identity_def jcode_set_model_def
  by (intro steady_rules idle_when_idle idle_transport idle_sbind [OF idle_asides(4)]
      idle_sbind [OF idle_asides(7)] idle_sbind [OF idle_attach(2)] idle_asides)+

section \<open>Starting a turn\<close>

lemma attach_and_verify_same: "wp (attach_and_verify K a b sid root c) (\<lambda>r w. \<forall>x. r = Inr x \<longrightarrow> x = sid) w"
  unfolding attach_and_verify_def
  by (auto simp: wp_def sbind_def slift_def sreturn_def verify_attached_session_id_def
      split: prod.splits sum.splits if_splits)

lemma on_sdk_wp:
  assumes "\<And>w. wp m (\<lambda>r w. Q r) w"
  shows "wp (on_sdk m) (\<lambda>r t. Q r) s"
  using assms [of "jr_world s"] by (auto simp: wp_def on_sdk_def split: prod.splits)

lemma with_client_wp:
  assumes "\<And>c w. wp (f c) (\<lambda>r w. \<forall>x. r = Inr x \<longrightarrow> P x) w"
  shows "wp (with_client K f) (\<lambda>r t. \<forall>x. r = Inr x \<longrightarrow> P x) s"
  unfolding with_client_def
proof (rule wp_step [where P = "\<lambda>r t. True"], goal_cases)
  case (3 c t)
  show ?case by (rule on_sdk_wp) (rule assms)
qed (auto simp: wp_def split: prod.split)

lemma holds_registry: "registry t = registry s \<Longrightarrow> holds_session sid g t = holds_session sid g s"
  by (simp add: holds_session_def registry_eq)

lemma idle_keeps:
  assumes "steady m" and "keeps registry m" and "jcode_ok s" and "jr_active s = None"
  shows "wp m (\<lambda>r t. jcode_ok t \<and> jr_active t = None \<and> later s t \<and> registry t = registry s) s"
  using wp_keeps [OF assms(2) steadyD [OF assms(1,3)]] assms(4)
  by (auto elim!: wp_mono simp: registry_eq)

lemma wp_ensure_bound:
  assumes "jcode_ok s" and "jr_active s = None" and "g = jr_generation s"
  shows "wp (ensure_bound_session_attached K sid b g) (\<lambda>r t. jcode_ok t \<and> jr_active t = None \<and> later s t
    \<and> (r = Inr () \<longrightarrow> holds_session sid g t)) s"
proof -
  have *: "wp (ensure_bound_session_attached K sid b g) (\<lambda>r t. r = Inr () \<longrightarrow> holds_session sid g t) s"
  proof (cases "holds_session sid g s")
    case True
    then show ?thesis
      by (auto simp: ensure_bound_session_attached_def is_attached_on_generation_def jget_def wp_def
          sbind_def sreturn_def holds_session_def)
  next
    case False
    then have no: "is_attached_on_generation sid g s = (Inr False, s)"
      using assms(3) by (auto simp: is_attached_on_generation_def jget_def holds_session_def
          split: option.splits)
    let ?m = "with_client K (attach_and_verify K ''session_reattach'' ''session_reattach_metadata'' sid
             (sb_project_root b))"
    have mark: "wp (mark_attached sid pid root g) (\<lambda>r t. r = Inr () \<longrightarrow> holds_session sid g t) t"
      if "jr_generation t = g" for t :: "'a jcode_runtime" and pid root
      using that by (auto simp: wp_def mark_attached_def holds_session_def split: option.split)
    have "wp (bind_verified K ?m pid root g) (\<lambda>r t. \<forall>x. r = Inr x \<longrightarrow> holds_session sid g t) t"
      if "jr_generation t = g" for t pid root
      unfolding bind_verified_def
    proof (rule wp_try [OF wp_keeps [OF keeps_aside(3) with_client_wp [OF attach_and_verify_same]]], goal_cases)
      case (1 r u)
      then show ?case using that mark [of u pid root]
        by (cases r) (auto simp: wp_def sbind_def sreturn_def sfail_def registry_eq
            split: prod.splits sum.splits)
    qed
    note bound = this
    have "wp (sbind (on_sdk (check_bound_root K b)) (\<lambda>_. sbind (bind_verified K ?m (sb_project_id b)
        (sb_project_root b) g) (\<lambda>_. sreturn ()))) (\<lambda>r t. r = Inr () \<longrightarrow> holds_session sid g t) s"
    proof (rule wp_step [OF wp_keeps [OF keeps_on_sdk(1), where Q = "\<lambda>r t. True"]], goal_cases)
      case (3 a t)
      then have "jr_generation t = g" using assms(3) by (simp add: registry_eq)
      from bound [OF this] show ?case by (rule wp_step) (simp_all add: wp_sreturn)
    qed (simp_all add: wp_def)
    then show ?thesis by (simp add: ensure_bound_session_attached_def wp_def sbind_def no)
  qed
  have "wp (ensure_bound_session_attached K sid b g) (\<lambda>r t. jcode_ok t \<and> jr_active t = None \<and> later s t) s"
    by (rule idle_atD [OF idle_attach(2) assms(1,2)]) (simp add: assms(3))
  then have "wp (ensure_bound_session_attached K sid b g) (\<lambda>r t. (jcode_ok t \<and> jr_active t = None \<and> later s t)
    \<and> (r = Inr () \<longrightarrow> holds_session sid g t)) s" using * by (rule wp_conj)
  then show ?thesis by (rule wp_mono) simp
qed

lemma wp_prepare:
  assumes "jcode_ok s" and "jr_active s = None" and "g = jr_generation s"
  shows "wp (prepare_turn K sid b g model) (\<lambda>r t. jcode_ok t \<and> jr_active t = None \<and> later s t
    \<and> (is_ok r \<longrightarrow> holds_session sid g t)) s"
proof -
  let ?c = "case model of None \<Rightarrow> sreturn None
    | Some m \<Rightarrow> sbind (fresh_model_catalog K sid b g) (\<lambda>catalog. sreturn (Some (m, catalog)))"
  have c: "steady ?c" "keeps registry ?c"
    by (intro steady_rules keeps_intros)+
  have rest: "steady m" "keeps registry m" if "m = sbind (case x of None \<Rightarrow> sreturn ()
        | Some (m, catalog) \<Rightarrow> sbind (select_and_corroborate K sid b g m catalog) (\<lambda>_. sreturn ()))
       (\<lambda>_. clone_client_for_inflight K)" for m x
    unfolding that by (intro steady_rules keeps_intros)+
  show ?thesis
    unfolding prepare_turn_def
  proof (rule wp_step [OF idle_keeps [OF c assms(1,2)]], goal_cases)
    case (2 choice t)
    then have t: "jcode_ok t" "jr_active t = None" "later s t" "g = jr_generation t"
      using assms(3) by (simp_all add: registry_eq)
    show ?case
    proof (rule wp_step [OF wp_ensure_bound [OF t(1,2,4)]], goal_cases)
      case (2 a u)
      then have u: "jcode_ok u" "jr_active u = None" "holds_session sid g u" by simp_all
      have "later s u" using 2 t(3) by (blast intro: later_trans)
      then have "later s v" if "later u v" for v using that by (rule later_trans)
      moreover have "holds_session sid g v" if "registry v = registry u" for v
        using holds_registry [OF that] u(3) by simp
      ultimately show ?case by (intro wp_mono [OF idle_keeps [OF rest [OF refl] u(1,2)]]) blast
    qed (auto intro: later_trans [OF t(3)])
  qed simp
qed

lemma wp_turn_begin:
  assumes "jcode_ok s" and "jr_active s = None" and "holds_session sid g s"
  shows "wp (turn_begin sid g) (\<lambda>r t. jcode_ok t \<and> later s t) s"
proof -
  let ?s = "s\<lparr>jr_active := Some \<lparr>at_session_id = sid, at_connection_generation = g,
    at_cancel_requested = False, at_worker_finished = False\<rparr>\<rparr>"
  have "turn_ok ?s" using assms(3) by (simp add: turn_ok_def holds_session_def)
  moreover have "registry_ok ?s" using assms(1) by (simp add: jcode_ok_def registry_ok_def)
  moreover have "later s ?s" by (rule later_same) simp_all
  ultimately show ?thesis using assms(1,2) by (simp add: wp_def turn_begin_def jcode_ok_def)
qed

lemma when_idle_free: "jr_active s = None \<Longrightarrow> when_idle busy m s = m s"
  by (simp add: when_idle_def has_active_def sbind_def jget_def)

lemma when_idle_busy: "jr_active s \<noteq> None \<Longrightarrow> when_idle busy m s = (Inl (InvalidRequest busy), s)"
  by (simp add: when_idle_def has_active_def sbind_def jget_def sfail_def)

lemma steady_start [steady_rules]: "steady (jcode_start_turn K sid prompt model)"
proof -
  have start: "wp (sbind (prepare_turn K sid b g model) (\<lambda>c. sbind (turn_begin sid g) (\<lambda>_. jget (h c))))
      (\<lambda>r t. jcode_ok t \<and> later s t) s"
    if "jcode_ok s" "jr_active s = None" "g = jr_generation s" for s :: "'a jcode_runtime" and b g h
  proof (rule wp_step [OF wp_prepare [OF that]], goal_cases)
    case (2 c t)
    then have "wp (turn_begin sid g) (\<lambda>r u. jcode_ok u \<and> later t u) t"
      by (intro wp_turn_begin) (simp_all add: is_ok_def)
    then have "wp (sbind (turn_begin sid g) (\<lambda>_. jget (h c))) (\<lambda>r u. jcode_ok u \<and> later t u) t"
      by (rule wp_step) (simp_all add: wp_def jget_def)
    then show ?case by (rule wp_mono) (use 2 in \<open>auto intro: later_trans\<close>)
  qed simp
  have busy: "wp (when_idle msg (sbind (ensure_session_transport K) (\<lambda>g. sbind (connection_status K) (f g))))
      (\<lambda>r t. jcode_ok t \<and> later s t) s"
    if s: "jcode_ok s" and f: "\<And>g snap t. jcode_ok t \<Longrightarrow> jr_active t = None \<Longrightarrow> g = jr_generation t \<Longrightarrow>
      wp (f g snap) (\<lambda>r u. jcode_ok u \<and> later t u) t"
    for s :: "'a jcode_runtime" and msg f
  proof (cases "jr_active s = None")
    case True
    have "wp (sbind (ensure_session_transport K) (\<lambda>g. sbind (connection_status K) (f g)))
        (\<lambda>r t. jcode_ok t \<and> later s t) s"
    proof (rule wp_step [OF wp_transport [OF s True]], goal_cases)
      case (2 g t)
      then have t: "jcode_ok t" "jr_active t = None" "later s t" "g = jr_generation t" by simp_all
      show ?case
      proof (rule wp_step [OF idle_keeps [OF steady_aside(1) keeps_aside(1) t(1,2)]], goal_cases)
        case (2 snap u)
        then have "wp (f g snap) (\<lambda>r v. jcode_ok v \<and> later u v) u"
          using t(4) by (intro f) (simp_all add: registry_eq)
        then show ?case
          by (rule wp_mono) (use 2 in \<open>auto intro: later_trans [OF t(3)] later_trans\<close>)
      qed (auto intro: later_trans [OF t(3)])
    qed simp
    then show ?thesis by (simp only: wp_def when_idle_free [OF True])
  next
    case False
    then show ?thesis using s by (simp add: wp_def when_idle_busy)
  qed
  have bound: "wp (sbind (require_binding msg sid) (\<lambda>b. sbind (prepare_turn K sid b g model)
      (\<lambda>c. sbind (turn_begin sid g) (\<lambda>_. jget (h c))))) (\<lambda>r t. jcode_ok t \<and> later s t) s"
    if s: "jcode_ok s" "jr_active s = None" "g = jr_generation s" for s :: "'a jcode_runtime" and msg g h
  proof (rule wp_step [OF idle_keeps [OF steady_aside(8) keeps_aside(8) s(1,2)]], goal_cases)
    case (2 b t)
    then have t: "jcode_ok t" "jr_active t = None" "g = jr_generation t" "later s t"
      using s(3) by (simp_all add: registry_eq)
    show ?case by (rule wp_mono [OF start [OF t(1-3)]]) (auto intro: later_trans [OF t(4)])
  qed simp
  have fail: "wp (sfail e) (\<lambda>r t. jcode_ok t \<and> later s t) s" if "jcode_ok s" for e and s :: "'a jcode_runtime"
    using that by (simp add: wp_sfail)
  show ?thesis
    unfolding jcode_start_turn_def
    by (intro steady_sbind steady_basic steady_cases)
      (auto simp: steady_def intro!: busy bound fail split: option.split)
qed

section \<open>Running turns\<close>

lemma turn_context_update [simp]:
  "tx_permissions (snd (sdk_try m x)) = tx_permissions x" "tx_callback (snd (sdk_try m x)) = tx_callback x"
  by (simp_all add: sdk_try_def split: prod.split)

lemma tx_fail [simp]: "tx_permissions (fail_permission_protocol K opts rid x) = tx_permissions x"
  by (simp add: fail_permission_protocol_def Let_def)

lemma tx_stop [simp]: "tx_permissions (stop_turn K opts flag x) = tx_permissions x"
  by (simp add: stop_turn_def)

lemma tx_forward [simp]: "tx_permissions (forward_event call opts ev x) = tx_permissions x"
  by (simp add: forward_event_def split: option.split)

lemma perm_inv_request:
  assumes "perm_inv (tx_permissions x)"
  shows "perm_inv (tx_permissions (on_permission_request K call opts rid tool desc x))"
proof -
  have observe: "perm_inv (snd (observe_request (tx_permissions x) sid g rid tool desc))" for sid g
    using assms by (rule perm_inv_observe)
  have complete: "perm_inv (snd (complete_response ps p d))" if "perm_inv ps" for ps p d
    using that by (rule perm_inv_complete)
  show ?thesis
    using assms observe [of "to_session opts" "to_generation opts"] complete perm_inv_abort
    by (auto simp: on_permission_request_def Let_def sdk_try_def split: prod.splits sum.splits
        permission_observation.splits) (metis snd_conv)+
qed

lemma perm_inv_event:
  "perm_inv (tx_permissions x) \<Longrightarrow> perm_inv (tx_permissions (on_turn_event K call opts ev x))"
  by (cases ev) (auto simp: on_turn_event_def Let_def perm_inv_request split: option.split)

lemma steady_event [steady_rules]: "steady (jcode_turn_event K call opts ev tb)"
  unfolding steady_def wp_def jcode_turn_event_def
  by (auto simp: Let_def jcode_ok_def intro!: later_same perm_inv_event)

lemma registry_ok_active [simp]: "registry_ok (s\<lparr>jr_active := a\<rparr>) = registry_ok s"
  by (simp add: registry_ok_def)

lemma steady_flags [steady_rules]:
  "steady (mark_worker_finished sid g)" "steady (mark_cancel_acknowledged sid)"
  "steady (turn_finish sid g)" "steady (force_clear sid g)"
  unfolding steady_def wp_def mark_worker_finished_def mark_cancel_acknowledged_def turn_finish_def
    force_clear_def tell_def
  by (auto simp: jcode_ok_def turn_ok_def holds_session_def intro!: later_same split: option.split)

lemma steady_permissions [steady_rules]:
  "steady (permissions_finish_turn sid g)"
  "steady (tell (\<lambda>s. s\<lparr>jr_permissions := abort_response (jr_permissions s) p\<rparr>))"
  "steady (on_permissions (\<lambda>ps. complete_response ps p d))"
  "steady (on_permissions (\<lambda>ps. begin_response ps sid rid g))"
  unfolding steady_def wp_def permissions_finish_turn_def tell_def on_permissions_def
  using perm_inv_complete perm_inv_begin
  by (auto simp: jcode_ok_def perm_inv_finish perm_inv_abort intro!: later_same split: prod.split)
    (metis snd_conv)+

lemma steady_lease [steady_rules]: "steady (lease_drop K sid g c)" "steady (lease_complete K sid g c)"
  unfolding lease_complete_def lease_drop_def by (intro steady_rules)+

lemma steady_await [steady_rules]: "steady (jcode_await_turn K opts tb received)"
  unfolding jcode_await_turn_def Let_def by (intro steady_rules)

lemma steady_control [steady_rules]:
  "steady (jcode_cancel K sid)" "steady (respond_reserve K sid rid)"
  "steady (respond_deliver K sid rid d c p)"
  unfolding jcode_cancel_def respond_reserve_def respond_deliver_def by (intro steady_rules)+

lemma steady_step: "steady m \<Longrightarrow> m s = (r, t) \<Longrightarrow> jcode_ok s \<Longrightarrow> jcode_ok t \<and> later s t"
  by (auto simp: steady_def wp_def)

lemma step_ok:
  assumes "jcode_step K call s t" and "jcode_ok s"
  shows "jcode_ok t \<and> later s t"
  using assms
proof cases
  case (step_world w)
  then show ?thesis using assms(2) by (auto simp: jcode_ok_def intro!: later_same)
qed (auto elim!: steady_step [rotated] intro!: steady_rules assms(2))

definition jcode_init :: "jcode_connection_config \<Rightarrow> 'w jcode_runtime \<Rightarrow> bool" where
  "jcode_init config s \<longleftrightarrow> (\<exists>w. jcode_runtime_new config w = Inr s)"

lemma jcode_ok_init: "jcode_init config s \<Longrightarrow> jcode_ok s"
  by (auto simp: jcode_init_def jcode_runtime_new_def rbind_eq_Inr jcode_ok_def link_ok_def is_connected_def
      registry_ok_def perm_inv_new)

interpretation jcode: invariant_system "jcode_init config" "jcode_step K call" jcode_ok for config K call
  by unfold_locales (auto dest: jcode_ok_init step_ok)

lemma run_later: "run (jcode_step K call) s n t \<Longrightarrow> jcode_ok s \<Longrightarrow> later s t"
  by (induction rule: run.induct) (auto dest: step_ok jcode.run_inv intro: later_trans)

section \<open>What a turn lets through\<close>

text \<open>The events of one worker, each with the state of the adapter at that moment: between two events
  users answer prompts and other calls run.\<close>

fun worker_events ::
    "'w jcode_sdk \<Rightarrow> 'h event_handler \<Rightarrow> turn_options \<Rightarrow> ('w jcode_runtime \<times> api_event) list
      \<Rightarrow> 'h turn_callback \<Rightarrow> 'h turn_callback" where
  "worker_events K call opts [] tb = tb"
| "worker_events K call opts ((s, event) # rest) tb =
     (case fst (jcode_turn_event K call opts event tb s) of
        Inl _ \<Rightarrow> tb | Inr tb' \<Rightarrow> worker_events K call opts rest tb')"

definition turn_clean :: "'h turn_callback \<Rightarrow> bool" where
  "turn_clean tb \<longleftrightarrow> \<not> tb_permission_protocol_failure tb \<and> \<not> tb_tool_limit_exceeded tb
     \<and> \<not> tb_tool_policy_failure tb"

definition started_tool :: "session_id \<Rightarrow> api_event \<Rightarrow> rstring option" where
  "started_tool sid event =
     (case event of EvToolStart owner call_id name \<Rightarrow> if owner = sid_text sid then Some name else None | _ \<Rightarrow> None)"

lemma outcome_clean: "turn_outcome tb cancelled r = Inr t \<Longrightarrow> turn_clean tb"
  by (auto simp: turn_outcome_def turn_clean_def split: if_splits)

text \<open>A handler that keeps every event it is given; prompts are told apart from the stream.\<close>

definition recording :: "agent_event list event_handler" where
  "recording e seen = Some (seen @ [e])"

definition is_prompt :: "agent_event \<Rightarrow> bool" where
  "is_prompt e \<longleftrightarrow> (\<exists>p. e = PermissionRequired p)"

definition streamed :: "agent_event list \<Rightarrow> agent_event list" where
  "streamed es = filter (\<lambda>e. \<not> is_prompt e) es"

text \<open>What an application may see of the stream, stated without the adapter: the session an event belongs to,
  whether it is internal to the harness, and its application form.\<close>

fun event_session :: "api_event \<Rightarrow> rstring option" where
  "event_session (EvTextDelta sid txt) = Some sid"
| "event_session (EvReasoningDelta sid txt) = Some sid"
| "event_session (EvReasoningDone sid) = Some sid"
| "event_session (EvToolStart sid call_id name) = Some sid"
| "event_session (EvToolInputDelta sid call_id delta) = Some sid"
| "event_session (EvToolExec sid call_id name) = Some sid"
| "event_session (EvToolDone sid call_id name output error) = Some sid"
| "event_session (EvTokenUsage sid inp out cache) = Some sid"
| "event_session (EvTurnDone sid) = Some sid"
| "event_session (EvBackgroundProgress sid task label percent summary finished) = Some sid"
| "event_session (EvMessageAccepted sid) = Some sid"
| "event_session (EvPermissionRequest sid rid tool description) = Some sid"
| "event_session (EvSessionStatus sid status) = Some sid"
| "event_session (EvModelInfo sid model provider) = Some sid"
| "event_session EvOther = None"

fun hidden :: "api_event \<Rightarrow> bool" where
  "hidden (EvReasoningDelta sid txt) = True"
| "hidden (EvReasoningDone sid) = True"
| "hidden (EvToolInputDelta sid call_id delta) = True"
| "hidden (EvToolExec sid call_id name) = True"
| "hidden (EvPermissionRequest sid rid tool description) = True"
| "hidden (EvModelInfo sid model provider) = True"
| "hidden EvOther = True"
| "hidden _ = False"

fun public_form :: "api_event \<Rightarrow> agent_event option" where
  "public_form (EvTextDelta sid txt) = Some (TextDelta txt)"
| "public_form (EvToolStart sid call_id name) = Some (ToolStarted name call_id)"
| "public_form (EvToolDone sid call_id name output error) =
     Some (ToolFinished name call_id (error = None) output error)"
| "public_form (EvTokenUsage sid inp out cache) =
     Some (TokenUsage \<lparr>tu_input = inp, tu_output = out, tu_cache_read_input = cache\<rparr>)"
| "public_form (EvTurnDone sid) = Some TurnCompleted"
| "public_form (EvBackgroundProgress sid task label percent summary finished) =
     Some (BackgroundProgress task label percent summary finished)"
| "public_form (EvMessageAccepted sid) = Some MessageAccepted"
| "public_form (EvSessionStatus sid status) = Some (SessionStatus status)"
| "public_form _ = None"

definition shown_events :: "session_id \<Rightarrow> api_event list \<Rightarrow> agent_event list" where
  "shown_events sid events =
     List.map_filter public_form (filter (\<lambda>e. event_session e = Some (sid_text sid) \<and> \<not> hidden e) events)"

lemma shown_events_Nil [simp]: "shown_events sid [] = []"
  by (simp add: shown_events_def List.map_filter_def)

lemma shown_events_Cons: "shown_events sid (e # es) = shown_events sid [e] @ shown_events sid es"
  by (simp add: shown_events_def List.map_filter_def)

lemma public_form_hidden: "public_form e = None \<longleftrightarrow> hidden e"
  by (cases e) simp_all

lemma mapped_as_shown:
  "map_stream_event sid ev = (if event_session ev = Some (sid_text sid) \<and> \<not> hidden ev then public_form ev else None)"
  by (cases ev) (simp_all add: map_stream_event_def)

lemma shown_event: "shown_events sid [ev] = (case map_stream_event sid ev of None \<Rightarrow> [] | Some e \<Rightarrow> [e])"
  unfolding shown_events_def mapped_as_shown by (auto simp: List.map_filter_def split: option.split)

lemma mapped_no_prompt: "map_stream_event sid ev = Some e \<Longrightarrow> \<not> is_prompt e"
  by (auto simp: map_stream_event_def is_prompt_def split: api_event.splits if_splits)

lemma dispatch_keeps [simp]:
  "turn_clean (snd (dispatch_event call e tb)) = turn_clean tb"
  "tb_tool_calls_seen (snd (dispatch_event call e tb)) = tb_tool_calls_seen tb"
  by (auto simp: dispatch_event_def turn_clean_def split: option.split)

lemma counting_clean [simp]: "turn_clean (tb\<lparr>tb_tool_calls_seen := n\<rparr>) = turn_clean tb"
  by (simp add: turn_clean_def)

lemma recorded:
  "dispatch_event recording e tb = (True, tb') \<Longrightarrow> tb_handler tb = Some es \<Longrightarrow> tb_handler tb' = Some (es @ [e])"
  by (auto simp: dispatch_event_def recording_def)

lemma fail_not_clean [simp]: "\<not> turn_clean (tx_callback (fail_permission_protocol K opts rid x))"
  by (simp add: fail_permission_protocol_def Let_def turn_clean_def)

lemma forward_keeps [simp]:
  "turn_clean (tx_callback (forward_event call opts ev x)) = turn_clean (tx_callback x)"
  "tb_tool_calls_seen (tx_callback (forward_event call opts ev x)) = tb_tool_calls_seen (tx_callback x)"
  by (simp_all add: forward_event_def split: option.split)

lemma request_effect:
  assumes "turn_clean (tx_callback (on_permission_request K call opts rid tool desc x))"
  shows "turn_clean (tx_callback x) \<and> to_permissions_supported opts
    \<and> tb_tool_calls_seen (tx_callback (on_permission_request K call opts rid tool desc x))
        = tb_tool_calls_seen (tx_callback x)
    \<and> (tb_handler (tx_callback (on_permission_request K call opts rid tool desc x)) = tb_handler (tx_callback x)
       \<or> (\<exists>p. dispatch_event call (PermissionRequired p) (tx_callback x)
          = (True, tx_callback (on_permission_request K call opts rid tool desc x))))"
proof -
  let ?x' = "on_permission_request K call opts rid tool desc x"
  obtain observed ps where o: "observe_request (tx_permissions x) (to_session opts) (to_generation opts) rid tool desc
      = (observed, ps)" by fastforce
  have sup: "to_permissions_supported opts"
    by (rule ccontr) (use assms in \<open>simp add: on_permission_request_def\<close>)
  show ?thesis
  proof (cases observed)
    case (Inl e)
    then show ?thesis using assms sup o by (simp add: on_permission_request_def Let_def)
  next
    case (Inr out)
    show ?thesis
    proof (cases out)
      case (Prompt request)
      obtain shown tb where d: "dispatch_event call (PermissionRequired request) (tx_callback x) = (shown, tb)"
        by fastforce
      have shown: "shown" using assms sup o Inr Prompt d
        by (cases shown) (simp_all add: on_permission_request_def Let_def)
      then have x': "tx_callback ?x' = tb"
        using sup o Inr Prompt d by (simp add: on_permission_request_def Let_def)
      have tb: "turn_clean tb = turn_clean (tx_callback x)"
        "tb_tool_calls_seen tb = tb_tool_calls_seen (tx_callback x)"
        using dispatch_keeps [of call "PermissionRequired request" "tx_callback x"] d by simp_all
      have "dispatch_event call (PermissionRequired request) (tx_callback x) = (True, tx_callback ?x')"
        using d shown x' by simp
      then show ?thesis using assms sup x' tb by auto
    next
      case (AutoApprove pending)
      let ?answer = "sdk_try (jk_respond K (to_client opts) (sid_text (to_session opts)) rid True)
        (x\<lparr>tx_permissions := ps\<rparr>)"
      obtain delivered x2 where t: "?answer = (delivered, x2)" by fastforce
      have x2: "tx_callback x2 = tx_callback x" using turn_context_update(2) [of _ "x\<lparr>tx_permissions := ps\<rparr>"] t
        by (metis snd_conv turn_context.simps(5) turn_context.select_convs(1) turn_context.update_convs(2) turn_context.surjective)
      obtain r ps2 where c: "complete_response (tx_permissions x2) pending AllowOnce = (r, ps2)" by fastforce
      have "tx_callback ?x' = tx_callback x"
        using assms sup o Inr AutoApprove t c x2
        by (cases delivered; cases "is_ok r") (simp_all add: on_permission_request_def Let_def)
      then show ?thesis using assms sup by simp
    qed
  qed
qed

text \<open>What one event of a bridged turn does, as long as no safety flag was raised.\<close>

lemma event_effect:
  assumes clean: "turn_clean (tx_callback (on_turn_event K call opts ev x))"
    and opts: "to_max_tool_calls opts = Some limit" "to_allowed_tools opts = Some allowed"
  shows "turn_clean (tx_callback x)"
    and "started_tool (to_session opts) ev = Some name \<Longrightarrow> name \<in> set allowed
      \<and> tb_tool_calls_seen (tx_callback (on_turn_event K call opts ev x)) = tb_tool_calls_seen (tx_callback x) + 1
      \<and> tb_tool_calls_seen (tx_callback x) + 1 \<le> limit"
    and "started_tool (to_session opts) ev = None \<Longrightarrow>
      tb_tool_calls_seen (tx_callback (on_turn_event K call opts ev x)) = tb_tool_calls_seen (tx_callback x)"
proof -
  have stop: "\<not> turn_clean (tx_callback (stop_turn K opts (\<lambda>tb. tb\<lparr>tb_tool_policy_failure := True\<rparr>) y))"
    "\<not> turn_clean (tx_callback (stop_turn K opts (\<lambda>tb. tb\<lparr>tb_tool_limit_exceeded := True\<rparr>) y))" for y
    by (simp_all add: stop_turn_def turn_clean_def)
  have all: "turn_clean (tx_callback x) \<and>
    (\<forall>name. started_tool (to_session opts) ev = Some name \<longrightarrow> name \<in> set allowed
      \<and> tb_tool_calls_seen (tx_callback (on_turn_event K call opts ev x)) = tb_tool_calls_seen (tx_callback x) + 1
      \<and> tb_tool_calls_seen (tx_callback x) + 1 \<le> limit) \<and>
    (started_tool (to_session opts) ev = None \<longrightarrow>
      tb_tool_calls_seen (tx_callback (on_turn_event K call opts ev x)) = tb_tool_calls_seen (tx_callback x))"
  proof (cases ev)
    case (EvToolStart sid call_id name)
    then show ?thesis using clean opts
      by (auto simp: on_turn_event_def started_tool_def Let_def stop split: if_splits)
  next
    case (EvPermissionRequest sid rid tool desc)
    then show ?thesis using clean request_effect [of K call opts rid tool desc x]
      by (cases "sid = sid_text (to_session opts)") (simp_all add: on_turn_event_def started_tool_def)
  qed (use clean in \<open>simp_all add: on_turn_event_def started_tool_def\<close>)
  show "turn_clean (tx_callback x)" using all by simp
  show "started_tool (to_session opts) ev = Some name \<Longrightarrow> name \<in> set allowed
      \<and> tb_tool_calls_seen (tx_callback (on_turn_event K call opts ev x)) = tb_tool_calls_seen (tx_callback x) + 1
      \<and> tb_tool_calls_seen (tx_callback x) + 1 \<le> limit" using all by simp
  show "started_tool (to_session opts) ev = None \<Longrightarrow>
      tb_tool_calls_seen (tx_callback (on_turn_event K call opts ev x)) = tb_tool_calls_seen (tx_callback x)"
    using all by simp
qed

lemma event_streamed:
  assumes clean: "turn_clean (tx_callback (on_turn_event K recording opts ev x))"
    and opts: "to_max_tool_calls opts = Some limit" "to_allowed_tools opts = Some allowed"
    and seen: "tb_handler (tx_callback x) = Some es"
  shows "\<exists>es'. tb_handler (tx_callback (on_turn_event K recording opts ev x)) = Some es'
    \<and> streamed es' = streamed es @ shown_events (to_session opts) [ev]"
proof -
  have forward: "\<exists>es'. tb_handler (tx_callback (forward_event recording opts ev y)) = Some es'
      \<and> streamed es' = streamed es @ shown_events (to_session opts) [ev]"
    if "tb_handler (tx_callback y) = Some es" for y :: "(agent_event list, 'a) turn_context"
    using that mapped_no_prompt
    by (auto simp: forward_event_def dispatch_event_def recording_def streamed_def shown_event
        split: option.splits)
  show ?thesis
  proof (cases ev)
    case (EvToolStart sid call_id name)
    then show ?thesis using clean opts seen forward [of x] forward [of "x\<lparr>tx_callback := (tx_callback x)
                        \<lparr>tb_tool_calls_seen := tb_tool_calls_seen (tx_callback x) + 1\<rparr>\<rparr>"]
      by (auto simp: on_turn_event_def Let_def stop_turn_def turn_clean_def split: if_splits)
  next
    case (EvPermissionRequest sid rid tool desc)
    then have v: "shown_events (to_session opts) [ev] = []" by (simp add: shown_event map_stream_event_def)
    show ?thesis
    proof (cases "sid = sid_text (to_session opts)")
      case True
      with EvPermissionRequest have e: "on_turn_event K recording opts ev x
          = on_permission_request K recording opts rid tool desc x" by (simp add: on_turn_event_def)
      have "tb_handler (tx_callback (on_turn_event K recording opts ev x)) = Some es \<or>
          (\<exists>p. tb_handler (tx_callback (on_turn_event K recording opts ev x)) = Some (es @ [PermissionRequired p]))"
        using request_effect [OF clean [unfolded e]] seen recorded [OF _ seen] unfolding e by metis
      then show ?thesis by (auto simp: v streamed_def is_prompt_def)
    qed (use EvPermissionRequest seen v in \<open>simp add: on_turn_event_def\<close>)
  qed (use seen forward [of x] in \<open>simp_all add: on_turn_event_def\<close>)
qed

lemma worker_events_Cons:
  "worker_events K call opts ((s, ev) # rest) tb = worker_events K call opts rest
     (tx_callback (on_turn_event K call opts ev
        \<lparr>tx_callback = tb, tx_permissions = jr_permissions s, tx_world = jr_world s\<rparr>))"
  by (simp add: jcode_turn_event_def Let_def)

declare worker_events.simps(2) [simp del]

lemma worker_clean:
  assumes "turn_clean (worker_events K call opts events tb)"
    and "to_max_tool_calls opts = Some limit" "to_allowed_tools opts = Some allowed"
  shows "turn_clean tb"
  using assms(1)
proof (induction events arbitrary: tb)
  case (Cons e events)
  obtain s ev where e: "e = (s, ev)" by fastforce
  let ?x = "\<lparr>tx_callback = tb, tx_permissions = jr_permissions s, tx_world = jr_world s\<rparr>"
  have "turn_clean (tx_callback (on_turn_event K call opts ev ?x))"
    by (rule Cons.IH) (use Cons.prems in \<open>simp add: e worker_events_Cons\<close>)
  from event_effect(1) [OF this assms(2,3)] show ?case by simp
qed simp

lemma worker_contained:
  assumes "turn_clean (worker_events K call opts events tb)"
    and "to_max_tool_calls opts = Some 32" "to_allowed_tools opts = Some allowed"
    and "tb_tool_calls_seen tb \<le> 32"
  shows "turn_clean tb
    \<and> unat (tb_tool_calls_seen tb) + length (List.map_filter (started_tool (to_session opts) \<circ> snd) events) \<le> 32
    \<and> set (List.map_filter (started_tool (to_session opts) \<circ> snd) events) \<subseteq> set allowed"
  using assms(1,4)
proof (induction events arbitrary: tb)
  case Nil
  then show ?case by (simp add: List.map_filter_def word_le_nat_alt)
next
  case (Cons e events)
  obtain s ev where e: "e = (s, ev)" by fastforce
  let ?x = "\<lparr>tx_callback = tb, tx_permissions = jr_permissions s, tx_world = jr_world s\<rparr>"
  let ?tb = "tx_callback (on_turn_event K call opts ev ?x)"
  have final: "turn_clean (worker_events K call opts events ?tb)"
    using Cons.prems(1) by (simp add: e worker_events_Cons)
  have next_ok: "unat (tb_tool_calls_seen tb + 1) = unat (tb_tool_calls_seen tb) + 1"
    using Cons.prems(2) by (simp add: word_le_nat_alt unat_word_ariths)
  have sticky: "turn_clean ?tb" by (rule worker_clean [OF final assms(2,3)])
  note effect = event_effect [OF sticky assms(2,3)]
  show ?case
  proof (cases "started_tool (to_session opts) ev")
    case None
    with effect(3) Cons.prems(2) have "tb_tool_calls_seen ?tb = tb_tool_calls_seen tb" by simp
    with Cons.IH [OF final] Cons.prems(2) effect(1) None show ?thesis
      by (simp add: e List.map_filter_def)
  next
    case (Some name)
    from effect(2) [OF Some] have "name \<in> set allowed" "tb_tool_calls_seen ?tb = tb_tool_calls_seen tb + 1"
      "tb_tool_calls_seen tb + 1 \<le> 32" by simp_all
    with Cons.IH [OF final] effect(1) Some next_ok show ?thesis
      by (simp add: e List.map_filter_def)
  qed
qed

lemma worker_streamed:
  assumes "turn_clean (worker_events K recording opts events tb)"
    and "to_max_tool_calls opts = Some limit" "to_allowed_tools opts = Some allowed"
    and "tb_handler tb = Some es"
  shows "\<exists>es'. tb_handler (worker_events K recording opts events tb) = Some es'
    \<and> streamed es' = streamed es @ shown_events (to_session opts) (map snd events)"
  using assms(1,4)
proof (induction events arbitrary: tb es)
  case (Cons e events)
  obtain s ev where e: "e = (s, ev)" by fastforce
  let ?x = "\<lparr>tx_callback = tb, tx_permissions = jr_permissions s, tx_world = jr_world s\<rparr>"
  let ?tb = "tx_callback (on_turn_event K recording opts ev ?x)"
  have final: "turn_clean (worker_events K recording opts events ?tb)"
    using Cons.prems(1) by (simp add: e worker_events_Cons)
  obtain es1 where es1: "tb_handler ?tb = Some es1" "streamed es1 = streamed es @ shown_events (to_session opts) [ev]"
    using event_streamed [OF worker_clean [OF final assms(2,3)] assms(2,3)] Cons.prems(2) by auto
  from Cons.IH [OF final es1(1)] show ?case
    using shown_events_Cons [of "to_session opts" ev "map snd events"] by (auto simp: e worker_events_Cons es1(2))
qed simp

section \<open>What a started turn was given\<close>

definition post :: "(vibecoder_error + 'a \<Rightarrow> 'w jcode_runtime \<Rightarrow> bool) \<Rightarrow> ('w, 'a) jcode_op \<Rightarrow> bool" where
  "post Q m \<longleftrightarrow> (\<forall>s. wp m Q s)"

lemma post_sbind: "(\<And>e t. Q (Inl e) t) \<Longrightarrow> (\<And>a. post Q (f a)) \<Longrightarrow> post Q (sbind m f)"
  unfolding post_def by (intro allI wp_step [where P = "\<lambda>r t. True"])
    (blast | simp add: wp_def split: prod.split)+

lemma post_sfail: "(\<And>e t. Q (Inl e) t) \<Longrightarrow> post Q (sfail e)"
  by (simp add: post_def wp_sfail)

lemma post_if: "post Q m \<Longrightarrow> post Q n \<Longrightarrow> post Q (if b then m else n)"
  by simp

lemma post_option: "post Q m \<Longrightarrow> (\<And>a. post Q (f a)) \<Longrightarrow> post Q (case x of None \<Rightarrow> m | Some a \<Rightarrow> f a)"
  by (simp split: option.split)

lemma start_options:
  assumes "jcode_start_turn K sid prompt model s = (Inr opts, t)"
  shows "\<exists>c p g. opts = turn_options_of t sid c p g"
proof -
  define Q where "Q r u \<longleftrightarrow> (\<forall>o'. r = Inr o' \<longrightarrow> (\<exists>c p g. o' = turn_options_of u sid c p g))"
    for r :: "vibecoder_error + turn_options" and u :: "'a jcode_runtime"
  have Q: "Q (Inl e) u" for e u by (simp add: Q_def)
  have last: "post Q (jget (\<lambda>u. turn_options_of u sid c p g))" for c p g
    by (auto simp: post_def wp_def jget_def Q_def)
  have "post Q (jcode_start_turn K sid prompt model)"
    unfolding jcode_start_turn_def when_idle_def
    by (intro post_sbind post_if post_option post_sfail last Q)
  then show ?thesis using assms by (auto simp: post_def wp_def Q_def dest!: spec [of _ s])
qed

lemma reach_config:
  assumes "reach (jcode_init config) (jcode_step K call) s"
  shows "jr_config s = config"
  using assms
proof induction
  case (reach_init s)
  then show ?case by (auto simp: jcode_init_def jcode_runtime_new_def rbind_eq_Inr)
next
  case (reach_step s t)
  then show ?case using step_ok [OF reach_step(2) jcode.reach_inv [OF reach_step(1)]]
    by (simp add: later_def)
qed

lemma bridged_options:
  assumes "reach (jcode_init config) (jcode_step K call) s" and "jn_model_gateway_bridge config \<noteq> None"
    and "jcode_start_turn K sid prompt model s = (Inr opts, s')"
  shows "to_session opts = sid" "to_max_tool_calls opts = Some 32"
    "to_allowed_tools opts = Some VIBECODER_BRIDGED_FILE_TOOLS"
proof -
  have "jr_config s' = config"
    using steady_step [OF steady_start assms(3) jcode.reach_inv [OF assms(1)]] reach_config [OF assms(1)]
    by (simp add: later_def)
  with start_options [OF assms(3)] assms(2)
  show "to_session opts = sid" "to_max_tool_calls opts = Some 32"
    "to_allowed_tools opts = Some VIBECODER_BRIDGED_FILE_TOOLS"
    by (auto simp: turn_options_of_def VIBECODER_BRIDGED_MAX_TOOL_CALLS_PER_TURN_def)
qed

end
