(* ===== verification/Jcode_Calls.thy ===== *)
theory Jcode_Calls
  imports Jcode_Invariant
begin

text \<open>
  The order of the calls to the SDK. \<open>sdk_calls K w w'\<close> says that the SDK state \<open>w'\<close> is reached from \<open>w\<close> by
  calls alone; every operation of the adapter moves the SDK state that way. A call at a state between the
  first and the last state of an operation is a call of that operation: an SDK whose state is the log of its
  calls shows which ones were made, and in which order.
\<close>

section \<open>Calls\<close>

inductive sdk_step :: "'w jcode_sdk \<Rightarrow> 'w \<Rightarrow> 'w \<Rightarrow> bool" for K where
  step_sdk_connect: "jk_connect K opts w = (connected, w') \<Longrightarrow> sdk_step K w w'"
| step_sdk_launch: "jk_launch K lopts w = (launched, w') \<Longrightarrow> sdk_step K w w'"
| step_sdk_drop: "sdk_step K w (jk_drop K c w)"
| step_sdk_closed: "jk_is_closed K c w = (closed, w') \<Longrightarrow> sdk_step K w w'"
| step_sdk_attach: "jk_attach_session K c sid w = (attached, w') \<Longrightarrow> sdk_step K w w'"
| step_sdk_create: "jk_create_session K c dir w = (created, w') \<Longrightarrow> sdk_step K w w'"
| step_sdk_sessions: "jk_list_sessions K c w = (sessions, w') \<Longrightarrow> sdk_step K w w'"
| step_sdk_models: "jk_list_models K c sid w = (models, w') \<Longrightarrow> sdk_step K w w'"
| step_sdk_info: "jk_get_runtime_info K c sid w = (info, w') \<Longrightarrow> sdk_step K w w'"
| step_sdk_set_model: "jk_set_model K c sid m w = (chosen, w') \<Longrightarrow> sdk_step K w w'"
| step_sdk_cancel: "jk_cancel K c sid w = (cancelled, w') \<Longrightarrow> sdk_step K w w'"
| step_sdk_respond: "jk_respond K c sid rid allow w = (responded, w') \<Longrightarrow> sdk_step K w w'"
| step_sdk_subscribe: "sdk_step K w (jk_subscribe K c sid w)"
| step_sdk_readings: "jk_readings K c sid timeout w = (readings, w') \<Longrightarrow> sdk_step K w w'"
| step_sdk_canonicalize: "jk_canonicalize K p w = (canonical, w') \<Longrightarrow> sdk_step K w w'"
| step_sdk_is_dir: "jk_is_dir K p w = (dir, w') \<Longrightarrow> sdk_step K w w'"

definition sdk_calls :: "'w jcode_sdk \<Rightarrow> 'w \<Rightarrow> 'w \<Rightarrow> bool" where
  "sdk_calls K = (sdk_step K)\<^sup>*\<^sup>*"

lemma sdk_calls_refl [simp, intro]: "sdk_calls K w w"
  by (simp add: sdk_calls_def)

lemma sdk_calls_trans [trans]: "sdk_calls K u v \<Longrightarrow> sdk_calls K v w \<Longrightarrow> sdk_calls K u w"
  by (simp add: sdk_calls_def)

lemma sdk_calls_step: "sdk_step K w w' \<Longrightarrow> sdk_calls K w w'"
  by (simp add: sdk_calls_def)

text \<open>Operations on the SDK state and operations of the adapter that only make calls.\<close>

abbreviation only_calls :: "'w jcode_sdk \<Rightarrow> ('w, 'e, 'a) eff \<Rightarrow> bool" where
  "only_calls K \<equiv> within (sdk_calls K)"

definition world_calls :: "'w jcode_sdk \<Rightarrow> 'w jcode_runtime \<Rightarrow> 'w jcode_runtime \<Rightarrow> bool" where
  "world_calls K s t \<longleftrightarrow> sdk_calls K (jr_world s) (jr_world t)"

abbreviation runs_calls :: "'w jcode_sdk \<Rightarrow> ('w jcode_runtime, 'e, 'a) eff \<Rightarrow> bool" where
  "runs_calls K \<equiv> within (world_calls K)"

named_theorems call_rules \<open>operations that only make calls to the SDK\<close>

lemma transp_calls: "transp (sdk_calls K)" "transp (world_calls K)"
  by (auto simp: transp_def world_calls_def intro: sdk_calls_trans)

lemma calls_sbind [call_rules]:
  "only_calls K m \<Longrightarrow> (\<And>a. only_calls K (f a)) \<Longrightarrow> only_calls K (sbind m f)"
  "runs_calls K n \<Longrightarrow> (\<And>a. runs_calls K (g a)) \<Longrightarrow> runs_calls K (sbind n g)"
  by (rule within_sbind; simp add: transp_calls)+

lemma calls_stry [call_rules]:
  "only_calls K m \<Longrightarrow> (\<And>r. only_calls K (f r)) \<Longrightarrow> only_calls K (stry m f)"
  "runs_calls K n \<Longrightarrow> (\<And>r. runs_calls K (g r)) \<Longrightarrow> runs_calls K (stry n g)"
  by (rule within_stry; simp add: transp_calls)+

lemma calls_basic [call_rules]:
  "only_calls K (slift r)" "only_calls K (sreturn a)" "only_calls K (sfail e)"
  "runs_calls K (slift r)" "runs_calls K (sreturn a)" "runs_calls K (sfail e)" "runs_calls K (jget f)"
  by (simp_all add: within_def slift_def sreturn_def sfail_def jget_def world_calls_def)

lemmas calls_cases [call_rules] = within_rules

lemma calls_smap_err [call_rules]: "only_calls K m \<Longrightarrow> only_calls K (smap_err e m)"
  unfolding within_def smap_err_def by (auto split: prod.splits sum.splits) (metis snd_conv)+

lemma calls_sdk_op [call_rules]: "only_calls K m \<Longrightarrow> only_calls K (sdk_op name m)"
  unfolding within_def sdk_op_def by (auto split: prod.splits sum.splits) (metis snd_conv)+

lemma calls_on_sdk [call_rules]: "only_calls K m \<Longrightarrow> runs_calls K (on_sdk m)"
  unfolding within_def on_sdk_def world_calls_def by (auto split: prod.splits) (metis snd_conv)+

lemma calls_pure [call_rules]: "(\<And>s. jr_world (f s) = jr_world s) \<Longrightarrow> runs_calls K (tell f)"
  by (simp add: within_def tell_def world_calls_def)

lemma only_callsI: "(\<And>w r w'. m w = (r, w') \<Longrightarrow> sdk_step K w w') \<Longrightarrow> only_calls K m"
  unfolding within_def by (metis sdk_calls_step prod.collapse)

lemma calls_primitive [call_rules]:
  "only_calls K (jk_connect K opts)" "only_calls K (jk_launch K lopts)" "only_calls K (jk_attach_session K c sid)"
  "only_calls K (jk_create_session K c dir)" "only_calls K (jk_list_sessions K c)"
  "only_calls K (jk_list_models K c sid)" "only_calls K (jk_get_runtime_info K c sid)"
  "only_calls K (jk_set_model K c sid m)" "only_calls K (jk_cancel K c sid)"
  "only_calls K (jk_respond K c sid rid allow)" "only_calls K (jk_canonicalize K p)"
  by (rule only_callsI; erule sdk_step.intros)+

lemma calls_asked [call_rules]:
  "only_calls K (ask (jk_is_closed K c))" "only_calls K (ask (jk_readings K c sid timeout))"
  "only_calls K (ask (jk_is_dir K p))" "only_calls K (tell (jk_drop K c))" "only_calls K (tell (jk_subscribe K c sid))"
  unfolding within_def ask_def tell_def
  by (auto split: prod.split intro: sdk_calls_step sdk_step.intros)

lemma calls_opened [call_rules]: "only_calls K (open_client K config)"
  unfolding open_client_def by (cases "jn_connection config") (simp_all add: call_rules)

lemma calls_checks [call_rules]:
  "only_calls K (verify_session_project K info root)" "only_calls K (canonical_project_root K project)"
  "only_calls K (check_bound_root K b)"
  unfolding verify_session_project_def canonical_project_root_def check_bound_root_def
  by (intro call_rules)+

lemma calls_attach [call_rules]: "only_calls K (attach_and_verify K a b sid root c)"
  unfolding attach_and_verify_def by (intro call_rules)

lemma calls_probe [call_rules]: "only_calls K (probe_session K sid b timeout c)"
  unfolding probe_session_def by (intro call_rules)

lemma calls_discover [call_rules]: "only_calls K (discover_models K sid c)"
  unfolding discover_models_def by (intro call_rules)

lemma calls_select [call_rules]:
  "only_calls K (select_model_from_catalog K sid m catalog transport c)"
  "only_calls K (verify_active_model K sid m transport c)"
  unfolding select_model_from_catalog_def verify_active_model_def by (intro call_rules)+

section \<open>Operations of the adapter\<close>

lemma calls_state [call_rules]:
  "runs_calls K (set_state st b)" "runs_calls K (mark_verified g)" "runs_calls K (mark_attached sid pid root g)"
  "runs_calls K clear_attachment" "runs_calls K (session_binding_of sid)" "runs_calls K (is_attached_on_generation sid g)"
  by (auto simp: within_def world_calls_def set_state_def mark_verified_def mark_attached_def clear_attachment_def
      tell_def session_binding_of_def is_attached_on_generation_def jget_def Let_def)

lemma calls_take_client [call_rules]: "runs_calls K (take_client K)"
  by (auto simp: within_def world_calls_def take_client_def split: option.split intro: sdk_calls_step step_sdk_drop)

lemma calls_replace_client [call_rules]: "runs_calls K (replace_client K c)"
  unfolding replace_client_def by (intro call_rules) simp

lemma calls_connection_state [call_rules]:
  "(\<And>i. runs_calls K (f i)) \<Longrightarrow> runs_calls K d \<Longrightarrow> runs_calls K g \<Longrightarrow> (\<And>x. runs_calls K (h x)) \<Longrightarrow>
    runs_calls K (case st of Disconnected \<Rightarrow> d | Connecting \<Rightarrow> g | Connected i \<Rightarrow> f i | Faulted x \<Rightarrow> h x)"
  by (cases st) simp_all

lemma calls_refresh [call_rules]: "runs_calls K (refresh_closed_connection_locked K)"
  unfolding refresh_closed_connection_locked_def by (intro call_rules)

lemma calls_connect [call_rules]:
  "runs_calls K (connect_locked K)" "runs_calls K (disconnect_locked K)" "runs_calls K (connection_status K)"
  "runs_calls K (active_client K msg)"
  unfolding connect_locked_def disconnect_locked_def connection_status_def active_client_def
  by (intro call_rules)+

lemma calls_with_client [call_rules]: "(\<And>c. only_calls K (f c)) \<Longrightarrow> runs_calls K (with_client K f)"
  unfolding with_client_def by (intro call_rules)

lemma calls_transport [call_rules]:
  "runs_calls K (ensure_session_transport K)" "runs_calls K (reset_unverified_attachment K)"
  "runs_calls K (verify_transport_generation K g)" "runs_calls K (open_clean_model_client K)"
  unfolding ensure_session_transport_def reset_unverified_attachment_def verify_transport_generation_def
    open_clean_model_client_def
  by (intro call_rules)+

lemma calls_bind [call_rules]: "runs_calls K m \<Longrightarrow> runs_calls K (bind_verified K m pid root g)"
  unfolding bind_verified_def by (intro call_rules)

lemma calls_dropping [call_rules]: "runs_calls K m \<Longrightarrow> runs_calls K (dropping K c m)"
  unfolding dropping_def by (intro call_rules)

lemma calls_sessions [call_rules]:
  "runs_calls K (attach_verified K project sid root g)" "runs_calls K (ensure_bound_session_attached K sid b g)"
  "runs_calls K (require_binding msg sid)" "runs_calls K (open_fresh_model_client K sid b)"
  unfolding attach_verified_def ensure_bound_session_attached_def require_binding_def open_fresh_model_client_def
  by (intro call_rules)+

lemma calls_catalog [call_rules]: "runs_calls K (fresh_model_catalog K sid b g)"
  unfolding fresh_model_catalog_def by (intro call_rules)

section \<open>Where the calls stand\<close>

text \<open>An operation carries a condition on the SDK state along if further calls cannot break it.\<close>

definition outlasts :: "'w jcode_sdk \<Rightarrow> ('w \<Rightarrow> bool) \<Rightarrow> bool" where
  "outlasts K P \<longleftrightarrow> (\<forall>w w'. P w \<longrightarrow> sdk_calls K w w' \<longrightarrow> P w')"

lemma wp_outlasts:
  assumes "runs_calls K m" and "outlasts K P" and "P (jr_world s)"
  shows "wp m (\<lambda>r t. P (jr_world t)) s"
  using withinD [OF assms(1)] assms(2,3) by (intro wpI) (auto simp: outlasts_def world_calls_def)

lemma wp_along:
  assumes "runs_calls K m" and "wp m P t" and "sdk_calls K w (jr_world t)"
  shows "wp m (\<lambda>r u. P r u \<and> sdk_calls K w (jr_world u)) t"
  using assms(2) withinD [OF assms(1)] assms(3)
  by (auto simp: wp_def world_calls_def split: prod.splits intro: sdk_calls_trans)

text \<open>The connected client is taken, which may ask whether it was closed, and used for one operation.\<close>

lemma with_client_at:
  assumes op: "\<And>c w. wp (f c) (\<lambda>r w'. \<forall>x. r = Inr x \<longrightarrow> P x w w') w"
    and before: "\<And>x u w w'. sdk_calls K u w \<Longrightarrow> P x w w' \<Longrightarrow> P x u w'"
  shows "wp (with_client K f) (\<lambda>r t. \<forall>x. r = Inr x \<longrightarrow> P x (jr_world s) (jr_world t)) s"
  unfolding with_client_def
proof (rule wp_step [OF wp_outlasts [OF calls_connect(4), where P = "sdk_calls K (jr_world s)"]], goal_cases)
  case (4 c t)
  then show ?case using op [of c "jr_world t"] before [of "jr_world s" "jr_world t"]
    by (auto simp: wp_def on_sdk_def split: prod.splits)
qed (auto simp: outlasts_def intro: sdk_calls_trans)

text \<open>Between two states of the SDK: the path of a project was resolved to \<open>root\<close>, and a session was attached
  and then reported, exactly once, with a working directory that resolves to \<open>root\<close>.\<close>

definition resolved_in :: "'w jcode_sdk \<Rightarrow> project_ref \<Rightarrow> path \<Rightarrow> 'w \<Rightarrow> 'w \<Rightarrow> bool" where
  "resolved_in K project root w w' \<longleftrightarrow>
     (\<exists>u u'. sdk_calls K w u \<and> jk_canonicalize K (pr_root project) u = (Inr root, u') \<and> sdk_calls K u' w')"

definition attached_in :: "'w jcode_sdk \<Rightarrow> session_id \<Rightarrow> path \<Rightarrow> 'w \<Rightarrow> 'w \<Rightarrow> bool" where
  "attached_in K sid root w w' \<longleftrightarrow>
     (\<exists>c w1 w2 w3 w4 info infos entry dir actual.
        sdk_calls K w w1 \<and> jk_attach_session K c (sid_text sid) w1 = (Inr info, w2)
      \<and> si_session_id info = sid_text sid
      \<and> jk_list_sessions K c w2 = (Inr infos, w3)
      \<and> filter (\<lambda>i. si_session_id i = sid_text sid) infos = [entry] \<and> si_working_dir entry = Some dir
      \<and> jk_canonicalize K (Utf8Path dir) w3 = (Inr actual, w4) \<and> path_eq actual root \<and> sdk_calls K w4 w')"

lemma attached_in_around:
  "sdk_calls K u w \<Longrightarrow> attached_in K sid root w w' \<Longrightarrow> attached_in K sid root u w'"
  "attached_in K sid root w w' \<Longrightarrow> sdk_calls K w' u \<Longrightarrow> attached_in K sid root w u"
  unfolding attached_in_def by (meson sdk_calls_trans)+

lemma verify_project_reported:
  "verify_session_project K info root u = (Inr x, v) \<Longrightarrow> \<exists>dir actual. si_working_dir info = Some dir
    \<and> jk_canonicalize K (Utf8Path dir) u = (Inr actual, v) \<and> path_eq actual root"
  by (auto simp: verify_session_project_def sfail_def sbind_def smap_err_def sreturn_def
      split: option.splits if_splits prod.splits sum.splits)

lemma attach_at:
  "wp (attach_and_verify K a b sid root c) (\<lambda>r w'. \<forall>x. r = Inr x \<longrightarrow> x = sid \<and> attached_in K sid root w w') w"
proof (rule wpI, intro allI impI)
  fix r w' x
  assume run: "attach_and_verify K a b sid root c w = (r, w')" and r: "r = Inr x"
  obtain w1 w2 attached infos info where
      attached: "jk_attach_session K c (sid_text sid) w = (Inr attached, w1)"
    and same: "verify_attached_session_id attached (Some sid) = Inr x"
    and listed: "jk_list_sessions K c w1 = (Inr infos, w2)"
    and entry: "session_metadata infos x = Inr info" and dir: "verify_session_project K info root w2 = (Inr (), w')"
    using run unfolding r attach_and_verify_def
    by (auto simp: sbind_def slift_def sreturn_def sdk_op_def split: prod.splits sum.splits)
  have x: "x = sid" "si_session_id attached = sid_text sid"
    using same by (auto simp: verify_attached_session_id_def session_id_parse_def sid_text_def
        split: sum.splits if_splits session_id.splits)
  have "filter (\<lambda>i. si_session_id i = sid_text sid) infos = [info]"
    using entry unfolding x by (auto simp: session_metadata_def split: list.splits)
  with attached x(2) listed verify_project_reported [OF dir] show "x = sid \<and> attached_in K sid root w w'"
    unfolding attached_in_def x(1) by blast
qed

lemma attach_with_client:
  "wp (with_client K (attach_and_verify K a b sid root)) (\<lambda>r t. \<forall>x. r = Inr x \<longrightarrow>
     x = sid \<and> attached_in K sid root (jr_world s) (jr_world t)) s"
  by (rule with_client_at [where P = "\<lambda>x w w'. x = sid \<and> attached_in K sid root w w'"])
    (auto intro: attach_at attached_in_around)

text \<open>Binding a verified session leaves the SDK as the verification left it; a failure leaves no session
  attached if none was before.\<close>

lemma wp_bind_verified:
  assumes "wp m (\<lambda>r t. \<forall>x. r = Inr x \<longrightarrow> x = sid \<and> R (jr_world t)) s" and "keeps registry m"
    and "jr_generation s = g" and "jr_attached_session s = None"
  shows "wp (bind_verified K m pid root g) (\<lambda>r t. (\<forall>x. r = Inr x \<longrightarrow> R (jr_world t) \<and> holds_session sid g t
      \<and> jr_bindings t (sid_text sid)
          = Some \<lparr>sb_project_id = pid, sb_project_root = root, sb_connection_generation = g\<rparr>)
    \<and> (\<forall>e. r = Inl e \<longrightarrow> jr_attached_session t = None)) s"
  unfolding bind_verified_def
proof (rule wp_try [OF wp_keeps [OF assms(2,1)]], goal_cases)
  case (1 r u)
  then have u: "jr_generation u = g" "jr_attached_session u = None" using assms(3,4) by (simp_all add: registry_eq)
  have reset: "jr_attached_session v = None" if "reset_unverified_attachment K u = (x, v)" for x v
    using that by (auto simp: reset_unverified_attachment_def stry_def clear_attachment_def tell_def sreturn_def
        split: prod.splits)
  show ?case
  proof (cases r)
    case (Inl e)
    then show ?thesis using reset by (auto simp: wp_def sbind_def sfail_def split: prod.splits sum.splits)
  next
    case (Inr x)
    with 1 u show ?thesis
      by (auto simp: wp_def sbind_def sreturn_def mark_attached_def holds_session_def split: option.splits)
  qed
qed

text \<open>Between two states of the SDK: the model was set for the session, and a client connected then read the
  runtime of the session, which named the model, served by the expected provider.\<close>

definition selected_in :: "'w jcode_sdk \<Rightarrow> session_id \<Rightarrow> model_ref \<Rightarrow> 'w \<Rightarrow> 'w \<Rightarrow> bool" where
  "selected_in K sid requested w w' \<longleftrightarrow>
     (\<exists>c w1 w2. sdk_calls K w w1 \<and> jk_set_model K c (sid_text sid) (mr_id requested) w1 = (Inr (), w2)
        \<and> sdk_calls K w2 w')"

definition names_model :: "session_id \<Rightarrow> model_ref \<Rightarrow> rstring option \<Rightarrow> runtime_info \<Rightarrow> bool" where
  "names_model sid requested transport info \<longleftrightarrow>
     ri_session_id info = sid_text sid \<and> ri_model info = Some (mr_id requested)
     \<and> ri_provider info = (case transport of Some p \<Rightarrow> Some p | None \<Rightarrow> mr_provider requested)"

definition observed_in ::
    "'w jcode_sdk \<Rightarrow> session_id \<Rightarrow> model_ref \<Rightarrow> rstring option \<Rightarrow> 'w \<Rightarrow> 'w \<Rightarrow> bool" where
  "observed_in K sid requested transport w w' \<longleftrightarrow>
     (\<exists>opts c w1 w2 w3 w4 info.
        sdk_calls K w w1 \<and> jk_connect K opts w1 = (Inr c, w2) \<and> sdk_calls K w2 w3
      \<and> jk_get_runtime_info K c (sid_text sid) w3 = (Inr info, w4) \<and> names_model sid requested transport info
      \<and> sdk_calls K w4 w')"

definition connected_in :: "'w jcode_sdk \<Rightarrow> jcode_client \<Rightarrow> 'w \<Rightarrow> 'w \<Rightarrow> bool" where
  "connected_in K c w w' \<longleftrightarrow>
     (\<exists>opts w1 w2. sdk_calls K w w1 \<and> jk_connect K opts w1 = (Inr c, w2) \<and> sdk_calls K w2 w')"

lemma outlasting:
  "outlasts K (sdk_calls K w)" "outlasts K (selected_in K sid m w)" "outlasts K (connected_in K c w)"
  "outlasts K (observed_in K sid m transport w)"
  unfolding outlasts_def selected_in_def connected_in_def observed_in_def by (meson sdk_calls_trans)+

lemma outlasts_conj: "outlasts K P \<Longrightarrow> outlasts K Q \<Longrightarrow> outlasts K (\<lambda>w. P w \<and> Q w)"
  unfolding outlasts_def by blast

lemma outlasts_ex: "(\<And>x. outlasts K (P x)) \<Longrightarrow> outlasts K (\<lambda>w. \<exists>x. P x w)"
  unfolding outlasts_def by blast

lemma select_at:
  "wp (with_client K (select_model_from_catalog K sid m catalog transport))
     (\<lambda>r t. \<forall>x. r = Inr x \<longrightarrow> selected_in K sid m (jr_world s) (jr_world t)) s"
proof (rule with_client_at [where P = "\<lambda>x. selected_in K sid m"])
  show "wp (select_model_from_catalog K sid m catalog transport c)
      (\<lambda>r w'. \<forall>x. r = Inr x \<longrightarrow> selected_in K sid m w w') w" for c w
    unfolding select_model_from_catalog_def selected_in_def
    by (rule wpI) (auto simp: sbind_def slift_def sfail_def sdk_op_def split: prod.splits sum.splits option.splits)
qed (auto simp: selected_in_def intro: sdk_calls_trans)

lemma open_at:
  "wp (open_fresh_model_client K sid b) (\<lambda>r t. \<forall>c. r = Inr c \<longrightarrow> connected_in K c (jr_world s) (jr_world t)) s"
proof -
  have clean: "wp (open_clean_model_client K) (\<lambda>r t. \<forall>c. r = Inr c \<longrightarrow> connected_in K c w (jr_world t)) u"
    if "sdk_calls K w (jr_world u)" for u w
    unfolding open_clean_model_client_def
  proof (rule wp_step [OF wp_outlasts [OF calls_connect(4) outlasting(1) that]], goal_cases)
    case (2 c v)
    then show ?case
      by (auto simp: wp_def sbind_def jget_def stry_def on_sdk_def sreturn_def sfail_def connected_in_def
          split: prod.splits sum.splits)
  qed simp
  have probe: "wp (stry (on_sdk (probe_session K sid b timeout c)) (\<lambda>r. case r of Inr _ \<Rightarrow> sreturn c
      | Inl e \<Rightarrow> sbind (on_sdk (tell (jk_drop K c))) (\<lambda>_. sfail e)))
      (\<lambda>r t. \<forall>c. r = Inr c \<longrightarrow> connected_in K c w (jr_world t)) u"
    if "connected_in K c w (jr_world u)" for c u w timeout
  proof (rule wp_try [OF wp_outlasts [OF calls_on_sdk [OF calls_probe] outlasting(3) that]], goal_cases)
    case (1 r v)
    then show ?case
      by (cases r) (auto simp: wp_def sbind_def on_sdk_def tell_def sfail_def sreturn_def)
  qed
  have timeout: "wp (sbind (jget (\<lambda>s. jn_request_timeout_ms (jr_config s))) (\<lambda>timeout.
      sbind (open_clean_model_client K) (\<lambda>c. stry (on_sdk (probe_session K sid b timeout c)) (\<lambda>r. case r of
        Inr _ \<Rightarrow> sreturn c | Inl e \<Rightarrow> sbind (on_sdk (tell (jk_drop K c))) (\<lambda>_. sfail e)))))
      (\<lambda>r t. \<forall>c. r = Inr c \<longrightarrow> connected_in K c w (jr_world t)) u"
    if "sdk_calls K w (jr_world u)" for u w
    unfolding wp_sbind [of "jget _"]
    by (simp add: wp_def [of "jget _"] jget_def) (rule wp_step [OF clean [OF that]]; use probe in auto)
  show ?thesis
    unfolding open_fresh_model_client_def
    by (rule wp_step [OF wp_outlasts [OF calls_on_sdk [OF calls_checks(3)] outlasting(1) sdk_calls_refl]])
      (auto intro: timeout)
qed

lemma verify_at:
  assumes "connected_in K c w (jr_world s)"
  shows "wp (on_sdk (verify_active_model K sid m transport c)) (\<lambda>r t. \<forall>a. r = Inr a \<longrightarrow>
    mr_id a = mr_id m \<and> mr_provider a = mr_provider m \<and> observed_in K sid m transport w (jr_world t)) s"
proof (rule wpI, intro allI impI)
  fix r t a
  assume run: "on_sdk (verify_active_model K sid m transport c) s = (r, t)" and r: "r = Inr a"
  obtain info where info: "jk_get_runtime_info K c (sid_text sid) (jr_world s) = (Inr info, jr_world t)"
    and check: "check_active_model sid m transport info = Inr a"
    using run unfolding r verify_active_model_def
    by (auto simp: on_sdk_def sbind_def slift_def sdk_op_def split: prod.splits sum.splits)
  have "names_model sid m transport info" "mr_id a = mr_id m" "mr_provider a = mr_provider m"
    using check by (auto simp: check_active_model_def names_model_def split: option.splits if_splits)
  with assms info show "mr_id a = mr_id m \<and> mr_provider a = mr_provider m
      \<and> observed_in K sid m transport w (jr_world t)"
    unfolding connected_in_def observed_in_def by blast
qed

text \<open>A model change: selected, then observed by a client connected afterwards.\<close>

definition changed_in ::
    "'w jcode_sdk \<Rightarrow> session_id \<Rightarrow> model_ref \<Rightarrow> rstring option \<Rightarrow> model_ref \<Rightarrow> 'w \<Rightarrow> 'w \<Rightarrow> bool" where
  "changed_in K sid requested transport active w w' \<longleftrightarrow>
     mr_id active = mr_id requested \<and> mr_provider active = mr_provider requested
     \<and> (\<exists>v. selected_in K sid requested w v \<and> observed_in K sid requested transport v w')"

lemma changed_in_after:
  "outlasts K (changed_in K sid m transport a w)"
  "sdk_calls K u w \<Longrightarrow> changed_in K sid m transport a w w' \<Longrightarrow> changed_in K sid m transport a u w'"
  using outlasting(4) [of K sid m transport] unfolding outlasts_def changed_in_def selected_in_def
  by (blast, meson sdk_calls_trans)

lemma corroborate_at:
  "wp (select_and_corroborate K sid b g m catalog)
     (\<lambda>r t. \<forall>a. r = Inr a \<longrightarrow> changed_in K sid m (gateway_provider s) a (jr_world s) (jr_world t)) s"
proof -
  let ?tp = "gateway_provider s"
  let ?Q = "\<lambda>r t. \<forall>a. r = Inr a \<longrightarrow> changed_in K sid m ?tp a (jr_world s) (jr_world t)"
  have seen: "wp (sbind (on_sdk (verify_active_model K sid m ?tp c)) (\<lambda>active.
        sbind (verify_transport_generation K g) (\<lambda>_. sreturn active))) ?Q t"
    if "selected_in K sid m (jr_world s) v" "connected_in K c v (jr_world t)" for c v t
  proof (rule wp_step [OF verify_at [OF that(2)]], goal_cases)
    case (2 a u)
    then have "changed_in K sid m ?tp a (jr_world s) (jr_world u)"
      using that(1) by (auto simp: changed_in_def)
    then show ?case
      by (intro wp_step [OF wp_outlasts [OF calls_transport(3) changed_in_after(1)]]) (auto simp: wp_simps)
  qed simp
  have dropped: "wp (dropping K c n) ?Q t" if "wp n ?Q t" for c n t
    unfolding dropping_def
  proof (rule wp_try [OF that], goal_cases)
    case (1 r u)
    have "sdk_calls K (jr_world u) (jk_drop K c (jr_world u))" by (intro sdk_calls_step step_sdk_drop)
    with 1 changed_in_after(1) [of K sid m ?tp] show ?case
      by (auto simp: wp_def sbind_def slift_def on_sdk_def tell_def outlasts_def split: prod.splits)
  qed
  have "wp (sbind (with_client K (select_model_from_catalog K sid m catalog ?tp)) (\<lambda>_.
     sbind (open_fresh_model_client K sid b) (\<lambda>c. dropping K c
       (sbind (on_sdk (verify_active_model K sid m ?tp c)) (\<lambda>active.
        sbind (verify_transport_generation K g) (\<lambda>_. sreturn active)))))) ?Q s"
  proof (rule wp_step [OF select_at], goal_cases)
    case (2 x t)
    then show ?case by (intro wp_step [OF open_at]) (auto intro: dropped seen)
  qed simp
  then show ?thesis by (simp add: select_and_corroborate_def wp_def sbind_def [of "jget gateway_provider"] jget_def)
qed

section \<open>What a failed refresh leaves\<close>

definition attachments :: "'w jcode_runtime \<Rightarrow> rstring option \<times> (rstring \<rightharpoonup> session_binding)" where
  "attachments s = (jr_attached_session s, jr_bindings s)"

lemma keeps_attachments [keeps_intros]:
  "keeps attachments (on_sdk m)" "keeps attachments (set_state st b)" "keeps attachments (take_client K)"
  "keeps attachments (tell (\<lambda>s. s\<lparr>jr_client := c\<rparr>))"
  by (auto simp: keeps_def attachments_def on_sdk_def set_state_def take_client_def tell_def Let_def
      split: prod.split option.split)

lemma keeps_attachments_transport: "keeps attachments (ensure_session_transport K)"
  unfolding ensure_session_transport_def connect_locked_def refresh_closed_connection_locked_def
    replace_client_def
  by (intro keeps_intros)

end
