(* ===== verification/Jcode_Guarantees.thy ===== *)
theory Jcode_Guarantees
  imports Jcode_Calls
begin

text \<open>
  What the Jcode adapter promises to the backend, with instances on a small SDK that answers every call.
\<close>

section \<open>Whole calls\<close>

lemma wp_when_idle:
  "wp (when_idle busy m) Q s \<longleftrightarrow>
     (if jr_active s = None then wp m Q s else Q (Inl (InvalidRequest busy)) s)"
  by (simp add: wp_def when_idle_free when_idle_busy)

lemma wp_refresh_session:
  assumes "jcode_ok s"
  shows "wp (jcode_refresh_session K project sid) (\<lambda>r t. case r of
      Inr _ \<Rightarrow> \<exists>b w. jr_bindings t (sid_text sid) = Some b \<and> sb_project_id b = pr_id project
        \<and> resolved_in K project (sb_project_root b) (jr_world s) w
        \<and> attached_in K sid (sb_project_root b) w (jr_world t) \<and> holds_session sid (jr_generation t) t
    | Inl e \<Rightarrow> jr_attached_session t = None \<or> attachments t = attachments s) s"
    (is "wp _ ?Q s")
proof -
  have attach: "wp (attach_verified K project sid root g) ?Q t"
    if t: "jr_generation t = g" "jr_attached_session t = None" and w: "resolved_in K project root (jr_world s) (jr_world t)"
    for t root g
    unfolding attach_verified_def
    by (rule wp_step [OF wp_bind_verified [where R = "attached_in K sid root (jr_world t)",
            OF attach_with_client keeps_aside(3) t]])
      (use w in \<open>auto simp: wp_sreturn holds_session_def\<close>)
  have idle: "wp (sbind (ensure_session_transport K) (\<lambda>g. sbind clear_attachment
      (\<lambda>_. attach_verified K project sid root g))) ?Q t"
    if "jcode_ok t" "jr_active t = None" "attachments t = attachments s"
      "resolved_in K project root (jr_world s) (jr_world t)" for t root
  proof -
    have "outlasts K (resolved_in K project root (jr_world s))"
      unfolding outlasts_def resolved_in_def by (meson sdk_calls_trans)
    from wp_outlasts [where P = "resolved_in K project root (jr_world s)" and s = t, OF calls_transport(1) this that(4)]
    show ?thesis
    proof (rule wp_step [OF wp_keeps [OF keeps_attachments_transport wp_conj [OF wp_transport [OF that(1,2)]]]],
        goal_cases)
      case (2 g v)
      then have "wp (attach_verified K project sid root g) ?Q (v\<lparr>jr_attached_session := None\<rparr>)"
        by (intro attach) simp_all
      then show ?case by (simp add: wp_sbind) (simp add: wp_def clear_attachment_def tell_def)
    qed (use that(3) in simp)
  qed
  have root: "wp (on_sdk (canonical_project_root K project)) (\<lambda>r t. \<forall>root. r = Inr root \<longrightarrow>
      resolved_in K project root (jr_world s) (jr_world t)) s"
  proof -
    have found: "resolved_in K project root w w''"
      if "jk_canonicalize K (pr_root project) w = (Inr root, w')" "jk_is_dir K root w' = (True, w'')" for root w w' w''
      unfolding resolved_in_def using that by (meson sdk_calls_refl sdk_calls_step step_sdk_is_dir)
    show ?thesis
      by (rule wpI) (auto simp: on_sdk_def canonical_project_root_def sfail_def sbind_def smap_err_def ask_def
          sreturn_def split: prod.splits sum.splits if_splits intro: found)
  qed
  show ?thesis
    unfolding jcode_refresh_session_def
  proof (rule wp_step [where P = "\<lambda>r t. t = s"], goal_cases)
    case (3 a t)
    then have t: "t = s" by simp
    show ?case
      unfolding t
    proof (rule wp_step [OF wp_keeps [OF keeps_attachments(1) wp_conj [OF root steadyD [OF steady_on_sdk assms]]]],
        goal_cases)
      case (2 root u)
      then show ?case unfolding wp_when_idle using idle [of u root] by simp
    qed simp
  qed (simp_all add: wp_slift)
qed

lemma wp_corroborate:
  assumes "jcode_ok s"
  shows "wp (jcode_corroborate_model_identity K sid m) (\<lambda>r t. \<forall>a. r = Inr a \<longrightarrow>
    changed_in K sid m (gateway_provider s) a (jr_world s) (jr_world t) \<and> holds_session sid (jr_generation t) t) s"
    (is "wp _ ?Q s")
proof -
  have select: "wp (select_and_corroborate K sid b g m catalog) ?Q t"
    if "later s t" and "holds_session sid g t" and calls: "sdk_calls K (jr_world s) (jr_world t)" for b g catalog t
  proof -
    have "gateway_provider t = gateway_provider s" using that(1) by (simp add: gateway_provider_def later_def)
    with corroborate_at [of K sid b g m catalog t]
    have "wp (select_and_corroborate K sid b g m catalog)
      (\<lambda>r u. \<forall>a. r = Inr a \<longrightarrow> changed_in K sid m (gateway_provider s) a (jr_world t) (jr_world u)) t" by simp
    from wp_keeps [OF keeps_probes(4) this] show ?thesis
      by (rule wp_mono) (use that(2) changed_in_after(2) [OF calls] in \<open>simp add: holds_session_def registry_eq\<close>)
  qed
  have bound: "wp (sbind (ensure_bound_session_attached K sid b g)
      (\<lambda>_. select_and_corroborate K sid b g m catalog)) ?Q t"
    if "jcode_ok t" "jr_active t = None" "later s t" "g = jr_generation t" "sdk_calls K (jr_world s) (jr_world t)"
    for t b g catalog
    by (rule wp_step [OF wp_along [OF calls_sessions(2) wp_ensure_bound [OF that(1,2,4)] that(5)]])
      (use that(3) in \<open>auto intro: select later_trans\<close>)
  have catalog: "wp (sbind (require_binding msg sid) (\<lambda>b. sbind (fresh_model_catalog K sid b g)
      (\<lambda>catalog. sbind (ensure_bound_session_attached K sid b g)
      (\<lambda>_. select_and_corroborate K sid b g m catalog)))) ?Q t"
    if t: "jcode_ok t" "jr_active t = None" "later s t" "g = jr_generation t" "sdk_calls K (jr_world s) (jr_world t)"
    for t g msg
  proof (rule wp_step [OF wp_along [OF calls_sessions(3) idle_keeps [OF steady_aside(8) keeps_aside(8) t(1,2)] t(5)]],
      goal_cases)
    case (2 b u)
    then have u: "jcode_ok u" "jr_active u = None" "later s u" "g = jr_generation u"
      "sdk_calls K (jr_world s) (jr_world u)"
      using t(3,4) by (auto simp: registry_eq intro: later_trans)
    show ?case
    proof (rule wp_step [OF wp_along [OF calls_catalog idle_keeps [OF steady_probes(3) keeps_probes(3) u(1,2)] u(5)]],
        goal_cases)
      case (2 c v)
      then show ?case using u(3,4) by (intro bound) (auto simp: registry_eq intro: later_trans)
    qed simp
  qed simp
  have idle: "wp (sbind (ensure_session_transport K) (\<lambda>g. sbind (require_binding msg sid)
      (\<lambda>b. sbind (fresh_model_catalog K sid b g) (\<lambda>catalog. sbind (ensure_bound_session_attached K sid b g)
      (\<lambda>_. select_and_corroborate K sid b g m catalog))))) ?Q s" if "jr_active s = None" for msg
    by (rule wp_step [OF wp_along [OF calls_transport(1) wp_transport [OF assms that] sdk_calls_refl]])
      (auto intro: catalog)
  show ?thesis
    unfolding jcode_corroborate_model_identity_def wp_sbind [of "slift _"] wp_slift wp_when_idle
    by (auto intro: idle split: sum.split)
qed

section \<open>Properties\<close>

text \<open>C34: The agent adapter is consistent in every reachable state. Whatever the SDK answers and however
  calls, worker events, answers, cancellations and drops interleave: a client is held exactly while the
  state says connected, no binding is from a later connection, the attached session is bound, the
  permission broker is well formed, and while a turn is active its session is attached and bound on the
  very connection generation that started the turn.\<close>

theorem adapter_consistent:
  assumes "reach (jcode_init config) (jcode_step K call) s"
  shows "jcode_ok s"
  using assms by (rule jcode.reach_inv)

text \<open>C35: A session never moves to another project. Once a session is bound to a project and a root, it
  is bound to the same project and root after any further calls, reconnections and turns.\<close>

theorem binding_never_moves:
  assumes "reach (jcode_init config) (jcode_step K call) s" and "run (jcode_step K call) s n t"
    and "jr_bindings s k = Some b"
  shows "\<exists>b'. jr_bindings t k = Some b' \<and> sb_project_id b' = sb_project_id b
    \<and> path_eq (sb_project_root b) (sb_project_root b')"
proof -
  from run_later [OF assms(2) jcode.reach_inv [OF assms(1)]] assms(3)
  obtain b' where "jr_bindings t k = Some b'" "same_project b b'" unfolding later_def by blast
  then show ?thesis by (auto simp: same_project_def)
qed

text \<open>C36: A bridged turn that succeeds stayed within its tools. When the adapter runs behind the model
  gateway and a started turn returns a result, then whatever events its worker delivered and whatever
  happened between them, the session started at most 32 tools, and only tools of the file-editing list.\<close>

theorem bridged_turn_contained:
  assumes "reach (jcode_init config) (jcode_step K call) s" and "jn_model_gateway_bridge config \<noteq> None"
    and "jcode_start_turn K sid prompt model s = (Inr opts, s')"
    and "turn_outcome (worker_events K handle opts events (turn_callback_new handler)) cancelled result = Inr t"
  shows "length (List.map_filter (started_tool sid \<circ> snd) events) \<le> 32
    \<and> set (List.map_filter (started_tool sid \<circ> snd) events) \<subseteq> set VIBECODER_BRIDGED_FILE_TOOLS"
proof -
  note opts = bridged_options [OF assms(1-3)]
  from worker_contained [OF outcome_clean [OF assms(4)] opts(2,3)]
  show ?thesis by (simp add: turn_callback_new_def opts(1))
qed

text \<open>C37: The application sees exactly the public stream of its own session. When a bridged turn succeeds,
  what a handler was given, permission prompts aside, is the list of the public events of the session, in
  order and each in its application form: nothing is lost or repeated. Events of other sessions, and
  reasoning, tool inputs and the other internal events of its own, are never shown.\<close>

theorem bridged_turn_stream:
  assumes "reach (jcode_init config) (jcode_step K call) s" and "jn_model_gateway_bridge config \<noteq> None"
    and "jcode_start_turn K sid prompt model s = (Inr opts, s')"
    and "tb = worker_events K recording opts events (turn_callback_new (Some []))"
    and "turn_outcome tb cancelled result = Inr t"
  shows "\<exists>es. tb_handler tb = Some es
    \<and> streamed es = List.map_filter public_form
        (filter (\<lambda>e. event_session e = Some (sid_text sid) \<and> \<not> hidden e) (map snd events))"
proof -
  note opts = bridged_options [OF assms(1-3)]
  from worker_streamed [OF outcome_clean [OF assms(5), unfolded assms(4)] opts(2,3), of "[]"]
  show ?thesis by (simp add: turn_callback_new_def streamed_def assms(4) opts(1) shown_events_def)
qed

text \<open>C38: A corroborated model was observed, not echoed. When a model change succeeds, the identity returned
  is the requested one, and in the course of this call Jcode accepted the model for the session, then a new
  client was connected, and then that client read the runtime of this session, which named the requested
  model as active, served by the gateway's transport provider or, without one, by the requested provider.
  The session is attached on the current connection.\<close>

theorem corroborated_model_observed:
  assumes "reach (jcode_init config) (jcode_step K call) s"
    and "jcode_corroborate_model_identity K sid m s = (Inr a, t)"
  shows "mr_id a = mr_id m \<and> mr_provider a = mr_provider m
    \<and> (\<exists>w. selected_in K sid m (jr_world s) w
         \<and> observed_in K sid m (model_gateway_transport_provider config) w (jr_world t))
    \<and> holds_session sid (jr_generation t) t"
  using wpD [OF wp_corroborate [OF jcode.reach_inv [OF assms(1)]] assms(2)] reach_config [OF assms(1)]
  by (simp add: gateway_provider_def changed_in_def)

text \<open>C39: After a rollback the agent is attached to the new directory or not at all. Refreshing a session
  never relies on an earlier attachment: when it succeeds, in the course of this call the project's path
  was resolved to its canonical root, then Jcode attached this very session again, then listed it exactly
  once, with a working directory that resolves to that root; the session is attached on the current
  connection and bound to that project and root. When it fails, no session is attached, or the call was
  refused before it touched any attachment or binding.\<close>

theorem refreshed_session_verified:
  assumes "reach (jcode_init config) (jcode_step K call) s"
    and "jcode_refresh_session K project sid s = (r, t)"
  shows "case r of
      Inr _ \<Rightarrow> \<exists>b w. jr_bindings t (sid_text sid) = Some b \<and> sb_project_id b = pr_id project
        \<and> resolved_in K project (sb_project_root b) (jr_world s) w
        \<and> attached_in K sid (sb_project_root b) w (jr_world t) \<and> holds_session sid (jr_generation t) t
    | Inl e \<Rightarrow> jr_attached_session t = None
        \<or> jr_attached_session t = jr_attached_session s \<and> jr_bindings t = jr_bindings s"
  using wpD [OF wp_refresh_session [OF jcode.reach_inv [OF assms(1)]] assms(2)]
  by (simp add: attachments_def split: sum.splits)

section \<open>Concrete instances\<close>

definition calm_config :: jcode_connection_config where
  "calm_config =
     \<lparr>jn_client_name = lit ''vibecoder'', jn_request_timeout_ms = 30000,
      jn_connection = jcode_connection_mode_default,
      jn_model_gateway_bridge = Some VibeCoderOmniRouteLoopbackV1\<rparr>"

definition calm_session :: session_id where "calm_session = SessionId (lit ''s1'')"

definition calm_agent_project :: project_ref where
  "calm_agent_project = \<lparr>pr_id = ProjectId 1, pr_root = Utf8Path (lit ''/p'')\<rparr>"

definition calm_model :: model_ref where
  "calm_model = \<lparr>mr_id = lit ''m1'', mr_display_name = None, mr_provider = Some (lit ''acme'')\<rparr>"

definition calm_info :: session_info where
  "calm_info = \<lparr>si_session_id = lit ''s1'', si_working_dir = Some (lit ''/p'')\<rparr>"

definition calm_sdk :: "unit jcode_sdk" where
  "calm_sdk =
     \<lparr>jk_package_version = lit ''1'', jk_api_version_major = 1,
      jk_connect = (\<lambda>_ w. (Inr 2, w)), jk_launch = (\<lambda>_ w. (Inr 1, w)), jk_drop = (\<lambda>_ w. w),
      jk_is_closed = (\<lambda>_ w. (False, w)), jk_server = (\<lambda>_. lit ''jcode''),
      jk_capabilities = (\<lambda>_. [lit ''sessions'', lit ''streaming'']),
      jk_socket_path = (\<lambda>_. Utf8Path (lit ''/s'')),
      jk_attach_session = (\<lambda>_ _ w. (Inr calm_info, w)), jk_create_session = (\<lambda>_ _ w. (Inr calm_info, w)),
      jk_list_sessions = (\<lambda>_ w. (Inr [calm_info], w)),
      jk_list_models = (\<lambda>_ _ w. (Inr ([lit ''m1''], None), w)),
      jk_get_runtime_info = (\<lambda>_ _ w. (Inr \<lparr>ri_session_id = lit ''s1'',
        ri_provider = Some (lit ''OpenAI-compatible''), ri_model = Some (lit ''m1''),
        ri_routes = [\<lparr>mi_model = lit ''m1'', mi_provider = lit ''OpenAI-compatible'', mi_available = True\<rparr>]\<rparr>, w)),
      jk_set_model = (\<lambda>_ _ _ w. (Inr (), w)), jk_cancel = (\<lambda>_ _ w. (Inr (), w)),
      jk_respond = (\<lambda>_ _ _ _ w. (Inr (), w)), jk_subscribe = (\<lambda>_ _ w. w),
      jk_readings = (\<lambda>_ _ _ w. ([(5, Some (EvModelInfo (lit ''s1'') None None))], w)),
      jk_canonicalize = (\<lambda>p w. (Inr p, w)), jk_is_dir = (\<lambda>_ w. (True, w))\<rparr>"

definition calm_runtime :: "unit jcode_runtime" where
  "calm_runtime =
     \<lparr>jr_config = calm_config, jr_client = None, jr_generation = 0, jr_state = Disconnected,
      jr_bindings = (\<lambda>_. None), jr_attached_session = None, jr_active = None,
      jr_permissions = permission_registry_new, jr_verified_generation = None, jr_world = ()\<rparr>"

definition calm_attached :: "unit jcode_runtime" where
  "calm_attached = snd (jcode_resume_session calm_sdk calm_agent_project calm_session calm_runtime)"

definition calm_running :: "unit jcode_runtime" where
  "calm_running = snd (jcode_start_turn calm_sdk calm_session (lit ''hello'') None calm_attached)"

definition calm_events :: "(unit jcode_runtime \<times> api_event) list" where
  "calm_events = map (\<lambda>e. (calm_running, e))
     [EvReasoningDelta (lit ''s1'') (lit ''hm''), EvToolStart (lit ''s1'') (lit ''c1'') (lit ''read''),
      EvTextDelta (lit ''s2'') (lit ''other''), EvTextDelta (lit ''s1'') (lit ''hi''), EvTurnDone (lit ''s1'')]"

lemma calm_reach: "reach (jcode_init calm_config) (jcode_step calm_sdk recording) calm_attached"
  "reach (jcode_init calm_config) (jcode_step calm_sdk recording) calm_running"
  "run (jcode_step calm_sdk recording) calm_attached 1 calm_running"
proof -
  have "jcode_connection_config_validate calm_config = Inr ()" by code_simp
  then have "jcode_runtime_new calm_config () = Inr calm_runtime"
    by (simp add: jcode_runtime_new_def calm_runtime_def)
  then have "reach (jcode_init calm_config) (jcode_step calm_sdk recording) calm_runtime"
    by (auto simp: jcode_init_def intro: reach_init)
  moreover have "jcode_step calm_sdk recording calm_runtime calm_attached"
    unfolding calm_attached_def by (rule step_resume) (rule surjective_pairing)
  ultimately show a: "reach (jcode_init calm_config) (jcode_step calm_sdk recording) calm_attached"
    by (rule reach_step)
  have s: "jcode_step calm_sdk recording calm_attached calm_running"
    unfolding calm_running_def by (rule step_start) (rule surjective_pairing)
  from a s show "reach (jcode_init calm_config) (jcode_step calm_sdk recording) calm_running"
    by (rule reach_step)
  show "run (jcode_step calm_sdk recording) calm_attached 1 calm_running"
    unfolding One_nat_def using run_refl s by (rule run.run_step)
qed

definition calm_options :: turn_options where
  "calm_options =
     \<lparr>to_session = calm_session, to_client = 1, to_permissions_supported = False, to_generation = 1,
      to_max_tool_calls = Some 32, to_allowed_tools = Some VIBECODER_BRIDGED_FILE_TOOLS\<rparr>"

lemma calm_start:
  "jcode_start_turn calm_sdk calm_session (lit ''hello'') None calm_attached = (Inr calm_options, calm_running)"
proof -
  have "fst (jcode_start_turn calm_sdk calm_session (lit ''hello'') None calm_attached) = Inr calm_options"
    by code_simp
  then show ?thesis by (simp add: calm_running_def prod_eq_iff)
qed

lemma calm_bridge: "jn_model_gateway_bridge calm_config \<noteq> None"
  by (simp add: calm_config_def)

theorem adapter_consistent_witness: "jcode_ok calm_running"
  by (rule adapter_consistent [OF calm_reach(2)])

theorem binding_never_moves_witness:
  "\<exists>b'. jr_bindings calm_running (lit ''s1'') = Some b' \<and> sb_project_id b' = ProjectId 1
    \<and> path_eq (Utf8Path (lit ''/p'')) (sb_project_root b')"
proof -
  have "jr_bindings calm_attached (lit ''s1'') = Some \<lparr>sb_project_id = ProjectId 1,
    sb_project_root = Utf8Path (lit ''/p''), sb_connection_generation = 1\<rparr>" by code_simp
  from binding_never_moves [OF calm_reach(1,3) this] show ?thesis by simp
qed

definition calm_result :: "sdk_error + sdk_turn_result" where
  "calm_result = Inr \<lparr>sr_text = lit ''hi'', sr_tool_calls = [], sr_usage = None\<rparr>"

lemma calm_outcome: "turn_outcome (worker_events calm_sdk recording calm_options calm_events
    (turn_callback_new (Some []))) False calm_result
  = Inr \<lparr>tr_text = lit ''hi'', tr_cancelled = False, tr_tool_calls = [], tr_usage = None\<rparr>"
  by code_simp

theorem bridged_turn_contained_witness:
  "length (List.map_filter (started_tool calm_session \<circ> snd) calm_events) \<le> 32"
  using bridged_turn_contained [OF calm_reach(1) calm_bridge calm_start calm_outcome] by (rule conjunct1)

theorem bridged_turn_stream_witness:
  "\<exists>es. tb_handler (worker_events calm_sdk recording calm_options calm_events (turn_callback_new (Some [])))
      = Some es \<and> streamed es = [ToolStarted (lit ''read'') (lit ''c1''), TextDelta (lit ''hi''), TurnCompleted]"
proof -
  have shown: "List.map_filter public_form
      (filter (\<lambda>e. event_session e = Some (sid_text calm_session) \<and> \<not> hidden e) (map snd calm_events))
    = [ToolStarted (lit ''read'') (lit ''c1''), TextDelta (lit ''hi''), TurnCompleted]"
    by (simp add: calm_events_def calm_session_def sid_text_def lit_def List.map_filter_def)
  show ?thesis
    using bridged_turn_stream [OF calm_reach(1) calm_bridge calm_start refl calm_outcome] unfolding shown .
qed

theorem corroborated_model_observed_witness:
  "\<exists>w t. selected_in calm_sdk calm_session calm_model (jr_world calm_attached) w
    \<and> observed_in calm_sdk calm_session calm_model (Some (lit ''OpenAI-compatible'')) w t"
proof -
  let ?run = "jcode_corroborate_model_identity calm_sdk calm_session calm_model calm_attached"
  have "fst ?run = Inr calm_model" by code_simp
  then have "?run = (Inr calm_model, snd ?run)" by (simp add: prod_eq_iff)
  from corroborated_model_observed [OF calm_reach(1) this] show ?thesis
    by (auto simp: calm_config_def model_gateway_transport_provider_def
        VIBECODER_OMNIROUTE_JCODE_TRANSPORT_PROVIDER_def)
qed

theorem refreshed_session_verified_witness:
  "\<exists>root w t. resolved_in calm_sdk calm_agent_project root (jr_world calm_attached) w
    \<and> attached_in calm_sdk calm_session root w t"
proof -
  let ?run = "jcode_refresh_session calm_sdk calm_agent_project calm_session calm_attached"
  have "fst ?run = Inr ()" by code_simp
  then have "?run = (Inr (), snd ?run)" by (simp add: prod_eq_iff)
  from refreshed_session_verified [OF calm_reach(1) this] show ?thesis by auto
qed

end
