(* ===== verification/Spec2Isabelle.thy ===== *)
theory Spec2Isabelle
  imports Core_Guarantees Checkpoint_Local Workspace_Guarantees Jcode_Guarantees Task_Orchestration Build_Loop Web_Build_Pipeline Gateway_Omniroute Persistence_Local
    Agent_Permission
begin

text \<open>
  Verification of the VibeCoder backend (the Rust workspace under \<open>crates/\<close>).

  The program is the backend of a mobile coding assistant. The \<^emph>\<open>core\<close> owns the lifecycle of projects: it
  stores conversations, asks a coding agent or a model for the next step, runs approved commands and
  builds, and guards a checkpoint or a rollback of the project tree against everything else that
  touches the project. A user prompt becomes a \<^emph>\<open>task\<close>: the model gateway lists models, a route policy
  is resolved against that list, the task machine corroborates the chosen model with the coding agent
  and runs the inference, falling back to the next route only while nothing observable has happened.
  The agent and the build system ask for \<^emph>\<open>commands\<close>, which a policy engine validates, keeps pending and
  authorizes one by one. \<^emph>\<open>Builds\<close> are processes observed through a contract; a website project is
  inspected, built stage by stage, and a failed build is turned into bounded evidence for a repair
  turn, inside a loop with a fixed retry budget. \<^emph>\<open>Stores\<close> keep projects, conversations and
  checkpoints on disk under revisions and atomic renames.

  \<^bold>\<open>Theories and sources.\<close>
  \<^item> \<open>Prelude\<close>: results and the \<open>?\<close> operator (\<open>rbind\<close>), checked and saturating word arithmetic,
    reachability and runs of step relations, and the contracts the components share as locales:
    \<open>invariant_system\<close> (an invariant holds in every reachable state), \<open>bounded_retry\<close> (a counter below a
    limit bounds the retries) and \<open>verdict_system\<close> (a verdict once reached is never revised).
  \<^item> \<open>Effects\<close>: fallible operations on a state, their sequencing, and the rules for what they preserve.
  \<^item> \<open>Rust_Text\<close>, \<open>Json\<close>: what the program uses of \<open>str\<close>, \<open>char\<close>, \<open>Path\<close>, UTF-8 and JSON values.
  \<^item> \<open>Domain\<close>: \<open>vibecoder-domain\<close> and the plain part of \<open>vibecoder-gateway-contract\<close>.
  \<^item> \<open>Routing\<close>: \<open>vibecoder-routing\<close>; configuration, resolution, the fallback decision. Interpretation
    \<open>fb\<close> of \<open>bounded_retry\<close>.
  \<^item> \<open>Task_Orchestration\<close>: \<open>vibecoder-task-orchestration\<close>; the task machine over an explicit store of
    progress cells. Interpretation \<open>task\<close> of \<open>invariant_system\<close>.
  \<^item> \<open>Command_Policy\<close>: \<open>vibecoder-command-policy\<close>; validation, the pending broker, decisions, epochs.
    Interpretations \<open>engine\<close> of \<open>invariant_system\<close> and \<open>epochs\<close> of \<open>epoch_authority\<close>.
  \<^item> \<open>Agent_Permission\<close>, \<open>Jcode_Config\<close>, \<open>Jcode_Session\<close>, \<open>Jcode_Turn\<close>, \<open>Jcode_Runtime\<close>:
    \<open>vibecoder-agent-jcode\<close>; the permission broker (interpretation \<open>broker\<close>), options and failures, the
    connection with its session registry and model checks, the callback of a running turn, and every
    operation of the runtime as a step relation. \<open>Jcode_Invariant\<close> (interpretation \<open>jcode\<close> of
    \<open>invariant_system\<close>), \<open>Jcode_Calls\<close> (the calls an operation makes on the SDK, in their order) and
    \<open>Jcode_Guarantees\<close>: what the adapter promises.
  \<^item> \<open>Process_Contract\<close>, \<open>Build_Contract\<close>, \<open>Workspace_Contract\<close>, \<open>Checkpoint_Contract\<close>: the contracts of
    the same names; a build job wraps a process.
  \<^item> \<open>Build_Repair\<close>: \<open>vibecoder-build-repair\<close>; from build output to evidence, fingerprint and prompt.
  \<^item> \<open>Build_Loop\<close>: \<open>vibecoder-build-loop\<close>; the repair loop guard and its permits. Interpretation
    \<open>repair_loop\<close> of \<open>verdict_system\<close>.
  \<^item> \<open>Web_Toolchain\<close>, \<open>Web_Build_Pipeline\<close>: \<open>vibecoder-web-toolchain\<close>, \<open>vibecoder-web-build-pipeline\<close>.
  \<^item> \<open>Gateway_Omniroute\<close>: \<open>vibecoder-gateway-omniroute\<close>; catalog, profile, chat, health.
  \<^item> \<open>Persistence_Contract\<close>, \<open>Persistence_Local\<close>: the store contract and the app-private store over a
    directory of files; revisions, atomic replacement, the turn marker. Interpretations \<open>projects\<close> and
    \<open>conversations\<close> of the register contract.
  \<^item> \<open>Text_Edit\<close>, \<open>Inode_Store\<close>, \<open>Workspace_Local\<close>, \<open>Workspace_Files\<close>, \<open>Workspace_Search\<close>,
    \<open>Workspace_Guarantees\<close>: \<open>vibecoder-workspace-local\<close>; exact-match edits, the file system as inodes
    behind system calls, paths and directory handles, reads, atomic writes and patches, listing and
    search, and their guarantees.
  \<^item> \<open>Tree_Digest\<close>, \<open>Checkpoint_Walk\<close>, \<open>Checkpoint_Local\<close>: \<open>vibecoder-checkpoint-local\<close>; the digest
    format of a tree, the hashing and copying walks, and the store (create, roll back, list, load,
    remove, clean up).
  \<^item> \<open>Core_Checks\<close>: the pure checks of \<open>vibecoder-core\<close>: turn evidence, model context, tool permits, the
    budgets of the explicit loop.
  \<^item> \<open>Core_State\<close>: the state of \<open>VibeCoderCore\<close>, the lifecycle gate (interpretation \<open>gate\<close>), commands,
    checkpoints, rollback, projects and sessions. \<open>Core_Turns\<close>: the backend task, the three kinds of
    persisted turn, website builds and guarded repair turns. \<open>Core_Loop\<close>: the explicit agent loop.
  \<^item> \<open>Turn_Protocol\<close>: the stages a stored conversation goes through during a turn, and that every turn
    touches nothing else. \<open>Core_Requests\<close>: the public operations as one step relation (interpretation
    \<open>core\<close> of \<open>invariant_system\<close>). \<open>Core_Guarantees\<close>: the promises of the core, with instances.
  \<^item> This theory: the properties that span components, from the pipeline's command to its
    authorization and from the gateway's list to a resolved route.

  \<^bold>\<open>How the code is modelled.\<close> A struct is a record, an enum a datatype; a method with \<open>&mut self\<close>
  returns its result and the updated record; \<open>Result\<close> is a sum whose left side is the error with the
  code the program uses. Fixed-width counters are words, lengths (\<open>usize\<close> of in-memory data) are
  natural numbers, texts are lists of code points whose UTF-8 length every bound counts. A \<open>HashMap\<close>
  is an association list with distinct keys or a map. Fresh identifiers, clock readings, the readings of
  a cancellation flag and the results of awaited operations are arguments, so that the theorems
  quantify over them. A guard that Rust drops at the end of a scope (a lifecycle permit) is taken and
  given back explicitly around the operation it protects. All functions are total; the recursive ones
  have termination proofs, and no fuel is used: the explicit loop recurses on the turns its budget
  leaves, the tree walks on the tree.

  \<^bold>\<open>Parameters.\<close> Code outside the repository is a parameter: SHA-256 (\<open>H\<close>), JSON parsing (\<open>J\<close>, \<open>D\<close>),
  serialization, the text form of a UUID (\<open>U\<close>), and the HTTP exchange, which appears as its result. What
  the core calls through trait objects (agent, gateway, workspace, process runtime, checkpoint store)
  is the record \<open>core_env\<close> of arbitrary operations on a state of their own, and so is the agent's SDK for
  the adapter (\<open>jcode_sdk\<close>). The disk is an explicit directory or a store of inodes with an arbitrary
  outcome for every system call, in \<open>Checkpoint_Walk\<close> the record \<open>disk_io\<close>, in \<open>Inode_Store\<close> the record
  \<open>os\<close>.
  The hypotheses on them, each met by an instance in the witnesses:
  \<^item> a freshly printed UUID parses back, and its text is a plain file name (\<open>uuid_ok\<close>, \<open>uuid_plain\<close>);
  \<^item> a stored document that was written parses back (\<open>codec_ok\<close>);
  \<^item> for the round trip of a checkpoint only: no other process changes the tree meanwhile and the names
    listed are the names present (\<open>quiet_io\<close>, \<open>names_io\<close>). The guarantees about failures and crashes
    (\<open>rollback_atomic\<close>, \<open>checkpoint_publication\<close>) hold for every outcome of every call;
  \<^item> for the workspace: no other process changes the store during a call (\<open>quiet_os\<close>), the store has no
    dangling names (\<open>closed_store\<close>), and for the exact listing every name is delivered
    (\<open>full_listing\<close>); which calls fail stays arbitrary;
  \<^item> nothing is assumed of SHA-256: \<open>digest_determines_tree\<close> gives equal trees or an explicit collision.

  \<^bold>\<open>What is shown.\<close> The core keeps its stores, its command engine and its lifecycle gate well formed in
  every reachable state; a checkpoint or rollback excludes every other use of its project and a
  rollback is refused while a turn is pending; every kind of turn moves exactly one conversation through
  asked and answered or withdrawn (an agent turn cut short may leave it asked, which is a finding); the
  explicit loop ends within its budget; a backend task revokes the authority given out before it. A
  rollback leaves the old or the new tree, a checkpoint is visible only when complete, restoring it
  gives back the tree, and its digest determines that tree. A write or a patch of a project file is all or
  nothing, a complete listing is exact, and every search match is where it says. The agent adapter is
  consistent under every interleaving: a session never moves to another project, a turn keeps the
  connection and attachment it started with, a bridged turn stays within its tools and its handler sees
  exactly its own stream, a model is corroborated by an observation made after it was set, and after a
  rollback a session is attached again, to the verified directory, or not at all. Stores refine a register with revisions.
  Routing resolves exactly the configured models and falls back at most seven times; a task runs only a
  corroborated model, never switches after observable progress, and reports the truth. Only validated
  commands confined to the project are authorized, each decision is single use, revocation is final,
  and the agent is auto-approved only what was granted. Build evidence is total, bounded and free of
  forged delimiters (except for the bidirectional-control defect, shown by a counterexample), the repair
  loop is bounded and its stop is final. Toolchain reports are faithful to the files, installs are
  locked and script free, stages run in order, and their commands pass the command policy. The gateway's
  list satisfies the resolver, its profile attestation fails closed, and its health agrees with its list.

  \<^bold>\<open>What is not modelled.\<close> Debug formatting and serde attributes; locks, beyond the poison flags of the
  command engine and of the permission broker and the poisoned lifecycle gate, are the atomicity of a
  step; the creation of the private directories of the stores and the ownership and mode checks made
  there; directory entries that are not UTF-8, which cleanup skips. Left out as input and output of the
  operating system, whose behaviour is not in the repository: process spawning, signals and pipe readers
  (\<open>vibecoder-process-local\<close>), the HTTP transport and the bootstrap process of the gateway, and the FFI surface
  and host state of the Android application. Configuration loading and secret references
  (\<open>vibecoder-config\<close>, \<open>vibecoder-secrets\<close>) and the readiness report of packaged runtimes
  (\<open>vibecoder-runtime-packaging\<close>) are not modelled either. The vendored agent is third-party code.
\<close>

text \<open>C28: A proposed build command can be authorized end to end. When the project's package manager is
  an allowed runtime tool, requesting the pipeline's current command on a fresh engine asks for
  approval of exactly that command, approving it issues an envelope that is valid for execution, and
  the authorized command is the one the pipeline expects for its current stage.\<close>

theorem pipeline_stage_authorization:
  assumes "ut_parse_str U (ut_hyphenated U fresh) = Some fresh"
    and "current_command p = Inr c" and "wr_package_manager (pl_report p) = Some m"
    and "runtime_tool_id m \<in> set (cp_allowed_runtime_tools config)"
    and "validate_session_scope sid = Inr ()"
  shows "\<exists>a s1 en s2.
    request_command U fresh (engine_new config) sid (pl_project_id p) c = (Inr (ApprovalRequired a), s1)
    \<and> ca_command a = c
    \<and> decide U s1 sid (pl_project_id p) a CA_AllowOnce = (Inr (Authorized en), s2)
    \<and> command_matches_current_stage p (en_command en) = Inr ()
    \<and> validate_execution_envelope s2 en = Inr ()"
proof -
  have c: "validate_command_spec c = Inr c" "policy_denial config c = None"
    using current_command_valid [OF assms(2)] assms(3,4) by (auto simp: policy_denial_def)
  let ?a = "\<lparr>ca_request_id = ut_hyphenated U fresh, ca_session_id = sid,
    ca_project_id = pl_project_id p, ca_command = c\<rparr>"
  let ?s1 = "(engine_new config)\<lparr>es_pending := [(ut_hyphenated U fresh,
    \<lparr>pc_session_id = sid, pc_project_id = pl_project_id p, pc_command = c\<rparr>)]\<rparr>"
  have request: "request_command U fresh (engine_new config) sid (pl_project_id p) c
      = (Inr (ApprovalRequired ?a), ?s1)"
    using c assms(5)
    by (simp add: request_command_def engine_new_def lock_state_def session_pending_def
        duplicate_pending_def Let_def MAX_PENDING_COMMANDS_def MAX_PENDING_PER_SESSION_def)
  have "command_matches_current_stage p c = Inr ()"
    using assms(2) command_eq_refl by (simp add: command_matches_current_stage_def)
  then have "\<exists>en s2. decide U ?s1 sid (pl_project_id p) ?a CA_AllowOnce = (Inr (Authorized en), s2)
      \<and> command_matches_current_stage p (en_command en) = Inr ()
      \<and> validate_execution_envelope s2 en = Inr ()"
    using assms(1,5) command_eq_refl [of c]
    by (simp add: decide_def check_approval_def validate_request_id_def lock_state_def Let_def
        validate_execution_envelope_def project_epoch_def engine_new_def)
  then show ?thesis using request by auto
qed

text \<open>C30: Routes configured among the listed models always resolve. If a well-formed route
  configuration names, for every target, a model of the gateway's list with the configured provider,
  then resolution against that list succeeds with those models in the configured order.\<close>

theorem listed_routes_resolve:
  assumes "list_models D fetched credential = Inr ms" and "ok_policy config"
    and "\<forall>t \<in> set (config_targets config). \<exists>m \<in> set ms. target_matches t m"
  shows "\<exists>p. resolve config ms = Inr p
    \<and> list_all2 target_matches (config_targets config) (rv_routes p)"
proof -
  obtain pick where pick: "\<forall>t \<in> set (config_targets config). pick t \<in> set ms \<and> target_matches t (pick t)"
    using assms(3) by metis
  let ?p = "\<lparr>rv_routes = map pick (config_targets config), rv_fallback_on = rp_fallback_on config,
    rv_fallback_boundary = rp_fallback_boundary config\<rparr>"
  have routes: "list_all2 target_matches (config_targets config) (map pick (config_targets config))"
    using pick by (simp add: list_all2_map2 list.rel_refl_strong)
  then have "resolves_to config ms ?p"
    using pick assms(2) listed_ok_catalog [OF assms(1)] by (auto simp: resolves_to_def)
  then have "resolve config ms = Inr ?p" by (simp add: resolve_Inr)
  with routes show ?thesis by (intro exI [of _ ?p]) simp
qed

section \<open>Concrete instances\<close>

theorem pipeline_stage_authorization_witness:
  "\<exists>a s1 en s2.
    request_command demo_uuid_text 5 (engine_new demo_policy_config) demo_session demo_project
      demo_install_command = (Inr (ApprovalRequired a), s1)
    \<and> decide demo_uuid_text s1 demo_session demo_project a CA_AllowOnce = (Inr (Authorized en), s2)
    \<and> validate_execution_envelope s2 en = Inr ()"
proof -
  have pid: "pl_project_id demo_pipeline = demo_project"
    and pm: "wr_package_manager (pl_report demo_pipeline) = Some Npm"
    by (simp_all add: demo_pipeline_def demo_report_def)
  have u: "ut_parse_str demo_uuid_text (ut_hyphenated demo_uuid_text 5) = Some 5"
    by (simp add: demo_uuid_text_def)
  have "runtime_tool_id Npm \<in> set (cp_allowed_runtime_tools demo_policy_config)"
    "validate_session_scope demo_session = Inr ()"
    by code_simp+
  from pipeline_stage_authorization [OF u demo_current_command pm this] show ?thesis
    unfolding pid by blast
qed

theorem listed_routes_resolve_witness:
  "\<exists>p. resolve demo_route demo_models = Inr p
    \<and> list_all2 target_matches (config_targets demo_route) (rv_routes p)"
proof -
  have "policy_config_validate demo_route = Inr ()" by code_simp
  then have ok: "ok_policy demo_route" by (simp add: policy_config_validate_Inr)
  have "\<forall>t \<in> set (config_targets demo_route). \<exists>m \<in> set demo_models. target_matches t m"
    by (simp add: config_targets_def demo_route_def demo_models_def target_matches_def)
  then show ?thesis by (rule listed_routes_resolve [OF demo_list_models ok])
qed

end
